(* ===== verification/Prelude.thy ===== *)
theory Prelude
  imports Complex_Main "HOL-Library.AList"
begin

text \<open>
  Shared vocabulary of the development: time, JSON-like values, database tables as
  association lists with the SQL statements the services use, and lemmas on lists and
  options that several components need.

  Timestamps and intervals are integers counting microseconds, the resolution of the
  database's \<open>timestamptz\<close> and of Python's \<open>datetime\<close>. Python integers and the
  database's NUMERIC and BIGINT columns are \<open>int\<close>.
\<close>

named_theorems table_simps
named_theorems time_simps

section \<open>Time\<close>

type_synonym usec = int

definition seconds :: "int \<Rightarrow> usec" where
  "seconds n = n * 1000000"

definition minutes :: "int \<Rightarrow> usec" where
  "minutes n = seconds (60 * n)"

definition hours :: "int \<Rightarrow> usec" where
  "hours n = minutes (60 * n)"

definition days :: "int \<Rightarrow> usec" where
  "days n = hours (24 * n)"

lemmas time_defs [time_simps] = seconds_def minutes_def hours_def days_def

lemma days_mono [simp]: "days a \<le> days b \<longleftrightarrow> a \<le> b"
  by (simp add: time_simps)

lemma days_pos [simp]: "0 < days n \<longleftrightarrow> 0 < n"
  by (simp add: time_simps)

section \<open>JSON values\<close>

datatype json =
    JNull
  | JBool bool
  | JInt int
  | JFloat rat
  | JStr string
  | JArr "json list"
  | JObj "(string \<times> json) list"

section \<open>Tables\<close>

text \<open>
  A table is an association list from its primary key to its row, in insertion order.
  \<open>row_of\<close> is a \<open>SELECT\<close> by key, \<open>put_row\<close> an insert or an update by key,
  \<open>insert_new\<close> an \<open>INSERT ... ON CONFLICT DO NOTHING\<close> (with whether it inserted),
  \<open>update_where\<close> an \<open>UPDATE ... WHERE\<close>, \<open>rows_where\<close> a \<open>SELECT ... WHERE\<close>,
  and \<open>drop_row\<close> a \<open>DELETE\<close> by key.
\<close>

type_synonym ('k, 'r) table = "('k \<times> 'r) list"

definition row_of :: "('k, 'r) table \<Rightarrow> 'k \<Rightarrow> 'r option" where
  "row_of t k = map_of t k"

definition has_row :: "('k, 'r) table \<Rightarrow> 'k \<Rightarrow> bool" where
  "has_row t k \<longleftrightarrow> row_of t k \<noteq> None"

definition put_row :: "'k \<Rightarrow> 'r \<Rightarrow> ('k, 'r) table \<Rightarrow> ('k, 'r) table" where
  "put_row k r t = AList.update k r t"

definition drop_row :: "'k \<Rightarrow> ('k, 'r) table \<Rightarrow> ('k, 'r) table" where
  "drop_row k t = AList.delete k t"

definition insert_new :: "'k \<Rightarrow> 'r \<Rightarrow> ('k, 'r) table \<Rightarrow> ('k, 'r) table \<times> bool" where
  "insert_new k r t = (if has_row t k then (t, False) else (put_row k r t, True))"

definition update_where ::
  "('k \<Rightarrow> 'r \<Rightarrow> bool) \<Rightarrow> ('r \<Rightarrow> 'r) \<Rightarrow> ('k, 'r) table \<Rightarrow> ('k, 'r) table" where
  "update_where p f t = map (\<lambda>(k, r). (k, if p k r then f r else r)) t"

definition rows_where :: "('k \<Rightarrow> 'r \<Rightarrow> bool) \<Rightarrow> ('k, 'r) table \<Rightarrow> ('k \<times> 'r) list" where
  "rows_where p t = filter (\<lambda>(k, r). p k r) t"

text \<open>A table with a primary key: every key occurs once.\<close>

definition keyed :: "('k, 'r) table \<Rightarrow> bool" where
  "keyed t \<longleftrightarrow> distinct (map fst t)"

lemma row_of_empty [simp, table_simps]: "row_of [] k = None"
  by (simp add: row_of_def)

lemma row_of_Cons [simp, table_simps]:
  "row_of ((k', r) # t) k = (if k = k' then Some r else row_of t k)"
  by (simp add: row_of_def)

lemma row_of_put [simp, table_simps]:
  "row_of (put_row k r t) k' = (if k' = k then Some r else row_of t k')"
  by (simp add: row_of_def put_row_def update_conv)

lemma row_of_drop [simp, table_simps]:
  "row_of (drop_row k t) k' = (if k' = k then None else row_of t k')"
  by (simp add: row_of_def drop_row_def delete_conv)

lemma row_of_update_where [simp, table_simps]:
  "row_of (update_where p f t) k = map_option (\<lambda>r. if p k r then f r else r) (row_of t k)"
  by (induction t) (auto simp: row_of_def update_where_def)

lemma row_of_insert_new [table_simps]:
  "row_of (fst (insert_new k r t)) k' =
     (if k' = k \<and> row_of t k = None then Some r else row_of t k')"
  by (auto simp: insert_new_def has_row_def)

lemma insert_new_flag [table_simps]: "snd (insert_new k r t) \<longleftrightarrow> row_of t k = None"
  by (simp add: insert_new_def has_row_def)

lemma row_of_snoc: "row_of (t @ [(k, r)]) i = (case row_of t i of Some x \<Rightarrow> Some x | None \<Rightarrow> if i = k then Some r else None)"
  by (induction t) auto

lemma keyed_put [simp]: "keyed t \<Longrightarrow> keyed (put_row k r t)"
  by (simp add: keyed_def put_row_def distinct_update)

lemma keyed_drop [simp]: "keyed t \<Longrightarrow> keyed (drop_row k t)"
  by (simp add: keyed_def drop_row_def distinct_delete)

lemma keyed_insert_new [simp]: "keyed t \<Longrightarrow> keyed (fst (insert_new k r t))"
  by (simp add: insert_new_def)

lemma keyed_update_where [simp]: "keyed (update_where p f t) \<longleftrightarrow> keyed t"
  by (simp add: keyed_def update_where_def comp_def case_prod_unfold)

lemma keyed_Nil [simp]: "keyed []"
  by (simp add: keyed_def)

lemma in_rows_where: "(k, r) \<in> set (rows_where p t) \<longleftrightarrow> (k, r) \<in> set t \<and> p k r"
  by (auto simp: rows_where_def)

lemma keyed_row_of: "keyed t \<Longrightarrow> (k, r) \<in> set t \<longleftrightarrow> row_of t k = Some r"
  by (simp add: keyed_def row_of_def)

lemma row_of_in: "row_of t k = Some r \<Longrightarrow> (k, r) \<in> set t"
  by (simp add: row_of_def map_of_SomeD)

lemma row_of_rows_where:
  "keyed t \<Longrightarrow> k \<in> fst ` set (rows_where p t) \<longleftrightarrow> (\<exists>r. row_of t k = Some r \<and> p k r)"
  by (force simp: rows_where_def keyed_row_of)

section \<open>Option and list helpers\<close>

text \<open>Python's \<open>x or y\<close> on an optional integer: \<open>None\<close> and 0 are both false.\<close>

definition or_int :: "int option \<Rightarrow> int \<Rightarrow> int" where
  "or_int x y = (case x of None \<Rightarrow> y | Some n \<Rightarrow> if n = 0 then y else n)"

lemma or_int_simps [simp]:
  "or_int None y = y" "or_int (Some 0) y = y" "n \<noteq> 0 \<Longrightarrow> or_int (Some n) y = n"
  by (simp_all add: or_int_def)

text \<open>\<open>int()\<close> of a decimal or of a rational number truncates towards zero.\<close>

definition py_int :: "rat \<Rightarrow> int" where
  "py_int q = (if q < 0 then - \<lfloor>- q\<rfloor> else \<lfloor>q\<rfloor>)"

end
