(* ===== verification/PyFloat.thy ===== *)
theory PyFloat
  imports Prelude
begin

text \<open>
  Python's floating-point numbers and decimals. A finite float is the rational number it
  denotes, and every operation rounds the exact result to the nearest representable number,
  ties to even. The rounding is generic in the radix and the precision: \<open>b64\<close> (radix 2,
  53 digits) is IEEE binary64, \<open>dec28\<close> (radix 10, 28 digits) the default context of
  Python's \<open>decimal\<close> module.

  The exponent range is unbounded: overflow to infinity, subnormal numbers and NaN are not
  modelled, and the amounts of these services (dollars, ETH, credits) are far inside the
  range. Both zeros are 0.
\<close>

section \<open>Rounding to an integer\<close>

definition round_half_even :: "rat \<Rightarrow> int" where
  "round_half_even x =
     (let f = \<lfloor>x\<rfloor>; d = x - of_int f
      in if d < 1/2 then f else if d > 1/2 then f + 1 else if even f then f else f + 1)"

lemma rhe_of_int [simp]: "round_half_even (of_int n) = n"
  by (simp add: round_half_even_def)

lemma rhe_bounds: "\<lfloor>x\<rfloor> \<le> round_half_even x" "round_half_even x \<le> \<lfloor>x\<rfloor> + 1"
  by (simp_all add: round_half_even_def Let_def)

lemma rhe_error: "\<bar>of_int (round_half_even x) - x\<bar> \<le> 1/2"
proof -
  have "of_int \<lfloor>x\<rfloor> \<le> x" "x < of_int \<lfloor>x\<rfloor> + 1" by linarith+
  then show ?thesis
    unfolding round_half_even_def Let_def by (auto split: if_splits)
qed

lemma rhe_mono: "x \<le> y \<Longrightarrow> round_half_even x \<le> round_half_even y"
proof (cases "\<lfloor>x\<rfloor> = \<lfloor>y\<rfloor>")
  case True
  assume "x \<le> y"
  with True show ?thesis by (auto simp: round_half_even_def Let_def)
next
  case False
  assume "x \<le> y"
  then have "\<lfloor>x\<rfloor> \<le> \<lfloor>y\<rfloor>" by (rule floor_mono)
  with False have "\<lfloor>x\<rfloor> + 1 \<le> \<lfloor>y\<rfloor>" by simp
  then show ?thesis using rhe_bounds(2) [of x] rhe_bounds(1) [of y] by linarith
qed

lemma rhe_uminus: "round_half_even (- x) = - round_half_even x"
proof (cases "x = of_int \<lfloor>x\<rfloor>")
  case True
  then show ?thesis by (metis of_int_minus rhe_of_int)
next
  case False
  then have "of_int \<lfloor>x\<rfloor> < x" using of_int_floor_le [of x] by linarith
  then have "\<lceil>x\<rceil> = \<lfloor>x\<rfloor> + 1" by linarith
  then have "\<lfloor>- x\<rfloor> = - (\<lfloor>x\<rfloor> + 1)" by (simp add: floor_minus)
  then show ?thesis
    by (auto simp: round_half_even_def Let_def)
qed

section \<open>Magnitude\<close>

text \<open>\<open>mag b x\<close> is the exponent of the leading digit of a positive \<open>x\<close> in radix \<open>b\<close>.\<close>

function mag :: "nat \<Rightarrow> rat \<Rightarrow> int" where
  "mag b x =
     (if x \<le> 0 \<or> b < 2 then 0
      else if x < 1 then mag b (x * of_nat b) - 1
      else if of_nat b \<le> x then mag b (x / of_nat b) + 1
      else 0)"
  by pat_completeness auto

lemma mag_down_less:
  fixes x :: rat
  assumes "0 < x" "x < 1" "2 \<le> b"
  shows "nat \<lceil>1 / (x * of_nat b)\<rceil> < nat \<lceil>1 / x\<rceil>"
proof -
  have y: "1 < 1 / x" using assms by simp
  have "1 / (x * of_nat b) \<le> 1 / (x * 2)"
    using assms by (intro divide_left_mono mult_left_mono) auto
  also have "\<dots> = (1 / x) / 2" by simp
  finally have le: "\<lceil>1 / (x * of_nat b)\<rceil> \<le> \<lceil>(1 / x) / 2\<rceil>" by (rule ceiling_mono)
  have "\<lceil>(1 / x) / 2\<rceil> < \<lceil>1 / x\<rceil>"
  proof -
    define z where "z = 1 / x"
    have "2 \<le> \<lceil>z\<rceil>" using y unfolding z_def by linarith
    then have two: "(2::rat) \<le> of_int \<lceil>z\<rceil>" by (metis of_int_le_iff of_int_numeral)
    have "z \<le> of_int \<lceil>z\<rceil>" by simp
    with two have "z / 2 \<le> of_int \<lceil>z\<rceil> - 1" by linarith
    then have "z / 2 \<le> of_int (\<lceil>z\<rceil> - 1)" by simp
    then show ?thesis unfolding z_def by linarith
  qed
  with le have "\<lceil>1 / (x * of_nat b)\<rceil> < \<lceil>1 / x\<rceil>" by linarith
  moreover have "0 < \<lceil>1 / (x * of_nat b)\<rceil>" using assms by simp
  ultimately show ?thesis by linarith
qed

lemma mag_up_less:
  fixes x :: rat
  assumes "of_nat b \<le> x" "2 \<le> b"
  shows "nat \<lfloor>x / of_nat b\<rfloor> < nat \<lfloor>x\<rfloor>"
proof -
  have "2 \<le> x" using assms by (metis of_nat_le_iff of_nat_numeral order_trans)
  have "x / of_nat b \<le> x / 2"
    using \<open>2 \<le> x\<close> assms(2) by (intro divide_left_mono) auto
  then have "\<lfloor>x / of_nat b\<rfloor> \<le> \<lfloor>x / 2\<rfloor>" by (rule floor_mono)
  moreover have "\<lfloor>x / 2\<rfloor> < \<lfloor>x\<rfloor>" using \<open>2 \<le> x\<close> by linarith
  moreover have "0 \<le> \<lfloor>x / of_nat b\<rfloor>" using \<open>2 \<le> x\<close> by simp
  ultimately show ?thesis by linarith
qed

termination mag
proof (relation "measures [\<lambda>(b, x). if x < 1 then 1 else 0,
                            \<lambda>(b, x). if x < 1 then nat \<lceil>1 / x\<rceil> else nat \<lfloor>x\<rfloor>]", goal_cases)
  case 1
  then show ?case by simp
next
  case (2 b x)
  then show ?case using mag_down_less [of x b] by auto
next
  case (3 b x)
  then have "1 \<le> x / of_nat b" by (simp add: field_simps)
  with 3 show ?case using mag_up_less [of b x] by auto
qed

declare mag.simps [simp del]

lemma mag_bounds:
  "0 < x \<Longrightarrow> 2 \<le> b \<Longrightarrow> of_nat b powi mag b x \<le> x \<and> x < of_nat b powi (mag b x + 1)"
proof (induction b x rule: mag.induct)
  case (1 b x)
  define B :: rat where "B = of_nat b"
  have B: "0 < B" "B \<noteq> 0" using "1.prems" by (simp_all add: B_def)
  consider "x < 1" | "1 \<le> x" "B \<le> x" | "1 \<le> x" "x < B" by linarith
  then show ?case
  proof cases
    case 1
    then have m: "mag b x = mag b (x * B) - 1"
      using "1.prems" by (simp add: mag.simps [of b x] B_def)
    have "B powi mag b (x * B) \<le> x * B \<and> x * B < B powi (mag b (x * B) + 1)"
      using "1.IH"(1) "1.prems" 1 by (auto simp: B_def)
    then show ?thesis
      using B unfolding m B_def [symmetric]
      by (simp add: power_int_diff power_int_add field_simps)
  next
    case 2
    then have m: "mag b x = mag b (x / B) + 1"
      using "1.prems" by (simp add: mag.simps [of b x] B_def)
    have "B powi mag b (x / B) \<le> x / B \<and> x / B < B powi (mag b (x / B) + 1)"
      using "1.IH"(2) "1.prems" 2 by (auto simp: B_def)
    then show ?thesis
      using B unfolding m B_def [symmetric]
      by (simp add: power_int_add field_simps power2_eq_square)
  next
    case 3
    then have "mag b x = 0"
      using "1.prems" by (simp add: mag.simps [of b x] B_def)
    with 3 show ?thesis by (simp add: B_def)
  qed
qed

lemma mag_mono:
  assumes "0 < x" "x \<le> y" "2 \<le> b"
  shows "mag b x \<le> mag b y"
proof (rule ccontr)
  assume "\<not> mag b x \<le> mag b y"
  then have "mag b y + 1 \<le> mag b x" by simp
  then have "(of_nat b :: rat) powi (mag b y + 1) \<le> of_nat b powi mag b x"
    using assms(3) by (intro power_int_increasing) auto
  also have "\<dots> \<le> x" using mag_bounds [of x b] assms by simp
  also have "\<dots> \<le> y" by fact
  also have "y < of_nat b powi (mag b y + 1)" using mag_bounds [of y b] assms by simp
  finally show False by simp
qed

section \<open>Rounding to a number of digits\<close>

definition rnd :: "nat \<Rightarrow> nat \<Rightarrow> rat \<Rightarrow> rat" where
  "rnd b p x =
     (if x = 0 then 0
      else let u = of_nat b powi (mag b \<bar>x\<bar> - (int p - 1))
           in of_int (round_half_even (x / u)) * u)"

lemma rnd_zero [simp]: "rnd b p 0 = 0"
  by (simp add: rnd_def)

lemma rnd_uminus: "rnd b p (- x) = - rnd b p x"
  by (simp add: rnd_def Let_def rhe_uminus)

lemma rnd_scaled:
  assumes "0 < x" "2 \<le> b" "1 \<le> p"
  defines "u \<equiv> (of_nat b :: rat) powi (mag b x - (int p - 1))"
  shows "0 < u" and "of_nat b ^ (p - 1) * u = of_nat b powi mag b x"
    and "of_nat b ^ p * u = of_nat b powi (mag b x + 1)"
proof -
  have b: "(0::rat) < of_nat b" "(of_nat b :: rat) \<noteq> 0" using assms by simp_all
  show "0 < u" using b unfolding u_def by (intro zero_less_power_int)
  have e: "of_nat b ^ n = (of_nat b :: rat) powi int n" for n
    by simp
  show "of_nat b ^ (p - 1) * u = of_nat b powi mag b x"
    using assms(3) b unfolding e u_def by (subst power_int_add [symmetric]) auto
  show "of_nat b ^ p * u = of_nat b powi (mag b x + 1)"
    using assms(3) b unfolding e u_def by (subst power_int_add [symmetric]) auto
qed

lemma rnd_bounds:
  assumes "0 < x" "2 \<le> b" "1 \<le> p"
  shows "of_nat b powi mag b x \<le> rnd b p x" and "rnd b p x \<le> of_nat b powi (mag b x + 1)"
proof -
  define u :: rat where "u = of_nat b powi (mag b x - (int p - 1))"
  note u = rnd_scaled [OF assms, folded u_def]
  have r: "rnd b p x = of_int (round_half_even (x / u)) * u"
    using assms(1) by (simp add: rnd_def u_def Let_def)
  have "of_nat b ^ (p - 1) * u \<le> x" "x \<le> of_nat b ^ p * u"
    using mag_bounds [OF assms(1,2)] unfolding u(2) u(3) by simp_all
  then have "of_nat b ^ (p - 1) \<le> x / u" "x / u \<le> of_nat b ^ p"
    using u(1) by (simp_all add: pos_le_divide_eq pos_divide_le_eq)
  then have "round_half_even (of_int (int b ^ (p - 1))) \<le> round_half_even (x / u)"
    "round_half_even (x / u) \<le> round_half_even (of_int (int b ^ p))"
    by (auto intro!: rhe_mono)
  then have "int b ^ (p - 1) \<le> round_half_even (x / u)" "round_half_even (x / u) \<le> int b ^ p"
    by (simp_all only: rhe_of_int)
  then have "(of_int (int b ^ (p - 1)) :: rat) \<le> of_int (round_half_even (x / u))"
    "(of_int (round_half_even (x / u)) :: rat) \<le> of_int (int b ^ p)"
    by (simp_all only: of_int_le_iff)
  then have "of_nat b ^ (p - 1) * u \<le> of_int (round_half_even (x / u)) * u"
    "of_int (round_half_even (x / u)) * u \<le> of_nat b ^ p * u"
    using u(1) by simp_all
  then show "of_nat b powi mag b x \<le> rnd b p x" and "rnd b p x \<le> of_nat b powi (mag b x + 1)"
    unfolding r u(2) u(3) by simp_all
qed

lemma rnd_pos: "0 < x \<Longrightarrow> 2 \<le> b \<Longrightarrow> 1 \<le> p \<Longrightarrow> 0 < rnd b p x"
  using rnd_bounds(1) [of x b p]
  by (metis gr0I not_numeral_le_zero of_nat_0_less_iff order_less_le_trans zero_less_power_int)

lemma rnd_mono_pos:
  assumes "0 < x" "x \<le> y" "2 \<le> b" "1 \<le> p"
  shows "rnd b p x \<le> rnd b p y"
proof (cases "mag b x = mag b y")
  case True
  define u :: rat where "u = of_nat b powi (mag b x - (int p - 1))"
  have "0 < u" using rnd_scaled(1) [OF assms(1,3,4)] by (simp add: u_def)
  then have "round_half_even (x / u) \<le> round_half_even (y / u)"
    using assms(2) by (intro rhe_mono) (simp add: divide_right_mono)
  then show ?thesis
    using True assms(1,2) \<open>0 < u\<close> by (simp add: rnd_def u_def Let_def)
next
  case False
  with mag_mono [OF assms(1-3)] have "mag b x + 1 \<le> mag b y" by simp
  have "rnd b p x \<le> of_nat b powi (mag b x + 1)"
    using rnd_bounds(2) [OF assms(1,3,4)] .
  also have "\<dots> \<le> of_nat b powi mag b y"
    using \<open>mag b x + 1 \<le> mag b y\<close> assms(3) by (intro power_int_increasing) auto
  also have "\<dots> \<le> rnd b p y"
    using assms by (intro rnd_bounds(1)) auto
  finally show ?thesis .
qed

lemma rnd_mono:
  assumes "x \<le> y" "2 \<le> b" "1 \<le> p"
  shows "rnd b p x \<le> rnd b p y"
proof -
  have neg: "rnd b p z < 0" if "z < 0" for z
    using rnd_pos [of "- z" b p] that assms(2,3) by (simp add: rnd_uminus)
  consider "0 < x" | "x = 0" | "x < 0" "0 \<le> y" | "y < 0" using assms(1) by linarith
  then show ?thesis
  proof cases
    case 1
    then show ?thesis using assms by (rule rnd_mono_pos)
  next
    case 2
    then show ?thesis using rnd_pos [of y b p] assms by (cases "y = 0") auto
  next
    case 3
    then show ?thesis using neg [of x] rnd_pos [of y b p] assms by (cases "y = 0") auto
  next
    case 4
    then show ?thesis
      using rnd_mono_pos [of "- y" "- x" b p] assms by (simp add: rnd_uminus)
  qed
qed

lemma rnd_error:
  assumes "2 \<le> b" "1 \<le> p"
  shows "\<bar>rnd b p x - x\<bar> \<le> \<bar>x\<bar> / (2 * of_nat b ^ (p - 1))"
proof (cases "x = 0")
  case True
  then show ?thesis by simp
next
  case False
  then have a: "0 < \<bar>x\<bar>" by simp
  define u :: rat where "u = of_nat b powi (mag b \<bar>x\<bar> - (int p - 1))"
  note u = rnd_scaled [OF a assms, folded u_def]
  have "rnd b p x - x = (of_int (round_half_even (x / u)) - x / u) * u"
    using False u(1) by (simp add: rnd_def u_def [symmetric] Let_def left_diff_distrib)
  then have "\<bar>rnd b p x - x\<bar> \<le> 1/2 * u"
    using rhe_error [of "x / u"] u(1) by (simp add: abs_mult)
  also have "\<dots> = of_nat b powi mag b \<bar>x\<bar> / (2 * of_nat b ^ (p - 1))"
    using assms(1) by (simp add: u(2) [symmetric])
  also have "\<dots> \<le> \<bar>x\<bar> / (2 * of_nat b ^ (p - 1))"
    using mag_bounds [OF a assms(1)] by (intro divide_right_mono) auto
  finally show ?thesis .
qed

lemma mag_less:
  assumes "0 < x" "x < of_nat b ^ p" "2 \<le> b"
  shows "mag b x < int p"
proof (rule ccontr)
  assume "\<not> mag b x < int p"
  then have "(of_nat b :: rat) powi int p \<le> of_nat b powi mag b x"
    using assms(3) by (intro power_int_increasing) auto
  also have "\<dots> \<le> x" using mag_bounds [OF assms(1,3)] by simp
  finally show False using assms(2) by simp
qed

text \<open>Integers with at most \<open>p\<close> digits are exact.\<close>

lemma rnd_int_pos:
  assumes "0 < n" "n < int b ^ p" "2 \<le> b"
  shows "rnd b p (of_int n) = of_int n"
proof -
  define k where "k = nat (int p - 1 - mag b (of_int n))"
  have "(of_int n :: rat) < of_int (int b ^ p)" using assms(2) by (simp only: of_int_less_iff)
  then have "mag b (of_int n) < int p" using assms by (intro mag_less) simp_all
  then have k: "mag b (of_int n) - (int p - 1) = - int k" by (simp add: k_def)
  have "(of_int n :: rat) / of_nat b powi (- int k) = of_int (n * int b ^ k)"
    by (simp add: power_int_minus field_simps)
  then have "rnd b p (of_int n) = of_int (n * int b ^ k) * of_nat b powi (- int k)"
    using assms(1) by (simp add: rnd_def k Let_def del: of_int_mult)
  also have "\<dots> = of_int n"
    using assms(3) by (simp add: power_int_minus field_simps)
  finally show ?thesis .
qed

lemma rnd_int:
  assumes "\<bar>n\<bar> < int b ^ p" "2 \<le> b"
  shows "rnd b p (of_int n) = of_int n"
proof -
  consider "n = 0" | "0 < n" | "n < 0" by linarith
  then show ?thesis
  proof cases
    case 3
    then have "rnd b p (of_int (- n)) = of_int (- n)"
      using assms by (intro rnd_int_pos) auto
    then show ?thesis by (simp add: rnd_uminus)
  qed (use assms in \<open>auto intro: rnd_int_pos\<close>)
qed

lemma mag_unique:
  assumes "of_nat b powi e \<le> x" "x < of_nat b powi (e + 1)" "2 \<le> b"
  shows "mag b x = e"
proof -
  have b: "(1::rat) < of_nat b" using assms(3) by simp
  have "0 < (of_nat b :: rat) powi e" using assms(3) by (intro zero_less_power_int) auto
  then have "0 < x" using assms(1) by linarith
  note m = mag_bounds [OF this assms(3)]
  have "\<not> e + 1 \<le> mag b x"
  proof
    assume "e + 1 \<le> mag b x"
    then have "(of_nat b :: rat) powi (e + 1) \<le> of_nat b powi mag b x"
      using b by (intro power_int_increasing) auto
    with m assms(2) show False by linarith
  qed
  moreover have "\<not> mag b x + 1 \<le> e"
  proof
    assume "mag b x + 1 \<le> e"
    then have "(of_nat b :: rat) powi (mag b x + 1) \<le> of_nat b powi e"
      using b by (intro power_int_increasing) auto
    with m assms(1) show False by linarith
  qed
  ultimately show ?thesis by linarith
qed

text \<open>Rounding is idempotent: a rounded number is representable.\<close>

lemma rnd_rnd_pos:
  assumes "0 < x" "2 \<le> b" "1 \<le> p"
  shows "rnd b p (rnd b p x) = rnd b p x"
proof -
  define m where "m = mag b x"
  define u :: rat where "u = of_nat b powi (m - (int p - 1))"
  define k where "k = round_half_even (x / u)"
  note u = rnd_scaled [OF assms, folded m_def, folded u_def]
  have y: "rnd b p x = of_int k * u"
    using assms(1) by (simp add: rnd_def u_def k_def m_def Let_def)
  note bd = rnd_bounds [OF assms, folded m_def]
  have pos: "0 < rnd b p x" using assms by (rule rnd_pos)
  have b: "(of_nat b :: rat) \<noteq> 0" using assms(2) by simp
  show ?thesis
  proof (cases "rnd b p x < of_nat b powi (m + 1)")
    case True
    then have "mag b (rnd b p x) = m" using bd assms(2) by (intro mag_unique) auto
    then have "rnd b p (rnd b p x) = of_int (round_half_even (of_int k)) * u"
      using pos u(1) unfolding y by (simp add: rnd_def u_def [symmetric] Let_def)
    then show ?thesis by (simp add: y)
  next
    case False
    then have e: "rnd b p x = of_nat b powi (m + 1)" using bd by linarith
    have "mag b (rnd b p x) = m + 1"
      unfolding e using assms(2) by (intro mag_unique power_int_strict_increasing) auto
    moreover have "(of_nat b :: rat) powi (m + 1) / of_nat b powi (m + 1 - (int p - 1)) =
        of_int (int b ^ (p - 1))"
      using b assms(3) by (simp add: power_int_diff [symmetric] of_nat_diff flip: power_int_of_nat)
    ultimately have "rnd b p (rnd b p x) =
        of_int (int b ^ (p - 1)) * of_nat b powi (m + 1 - (int p - 1))"
      using pos assms(2) unfolding e by (simp add: rnd_def Let_def del: of_int_power)
    also have "\<dots> = of_nat b powi (m + 1)"
    proof -
      have "of_int (int b ^ (p - 1)) = (of_nat b :: rat) powi (int p - 1)"
        using assms(3) by (simp add: of_nat_diff flip: power_int_of_nat)
      then show ?thesis using b by (simp add: add.commute flip: power_int_add)
    qed
    finally show ?thesis by (simp add: e)
  qed
qed

lemma rnd_rnd:
  assumes "2 \<le> b" "1 \<le> p"
  shows "rnd b p (rnd b p x) = rnd b p x"
proof -
  consider "x = 0" | "0 < x" | "0 < - x" by linarith
  then show ?thesis
  proof cases
    case 3
    from rnd_rnd_pos [OF this assms] show ?thesis by (simp add: rnd_uminus)
  qed (use assms in \<open>auto intro: rnd_rnd_pos\<close>)
qed

section \<open>The contract of a rounding\<close>

text \<open>
  What the services' amounts rely on: a rounding is monotone, keeps 0 and signs, and is off
  by at most a fixed share of the exact value.
\<close>

locale rounding =
  fixes fl :: "rat \<Rightarrow> rat" and eps :: rat
  assumes fl_mono: "x \<le> y \<Longrightarrow> fl x \<le> fl y"
    and fl_zero: "fl 0 = 0"
    and fl_minus: "fl (- x) = - fl x"
    and fl_error: "\<bar>fl x - x\<bar> \<le> \<bar>x\<bar> * eps"
begin

lemma fl_nonneg: "0 \<le> x \<Longrightarrow> 0 \<le> fl x"
  using fl_mono [of 0 x] by (simp add: fl_zero)

lemma fl_nonpos: "x \<le> 0 \<Longrightarrow> fl x \<le> 0"
  using fl_mono [of x 0] by (simp add: fl_zero)

lemma fl_upper: "0 \<le> x \<Longrightarrow> fl x \<le> x * (1 + eps)"
  using fl_error [of x] by (simp add: algebra_simps)

lemma fl_lower: "0 \<le> x \<Longrightarrow> x * (1 - eps) \<le> fl x"
  using fl_error [of x] by (simp add: algebra_simps)

lemma fl_le_fixed: "fl y = y \<Longrightarrow> x \<le> y \<Longrightarrow> fl x \<le> y"
  using fl_mono [of x y] by simp

lemma fl_ge_fixed: "fl y = y \<Longrightarrow> y \<le> x \<Longrightarrow> y \<le> fl x"
  using fl_mono [of y x] by simp

lemma exact_le_of_fl_less: "fl y = y \<Longrightarrow> y < fl x \<Longrightarrow> y < x"
  using fl_mono [of x y] by (cases "x \<le> y") auto

end

definition b64 :: "rat \<Rightarrow> rat" where
  "b64 = rnd 2 53"

definition dec28 :: "rat \<Rightarrow> rat" where
  "dec28 = rnd 10 28"

interpretation f64: rounding b64 "1 / 2 ^ 53"
  using rnd_error [of 2 53]
  by unfold_locales (simp_all add: b64_def rnd_mono rnd_uminus)

interpretation d28: rounding dec28 "5 / 10 ^ 28"
  using rnd_error [of 10 28]
  by unfold_locales (simp_all add: dec28_def rnd_mono rnd_uminus)

section \<open>Operations on floats\<close>

definition fadd :: "rat \<Rightarrow> rat \<Rightarrow> rat" where "fadd x y = b64 (x + y)"
definition fsub :: "rat \<Rightarrow> rat \<Rightarrow> rat" where "fsub x y = b64 (x - y)"
definition fmul :: "rat \<Rightarrow> rat \<Rightarrow> rat" where "fmul x y = b64 (x * y)"
definition fdiv :: "rat \<Rightarrow> rat \<Rightarrow> rat" where "fdiv x y = b64 (x / y)"
definition to_float :: "int \<Rightarrow> rat" where "to_float n = b64 (of_int n)"

text \<open>\<open>round(x, n)\<close> rounds the exact value to \<open>n\<close> decimal places and reads the result back
  as a float.\<close>

definition py_round :: "rat \<Rightarrow> nat \<Rightarrow> rat" where
  "py_round x n = b64 (of_int (round_half_even (x * 10 ^ n)) / 10 ^ n)"

definition is_float :: "rat \<Rightarrow> bool" where
  "is_float x \<longleftrightarrow> b64 x = x"

lemma is_float_b64 [simp]: "is_float (b64 x)"
  by (simp add: is_float_def b64_def rnd_rnd)

lemmas float_ops = fadd_def fsub_def fmul_def fdiv_def to_float_def

lemma to_float_small: "\<bar>n\<bar> < 2 ^ 53 \<Longrightarrow> to_float n = of_int n"
  using rnd_int [of n 2 53] by (simp add: to_float_def b64_def)

lemma fmul_nonneg: "0 \<le> x \<Longrightarrow> 0 \<le> y \<Longrightarrow> 0 \<le> fmul x y"
  by (simp add: fmul_def f64.fl_nonneg)

lemma fdiv_nonneg: "0 \<le> x \<Longrightarrow> 0 \<le> y \<Longrightarrow> 0 \<le> fdiv x y"
  by (simp add: fdiv_def f64.fl_nonneg)

lemma fsub_pos_iff: "0 < fsub x y \<longleftrightarrow> y < x"
  using rnd_pos [of "x - y" 2 53] f64.fl_nonpos [of "x - y"]
  by (auto simp: fsub_def b64_def not_less [symmetric])

lemma decimal_round_error: "\<bar>of_int (round_half_even (x * 10 ^ n)) / 10 ^ n - x\<bar> \<le> 1 / (2 * 10 ^ n)"
proof -
  have "of_int (round_half_even (x * 10 ^ n)) / 10 ^ n - x =
      (of_int (round_half_even (x * 10 ^ n)) - x * 10 ^ n) / 10 ^ n"
    by (simp add: diff_divide_distrib)
  then show ?thesis
    using rhe_error [of "x * 10 ^ n"] by (simp add: abs_divide divide_le_eq field_simps)
qed

end
