(* ===== verification/PyText.thy ===== *)
theory PyText
  imports Prelude "HOL-Library.Code_Target_Numeral"
begin

text \<open>
  Python's strings, as far as the services use them, on ASCII text: case folding, stripping,
  padding, prefixes, and reading and printing integers in a base (\<open>int(s, b)\<close>, \<open>str(n)\<close>,
  \<open>hex(n)\<close>) with Python's underscore, sign and prefix rules. Characters outside ASCII are
  left as they are by the case functions.
\<close>

named_theorems text_simps

section \<open>Characters\<close>

abbreviation code :: "char \<Rightarrow> nat" where
  "code c \<equiv> of_char c"

definition is_space :: "char \<Rightarrow> bool" where
  "is_space c \<longleftrightarrow> (9 \<le> code c \<and> code c \<le> 13) \<or> (28 \<le> code c \<and> code c \<le> 32)"

definition is_digit :: "char \<Rightarrow> bool" where
  "is_digit c \<longleftrightarrow> 48 \<le> code c \<and> code c \<le> 57"

definition is_upper :: "char \<Rightarrow> bool" where
  "is_upper c \<longleftrightarrow> 65 \<le> code c \<and> code c \<le> 90"

definition is_lower :: "char \<Rightarrow> bool" where
  "is_lower c \<longleftrightarrow> 97 \<le> code c \<and> code c \<le> 122"

definition lower_char :: "char \<Rightarrow> char" where
  "lower_char c = (if is_upper c then char_of (code c + 32) else c)"

definition upper_char :: "char \<Rightarrow> char" where
  "upper_char c = (if is_lower c then char_of (code c - 32) else c)"

lemma lower_char_idem [simp]: "lower_char (lower_char c) = lower_char c"
proof (cases "is_upper c")
  case True
  then have "code (char_of (code c + 32) :: char) = code c + 32"
    by (simp add: is_upper_def)
  with True show ?thesis by (simp add: lower_char_def is_upper_def)
qed (simp add: lower_char_def)

section \<open>Strings\<close>

definition lower :: "string \<Rightarrow> string" where
  "lower s = map lower_char s"

definition upper :: "string \<Rightarrow> string" where
  "upper s = map upper_char s"

lemma lower_idem [simp]: "lower (lower s) = lower s"
  by (simp add: lower_def)

lemma lower_Nil [simp]: "lower [] = []"
  by (simp add: lower_def)

lemma lower_eq_Nil [simp]: "lower s = [] \<longleftrightarrow> s = []"
  by (simp add: lower_def)

definition lstrip_where :: "(char \<Rightarrow> bool) \<Rightarrow> string \<Rightarrow> string" where
  "lstrip_where p s = dropWhile p s"

definition rstrip_where :: "(char \<Rightarrow> bool) \<Rightarrow> string \<Rightarrow> string" where
  "rstrip_where p s = rev (dropWhile p (rev s))"

definition strip :: "string \<Rightarrow> string" where
  "strip s = rstrip_where is_space (lstrip_where is_space s)"

definition lstrip_chars :: "string \<Rightarrow> string \<Rightarrow> string" where
  "lstrip_chars cs s = lstrip_where (\<lambda>c. c \<in> set cs) s"

definition rstrip_chars :: "string \<Rightarrow> string \<Rightarrow> string" where
  "rstrip_chars cs s = rstrip_where (\<lambda>c. c \<in> set cs) s"

lemma dropWhile_none: "(\<And>c. c \<in> set s \<Longrightarrow> \<not> p c) \<Longrightarrow> dropWhile p s = s"
  by (cases s) auto

lemma strip_id:
  assumes "\<And>c. c \<in> set s \<Longrightarrow> \<not> is_space c"
  shows "strip s = s"
  using dropWhile_none [of s is_space] dropWhile_none [of "rev s" is_space] assms
  by (simp add: strip_def rstrip_where_def lstrip_where_def)

definition startswith :: "string \<Rightarrow> string \<Rightarrow> bool" where
  "startswith s p \<longleftrightarrow> take (length p) s = p"

definition removeprefix :: "string \<Rightarrow> string \<Rightarrow> string" where
  "removeprefix s p = (if startswith s p then drop (length p) s else s)"

fun contains :: "string \<Rightarrow> string \<Rightarrow> bool" where
  "contains [] p \<longleftrightarrow> p = []"
| "contains (c # cs) p \<longleftrightarrow> startswith (c # cs) p \<or> contains cs p"

definition rjust :: "string \<Rightarrow> nat \<Rightarrow> char \<Rightarrow> string" where
  "rjust s w c = replicate (w - length s) c @ s"

lemma length_rjust [simp]: "length (rjust s w c) = max w (length s)"
  by (simp add: rjust_def)

text \<open>\<open>x or y\<close> on strings, and on optional strings.\<close>

definition or_text :: "string \<Rightarrow> string \<Rightarrow> string" where
  "or_text s t = (if s = [] then t else s)"

definition or_text_opt :: "string option \<Rightarrow> string \<Rightarrow> string" where
  "or_text_opt x t = (case x of None \<Rightarrow> t | Some s \<Rightarrow> or_text s t)"

lemma or_text_simps [simp]: "or_text [] t = t" "s \<noteq> [] \<Longrightarrow> or_text s t = s"
  by (simp_all add: or_text_def)

section \<open>Reading integers\<close>

definition digit_of :: "nat \<Rightarrow> char \<Rightarrow> nat option" where
  "digit_of b c =
     (let v = (if is_digit c then code c - 48
               else if is_lower c then code c - 87
               else if is_upper c then code c - 55 else b)
      in if v < b then Some v else None)"

text \<open>
  Digits with single underscores between them: the flag says whether the last character was
  a digit, which is where an underscore or the end may follow.
\<close>

fun read_digits :: "nat \<Rightarrow> int \<Rightarrow> bool \<Rightarrow> string \<Rightarrow> int option" where
  "read_digits b acc ok [] = (if ok then Some acc else None)"
| "read_digits b acc ok (c # cs) =
     (if c = CHR ''_'' then (if ok then read_digits b acc False cs else None)
      else case digit_of b c of
             None \<Rightarrow> None
           | Some d \<Rightarrow> read_digits b (acc * int b + int d) True cs)"

definition read_unsigned :: "nat \<Rightarrow> string \<Rightarrow> int option" where
  "read_unsigned b s =
     (if b = 16 \<and> startswith (lower s) ''0x''
      then (let t = drop 2 s in read_digits b 0 False (if startswith t ''_'' then drop 1 t else t))
      else read_digits b 0 False s)"

definition parse_int :: "nat \<Rightarrow> string \<Rightarrow> int option" where
  "parse_int b s =
     (case strip s of
        [] \<Rightarrow> None
      | c # cs \<Rightarrow>
          if c = CHR ''-'' then map_option uminus (read_unsigned b cs)
          else if c = CHR ''+'' then read_unsigned b cs
          else read_unsigned b (c # cs))"

section \<open>Printing integers\<close>

definition digit_char :: "nat \<Rightarrow> char" where
  "digit_char d = (if d < 10 then char_of (d + 48) else char_of (d + 87))"

fun show_base :: "nat \<Rightarrow> nat \<Rightarrow> string" where
  "show_base b n =
     (if b < 2 \<or> n < b then [digit_char n] else show_base b (n div b) @ [digit_char (n mod b)])"

declare show_base.simps [simp del]

definition show_int :: "int \<Rightarrow> string" where
  "show_int n = (if n < 0 then ''-'' else []) @ show_base 10 (nat \<bar>n\<bar>)"

definition hex_digits :: "int \<Rightarrow> string" where
  "hex_digits n = (if n < 0 then ''-'' else []) @ show_base 16 (nat \<bar>n\<bar>)"

definition hex :: "int \<Rightarrow> string" where
  "hex n = (if n < 0 then ''-0x'' else ''0x'') @ show_base 16 (nat \<bar>n\<bar>)"

section \<open>Round trips\<close>

lemma code_digit_char: "d < 16 \<Longrightarrow> code (digit_char d) = (if d < 10 then d + 48 else d + 87)"
  by (simp add: digit_char_def)

lemma digit_of_digit_char: "d < b \<Longrightarrow> b \<le> 16 \<Longrightarrow> digit_of b (digit_char d) = Some d"
  using code_digit_char [of d]
  by (simp add: digit_of_def is_digit_def is_lower_def is_upper_def Let_def)

lemma digit_char_plain:
  assumes "d < 16"
  shows "digit_char d \<noteq> CHR ''_''" "digit_char d \<noteq> CHR ''-''" "digit_char d \<noteq> CHR ''+''"
    "\<not> is_space (digit_char d)" "lower_char (digit_char d) = digit_char d"
    "lower_char (digit_char d) \<noteq> CHR ''x''"
proof -
  have c: "code (digit_char d) = (if d < 10 then d + 48 else d + 87)"
    using assms by (rule code_digit_char)
  have ne: "digit_char d \<noteq> x" if "code x \<notin> {48..57} \<union> {97..102}" for x
    using c that assms by (auto split: if_splits)
  show "digit_char d \<noteq> CHR ''_''" "digit_char d \<noteq> CHR ''-''" "digit_char d \<noteq> CHR ''+''"
    by (rule ne, simp)+
  show "\<not> is_space (digit_char d)" using c assms by (auto simp: is_space_def split: if_splits)
  show l: "lower_char (digit_char d) = digit_char d"
    using c assms by (auto simp: lower_char_def is_upper_def split: if_splits)
  show "lower_char (digit_char d) \<noteq> CHR ''x''"
    unfolding l by (rule ne, simp)
qed

lemma read_digits_snoc:
  assumes "read_digits b acc ok s = Some v" and "digit_of b c = Some d" and "c \<noteq> CHR ''_''"
  shows "read_digits b acc ok (s @ [c]) = Some (v * int b + int d)"
  using assms(1)
  by (induction s arbitrary: acc ok) (auto simp: assms(2,3) split: if_splits option.splits)

lemma read_show_base:
  assumes "2 \<le> b" "b \<le> 16"
  shows "read_digits b 0 False (show_base b n) = Some (int n)"
  using assms
proof (induction b n rule: show_base.induct)
  case (1 b n)
  show ?case
  proof (cases "n < b")
    case True
    then show ?thesis
      using 1 by (simp add: show_base.simps [of b n] digit_of_digit_char digit_char_plain)
  next
    case False
    then have "read_digits b 0 False (show_base b (n div b)) = Some (int (n div b))"
      using 1 by simp
    moreover have "n mod b < b" using 1 by simp
    ultimately have "read_digits b 0 False (show_base b (n div b) @ [digit_char (n mod b)]) =
        Some (int (n div b) * int b + int (n mod b))"
      using 1(2,3) by (intro read_digits_snoc digit_of_digit_char digit_char_plain(1)) linarith+
    also have "int (n div b) * int b + int (n mod b) = int n"
      by (metis div_mult_mod_eq of_nat_add of_nat_mult)
    finally show ?thesis
      using False 1 by (subst show_base.simps) simp
  qed
qed

lemma show_base_ne [simp]: "show_base b n \<noteq> []"
  by (subst show_base.simps) simp

lemma set_show_base:
  assumes "2 \<le> b" "b \<le> 16" "c \<in> set (show_base b n)"
  shows "\<exists>d<b. c = digit_char d"
  using assms
proof (induction b n rule: show_base.induct)
  case (1 b n)
  show ?case
  proof (cases "n < b")
    case True
    then have "c = digit_char n" using 1(4) by (simp add: show_base.simps [of b n])
    with True show ?thesis by blast
  next
    case False
    then have "c \<in> set (show_base b (n div b)) \<or> c = digit_char (n mod b)"
      using 1(2,4) by (subst (asm) show_base.simps) auto
    moreover have "\<exists>d<b. c = digit_char d" if "c \<in> set (show_base b (n div b))"
      using 1(1) [OF _ 1(2,3) that] 1(2) False by simp
    moreover have "n mod b < b" using 1(2) by simp
    ultimately show ?thesis by blast
  qed
qed

lemma show_base_plain:
  assumes "2 \<le> b" "b \<le> 16" "c \<in> set (show_base b n)"
  shows "c \<noteq> CHR ''_''" "c \<noteq> CHR ''-''" "c \<noteq> CHR ''+''" "\<not> is_space c"
    "lower_char c = c" "lower_char c \<noteq> CHR ''x''"
proof -
  obtain d where "d < b" "c = digit_char d" using set_show_base [OF assms] by blast
  then show "c \<noteq> CHR ''_''" "c \<noteq> CHR ''-''" "c \<noteq> CHR ''+''" "\<not> is_space c"
    "lower_char c = c" "lower_char c \<noteq> CHR ''x''"
    using assms(2) digit_char_plain [of d] by simp_all
qed

lemma lower_show_base [simp]: "2 \<le> b \<Longrightarrow> b \<le> 16 \<Longrightarrow> lower (show_base b n) = show_base b n"
  by (simp add: lower_def map_idI show_base_plain)

lemma show_base_no_prefix:
  assumes "2 \<le> b" "b \<le> 16"
  shows "\<not> startswith (lower (show_base b n)) ''0x''"
proof
  assume "startswith (lower (show_base b n)) ''0x''"
  then have "CHR ''x'' \<in> set (lower (show_base b n))"
    unfolding startswith_def by (metis in_set_takeD list.set_intros(1) list.set_intros(2))
  then have "CHR ''x'' \<in> lower_char ` set (show_base b n)"
    by (simp add: lower_def)
  then show False using show_base_plain(6) [OF assms] by force
qed

lemma read_unsigned_show_base:
  "2 \<le> b \<Longrightarrow> b \<le> 16 \<Longrightarrow> read_unsigned b (show_base b n) = Some (int n)"
  using show_base_no_prefix [of b n] read_show_base [of b n]
  by (auto simp: read_unsigned_def)

lemma parse_int_plain:
  assumes "s \<noteq> []" "\<And>c. c \<in> set s \<Longrightarrow> \<not> is_space c \<and> c \<noteq> CHR ''-'' \<and> c \<noteq> CHR ''+''"
  shows "parse_int b s = read_unsigned b s"
proof -
  have "strip s = s" by (rule strip_id) (simp add: assms(2))
  then show ?thesis using assms by (cases s) (auto simp: parse_int_def)
qed

lemma parse_show_int [simp]: "parse_int 10 (show_int n) = Some n"
proof (cases "n < 0")
  case True
  have "strip (CHR ''-'' # show_base 10 (nat \<bar>n\<bar>)) = CHR ''-'' # show_base 10 (nat \<bar>n\<bar>)"
    by (rule strip_id) (auto simp: is_space_def dest: show_base_plain(4) [rotated 2])
  with True show ?thesis
    by (simp add: show_int_def parse_int_def read_unsigned_show_base)
next
  case False
  then show ?thesis
    using show_base_plain [of 10 _ "nat \<bar>n\<bar>"]
    by (simp add: show_int_def parse_int_plain read_unsigned_show_base)
qed

lemma lower_0x: "lower ''0x'' = ''0x''"
  by code_simp

lemma read_unsigned_0x:
  "read_unsigned 16 (CHR ''0'' # CHR ''x'' # show_base 16 n) = Some (int n)"
proof -
  obtain c cs where c: "show_base 16 n = c # cs" by (cases "show_base 16 n") auto
  then have "c \<noteq> CHR ''_''" using show_base_plain(1) [of 16 c n] by simp
  then have "\<not> startswith (show_base 16 n) ''_''"
    by (simp add: c startswith_def)
  moreover have "startswith (lower (CHR ''0'' # CHR ''x'' # show_base 16 n)) ''0x''"
    using lower_0x by (simp add: lower_def startswith_def)
  ultimately show ?thesis
    by (simp add: read_unsigned_def Let_def read_show_base)
qed

lemma parse_hex [simp]: "parse_int 16 (hex n) = Some n"
proof (cases "n < 0")
  case True
  have "strip (''-0x'' @ show_base 16 (nat \<bar>n\<bar>)) = ''-0x'' @ show_base 16 (nat \<bar>n\<bar>)"
    by (rule strip_id) (auto simp: is_space_def dest: show_base_plain(4) [rotated 2])
  with True show ?thesis
    by (simp add: hex_def parse_int_def read_unsigned_0x)
next
  case False
  have "strip (''0x'' @ show_base 16 (nat \<bar>n\<bar>)) = ''0x'' @ show_base 16 (nat \<bar>n\<bar>)"
    by (rule strip_id) (auto simp: is_space_def dest: show_base_plain(4) [rotated 2])
  with False show ?thesis
    by (simp add: hex_def parse_int_def read_unsigned_0x)
qed

lemma strip_show_int [simp]: "strip (show_int n) = show_int n"
  by (rule strip_id) (auto simp: show_int_def is_space_def split: if_splits
      dest: show_base_plain(4) [rotated 2])

lemma lower_show_int [simp]: "lower (show_int n) = show_int n"
proof -
  have "lower_char CHR ''-'' = CHR ''-''" by (simp add: lower_char_def is_upper_def)
  then show ?thesis
    using lower_show_base [of 10 "nat \<bar>n\<bar>"] by (simp add: show_int_def lower_def)
qed

lemma digit_char_digit: "d < 10 \<Longrightarrow> is_digit (digit_char d)"
  by (simp add: is_digit_def code_digit_char)

lemma show_base_digits: "list_all is_digit (show_base 10 n)"
  using set_show_base [of 10 _ n] digit_char_digit by (force simp: list_all_iff)

section \<open>Zero padding\<close>

lemma read_digits_zeros:
  assumes "2 \<le> b" "s \<noteq> []"
  shows "read_digits b 0 ok (replicate k CHR ''0'' @ s) = read_digits b 0 (ok \<or> 0 < k) s"
proof (induction k arbitrary: ok)
  case (Suc k)
  have "digit_of b CHR ''0'' = Some 0"
    using assms(1) by (simp add: digit_of_def is_digit_def)
  then show ?case using Suc.IH [of True] by simp
qed simp

lemma read_digits_ok: "digit_of b c = Some d \<Longrightarrow> c \<noteq> CHR ''_'' \<Longrightarrow>
  read_digits b acc ok (c # cs) = read_digits b acc ok' (c # cs)"
  by simp

end
