(* ===== verification/Settings.thy ===== *)
theory Settings
  imports PyFloat PyText
begin

text \<open>
  The Telegram bot's configuration, \<open>app/config.py\<close>: every field of the settings class with
  its default, and its methods. The environment may override any field, so the theorems of
  the other theories quantify over an arbitrary \<open>settings\<close> value.
\<close>

record settings =
  OPRAI_TELEGRAM_BOT_TOKEN :: string
  OPRAI_TG_BOT_USERNAME :: string
  OPRAI_TG_WEBHOOK_URL :: string
  OPRAI_TG_WEBHOOK_SECRET :: string
  OPRAI_TG_SIGNER_URL :: string
  GATEWAY_URL :: string
  OPRAI_INTERNAL_API_KEY :: string
  CHAIN_INTEL_URL :: string
  ALERT_POLL_SECONDS :: int
  ALERT_COOLDOWN_MINUTES :: int
  COPY_NODE_RPC :: string
  COPY_POLL_MS :: int
  COPY_SLIPPAGE_PCT :: rat
  COPY_ETH_USD_FALLBACK :: rat
  OPRAI_TG_APP_DOMAIN :: string
  ROBINHOOD_RPC :: string
  OPRAI_TG_RPC_OVERRIDE :: string
  OPRAI_TG_RPC_FALLBACK :: string
  DATABASE_URL :: string
  DB_SCHEMA :: string
  VAULT_ADDR :: string
  VAULT_TOKEN :: string
  OPRAI_TG_DEV_WALLET :: string
  OPRAI_TG_FREE_USER_CREDITS :: int
  OPRAI_TG_FREE_GROUP_CREDITS :: int
  OPRAI_TG_FREE_WINDOW_HOURS :: int
  OPRAI_TG_TOKEN_ADDRESS :: string
  OPRAI_TG_STABLE_ADDRESS :: string
  OPRAI_TG_SUB_PRICE_USD :: rat
  OPRAI_TG_SUB_DAYS :: int
  OPRAI_TG_SUB_DAILY_CREDITS :: int
  OPRAI_TG_SUB_MONTHLY_CREDITS :: int
  OPRAI_TG_TREASURY_WALLET :: string
  PORT :: int
  BIND_HOST :: string
  LOG_LEVEL :: string

definition default_settings :: settings where
  "default_settings = \<lparr>
     OPRAI_TELEGRAM_BOT_TOKEN = [],
     OPRAI_TG_BOT_USERNAME = ''Oprai_Labs_Bot'',
     OPRAI_TG_WEBHOOK_URL = [],
     OPRAI_TG_WEBHOOK_SECRET = [],
     OPRAI_TG_SIGNER_URL = ''http://127.0.0.1:3060'',
     GATEWAY_URL = ''http://127.0.0.1:3001'',
     OPRAI_INTERNAL_API_KEY = [],
     CHAIN_INTEL_URL = ''http://rh-chain-intel-api:3160'',
     ALERT_POLL_SECONDS = 8,
     ALERT_COOLDOWN_MINUTES = 30,
     COPY_NODE_RPC = ''http://rh-nitro:8547'',
     COPY_POLL_MS = 400,
     COPY_SLIPPAGE_PCT = 15,
     COPY_ETH_USD_FALLBACK = 2500,
     OPRAI_TG_APP_DOMAIN = [],
     ROBINHOOD_RPC = ''https://rpc.mainnet.chain.robinhood.com'',
     OPRAI_TG_RPC_OVERRIDE = [],
     OPRAI_TG_RPC_FALLBACK = ''https://rpc.mainnet.chain.robinhood.com'',
     DATABASE_URL = ''postgresql://postgres:@localhost:5433/oprai'',
     DB_SCHEMA = ''tg_schema'',
     VAULT_ADDR = [],
     VAULT_TOKEN = [],
     OPRAI_TG_DEV_WALLET = ''0xb0E580Cf95E2B045b99b31ddF3137D3D88d55b8E'',
     OPRAI_TG_FREE_USER_CREDITS = 10,
     OPRAI_TG_FREE_GROUP_CREDITS = 25,
     OPRAI_TG_FREE_WINDOW_HOURS = 24,
     OPRAI_TG_TOKEN_ADDRESS = ''0xd98e1e5a25702930b2fc92c15f3fef6d2987b5ac'',
     OPRAI_TG_STABLE_ADDRESS = ''0x5fc5360d0400a0fd4f2af552add042d716f1d168'',
     OPRAI_TG_SUB_PRICE_USD = b64 (999 / 100),
     OPRAI_TG_SUB_DAYS = 30,
     OPRAI_TG_SUB_DAILY_CREDITS = 200,
     OPRAI_TG_SUB_MONTHLY_CREDITS = 1000,
     OPRAI_TG_TREASURY_WALLET = [],
     PORT = 3055,
     BIND_HOST = ''127.0.0.1'',
     LOG_LEVEL = ''INFO'' \<rparr>"

definition robinhood_rpc :: "settings \<Rightarrow> string" where
  "robinhood_rpc c = or_text (OPRAI_TG_RPC_OVERRIDE c) (ROBINHOOD_RPC c)"

definition treasury_wallet :: "settings \<Rightarrow> string" where
  "treasury_wallet c = or_text (OPRAI_TG_TREASURY_WALLET c) (OPRAI_TG_DEV_WALLET c)"

text \<open>\<open>s.replace(p, '', 1)\<close>: the first occurrence is cut out.\<close>

fun cut_first :: "string \<Rightarrow> string \<Rightarrow> string" where
  "cut_first p [] = []"
| "cut_first p (c # cs) =
     (if startswith (c # cs) p then drop (length p) (c # cs) else c # cut_first p cs)"

definition pg_dsn :: "settings \<Rightarrow> string" where
  "pg_dsn c = cut_first ''+asyncpg'' (DATABASE_URL c)"

end
