(* ===== verification/World.thy ===== *)
theory World
  imports Settings
begin

text \<open>
  The outside of the services and the effects that reach it. HTTP servers, clocks, the
  environment and Python's rendering of arbitrary values are a parameter, the record
  \<open>outside\<close>; every look at the outside has a number, so the same question may be answered
  differently each time. The clock reads what passed outside plus the time slept here;
  \<open>raw_text\<close> is the text a response's body was parsed from, \<open>auth_cookie\<close> the session cookie
  an exchange sets, \<open>error_text\<close> what a library says of a status or a body it rejects, and
  \<open>chat_answer\<close> how the chat service takes a message. \<open>Out_Of_Fuel\<close> is no exception of
  the program: it is the answer of a loop that used up its fuel, and theorems show it is
  never given. An effectful function maps a state that extends \<open>world\<close> to the new
  state and either an exception or a value.
\<close>

section \<open>Exceptions\<close>

datatype exn =
    EvmError string
  | SignerError string
  | PortfolioError string
  | PriceUnavailable string
  | SubscriptionError string
  | TokenError string
  | GatewayError string
  | RelayError string
  | SushiError string
  | UniswapError string
  | OpenSeaError string
  | SignalsError string
  | CopyError string
  | MorphoError string
  | LaunchError string
  | LighterError string
  | HttpError string
  | AuthError string
  | KeyError string
  | ValueError
  | AttributeError
  | TypeError
  | UniqueViolation
  | DataError
  | IndexError
  | InvalidOperation
  | IntegrityViolation
  | PayoutError string
  | RuntimeError string
  | HttpException int string
  | Out_Of_Fuel

section \<open>The outside\<close>

text \<open>
  An HTTP exchange either fails in transport, with the class and the text of the error, or
  gives a status and a body, \<open>None\<close> when the body is not JSON.
\<close>

datatype http_outcome =
    Transport_Error string string
  | Reply int "json option"

text \<open>How the chat library answers a message: the throttle carries the seconds to wait.\<close>

datatype delivery =
    Sent_To_Chat
  | Retry_After rat
  | Chat_Forbidden
  | Chat_Failed

record outside =
  http :: "nat \<Rightarrow> string \<Rightarrow> string \<Rightarrow> json \<Rightarrow> http_outcome"
  mono :: "nat \<Rightarrow> usec"
  utc :: "nat \<Rightarrow> usec"
  repr_of :: "json \<Rightarrow> string"
  raw_text :: "json option \<Rightarrow> string"
  env_var :: "string \<Rightarrow> string option"
  auth_cookie :: "nat \<Rightarrow> string option"
  error_text :: "http_outcome \<Rightarrow> string"
  chat_answer :: "nat \<Rightarrow> int \<Rightarrow> string \<Rightarrow> delivery"

record world =
  looks :: nat
  slept :: usec
  on_fallback :: bool
  primary_stale :: bool
  lag_checked_at :: usec

section \<open>Effectful functions\<close>

type_synonym ('s, 'a) io = "'s \<Rightarrow> 's \<times> (exn + 'a)"

definition return :: "'a \<Rightarrow> ('s, 'a) io" where
  "return a s = (s, Inr a)"

definition throw :: "exn \<Rightarrow> ('s, 'a) io" where
  "throw e s = (s, Inl e)"

definition bind :: "('s, 'a) io \<Rightarrow> ('a \<Rightarrow> ('s, 'b) io) \<Rightarrow> ('s, 'b) io" where
  "bind m f s = (case m s of (s', Inl e) \<Rightarrow> (s', Inl e) | (s', Inr a) \<Rightarrow> f a s')"

text \<open>\<open>try: m except ...\<close>: the handler sees the exception and may raise again.\<close>

definition try_except :: "('s, 'a) io \<Rightarrow> (exn \<Rightarrow> ('s, 'a) io) \<Rightarrow> ('s, 'a) io" where
  "try_except m h s = (case m s of (s', Inl e) \<Rightarrow> h e s' | (s', Inr a) \<Rightarrow> (s', Inr a))"

definition from_sum :: "exn + 'a \<Rightarrow> ('s, 'a) io" where
  "from_sum r s = (s, r)"

definition modify :: "('s \<Rightarrow> 's) \<Rightarrow> ('s, unit) io" where
  "modify f s = (f s, Inr ())"

definition gets :: "('s \<Rightarrow> 'a) \<Rightarrow> ('s, 'a) io" where
  "gets f s = (s, Inr (f s))"

named_theorems io_simps

lemma io_apply [io_simps]:
  "return a s = (s, Inr a)" "throw e s = (s, Inl e)" "from_sum r s = (s, r)"
  "modify u s = (u s, Inr ())" "gets g s = (s, Inr (g s))"
  by (simp_all add: return_def throw_def from_sum_def modify_def gets_def)

lemma bind_simps [io_simps]:
  "m s = (s', Inr a) \<Longrightarrow> bind m f s = f a s'"
  "m s = (s', Inl e) \<Longrightarrow> bind m f s = (s', Inl e)"
  by (simp_all add: bind_def)

lemma try_simps [io_simps]:
  "m s = (s', Inr a) \<Longrightarrow> try_except m h s = (s', Inr a)"
  "m s = (s', Inl e) \<Longrightarrow> try_except m h s = h e s'"
  by (simp_all add: try_except_def)

lemma bind_return [simp]: "bind (return a) f = f a"
  by (simp add: bind_def return_def fun_eq_iff)

lemma bind_throw [simp]: "bind (throw e) f = throw e"
  by (simp add: bind_def throw_def fun_eq_iff)

lemma bind_assoc: "bind (bind m f) g = bind m (\<lambda>a. bind (f a) g)"
  by (simp add: bind_def fun_eq_iff split: prod.split sum.split)

lemma bind_Inr:
  "bind m f s = (s', Inr b) \<longleftrightarrow> (\<exists>t a. m s = (t, Inr a) \<and> f a t = (s', Inr b))"
  by (auto simp: bind_def split: prod.splits sum.splits)

lemma bind_Inl:
  "bind m f s = (s', Inl e) \<longleftrightarrow>
     m s = (s', Inl e) \<or> (\<exists>t a. m s = (t, Inr a) \<and> f a t = (s', Inl e))"
  by (auto simp: bind_def split: prod.splits sum.splits)

text \<open>\<open>except Exception\<close>: every exception of the program, so not the end of fuel.\<close>

definition catch_all :: "('s, 'a) io \<Rightarrow> (exn \<Rightarrow> ('s, 'a) io) \<Rightarrow> ('s, 'a) io" where
  "catch_all m h = try_except m (\<lambda>e. if e = Out_Of_Fuel then throw e else h e)"

section \<open>Looking outside\<close>

definition http_call ::
  "outside \<Rightarrow> string \<Rightarrow> string \<Rightarrow> json \<Rightarrow> ('z world_scheme, http_outcome) io" where
  "http_call env verb url payload w =
     (w\<lparr>looks := looks w + 1\<rparr>, Inr (http env (looks w) verb url payload))"

definition monotonic :: "outside \<Rightarrow> ('z world_scheme, usec) io" where
  "monotonic env w = (w\<lparr>looks := looks w + 1\<rparr>, Inr (mono env (looks w) + slept w))"

text \<open>A negative sleep ends at once.\<close>

definition sleep :: "usec \<Rightarrow> ('z world_scheme, unit) io" where
  "sleep d w = (w\<lparr>slept := slept w + max 0 d\<rparr>, Inr ())"

text \<open>The database's \<open>now()\<close> and Python's wall clock at this point of a run.\<close>

definition utc_now :: "outside \<Rightarrow> 'z world_scheme \<Rightarrow> usec" where
  "utc_now env w = utc env (looks w) + slept w"

text \<open>What the documentation of \<open>time.monotonic\<close> promises: it never goes back.\<close>

definition clock_monotone :: "outside \<Rightarrow> bool" where
  "clock_monotone env \<longleftrightarrow> (\<forall>m n. m \<le> n \<longrightarrow> mono env m \<le> mono env n)"

text \<open>The wall clock does not go back either.\<close>

definition utc_monotone :: "outside \<Rightarrow> bool" where
  "utc_monotone env \<longleftrightarrow> (\<forall>m n. m \<le> n \<longrightarrow> utc env m \<le> utc env n)"

lemma utc_forward:
  "utc_monotone env \<Longrightarrow> looks w \<le> looks w' \<Longrightarrow> slept w \<le> slept w' \<Longrightarrow> utc_now env w \<le> utc_now env w'"
  by (simp add: utc_monotone_def utc_now_def add_mono)

lemmas look_defs [io_simps] = http_call_def monotonic_def sleep_def

section \<open>Loops over lists\<close>

text \<open>\<open>[f(x) for x in xs]\<close> with effects, and with exceptions only.\<close>

primrec for_each :: "('a \<Rightarrow> ('s, 'b) io) \<Rightarrow> 'a list \<Rightarrow> ('s, 'b list) io" where
  "for_each f [] = return []"
| "for_each f (x # xs) = bind (f x) (\<lambda>y. bind (for_each f xs) (\<lambda>ys. return (y # ys)))"

definition then_sum :: "exn + 'a \<Rightarrow> ('a \<Rightarrow> exn + 'b) \<Rightarrow> exn + 'b" where
  "then_sum r f = (case r of Inl e \<Rightarrow> Inl e | Inr a \<Rightarrow> f a)"

primrec collect :: "('a \<Rightarrow> exn + 'b) \<Rightarrow> 'a list \<Rightarrow> exn + 'b list" where
  "collect f [] = Inr []"
| "collect f (x # xs) = then_sum (f x) (\<lambda>y. then_sum (collect f xs) (\<lambda>ys. Inr (y # ys)))"

lemma then_sum_simps [simp]: "then_sum (Inl e) f = Inl e" "then_sum (Inr a) f = f a"
  by (simp_all add: then_sum_def)

lemma then_sum_Inr: "then_sum r f = Inr b \<longleftrightarrow> (\<exists>a. r = Inr a \<and> f a = Inr b)"
  by (cases r) simp_all

lemma collect_Inr: "collect f xs = Inr ys \<longleftrightarrow> list_all2 (\<lambda>x y. f x = Inr y) xs ys"
  by (induction xs arbitrary: ys) (auto simp: then_sum_Inr list_all2_Cons1)

section \<open>JSON values as Python sees them\<close>

text \<open>\<open>d.get(k)\<close>; on anything but an object it raises.\<close>

definition field :: "string \<Rightarrow> json \<Rightarrow> exn + json" where
  "field k j =
     (case j of
        JObj kvs \<Rightarrow> Inr (case map_of kvs k of None \<Rightarrow> JNull | Some v \<Rightarrow> v)
      | _ \<Rightarrow> Inl AttributeError)"

definition has_key :: "string \<Rightarrow> json \<Rightarrow> bool" where
  "has_key k j = (case j of JObj kvs \<Rightarrow> map_of kvs k \<noteq> None | _ \<Rightarrow> False)"

definition truthy :: "json \<Rightarrow> bool" where
  "truthy j =
     (case j of
        JNull \<Rightarrow> False | JBool b \<Rightarrow> b | JInt n \<Rightarrow> n \<noteq> 0 | JFloat x \<Rightarrow> x \<noteq> 0
      | JStr s \<Rightarrow> s \<noteq> [] | JArr xs \<Rightarrow> xs \<noteq> [] | JObj kvs \<Rightarrow> kvs \<noteq> [])"

definition j_or :: "json \<Rightarrow> json \<Rightarrow> json" where
  "j_or a b = (if truthy a then a else b)"

definition py_str :: "outside \<Rightarrow> json \<Rightarrow> string" where
  "py_str env j =
     (case j of
        JStr s \<Rightarrow> s
      | JInt n \<Rightarrow> show_int n
      | JNull \<Rightarrow> ''None''
      | JBool b \<Rightarrow> (if b then ''True'' else ''False'')
      | _ \<Rightarrow> repr_of env j)"

definition or_raise :: "exn \<Rightarrow> 'a option \<Rightarrow> exn + 'a" where
  "or_raise e x = (case x of None \<Rightarrow> Inl e | Some a \<Rightarrow> Inr a)"

lemma or_raise_simps [simp]: "or_raise e None = Inl e" "or_raise e (Some a) = Inr a"
  by (simp_all add: or_raise_def)

text \<open>\<open>for x in j\<close>, \<open>(j or "").lower()\<close> and the like, \<open>j == n\<close>.\<close>

definition iterate :: "json \<Rightarrow> exn + json list" where
  "iterate j =
     (case j of
        JArr xs \<Rightarrow> Inr xs
      | JObj kvs \<Rightarrow> Inr (map JStr (remdups (map fst kvs)))
      | JStr s \<Rightarrow> Inr (map (\<lambda>c. JStr [c]) s)
      | _ \<Rightarrow> Inl TypeError)"

definition text_method :: "json \<Rightarrow> exn + string" where
  "text_method j =
     (if \<not> truthy j then Inr [] else case j of JStr s \<Rightarrow> Inr s | _ \<Rightarrow> Inl AttributeError)"

definition equals_int :: "json \<Rightarrow> int \<Rightarrow> bool" where
  "equals_int j n \<longleftrightarrow>
     (case j of JInt m \<Rightarrow> m = n | JFloat x \<Rightarrow> x = of_int n | JBool b \<Rightarrow> (if b then 1 else 0) = n | _ \<Rightarrow> False)"

text \<open>\<open>response.raise_for_status()\<close>, and the body of a response that passes it.\<close>

definition raise_for_status :: "http_outcome \<Rightarrow> exn + json option" where
  "raise_for_status o1 =
     (case o1 of
        Transport_Error cls msg \<Rightarrow> Inl (HttpError msg)
      | Reply status body \<Rightarrow>
          if 200 \<le> status \<and> status < 300 then Inr body else Inl (HttpError (show_int status)))"

lemma truthy_simps [simp]:
  "\<not> truthy JNull" "truthy (JBool b) \<longleftrightarrow> b" "truthy (JInt n) \<longleftrightarrow> n \<noteq> 0"
  "truthy (JStr s) \<longleftrightarrow> s \<noteq> []" "truthy (JArr xs) \<longleftrightarrow> xs \<noteq> []" "truthy (JObj kvs) \<longleftrightarrow> kvs \<noteq> []"
  "truthy (JFloat x) \<longleftrightarrow> x \<noteq> 0"
  by (simp_all add: truthy_def)

lemma field_obj [simp]:
  "field k (JObj kvs) = Inr (case map_of kvs k of None \<Rightarrow> JNull | Some v \<Rightarrow> v)"
  by (simp add: field_def)

section \<open>What an effect may do to the state\<close>

text \<open>
  \<open>obeys I R m\<close>: run from a state where \<open>I\<close> holds, \<open>m\<close> keeps \<open>I\<close> and relates the state
  before to the state after by \<open>R\<close>, however it ends. For a reflexive and transitive \<open>R\<close> this
  is compositional, which the locale proves once for every component.
\<close>

definition obeys :: "('s \<Rightarrow> bool) \<Rightarrow> ('s \<Rightarrow> 's \<Rightarrow> bool) \<Rightarrow> ('s, 'a) io \<Rightarrow> bool" where
  "obeys I R m \<longleftrightarrow> (\<forall>w. I w \<longrightarrow> I (fst (m w)) \<and> R w (fst (m w)))"

lemma obeysD: "obeys I R m \<Longrightarrow> I w \<Longrightarrow> m w = (w', r) \<Longrightarrow> I w' \<and> R w w'"
  unfolding obeys_def by (metis fst_conv)

locale io_relation =
  fixes I :: "'s \<Rightarrow> bool" and R :: "'s \<Rightarrow> 's \<Rightarrow> bool"
  assumes R_refl: "R w w" and R_trans: "R w1 w2 \<Longrightarrow> R w2 w3 \<Longrightarrow> R w1 w3"
begin

lemma obeys_still: "(\<And>w. fst (m w) = w) \<Longrightarrow> obeys I R m"
  by (simp add: obeys_def R_refl)

lemma obeys_pure:
  "obeys I R (return a)" "obeys I R (throw e)" "obeys I R (from_sum r)"
  "obeys I R (gets g)"
  by (simp_all add: obeys_still io_simps)

lemma obeys_bind:
  assumes "obeys I R m" and "\<And>a. obeys I R (f a)"
  shows "obeys I R (bind m f)"
  unfolding obeys_def
proof (intro allI impI)
  fix w assume w: "I w"
  obtain w1 r where m: "m w = (w1, r)" by fastforce
  have 1: "I w1" "R w w1" using obeysD [OF assms(1) w m] by simp_all
  show "I (fst (bind m f w)) \<and> R w (fst (bind m f w))"
  proof (cases r)
    case (Inl e)
    then show ?thesis using m 1 by (simp add: bind_def)
  next
    case (Inr a)
    have "I (fst (f a w1)) \<and> R w1 (fst (f a w1))"
      using assms(2) [of a] 1(1) by (simp add: obeys_def)
    then show ?thesis using m 1 Inr R_trans by (auto simp: bind_def)
  qed
qed

lemma obeys_try:
  assumes "obeys I R m" and "\<And>e. obeys I R (h e)"
  shows "obeys I R (try_except m h)"
  unfolding obeys_def
proof (intro allI impI)
  fix w assume w: "I w"
  obtain w1 r where m: "m w = (w1, r)" by fastforce
  have 1: "I w1" "R w w1" using obeysD [OF assms(1) w m] by simp_all
  show "I (fst (try_except m h w)) \<and> R w (fst (try_except m h w))"
  proof (cases r)
    case (Inr a)
    then show ?thesis using m 1 by (simp add: try_except_def)
  next
    case (Inl e)
    have "I (fst (h e w1)) \<and> R w1 (fst (h e w1))"
      using assms(2) [of e] 1(1) by (simp add: obeys_def)
    then show ?thesis using m 1 Inl R_trans by (auto simp: try_except_def)
  qed
qed

lemma obeys_split:
  "(b \<Longrightarrow> obeys I R m) \<Longrightarrow> (\<not> b \<Longrightarrow> obeys I R m') \<Longrightarrow> obeys I R (if b then m else m')"
  "(x = None \<Longrightarrow> obeys I R m) \<Longrightarrow> (\<And>a. x = Some a \<Longrightarrow> obeys I R (g a)) \<Longrightarrow>
     obeys I R (case x of None \<Rightarrow> m | Some a \<Rightarrow> g a)"
  "(\<And>cls msg. o1 = Transport_Error cls msg \<Longrightarrow> obeys I R (h cls msg)) \<Longrightarrow>
     (\<And>st body. o1 = Reply st body \<Longrightarrow> obeys I R (k st body)) \<Longrightarrow>
     obeys I R (case o1 of Transport_Error cls msg \<Rightarrow> h cls msg | Reply st body \<Rightarrow> k st body)"
  "(\<And>a b. p = (a, b) \<Longrightarrow> obeys I R (q a b)) \<Longrightarrow> obeys I R (case p of (a, b) \<Rightarrow> q a b)"
  "(\<And>e. s = Inl e \<Longrightarrow> obeys I R (l e)) \<Longrightarrow> (\<And>a. s = Inr a \<Longrightarrow> obeys I R (rr a)) \<Longrightarrow>
     obeys I R (case s of Inl e \<Rightarrow> l e | Inr a \<Rightarrow> rr a)"
  "(xs = [] \<Longrightarrow> obeys I R m) \<Longrightarrow> (\<And>y ys. xs = y # ys \<Longrightarrow> obeys I R (c y ys)) \<Longrightarrow>
     obeys I R (case xs of [] \<Rightarrow> m | y # ys \<Rightarrow> c y ys)"
  by (auto split: option.split http_outcome.split prod.split sum.split list.split)

lemma obeys_for_each: "(\<And>x. obeys I R (f x)) \<Longrightarrow> obeys I R (for_each f xs)"
  by (induction xs) (simp_all add: obeys_pure obeys_bind)

lemmas obeys_rules = obeys_pure obeys_bind obeys_try obeys_split obeys_for_each

end

text \<open>
  The first instance: effects on the outside alone leave every table of an extended state
  as it was, and only look further and sleep longer.
\<close>

definition same_more :: "'z world_scheme \<Rightarrow> 'z world_scheme \<Rightarrow> bool" where
  "same_more w w' \<longleftrightarrow> world.more w' = world.more w \<and> looks w \<le> looks w' \<and> slept w \<le> slept w'"

abbreviation framed :: "('z world_scheme, 'a) io \<Rightarrow> bool" where
  "framed m \<equiv> obeys (\<lambda>_. True) same_more m"

interpretation frame: io_relation "\<lambda>_. True" same_more
  by unfold_locales (auto simp: same_more_def)

lemma framed_looks:
  "framed (http_call env verb url p)" "framed (monotonic env)" "framed (sleep d)"
  by (simp_all add: obeys_def same_more_def look_defs)

lemma framed_globals:
  "framed (modify (lag_checked_at_update h))" "framed (modify (primary_stale_update k))"
  "framed (modify (on_fallback_update k))"
  by (simp_all add: obeys_def same_more_def io_simps)

lemmas framed_rules = frame.obeys_rules framed_looks framed_globals

end
