(* ===== verification/Chains.thy ===== *)
theory Chains
  imports World
begin

text \<open>
  The chains the bot can reach, \<open>app/services/chains.py\<close>: the registry, its lookups by id,
  name and alias, and the RPC endpoint with its environment override.
\<close>

record chain =
  chain_id :: int
  chain_key :: string
  chain_name :: string
  native_symbol :: string
  default_rpc :: string
  aliases :: "string list"

definition ROBINHOOD :: int where
  "ROBINHOOD = 4663"

definition mk_chain :: "int \<Rightarrow> string \<Rightarrow> string \<Rightarrow> string \<Rightarrow> string \<Rightarrow> string list \<Rightarrow> chain" where
  "mk_chain i k n s r as = \<lparr>chain_id = i, chain_key = k, chain_name = n, native_symbol = s,
     default_rpc = r, aliases = as\<rparr>"

definition CHAINS :: "chain list" where
  "CHAINS = [
     mk_chain ROBINHOOD ''robinhood'' ''Robinhood Chain'' ''ETH''
       ''https://rpc.mainnet.chain.robinhood.com'' [''rh'', ''robinhood-chain''],
     mk_chain 1 ''ethereum'' ''Ethereum'' ''ETH'' ''https://eth.drpc.org'' [''eth'', ''mainnet''],
     mk_chain 8453 ''base'' ''Base'' ''ETH'' ''https://mainnet.base.org'' [],
     mk_chain 42161 ''arbitrum'' ''Arbitrum'' ''ETH'' ''https://arb1.arbitrum.io/rpc'' [''arb''],
     mk_chain 10 ''optimism'' ''Optimism'' ''ETH'' ''https://mainnet.optimism.io'' [''op''],
     mk_chain 137 ''polygon'' ''Polygon'' ''POL'' ''https://polygon.drpc.org'' [''matic''],
     mk_chain 56 ''bsc'' ''BNB Chain'' ''BNB'' ''https://bsc-dataseed.binance.org'' [''bnb'', ''binance'']]"

definition chain_rpc :: "outside \<Rightarrow> chain \<Rightarrow> string" where
  "chain_rpc env ch = or_text_opt (env_var env (upper (chain_key ch) @ ''_RPC'')) (default_rpc ch)"

text \<open>\<open>_BY_ID\<close> is a dictionary built in order: a later chain of the same id would win.\<close>

definition by_id :: "int \<Rightarrow> chain option" where
  "by_id i = map_of (rev (map (\<lambda>c. (chain_id c, c)) CHAINS)) i"

definition is_digits :: "string \<Rightarrow> bool" where
  "is_digits s \<longleftrightarrow> s \<noteq> [] \<and> list_all is_digit s"

definition resolve_chain :: "string \<Rightarrow> chain option" where
  "resolve_chain ref =
     (let r = lower (strip ref)
      in if is_digits r then (case parse_int 10 r of None \<Rightarrow> None | Some i \<Rightarrow> by_id i)
         else find (\<lambda>c. r = chain_key c \<or> r \<in> set (aliases c) \<or> r = lower (chain_name c)) CHAINS)"

definition rpc_for :: "outside \<Rightarrow> int \<Rightarrow> exn + string" where
  "rpc_for env i =
     (case by_id i of
        None \<Rightarrow> Inl (KeyError (''no RPC configured for chain '' @ show_int i))
      | Some ch \<Rightarrow> Inr (chain_rpc env ch))"

definition name_for :: "int \<Rightarrow> string" where
  "name_for i = (case by_id i of None \<Rightarrow> ''chain '' @ show_int i | Some ch \<Rightarrow> chain_name ch)"

definition source_chains :: "chain list" where
  "source_chains = filter (\<lambda>c. chain_id c \<noteq> ROBINHOOD) CHAINS"

section \<open>Lemmas\<close>

lemma chain_ids: "map chain_id CHAINS = [4663, 1, 8453, 42161, 10, 137, 56]"
  by (simp add: CHAINS_def mk_chain_def ROBINHOOD_def)

lemma by_id_in: "c \<in> set CHAINS \<Longrightarrow> by_id (chain_id c) = Some c"
proof -
  assume "c \<in> set CHAINS"
  moreover have "distinct (map fst (rev (map (\<lambda>c. (chain_id c, c)) CHAINS)))"
    using chain_ids by (simp add: comp_def flip: rev_map)
  ultimately show "by_id (chain_id c) = Some c"
    unfolding by_id_def by (intro map_of_is_SomeI) auto
qed

lemma by_id_Some: "by_id i = Some c \<Longrightarrow> c \<in> set CHAINS \<and> chain_id c = i"
  by (auto simp: by_id_def dest!: map_of_SomeD)

lemma rpc_for_known: "c \<in> set CHAINS \<Longrightarrow> rpc_for env (chain_id c) = Inr (chain_rpc env c)"
  by (simp add: rpc_for_def by_id_in)

lemma resolve_decimal: "0 \<le> i \<Longrightarrow> resolve_chain (show_int i) = by_id i"
proof -
  assume "0 \<le> i"
  then have "is_digits (show_int i)"
    using show_base_digits [of "nat \<bar>i\<bar>"] by (simp add: is_digits_def show_int_def)
  then show ?thesis by (simp add: resolve_chain_def Let_def)
qed

lemma resolve_chain_in: "resolve_chain ref = Some c \<Longrightarrow> c \<in> set CHAINS"
  by (auto simp: resolve_chain_def Let_def find_Some_iff dest: by_id_Some
      split: if_splits option.splits)

definition names_of :: "chain \<Rightarrow> string list" where
  "names_of c = ('' '' @ upper (chain_key c)) # aliases c"

definition names_ok :: "chain \<Rightarrow> bool" where
  "names_ok c \<longleftrightarrow>
     list_all (\<lambda>n. map_option chain_id (resolve_chain n) = Some (chain_id c)) (names_of c)"

lemma names_resolve: "list_all names_ok CHAINS"
  by code_simp

section \<open>Properties\<close>

text \<open>Every chain of the registry is found by its decimal id, by its key in capitals with a
  space before it and by each of its aliases, and what is found for a reference is always a
  chain of the registry.\<close>

theorem resolve_chain_finds:
  "(\<forall>c\<in>set CHAINS. resolve_chain (show_int (chain_id c)) = Some c \<and>
      resolve_chain ('' '' @ upper (chain_key c)) = Some c \<and>
      (\<forall>a\<in>set (aliases c). resolve_chain a = Some c)) \<and>
   (\<forall>ref c. resolve_chain ref = Some c \<longrightarrow> c \<in> set CHAINS)"
proof (intro conjI ballI)
  fix c assume c: "c \<in> set CHAINS"
  have "chain_id c \<in> set (map chain_id CHAINS)" using c by simp
  then have "0 \<le> chain_id c" unfolding chain_ids by auto
  then show "resolve_chain (show_int (chain_id c)) = Some c"
    by (simp add: resolve_decimal by_id_in c)
  have "resolve_chain n = Some c" if "n \<in> set (names_of c)" for n
  proof -
    have "map_option chain_id (resolve_chain n) = Some (chain_id c)"
      using names_resolve c that by (simp add: list_all_iff names_ok_def)
    then show ?thesis
      using resolve_chain_in [of n] by_id_in c by (metis map_option_eq_Some option.inject)
  qed
  note found = this
  show "resolve_chain ('' '' @ upper (chain_key c)) = Some c"
    by (rule found) (simp add: names_of_def)
  show "resolve_chain a = Some c" if "a \<in> set (aliases c)" for a
    using that by (intro found) (simp add: names_of_def)
qed (simp add: resolve_chain_in)

theorem resolve_chain_finds_witness:
  "\<exists>c\<in>set CHAINS. resolve_chain (show_int (chain_id c)) = Some c"
  using resolve_chain_finds by (fastforce simp: CHAINS_def)

end
