(* ===== verification/Evm.thy ===== *)
theory Evm
  imports Chains
begin

text \<open>
  The transaction pipeline, \<open>app/services/evm.py\<close>: the JSON-RPC client with its fallback and
  staleness check, single and batched calls, and the steps that build, sign, send and confirm
  a transaction. The module's globals are the fields of \<open>world\<close>; the node's and the signer's
  answers come from \<open>outside\<close>.
\<close>

section \<open>Endpoints\<close>

definition CHAIN_ID :: int where "CHAIN_ID = 4663"
definition NATIVE_TRANSFER_GAS :: int where "NATIVE_TRANSFER_GAS = 21000"
definition ERC20_TRANSFER_SELECTOR :: string where "ERC20_TRANSFER_SELECTOR = ''a9059cbb''"
definition MAX_LAG_BLOCKS :: int where "MAX_LAG_BLOCKS = 200"
definition LAG_CHECK_SECONDS :: usec where "LAG_CHECK_SECONDS = seconds 60"

definition rpc_url :: "settings \<Rightarrow> outside \<Rightarrow> int \<Rightarrow> exn + string" where
  "rpc_url c env chain = (if chain = CHAIN_ID then Inr (robinhood_rpc c) else rpc_for env chain)"

definition rpc_urls :: "settings \<Rightarrow> outside \<Rightarrow> int \<Rightarrow> exn + string list" where
  "rpc_urls c env chain =
     (case rpc_url c env chain of
        Inl e \<Rightarrow> Inl e
      | Inr url \<Rightarrow>
          Inr (if chain = CHAIN_ID \<and> OPRAI_TG_RPC_FALLBACK c \<noteq> [] \<and>
                  OPRAI_TG_RPC_FALLBACK c \<notin> set [url]
               then [url, OPRAI_TG_RPC_FALLBACK c] else [url]))"

definition note_fallback :: "('z world_scheme, unit) io" where
  "note_fallback = modify (on_fallback_update (\<lambda>_. True))"

definition note_primary_ok :: "('z world_scheme, unit) io" where
  "note_primary_ok = modify (on_fallback_update (\<lambda>_. False))"

definition rpc_payload :: "int \<Rightarrow> string \<Rightarrow> json list \<Rightarrow> json" where
  "rpc_payload i method params =
     JObj [(''jsonrpc'', JStr ''2.0''), (''id'', JInt i), (''method'', JStr method),
           (''params'', JArr params)]"

text \<open>\<open>_head\<close>: any failure to read a head block is "cannot tell".\<close>

definition head_of :: "http_outcome \<Rightarrow> int option" where
  "head_of o1 =
     (case o1 of
        Transport_Error cls msg \<Rightarrow> None
      | Reply status body \<Rightarrow>
          if status \<noteq> 200 then None
          else (case body of
             Some (JObj kvs) \<Rightarrow>
               (case j_or (case map_of kvs ''result'' of None \<Rightarrow> JNull | Some v \<Rightarrow> v) (JStr ''0x0'') of
                  JStr s \<Rightarrow> parse_int 16 s
                | _ \<Rightarrow> None)
           | _ \<Rightarrow> None))"

definition head :: "outside \<Rightarrow> string \<Rightarrow> ('z world_scheme, int option) io" where
  "head env url =
     bind (http_call env ''POST'' url (rpc_payload 1 ''eth_blockNumber'' []))
       (\<lambda>o1. return (head_of o1))"

definition primary_is_stale :: "outside \<Rightarrow> string \<Rightarrow> string \<Rightarrow> ('z world_scheme, bool) io" where
  "primary_is_stale env primary fallback =
     bind (monotonic env) (\<lambda>now.
     bind (gets id) (\<lambda>w.
       if now - lag_checked_at w < LAG_CHECK_SECONDS then return (primary_stale w)
       else
         bind (modify (lag_checked_at_update (\<lambda>_. now))) (\<lambda>_.
         bind (head env primary) (\<lambda>mine.
         bind (head env fallback) (\<lambda>theirs.
           case (mine, theirs) of
             (Some m, Some t) \<Rightarrow>
               bind (modify (primary_stale_update (\<lambda>_. t - m > MAX_LAG_BLOCKS)))
                 (\<lambda>_. return (t - m > MAX_LAG_BLOCKS))
           | _ \<Rightarrow> gets primary_stale)))))"

definition ordered_urls :: "settings \<Rightarrow> outside \<Rightarrow> int \<Rightarrow> ('z world_scheme, string list) io" where
  "ordered_urls c env chain =
     bind (from_sum (rpc_urls c env chain)) (\<lambda>urls.
       case urls of
         a # b # rest \<Rightarrow>
           bind (primary_is_stale env a b) (\<lambda>stale. return (if stale then [b, a] else urls))
       | _ \<Rightarrow> return urls)"

text \<open>\<open>_why\<close>: an error that prints as nothing is named by its class.\<close>

definition why :: "string \<Rightarrow> string \<Rightarrow> string" where
  "why cls msg = or_text (strip msg) cls"

section \<open>One call\<close>

text \<open>The loop over the endpoints: \<open>n\<close> is how many there are, \<open>i\<close> the index of the next.\<close>

primrec post_first ::
  "outside \<Rightarrow> nat \<Rightarrow> json \<Rightarrow> nat \<Rightarrow> string list \<Rightarrow> ('z world_scheme, int \<times> json option) io" where
  "post_first env n payload i [] = throw AttributeError"
| "post_first env n payload i (url # rest) =
     bind (http_call env ''POST'' url payload) (\<lambda>o1.
       case o1 of
         Reply status body \<Rightarrow>
           bind (if i = 0 then note_primary_ok else return ()) (\<lambda>_. return (status, body))
       | Transport_Error cls msg \<Rightarrow>
           if i = 0 \<and> n = 1 then
             bind (sleep (seconds 1 * 4 div 10)) (\<lambda>_.
             bind (http_call env ''POST'' url payload) (\<lambda>o2.
               case o2 of
                 Reply status body \<Rightarrow> return (status, body)
               | Transport_Error cls2 msg2 \<Rightarrow>
                   throw (EvmError (''rpc unreachable: '' @ why cls2 msg2))))
           else if i + 1 < n then bind note_fallback (\<lambda>_. post_first env n payload (i + 1) rest)
           else throw (EvmError (''rpc unreachable: '' @ why cls msg)))"

definition rpc_result :: "outside \<Rightarrow> int \<times> json option \<Rightarrow> exn + json" where
  "rpc_result env r =
     (case r of (status, body) \<Rightarrow>
        if status \<noteq> 200 then Inl (EvmError (''rpc HTTP '' @ show_int status))
        else (case body of
          None \<Rightarrow> Inl ValueError
        | Some j \<Rightarrow>
            if has_key ''error'' j then
              (case field ''error'' j of
                 Inl e \<Rightarrow> Inl e
               | Inr err \<Rightarrow>
                   (case err of
                      JObj kvs \<Rightarrow> Inl (EvmError (py_str env
                        (case map_of kvs ''message'' of None \<Rightarrow> err | Some m \<Rightarrow> m)))
                    | _ \<Rightarrow> Inl AttributeError))
            else field ''result'' j))"

definition rpc ::
  "settings \<Rightarrow> outside \<Rightarrow> string \<Rightarrow> json list \<Rightarrow> int \<Rightarrow> ('z world_scheme, json) io" where
  "rpc c env method params chain =
     bind (ordered_urls c env chain) (\<lambda>urls.
     bind (post_first env (length urls) (rpc_payload 1 method params) 0 urls) (\<lambda>r.
       from_sum (rpc_result env r)))"

section \<open>Batched calls\<close>

text \<open>At most four attempts at one endpoint while it answers 429; \<open>k\<close> attempts follow this one.\<close>

primrec batch_attempts ::
  "outside \<Rightarrow> string \<Rightarrow> json \<Rightarrow> nat \<Rightarrow> ('z world_scheme, string + int \<times> json option) io" where
  "batch_attempts env url payload 0 =
     bind (http_call env ''POST'' url payload) (\<lambda>o1.
       case o1 of
         Transport_Error cls msg \<Rightarrow> return (Inl (why cls msg))
       | Reply status body \<Rightarrow>
           if status \<noteq> 429 then return (Inr (status, body))
           else bind (sleep (seconds 6)) (\<lambda>_. return (Inr (status, body))))"
| "batch_attempts env url payload (Suc k) =
     bind (http_call env ''POST'' url payload) (\<lambda>o1.
       case o1 of
         Transport_Error cls msg \<Rightarrow> return (Inl (why cls msg))
       | Reply status body \<Rightarrow>
           if status \<noteq> 429 then return (Inr (status, body))
           else bind (sleep (seconds 3 * int (3 - k) div 2)) (\<lambda>_. batch_attempts env url payload k))"

fun batch_first ::
  "outside \<Rightarrow> json \<Rightarrow> nat \<Rightarrow> string list \<Rightarrow> string \<Rightarrow> ('z world_scheme, int \<times> json option) io" where
  "batch_first env payload i [] unreachable = throw (EvmError (''rpc unreachable: '' @ unreachable))"
| "batch_first env payload i (url # rest) unreachable =
     bind (batch_attempts env url payload 3) (\<lambda>r.
       case r of
         Inr reply \<Rightarrow> bind (if i = 0 then note_primary_ok else return ()) (\<lambda>_. return reply)
       | Inl reason \<Rightarrow>
           bind (if rest \<noteq> [] then note_fallback else return ())
             (\<lambda>_. batch_first env payload (i + 1) rest reason))"

text \<open>Python's \<open>isinstance(v, int)\<close> holds for booleans too.\<close>

definition as_int :: "json \<Rightarrow> int option" where
  "as_int j = (case j of JInt n \<Rightarrow> Some n | JBool b \<Rightarrow> Some (if b then 1 else 0) | _ \<Rightarrow> None)"

fun fill_batch :: "json list \<Rightarrow> json list \<Rightarrow> exn + json list" where
  "fill_batch out [] = Inr out"
| "fill_batch out (item # items) =
     (case item of
        JObj kvs \<Rightarrow>
          (case (map_option as_int (map_of kvs ''id''), map_of kvs ''result'') of
             (Some (Some idx), Some v) \<Rightarrow>
               if 0 \<le> idx \<and> idx < int (length out)
               then fill_batch (out[nat idx := v]) items
               else fill_batch out items
           | _ \<Rightarrow> fill_batch out items)
      | _ \<Rightarrow> Inl AttributeError)"

definition batch_payload :: "(string \<times> json list) list \<Rightarrow> json" where
  "batch_payload reqs =
     JArr (map (\<lambda>(i, (m, p)). rpc_payload (int i) m p) (zip [0..<length reqs] reqs))"

definition batch_result :: "outside \<Rightarrow> nat \<Rightarrow> int \<times> json option \<Rightarrow> exn + json list" where
  "batch_result env n r =
     (case r of (status, body) \<Rightarrow>
        if status \<noteq> 200 then Inl (EvmError (''rpc HTTP '' @ show_int status))
        else (case body of
          None \<Rightarrow> Inl ValueError
        | Some (JObj kvs) \<Rightarrow> Inl (EvmError (case map_of kvs ''error'' of
              None \<Rightarrow> ''batch rejected'' | Some e \<Rightarrow> py_str env e))
        | Some (JArr items) \<Rightarrow> fill_batch (replicate n JNull) items
        | Some (JStr s) \<Rightarrow> (if s = [] then Inr (replicate n JNull) else Inl AttributeError)
        | Some _ \<Rightarrow> Inl TypeError))"

definition rpc_batch ::
  "settings \<Rightarrow> outside \<Rightarrow> (string \<times> json list) list \<Rightarrow> int \<Rightarrow> ('z world_scheme, json list) io" where
  "rpc_batch c env reqs chain =
     (if reqs = [] then return []
      else
        bind (ordered_urls c env chain) (\<lambda>urls.
        bind (batch_first env (batch_payload reqs) 0 urls []) (\<lambda>r.
          from_sum (batch_result env (length reqs) r))))"

section \<open>Numbers from providers\<close>

definition hex_to_int :: "json \<Rightarrow> int \<Rightarrow> exn + int" where
  "hex_to_int v dflt =
     (case v of
        JNull \<Rightarrow> Inr dflt
      | JInt n \<Rightarrow> Inr n
      | JBool b \<Rightarrow> Inr (if b then 1 else 0)
      | JStr s \<Rightarrow> or_raise ValueError (parse_int (if startswith s ''0x'' then 16 else 10) s)
      | _ \<Rightarrow> Inl AttributeError)"

text \<open>\<open>to_int\<close>: the text of a float, a list or an object is never an integer literal.\<close>

definition to_int :: "json \<Rightarrow> int \<Rightarrow> exn + int" where
  "to_int v dflt =
     (case v of
        JNull \<Rightarrow> Inr dflt
      | JInt n \<Rightarrow> Inr n
      | JBool b \<Rightarrow> Inr (if b then 1 else 0)
      | JStr s \<Rightarrow>
          if s = [] then Inr dflt
          else (let t = strip s
                in or_raise ValueError (parse_int (if startswith t ''0x'' then 16 else 10) t))
      | _ \<Rightarrow> Inl ValueError)"

section \<open>Building a transaction\<close>

definition get_nonce :: "settings \<Rightarrow> outside \<Rightarrow> string \<Rightarrow> int \<Rightarrow> ('z world_scheme, int) io" where
  "get_nonce c env address chain =
     bind (rpc c env ''eth_getTransactionCount'' [JStr address, JStr ''pending''] chain)
       (\<lambda>r. from_sum (hex_to_int r 0))"

definition is_evm_error :: "exn \<Rightarrow> bool" where
  "is_evm_error e = (case e of EvmError _ \<Rightarrow> True | _ \<Rightarrow> False)"

definition get_fees :: "settings \<Rightarrow> outside \<Rightarrow> int \<Rightarrow> ('z world_scheme, int \<times> int) io" where
  "get_fees c env chain =
     bind (rpc c env ''eth_getBlockByNumber'' [JStr ''latest'', JBool False] chain) (\<lambda>block.
     bind (from_sum (field ''baseFeePerGas'' (j_or block (JObj [])))) (\<lambda>bf.
     bind (from_sum (hex_to_int bf 0)) (\<lambda>base.
     bind (try_except
             (bind (rpc c env ''eth_maxPriorityFeePerGas'' [] chain) (\<lambda>r. from_sum (hex_to_int r 0)))
             (\<lambda>e. if is_evm_error e then return 0 else throw e)) (\<lambda>priority.
       let max_fee = base * 2 + priority
       in return (if max_fee = 0 then max priority (10 ^ 8) else max_fee, priority)))))"

definition GAS_BUFFER :: rat where
  "GAS_BUFFER = b64 (12 / 10)"

definition buffered :: "int \<Rightarrow> int" where
  "buffered est = py_int (fmul (to_float est) GAS_BUFFER)"

definition evm_message :: "exn \<Rightarrow> string" where
  "evm_message e = (case e of EvmError m \<Rightarrow> m | _ \<Rightarrow> [])"

definition estimate_gas ::
  "settings \<Rightarrow> outside \<Rightarrow> string \<Rightarrow> string \<Rightarrow> int \<Rightarrow> string \<Rightarrow> int \<Rightarrow> ('z world_scheme, int) io" where
  "estimate_gas c env from_addr to value_wei data chain =
     bind (try_except
             (bind (rpc c env ''eth_estimateGas''
                      [JObj [(''from'', JStr from_addr), (''to'', JStr to),
                             (''value'', JStr (hex value_wei)),
                             (''data'', JStr (or_text data ''0x''))]] chain)
                (\<lambda>r. bind (from_sum (hex_to_int r 0)) (\<lambda>est. return (Inl est))))
             (\<lambda>e.
               if \<not> is_evm_error e then throw e
               else if or_text data ''0x'' = ''0x'' then return (Inr NATIVE_TRANSFER_GAS)
               else if contains (lower (evm_message e)) ''insufficient funds'' then
                 throw (EvmError ''this wallet doesn't hold enough ETH to cover the amount plus gas'')
               else throw e))
       (\<lambda>r. return (case r of Inl est \<Rightarrow> buffered est | Inr gas \<Rightarrow> gas))"

definition encode_erc20_transfer :: "string \<Rightarrow> int \<Rightarrow> string" where
  "encode_erc20_transfer to amount =
     ''0x'' @ ERC20_TRANSFER_SELECTOR @ rjust (removeprefix (lower to) ''0x'') 64 CHR ''0'' @
     rjust (hex_digits amount) 64 CHR ''0''"

record tx =
  tx_chain_id :: string
  tx_nonce :: string
  tx_to :: string
  tx_value :: string
  tx_data :: string
  tx_gas :: string
  tx_max_fee_per_gas :: string
  tx_max_priority_fee_per_gas :: string

definition build_transfer ::
  "settings \<Rightarrow> outside \<Rightarrow> string \<Rightarrow> string \<Rightarrow> int \<Rightarrow> string \<Rightarrow> int \<Rightarrow> ('z world_scheme, tx) io" where
  "build_transfer c env from_addr to value_wei data chain =
     bind (get_nonce c env from_addr chain) (\<lambda>nonce.
     bind (get_fees c env chain) (\<lambda>(max_fee, priority).
     bind (estimate_gas c env from_addr to value_wei data chain) (\<lambda>gas.
       return \<lparr>tx_chain_id = show_int chain, tx_nonce = show_int nonce, tx_to = to,
         tx_value = show_int value_wei, tx_data = or_text data ''0x'', tx_gas = show_int gas,
         tx_max_fee_per_gas = show_int max_fee,
         tx_max_priority_fee_per_gas = show_int priority\<rparr>)))"

section \<open>Completing a provider's transaction\<close>

text \<open>The fields of a provider's unsigned transaction, \<open>JNull\<close> or \<open>None\<close> when absent.\<close>

record provider_tx =
  pt_chainId :: json
  pt_to :: "string option"
  pt_data :: "string option"
  pt_value :: json
  pt_gas :: json
  pt_gasLimit :: json
  pt_maxFeePerGas :: json
  pt_maxPriorityFeePerGas :: json

definition build_tx_from_provider ::
  "settings \<Rightarrow> outside \<Rightarrow> string \<Rightarrow> provider_tx \<Rightarrow> int option \<Rightarrow> ('z world_scheme, tx) io" where
  "build_tx_from_provider c env from_addr d chain_opt =
     bind (if or_int chain_opt 0 \<noteq> 0 then return (or_int chain_opt 0)
           else bind (from_sum (to_int (pt_chainId d) CHAIN_ID))
                  (\<lambda>i. return (if i = 0 then CHAIN_ID else i))) (\<lambda>chain.
     if or_text_opt (pt_to d) [] = [] then
       throw (EvmError ''provider returned a transaction with no recipient'')
     else
       bind (from_sum (to_int (pt_value d) 0)) (\<lambda>value.
       bind (from_sum (to_int (j_or (pt_gas d) (pt_gasLimit d)) 0)) (\<lambda>gas0.
       bind (if gas0 \<le> 0
             then estimate_gas c env from_addr (or_text_opt (pt_to d) []) value
                    (or_text_opt (pt_data d) ''0x'') chain
             else return gas0) (\<lambda>gas.
       bind (from_sum (to_int (pt_maxFeePerGas d) 0)) (\<lambda>max_fee0.
       bind (from_sum (to_int (pt_maxPriorityFeePerGas d) 0)) (\<lambda>priority0.
       bind (if max_fee0 \<le> 0 then get_fees c env chain else return (max_fee0, priority0))
         (\<lambda>(max_fee, priority).
       bind (get_nonce c env from_addr chain) (\<lambda>nonce.
         return \<lparr>tx_chain_id = show_int chain, tx_nonce = show_int nonce,
           tx_to = or_text_opt (pt_to d) [], tx_value = show_int value,
           tx_data = or_text_opt (pt_data d) ''0x'', tx_gas = show_int gas,
           tx_max_fee_per_gas = show_int max_fee,
           tx_max_priority_fee_per_gas = show_int priority\<rparr>))))))))"

text \<open>\<open>tx_cost_wei\<close>: the worst case the sender must hold.\<close>

definition tx_cost_wei :: "tx \<Rightarrow> int option" where
  "tx_cost_wei t =
     (case (parse_int 10 (tx_value t), parse_int 10 (tx_gas t), parse_int 10 (tx_max_fee_per_gas t)) of
        (Some v, Some g, Some f) \<Rightarrow> Some (v + g * f)
      | _ \<Rightarrow> None)"

section \<open>The signer's client\<close>

text \<open>\<open>app/signer_client.py\<close>: one POST; an error detail is the reply's \<open>error\<close> field or its text.\<close>

definition signer_detail :: "outside \<Rightarrow> json option \<Rightarrow> string" where
  "signer_detail env body =
     (case body of
        Some (JObj kvs) \<Rightarrow> (case map_of kvs ''error'' of
            None \<Rightarrow> raw_text env body | Some e \<Rightarrow> py_str env e)
      | _ \<Rightarrow> raw_text env body)"

definition signer_post ::
  "settings \<Rightarrow> outside \<Rightarrow> string \<Rightarrow> json \<Rightarrow> ('z world_scheme, json) io" where
  "signer_post c env path payload =
     bind (http_call env ''POST'' (rstrip_chars ''/'' (OPRAI_TG_SIGNER_URL c) @ path) payload) (\<lambda>o1.
       case o1 of
         Transport_Error cls msg \<Rightarrow> throw (SignerError (''signer unreachable: '' @ msg))
       | Reply status body \<Rightarrow>
           if status \<noteq> 200 then
             throw (SignerError (''signer '' @ path @ '' failed ('' @ show_int status @ ''): '' @
               signer_detail env body))
           else from_sum (or_raise ValueError body))"

definition signer_create_wallet :: "settings \<Rightarrow> outside \<Rightarrow> string \<Rightarrow> ('z world_scheme, json) io" where
  "signer_create_wallet c env chain =
     signer_post c env ''/wallet/create'' (JObj [(''chain'', JStr chain)])"

definition signer_import_wallet ::
  "settings \<Rightarrow> outside \<Rightarrow> string \<Rightarrow> string \<Rightarrow> ('z world_scheme, json) io" where
  "signer_import_wallet c env chain secret =
     signer_post c env ''/wallet/import''
       (JObj [(''chain'', JStr chain), (''secret'', JStr secret)])"

definition signer_export_wallet ::
  "settings \<Rightarrow> outside \<Rightarrow> string \<Rightarrow> string \<Rightarrow> ('z world_scheme, json) io" where
  "signer_export_wallet c env chain enc_key_ref =
     signer_post c env ''/wallet/export''
       (JObj [(''chain'', JStr chain), (''enc_key_ref'', JStr enc_key_ref)])"

definition signer_sign ::
  "settings \<Rightarrow> outside \<Rightarrow> string \<Rightarrow> string \<Rightarrow> string \<Rightarrow> ('z world_scheme, json) io" where
  "signer_sign c env chain enc_key_ref message =
     signer_post c env ''/sign''
       (JObj [(''chain'', JStr chain), (''enc_key_ref'', JStr enc_key_ref),
              (''message'', JStr message)])"

definition tx_json :: "tx \<Rightarrow> json" where
  "tx_json t = JObj [(''chain_id'', JStr (tx_chain_id t)), (''nonce'', JStr (tx_nonce t)),
     (''to'', JStr (tx_to t)), (''value'', JStr (tx_value t)), (''data'', JStr (tx_data t)),
     (''gas'', JStr (tx_gas t)), (''max_fee_per_gas'', JStr (tx_max_fee_per_gas t)),
     (''max_priority_fee_per_gas'', JStr (tx_max_priority_fee_per_gas t))]"

definition signer_sign_tx ::
  "settings \<Rightarrow> outside \<Rightarrow> string \<Rightarrow> tx \<Rightarrow> ('z world_scheme, json) io" where
  "signer_sign_tx c env enc_key_ref t =
     signer_post c env ''/sign-tx''
       (JObj [(''chain'', JStr ''evm''), (''enc_key_ref'', JStr enc_key_ref), (''tx'', tx_json t)])"

definition signer_sign_typed_data ::
  "settings \<Rightarrow> outside \<Rightarrow> string \<Rightarrow> json \<Rightarrow> ('z world_scheme, json) io" where
  "signer_sign_typed_data c env enc_key_ref typed_data =
     signer_post c env ''/sign-typed-data''
       (JObj [(''chain'', JStr ''evm''), (''enc_key_ref'', JStr enc_key_ref),
              (''typed_data'', typed_data)])"

text \<open>\<open>health\<close> is a GET and does not look at the status.\<close>

definition signer_health :: "settings \<Rightarrow> outside \<Rightarrow> ('z world_scheme, json) io" where
  "signer_health c env =
     bind (http_call env ''GET'' (rstrip_chars ''/'' (OPRAI_TG_SIGNER_URL c) @ ''/health'') JNull) (\<lambda>o1.
       case o1 of
         Transport_Error cls msg \<Rightarrow> throw (SignerError (''signer unreachable: '' @ msg))
       | Reply status body \<Rightarrow> from_sum (or_raise ValueError body))"

text \<open>\<open>d[k]\<close>: a missing key raises.\<close>

definition item :: "string \<Rightarrow> json \<Rightarrow> exn + json" where
  "item k j =
     (case j of
        JObj kvs \<Rightarrow> or_raise (KeyError k) (map_of kvs k)
      | _ \<Rightarrow> Inl TypeError)"

section \<open>Sending and confirming\<close>

definition sign_and_send ::
  "settings \<Rightarrow> outside \<Rightarrow> string \<Rightarrow> tx \<Rightarrow> ('z world_scheme, json) io" where
  "sign_and_send c env enc_key_ref t =
     bind (signer_sign_tx c env enc_key_ref t) (\<lambda>signed.
     bind (from_sum (to_int (JStr (tx_chain_id t)) CHAIN_ID)) (\<lambda>chain.
     bind (from_sum (item ''raw'' signed)) (\<lambda>raw.
       rpc c env ''eth_sendRawTransaction'' [raw] chain)))"

text \<open>
  The polling loop of \<open>wait_receipt\<close>. Every round sleeps a second and a half, so the rounds of
  a timeout are bounded; the fuel is one more than the bound.
\<close>

primrec poll_receipt ::
  "settings \<Rightarrow> outside \<Rightarrow> json \<Rightarrow> int \<Rightarrow> usec \<Rightarrow> nat \<Rightarrow> ('z world_scheme, json option) io" where
  "poll_receipt c env tx_hash chain deadline 0 = throw Out_Of_Fuel"
| "poll_receipt c env tx_hash chain deadline (Suc fuel) =
     bind (monotonic env) (\<lambda>now.
       if deadline \<le> now then return None
       else
         bind (rpc c env ''eth_getTransactionReceipt'' [tx_hash] chain) (\<lambda>receipt.
           if truthy receipt then return (Some receipt)
           else bind (sleep (seconds 3 div 2))
             (\<lambda>_. poll_receipt c env tx_hash chain deadline fuel)))"

definition receipt_rounds :: "usec \<Rightarrow> nat" where
  "receipt_rounds timeout = nat (timeout div (seconds 3 div 2)) + 2"

definition wait_receipt ::
  "settings \<Rightarrow> outside \<Rightarrow> json \<Rightarrow> usec \<Rightarrow> int \<Rightarrow> ('z world_scheme, json option) io" where
  "wait_receipt c env tx_hash timeout chain =
     bind (monotonic env) (\<lambda>now.
       poll_receipt c env tx_hash chain (now + timeout) (receipt_rounds timeout))"

definition receipt_succeeded :: "json \<Rightarrow> exn + bool" where
  "receipt_succeeded receipt =
     (case field ''status'' receipt of
        Inl e \<Rightarrow> Inl e
      | Inr st \<Rightarrow> (case hex_to_int st 0 of Inl e \<Rightarrow> Inl e | Inr n \<Rightarrow> Inr (n = 1)))"

definition hash_head :: "json \<Rightarrow> string" where
  "hash_head h = (case h of JStr s \<Rightarrow> take 10 s | _ \<Rightarrow> [])"

definition send_and_confirm ::
  "settings \<Rightarrow> outside \<Rightarrow> string \<Rightarrow> tx \<Rightarrow> string \<Rightarrow> ('z world_scheme, json) io" where
  "send_and_confirm c env enc_key_ref t label =
     bind (from_sum (to_int (JStr (tx_chain_id t)) CHAIN_ID)) (\<lambda>chain.
     bind (sign_and_send c env enc_key_ref t) (\<lambda>tx_hash.
     bind (wait_receipt c env tx_hash (seconds 60) chain) (\<lambda>receipt.
       case receipt of
         None \<Rightarrow> throw (EvmError (label @ '' is taking longer than expected ('' @ hash_head tx_hash @ '')''))
       | Some r \<Rightarrow>
           bind (from_sum (receipt_succeeded r)) (\<lambda>ok.
             if ok then return tx_hash
             else throw (EvmError (label @ '' reverted ('' @ hash_head tx_hash @ '')''))))))"

section \<open>The pipeline touches no table\<close>

lemma framed_head: "framed (head env url)"
  unfolding head_def by (intro framed_rules)

lemma framed_stale: "framed (primary_is_stale env a b)"
  unfolding primary_is_stale_def by (intro framed_rules framed_head)

lemma framed_urls: "framed (ordered_urls c env chain)"
  unfolding ordered_urls_def by (intro framed_rules framed_stale)

lemma framed_post: "framed (post_first env n payload i urls)"
  by (induction urls arbitrary: i)
    (auto intro!: framed_rules simp: note_fallback_def note_primary_ok_def)

lemma framed_rpc: "framed (rpc c env m ps chain)"
  unfolding rpc_def by (intro framed_rules framed_urls framed_post)

lemma framed_attempts: "framed (batch_attempts env url payload k)"
  by (induction k) (auto intro!: framed_rules)

lemma framed_batch_first: "framed (batch_first env payload i urls reason)"
  by (induction env payload i urls reason rule: batch_first.induct)
    (auto intro!: framed_rules framed_attempts simp: note_fallback_def note_primary_ok_def)

lemma framed_batch: "framed (rpc_batch c env reqs chain)"
  unfolding rpc_batch_def by (intro framed_rules framed_urls framed_batch_first)

lemma framed_nonce: "framed (get_nonce c env a chain)"
  unfolding get_nonce_def by (intro framed_rules framed_rpc)

lemma framed_fees: "framed (get_fees c env chain)"
  unfolding get_fees_def Let_def by (intro framed_rules framed_rpc)

lemma framed_gas: "framed (estimate_gas c env a to v d chain)"
  unfolding estimate_gas_def by (intro framed_rules framed_rpc)

lemma framed_build: "framed (build_transfer c env a to v d chain)"
  unfolding build_transfer_def by (intro framed_rules framed_nonce framed_fees framed_gas)

lemma framed_provider: "framed (build_tx_from_provider c env a d ch)"
  unfolding build_tx_from_provider_def
  by (intro framed_rules framed_nonce framed_fees framed_gas)

lemma framed_signer: "framed (signer_post c env path payload)"
  unfolding signer_post_def by (intro framed_rules)

lemmas signer_calls = signer_create_wallet_def signer_import_wallet_def signer_export_wallet_def
  signer_sign_def signer_sign_tx_def signer_sign_typed_data_def

lemma framed_send: "framed (sign_and_send c env key t)"
  unfolding sign_and_send_def signer_calls by (intro framed_rules framed_signer framed_rpc)

lemma framed_poll: "framed (poll_receipt c env h chain d k)"
  by (induction k) (auto intro!: framed_rules framed_rpc)

lemma framed_wait: "framed (wait_receipt c env h t chain)"
  unfolding wait_receipt_def by (intro framed_rules framed_poll)

lemma framed_confirm: "framed (send_and_confirm c env key t label)"
  unfolding send_and_confirm_def by (intro framed_rules framed_send framed_wait)

lemmas framed_pipeline = framed_rpc framed_batch framed_build framed_provider framed_signer
  framed_send framed_wait framed_confirm

section \<open>Lemmas\<close>

subsection \<open>The fallback\<close>

lemma io_cases [io_simps]: "from_sum (Inr a) = return a" "from_sum (Inl e) = throw e"
  by (simp_all add: from_sum_def return_def throw_def fun_eq_iff)

lemma rpc_urls_home:
  assumes "OPRAI_TG_RPC_FALLBACK c \<noteq> []" "OPRAI_TG_RPC_FALLBACK c \<noteq> robinhood_rpc c"
  shows "rpc_urls c env CHAIN_ID = Inr [robinhood_rpc c, OPRAI_TG_RPC_FALLBACK c]"
  using assms by (simp add: rpc_urls_def rpc_url_def)

lemma head_ok: "\<exists>w' h. head env url w = (w', Inr h)"
  by (simp add: head_def bind_def http_call_def return_def)

lemma primary_is_stale_ok: "\<exists>w' b. primary_is_stale env p f w = (w', Inr b)"
proof -
  obtain w1 h1 where 1: "head env p (w\<lparr>looks := looks w + 1, lag_checked_at := mono env (looks w) + slept w\<rparr>) = (w1, Inr h1)"
    using head_ok by blast
  obtain w2 h2 where 2: "head env f w1 = (w2, Inr h2)" using head_ok by blast
  show ?thesis
    using 1 2 by (auto simp: primary_is_stale_def bind_def io_simps split: option.splits)
qed

lemma rpc_falls_back:
  assumes fb: "OPRAI_TG_RPC_FALLBACK c \<noteq> []" "OPRAI_TG_RPC_FALLBACK c \<noteq> robinhood_rpc c"
    and down: "\<And>n p. \<exists>cls msg. http env n ''POST'' (robinhood_rpc c) p = Transport_Error cls msg"
    and up: "\<And>n. http env n ''POST'' (OPRAI_TG_RPC_FALLBACK c) (rpc_payload 1 m ps) = Reply st body"
  shows "snd (rpc c env m ps CHAIN_ID w) = rpc_result env (st, body)"
proof -
  obtain w1 stale where s: "primary_is_stale env (robinhood_rpc c) (OPRAI_TG_RPC_FALLBACK c) w = (w1, Inr stale)"
    using primary_is_stale_ok by blast
  obtain cls msg where d: "http env (looks w1) ''POST'' (robinhood_rpc c) (rpc_payload 1 m ps) = Transport_Error cls msg"
    using down by blast
  show ?thesis
    using s d up fb
    by (simp add: rpc_def ordered_urls_def rpc_urls_home bind_def io_simps note_fallback_def note_primary_ok_def)
qed

subsection \<open>Batches\<close>

definition answer_item :: "(nat \<Rightarrow> json) \<Rightarrow> nat \<Rightarrow> json" where
  "answer_item r i = JObj [(''jsonrpc'', JStr ''2.0''), (''id'', JInt (int i)), (''result'', r i)]"

lemma fill_batch_items:
  "(\<forall>i\<in>set is. i < length out) \<Longrightarrow>
   fill_batch out (map (answer_item r) is) = Inr (foldl (\<lambda>o1 i. o1[i := r i]) out is)"
  by (induction "is" arbitrary: out) (auto simp: answer_item_def as_int_def)

lemma length_foldl_upd [simp]: "length (foldl (\<lambda>o1 i. o1[i := r i]) out is) = length out"
  by (induction "is" arbitrary: out) simp_all

lemma nth_foldl_upd:
  "j < length out \<Longrightarrow>
   foldl (\<lambda>o1 i. o1[i := r i]) out is ! j = (if j \<in> set is then r j else out ! j)"
  by (induction "is" arbitrary: out) (auto simp: nth_list_update)

subsection \<open>Waiting\<close>

text \<open>A steady function lets time pass forwards only and is not out of fuel.\<close>

definition steady :: "('z world_scheme, 'a) io \<Rightarrow> bool" where
  "steady m \<longleftrightarrow> (\<forall>w. looks w \<le> looks (fst (m w)) \<and> slept w \<le> slept (fst (m w)) \<and>
     snd (m w) \<noteq> Inl Out_Of_Fuel)"

named_theorems steady_intros

lemma steady_basic [steady_intros]:
  "steady (return a)" "e \<noteq> Out_Of_Fuel \<Longrightarrow> steady (throw e)"
  "r \<noteq> Inl Out_Of_Fuel \<Longrightarrow> steady (from_sum r)"
  "steady (gets g)" "steady (http_call env verb url p)" "steady (monotonic env)"
  "steady (sleep d)" "steady note_fallback" "steady note_primary_ok"
  "steady (modify (lag_checked_at_update h))" "steady (modify (primary_stale_update k))"
  by (simp_all add: steady_def io_simps note_fallback_def note_primary_ok_def)

lemma steady_bind [steady_intros]:
  assumes "steady m" and "\<And>a. steady (f a)"
  shows "steady (bind m f)"
  unfolding steady_def
proof
  fix w
  obtain w1 r where m: "m w = (w1, r)" by fastforce
  have 1: "looks w \<le> looks w1" "slept w \<le> slept w1" "r \<noteq> Inl Out_Of_Fuel"
    using assms(1) m unfolding steady_def by (metis fst_conv snd_conv)+
  show "looks w \<le> looks (fst (bind m f w)) \<and> slept w \<le> slept (fst (bind m f w)) \<and>
      snd (bind m f w) \<noteq> Inl Out_Of_Fuel"
  proof (cases r)
    case (Inl e)
    then show ?thesis using m 1 by (simp add: bind_def)
  next
    case (Inr a)
    have "looks w1 \<le> looks (fst (f a w1))" "slept w1 \<le> slept (fst (f a w1))"
      "snd (f a w1) \<noteq> Inl Out_Of_Fuel"
      using assms(2) [of a] unfolding steady_def by auto
    then show ?thesis using m 1 Inr by (simp add: bind_def)
  qed
qed

lemma steady_split [steady_intros]:
  "(b \<Longrightarrow> steady m) \<Longrightarrow> (\<not> b \<Longrightarrow> steady m') \<Longrightarrow> steady (if b then m else m')"
  "(x = None \<Longrightarrow> steady m) \<Longrightarrow> (\<And>a. x = Some a \<Longrightarrow> steady (g a)) \<Longrightarrow>
     steady (case x of None \<Rightarrow> m | Some a \<Rightarrow> g a)"
  "(\<And>cls msg. o1 = Transport_Error cls msg \<Longrightarrow> steady (h cls msg)) \<Longrightarrow>
     (\<And>st body. o1 = Reply st body \<Longrightarrow> steady (k st body)) \<Longrightarrow>
     steady (case o1 of Transport_Error cls msg \<Rightarrow> h cls msg | Reply st body \<Rightarrow> k st body)"
  "(\<And>a b. p = (a, b) \<Longrightarrow> steady (q a b)) \<Longrightarrow> steady (case p of (a, b) \<Rightarrow> q a b)"
  by (auto split: option.split http_outcome.split prod.split)

lemma steady_list [steady_intros]:
  "(xs = [] \<Longrightarrow> steady m) \<Longrightarrow> (\<And>y ys. xs = y # ys \<Longrightarrow> steady (g y ys)) \<Longrightarrow>
     steady (case xs of [] \<Rightarrow> m | y # ys \<Rightarrow> g y ys)"
  by (cases xs) simp_all

lemma no_fuel_sums [simp]:
  "rpc_urls c env chain \<noteq> Inl Out_Of_Fuel" "rpc_result env r \<noteq> Inl Out_Of_Fuel"
  by (auto simp: rpc_urls_def rpc_url_def rpc_for_def rpc_result_def field_def
      split: sum.splits option.splits json.splits prod.splits if_splits)

lemma steady_head [steady_intros]: "steady (head env url)"
  unfolding head_def by (intro steady_intros)

lemma steady_stale [steady_intros]: "steady (primary_is_stale env a b)"
  unfolding primary_is_stale_def by (intro steady_intros)

lemma steady_urls [steady_intros]: "steady (ordered_urls c env chain)"
  unfolding ordered_urls_def by (intro steady_intros no_fuel_sums)

lemma steady_post [steady_intros]: "steady (post_first env n payload i urls)"
  by (induction urls arbitrary: i) (auto intro!: steady_intros simp: time_simps)

lemma steady_rpc [steady_intros]: "steady (rpc c env m ps chain)"
  unfolding rpc_def by (intro steady_intros no_fuel_sums)

lemma steadyD:
  "steady m \<Longrightarrow> m w = (w', r) \<Longrightarrow> looks w \<le> looks w' \<and> slept w \<le> slept w' \<and> r \<noteq> Inl Out_Of_Fuel"
  unfolding steady_def by (metis fst_conv snd_conv)

definition clock_of :: "outside \<Rightarrow> 'z world_scheme \<Rightarrow> usec" where
  "clock_of env w = mono env (looks w) + slept w"

lemma clock_of_steady:
  "clock_monotone env \<Longrightarrow> steady m \<Longrightarrow> m w = (w', r) \<Longrightarrow> clock_of env w \<le> clock_of env w'"
  by (drule (1) steadyD) (auto simp: clock_of_def clock_monotone_def intro: add_mono)

lemma poll_receipt_fuel:
  assumes "clock_monotone env"
  shows "0 < fuel \<Longrightarrow> deadline \<le> clock_of env w + seconds 3 div 2 * (int fuel - 1) \<Longrightarrow>
    snd (poll_receipt c env h chain deadline fuel w) \<noteq> Inl Out_Of_Fuel"
proof (induction fuel arbitrary: w)
  case (Suc fuel)
  let ?w1 = "w\<lparr>looks := looks w + 1\<rparr>"
  have m: "monotonic env w = (?w1, Inr (clock_of env w))"
    by (simp add: monotonic_def clock_of_def)
  show ?case
  proof (cases "deadline \<le> clock_of env w")
    case True
    then show ?thesis by (simp add: bind_def m return_def)
  next
    case False
    obtain w2 r where r: "rpc c env ''eth_getTransactionReceipt'' [h] chain ?w1 = (w2, r)" by fastforce
    have c1: "clock_of env w \<le> clock_of env ?w1"
      using clock_of_steady [where m = "monotonic env", OF assms _ m] by (simp add: steady_intros)
    have c2: "clock_of env ?w1 \<le> clock_of env w2"
      by (rule clock_of_steady [OF assms steady_rpc r])
    have nf: "r \<noteq> Inl Out_Of_Fuel" using steadyD [OF steady_rpc r] by simp
    show ?thesis
    proof (cases r)
      case (Inl e)
      then show ?thesis using False m r nf by (simp add: bind_def)
    next
      case (Inr v)
      let ?w3 = "w2\<lparr>slept := slept w2 + seconds 3 div 2\<rparr>"
      have c3: "clock_of env ?w3 = clock_of env w2 + seconds 3 div 2"
        by (simp add: clock_of_def)
      have pos: "0 < fuel" using Suc.prems(2) False by (cases fuel) (auto simp: time_simps)
      have "deadline \<le> clock_of env ?w3 + seconds 3 div 2 * (int fuel - 1)"
        using Suc.prems(2) c1 c2 c3 by (simp add: algebra_simps time_simps)
      from Suc.IH [OF pos this] show ?thesis
        using False m r Inr by (simp add: bind_def return_def sleep_def max_def seconds_def)
    qed
  qed
qed simp


subsection \<open>Calldata\<close>

lemma length_show_base_le: "2 \<le> b \<Longrightarrow> n < b ^ k \<Longrightarrow> 0 < k \<Longrightarrow> length (show_base b n) \<le> k"
proof (induction k arbitrary: n)
  case (Suc k)
  show ?case
  proof (cases "n < b")
    case True
    then show ?thesis by (subst show_base.simps) simp
  next
    case False
    then have "k \<noteq> 0" using Suc.prems(1,2) by (cases k) auto
    moreover have "n div b < b ^ k" using Suc.prems by (simp add: less_mult_imp_div_less mult.commute)
    ultimately have "length (show_base b (n div b)) \<le> k" using Suc by simp
    then show ?thesis using False Suc.prems(1) by (subst show_base.simps) simp
  qed
qed simp

lemma parse_padded_hex:
  assumes "0 \<le> a"
  shows "parse_int 16 (rjust (hex_digits a) w CHR ''0'') = Some a"
proof -
  let ?s = "show_base 16 (nat a)" and ?z = "replicate (w - length (show_base 16 (nat a))) CHR ''0''"
  have s: "rjust (hex_digits a) w CHR ''0'' = ?z @ ?s"
    using assms by (simp add: rjust_def hex_digits_def)
  have plain: "\<not> is_space x \<and> x \<noteq> CHR ''-'' \<and> x \<noteq> CHR ''+'' \<and> lower_char x \<noteq> CHR ''x''"
    if "x \<in> set (?z @ ?s)" for x
  proof -
    have "x = CHR ''0'' \<or> x \<in> set ?s" using that by auto
    then show ?thesis
      using show_base_plain [of 16 x "nat a"]
      by (auto simp: is_space_def lower_char_def is_upper_def)
  qed
  have "\<not> startswith (lower (?z @ ?s)) ''0x''"
  proof
    assume "startswith (lower (?z @ ?s)) ''0x''"
    then have "CHR ''x'' \<in> set (lower (?z @ ?s))"
      unfolding startswith_def by (metis in_set_takeD list.set_intros(1) list.set_intros(2))
    then have "CHR ''x'' \<in> lower_char ` set (?z @ ?s)" by (simp only: lower_def set_map)
    then obtain y where "y \<in> set (?z @ ?s)" "CHR ''x'' = lower_char y" by (rule imageE)
    then show False using plain [of y] by simp
  qed
  then have "read_unsigned 16 (?z @ ?s) = read_digits 16 0 False (?z @ ?s)"
    by (simp add: read_unsigned_def)
  also have "\<dots> = Some a"
  proof -
    obtain x xs where x: "?s = x # xs" by (cases ?s) auto
    have "x \<noteq> CHR ''_''" using show_base_plain(1) [of 16 x "nat a"] x by simp
    then have "read_digits 16 0 ok ?s = read_digits 16 0 False ?s" for ok
      using x by simp
    then show ?thesis
      using read_digits_zeros [of 16 ?s False] read_show_base [of 16 "nat a"] assms by simp
  qed
  finally have read: "read_unsigned 16 (?z @ ?s) = Some a" .
  have "parse_int 16 (?z @ ?s) = read_unsigned 16 (?z @ ?s)"
    by (rule parse_int_plain) (simp, use plain in blast)
  then show ?thesis unfolding s read .
qed

subsection \<open>Gas and fees\<close>

lemma GAS_BUFFER_ge: "1 \<le> GAS_BUFFER"
  unfolding GAS_BUFFER_def
  by (rule f64.fl_ge_fixed) (use to_float_small [of 1] in \<open>simp_all add: to_float_def\<close>)

lemma buffered_ge:
  assumes "0 \<le> est" "est < 2 ^ 53"
  shows "est \<le> buffered est"
proof -
  have e: "to_float est = of_int est" using assms by (intro to_float_small) auto
  have fix1: "b64 (of_int est) = of_int est" by (metis e is_float_b64 is_float_def to_float_def)
  have "(of_int est :: rat) \<le> of_int est * GAS_BUFFER"
    using assms(1) GAS_BUFFER_ge mult_left_mono [of 1 GAS_BUFFER "of_int est"] by simp
  then have "of_int est \<le> fmul (to_float est) GAS_BUFFER"
    unfolding fmul_def e by (rule f64.fl_ge_fixed [OF fix1])
  then show ?thesis
    using assms(1) by (simp add: buffered_def py_int_def le_floor_iff)
qed

lemma GAS_BUFFER_le: "GAS_BUFFER \<le> 12 / 10 + 1 / 2 ^ 52"
  using f64.fl_upper [of "12 / 10"] by (simp add: GAS_BUFFER_def field_simps)

lemma buffered_le:
  assumes "0 \<le> est" "est < 2 ^ 50"
  shows "buffered est \<le> est + est div 5 + 1"
proof -
  have e: "to_float est = of_int est" using assms by (intro to_float_small) auto
  let ?e = "of_int est :: rat"
  have e0: "0 \<le> ?e" "?e < 2 ^ 50" using assms by simp (metis assms(2) of_int_less_iff of_int_numeral of_int_power)
  have "fmul ?e GAS_BUFFER \<le> ?e * GAS_BUFFER * (1 + 1 / 2 ^ 53)"
    unfolding fmul_def using e0 GAS_BUFFER_ge by (intro f64.fl_upper) simp
  also have "\<dots> \<le> ?e * (12 / 10 + 1 / 2 ^ 52) * (1 + 1 / 2 ^ 53)"
    using e0 GAS_BUFFER_le by (intro mult_right_mono mult_left_mono) auto
  also have "\<dots> \<le> ?e * (12 / 10) + ?e / 2 ^ 51"
    using e0 by (simp add: field_simps)
  also have "\<dots> < ?e * (12 / 10) + 1" using e0 by simp
  finally have "fmul ?e GAS_BUFFER < ?e * (12 / 10) + 1" .
  then have "of_int (buffered est) < ?e * (12 / 10) + 1"
  proof -
    assume less: "fmul ?e GAS_BUFFER < ?e * (12 / 10) + 1"
    have "\<not> fmul ?e GAS_BUFFER < 0"
      using fmul_nonneg [of ?e GAS_BUFFER] e0 GAS_BUFFER_ge by simp
    then have "of_int (buffered est) \<le> fmul ?e GAS_BUFFER"
      by (simp add: buffered_def py_int_def e)
    with less show ?thesis by linarith
  qed
  then have "of_int (5 * buffered est) < (of_int (6 * est + 5) :: rat)" by simp
  then have "5 * buffered est < 6 * est + 5" by (simp only: of_int_less_iff)
  then show ?thesis by linarith
qed

definition gas_query :: "string \<Rightarrow> string \<Rightarrow> int \<Rightarrow> string \<Rightarrow> json list" where
  "gas_query from_addr to v d = [JObj [(''from'', JStr from_addr), (''to'', JStr to),
     (''value'', JStr (hex v)), (''data'', JStr (or_text d ''0x''))]]"

lemma show_base_hd_not_0x: "\<not> startswith (show_base 10 n) ''0x''"
  using show_base_no_prefix [of 10 n] by simp

lemma to_int_show_int [simp]: "to_int (JStr (show_int n)) d = Inr n"
proof -
  have "\<not> startswith (show_int n) ''0x''"
    using show_base_hd_not_0x [of "nat \<bar>n\<bar>"]
    by (cases "n < 0") (simp_all add: show_int_def startswith_def)
  moreover have "show_int n \<noteq> []" by (simp add: show_int_def)
  ultimately show ?thesis by (simp add: to_int_def Let_def)
qed

section \<open>Properties\<close>

text \<open>While our own node is unreachable, a call on the home chain answers what the fallback
  answers, whatever the staleness check last said: the outage costs latency, not the call.\<close>

theorem rpc_survives_outage:
  assumes "OPRAI_TG_RPC_FALLBACK c \<noteq> []" "OPRAI_TG_RPC_FALLBACK c \<noteq> robinhood_rpc c"
    and "\<And>n p. \<exists>cls msg. http env n ''POST'' (robinhood_rpc c) p = Transport_Error cls msg"
    and "\<And>n. http env n ''POST'' (OPRAI_TG_RPC_FALLBACK c) (rpc_payload 1 m ps) =
           Reply 200 (Some (JObj [(''result'', x)]))"
  shows "snd (rpc c env m ps CHAIN_ID w) = Inr x"
  using rpc_falls_back [OF assms] by (simp add: rpc_result_def has_key_def)

definition outage :: outside where
  "outage = \<lparr>http = (\<lambda>n verb url p. if url = ''http://fallback'' then Reply 200 (Some (JObj [(''result'', JInt 7)]))
       else Transport_Error ''ConnectError'' []),
     mono = (\<lambda>n. int n), utc = (\<lambda>n. int n), repr_of = (\<lambda>_. []), raw_text = (\<lambda>_. []), env_var = (\<lambda>_. None), auth_cookie = (\<lambda>_. None), error_text = (\<lambda>_. []),
     chat_answer = (\<lambda>_ _ _. Sent_To_Chat)\<rparr>"

definition outage_settings :: settings where
  "outage_settings = default_settings\<lparr>ROBINHOOD_RPC := ''http://node'', OPRAI_TG_RPC_FALLBACK := ''http://fallback''\<rparr>"

definition fresh_world :: world where
  "fresh_world = \<lparr>looks = 0, slept = 0, on_fallback = False, primary_stale = False, lag_checked_at = 0\<rparr>"

lemma outage_urls:
  "robinhood_rpc outage_settings = ''http://node''"
  "OPRAI_TG_RPC_FALLBACK outage_settings = ''http://fallback''"
  by (simp_all add: robinhood_rpc_def outage_settings_def default_settings_def)

theorem rpc_survives_outage_witness:
  "snd (rpc outage_settings outage ''eth_blockNumber'' [] CHAIN_ID fresh_world) = Inr (JInt 7)"
  by (rule rpc_survives_outage)
    (simp_all add: outage_urls outage_def)

text \<open>A batch's answers come back in the order of its requests, whatever the order the
  node answers in, and a request the node did not answer is null without disturbing the
  others.\<close>

theorem batch_in_request_order:
  assumes "set is \<subseteq> {0..<n}"
  shows "batch_result env n (200, Some (JArr (map (answer_item r) is))) =
    Inr (map (\<lambda>i. if i \<in> set is then r i else JNull) [0..<n])"
proof -
  have "foldl (\<lambda>o1 i. o1[i := r i]) (replicate n JNull) is =
      map (\<lambda>i. if i \<in> set is then r i else JNull) [0..<n]"
    by (rule nth_equalityI) (auto simp: nth_foldl_upd)
  then show ?thesis
    using assms by (simp add: batch_result_def fill_batch_items subset_iff)
qed

theorem batch_in_request_order_witness:
  "batch_result outage 3 (200, Some (JArr (map (answer_item (\<lambda>i. JInt (int i))) [2, 0]))) =
     Inr [JInt 0, JNull, JInt 2]"
  using batch_in_request_order [of "[2, 0]" 3 outage "\<lambda>i. JInt (int i)"] by (simp add: upt_rec)

text \<open>The calldata of a token transfer is the selector and two 32-byte words: the
  recipient's 20 bytes in lower case after 12 zero bytes, and the amount, which reads back as
  the amount.\<close>

theorem erc20_calldata:
  assumes "length addr = 40" and "\<not> startswith (lower addr) ''0x''" and "0 \<le> a" "a < 2 ^ 256"
    and "to = addr \<or> to = ''0x'' @ addr"
  shows "length (encode_erc20_transfer to a) = 2 + 2 * (4 + 32 + 32) \<and>
    take 10 (encode_erc20_transfer to a) = ''0xa9059cbb'' \<and>
    take 64 (drop 10 (encode_erc20_transfer to a)) = replicate 24 CHR ''0'' @ lower addr \<and>
    parse_int 16 (drop 74 (encode_erc20_transfer to a)) = Some a"
proof -
  have len: "length (lower addr) = 40" using assms(1) by (simp add: lower_def)
  have pre: "removeprefix (lower to) ''0x'' = lower addr"
    using assms(2,5) lower_0x
    by (auto simp: removeprefix_def startswith_def lower_def)
  have "nat a < 16 ^ 64" using assms(3,4) by (simp add: nat_less_iff)
  then have "length (hex_digits a) \<le> 64"
    using assms(3) length_show_base_le [of 16 "nat a" 64] by (simp add: hex_digits_def)
  then have w: "length (rjust (hex_digits a) 64 CHR ''0'') = 64" by simp
  have e: "encode_erc20_transfer to a =
      ''0xa9059cbb'' @ (replicate 24 CHR ''0'' @ lower addr) @ rjust (hex_digits a) 64 CHR ''0''"
    unfolding encode_erc20_transfer_def pre by (simp add: ERC20_TRANSFER_SELECTOR_def rjust_def len)
  then have "drop 74 (encode_erc20_transfer to a) = rjust (hex_digits a) 64 CHR ''0''"
    using len by (simp add: drop_Cons')
  moreover have "take 64 (drop 10 (encode_erc20_transfer to a)) = replicate 24 CHR ''0'' @ lower addr"
    unfolding e using len by simp
  ultimately show ?thesis
    using e w len parse_padded_hex [OF assms(3)] by simp
qed

theorem erc20_calldata_witness:
  "parse_int 16 (drop 74 (encode_erc20_transfer (''0x'' @ replicate 40 CHR ''a'') 255)) = Some 255"
proof -
  have l: "lower (replicate 40 CHR ''a'') = replicate 40 CHR ''a''"
    by (simp add: lower_def lower_char_def is_upper_def)
  have "\<not> startswith (lower (replicate 40 CHR ''a'')) ''0x''"
    unfolding l by (simp add: startswith_def numeral_eq_Suc)
  from erc20_calldata [OF _ this, of 255 "''0x'' @ replicate 40 CHR ''a''"] show ?thesis by simp
qed

lemma ordered_home: "\<exists>w' u us. ordered_urls c env CHAIN_ID w = (w', Inr (u # us))"
proof -
  obtain w1 b where "primary_is_stale env (robinhood_rpc c) (OPRAI_TG_RPC_FALLBACK c) w = (w1, Inr b)"
    using primary_is_stale_ok by blast
  then show ?thesis
    by (simp add: ordered_urls_def rpc_urls_def rpc_url_def bind_def io_simps)
qed

lemma rpc_const:
  assumes "\<And>n url. http env n ''POST'' url (rpc_payload 1 m ps) = Reply 200 (Some (JObj kvs))"
    and "map_of kvs ''error'' = None" "map_of kvs ''result'' = Some v"
  shows "\<exists>w'. rpc c env m ps CHAIN_ID w = (w', Inr v)"
proof -
  obtain w1 u us where "ordered_urls c env CHAIN_ID w = (w1, Inr (u # us))"
    using ordered_home by blast
  then show ?thesis
    using assms by (simp add: rpc_def bind_def io_simps note_primary_ok_def rpc_result_def has_key_def)
qed

lemma rpc_refused:
  assumes "\<And>n url. http env n ''POST'' url (rpc_payload 1 m ps) =
      Reply 200 (Some (JObj [(''error'', JObj [(''message'', JStr msg)])]))"
  shows "\<exists>w'. rpc c env m ps CHAIN_ID w = (w', Inl (EvmError msg))"
proof -
  obtain w1 u us where "ordered_urls c env CHAIN_ID w = (w1, Inr (u # us))"
    using ordered_home by blast
  then show ?thesis
    using assms by (simp add: rpc_def bind_def io_simps note_primary_ok_def rpc_result_def has_key_def
        field_def py_str_def)
qed

text \<open>When the node estimates a call, the gas limit answered covers the estimate and is at
  most a fifth and one unit above it; and when it will not estimate a plain transfer of ETH, the
  answer is the 21000 a transfer costs.\<close>

theorem estimate_gas_covers:
  assumes "rpc c env ''eth_estimateGas'' (gas_query from_addr to v data) chain w =
      (w', Inr (JStr (hex est)))"
    and "0 \<le> est" "est < 2 ^ 50"
    and "rpc c env ''eth_estimateGas'' (gas_query from_addr to v []) chain w2 = (w3, Inl (EvmError msg))"
  shows "(\<exists>g. estimate_gas c env from_addr to v data chain w = (w', Inr g) \<and>
        est \<le> g \<and> g \<le> est + est div 5 + 1) \<and>
    estimate_gas c env from_addr to v [] chain w2 = (w3, Inr 21000)"
proof
  have "startswith (hex est) ''0x''" using assms(2) by (simp add: hex_def startswith_def)
  then have "hex_to_int (JStr (hex est)) 0 = Inr est" by (simp add: hex_to_int_def)
  then have "estimate_gas c env from_addr to v data chain w = (w', Inr (buffered est))"
    using assms(1) by (simp add: estimate_gas_def gas_query_def bind_def try_except_def io_simps)
  then show "\<exists>g. estimate_gas c env from_addr to v data chain w = (w', Inr g) \<and>
        est \<le> g \<and> g \<le> est + est div 5 + 1"
    using assms(2,3) buffered_ge [of est] buffered_le [of est] by simp
  show "estimate_gas c env from_addr to v [] chain w2 = (w3, Inr 21000)"
    using assms(4)
    by (simp add: estimate_gas_def gas_query_def bind_def try_except_def io_simps is_evm_error_def
        NATIVE_TRANSFER_GAS_def)
qed

text \<open>A node that estimates calls with data and refuses everything else.\<close>

definition choosy :: outside where
  "choosy = outage\<lparr>http := (\<lambda>n verb url p.
     if p = rpc_payload 1 ''eth_estimateGas'' (gas_query ''0xa'' ''0xb'' 1 ''0xff'')
     then Reply 200 (Some (JObj [(''result'', JStr (hex 100))]))
     else Reply 200 (Some (JObj [(''error'', JObj [(''message'', JStr ''no'')])])))\<rparr>"

lemma choosy_error:
  assumes "p \<noteq> rpc_payload 1 ''eth_estimateGas'' (gas_query ''0xa'' ''0xb'' 1 ''0xff'')"
  shows "http choosy n ''POST'' url p = Reply 200 (Some (JObj [(''error'', JObj [(''message'', JStr ''no'')])]))"
  using assms by (simp add: choosy_def)

theorem estimate_gas_covers_witness:
  "\<exists>w' w3 g. estimate_gas default_settings choosy ''0xa'' ''0xb'' 1 ''0xff'' CHAIN_ID fresh_world = (w', Inr g) \<and>
     100 \<le> g \<and> g \<le> 121 \<and>
     estimate_gas default_settings choosy ''0xa'' ''0xb'' 1 [] CHAIN_ID fresh_world = (w3, Inr 21000)"
proof -
  have "\<exists>w'. rpc default_settings choosy ''eth_estimateGas'' (gas_query ''0xa'' ''0xb'' 1 ''0xff'')
      CHAIN_ID fresh_world = (w', Inr (JStr (hex 100)))"
    by (rule rpc_const [where kvs = "[(''result'', JStr (hex 100))]"]) (simp_all add: choosy_def)
  then obtain w' where a: "rpc default_settings choosy ''eth_estimateGas''
      (gas_query ''0xa'' ''0xb'' 1 ''0xff'') CHAIN_ID fresh_world = (w', Inr (JStr (hex 100)))" ..
  have other: "rpc_payload 1 ''eth_estimateGas'' (gas_query ''0xa'' ''0xb'' 1 []) \<noteq>
      rpc_payload 1 ''eth_estimateGas'' (gas_query ''0xa'' ''0xb'' 1 ''0xff'')"
    by (simp add: gas_query_def or_text_def rpc_payload_def)
  have "\<exists>w3. rpc default_settings choosy ''eth_estimateGas'' (gas_query ''0xa'' ''0xb'' 1 [])
      CHAIN_ID fresh_world = (w3, Inl (EvmError ''no''))"
    by (rule rpc_refused) (rule choosy_error [OF other])
  then obtain w3 where b: "rpc default_settings choosy ''eth_estimateGas''
      (gas_query ''0xa'' ''0xb'' 1 []) CHAIN_ID fresh_world = (w3, Inl (EvmError ''no''))" ..
  from estimate_gas_covers [OF a _ _ b] show ?thesis by auto
qed

text \<open>Waiting for a receipt always ends: with a clock that does not go back, the polling
  loop is over within its fuel, which one round every second and a half bounds.\<close>

theorem wait_receipt_ends:
  assumes "clock_monotone env" and "0 \<le> timeout"
  shows "snd (wait_receipt c env tx_hash timeout chain w) \<noteq> Inl Out_Of_Fuel"
proof -
  let ?w1 = "w\<lparr>looks := looks w + 1\<rparr>"
  have m: "monotonic env w = (?w1, Inr (clock_of env w))"
    by (simp add: monotonic_def clock_of_def)
  have "clock_of env w \<le> clock_of env ?w1"
    using clock_of_steady [where m = "monotonic env", OF assms(1) _ m] by (simp add: steady_intros)
  moreover have "timeout \<le> seconds 3 div 2 * (int (receipt_rounds timeout) - 1)"
  proof -
    have "timeout = 1500000 * (timeout div 1500000) + timeout mod 1500000" by simp
    moreover have "timeout mod 1500000 < 1500000" by simp
    moreover have "0 \<le> timeout div 1500000" using assms(2) by (simp add: pos_imp_zdiv_nonneg_iff)
    ultimately show ?thesis by (simp add: receipt_rounds_def time_simps)
  qed
  ultimately have "clock_of env w + timeout \<le>
      clock_of env ?w1 + seconds 3 div 2 * (int (receipt_rounds timeout) - 1)" by linarith
  then show ?thesis
    using poll_receipt_fuel [OF assms(1), of "receipt_rounds timeout"] m
    by (simp add: wait_receipt_def bind_def receipt_rounds_def)
qed

theorem wait_receipt_ends_witness:
  "snd (wait_receipt outage_settings outage JNull (seconds 60) CHAIN_ID fresh_world) \<noteq> Inl Out_Of_Fuel"
  by (rule wait_receipt_ends) (simp_all add: clock_monotone_def outage_def time_simps)

lemma poll_receipt_found:
  fixes w w' :: "'z world_scheme"
  shows "poll_receipt c env h chain deadline fuel w = (w', Inr (Some r)) \<Longrightarrow>
   truthy r \<and> (\<exists>w1 w2 :: 'z world_scheme. rpc c env ''eth_getTransactionReceipt'' [h] chain w1 = (w2, Inr r))"
  by (induction fuel arbitrary: w)
    (auto simp: io_simps bind_Inr split: if_splits)

text \<open>C7: \<open>send_and_confirm\<close> answers a hash only for a transaction it signed and broadcast on
  the transaction's own chain, and only after the node gave a receipt for that hash whose
  status is success.\<close>

theorem confirmed_means_succeeded:
  fixes w w' :: "'z world_scheme"
  assumes "send_and_confirm c env key t label w = (w', Inr h)"
    and "tx_chain_id t = show_int chain"
  shows "(\<exists>w1. sign_and_send c env key t w = (w1, Inr h)) \<and>
    (\<exists>(w1 :: 'z world_scheme) w2 r. rpc c env ''eth_getTransactionReceipt'' [h] chain w1 = (w2, Inr r) \<and>
       receipt_succeeded r = Inr True)"
proof -
  obtain w1 w2 w3 r d where s: "sign_and_send c env key t w = (w1, Inr h)"
    and p: "poll_receipt c env h chain d (receipt_rounds (seconds 60)) (w3 :: 'z world_scheme) =
      (w2, Inr (Some r))"
    and ok: "receipt_succeeded r = Inr True"
    using assms
    by (fastforce simp: send_and_confirm_def bind_Inr io_simps wait_receipt_def
        split: option.splits if_splits)
  from poll_receipt_found [OF p] s ok show ?thesis by blast
qed

definition calm :: outside where
  "calm = \<lparr>http = (\<lambda>n verb url p. if url = ''http://127.0.0.1:3060/sign-tx''
         then Reply 200 (Some (JObj [(''raw'', JStr ''0x02'')]))
         else Reply 200 (Some (JObj [(''result'', JObj [(''status'', JStr ''0x1'')])]))),
     mono = (\<lambda>n. int n), utc = (\<lambda>n. int n), repr_of = (\<lambda>_. []), raw_text = (\<lambda>_. []), env_var = (\<lambda>_. None), auth_cookie = (\<lambda>_. None), error_text = (\<lambda>_. []),
     chat_answer = (\<lambda>_ _ _. Sent_To_Chat)\<rparr>"

definition sample_tx :: tx where
  "sample_tx = \<lparr>tx_chain_id = show_int 1, tx_nonce = show_int 0, tx_to = ''0xaa'',
     tx_value = show_int 5, tx_data = ''0x'', tx_gas = show_int 21000,
     tx_max_fee_per_gas = show_int 7, tx_max_priority_fee_per_gas = show_int 1\<rparr>"

lemma calm_rpc: "\<exists>w'. rpc c calm m ps 1 w = (w', Inr (JObj [(''status'', JStr ''0x1'')]))"
proof -
  have 1: "(1::int) \<noteq> CHAIN_ID" by (simp add: CHAIN_ID_def)
  obtain u where u: "rpc_urls c calm 1 = Inr [u]" "u \<noteq> ''http://127.0.0.1:3060/sign-tx''"
  proof -
    have "by_id 1 = Some (CHAINS ! 1)" by (simp add: by_id_def CHAINS_def mk_chain_def ROBINHOOD_def)
    then have "rpc_urls c calm 1 = Inr [''https://eth.drpc.org'']"
      using 1 by (simp add: rpc_urls_def rpc_url_def rpc_for_def chain_rpc_def calm_def
          or_text_opt_def CHAINS_def mk_chain_def)
    then show ?thesis by (intro that) auto
  qed
  then show ?thesis
    by (simp add: rpc_def ordered_urls_def bind_def io_simps calm_def note_primary_ok_def
        rpc_result_def has_key_def)
qed

lemma calm_mono: "mono calm n = int n"
  by (simp add: calm_def)

lemma rounds: "\<exists>k. receipt_rounds 60000000 = Suc k"
  by (simp add: receipt_rounds_def)

theorem confirmed_means_succeeded_witness:
  "\<exists>w' h. send_and_confirm default_settings calm ''key'' sample_tx ''send'' fresh_world = (w', Inr h) \<and>
     (\<exists>(w1 :: world) w2 r. rpc default_settings calm ''eth_getTransactionReceipt'' [h] 1 w1 = (w2, Inr r) \<and>
        receipt_succeeded r = Inr True)"
proof -
  have sg: "signer_sign_tx default_settings calm ''key'' sample_tx w =
      (w\<lparr>looks := looks w + 1\<rparr>, Inr (JObj [(''raw'', JStr ''0x02'')]))" for w :: world
    by (simp add: signer_sign_tx_def signer_post_def bind_def io_simps calm_def default_settings_def
        rstrip_chars_def rstrip_where_def)
  have ok: "receipt_succeeded (JObj [(''status'', JStr ''0x1'')]) = Inr True"
    by code_simp
  have id1: "tx_chain_id sample_tx = show_int 1" by (simp add: sample_tx_def)
  obtain w1 where w1: "rpc default_settings calm ''eth_sendRawTransaction'' [JStr ''0x02''] 1
      (fresh_world\<lparr>looks := looks fresh_world + 1\<rparr>) = (w1, Inr (JObj [(''status'', JStr ''0x1'')]))"
    using calm_rpc by blast
  let ?h = "JObj [(''status'', JStr ''0x1'')]"
  obtain w2 where w2: "rpc default_settings calm ''eth_getTransactionReceipt'' [?h] 1
      (w1\<lparr>looks := looks w1 + 1 + 1\<rparr>) = (w2, Inr ?h)"
    using calm_rpc by blast
  have "\<exists>w'. send_and_confirm default_settings calm ''key'' sample_tx ''send'' fresh_world = (w', Inr ?h)"
  proof -
    have "sign_and_send default_settings calm ''key'' sample_tx fresh_world = (w1, Inr ?h)"
      using sg w1 by (simp add: sign_and_send_def bind_def io_simps id1 item_def)
    moreover obtain k where k: "receipt_rounds 60000000 = Suc k" using rounds by blast
    have "wait_receipt default_settings calm ?h (seconds 60) 1 w1 = (w2, Inr (Some ?h))"
      using w2 by (simp add: wait_receipt_def bind_def io_simps k calm_mono time_simps)
    ultimately show ?thesis
      using ok by (simp add: send_and_confirm_def bind_def io_simps id1)
  qed
  with confirmed_means_succeeded [of default_settings calm "''key''" sample_tx "''send''"] id1
  show ?thesis by blast
qed



end
