(* ===== verification/Wallet.thy ===== *)
theory Wallet
  imports Evm
begin

text \<open>
  Custodial wallets, \<open>app/services/wallet.py\<close>: the table \<open>tg_wallets\<close> with its partial unique
  index (one active wallet per user), and the operations that create, import, archive, rename,
  activate and export wallets. Keys live with the signer; a row holds the signer's handle.
  Rows are kept by their serial id, which grows with every insert.
\<close>

section \<open>State\<close>

record wallet_row =
  wr_telegram_id :: int
  wr_address :: string
  wr_enc_key_ref :: string
  wr_imported :: bool
  wr_created_at :: usec
  wr_archived_at :: "usec option"
  wr_label :: "string option"

record wallet_state = world +
  tg_wallets :: "(int, wallet_row) table"
  next_wallet_id :: int

definition WALLET_CHAIN :: string where
  "WALLET_CHAIN = ''evm''"

definition active_of :: "int \<Rightarrow> wallet_row \<Rightarrow> bool" where
  "active_of tid r \<longleftrightarrow> wr_telegram_id r = tid \<and> wr_archived_at r = None"

definition first_row :: "(wallet_row \<Rightarrow> bool) \<Rightarrow> (int, wallet_row) table \<Rightarrow> (int \<times> wallet_row) option" where
  "first_row p t = find (\<lambda>(_, r). p r) t"

section \<open>Statements\<close>

definition get_wallet :: "int \<Rightarrow> ('z wallet_state_scheme, wallet_row option) io" where
  "get_wallet tid = gets (\<lambda>w. map_option snd (first_row (active_of tid) (tg_wallets w)))"

definition archive_rows :: "int \<Rightarrow> usec \<Rightarrow> (int, wallet_row) table \<Rightarrow> (int, wallet_row) table" where
  "archive_rows tid now t =
     update_where (\<lambda>_. active_of tid) (\<lambda>r. r\<lparr>wr_archived_at := Some now\<rparr>) t"

definition archive_active ::
  "outside \<Rightarrow> int \<Rightarrow> ('z wallet_state_scheme, wallet_row option) io" where
  "archive_active env tid w =
     (w\<lparr>tg_wallets := archive_rows tid (utc_now env w) (tg_wallets w)\<rparr>,
      Inr (map_option (\<lambda>(_, r). r\<lparr>wr_archived_at := Some (utc_now env w)\<rparr>)
             (first_row (active_of tid) (tg_wallets w))))"

definition list_wallets :: "int \<Rightarrow> ('z wallet_state_scheme, (int \<times> wallet_row) list) io" where
  "list_wallets tid = gets (\<lambda>w.
     sort_key (\<lambda>(_, r). wr_created_at r)
       (sort_key fst (rows_where (\<lambda>_ r. wr_telegram_id r = tid) (tg_wallets w))))"

text \<open>
  The partial unique index: a second active row for a user is refused. With
  \<open>ON CONFLICT DO NOTHING\<close> the refusal is silent, without it the statement raises.
\<close>

definition insert_wallet ::
  "outside \<Rightarrow> bool \<Rightarrow> int \<Rightarrow> string \<Rightarrow> string \<Rightarrow> bool \<Rightarrow> ('z wallet_state_scheme, unit) io" where
  "insert_wallet env quiet tid address key imported w =
     (if first_row (active_of tid) (tg_wallets w) \<noteq> None then
        (w, if quiet then Inr () else Inl UniqueViolation)
      else
        (w\<lparr>tg_wallets := tg_wallets w @ [(next_wallet_id w,
             \<lparr>wr_telegram_id = tid, wr_address = address, wr_enc_key_ref = key,
              wr_imported = imported, wr_created_at = utc_now env w, wr_archived_at = None,
              wr_label = None\<rparr>)],
           next_wallet_id := next_wallet_id w + 1\<rparr>, Inr ()))"

text \<open>\<open>rename\<close> answers whether the number of updated rows, in decimal, ends in 1.\<close>

definition rename_wallet ::
  "int \<Rightarrow> string \<Rightarrow> string option \<Rightarrow> ('z wallet_state_scheme, bool) io" where
  "rename_wallet tid address label w =
     (let hit = (\<lambda>r. wr_telegram_id r = tid \<and> lower (wr_address r) = lower address)
      in (w\<lparr>tg_wallets := update_where (\<lambda>_. hit)
             (\<lambda>r. r\<lparr>wr_label := (if label = Some [] then None else label)\<rparr>) (tg_wallets w)\<rparr>,
          Inr (length (rows_where (\<lambda>_. hit) (tg_wallets w)) mod 10 = 1)))"

definition owned_at :: "int \<Rightarrow> string \<Rightarrow> wallet_row \<Rightarrow> bool" where
  "owned_at tid address r \<longleftrightarrow> wr_telegram_id r = tid \<and> lower (wr_address r) = lower address"

definition unarchive :: "int \<Rightarrow> ('z wallet_state_scheme, unit) io" where
  "unarchive i w =
     (case row_of (tg_wallets w) i of
        None \<Rightarrow> (w, Inr ())
      | Some r \<Rightarrow>
          if (\<exists>p\<in>set (tg_wallets w). fst p \<noteq> i \<and> active_of (wr_telegram_id r) (snd p))
          then (w, Inl UniqueViolation)
          else (w\<lparr>tg_wallets := put_row i (r\<lparr>wr_archived_at := None\<rparr>) (tg_wallets w)\<rparr>, Inr ()))"

section \<open>Operations\<close>

definition text_item :: "string \<Rightarrow> json \<Rightarrow> exn + string" where
  "text_item k j =
     (case item k j of Inl e \<Rightarrow> Inl e | Inr (JStr s) \<Rightarrow> Inr s | Inr _ \<Rightarrow> Inl TypeError)"

definition get_or_create_wallet ::
  "settings \<Rightarrow> outside \<Rightarrow> int \<Rightarrow> ('z wallet_state_scheme, wallet_row) io" where
  "get_or_create_wallet c env tid =
     bind (get_wallet tid) (\<lambda>existing.
       case existing of
         Some r \<Rightarrow> return r
       | None \<Rightarrow>
           bind (signer_create_wallet c env WALLET_CHAIN) (\<lambda>created.
           bind (from_sum (text_item ''address'' created)) (\<lambda>address.
           bind (from_sum (text_item ''enc_key_ref'' created)) (\<lambda>key.
           bind (insert_wallet env True tid address key False) (\<lambda>_.
           bind (get_wallet tid) (\<lambda>r. from_sum (or_raise TypeError r)))))))"

definition import_wallet ::
  "settings \<Rightarrow> outside \<Rightarrow> int \<Rightarrow> string \<Rightarrow> ('z wallet_state_scheme, wallet_row option) io" where
  "import_wallet c env tid secret =
     bind (signer_import_wallet c env WALLET_CHAIN secret) (\<lambda>imported.
     bind (archive_active env tid) (\<lambda>_.
     bind (from_sum (text_item ''address'' imported)) (\<lambda>address.
     bind (from_sum (text_item ''enc_key_ref'' imported)) (\<lambda>key.
     bind (insert_wallet env False tid address key True) (\<lambda>_.
       get_wallet tid)))))"

definition new_wallet ::
  "settings \<Rightarrow> outside \<Rightarrow> int \<Rightarrow> ('z wallet_state_scheme, wallet_row option) io" where
  "new_wallet c env tid =
     bind (signer_create_wallet c env WALLET_CHAIN) (\<lambda>created.
     bind (archive_active env tid) (\<lambda>_.
     bind (from_sum (text_item ''address'' created)) (\<lambda>address.
     bind (from_sum (text_item ''enc_key_ref'' created)) (\<lambda>key.
     bind (insert_wallet env False tid address key False) (\<lambda>_.
       get_wallet tid)))))"

definition activate ::
  "outside \<Rightarrow> int \<Rightarrow> string \<Rightarrow> ('z wallet_state_scheme, wallet_row option) io" where
  "activate env tid address =
     bind (gets (\<lambda>w. first_row (owned_at tid address) (tg_wallets w))) (\<lambda>target.
       case target of
         None \<Rightarrow> return None
       | Some (i, _) \<Rightarrow>
           bind (archive_active env tid) (\<lambda>_.
           bind (unarchive i) (\<lambda>_.
             get_wallet tid)))"

definition export_secret ::
  "settings \<Rightarrow> outside \<Rightarrow> int \<Rightarrow> string option \<Rightarrow> ('z wallet_state_scheme, json) io" where
  "export_secret c env tid address =
     bind (if or_text_opt address [] \<noteq> []
           then gets (\<lambda>w. map_option snd (first_row (owned_at tid (or_text_opt address [])) (tg_wallets w)))
           else get_wallet tid) (\<lambda>row.
       case row of
         None \<Rightarrow> throw ValueError
       | Some r \<Rightarrow> signer_export_wallet c env WALLET_CHAIN (wr_enc_key_ref r))"

definition wallet_address ::
  "settings \<Rightarrow> outside \<Rightarrow> int \<Rightarrow> ('z wallet_state_scheme, string) io" where
  "wallet_address c env tid =
     bind (get_or_create_wallet c env tid) (\<lambda>r. return (wr_address r))"

section \<open>What every operation keeps\<close>

text \<open>
  Ids are keys below the next one, and a user has at most one active wallet. Between two
  states every wallet stays with its owner, its address and its key.
\<close>

definition actives :: "int \<Rightarrow> (int, wallet_row) table \<Rightarrow> int set" where
  "actives tid t = {i. \<exists>r. row_of t i = Some r \<and> active_of tid r}"

definition one_at_most :: "'a set \<Rightarrow> bool" where
  "one_at_most A \<longleftrightarrow> (\<forall>x\<in>A. \<forall>y\<in>A. x = y)"

definition wallets_ok :: "'z wallet_state_scheme \<Rightarrow> bool" where
  "wallets_ok w \<longleftrightarrow> keyed (tg_wallets w) \<and>
     (\<forall>i. next_wallet_id w \<le> i \<longrightarrow> row_of (tg_wallets w) i = None) \<and>
     (\<forall>tid. one_at_most (actives tid (tg_wallets w)))"

definition same_key :: "wallet_row \<Rightarrow> wallet_row \<Rightarrow> bool" where
  "same_key r s \<longleftrightarrow> wr_telegram_id s = wr_telegram_id r \<and> wr_address s = wr_address r \<and>
     wr_enc_key_ref s = wr_enc_key_ref r \<and> wr_imported s = wr_imported r \<and>
     wr_created_at s = wr_created_at r"

lemma same_key_refl [simp]: "same_key r r"
  by (simp add: same_key_def)

lemma same_key_trans: "same_key r s \<Longrightarrow> same_key s u \<Longrightarrow> same_key r u"
  by (simp add: same_key_def)

definition keeps_keys :: "'z wallet_state_scheme \<Rightarrow> 'z wallet_state_scheme \<Rightarrow> bool" where
  "keeps_keys w w' \<longleftrightarrow> (\<forall>i r. row_of (tg_wallets w) i = Some r \<longrightarrow>
     (\<exists>s. row_of (tg_wallets w') i = Some s \<and> same_key r s))"

interpretation wallets: io_relation wallets_ok keeps_keys
proof
  show "keeps_keys w w" for w by (simp add: keeps_keys_def)
  show "keeps_keys w1 w3" if "keeps_keys w1 w2" "keeps_keys w2 w3" for w1 w2 w3
    using that unfolding keeps_keys_def by (meson same_key_trans)
qed

abbreviation safe :: "('z wallet_state_scheme, 'a) io \<Rightarrow> bool" where
  "safe m \<equiv> obeys wallets_ok keeps_keys m"

lemma same_more_wallets:
  fixes w w' :: "'z wallet_state_scheme"
  assumes "same_more w w'"
  shows "tg_wallets w' = tg_wallets w" "next_wallet_id w' = next_wallet_id w"
  using assms by (cases w; cases w'; simp add: same_more_def)+

lemma safe_framed:
  fixes m :: "('z wallet_state_scheme, 'a) io"
  assumes "framed m"
  shows "safe m"
  unfolding obeys_def
proof (intro allI impI)
  fix w :: "'z wallet_state_scheme" assume w: "wallets_ok w"
  have "same_more w (fst (m w))" using assms by (simp add: obeys_def)
  then have "tg_wallets (fst (m w)) = tg_wallets w" "next_wallet_id (fst (m w)) = next_wallet_id w"
    by (rule same_more_wallets)+
  with w show "wallets_ok (fst (m w)) \<and> keeps_keys w (fst (m w))"
    by (simp add: wallets_ok_def keeps_keys_def same_key_def)
qed

lemma find_row:
  "keyed t \<Longrightarrow> first_row p t = Some (i, r) \<Longrightarrow> row_of t i = Some r \<and> p r"
  by (auto simp: first_row_def find_Some_iff keyed_row_of [symmetric]
      intro: nth_mem) (metis nth_mem)+

lemma first_row_None: "keyed t \<Longrightarrow> first_row p t = None \<longleftrightarrow> (\<forall>i r. row_of t i = Some r \<longrightarrow> \<not> p r)"
  by (auto simp: first_row_def find_None_iff keyed_row_of [symmetric])

lemma archive_row_of:
  "row_of (archive_rows tid now t) i =
     map_option (\<lambda>r. if active_of tid r then r\<lparr>wr_archived_at := Some now\<rparr> else r) (row_of t i)"
  by (simp add: archive_rows_def)

lemma active_of_archived [simp]:
  "\<not> active_of t (r\<lparr>wr_archived_at := Some now\<rparr>)" "active_of t (r\<lparr>wr_label := l\<rparr>) = active_of t r"
  by (simp_all add: active_of_def)

lemma same_key_updates [simp]:
  "same_key r (s\<lparr>wr_archived_at := x\<rparr>) = same_key r s" "same_key r (s\<lparr>wr_label := l\<rparr>) = same_key r s"
  by (simp_all add: same_key_def)

lemma actives_archive: "actives k (archive_rows tid now t) = (if k = tid then {} else actives k t)"
proof (rule set_eqI)
  fix i show "i \<in> actives k (archive_rows tid now t) \<longleftrightarrow> i \<in> (if k = tid then {} else actives k t)"
    by (cases "row_of t i") (auto simp: actives_def archive_row_of active_of_def)
qed

lemma archive_keyed [simp]: "keyed (archive_rows tid now t) = keyed t"
  by (simp add: archive_rows_def)

lemma one_empty [simp]: "one_at_most {}" "one_at_most {x}"
  by (simp_all add: one_at_most_def)

lemma safe_archive: "safe (archive_active env tid)"
proof -
  have "keeps_keys w (fst (archive_active env tid w))" for w :: "'a wallet_state_scheme"
    unfolding keeps_keys_def by (intro allI impI) (simp add: archive_active_def archive_row_of)
  moreover have "wallets_ok (fst (archive_active env tid w))" if "wallets_ok w"
    for w :: "'a wallet_state_scheme"
    using that by (simp add: wallets_ok_def archive_active_def actives_archive archive_row_of)
  ultimately show ?thesis by (simp add: obeys_def)
qed

lemma row_of_fresh:
  "row_of t n = None \<Longrightarrow> row_of (t @ [(n, r)]) i = (if i = n then Some r else row_of t i)"
  by (simp add: row_of_snoc split: option.split)

lemma keyed_snoc: "keyed t \<Longrightarrow> row_of t n = None \<Longrightarrow> keyed (t @ [(n, r)])"
  by (auto simp: keyed_def row_of_def map_of_eq_None_iff)

lemma actives_none: "keyed t \<Longrightarrow> first_row (active_of tid) t = None \<longleftrightarrow> actives tid t = {}"
  by (auto simp: first_row_None actives_def)

lemma safe_insert: "safe (insert_wallet env quiet tid address key imported)"
proof -
  have "wallets_ok (fst (insert_wallet env quiet tid address key imported w)) \<and>
      keeps_keys w (fst (insert_wallet env quiet tid address key imported w))"
    if w: "wallets_ok w" for w :: "'a wallet_state_scheme"
  proof (cases "first_row (active_of tid) (tg_wallets w) = None")
    case False
    then show ?thesis using w by (auto simp: insert_wallet_def intro: wallets.R_refl)
  next
    case True
    let ?r = "\<lparr>wr_telegram_id = tid, wr_address = address, wr_enc_key_ref = key,
        wr_imported = imported, wr_created_at = utc_now env w, wr_archived_at = None, wr_label = None\<rparr>"
    have n: "row_of (tg_wallets w) (next_wallet_id w) = None" and k: "keyed (tg_wallets w)"
      using w by (auto simp: wallets_ok_def)
    have none: "actives tid (tg_wallets w) = {}" using True k by (simp add: actives_none)
    have "actives k (tg_wallets w @ [(next_wallet_id w, ?r)]) =
        (if k = tid then {next_wallet_id w} else actives k (tg_wallets w))" for k
    proof -
      have "active_of k ?r \<longleftrightarrow> k = tid" by (auto simp: active_of_def)
      moreover have "\<not> active_of tid s" if "row_of (tg_wallets w) i = Some s" for i s
        using none that by (auto simp: actives_def)
      ultimately show ?thesis
        using n by (auto simp: actives_def row_of_fresh split: if_splits)
    qed
    then show ?thesis
      using w True n k
      by (auto simp: insert_wallet_def wallets_ok_def keyed_snoc row_of_fresh keeps_keys_def)
  qed
  then show ?thesis by (simp add: obeys_def)
qed

lemma actives_label:
  "actives k (update_where p (\<lambda>r. r\<lparr>wr_label := l\<rparr>) t) = actives k t"
proof (rule set_eqI)
  fix i show "i \<in> actives k (update_where p (\<lambda>r. r\<lparr>wr_label := l\<rparr>) t) \<longleftrightarrow> i \<in> actives k t"
    by (cases "row_of t i") (auto simp: actives_def)
qed

lemma map_fst_put: "row_of t i = Some r \<Longrightarrow> map fst (put_row i s t) = map fst t"
  by (auto simp: put_row_def update_keys row_of_def map_of_eq_None_iff [symmetric])

lemma map_fst_update_where [simp]: "map fst (update_where p f t) = map fst t"
  by (simp add: update_where_def comp_def case_prod_unfold)

lemma safe_rename: "safe (rename_wallet tid address label)"
proof -
  have "keeps_keys w (fst (rename_wallet tid address label w))" for w :: "'a wallet_state_scheme"
    unfolding keeps_keys_def by (intro allI impI) (simp add: rename_wallet_def Let_def)
  then show ?thesis
    by (simp add: obeys_def wallets_ok_def rename_wallet_def Let_def actives_label)
qed

lemma actives_put:
  "actives k (put_row i r t) = (if active_of k r then insert i (actives k t) else actives k t - {i})"
  by (auto simp: actives_def)

lemma safe_unarchive: "safe (unarchive i)"
proof -
  have "wallets_ok (fst (unarchive i w)) \<and> keeps_keys w (fst (unarchive i w))"
    if w: "wallets_ok w" for w :: "'a wallet_state_scheme"
  proof (cases "row_of (tg_wallets w) i")
    case None
    then show ?thesis using w by (simp add: unarchive_def wallets.R_refl)
  next
    case (Some r)
    show ?thesis
    proof (cases "\<exists>p\<in>set (tg_wallets w). fst p \<noteq> i \<and> active_of (wr_telegram_id r) (snd p)")
      case True
      then show ?thesis using w Some by (simp add: unarchive_def wallets.R_refl)
    next
      case False
      have k: "keyed (tg_wallets w)" using w by (simp add: wallets_ok_def)
      have "actives (wr_telegram_id r) (tg_wallets w) \<subseteq> {i}"
        using False k by (force simp: actives_def keyed_row_of [symmetric])
      then have "one_at_most (actives tid (put_row i (r\<lparr>wr_archived_at := None\<rparr>) (tg_wallets w)))" for tid
        using w by (auto simp: actives_put active_of_def one_at_most_def wallets_ok_def)
      then show ?thesis
        using w Some False
        by (auto simp: unarchive_def wallets_ok_def keeps_keys_def)
    qed
  qed
  then show ?thesis by (simp add: obeys_def)
qed

lemmas safe_rules = wallets.obeys_rules safe_archive safe_insert safe_rename safe_unarchive
  safe_framed [OF framed_signer]

lemma safe_get: "safe (get_wallet tid)"
  unfolding get_wallet_def by (intro safe_rules)

lemma safe_operations:
  "safe (get_or_create_wallet c env tid)" "safe (import_wallet c env tid secret)"
  "safe (new_wallet c env tid)" "safe (activate env tid address)"
  "safe (export_secret c env tid a)"
  unfolding get_or_create_wallet_def import_wallet_def new_wallet_def activate_def
    export_secret_def signer_calls
  by (intro safe_rules safe_get)+

section \<open>Runs of the service\<close>

datatype wallet_op =
    Op_Get_Or_Create int
  | Op_Import int string
  | Op_New int
  | Op_Archive int
  | Op_Rename int string "string option"
  | Op_Activate int string
  | Op_Export int "string option"

primrec wallet_step ::
  "settings \<Rightarrow> outside \<Rightarrow> wallet_op \<Rightarrow> wallet_state \<Rightarrow> wallet_state" where
  "wallet_step c env (Op_Get_Or_Create tid) w = fst (get_or_create_wallet c env tid w)"
| "wallet_step c env (Op_Import tid secret) w = fst (import_wallet c env tid secret w)"
| "wallet_step c env (Op_New tid) w = fst (new_wallet c env tid w)"
| "wallet_step c env (Op_Archive tid) w = fst (archive_active env tid w)"
| "wallet_step c env (Op_Rename tid a l) w = fst (rename_wallet tid a l w)"
| "wallet_step c env (Op_Activate tid a) w = fst (activate env tid a w)"
| "wallet_step c env (Op_Export tid a) w = fst (export_secret c env tid a w)"

lemma safeD:
  "safe m \<Longrightarrow> wallets_ok w \<Longrightarrow> wallets_ok (fst (m w)) \<and> keeps_keys w (fst (m w))"
  by (simp add: obeys_def)

lemma wallet_step_safe:
  assumes "wallets_ok w"
  shows "wallets_ok (wallet_step c env x w) \<and> keeps_keys w (wallet_step c env x w)"
  by (cases x; simp only: wallet_step.simps; rule safeD [OF _ assms];
      intro safe_operations safe_archive safe_rename)

lemma wallet_run_safe:
  "wallets_ok w \<Longrightarrow> wallets_ok (fold (wallet_step c env) xs w) \<and>
     keeps_keys w (fold (wallet_step c env) xs w)"
proof (induction xs arbitrary: w)
  case (Cons x xs)
  then show ?case
    using wallet_step_safe [OF Cons.prems, of c env x] wallets.R_trans by fastforce
qed (simp add: wallets.R_refl)


section \<open>Properties\<close>

text \<open>C8: no sequence of wallet operations, whatever the signer answers and however calls fail
  on the way, loses a key: every wallet that ever existed is still in the table with its owner,
  its address and its key handle, and a user never has two active wallets.\<close>

theorem keys_are_never_lost:
  assumes "wallets_ok w" and "row_of (tg_wallets w) i = Some r"
  shows "\<exists>s. row_of (tg_wallets (fold (wallet_step c env) xs w)) i = Some s \<and>
      wr_telegram_id s = wr_telegram_id r \<and> wr_address s = wr_address r \<and>
      wr_enc_key_ref s = wr_enc_key_ref r \<and>
      (\<forall>tid j k. j \<in> actives tid (tg_wallets (fold (wallet_step c env) xs w)) \<and>
         k \<in> actives tid (tg_wallets (fold (wallet_step c env) xs w)) \<longrightarrow> j = k)"
proof -
  let ?w = "fold (wallet_step c env) xs w"
  have run: "wallets_ok ?w" "keeps_keys w ?w"
    using wallet_run_safe [OF assms(1), of c env xs] by simp_all
  have "\<forall>tid j k. j \<in> actives tid (tg_wallets ?w) \<and> k \<in> actives tid (tg_wallets ?w) \<longrightarrow> j = k"
    using run(1) unfolding wallets_ok_def one_at_most_def by blast
  moreover obtain s where "row_of (tg_wallets ?w) i = Some s" "same_key r s"
    using run(2) assms(2) by (auto simp: keeps_keys_def)
  ultimately show ?thesis by (auto simp: same_key_def)
qed

definition two_wallets :: wallet_state where
  "two_wallets = \<lparr>looks = 0, slept = 0, on_fallback = False, primary_stale = False, lag_checked_at = 0,
     tg_wallets = [(1, \<lparr>wr_telegram_id = 7, wr_address = ''0xAa'', wr_enc_key_ref = ''k1'',
         wr_imported = False, wr_created_at = 1, wr_archived_at = Some 5, wr_label = None\<rparr>),
       (2, \<lparr>wr_telegram_id = 7, wr_address = ''0xBb'', wr_enc_key_ref = ''k2'',
         wr_imported = True, wr_created_at = 5, wr_archived_at = None, wr_label = None\<rparr>)],
     next_wallet_id = 3\<rparr>"

lemma two_wallets_ok: "wallets_ok two_wallets"
  by (auto simp: wallets_ok_def two_wallets_def keyed_def actives_def active_of_def one_at_most_def
      split: if_splits)

theorem keys_are_never_lost_witness:
  "\<exists>s. row_of (tg_wallets (fold (wallet_step default_settings outage)
       [Op_New 7, Op_Import 7 ''secret'', Op_Activate 7 ''0xAA''] two_wallets)) 2 = Some s \<and>
     wr_enc_key_ref s = ''k2''"
proof -
  obtain r where "row_of (tg_wallets two_wallets) 2 = Some r" "wr_enc_key_ref r = ''k2''"
    by (simp add: two_wallets_def)
  from keys_are_never_lost [OF two_wallets_ok this(1)] this(2) show ?thesis by metis
qed

text \<open>Activating one of the user's wallets makes it the one in use, whichever was before, and
  nothing else: every wallet keeps its place in the list, and only the archive marks of the
  user's active and chosen wallets change.\<close>

theorem activate_switches:
  fixes w :: "'z wallet_state_scheme"
  assumes "wallets_ok w" and "first_row (owned_at tid address) (tg_wallets w) = Some (i, r)"
  shows "\<exists>w'. activate env tid address w = (w', Inr (Some (r\<lparr>wr_archived_at := None\<rparr>))) \<and>
     actives tid (tg_wallets w') = {i} \<and> map fst (tg_wallets w') = map fst (tg_wallets w) \<and>
     (\<forall>k. k \<noteq> tid \<longrightarrow> actives k (tg_wallets w') = actives k (tg_wallets w))"
proof -
  have k: "keyed (tg_wallets w)" using assms(1) by (simp add: wallets_ok_def)
  have row: "row_of (tg_wallets w) i = Some r" and own: "wr_telegram_id r = tid"
    using find_row [OF k assms(2)] by (simp_all add: owned_at_def)
  define w1 where "w1 = fst (archive_active env tid w)"
  have w1: "wallets_ok w1" using safeD [OF safe_archive assms(1)] by (simp add: w1_def)
  have arch: "\<exists>x. archive_active env tid w = (w1, Inr x)" by (simp add: w1_def archive_active_def)
  have t1: "tg_wallets w1 = archive_rows tid (utc_now env w) (tg_wallets w)"
    by (simp add: w1_def archive_active_def)
  obtain r1 where r1: "row_of (tg_wallets w1) i = Some r1" "r1\<lparr>wr_archived_at := None\<rparr> = r\<lparr>wr_archived_at := None\<rparr>"
    using row by (auto simp: t1 archive_row_of)
  have own1: "wr_telegram_id r1 = tid"
    using own r1(2) by (metis wallet_row.select_convs(1) wallet_row.surjective wallet_row.update_convs(6))
  have none: "actives tid (tg_wallets w1) = {}" by (simp add: t1 actives_archive)
  have k1: "keyed (tg_wallets w1)" using w1 by (simp add: wallets_ok_def)
  define w2 where "w2 = w1\<lparr>tg_wallets := put_row i (r\<lparr>wr_archived_at := None\<rparr>) (tg_wallets w1)\<rparr>"
  have "\<not> (\<exists>p\<in>set (tg_wallets w1). fst p \<noteq> i \<and> active_of tid (snd p))"
    using none k1 by (force simp: actives_def keyed_row_of [symmetric])
  then have un: "unarchive i w1 = (w2, Inr ())"
    using r1 own1 by (simp add: unarchive_def w2_def)
  have act: "actives k (tg_wallets w2) = (if k = tid then {i} else actives k (tg_wallets w))" for k
    using none own row by (auto simp: w2_def actives_put t1 actives_archive active_of_def) (auto simp: actives_def active_of_def)
  have k2: "keyed (tg_wallets w2)" using k1 by (simp add: w2_def)
  obtain j s where f: "first_row (active_of tid) (tg_wallets w2) = Some (j, s)"
    using actives_none [OF k2, of tid] act [of tid] by (cases "first_row (active_of tid) (tg_wallets w2)") auto
  have "j \<in> actives tid (tg_wallets w2)" using find_row [OF k2 f] by (auto simp: actives_def)
  then have "j = i" using act [of tid] by simp
  then have "s = r\<lparr>wr_archived_at := None\<rparr>" using find_row [OF k2 f] by (simp add: w2_def)
  then have "activate env tid address w = (w2, Inr (Some (r\<lparr>wr_archived_at := None\<rparr>)))"
    using arch un f assms(2)
    by (auto simp: activate_def bind_def io_simps get_wallet_def)
  moreover have "map fst (tg_wallets w2) = map fst (tg_wallets w)"
    using r1(1) by (simp add: w2_def t1 archive_rows_def map_fst_put)
  ultimately show ?thesis using act by auto
qed


theorem activate_switches_witness:
  "\<exists>w'. actives 7 (tg_wallets w') = {1} \<and>
     (\<exists>r. activate outage 7 ''0xaA'' two_wallets = (w', Inr (Some r)) \<and> wr_enc_key_ref r = ''k1'')"
proof -
  have l: "lower ''0xAa'' = lower ''0xaA''" by code_simp
  obtain r where f: "first_row (owned_at 7 ''0xaA'') (tg_wallets two_wallets) = Some (1, r)"
    "wr_enc_key_ref r = ''k1''"
    using l by (simp add: two_wallets_def first_row_def owned_at_def)
  from activate_switches [OF two_wallets_ok f(1), of outage] f(2)
  show ?thesis by (metis wallet_row.select_convs(3) wallet_row.surjective wallet_row.update_convs(6))
qed

end
