(* ===== verification/Portfolio.thy ===== *)
theory Portfolio
  imports Wallet
begin

text \<open>
  Balances and the text of amounts: the native balance of \<open>app/services/portfolio.py\<close>, and the
  fixed-point rendering \<open>claims.display\<close>, \<open>portfolio._units\<close> and \<open>Deposit.display\<close> share.
  Decimal division rounds to 28 digits; formatting rounds half to even.
\<close>

section \<open>Fixed-point text\<close>

text \<open>Digits in groups of three from the right, as the format \<open>,\<close> does.\<close>

fun group3 :: "string \<Rightarrow> string" where
  "group3 (a # b # c # d # rest) =
     (if length rest mod 3 = 2 then a # b # c # CHR '','' # group3 (d # rest)
      else if length rest mod 3 = 0 then a # CHR '','' # group3 (b # c # d # rest)
      else a # b # CHR '','' # group3 (c # d # rest))"
| "group3 s = s"

definition scaled :: "nat \<Rightarrow> rat \<Rightarrow> int" where
  "scaled places q = round_half_even (q * 10 ^ places)"

definition fixed_text :: "bool \<Rightarrow> nat \<Rightarrow> rat \<Rightarrow> string" where
  "fixed_text commas places q =
     (let n = nat \<bar>scaled places q\<bar>;
          whole = show_base 10 (n div 10 ^ places);
          frac = rjust (show_base 10 (n mod 10 ^ places)) places CHR ''0''
      in (if q < 0 then ''-'' else []) @ (if commas then group3 whole else whole) @ ''.'' @ frac)"

definition strip_zeros :: "string \<Rightarrow> string" where
  "strip_zeros s = or_text (rstrip_chars ''.'' (rstrip_chars ''0'' s)) ''0''"

definition units_value :: "int \<Rightarrow> int \<Rightarrow> rat" where
  "units_value amount decimals = dec28 (of_int amount / 10 ^ nat decimals)"

definition units_display :: "int \<Rightarrow> int \<Rightarrow> string" where
  "units_display amount decimals = strip_zeros (fixed_text True 6 (units_value amount decimals))"

section \<open>The native balance\<close>

definition WEI_PER_ETH :: int where
  "WEI_PER_ETH = 10 ^ 18"

definition portfolio_rpc ::
  "settings \<Rightarrow> outside \<Rightarrow> string \<Rightarrow> json list \<Rightarrow> ('z world_scheme, json) io" where
  "portfolio_rpc c env m ps =
     try_except (rpc c env m ps CHAIN_ID)
       (\<lambda>e. if is_evm_error e then throw (PortfolioError (evm_message e)) else throw e)"

record native_view =
  nv_address :: string
  nv_wei :: int
  nv_eth :: rat

definition hex_text :: "json \<Rightarrow> exn + int" where
  "hex_text j = (case j of JStr s \<Rightarrow> or_raise ValueError (parse_int 16 s) | _ \<Rightarrow> Inl TypeError)"

definition native_balance ::
  "settings \<Rightarrow> outside \<Rightarrow> int \<Rightarrow> ('z wallet_state_scheme, native_view) io" where
  "native_balance c env tid =
     bind (wallet_address c env tid) (\<lambda>addr.
     bind (portfolio_rpc c env ''eth_getBalance'' [JStr addr, JStr ''latest'']) (\<lambda>result.
     bind (from_sum (hex_text result)) (\<lambda>wei.
       return \<lparr>nv_address = addr, nv_wei = wei, nv_eth = fdiv (to_float wei) (to_float WEI_PER_ETH)\<rparr>)))"

lemma safe_native: "safe (native_balance c env tid)"
  unfolding native_balance_def wallet_address_def portfolio_rpc_def
  by (intro wallets.obeys_rules safe_operations safe_framed framed_rules framed_rpc)

end
