(* ===== verification/Tokens.thy ===== *)
theory Tokens
  imports Portfolio "HOL-Library.List_Lexorder" "HOL-Library.Product_Lexorder"
begin

text \<open>
  The token registry, \<open>app/services/tokens.py\<close>, and the token balances of
  \<open>app/services/portfolio.py\<close>: reading decimals and symbols from contracts, the refresh from
  the published asset list, resolving what a user typed, and the holdings of a wallet. A
  Python text is held as its UTF-8 bytes; \<open>strip\<close>, \<open>lower\<close> and \<open>upper\<close> act on ASCII. The
  database's collation is an argument: it maps a text to its sort key.
\<close>

section \<open>State\<close>

record token_row =
  tk_symbol :: string
  tk_name :: string
  tk_decimals :: int
  tk_is_stock :: bool
  tk_source :: string
  tk_updated_at :: usec

record token_state = wallet_state +
  tg_token_registry :: "(string, token_row) table"
  tg_wallet_tokens :: "(int \<times> string) list"

definition ASSETS_URL :: string where
  "ASSETS_URL = ''https://api.robinhood.com/rhj/assets''"

definition SEL_DECIMALS :: string where "SEL_DECIMALS = ''0x313ce567''"
definition SEL_SYMBOL :: string where "SEL_SYMBOL = ''0x95d89b41''"
definition SEL_BALANCE_OF :: string where "SEL_BALANCE_OF = ''0x70a08231''"

definition BASE_ASSET_ADDRESSES :: "string list" where
  "BASE_ASSET_ADDRESSES =
     [''0x5fc5360d0400a0fd4f2af552add042d716f1d168'', ''0x0bd7d308f8e1639fab988df18a8011f41eacad73'',
      ''0x5d3a1ff2b6bab83b63cd9ad0787074081a52ef34'', ''0xd98e1e5a25702930b2fc92c15f3fef6d2987b5ac'',
      ''0x40858070814a57fdf33a613ae84fe0a8b4a874f7'', ''0xfed493f38c1aacb4ea4e6a11f8b9287849ee0096'',
      ''0xde770c84fe66e063336b31737cfe9790f18c4087'']"

section \<open>Bytes\<close>

text \<open>\<open>bytes.fromhex\<close>: pairs of hexadecimal digits, with white space between pairs.\<close>

definition is_hex_space :: "char \<Rightarrow> bool" where
  "is_hex_space c \<longleftrightarrow> code c \<in> {9, 10, 11, 12, 13, 32}"

fun from_hex :: "string \<Rightarrow> nat list option" where
  "from_hex [] = Some []"
| "from_hex (c # cs) =
     (if is_hex_space c then from_hex cs
      else (case cs of
          [] \<Rightarrow> None
        | d # ds \<Rightarrow>
            (case (digit_of 16 c, digit_of 16 d) of
               (Some a, Some b) \<Rightarrow> map_option (Cons (16 * a + b)) (from_hex ds)
             | _ \<Rightarrow> None)))"

definition from_bytes :: "nat list \<Rightarrow> nat" where
  "from_bytes bs = foldl (\<lambda>n b. 256 * n + b) 0 bs"

text \<open>
  \<open>decode("utf-8", "ignore")\<close> keeps the well-formed sequences: \<open>utf8_width\<close> is the length of
  the one at the front, 0 when there is none.
\<close>

definition cont_byte :: "nat \<Rightarrow> bool" where
  "cont_byte b \<longleftrightarrow> 0x80 \<le> b \<and> b \<le> 0xBF"

definition utf8_width :: "nat list \<Rightarrow> nat" where
  "utf8_width bs =
     (case bs of
        [] \<Rightarrow> 0
      | b0 # rest \<Rightarrow>
          if b0 < 0x80 then 1
          else (case rest of
              [] \<Rightarrow> 0
            | b1 # rest1 \<Rightarrow>
                if 0xC2 \<le> b0 \<and> b0 \<le> 0xDF then (if cont_byte b1 then 2 else 0)
                else (case rest1 of
                    [] \<Rightarrow> 0
                  | b2 # rest2 \<Rightarrow>
                      if 0xE0 \<le> b0 \<and> b0 \<le> 0xEF then
                        (if cont_byte b1 \<and> cont_byte b2 \<and> (b0 = 0xE0 \<longrightarrow> 0xA0 \<le> b1) \<and>
                            (b0 = 0xED \<longrightarrow> b1 \<le> 0x9F) then 3 else 0)
                      else (case rest2 of
                          [] \<Rightarrow> 0
                        | b3 # _ \<Rightarrow>
                            if 0xF0 \<le> b0 \<and> b0 \<le> 0xF4 \<and> cont_byte b1 \<and> cont_byte b2 \<and>
                               cont_byte b3 \<and> (b0 = 0xF0 \<longrightarrow> 0x90 \<le> b1) \<and> (b0 = 0xF4 \<longrightarrow> b1 \<le> 0x8F)
                            then 4 else 0))))"

function utf8_keep :: "nat list \<Rightarrow> nat list" where
  "utf8_keep bs =
     (if bs = [] then []
      else if utf8_width bs = 0 then utf8_keep (drop 1 bs)
      else take (utf8_width bs) bs @ utf8_keep (drop (utf8_width bs) bs))"
  by auto
termination by (relation "measure length") auto

declare utf8_keep.simps [simp del]

definition utf8_text :: "nat list \<Rightarrow> string" where
  "utf8_text bs = map char_of (utf8_keep bs)"

section \<open>Chain reads\<close>

definition tok_call :: "settings \<Rightarrow> outside \<Rightarrow> string \<Rightarrow> string \<Rightarrow> ('z world_scheme, json) io" where
  "tok_call c env to data =
     try_except
       (rpc c env ''eth_call'' [JObj [(''to'', JStr to), (''data'', JStr data)], JStr ''latest''] CHAIN_ID)
       (\<lambda>e. if is_evm_error e then return JNull else throw e)"

definition no_answer :: "json \<Rightarrow> bool" where
  "no_answer j \<longleftrightarrow> \<not> truthy j \<or> j = JStr ''0x''"

definition read_decimals :: "settings \<Rightarrow> outside \<Rightarrow> string \<Rightarrow> ('z world_scheme, int option) io" where
  "read_decimals c env address =
     bind (tok_call c env address SEL_DECIMALS) (\<lambda>res.
       if no_answer res then return None
       else (case hex_text res of
           Inr n \<Rightarrow> return (Some n)
         | Inl e \<Rightarrow> if e = ValueError then return None else throw e))"

definition nonempty :: "string \<Rightarrow> string option" where
  "nonempty s = (if s = [] then None else Some s)"

definition decode_symbol :: "json \<Rightarrow> exn + string option" where
  "decode_symbol res =
     (if no_answer res then Inr None
      else (case res of
          JStr s \<Rightarrow>
            then_sum (or_raise ValueError (from_hex (drop 2 s))) (\<lambda>raw.
              Inr (if length raw = 32 then
                     nonempty (strip (utf8_text (rev (dropWhile (\<lambda>b. b = 0) (rev raw)))))
                   else if length raw \<ge> 64 then
                     nonempty (strip (utf8_text
                       (take (from_bytes (take 32 (drop 32 raw))) (drop 64 raw))))
                   else None))
        | _ \<Rightarrow> Inl TypeError))"

definition read_symbol :: "settings \<Rightarrow> outside \<Rightarrow> string \<Rightarrow> ('z world_scheme, string option) io" where
  "read_symbol c env address =
     bind (tok_call c env address SEL_SYMBOL) (\<lambda>res. from_sum (decode_symbol res))"

definition balance_data :: "string \<Rightarrow> string" where
  "balance_data holder = SEL_BALANCE_OF @ rjust (removeprefix (lower holder) ''0x'') 64 CHR ''0''"

definition token_balance :: "settings \<Rightarrow> outside \<Rightarrow> string \<Rightarrow> string \<Rightarrow> ('z world_scheme, int) io" where
  "token_balance c env token holder =
     bind (tok_call c env token (balance_data holder)) (\<lambda>res.
       if no_answer res then return 0 else from_sum (hex_text res))"

fun chunks :: "nat \<Rightarrow> 'a list \<Rightarrow> 'a list list" where
  "chunks n xs = (if n = 0 \<or> xs = [] then [] else take n xs # chunks n (drop n xs))"

declare chunks.simps [simp del]

definition eth_call_to :: "json \<Rightarrow> string \<Rightarrow> string \<times> json list" where
  "eth_call_to to data =
     (''eth_call'', [JObj [(''to'', to), (''data'', JStr data)], JStr ''latest''])"

definition decimals_of :: "json \<Rightarrow> int option" where
  "decimals_of res =
     (if no_answer res then None else case hex_text res of Inl _ \<Rightarrow> None | Inr n \<Rightarrow> Some n)"

definition batch_decimals ::
  "settings \<Rightarrow> outside \<Rightarrow> json list \<Rightarrow> ('z world_scheme, int option list) io" where
  "batch_decimals c env addresses =
     bind (for_each (\<lambda>part.
         bind (rpc_batch c env (map (\<lambda>a. eth_call_to a SEL_DECIMALS) part) CHAIN_ID) (\<lambda>results.
         bind (sleep (seconds 1 div 4)) (\<lambda>_. return (map decimals_of results))))
       (chunks 20 addresses)) (\<lambda>parts. return (concat parts))"

definition batch_symbols ::
  "settings \<Rightarrow> outside \<Rightarrow> json list \<Rightarrow> ('z world_scheme, string option list) io" where
  "batch_symbols c env addresses =
     bind (for_each (\<lambda>part.
         bind (rpc_batch c env (map (\<lambda>a. eth_call_to a SEL_SYMBOL) part) CHAIN_ID) (\<lambda>results.
         bind (from_sum (collect decode_symbol results)) (\<lambda>symbols.
         bind (sleep (seconds 1 div 4)) (\<lambda>_. return symbols))))
       (chunks 20 addresses)) (\<lambda>parts. return (concat parts))"

section \<open>The registry\<close>

text \<open>\<open>int32\<close>: what a column of type INT takes.\<close>

definition is_int32 :: "int \<Rightarrow> bool" where
  "is_int32 n \<longleftrightarrow> - (2 ^ 31) \<le> n \<and> n < 2 ^ 31"

record candidate =
  ca_address :: json
  ca_symbol :: string
  ca_name :: string
  ca_is_stock :: bool

text \<open>The contract of the first deployment on this chain.\<close>

fun contract_on_chain :: "json list \<Rightarrow> exn + json" where
  "contract_on_chain [] = Inr JNull"
| "contract_on_chain (d # ds) =
     then_sum (field ''chainId'' d) (\<lambda>ch.
       if equals_int ch ROBINHOOD then field ''contractAddress'' d else contract_on_chain ds)"

definition get_or :: "string \<Rightarrow> json \<Rightarrow> json \<Rightarrow> exn + json" where
  "get_or k dflt j = (if has_key k j then field k j else then_sum (field k j) (\<lambda>_. Inr dflt))"

definition stock_candidate :: "json \<Rightarrow> exn + candidate option" where
  "stock_candidate a =
     then_sum (field ''status'' a) (\<lambda>status.
       if status \<noteq> JStr ''ASSET_STATUS_ACTIVE'' then Inr None
       else
         then_sum (get_or ''deployments'' (JArr []) a) (\<lambda>ds.
         then_sum (iterate ds) (\<lambda>deployments.
         then_sum (contract_on_chain deployments) (\<lambda>addr.
         then_sum (field ''tokenSymbol'' a) (\<lambda>sym.
         then_sum (text_method sym) (\<lambda>symbol.
           if truthy addr \<and> strip symbol \<noteq> [] then
             then_sum (field ''tokenName'' a) (\<lambda>nm.
             then_sum (text_method nm) (\<lambda>name.
               Inr (Some \<lparr>ca_address = addr, ca_symbol = strip symbol, ca_name = strip name,
                          ca_is_stock = True\<rparr>)))
           else Inr None))))))"

definition base_candidates :: "string option list \<Rightarrow> candidate list" where
  "base_candidates syms =
     concat (map (\<lambda>(addr, sym).
       case sym of
         None \<Rightarrow> []
       | Some s \<Rightarrow> [\<lparr>ca_address = JStr addr, ca_symbol = s, ca_name = s, ca_is_stock = False\<rparr>])
       (zip BASE_ASSET_ADDRESSES syms))"

definition fetch_assets :: "outside \<Rightarrow> ('z world_scheme, json) io" where
  "fetch_assets env =
     bind (http_call env ''GET'' ASSETS_URL JNull) (\<lambda>o1.
       case o1 of
         Transport_Error cls msg \<Rightarrow> throw (TokenError (''stock-token registry unreachable: '' @ msg))
       | Reply status body \<Rightarrow>
           if status < 200 \<or> 299 < status then
             throw (TokenError (''stock-token registry unreachable: '' @ error_text env o1))
           else (case body of
               None \<Rightarrow> throw (TokenError (''stock-token registry unreachable: '' @ error_text env o1))
             | Some j \<Rightarrow> from_sum (get_or ''assets'' (JArr []) j)))"

definition keep_known :: "candidate list \<Rightarrow> int option list \<Rightarrow> (candidate \<times> int) list" where
  "keep_known cs ds =
     concat (map (\<lambda>(x, d). case d of None \<Rightarrow> [] | Some n \<Rightarrow> [(x, n)]) (zip cs ds))"

text \<open>One row of the transaction: a conflict keeps the row's source.\<close>

definition upsert_token ::
  "usec \<Rightarrow> candidate \<times> int \<Rightarrow> (string, token_row) table \<Rightarrow> exn + (string, token_row) table" where
  "upsert_token now xd t =
     (case xd of (x, d) \<Rightarrow>
        case ca_address x of
          JStr addr \<Rightarrow>
            if \<not> is_int32 d then Inl DataError
            else Inr (put_row addr
                   \<lparr>tk_symbol = ca_symbol x, tk_name = ca_name x, tk_decimals = d,
                    tk_is_stock = ca_is_stock x,
                    tk_source = (case row_of t addr of None \<Rightarrow> ''robinhood'' | Some r \<Rightarrow> tk_source r),
                    tk_updated_at = now\<rparr> t)
        | _ \<Rightarrow> Inl DataError)"

primrec upsert_all ::
  "usec \<Rightarrow> (candidate \<times> int) list \<Rightarrow> (string, token_row) table \<Rightarrow> exn + (string, token_row) table" where
  "upsert_all now [] t = Inr t"
| "upsert_all now (xd # xds) t = then_sum (upsert_token now xd t) (upsert_all now xds)"

text \<open>The rows are written in one transaction: an error leaves the registry as it was.\<close>

definition write_registry ::
  "outside \<Rightarrow> (candidate \<times> int) list \<Rightarrow> ('z token_state_scheme, unit) io" where
  "write_registry env rows w =
     (case upsert_all (utc_now env w) rows (tg_token_registry w) of
        Inl e \<Rightarrow> (w, Inl e)
      | Inr t \<Rightarrow> (w\<lparr>tg_token_registry := t\<rparr>, Inr ()))"

record sync_counts =
  sc_stocks :: nat
  sc_base :: nat
  sc_total :: nat

definition sync_registry :: "settings \<Rightarrow> outside \<Rightarrow> ('z token_state_scheme, sync_counts) io" where
  "sync_registry c env =
     bind (fetch_assets env) (\<lambda>assets.
     bind (from_sum (then_sum (iterate assets) (collect stock_candidate))) (\<lambda>stocks.
     bind (batch_symbols c env (map JStr BASE_ASSET_ADDRESSES)) (\<lambda>base_syms.
     let candidates = List.map_filter id stocks @ base_candidates base_syms in
     bind (batch_decimals c env (map ca_address candidates)) (\<lambda>decimals_list.
     let rows = keep_known candidates decimals_list in
       if rows = [] then throw (TokenError ''registry sync produced no tokens'')
       else bind (write_registry env rows) (\<lambda>_.
         return \<lparr>sc_stocks = length (filter (\<lambda>(x, _). ca_is_stock x) rows),
                 sc_base = length (filter (\<lambda>(x, _). \<not> ca_is_stock x) rows),
                 sc_total = length rows\<rparr>)))))"

definition registry_size :: "'z token_state_scheme \<Rightarrow> nat" where
  "registry_size w = length (tg_token_registry w)"

section \<open>Resolution\<close>

text \<open>SQL's \<open>text LIKE pattern\<close>; a backslash quotes the next character.\<close>

fun like :: "string \<Rightarrow> string \<Rightarrow> bool" where
  "like [] t \<longleftrightarrow> t = []"
| "like (p # ps) t \<longleftrightarrow>
     (if p = CHR ''%'' then
        (if like ps t then True else case t of [] \<Rightarrow> False | _ # cs \<Rightarrow> like (p # ps) cs)
      else if p = CHR 0x5C then
        (case (ps, t) of (q # qs, c # cs) \<Rightarrow> q = c \<and> like qs cs | _ \<Rightarrow> False)
      else (case t of [] \<Rightarrow> False | c # cs \<Rightarrow> (p = CHR ''_'' \<or> p = c) \<and> like ps cs))"

record token_view =
  tv_address :: string
  tv_symbol :: string
  tv_name :: string
  tv_decimals :: int
  tv_is_stock :: bool

definition view_row :: "string \<times> token_row \<Rightarrow> token_view" where
  "view_row kr =
     (case kr of (addr, r) \<Rightarrow> \<lparr>tv_address = addr, tv_symbol = tk_symbol r, tv_name = tk_name r,
        tv_decimals = tk_decimals r, tv_is_stock = tk_is_stock r\<rparr>)"

definition symbol_rank :: "string \<Rightarrow> string \<Rightarrow> nat" where
  "symbol_rank q s =
     (if upper s = upper q then 0 else if like (upper q @ ''%'') (upper s) then 1 else 2)"

definition search_matches :: "string \<Rightarrow> token_view \<Rightarrow> bool" where
  "search_matches q v \<longleftrightarrow>
     upper (tv_symbol v) = upper q \<or> like (upper q @ ''%'') (upper (tv_symbol v)) \<or>
     like (''%'' @ lower q @ ''%'') (lower (tv_name v))"

definition search_rows ::
  "(string \<Rightarrow> nat list) \<Rightarrow> string \<Rightarrow> (string, token_row) table \<Rightarrow> token_view list" where
  "search_rows collation q t =
     take 8 (sort_key (\<lambda>v. (symbol_rank q (tv_symbol v), \<not> tv_is_stock v, collation (tv_symbol v)))
       (filter (search_matches q) (map view_row t)))"

definition read_token ::
  "settings \<Rightarrow> outside \<Rightarrow> string \<Rightarrow> ('z world_scheme, token_view list) io" where
  "read_token c env q =
     bind (read_symbol c env q) (\<lambda>symbol.
     bind (read_decimals c env q) (\<lambda>decimals.
       return (case decimals of
           None \<Rightarrow> []
         | Some d \<Rightarrow> [\<lparr>tv_address = q, tv_symbol = or_text_opt symbol (take 8 q),
             tv_name = or_text_opt symbol [], tv_decimals = d, tv_is_stock = False\<rparr>])))"

definition resolve ::
  "settings \<Rightarrow> outside \<Rightarrow> (string \<Rightarrow> nat list) \<Rightarrow> string \<Rightarrow> ('z token_state_scheme, token_view list) io" where
  "resolve c env collation query =
     (let q = lstrip_chars ''$'' (strip query)
      in if q = [] then return []
         else if startswith q ''0x'' \<and> length q = 42 then
           bind (gets (\<lambda>w. find (\<lambda>(addr, _). lower addr = lower q) (tg_token_registry w))) (\<lambda>row.
             case row of
               Some kr \<Rightarrow> return [view_row kr]
             | None \<Rightarrow> read_token c env q)
         else gets (\<lambda>w. search_rows collation q (tg_token_registry w)))"

section \<open>Holdings\<close>

definition BALANCE_CHUNK :: nat where "BALANCE_CHUNK = 40"

definition BASE_ASSETS :: "string list" where
  "BASE_ASSETS =
     [''0x5fc5360d0400a0fd4f2af552add042d716f1d168'', ''0x5d3a1ff2b6bab83b63cd9ad0787074081a52ef34'',
      ''0x0bd7d308f8e1639fab988df18a8011f41eacad73'', ''0xd98e1e5a25702930b2fc92c15f3fef6d2987b5ac'']"

record holding =
  ho_token :: token_view
  ho_amount :: int
  ho_display :: string

definition checked_tokens :: "int option \<Rightarrow> 'z token_state_scheme \<Rightarrow> token_view list" where
  "checked_tokens tid w =
     map view_row (filter (\<lambda>(addr, _). lower addr \<in> set (map lower BASE_ASSETS) \<or>
         (case tid of None \<Rightarrow> False | Some i \<Rightarrow> (i, lower addr) \<in> set (tg_wallet_tokens w)))
       (tg_token_registry w))"

definition holding_of :: "token_view \<times> json \<Rightarrow> exn + holding option" where
  "holding_of vr =
     (case vr of (v, raw) \<Rightarrow>
        if raw = JNull \<or> raw = JStr ''0x'' then Inr None
        else then_sum (to_int raw 0) (\<lambda>amount.
          Inr (if amount \<le> 0 then None
               else Some \<lparr>ho_token = v, ho_amount = amount,
                          ho_display = units_display amount (tv_decimals v)\<rparr>)))"

definition chunk_holdings ::
  "settings \<Rightarrow> outside \<Rightarrow> string \<Rightarrow> token_view list \<Rightarrow> ('z world_scheme, holding option list) io" where
  "chunk_holdings c env data part =
     bind (try_except
             (bind (rpc_batch c env (map (\<lambda>v. eth_call_to (JStr (tv_address v)) data) part) CHAIN_ID)
                (\<lambda>results. return (Some results)))
             (\<lambda>e. if is_evm_error e then return None else throw e)) (\<lambda>answered.
       case answered of
         None \<Rightarrow> return []
       | Some results \<Rightarrow> from_sum (collect holding_of (zip part results)))"

text \<open>Holdings are sorted by symbol as Python compares texts, stocks first.\<close>

definition token_holdings ::
  "settings \<Rightarrow> outside \<Rightarrow> string \<Rightarrow> int option \<Rightarrow> ('z token_state_scheme, holding list) io" where
  "token_holdings c env wallet tid =
     bind (gets (checked_tokens tid)) (\<lambda>rows.
       if rows = [] then return []
       else bind (for_each (chunk_holdings c env (balance_data wallet)) (chunks BALANCE_CHUNK rows))
         (\<lambda>parts. return (sort_key
            (\<lambda>h. (\<not> tv_is_stock (ho_token h), map code (tv_symbol (ho_token h))))
            (List.map_filter id (concat parts)))))"


section \<open>The encoding of symbols\<close>

text \<open>What a contract answers for a text: three parts of 32-byte words, the last one padded.\<close>

primrec big_endian :: "nat \<Rightarrow> nat \<Rightarrow> nat list" where
  "big_endian 0 n = []"
| "big_endian (Suc k) n = big_endian k (n div 256) @ [n mod 256]"

definition hex_of_bytes :: "nat list \<Rightarrow> string" where
  "hex_of_bytes bs = concat (map (\<lambda>b. [digit_char (b div 16), digit_char (b mod 16)]) bs)"

definition abi_text :: "string \<Rightarrow> nat \<Rightarrow> string" where
  "abi_text s k = ''0x'' @ hex_of_bytes
     (big_endian 32 32 @ big_endian 32 (length s) @ map code s @ replicate k 0)"

definition abi_bytes32 :: "string \<Rightarrow> string" where
  "abi_bytes32 s = ''0x'' @ hex_of_bytes (map code s @ replicate (32 - length s) 0)"

lemma length_big_endian [simp]: "length (big_endian k n) = k"
  by (induction k arbitrary: n) simp_all

lemma big_endian_byte: "b \<in> set (big_endian k n) \<Longrightarrow> b < 256"
  by (induction k arbitrary: n) auto

lemma from_bytes_snoc: "from_bytes (bs @ [b]) = 256 * from_bytes bs + b"
  by (simp add: from_bytes_def)

lemma from_bytes_big_endian: "from_bytes (big_endian k n) = n mod 256 ^ k"
proof (induction k arbitrary: n)
  case 0
  then show ?case by (simp add: from_bytes_def)
next
  case (Suc k)
  then show ?case by (simp add: from_bytes_snoc mod_mult2_eq [of n 256 "256 ^ k"])
qed

lemma hex_digit_not_space: "d < 16 \<Longrightarrow> \<not> is_hex_space (digit_char d)"
  using code_digit_char [of d] by (auto simp: is_hex_space_def)

lemma from_hex_bytes:
  "(\<And>b. b \<in> set bs \<Longrightarrow> b < 256) \<Longrightarrow> from_hex (hex_of_bytes bs) = Some bs"
proof (induction bs)
  case Nil
  then show ?case by (simp add: hex_of_bytes_def)
next
  case (Cons b bs)
  have b: "b div 16 < 16" "b mod 16 < 16" using Cons.prems [of b] by auto
  have "hex_of_bytes (b # bs) = digit_char (b div 16) # digit_char (b mod 16) # hex_of_bytes bs"
    by (simp add: hex_of_bytes_def)
  then show ?case
    using Cons b by (simp add: hex_digit_not_space digit_of_digit_char)
qed

lemma utf8_ascii: "(\<And>b. b \<in> set bs \<Longrightarrow> b < 128) \<Longrightarrow> utf8_keep bs = bs"
proof (induction bs)
  case Nil
  then show ?case by (simp add: utf8_keep.simps)
next
  case (Cons b bs)
  then have "utf8_width (b # bs) = 1" by (simp add: utf8_width_def)
  with Cons show ?case by (subst utf8_keep.simps) simp
qed

lemma utf8_text_ascii: "(\<And>c. c \<in> set s \<Longrightarrow> code c < 128) \<Longrightarrow> utf8_text (map code s) = s"
proof -
  assume "\<And>c. c \<in> set s \<Longrightarrow> code c < 128"
  then have "utf8_keep (map code s) = map code s" by (intro utf8_ascii) auto
  then show ?thesis by (simp add: utf8_text_def map_idI)
qed

lemma no_answer_long: "length s > 2 \<Longrightarrow> \<not> no_answer (JStr s)"
  by (auto simp: no_answer_def)

lemma code_less_256: "code (c :: char) < 256"
  by simp

text \<open>Reading a token's symbol undoes the encodings contracts answer with: for every ASCII
  text without white space at its ends, the dynamic encoding (whatever its padding) is read
  back as that text, and so is the legacy one-word encoding of at most 32 characters.\<close>

theorem symbol_roundtrip:
  assumes "s \<noteq> []" and "\<And>c. c \<in> set s \<Longrightarrow> 0 < code c \<and> code c < 128" and "strip s = s"
    and "length s < 2 ^ 256"
  shows "decode_symbol (JStr (abi_text s k)) = Inr (Some s) \<and>
    (length s \<le> 32 \<longrightarrow> decode_symbol (JStr (abi_bytes32 s)) = Inr (Some s))"
proof
  let ?raw = "big_endian 32 32 @ big_endian 32 (length s) @ map code s @ replicate k 0"
  have bytes: "b < 256" if "b \<in> set ?raw" for b
    using that big_endian_byte code_less_256 by (auto split: if_splits)
  have raw: "from_hex (drop 2 (abi_text s k)) = Some ?raw"
    using from_hex_bytes [of ?raw] bytes by (simp add: abi_text_def)
  have len: "from_bytes (take 32 (drop 32 ?raw)) = length s"
    using assms(4) by (simp add: from_bytes_big_endian)
  have sym: "utf8_text (take (length s) (drop 64 ?raw)) = s"
    using utf8_text_ascii [of s] assms(2) by simp
  have "length ?raw \<ge> 64" by simp
  moreover have "length ?raw \<noteq> 32" by simp
  moreover have "\<not> no_answer (JStr (abi_text s k))"
    using assms(1) by (intro no_answer_long) (simp add: abi_text_def hex_of_bytes_def)
  ultimately show "decode_symbol (JStr (abi_text s k)) = Inr (Some s)"
    using raw len sym assms(1,3) by (simp add: decode_symbol_def nonempty_def del: append_assoc)
next
  show "length s \<le> 32 \<longrightarrow> decode_symbol (JStr (abi_bytes32 s)) = Inr (Some s)"
  proof
    assume short: "length s \<le> 32"
    let ?raw = "map code s @ replicate (32 - length s) (0 :: nat)"
    have bytes: "b < 256" if "b \<in> set ?raw" for b
      using that code_less_256 by (auto split: if_splits)
    have raw: "from_hex (drop 2 (abi_bytes32 s)) = Some ?raw"
      using from_hex_bytes [of ?raw] bytes by (simp add: abi_bytes32_def)
    have ends: "dropWhile (\<lambda>b. b = 0) (rev (map code s)) = rev (map code s)"
      using assms(1) assms(2) [of "last s"] by (simp add: dropWhile_eq_self_iff hd_rev last_map)
    have "dropWhile (\<lambda>b. b = 0) (rev ?raw) = rev (map code s)"
      using ends by (simp add: dropWhile_append)
    then have "rev (dropWhile (\<lambda>b. b = 0) (rev ?raw)) = map code s" by simp
    moreover have "length ?raw = 32" using short by simp
    moreover have "\<not> no_answer (JStr (abi_bytes32 s))"
      using assms(1) by (intro no_answer_long) (cases s, simp_all add: abi_bytes32_def hex_of_bytes_def)
    ultimately show "decode_symbol (JStr (abi_bytes32 s)) = Inr (Some s)"
      using raw utf8_text_ascii [of s] assms(1-3) by (simp add: decode_symbol_def nonempty_def)
  qed
qed


theorem symbol_roundtrip_witness:
  "decode_symbol (JStr (abi_text ''US DG'' 3)) = Inr (Some ''US DG'') \<and>
   decode_symbol (JStr (abi_bytes32 ''US DG'')) = Inr (Some ''US DG'')"
proof -
  have s: "strip ''US DG'' = ''US DG''" by code_simp
  have c: "0 < code c \<and> code c < 128" if "c \<in> set ''US DG''" for c
    using that by auto
  show ?thesis using symbol_roundtrip [OF _ c s, of 3] by simp
qed

section \<open>Searching by name\<close>

lemma sort_head_least:
  assumes "x \<in> set xs"
  shows "\<exists>y ys. sort_key f xs = y # ys \<and> f y \<le> f x \<and> y \<in> set xs"
proof -
  have x: "x \<in> set (sort_key f xs)" using assms by simp
  then obtain y ys where s: "sort_key f xs = y # ys" by (cases "sort_key f xs") auto
  have "sorted (map f (sort_key f xs))" by simp
  then have "f y \<le> f x" using x by (auto simp: s)
  moreover have "y \<in> set xs" using s by (metis list.set_intros(1) set_sort)
  ultimately show ?thesis using s by blast
qed

lemma rank_0: "symbol_rank q s = 0 \<longleftrightarrow> upper s = upper q"
  by (simp add: symbol_rank_def)

text \<open>Searching the registry by name puts an exact symbol first whenever there is one, in
  any case of letters; every token answered is one of the registry, unchanged, that matches;
  at most eight are answered, and nothing is read from the chain or changed.\<close>

theorem resolve_exact_first:
  assumes "q = lstrip_chars ''$'' (strip query)" "q \<noteq> []"
    and "\<not> (startswith q ''0x'' \<and> length q = 42)"
    and "(addr, r) \<in> set (tg_token_registry w)" "upper (tk_symbol r) = upper q"
  shows "\<exists>v vs. resolve c env collation query w = (w, Inr (v # vs)) \<and>
    upper (tv_symbol v) = upper q \<and> length (v # vs) \<le> 8 \<and>
    (\<forall>u\<in>set (v # vs). search_matches q u \<and> u \<in> view_row ` set (tg_token_registry w))"
proof -
  let ?k = "\<lambda>v. (symbol_rank q (tv_symbol v), \<not> tv_is_stock v, collation (tv_symbol v))"
  let ?xs = "filter (search_matches q) (map view_row (tg_token_registry w))"
  have x: "view_row (addr, r) \<in> set ?xs"
    using assms(4,5) by (auto simp: search_matches_def view_row_def)
  obtain y ys where y: "sort_key ?k ?xs = y # ys" "?k y \<le> ?k (view_row (addr, r))" "y \<in> set ?xs"
    using sort_head_least [OF x, of ?k] by blast
  have "symbol_rank q (tv_symbol (view_row (addr, r))) = 0"
    using assms(5) by (simp add: rank_0 view_row_def)
  then have "symbol_rank q (tv_symbol y) = 0" using y(2) by (auto simp: less_eq_prod_def)
  then have first: "upper (tv_symbol y) = upper q" by (simp add: rank_0)
  have rows: "set (y # take 7 ys) \<subseteq> set ?xs"
  proof -
    have "set (sort_key ?k ?xs) = set ?xs" by (rule set_sort)
    then have "insert y (set ys) = set ?xs" by (simp only: y(1) list.set)
    then show ?thesis using set_take_subset [of 7 ys] by (simp del: set_filter set_map) blast
  qed
  have eight: "take 8 (y # ys) = y # take 7 ys" by (simp add: take_Cons')
  have "resolve c env collation query w = (w, Inr (y # take 7 ys))"
    unfolding resolve_def assms(1) [symmetric] Let_def search_rows_def
    using assms(2,3) by (auto simp: io_simps y(1) eight)
  moreover have "length (y # take 7 ys) \<le> 8" by simp
  moreover have "search_matches q u \<and> u \<in> view_row ` set (tg_token_registry w)"
    if "u \<in> set (y # take 7 ys)" for u
    using subsetD [OF rows that] by simp
  ultimately show ?thesis using first by blast
qed


definition two_tokens :: token_state where
  "two_tokens = \<lparr>looks = 0, slept = 0, on_fallback = False, primary_stale = False, lag_checked_at = 0,
     tg_wallets = [], next_wallet_id = 1,
     tg_token_registry =
       [(''0x1'', \<lparr>tk_symbol = ''NVDAX'', tk_name = ''Copy'', tk_decimals = 18, tk_is_stock = False,
          tk_source = ''seen'', tk_updated_at = 0\<rparr>),
        (''0x2'', \<lparr>tk_symbol = ''NVDA'', tk_name = ''Nvidia'', tk_decimals = 18, tk_is_stock = True,
          tk_source = ''robinhood'', tk_updated_at = 0\<rparr>)],
     tg_wallet_tokens = []\<rparr>"

theorem resolve_exact_first_witness:
  "\<exists>v vs. resolve default_settings outage (map code) ''$nvda'' two_tokens = (two_tokens, Inr (v # vs)) \<and>
     upper (tv_symbol v) = ''NVDA''"
proof -
  have q: "lstrip_chars ''$'' (strip ''$nvda'') = ''nvda''" "upper ''nvda'' = ''NVDA''"
    "\<not> (startswith ''nvda'' ''0x'' \<and> length ''nvda'' = 42)" "upper ''NVDA'' = ''NVDA''"
    by code_simp+
  have "(''0x2'', snd (last (tg_token_registry two_tokens))) \<in> set (tg_token_registry two_tokens)"
    and "upper (tk_symbol (snd (last (tg_token_registry two_tokens)))) = upper ''nvda''"
    by (simp_all add: two_tokens_def q)
  from resolve_exact_first [OF q(1) [symmetric] _ q(3) this] show ?thesis
    unfolding q(2) by blast
qed

end
