(* ===== verification/Deposits.thy ===== *)
theory Deposits
  imports Tokens
begin

text \<open>
  The deposit watcher, \<open>app/services/deposits.py\<close>: balance differences for the native coin, and
  \<open>Transfer\<close> logs for tokens. The tables are those the statements name; \<open>tg_balance_watch\<close> has
  the column \<open>block\<close> that the code reads and writes. A Python set of addresses is a list
  without duplicates here.
\<close>

section \<open>State\<close>

record deposit =
  dp_telegram_id :: int
  dp_amount :: int
  dp_decimals :: int
  dp_symbol :: string
  dp_tx_hash :: "string option"

record watch_row =
  wt_telegram_id :: int
  wt_wei :: int
  wt_block :: int

type_synonym log_key = "string \<times> int"

record deposit_state = token_state +
  tg_balance_watch :: "(string, watch_row) table"
  tg_deposit_cursor :: "int option"
  tg_deposit_seen :: "(log_key, int) table"

definition TRANSFER_TOPIC :: string where
  "TRANSFER_TOPIC = ''0xddf252ad1be2c89b69c2b068fc378daa952ba7f163c4a11628f55a4df523b3ef''"

definition FIRST_RUN_LOOKBACK_BLOCKS :: int where "FIRST_RUN_LOOKBACK_BLOCKS = 200"
definition MAX_BLOCKS_PER_CYCLE :: int where "MAX_BLOCKS_PER_CYCLE = 2000"
definition MAX_LOGS_PER_CYCLE :: nat where "MAX_LOGS_PER_CYCLE = 200"

text \<open>
  The format \<open>f\<close> of the quotient of two decimals: a whole number has no decimal point when the
  division is exact, or when its 28 digits reach no fraction; otherwise the fraction is written
  out, and it has at most \<open>decimals\<close> places.
\<close>

definition plain_text :: "int \<Rightarrow> int \<Rightarrow> string" where
  "plain_text amount decimals =
     (let v = units_value amount decimals
      in if v = of_int \<lfloor>v\<rfloor> \<and> (v = of_int amount / 10 ^ nat decimals \<or> 10 ^ 27 \<le> v)
         then show_int \<lfloor>v\<rfloor> else fixed_text False (nat decimals) v)"

definition deposit_display :: "deposit \<Rightarrow> string" where
  "deposit_display d = strip_zeros (plain_text (dp_amount d) (dp_decimals d)) @ '' '' @ dp_symbol d"

definition pad_address :: "string \<Rightarrow> string" where
  "pad_address addr = ''0x'' @ rjust (removeprefix (lower addr) ''0x'') 64 CHR ''0''"

definition watched_wallets :: "'z deposit_state_scheme \<Rightarrow> (int \<times> string) list" where
  "watched_wallets w =
     map (\<lambda>(_, r). (wr_telegram_id r, wr_address r))
       (rows_where (\<lambda>_ r. wr_archived_at r = None) (tg_wallets w))"

section \<open>Native coin\<close>

text \<open>One reading against what was known when the cycle began: the announcement and the row to
  write. \<open>head\<close> is the height the readings count as.\<close>

definition known_row :: "(string, watch_row) table \<Rightarrow> string \<Rightarrow> watch_row option" where
  "known_row t address = map_of (rev (map (\<lambda>(a, r). (lower a, r)) t)) (lower address)"

type_synonym watch_update = "string \<times> int \<times> int \<times> int"

definition native_reading ::
  "int \<Rightarrow> (string, watch_row) table \<Rightarrow> (int \<times> string) \<times> json
    \<Rightarrow> exn + deposit option \<times> watch_update option" where
  "native_reading head_block t x =
     (case x of ((tid, address), raw) \<Rightarrow>
        if raw = JNull then Inr (None, None)
        else then_sum (to_int raw 0) (\<lambda>now.
          let upd = Some (lower address, tid, now, head_block) in
          Inr (case known_row t address of
                 None \<Rightarrow> if head_block < 0 then (None, None) else (None, upd)
               | Some r \<Rightarrow>
                   if head_block < wt_block r then (None, None)
                   else (if now > wt_wei r
                         then Some \<lparr>dp_telegram_id = tid, dp_amount = now - wt_wei r,
                                    dp_decimals = 18, dp_symbol = ''ETH'', dp_tx_hash = None\<rparr>
                         else None,
                         if now \<noteq> wt_wei r then upd else None))))"

definition upsert_watch :: "watch_update \<Rightarrow> (string, watch_row) table \<Rightarrow> (string, watch_row) table" where
  "upsert_watch u t =
     (case u of (address, tid, wei, block) \<Rightarrow>
        case row_of t address of
          None \<Rightarrow> put_row address \<lparr>wt_telegram_id = tid, wt_wei = wei, wt_block = block\<rparr> t
        | Some r \<Rightarrow>
            if wt_block r \<le> block then put_row address (r\<lparr>wt_wei := wei, wt_block := block\<rparr>) t
            else t)"

definition native_cycle ::
  "int \<Rightarrow> (int \<times> string) list \<Rightarrow> json list \<Rightarrow> (string, watch_row) table
    \<Rightarrow> exn + deposit list \<times> (string, watch_row) table" where
  "native_cycle head_block ws balances t =
     then_sum (collect (native_reading head_block t) (zip ws balances)) (\<lambda>rs.
       Inr (List.map_filter fst rs, fold upsert_watch (List.map_filter snd rs) t))"

definition update_watch ::
  "int \<Rightarrow> (int \<times> string) list \<Rightarrow> json list \<Rightarrow> ('z deposit_state_scheme, deposit list) io" where
  "update_watch head_block ws balances w =
     (case native_cycle head_block ws balances (tg_balance_watch w) of
        Inl e \<Rightarrow> (w, Inl e)
      | Inr (ds, t) \<Rightarrow> (w\<lparr>tg_balance_watch := t\<rparr>, Inr ds))"

definition check_native :: "settings \<Rightarrow> outside \<Rightarrow> ('z deposit_state_scheme, deposit list) io" where
  "check_native c env =
     bind (gets watched_wallets) (\<lambda>ws.
       if ws = [] then return []
       else
         bind (try_except
                 (bind (rpc c env ''eth_blockNumber'' [] CHAIN_ID)
                    (\<lambda>r. bind (from_sum (to_int r 0)) (\<lambda>n. return (Some n))))
                 (\<lambda>e. if is_evm_error e then return None else throw e)) (\<lambda>head_block.
           case head_block of
             None \<Rightarrow> return []
           | Some h \<Rightarrow>
               bind (rpc_batch c env
                       (map (\<lambda>(_, a). (''eth_getBalance'', [JStr a, JStr ''latest''])) ws) CHAIN_ID)
                 (\<lambda>balances. update_watch h ws balances)))"

section \<open>Fetching logs\<close>

definition is_too_many_logs :: "string \<Rightarrow> bool" where
  "is_too_many_logs message =
     list_ex (contains (lower message)) [''exceed'', ''limit'', ''too many'', ''more than'', ''response size'']"

text \<open>
  The window is halved while the node refuses it; \<open>lo\<close> never moves. A window of \<open>n\<close> blocks
  is halved fewer than \<open>n\<close> times, so \<open>n\<close> is enough fuel.
\<close>

primrec narrowing ::
  "nat \<Rightarrow> settings \<Rightarrow> outside \<Rightarrow> int \<Rightarrow> json \<Rightarrow> int \<Rightarrow> ('z world_scheme, json \<times> int) io" where
  "narrowing 0 c env lo topics hi = throw Out_Of_Fuel"
| "narrowing (Suc k) c env lo topics hi =
     bind (try_except
             (bind (rpc c env ''eth_getLogs''
                      [JObj [(''fromBlock'', JStr (hex lo)), (''toBlock'', JStr (hex hi)),
                             (''topics'', topics)]] CHAIN_ID)
                (\<lambda>logs. return (Inr (j_or logs (JArr []), hi))))
             (\<lambda>e. if \<not> is_evm_error e \<or> \<not> is_too_many_logs (evm_message e) then throw e
                  else if hi \<le> lo then return (Inr (JArr [], lo))
                  else return (Inl (lo + (hi - lo) div 2)))) (\<lambda>r.
       case r of Inr answer \<Rightarrow> return answer | Inl hi' \<Rightarrow> narrowing k c env lo topics hi')"

definition get_logs_narrowing ::
  "settings \<Rightarrow> outside \<Rightarrow> int \<Rightarrow> int \<Rightarrow> json \<Rightarrow> ('z world_scheme, json \<times> int) io" where
  "get_logs_narrowing c env from_block to_block topics =
     narrowing (nat (to_block - from_block) + 1) c env from_block topics to_block"

section \<open>Token transfers\<close>

definition cursor :: "'z deposit_state_scheme \<Rightarrow> int" where
  "cursor w = (case tg_deposit_cursor w of None \<Rightarrow> 0 | Some n \<Rightarrow> n)"

definition set_cursor :: "int \<Rightarrow> ('z deposit_state_scheme, unit) io" where
  "set_cursor b = modify (tg_deposit_cursor_update (\<lambda>_. Some b))"

type_synonym log_hit = "json \<times> int \<times> int"

definition last_chars :: "nat \<Rightarrow> string \<Rightarrow> string" where
  "last_chars n s = drop (length s - n) s"

text \<open>A log that credits one of our wallets; a \<open>topics\<close> field that is no list raises.\<close>

definition log_candidate :: "(string \<Rightarrow> int option) \<Rightarrow> json \<Rightarrow> exn + log_hit option" where
  "log_candidate by_address lg =
     then_sum (field ''topics'' lg) (\<lambda>t.
       case j_or t (JArr []) of
         JArr xs \<Rightarrow>
           if length xs < 3 then Inr None
           else (case xs ! 2 of
               JStr s \<Rightarrow>
                 then_sum (field ''data'' lg) (\<lambda>d.
                 then_sum (to_int d 0) (\<lambda>amount.
                   Inr (case by_address (lower (''0x'' @ last_chars 40 s)) of
                          None \<Rightarrow> None
                        | Some tid \<Rightarrow> if amount \<le> 0 then None else Some (lg, tid, amount))))
             | _ \<Rightarrow> Inl TypeError)
       | _ \<Rightarrow> Inl TypeError)"

text \<open>At most \<open>MAX_LOGS_PER_CYCLE\<close> of them, and the block the cursor may then claim.\<close>

definition cap_logs :: "log_hit list \<Rightarrow> int \<Rightarrow> exn + log_hit list \<times> int" where
  "cap_logs hits to_block =
     (if length hits > MAX_LOGS_PER_CYCLE then
        let kept = take MAX_LOGS_PER_CYCLE hits in
        then_sum (field ''blockNumber'' (fst (last kept))) (\<lambda>b.
        then_sum (to_int b to_block) (\<lambda>n. Inr (kept, n)))
      else Inr (hits, to_block))"

definition log_index :: "log_hit \<Rightarrow> exn + int" where
  "log_index h = then_sum (field ''logIndex'' (fst h)) (\<lambda>i. to_int i 0)"

definition log_hash :: "log_hit \<Rightarrow> exn + string" where
  "log_hash h =
     then_sum (field ''transactionHash'' (fst h)) (\<lambda>v.
       case j_or v (JStr []) of JStr s \<Rightarrow> Inr s | _ \<Rightarrow> Inl DataError)"

definition log_address :: "log_hit \<Rightarrow> exn + string" where
  "log_address h = then_sum (then_sum (field ''address'' (fst h)) text_method) (\<lambda>s. Inr (lower s))"

definition log_keys :: "log_hit list \<Rightarrow> exn + log_key list" where
  "log_keys hits =
     then_sum (collect log_index hits) (\<lambda>ixs.
     then_sum (collect log_hash hits) (\<lambda>hs.
       if list_all is_int32 ixs then Inr (zip hs ixs) else Inl DataError))"

text \<open>\<open>INSERT ... ON CONFLICT DO NOTHING RETURNING\<close>: the keys that were new.\<close>

primrec claim_rows ::
  "(log_key \<times> int) list \<Rightarrow> (log_key, int) table \<Rightarrow> (log_key, int) table \<times> log_key list" where
  "claim_rows [] t = (t, [])"
| "claim_rows (x # xs) t =
     (if has_row t (fst x) then claim_rows xs t
      else let (t', ks) = claim_rows xs (put_row (fst x) (snd x) t) in (t', fst x # ks))"

definition claim_logs ::
  "log_hit list \<Rightarrow> ('z deposit_state_scheme, (log_key \<times> log_hit) list) io" where
  "claim_logs hits w =
     (case log_keys hits of
        Inl e \<Rightarrow> (w, Inl e)
      | Inr keys \<Rightarrow>
          let (t, claimed) = claim_rows (zip keys (map (\<lambda>(_, tid, _). tid) hits)) (tg_deposit_seen w)
          in (w\<lparr>tg_deposit_seen := t\<rparr>,
              Inr (filter (\<lambda>(k, _). k \<in> set claimed) (zip keys hits))))"

definition remember_tokens :: "(int \<times> string) list \<Rightarrow> ('z deposit_state_scheme, unit) io" where
  "remember_tokens xs = modify (tg_wallet_tokens_update (\<lambda>t. fold (\<lambda>x t. if x \<in> set t then t else t @ [x]) xs t))"

section \<open>Decimals and symbols\<close>

definition known_meta :: "'z token_state_scheme \<Rightarrow> string list \<Rightarrow> (string \<times> string \<times> int) list" where
  "known_meta w addresses =
     rev (map (\<lambda>(a, r). (lower a, tk_symbol r, tk_decimals r))
       (filter (\<lambda>(a, _). lower a \<in> set addresses) (tg_token_registry w)))"

definition remember_seen_token ::
  "outside \<Rightarrow> string \<Rightarrow> string \<Rightarrow> int \<Rightarrow> ('z token_state_scheme, unit) io" where
  "remember_seen_token env addr symbol decimals w =
     (if \<not> is_int32 decimals then (w, Inl DataError)
      else (w\<lparr>tg_token_registry := fst (insert_new addr
              \<lparr>tk_symbol = symbol, tk_name = symbol, tk_decimals = decimals, tk_is_stock = False,
               tk_source = ''seen'', tk_updated_at = utc_now env w\<rparr> (tg_token_registry w))\<rparr>, Inr ()))"

definition read_meta ::
  "outside \<Rightarrow> string \<times> json \<times> json \<Rightarrow> ('z token_state_scheme, (string \<times> string \<times> int) option) io" where
  "read_meta env x =
     (case x of (addr, d, s) \<Rightarrow>
        case decimals_of d of
          None \<Rightarrow> return None
        | Some decimals \<Rightarrow>
            if decimals > 36 then return None
            else
              bind (from_sum (decode_symbol s)) (\<lambda>name.
                let symbol = or_text_opt name ''tokens'' in
                bind (if symbol \<noteq> ''tokens'' then remember_seen_token env addr symbol decimals
                      else return ()) (\<lambda>_. return (Some (addr, symbol, decimals)))))"

definition token_meta ::
  "settings \<Rightarrow> outside \<Rightarrow> string list \<Rightarrow> ('z token_state_scheme, (string \<times> string \<times> int) list) io" where
  "token_meta c env addresses =
     (if addresses = [] then return []
      else
        bind (gets (\<lambda>w. known_meta w addresses)) (\<lambda>known.
        let unknown = filter (\<lambda>a. map_of known a = None) addresses in
          if unknown = [] then return known
          else
            bind (rpc_batch c env (map (\<lambda>a. eth_call_to (JStr a) SEL_DECIMALS) unknown) CHAIN_ID) (\<lambda>decs.
            bind (rpc_batch c env (map (\<lambda>a. eth_call_to (JStr a) SEL_SYMBOL) unknown) CHAIN_ID) (\<lambda>syms.
            bind (for_each (read_meta env) (zip unknown (zip decs syms))) (\<lambda>found.
              return (known @ List.map_filter id found))))))"

section \<open>The cycle\<close>

definition hit_deposit ::
  "(string \<times> string \<times> int) list \<Rightarrow> log_key \<times> log_hit \<Rightarrow> exn + (log_key \<times> deposit) option" where
  "hit_deposit meta x =
     (case x of (key, h) \<Rightarrow>
        then_sum (log_address h) (\<lambda>a.
          Inr (case map_of meta a of
                 None \<Rightarrow> None
               | Some (symbol, decimals) \<Rightarrow>
                   Some (key, \<lparr>dp_telegram_id = fst (snd h), dp_amount = snd (snd h),
                     dp_decimals = decimals, dp_symbol = symbol, dp_tx_hash = Some (fst key)\<rparr>))))"

text \<open>From the log candidates on: claim, remember, look up and announce, then move the cursor.\<close>

definition announce_logs ::
  "settings \<Rightarrow> outside \<Rightarrow> log_hit list \<Rightarrow> int \<Rightarrow> ('z deposit_state_scheme, (log_key \<times> deposit) list) io" where
  "announce_logs c env hits to_block =
     bind (if hits = [] then return [] else claim_logs hits) (\<lambda>fresh.
     bind (from_sum (collect (\<lambda>(_, h). log_address h) fresh)) (\<lambda>addrs.
     bind (remember_tokens (zip (map (\<lambda>(_, _, tid, _). tid) fresh) addrs)) (\<lambda>_.
     bind (token_meta c env (remdups addrs)) (\<lambda>meta.
     bind (from_sum (collect (hit_deposit meta) fresh)) (\<lambda>ds.
     bind (set_cursor to_block) (\<lambda>_. return (List.map_filter id ds)))))))"

definition token_cycle ::
  "settings \<Rightarrow> outside \<Rightarrow> ('z deposit_state_scheme, (log_key \<times> deposit) list) io" where
  "token_cycle c env =
     bind (gets watched_wallets) (\<lambda>ws.
       if ws = [] then return []
       else
         bind (rpc c env ''eth_blockNumber'' [] CHAIN_ID) (\<lambda>r.
         bind (from_sum (to_int r 0)) (\<lambda>head_block.
         bind (gets cursor) (\<lambda>stored.
         let start = max (head_block - FIRST_RUN_LOOKBACK_BLOCKS) 0;
             last = (if stored = 0 then start else stored) in
         bind (if stored = 0 then set_cursor start else return ()) (\<lambda>_.
           if head_block \<le> last then return []
           else
             let topics = JArr [JStr TRANSFER_TOPIC, JNull, JArr (map (\<lambda>(_, a). JStr (pad_address a)) ws)];
                 by_address = map_of (rev (map (\<lambda>(tid, a). (lower a, tid)) ws)) in
             bind (get_logs_narrowing c env (last + 1) (min head_block (last + MAX_BLOCKS_PER_CYCLE)) topics)
               (\<lambda>(logs, to_block).
             bind (from_sum (then_sum (iterate logs) (collect (log_candidate by_address)))) (\<lambda>found.
             bind (from_sum (cap_logs (List.map_filter id found) to_block)) (\<lambda>(hits, reach).
               announce_logs c env hits reach))))))))"

definition check_tokens :: "settings \<Rightarrow> outside \<Rightarrow> ('z deposit_state_scheme, deposit list) io" where
  "check_tokens c env = bind (token_cycle c env) (\<lambda>xs. return (map snd xs))"

definition poll :: "settings \<Rightarrow> outside \<Rightarrow> ('z deposit_state_scheme, deposit list) io" where
  "poll c env = bind (check_native c env) (\<lambda>a. bind (check_tokens c env) (\<lambda>b. return (a @ b)))"

section \<open>The text of an amount\<close>

lemma digit_char_0: "digit_char 0 = CHR ''0''"
  by code_simp

lemma show_base_zero: "0 < n \<Longrightarrow> show_base 10 (10 * n) = show_base 10 n @ ''0''"
  by (subst show_base.simps) (auto simp: digit_char_0)

lemma strip_zeros_snoc: "strip_zeros (s @ ''0'') = strip_zeros s"
  by (simp add: strip_zeros_def rstrip_chars_def rstrip_where_def)

lemma plain_whole:
  assumes "0 < n" "n < 10 ^ 28" "0 \<le> d"
  shows "plain_text (n * 10 ^ nat d) d = show_int n"
proof -
  have "(of_int (n * 10 ^ nat d) / 10 ^ nat d :: rat) = of_int n" by simp
  then have "units_value (n * 10 ^ nat d) d = of_int n"
    using rnd_int [of n 10 28] assms(1,2) by (simp add: units_value_def dec28_def)
  then show ?thesis by (simp add: plain_text_def)
qed

text \<open>The announcement of a deposit strips zeros from whole numbers too, because a whole
  quotient has no decimal point: any whole number of coins is announced exactly like ten times
  as many, 1 ETH like 10 ETH.\<close>

theorem display_loses_zeros:
  assumes "0 < n" and "10 * n < 10 ^ 28" and "0 \<le> dp_decimals d"
  shows "deposit_display (d\<lparr>dp_amount := 10 * n * 10 ^ nat (dp_decimals d)\<rparr>) =
    deposit_display (d\<lparr>dp_amount := n * 10 ^ nat (dp_decimals d)\<rparr>)"
proof -
  have "show_int (10 * n) = show_int n @ ''0''"
    using assms(1) show_base_zero [of "nat n"] by (simp add: show_int_def nat_mult_distrib)
  then show ?thesis
    using assms plain_whole [of n "dp_decimals d"] plain_whole [of "10 * n" "dp_decimals d"]
    by (simp add: deposit_display_def strip_zeros_snoc)
qed

definition one_eth :: deposit where
  "one_eth = \<lparr>dp_telegram_id = 7, dp_amount = 10 ^ 18, dp_decimals = 18, dp_symbol = ''ETH'',
     dp_tx_hash = None\<rparr>"

theorem display_loses_zeros_witness:
  "deposit_display (one_eth\<lparr>dp_amount := 10 * 10 ^ 18\<rparr>) = ''1 ETH'' \<and>
   deposit_display (one_eth\<lparr>dp_amount := 10 ^ 18\<rparr>) = ''1 ETH''"
proof -
  have one: "deposit_display (one_eth\<lparr>dp_amount := 10 ^ 18\<rparr>) = ''1 ETH''"
    using plain_whole [of 1 18]
    by (simp add: deposit_display_def one_eth_def) code_simp
  with display_loses_zeros [of 1 one_eth] show ?thesis by (simp add: one_eth_def)
qed

section \<open>Real increases\<close>

text \<open>
  \<open>bal a h\<close> is the balance of address \<open>a\<close> at height \<open>h\<close>. The table is honest when every
  row holds the balance of its address at its height.
\<close>

definition honest :: "(string \<Rightarrow> int \<Rightarrow> int) \<Rightarrow> (string, watch_row) table \<Rightarrow> bool" where
  "honest bal t \<longleftrightarrow> (\<forall>(a, r) \<in> set t. wt_wei r = bal (lower a) (wt_block r))"

definition honest_update :: "(string \<Rightarrow> int \<Rightarrow> int) \<Rightarrow> watch_update \<Rightarrow> bool" where
  "honest_update bal u \<longleftrightarrow> (case u of (a, tid, wei, block) \<Rightarrow> wei = bal (lower a) block)"

lemma known_row_in:
  "known_row t address = Some r \<Longrightarrow> \<exists>a. (a, r) \<in> set t \<and> lower a = lower address"
  unfolding known_row_def by (drule map_of_SomeD) force

lemma set_put_row: "set (put_row k r t) \<subseteq> insert (k, r) (set t)"
  unfolding put_row_def by (induction t) auto

lemma honest_upsert:
  assumes "honest bal t" "honest_update bal u"
  shows "honest bal (upsert_watch u t)"
proof -
  obtain a tid wei block where u: "u = (a, tid, wei, block)" by (cases u) auto
  then have "wei = bal (lower a) block" using assms(2) by (simp add: honest_update_def)
  moreover have "honest bal (put_row a r t)" if "wt_wei r = bal (lower a) (wt_block r)" for r
    using set_put_row [of a r t] assms(1) that by (auto simp: honest_def)
  ultimately show ?thesis
    using assms(1) by (auto simp: upsert_watch_def u split: option.split)
qed

lemma honest_fold:
  "honest bal t \<Longrightarrow> (\<And>u. u \<in> set us \<Longrightarrow> honest_update bal u) \<Longrightarrow> honest bal (fold upsert_watch us t)"
  by (induction us arbitrary: t) (simp_all add: honest_upsert)

lemma reading_honest:
  assumes "honest bal t" "native_reading h t ((tid, address), raw) = Inr (d, u)"
    and "raw = JNull \<or> to_int raw 0 = Inr (bal (lower address) h)"
  shows "(\<forall>x. u = Some x \<longrightarrow> honest_update bal x) \<and>
    (\<forall>x. d = Some x \<longrightarrow> (\<exists>h0\<le>h. dp_telegram_id x = tid \<and>
        dp_amount x = bal (lower address) h - bal (lower address) h0 \<and> 0 < dp_amount x))"
proof -
  have wei: "wt_wei r = bal (lower address) (wt_block r)" if "known_row t address = Some r" for r
    using known_row_in [OF that] assms(1) by (auto simp: honest_def)
  show ?thesis
  proof (cases "known_row t address")
    case None
    then show ?thesis
      using assms(2,3) by (auto simp: native_reading_def honest_update_def Let_def split: if_splits)
  next
    case (Some r)
    have "\<exists>h0\<le>h. dp_telegram_id x = tid \<and> dp_amount x = bal (lower address) h - bal (lower address) h0 \<and>
        0 < dp_amount x" if "d = Some x" for x
      using that assms(2,3) Some wei [OF Some]
      by (intro exI [of _ "wt_block r"]) (auto simp: native_reading_def Let_def split: if_splits)
    then show ?thesis
      using assms(2,3) Some by (auto simp: native_reading_def honest_update_def Let_def split: if_splits)
  qed
qed

lemma in_map_filter: "y \<in> set (List.map_filter f xs) \<longleftrightarrow> (\<exists>x\<in>set xs. f x = Some y)"
  by (induction xs) (auto simp: List.map_filter_simps split: option.splits)

text \<open>No phantom deposits. If every reading is the balance of its wallet at the height the
  cycle counts it as, then whatever heights the cycles come in (a node that has fallen behind
  included), every announced deposit is a real increase: the balance at this height over the
  balance at some earlier one; and the table stays a record of true balances, so the next
  cycle may be judged the same way.\<close>

theorem deposits_are_increases:
  assumes "honest bal t" and "native_cycle h ws balances t = Inr (ds, t')"
    and "\<And>tid a raw. ((tid, a), raw) \<in> set (zip ws balances) \<Longrightarrow>
           raw = JNull \<or> to_int raw 0 = Inr (bal (lower a) h)"
  shows "honest bal t' \<and>
    (\<forall>d\<in>set ds. \<exists>a h0. h0 \<le> h \<and> (dp_telegram_id d, a) \<in> set ws \<and> 0 < dp_amount d \<and>
       dp_amount d = bal (lower a) h - bal (lower a) h0)"
proof -
  obtain rs where rs: "collect (native_reading h t) (zip ws balances) = Inr rs"
    and ds: "ds = List.map_filter fst rs" and t': "t' = fold upsert_watch (List.map_filter snd rs) t"
    using assms(2) by (auto simp: native_cycle_def then_sum_Inr)
  have all: "list_all2 (\<lambda>x r. native_reading h t x = Inr r) (zip ws balances) rs"
    using rs by (simp add: collect_Inr)
  have src: "\<exists>tid a raw. ((tid, a), raw) \<in> set (zip ws balances) \<and>
      native_reading h t ((tid, a), raw) = Inr r" if r: "r \<in> set rs" for r
  proof -
    obtain i where i: "i < length rs" "rs ! i = r" using r by (auto simp: in_set_conv_nth)
    obtain tid a raw where z: "zip ws balances ! i = ((tid, a), raw)"
      by (cases "zip ws balances ! i") auto
    have "i < length (zip ws balances)" using list_all2_lengthD [OF all] i(1) by simp
    then have "((tid, a), raw) \<in> set (zip ws balances)" by (metis z nth_mem)
    moreover have "native_reading h t ((tid, a), raw) = Inr r"
      using list_all2_nthD2 [OF all i(1)] i(2) z by simp
    ultimately show ?thesis by blast
  qed
  have "honest_update bal u" if "u \<in> set (List.map_filter snd rs)" for u
  proof -
    obtain r where "r \<in> set rs" "snd r = Some u" using \<open>u \<in> _\<close> by (auto simp: in_map_filter)
    then obtain tid a raw where x: "((tid, a), raw) \<in> set (zip ws balances)"
      "native_reading h t ((tid, a), raw) = Inr (fst r, Some u)" using src by (metis prod.collapse)
    then show ?thesis using reading_honest [OF assms(1) x(2) assms(3) [OF x(1)]] by blast
  qed
  then have "honest bal t'" using honest_fold [OF assms(1)] t' by simp
  moreover have "\<exists>a h0. h0 \<le> h \<and> (dp_telegram_id d, a) \<in> set ws \<and> 0 < dp_amount d \<and>
       dp_amount d = bal (lower a) h - bal (lower a) h0" if "d \<in> set ds" for d
  proof -
    obtain r where "r \<in> set rs" "fst r = Some d" using \<open>d \<in> _\<close> ds by (auto simp: in_map_filter)
    then obtain tid a raw where x: "((tid, a), raw) \<in> set (zip ws balances)"
      "native_reading h t ((tid, a), raw) = Inr (Some d, snd r)" using src by (metis prod.collapse)
    then have "(tid, a) \<in> set ws" by (meson set_zip_leftD)
    then show ?thesis using reading_honest [OF assms(1) x(2) assms(3) [OF x(1)]] by blast
  qed
  ultimately show ?thesis by blast
qed

theorem deposits_are_increases_witness:
  "\<exists>ds t'. native_cycle 12 [(7, ''0xAa'')] [JStr ''0x9'']
      [(''0xaa'', \<lparr>wt_telegram_id = 7, wt_wei = 5, wt_block = 10\<rparr>)] = Inr (ds, t') \<and>
     honest (\<lambda>a h. if h < 11 then 5 else 9) t' \<and> map dp_amount ds = [4]"
proof -
  let ?t = "[(''0xaa'', \<lparr>wt_telegram_id = 7, wt_wei = 5, wt_block = 10\<rparr>)]"
  have l: "lower ''0xAa'' = ''0xaa''" "lower ''0xaa'' = ''0xaa''" "to_int (JStr ''0x9'') 0 = Inr 9"
    by code_simp+
  have run: "native_cycle 12 [(7, ''0xAa'')] [JStr ''0x9''] ?t = Inr
      ([\<lparr>dp_telegram_id = 7, dp_amount = 4, dp_decimals = 18, dp_symbol = ''ETH'', dp_tx_hash = None\<rparr>],
       upsert_watch (''0xaa'', 7, 9, 12) ?t)"
    by (simp add: native_cycle_def native_reading_def known_row_def l List.map_filter_simps)
  have "honest (\<lambda>a h. if h < 11 then 5 else 9) ?t" by (simp add: honest_def)
  from deposits_are_increases [OF this run] show ?thesis
    unfolding run by (auto simp: l(3))
qed


section \<open>Narrowing\<close>

lemma rpc_in_fuel: "rpc c env m ps chain w = (w', r) \<Longrightarrow> r \<noteq> Inl Out_Of_Fuel"
  using steadyD [OF steady_rpc] by blast

definition logs_query :: "int \<Rightarrow> int \<Rightarrow> json \<Rightarrow> json list" where
  "logs_query lo hi topics =
     [JObj [(''fromBlock'', JStr (hex lo)), (''toBlock'', JStr (hex hi)), (''topics'', topics)]]"

text \<open>What an answer of the loop stands for.\<close>

definition scanned :: "settings \<Rightarrow> outside \<Rightarrow> json \<Rightarrow> int \<Rightarrow> int \<Rightarrow> 'z world_scheme itself \<Rightarrow> json \<Rightarrow> int \<Rightarrow> bool" where
  "scanned c env topics lo hi ty logs reach \<longleftrightarrow>
     lo \<le> reach \<and> reach \<le> hi \<and>
     ((\<exists>(w1 :: 'z world_scheme) w2 raw. rpc c env ''eth_getLogs'' (logs_query lo reach topics) CHAIN_ID w1 = (w2, Inr raw) \<and>
         logs = j_or raw (JArr [])) \<or>
      (logs = JArr [] \<and> reach = lo \<and>
       (\<exists>(w1 :: 'z world_scheme) w2 m. rpc c env ''eth_getLogs'' (logs_query lo lo topics) CHAIN_ID w1 = (w2, Inl (EvmError m)) \<and>
          is_too_many_logs m)))"

lemma narrowing_correct:
  fixes w :: "'z world_scheme"
  assumes "lo \<le> hi" and "nat (hi - lo) < k"
  shows "case snd (narrowing k c env lo topics hi w) of
      Inl e \<Rightarrow> e \<noteq> Out_Of_Fuel
    | Inr (logs, reach) \<Rightarrow> scanned c env topics lo hi TYPE('z world_scheme) logs reach"
  using assms
proof (induction k arbitrary: hi w)
  case 0
  then show ?case by simp
next
  case (Suc k)
  obtain w1 r where r: "rpc c env ''eth_getLogs'' (logs_query lo hi topics) CHAIN_ID w = (w1, r)"
    by fastforce
  note q = r [unfolded logs_query_def]
  show ?case
  proof (cases r)
    case (Inr raw)
    then have "narrowing (Suc k) c env lo topics hi w = (w1, Inr (j_or raw (JArr []), hi))"
      using q by (simp add: io_simps bind_def try_except_def)
    moreover have "scanned c env topics lo hi TYPE('z world_scheme) (j_or raw (JArr [])) hi"
      using r Inr Suc.prems(1) unfolding scanned_def by blast
    ultimately show ?thesis by simp
  next
    case (Inl e)
    show ?thesis
    proof (cases "is_evm_error e \<and> is_too_many_logs (evm_message e)")
      case False
      then have "narrowing (Suc k) c env lo topics hi w = (w1, Inl e)"
        using q Inl by (auto simp: io_simps bind_def try_except_def)
      then show ?thesis using rpc_in_fuel [OF r] Inl by simp
    next
      case True
      then obtain m where e: "e = EvmError m" "is_too_many_logs m"
        by (cases e) (auto simp: is_evm_error_def evm_message_def)
      show ?thesis
      proof (cases "hi \<le> lo")
        case dense: True
        then have "narrowing (Suc k) c env lo topics hi w = (w1, Inr (JArr [], lo))"
          using q Inl e by (simp add: io_simps bind_def try_except_def is_evm_error_def evm_message_def)
        moreover have "scanned c env topics lo hi TYPE('z world_scheme) (JArr []) lo"
          using r Inl e dense Suc.prems(1) unfolding scanned_def by auto
        ultimately show ?thesis by simp
      next
        case wide: False
        let ?mid = "lo + (hi - lo) div 2"
        have step: "narrowing (Suc k) c env lo topics hi w = narrowing k c env lo topics ?mid w1"
          using q Inl e wide
          by (simp add: io_simps bind_def try_except_def is_evm_error_def evm_message_def)
        have mid: "lo \<le> ?mid" "?mid \<le> hi" "nat (?mid - lo) < k" using wide Suc.prems(2) by auto
        have "scanned c env topics lo hi TYPE('z world_scheme) logs reach"
          if "scanned c env topics lo ?mid TYPE('z world_scheme) logs reach" for logs reach
          using that mid(2) unfolding scanned_def by auto
        then show ?thesis
          using Suc.IH [OF mid(1,3), of w1] unfolding step
          by (auto split: sum.splits prod.splits)
      qed
    qed
  qed
qed



section \<open>Which steps touch the claimed logs\<close>

definition same_seen :: "'z deposit_state_scheme \<Rightarrow> 'z deposit_state_scheme \<Rightarrow> bool" where
  "same_seen w w' \<longleftrightarrow> tg_deposit_seen w' = tg_deposit_seen w"

interpretation seen: io_relation "\<lambda>_. True" same_seen
  by unfold_locales (simp_all add: same_seen_def)

abbreviation leaves_seen :: "('z deposit_state_scheme, 'a) io \<Rightarrow> bool" where
  "leaves_seen m \<equiv> obeys (\<lambda>_. True) same_seen m"

lemma leaves_framed:
  fixes m :: "('z deposit_state_scheme, 'a) io"
  assumes "framed m"
  shows "leaves_seen m"
proof -
  have "tg_deposit_seen w' = tg_deposit_seen w" if "same_more w w'" for w w' :: "'z deposit_state_scheme"
    using that by (cases w; cases w') (simp add: same_more_def)
  then show ?thesis using assms by (auto simp: obeys_def same_seen_def)
qed

lemma leaves_steps:
  "leaves_seen (set_cursor b)" "leaves_seen (remember_tokens xs)"
  "leaves_seen (remember_seen_token env addr s d)"
  by (simp_all add: obeys_def same_seen_def set_cursor_def remember_tokens_def remember_seen_token_def io_simps)

lemma leaves_meta: "leaves_seen (read_meta env x)" "leaves_seen (token_meta c env as)"
  unfolding read_meta_def token_meta_def Let_def
  by (intro seen.obeys_rules leaves_steps leaves_framed framed_batch framed_rules | simp)+

lemma framed_narrowing: "framed (narrowing k c env lo topics hi)"
  by (induction k arbitrary: hi) (auto intro!: framed_rpc framed_rules)

lemma leavesD: "leaves_seen m \<Longrightarrow> m w = (w', r) \<Longrightarrow> tg_deposit_seen w' = tg_deposit_seen w"
  by (drule obeysD [where w = w]) (simp_all add: same_seen_def)


section \<open>Claiming\<close>

definition is_seen :: "'z deposit_state_scheme \<Rightarrow> log_key \<Rightarrow> bool" where
  "is_seen w k \<longleftrightarrow> has_row (tg_deposit_seen w) k"

lemma claim_rows_spec:
  "claim_rows xs t = (t', ks) \<Longrightarrow>
     (\<forall>k. has_row t' k \<longleftrightarrow> has_row t k \<or> k \<in> fst ` set xs) \<and>
     set ks = {k \<in> fst ` set xs. \<not> has_row t k}"
proof (induction xs arbitrary: t t' ks)
  case Nil
  then show ?case by simp
next
  case (Cons x xs)
  show ?case
  proof (cases "has_row t (fst x)")
    case True
    then show ?thesis using Cons by auto
  next
    case False
    then obtain ks0 where r: "claim_rows xs (put_row (fst x) (snd x) t) = (t', ks0)" "ks = fst x # ks0"
      using Cons.prems by (auto split: prod.splits)
    then show ?thesis
      using Cons.IH [OF r(1)] False by (auto simp: has_row_def)
  qed
qed

text \<open>What a step that may claim logs and answers announcements does to the claims.\<close>

definition announces_new :: "'z deposit_state_scheme \<Rightarrow> 'z deposit_state_scheme \<times> (exn + (log_key \<times> 'a) list) \<Rightarrow> bool" where
  "announces_new w x \<longleftrightarrow>
     (\<forall>k. is_seen w k \<longrightarrow> is_seen (fst x) k) \<and>
     (\<forall>ds. snd x = Inr ds \<longrightarrow> (\<forall>k\<in>fst ` set ds. \<not> is_seen w k \<and> is_seen (fst x) k))"

lemma claim_logs_new: "announces_new w (claim_logs hits w)"
proof (cases "log_keys hits")
  case (Inl e)
  then show ?thesis by (simp add: claim_logs_def announces_new_def)
next
  case (Inr keys)
  obtain t ks where c: "claim_rows (zip keys (map (\<lambda>(_, tid, _). tid) hits)) (tg_deposit_seen w) = (t, ks)"
    by fastforce
  from claim_rows_spec [OF c] show ?thesis
    by (auto simp: claim_logs_def Inr c announces_new_def is_seen_def)
qed

lemma announces_after:
  assumes "announces_new w (w1, Inr ds)" and "leaves_seen m" "m w1 = (w2, r)"
    and "\<And>ds'. r = Inr ds' \<Longrightarrow> fst ` set ds' \<subseteq> fst ` set ds"
  shows "announces_new w (w2, r)"
proof -
  have eq: "is_seen w2 k = is_seen w1 k" for k using leavesD [OF assms(2,3)] by (simp add: is_seen_def)
  have new: "\<not> is_seen w k \<and> is_seen w1 k" if "k \<in> fst ` set ds" for k
    using assms(1) that by (force simp: announces_new_def)
  have "\<not> is_seen w k \<and> is_seen w2 k" if "r = Inr ds'" "k \<in> fst ` set ds'" for ds' k
    using new [OF subsetD [OF assms(4) [OF that(1)] that(2)]] eq by simp
  moreover have "is_seen w k \<Longrightarrow> is_seen w2 k" for k
    using assms(1) eq unfolding announces_new_def by (cases k) auto
  ultimately show ?thesis by (simp add: announces_new_def)
qed

lemma hit_deposit_keys:
  assumes "collect (hit_deposit meta) fresh = Inr ds"
  shows "fst ` set (List.map_filter id ds) \<subseteq> fst ` set fresh"
proof
  fix k assume "k \<in> fst ` set (List.map_filter id ds)"
  then obtain d where d: "Some (k, d) \<in> set ds" by (auto simp: in_map_filter)
  then obtain i where "i < length ds" "ds ! i = Some (k, d)" by (auto simp: in_set_conv_nth)
  moreover have "list_all2 (\<lambda>x y. hit_deposit meta x = Inr y) fresh ds"
    using assms by (simp add: collect_Inr)
  ultimately have "i < length fresh" "hit_deposit meta (fresh ! i) = Inr (Some (k, d))"
    by (simp_all add: list_all2_conv_all_nth)
  then have "fst (fresh ! i) = k" "fresh ! i \<in> set fresh"
    by (auto simp: hit_deposit_def then_sum_Inr split: prod.splits option.splits)
  then show "k \<in> fst ` set fresh" by force
qed

lemma announce_logs_new: "announces_new w (announce_logs c env hits b w)"
proof -
  define rest where "rest = (\<lambda>fresh. bind (from_sum (collect (\<lambda>(_ :: log_key, h). log_address h) fresh)) (\<lambda>addrs.
     bind (remember_tokens (zip (map (\<lambda>(_, _, tid, _). tid) fresh) addrs)) (\<lambda>_.
     bind (token_meta c env (remdups addrs)) (\<lambda>meta.
     bind (from_sum (collect (hit_deposit meta) fresh)) (\<lambda>ds.
     bind (set_cursor b) (\<lambda>_. return (List.map_filter id ds)))))) ::
       ('a deposit_state_scheme, (log_key \<times> deposit) list) io)"
  have leaves: "leaves_seen (rest fresh)" for fresh
    unfolding rest_def by (intro seen.obeys_rules leaves_steps leaves_meta)
  have keys: "fst ` set ds' \<subseteq> fst ` set fresh" if run: "rest fresh w1 = (w2, Inr ds')" for fresh w1 w2 ds'
  proof -
    obtain meta dsl where "collect (hit_deposit meta) fresh = Inr dsl" "ds' = List.map_filter id dsl"
      using run unfolding rest_def by (auto simp: bind_Inr io_simps)
    then show ?thesis using hit_deposit_keys by simp
  qed
  obtain w1 r where r: "(if hits = [] then return [] else claim_logs hits) w = (w1, r)" by fastforce
  have new: "announces_new w (w1, r)"
    using claim_logs_new [of w hits] r by (auto simp: io_simps announces_new_def split: if_splits)
  show ?thesis
  proof (cases r)
    case (Inl e)
    then show ?thesis using r new by (auto simp: announce_logs_def bind_def announces_new_def)
  next
    case (Inr fresh)
    have "announce_logs c env hits b w = rest fresh w1"
      unfolding announce_logs_def rest_def by (rule bind_simps(1)) (rule r [unfolded Inr])
    then show ?thesis
      using announces_after [OF new [unfolded Inr] leaves] keys by (metis surj_pair)
  qed
qed

lemma announces_before:
  assumes "leaves_seen m" and "\<And>a w. announces_new w (f a w)"
  shows "announces_new w (bind m f w)"
proof -
  obtain w1 r where m: "m w = (w1, r)" by fastforce
  have eq: "tg_deposit_seen w1 = tg_deposit_seen w" by (rule leavesD [OF assms(1) m])
  show ?thesis
    using assms(2) [of w1] m eq
    by (cases r) (auto simp: bind_def announces_new_def is_seen_def)
qed

lemma announces_pure: "announces_new w (return [] w)"
  by (simp add: announces_new_def io_simps)

lemmas leaves_reads = leaves_framed [OF framed_rpc] leaves_framed [OF framed_narrowing]

lemma token_cycle_new: "announces_new w (token_cycle c env w)"
  unfolding token_cycle_def Let_def get_logs_narrowing_def
  by (rule announces_before seen.obeys_rules leaves_reads leaves_steps announces_pure announce_logs_new
      | simp split del: if_split | simp split: prod.split if_split | intro allI impI conjI)+


section \<open>Runs of the watcher\<close>

text \<open>
  Cycles one after another, some of which may end in an exception; between two cycles anything
  else may change but the claimed logs. The lists are the logs each cycle announces.
\<close>

definition announced :: "exn + (log_key \<times> deposit) list \<Rightarrow> log_key set" where
  "announced r = (case r of Inl e \<Rightarrow> {} | Inr ds \<Rightarrow> fst ` set ds)"

inductive watched :: "settings \<Rightarrow> outside \<Rightarrow> 'z deposit_state_scheme \<Rightarrow> log_key set list \<Rightarrow> bool"
  for c env where
  stop: "watched c env w []"
| cycle: "same_seen w w0 \<Longrightarrow> token_cycle c env w0 = (w1, r) \<Longrightarrow> watched c env w1 kss \<Longrightarrow>
    watched c env w (announced r # kss)"

inductive_simps watched_Nil: "watched c env w []"
inductive_cases watched_Cons: "watched c env w (ks # kss)"

lemma cycle_claims:
  assumes "token_cycle c env w = (w', r)"
  shows "is_seen w k \<Longrightarrow> is_seen w' k" and "k \<in> announced r \<Longrightarrow> \<not> is_seen w k \<and> is_seen w' k"
  using token_cycle_new [of w c env] unfolding assms
  by (cases k; auto simp: announces_new_def announced_def split: sum.splits)+

lemma seen_not_announced:
  "watched c env w kss \<Longrightarrow> is_seen w k \<Longrightarrow> \<forall>ks\<in>set kss. k \<notin> ks"
proof (induction rule: watched.induct)
  case (stop w)
  then show ?case by simp
next
  case (cycle w w0 w1 r kss)
  then have "is_seen w0 k" by (simp add: same_seen_def is_seen_def)
  then show ?case
    using cycle_claims(1) [OF cycle.hyps(2), of k] cycle_claims(2) [OF cycle.hyps(2), of k] cycle.IH
    by auto
qed

text \<open>C10: over any number of cycles of the watcher, interrupted by errors or not, and whatever
  the node answers and else happens in between, no transfer log is announced by two
  of them.\<close>

theorem logs_announced_once:
  assumes "watched c env w kss" and "i < j" "j < length kss"
  shows "kss ! i \<inter> kss ! j = {}"
  using assms
proof (induction arbitrary: i j rule: watched.induct)
  case (stop w)
  then show ?case by simp
next
  case (cycle w w0 w1 r kss)
  obtain j' where j: "j = Suc j'" using cycle.prems by (cases j) auto
  show ?case
  proof (cases i)
    case 0
    have "k \<notin> kss ! j'" if "k \<in> announced r" for k
      using seen_not_announced [OF cycle.hyps(3), of k] cycle_claims(2) [OF cycle.hyps(2) that]
        cycle.prems(2) j by simp
    then show ?thesis using 0 j by auto
  next
    case (Suc i')
    then show ?thesis using cycle.IH [of i' j'] cycle.prems j by simp
  qed
qed

text \<open>A deposit can be lost for good. The logs are claimed before the symbols and decimals
  of their tokens are read, and the claim stays when that reading raises: whatever a cycle
  claimed before it ended in an exception is announced by no later cycle.\<close>

theorem failed_cycle_loses_deposits:
  assumes "token_cycle c env w = (w', Inl e)" and "\<not> is_seen w k" "is_seen w' k"
    and "watched c env w' kss"
  shows "k \<notin> announced (snd (token_cycle c env w)) \<union> \<Union> (set kss)"
  using seen_not_announced [OF assms(4,3)] assms(1) by (auto simp: announced_def)


section \<open>Sample runs\<close>

definition sample_log :: json where
  "sample_log = JObj
     [(''topics'', JArr [JStr TRANSFER_TOPIC, JNull,
         JStr (''0x'' @ replicate 24 CHR ''0'' @ replicate 40 CHR ''a'')]),
      (''data'', JStr ''0x5''), (''transactionHash'', JStr ''0xh''), (''logIndex'', JStr ''0x0''),
      (''address'', JStr ''0xT0''), (''blockNumber'', JStr ''0x60'')]"

text \<open>A node that answers single calls and is unreachable for batches.\<close>

definition half_node :: outside where
  "half_node = outage\<lparr>http := (\<lambda>n verb url p.
     case p of
       JArr _ \<Rightarrow> Transport_Error ''ConnectError'' ''down''
     | _ \<Rightarrow> Reply 200 (Some (JObj [(''result'',
         if p = rpc_payload 1 ''eth_blockNumber'' [] then JStr ''0x64'' else JArr [sample_log])])))\<rparr>"

definition waiting :: deposit_state where
  "waiting = \<lparr>looks = 0, slept = 0, on_fallback = False, primary_stale = False, lag_checked_at = 0,
     tg_wallets = [(1, \<lparr>wr_telegram_id = 7, wr_address = ''0x'' @ replicate 40 CHR ''a'',
        wr_enc_key_ref = ''k'', wr_imported = False, wr_created_at = 0, wr_archived_at = None,
        wr_label = None\<rparr>)], next_wallet_id = 2,
     tg_token_registry = [], tg_wallet_tokens = [], tg_balance_watch = [],
     tg_deposit_cursor = Some 90, tg_deposit_seen = []\<rparr>"

lemma batch_attempts_down:
  assumes "\<And>n url. http env n ''POST'' url payload = Transport_Error cls msg"
  shows "\<exists>w'. batch_attempts env url payload k w = (w', Inr (Inl (why cls msg)))"
  using assms by (cases k) (simp_all add: bind_def io_simps)

lemma batch_first_down:
  assumes "\<And>n url. http env n ''POST'' url payload = Transport_Error cls msg"
  shows "\<exists>w' m. batch_first env payload i urls reason w = (w', Inl (EvmError m))"
proof (induction urls arbitrary: i reason w)
  case Nil
  then show ?case by (simp add: io_simps)
next
  case (Cons url rest)
  obtain w1 where "batch_attempts env url payload 3 w = (w1, Inr (Inl (why cls msg)))"
    using batch_attempts_down [where w = w and k = 3, OF assms] by blast
  then show ?case
    using Cons.IH by (simp add: bind_def io_simps note_fallback_def)
qed

lemma rpc_batch_down:
  assumes "\<And>n url. http env n ''POST'' url (batch_payload reqs) = Transport_Error cls msg" "reqs \<noteq> []"
  shows "\<exists>w' m. rpc_batch c env reqs CHAIN_ID w = (w', Inl (EvmError m))"
proof -
  obtain w1 urls where "ordered_urls c env CHAIN_ID w = (w1, Inr urls)" using ordered_home by blast
  moreover obtain w2 m where "batch_first env (batch_payload reqs) 0 urls [] w1 = (w2, Inl (EvmError m))"
    using batch_first_down [where w = w1, OF assms(1)] by blast
  ultimately show ?thesis using assms(2) by (simp add: rpc_batch_def bind_def)
qed

lemma half_node_rpc:
  "\<exists>w'. rpc c half_node m ps CHAIN_ID w =
     (w', Inr (if rpc_payload 1 m ps = rpc_payload 1 ''eth_blockNumber'' [] then JStr ''0x64'' else JArr [sample_log]))"
  by (rule rpc_const [where kvs = "[(''result'', if rpc_payload 1 m ps = rpc_payload 1 ''eth_blockNumber'' []
      then JStr ''0x64'' else JArr [sample_log])]"])
    (simp_all add: half_node_def rpc_payload_def)

lemma half_node_batch: "reqs \<noteq> [] \<Longrightarrow> \<exists>w' m. rpc_batch c half_node reqs CHAIN_ID w = (w', Inl (EvmError m))"
  by (rule rpc_batch_down) (simp_all add: half_node_def batch_payload_def)

lemma same_tables:
  fixes w w' :: "'z deposit_state_scheme"
  assumes "framed m" "m w = (w', r)"
  shows "tg_wallets w' = tg_wallets w" "tg_token_registry w' = tg_token_registry w"
    "tg_deposit_seen w' = tg_deposit_seen w" "tg_deposit_cursor w' = tg_deposit_cursor w"
proof -
  have "same_more w w'" using obeysD [OF assms(1) _ assms(2)] by simp
  then show "tg_wallets w' = tg_wallets w" "tg_token_registry w' = tg_token_registry w"
    "tg_deposit_seen w' = tg_deposit_seen w" "tg_deposit_cursor w' = tg_deposit_cursor w"
    by (cases w; cases w'; simp add: same_more_def)+
qed


lemma sample_texts:
  "to_int (JStr ''0x64'') 0 = Inr 100" "to_int (JStr ''0x5'') 0 = Inr 5" "to_int (JStr ''0x0'') 0 = Inr 0"
  "lower (''0x'' @ replicate 40 CHR ''a'') = ''0x'' @ replicate 40 CHR ''a''"
  "lower (''0x'' @ last_chars 40 (''0x'' @ replicate 24 CHR ''0'' @ replicate 40 CHR ''a'')) =
     ''0x'' @ replicate 40 CHR ''a''"
  "lower ''0xT0'' = ''0xt0''" "lower ''0xt0'' = ''0xt0''"
  by code_simp+

lemma sample_candidate:
  "log_candidate [''0x'' @ replicate 40 CHR ''a'' \<mapsto> 7] sample_log = Inr (Some (sample_log, 7, 5))"
  unfolding log_candidate_def sample_log_def by (simp add: j_or_def sample_texts del: append.simps replicate.simps)

lemma get_logs_answer:
  assumes "rpc c env ''eth_getLogs'' [JObj [(''fromBlock'', JStr (hex lo)), (''toBlock'', JStr (hex hi)),
      (''topics'', topics)]] CHAIN_ID w = (w', Inr raw)"
  shows "get_logs_narrowing c env lo hi topics w = (w', Inr (j_or raw (JArr []), hi))"
  using assms by (simp add: get_logs_narrowing_def bind_def try_except_def io_simps)

lemma waiting_cycle:
  assumes "tg_wallets w = tg_wallets waiting" "tg_deposit_cursor w = Some 90"
  shows "\<exists>w2. token_cycle default_settings half_node w =
      announce_logs default_settings half_node [(sample_log, 7, 5)] 100 w2 \<and>
    tg_deposit_seen w2 = tg_deposit_seen w \<and> tg_token_registry w2 = tg_token_registry w \<and>
    tg_wallets w2 = tg_wallets w"
proof -
  let ?addr = "''0x'' @ replicate 40 CHR ''a''"
  have ws: "watched_wallets w = [(7, ?addr)]"
    by (simp add: watched_wallets_def assms(1) waiting_def rows_where_def del: append.simps replicate.simps)
  obtain w1 where 1: "rpc default_settings half_node ''eth_blockNumber'' [] CHAIN_ID w = (w1, Inr (JStr ''0x64''))"
    using half_node_rpc [of default_settings "''eth_blockNumber''" "[]" w] by auto
  note t1 = same_tables [OF framed_rpc 1]
  have cur: "cursor w1 = 90" using t1(4) assms(2) by (simp add: cursor_def)
  let ?topics = "JArr [JStr TRANSFER_TOPIC, JNull, JArr [JStr (pad_address ?addr)]]"
  obtain w2 where 2: "rpc default_settings half_node ''eth_getLogs''
      [JObj [(''fromBlock'', JStr (hex 91)), (''toBlock'', JStr (hex 100)), (''topics'', ?topics)]] CHAIN_ID w1 =
      (w2, Inr (JArr [sample_log]))"
    using half_node_rpc [of default_settings "''eth_getLogs''"
      "[JObj [(''fromBlock'', JStr (hex 91)), (''toBlock'', JStr (hex 100)), (''topics'', ?topics)]]" w1]
    by (auto simp: rpc_payload_def)
  note t2 = same_tables [OF framed_rpc 2]
  have narrow: "get_logs_narrowing default_settings half_node 91 100 ?topics w1 =
      (w2, Inr (JArr [sample_log], 100))"
    using get_logs_answer [OF 2] by (simp add: j_or_def)
  have "token_cycle default_settings half_node w =
      announce_logs default_settings half_node [(sample_log, 7, 5)] 100 w2"
    using 1 narrow cur
    by (simp add: token_cycle_def Let_def ws io_simps bind_def sample_texts(1) FIRST_RUN_LOOKBACK_BLOCKS_def
        MAX_BLOCKS_PER_CYCLE_def iterate_def sample_candidate sample_texts(4) cap_logs_def MAX_LOGS_PER_CYCLE_def
        List.map_filter_simps del: append.simps replicate.simps)
  then show ?thesis using t1 t2 by auto
qed

lemma sample_keys: "log_keys [(sample_log, 7, 5)] = Inr [(''0xh'', 0)]"
  by (simp add: log_keys_def log_index_def log_hash_def sample_log_def j_or_def sample_texts is_int32_def
      del: append.simps replicate.simps)

lemma sample_claim:
  assumes "\<not> is_seen w (''0xh'', 0)"
  shows "claim_logs [(sample_log, 7, 5)] w =
    (w\<lparr>tg_deposit_seen := put_row (''0xh'', 0) 7 (tg_deposit_seen w)\<rparr>, Inr [((''0xh'', 0), (sample_log, 7, 5))])"
  using assms by (simp add: claim_logs_def sample_keys is_seen_def)

lemma sample_address: "log_address (sample_log, 7, 5) = Inr ''0xt0''"
  by (simp add: log_address_def sample_log_def text_method_def sample_texts del: append.simps replicate.simps)

theorem failed_cycle_loses_deposits_witness:
  "\<exists>w' m. token_cycle default_settings half_node waiting = (w', Inl (EvmError m)) \<and>
     is_seen w' (''0xh'', 0) \<and> \<not> (\<exists>kss. watched default_settings half_node w' kss \<and>
       (''0xh'', 0) \<in> \<Union> (set kss))"
proof -
  have new: "\<not> is_seen waiting (''0xh'', 0)" by (simp add: is_seen_def waiting_def has_row_def)
  obtain w2 where w2: "token_cycle default_settings half_node waiting =
      announce_logs default_settings half_node [(sample_log, 7, 5)] 100 w2"
    "tg_deposit_seen w2 = []" "tg_token_registry w2 = []"
    using waiting_cycle [of waiting] by (auto simp: waiting_def)
  then have "\<not> is_seen w2 (''0xh'', 0)" by (simp add: is_seen_def has_row_def)
  note claim = sample_claim [OF this]
  define w3 where "w3 = tg_wallet_tokens_update (\<lambda>t. if (7, ''0xt0'') \<in> set t then t else t @ [(7, ''0xt0'')])
      (w2\<lparr>tg_deposit_seen := [((''0xh'', 0), 7)]\<rparr>)"
  have none: "tg_token_registry w3 = []" by (simp add: w3_def w2(3))
  have reg: "known_meta w3 [''0xt0''] = []" by (simp add: known_meta_def none)
  obtain w4 m where fail: "rpc_batch default_settings half_node [eth_call_to (JStr ''0xt0'') SEL_DECIMALS] CHAIN_ID w3 =
      (w4, Inl (EvmError m))"
    using half_node_batch [of "[eth_call_to (JStr ''0xt0'') SEL_DECIMALS]" default_settings w3] by auto
  have "token_cycle default_settings half_node waiting = (w4, Inl (EvmError m))"
    using w2 fail claim
    by (simp add: announce_logs_def bind_def io_simps sample_address remember_tokens_def token_meta_def
        put_row_def reg flip: w3_def)
  moreover have "is_seen w4 (''0xh'', 0)"
    using same_tables(3) [OF framed_batch fail] by (simp add: w3_def is_seen_def has_row_def)
  ultimately show ?thesis
    using failed_cycle_loses_deposits [OF _ new, of default_settings half_node w4 "EvmError m"] by auto
qed


definition stocked :: deposit_state where
  "stocked = waiting\<lparr>tg_token_registry := [(''0xT0'',
     \<lparr>tk_symbol = ''TOK'', tk_name = ''Token'', tk_decimals = 6, tk_is_stock = False, tk_source = ''seen'',
      tk_updated_at = 0\<rparr>)]\<rparr>"

lemma stocked_meta:
  "tg_token_registry w = tg_token_registry stocked \<Longrightarrow> known_meta w [''0xt0''] = [(''0xt0'', ''TOK'', 6)]"
  by (simp add: known_meta_def stocked_def sample_texts)

lemma stocked_announces:
  "\<exists>w' d. token_cycle default_settings half_node stocked = (w', Inr [((''0xh'', 0), d)]) \<and>
     dp_symbol d = ''TOK'' \<and> dp_amount d = 5"
proof -
  obtain w2 where w2: "token_cycle default_settings half_node stocked =
      announce_logs default_settings half_node [(sample_log, 7, 5)] 100 w2"
    "tg_deposit_seen w2 = []" "tg_token_registry w2 = tg_token_registry stocked"
    using waiting_cycle [of stocked] by (auto simp: stocked_def waiting_def)
  then have "\<not> is_seen w2 (''0xh'', 0)" by (simp add: is_seen_def has_row_def)
  note claim = sample_claim [OF this]
  define w3 where "w3 = tg_wallet_tokens_update (\<lambda>t. if (7, ''0xt0'') \<in> set t then t else t @ [(7, ''0xt0'')])
      (w2\<lparr>tg_deposit_seen := [((''0xh'', 0), 7)]\<rparr>)"
  have "known_meta w3 [''0xt0''] = [(''0xt0'', ''TOK'', 6)]"
    by (rule stocked_meta) (simp add: w3_def w2(3))
  then show ?thesis
    using w2 claim
    by (simp add: announce_logs_def bind_def io_simps sample_address remember_tokens_def token_meta_def
        put_row_def hit_deposit_def set_cursor_def List.map_filter_simps flip: w3_def)
qed

theorem logs_announced_once_witness:
  "\<exists>a b. watched default_settings half_node stocked [a, b] \<and> (''0xh'', 0) \<in> a \<and> a \<inter> b = {}"
proof -
  obtain w1 d where 1: "token_cycle default_settings half_node stocked = (w1, Inr [((''0xh'', 0), d)])"
    using stocked_announces by blast
  obtain w2 r2 where 2: "token_cycle default_settings half_node w1 = (w2, r2)" by fastforce
  have "watched default_settings half_node stocked [announced (Inr [((''0xh'', 0), d)]), announced r2]"
    by (intro watched.cycle [OF _ 1] watched.cycle [OF _ 2] watched.stop) (simp_all add: same_seen_def)
  with logs_announced_once [OF this, of 0 1] show ?thesis by (auto simp: announced_def)
qed

section \<open>The cap on logs\<close>

text \<open>The cap drops deposits. When more logs credit our wallets than a cycle takes, and the
  last one taken and the first one left are of one block, the cursor is set to that block: the
  next cycle starts after it, while the log left behind is neither claimed nor announced.\<close>

theorem capped_block_is_skipped:
  assumes "length hits > MAX_LOGS_PER_CYCLE" and "cap_logs hits to_block = Inr (kept, reach)"
    and "field ''blockNumber'' (fst (hits ! (MAX_LOGS_PER_CYCLE - 1))) = Inr b" "to_int b to_block = Inr n"
    and "field ''blockNumber'' (fst (hits ! MAX_LOGS_PER_CYCLE)) = Inr b"
    and "log_keys kept = Inr ks" "k \<notin> set ks" "\<not> is_seen w k"
    and "announce_logs c env kept reach w = (w', Inr ds)"
  shows "cursor w' = n \<and> \<not> is_seen w' k \<and> k \<notin> fst ` set ds"
proof -
  have "last (take MAX_LOGS_PER_CYCLE hits) = hits ! (MAX_LOGS_PER_CYCLE - 1)"
    using assms(1) by (subst last_conv_nth) (auto simp: MAX_LOGS_PER_CYCLE_def)
  then have kept: "kept = take MAX_LOGS_PER_CYCLE hits" "reach = n"
    using assms(1-4) by (auto simp: cap_logs_def Let_def)
  then have ne: "kept \<noteq> []" using assms(1) by (auto simp: MAX_LOGS_PER_CYCLE_def)
  obtain w1 fresh where f: "claim_logs kept w = (w1, Inr fresh)"
    using assms(9) ne by (auto simp: announce_logs_def bind_Inr)
  obtain t cl where cl: "claim_rows (zip ks (map (\<lambda>(_, tid, _). tid) kept)) (tg_deposit_seen w) = (t, cl)"
    by fastforce
  have "k \<notin> fst ` set (zip ks vs)" for vs :: "int list"
    using assms(7) by (auto dest: set_zip_leftD)
  then have "\<not> has_row t k"
    using claim_rows_spec [OF cl] assms(8) by (simp only: is_seen_def) blast
  then have w1: "\<not> is_seen w1 k" using f cl assms(6) by (auto simp: claim_logs_def is_seen_def)
  obtain w2 x where last: "w' = fst (set_cursor reach w2)" and w2: "tg_deposit_seen w2 = tg_deposit_seen w1"
  proof -
    obtain addrs w3 meta w4 dsl where "remember_tokens (zip (map (\<lambda>(_, _, tid, _). tid) fresh) addrs) w1 = (w3, Inr ())"
      "token_meta c env (remdups addrs) w3 = (w4, Inr meta)" "w' = fst (set_cursor reach w4)"
      using assms(9) ne f by (auto simp: announce_logs_def bind_Inr io_simps)
    then show ?thesis
      using leavesD [OF leaves_steps(2)] leavesD [OF leaves_meta(2)] that by metis
  qed
  have "\<not> is_seen w' k" "cursor w' = n"
    using last w1 w2 kept(2) by (simp_all add: is_seen_def set_cursor_def io_simps cursor_def)
  moreover have "is_seen w' k" if "k \<in> fst ` set ds"
    using announce_logs_new [of w c env kept reach] that assms(9)
    by (cases k) (auto simp: announces_new_def)
  ultimately show ?thesis by blast
qed


definition busy_log :: "nat \<Rightarrow> log_hit" where
  "busy_log i = (JObj [(''transactionHash'', JStr ''0xh''), (''logIndex'', JInt (int i)),
     (''address'', JStr ''0xT0''), (''blockNumber'', JInt 96)], 7, 5)"

lemma collect_map: "(\<And>x. x \<in> set xs \<Longrightarrow> f (g x) = Inr (h x)) \<Longrightarrow> collect f (map g xs) = Inr (map h xs)"
  by (induction xs) simp_all

lemma busy_keys:
  assumes "\<And>i. i \<in> set xs \<Longrightarrow> i < 2 ^ 31"
  shows "log_keys (map busy_log xs) = Inr (map (\<lambda>i. (''0xh'', int i)) xs)"
proof -
  have "collect log_index (map busy_log xs) = Inr (map int xs)"
    by (rule collect_map) (simp add: log_index_def busy_log_def to_int_def)
  moreover have "collect log_hash (map busy_log xs) = Inr (map (\<lambda>_. ''0xh'') xs)"
    by (rule collect_map) (simp add: log_hash_def busy_log_def j_or_def)
  moreover have "list_all is_int32 (map int xs)"
    using assms by (auto simp: list_all_iff is_int32_def)
  moreover have "zip (map (\<lambda>_. ''0xh'') xs) (map int xs) = map (\<lambda>i. (''0xh'', int i)) xs"
    by (simp add: zip_map_map) (simp add: zip_same_conv_map)
  ultimately show ?thesis by (simp add: log_keys_def)
qed

lemma busy_announced:
  assumes "xs \<noteq> []" "\<And>i. i \<in> set xs \<Longrightarrow> i < 2 ^ 31" "tg_token_registry w = tg_token_registry stocked"
  shows "\<exists>w' ds. announce_logs c env (map busy_log xs) b w = (w', Inr ds)"
proof -
  let ?hits = "map busy_log xs"
  obtain w1 fresh where f: "claim_logs ?hits w = (w1, Inr fresh)" "tg_token_registry w1 = tg_token_registry stocked"
    "set (map snd fresh) \<subseteq> set ?hits"
  proof -
    obtain t cl where cl: "claim_rows (zip (map (\<lambda>i. (''0xh'', int i)) xs) (map (\<lambda>(_, tid, _). tid) ?hits))
        (tg_deposit_seen w) = (t, cl)" by fastforce
    show ?thesis
      by (rule that [of "w\<lparr>tg_deposit_seen := t\<rparr>"
            "filter (\<lambda>(k, _). k \<in> set cl) (zip (map (\<lambda>i. (''0xh'', int i)) xs) ?hits)"])
        (use cl assms(3) in \<open>auto simp: claim_logs_def busy_keys [OF assms(2)] dest: set_zip_rightD\<close>)
  qed
  have addr: "log_address h = Inr ''0xt0''" if "h \<in> set (map snd fresh)" for h
    using that f(3) sample_texts(6) by (auto simp: log_address_def busy_log_def text_method_def)
  have addrs: "collect (\<lambda>(_, h). log_address h) fresh = Inr (map (\<lambda>_. ''0xt0'') fresh)"
    using collect_map [of fresh "\<lambda>(_, h). log_address h" id "\<lambda>_. ''0xt0''"] addr by (auto simp: case_prod_unfold)
  define w2 where "w2 = fst (remember_tokens (zip (map (\<lambda>(_, _, tid, _). tid) fresh) (map (\<lambda>_. ''0xt0'') fresh)) w1)"
  have w2: "remember_tokens (zip (map (\<lambda>(_, _, tid, _). tid) fresh) (map (\<lambda>_. ''0xt0'') fresh)) w1 = (w2, Inr ())"
    "tg_token_registry w2 = tg_token_registry stocked"
    by (simp_all add: w2_def remember_tokens_def io_simps f(2))
  have "remdups (map (\<lambda>_. ''0xt0'') fresh) = (if fresh = [] then [] else [''0xt0''])"
    by (induction fresh) (auto simp: image_constant_conv)
  then obtain meta where meta: "token_meta c env (remdups (map (\<lambda>_. ''0xt0'') fresh)) w2 = (w2, Inr meta)"
    using stocked_meta [OF w2(2)] by (cases "fresh = []") (auto simp: token_meta_def io_simps bind_def)
  define dep where "dep = (\<lambda>x. case hit_deposit meta x of Inr d \<Rightarrow> d | Inl _ \<Rightarrow> None)"
  have "collect (hit_deposit meta) (map id fresh) = Inr (map dep fresh)"
    using addr by (intro collect_map) (force simp: dep_def hit_deposit_def)
  then show ?thesis
    using assms(1) f(1) addrs w2(1) meta by (simp add: announce_logs_def bind_def io_simps set_cursor_def)
qed

theorem capped_block_is_skipped_witness:
  "\<exists>w' ds. announce_logs default_settings half_node (take 200 (map busy_log [0..<201])) 96 stocked = (w', Inr ds) \<and>
     cursor w' = 96 \<and> \<not> is_seen w' (''0xh'', 200)"
proof -
  let ?hits = "map busy_log [0..<201]"
  have kept: "take 200 ?hits = map busy_log [0..<200]" by (simp add: take_map)
  have "\<exists>w' ds. announce_logs default_settings half_node (map busy_log [0..<200]) 96 stocked = (w', Inr ds)"
    by (rule busy_announced) auto
  then obtain w' ds where run: "announce_logs default_settings half_node (map busy_log [0..<200]) 96 stocked = (w', Inr ds)"
    by blast
  have nth: "i < 201 \<Longrightarrow> ?hits ! i = busy_log i" for i by simp
  have last: "last (map busy_log [0..<200]) = busy_log 199" by (simp add: last_map)
  have cap: "cap_logs ?hits 100 = Inr (map busy_log [0..<200], 96)"
    unfolding cap_logs_def MAX_LOGS_PER_CYCLE_def Let_def kept last
    by (simp add: busy_log_def to_int_def)
  have "cursor w' = 96 \<and> \<not> is_seen w' (''0xh'', 200) \<and> (''0xh'', 200) \<notin> fst ` set ds"
  proof (rule capped_block_is_skipped [OF _ cap _ _ _ busy_keys _ _ run])
    show "field ''blockNumber'' (fst (?hits ! (MAX_LOGS_PER_CYCLE - 1))) = Inr (JInt 96)"
      "field ''blockNumber'' (fst (?hits ! MAX_LOGS_PER_CYCLE)) = Inr (JInt 96)"
      unfolding MAX_LOGS_PER_CYCLE_def by (simp_all add: nth busy_log_def)
    show "to_int (JInt 96) 100 = Inr 96" by (simp add: to_int_def)
  qed (auto simp: MAX_LOGS_PER_CYCLE_def is_seen_def stocked_def waiting_def has_row_def)
  with run kept show ?thesis by auto
qed

end
