(* ===== verification/Once_Lock.thy ===== *)
theory Once_Lock
  imports Prelude
begin

text \<open>
  "The status change is the lock": several services let racing callers run one
  conditional \<open>UPDATE ... WHERE status = ... RETURNING\<close>, and only the caller that got a
  row back may act on it. This theory states that contract once as a locale and proves
  what its clients rely on: over any sequence of operations, a key is won at most once.
\<close>

section \<open>Counting the wins of a run\<close>

text \<open>
  \<open>step x s\<close> is the state after operation \<open>x\<close>, \<open>won x s\<close> the keys whose locks
  that operation took.
\<close>

primrec win_count ::
  "('op \<Rightarrow> 's \<Rightarrow> 's) \<Rightarrow> ('op \<Rightarrow> 's \<Rightarrow> 'k set) \<Rightarrow> 'k \<Rightarrow> 'op list \<Rightarrow> 's \<Rightarrow> nat" where
  "win_count step won k [] s = 0"
| "win_count step won k (x # xs) s =
     (if k \<in> won x s then 1 else 0) + win_count step won k xs (step x s)"

primrec run_ops :: "('op \<Rightarrow> 's \<Rightarrow> 's) \<Rightarrow> 'op list \<Rightarrow> 's \<Rightarrow> 's" where
  "run_ops step [] s = s"
| "run_ops step (x # xs) s = run_ops step xs (step x s)"

lemma run_ops_append: "run_ops step (xs @ ys) s = run_ops step ys (run_ops step xs s)"
  by (induction xs arbitrary: s) simp_all

lemma win_count_append:
  "win_count step won k (xs @ ys) s =
     win_count step won k xs s + win_count step won k ys (run_ops step xs s)"
  by (induction xs arbitrary: s) simp_all

lemma run_ops_invariant:
  assumes "\<And>x s. I s \<Longrightarrow> I (step x s)" and "I s"
  shows "I (run_ops step xs s)"
  using assms(2) by (induction xs arbitrary: s) (simp_all add: assms(1))

section \<open>The contract\<close>

locale once_lock =
  fixes step :: "'op \<Rightarrow> 's \<Rightarrow> 's"
    and won :: "'op \<Rightarrow> 's \<Rightarrow> 'k set"
    and closed :: "'s \<Rightarrow> 'k \<Rightarrow> bool"
  assumes closed_stable: "closed s k \<Longrightarrow> closed (step x s) k"
    and win_closes: "k \<in> won x s \<Longrightarrow> closed (step x s) k"
    and closed_no_win: "closed s k \<Longrightarrow> k \<notin> won x s"
begin

lemma closed_run: "closed s k \<Longrightarrow> closed (run_ops step xs s) k"
  by (induction xs arbitrary: s) (simp_all add: closed_stable)

lemma closed_never_won: "closed s k \<Longrightarrow> win_count step won k xs s = 0"
  by (induction xs arbitrary: s) (simp_all add: closed_stable closed_no_win)

lemma won_at_most_once: "win_count step won k xs s \<le> 1"
proof (induction xs arbitrary: s)
  case Nil
  then show ?case by simp
next
  case (Cons x xs)
  show ?case
  proof (cases "k \<in> won x s")
    case True
    then have "win_count step won k xs (step x s) = 0"
      by (intro closed_never_won win_closes)
    with True show ?thesis by simp
  next
    case False
    with Cons.IH show ?thesis by simp
  qed
qed

lemma won_run_closed: "0 < win_count step won k xs s \<Longrightarrow> closed (run_ops step xs s) k"
proof (induction xs arbitrary: s)
  case Nil
  then show ?case by simp
next
  case (Cons x xs)
  then show ?case
    by (cases "k \<in> won x s") (auto intro: closed_run win_closes)
qed

end

end
