(* ===== verification/Linking.thy ===== *)
theory Linking
  imports Once_Lock PyText
begin

text \<open>
  Deep-link account linking, \<open>app/services/linking.py\<close>: the tables \<open>tg_link_tokens\<close> and
  \<open>tg_users\<close>, minting a token and consuming it. Consumption is one transaction. Random
  tokens are an argument; account ids are kept as the text of the UUID.
\<close>

section \<open>State\<close>

record link_token =
  lt_account_id :: string
  lt_expires_at :: usec
  lt_used_at :: "usec option"

record user_row =
  us_linked_account_id :: "string option"
  us_username :: "string option"

record link_db =
  link_tokens :: "(string, link_token) table"
  tg_users :: "(int, user_row) table"

section \<open>Operations\<close>

definition DEFAULT_TTL_MINUTES :: int where
  "DEFAULT_TTL_MINUTES = 15"

text \<open>A token that is already there violates the primary key: the insert raises.\<close>

definition create_link_token ::
  "string \<Rightarrow> usec \<Rightarrow> string \<Rightarrow> int \<Rightarrow> link_db \<Rightarrow> link_db \<times> string option" where
  "create_link_token token now account_id ttl_minutes db =
     (let (t, inserted) = insert_new token
            \<lparr>lt_account_id = account_id, lt_expires_at = now + minutes ttl_minutes,
             lt_used_at = None\<rparr> (link_tokens db)
      in if inserted then (db\<lparr>link_tokens := t\<rparr>, Some token) else (db, None))"

definition token_usable :: "usec \<Rightarrow> link_token \<Rightarrow> bool" where
  "token_usable now r \<longleftrightarrow> lt_used_at r = None \<and> lt_expires_at r > now"

definition consume_link_token ::
  "usec \<Rightarrow> string \<Rightarrow> int \<Rightarrow> link_db \<Rightarrow> link_db \<times> string option" where
  "consume_link_token now token tid db =
     (case row_of (link_tokens db) token of
        None \<Rightarrow> (db, None)
      | Some r \<Rightarrow>
          if token_usable now r then
            (db\<lparr>link_tokens := put_row token (r\<lparr>lt_used_at := Some now\<rparr>) (link_tokens db),
                tg_users := update_where (\<lambda>k _. k = tid)
                  (\<lambda>u. u\<lparr>us_linked_account_id := Some (lt_account_id r)\<rparr>) (tg_users db)\<rparr>,
             Some (lt_account_id r))
          else (db, None))"

definition linked_account :: "int \<Rightarrow> link_db \<Rightarrow> string option" where
  "linked_account tid db =
     (case row_of (tg_users db) tid of
        None \<Rightarrow> None
      | Some u \<Rightarrow> (case us_linked_account_id u of
                    None \<Rightarrow> None | Some a \<Rightarrow> if a = [] then None else Some a))"

section \<open>Runs of the service\<close>

datatype link_op =
    Mint_Op string usec string int
  | Consume_Op usec string int

primrec link_step :: "link_op \<Rightarrow> link_db \<Rightarrow> link_db" where
  "link_step (Mint_Op token now acct ttl) db = fst (create_link_token token now acct ttl db)"
| "link_step (Consume_Op now token tid) db = fst (consume_link_token now token tid db)"

text \<open>The tokens an operation bound.\<close>

primrec link_bound :: "link_op \<Rightarrow> link_db \<Rightarrow> string set" where
  "link_bound (Mint_Op token now acct ttl) db = {}"
| "link_bound (Consume_Op now token tid) db =
     (if snd (consume_link_token now token tid db) = None then {} else {token})"

definition token_used :: "link_db \<Rightarrow> string \<Rightarrow> bool" where
  "token_used db token \<longleftrightarrow>
     (\<exists>r. row_of (link_tokens db) token = Some r \<and> lt_used_at r \<noteq> None)"

lemma consume_Some:
  "snd (consume_link_token now token tid db) = Some a \<longleftrightarrow>
     (\<exists>r. row_of (link_tokens db) token = Some r \<and> token_usable now r \<and> lt_account_id r = a)"
  by (auto simp: consume_link_token_def split: option.split)

lemma consume_tokens:
  "row_of (link_tokens (fst (consume_link_token now token tid db))) t =
     (case row_of (link_tokens db) t of
        None \<Rightarrow> None
      | Some r \<Rightarrow> Some (if t = token \<and> token_usable now r
                       then r\<lparr>lt_used_at := Some now\<rparr> else r))"
  by (auto simp: consume_link_token_def split: option.split)

lemma create_tokens:
  "row_of (link_tokens (fst (create_link_token token now acct ttl db))) t =
     (case row_of (link_tokens db) t of
        None \<Rightarrow> if t = token then Some \<lparr>lt_account_id = acct, lt_expires_at = now + minutes ttl,
                                      lt_used_at = None\<rparr> else None
      | Some r \<Rightarrow> Some r)"
  by (auto simp: create_link_token_def insert_new_def has_row_def Let_def split: option.split)

interpretation links: once_lock link_step link_bound token_used
proof
  fix s k x
  show "token_used (link_step x s) k" if "token_used s k"
    using that by (cases x) (auto simp: token_used_def consume_tokens create_tokens)
  show "token_used (link_step x s) k" if "k \<in> link_bound x s"
    using that
    by (cases x) (auto simp: token_used_def consume_tokens consume_Some split: if_splits)
  show "k \<notin> link_bound x s" if "token_used s k"
    using that by (cases x) (auto simp: token_used_def consume_Some token_usable_def)
qed

lemma linked_after_consume:
  assumes "snd (consume_link_token now token tid db) = Some a"
  shows "row_of (tg_users (fst (consume_link_token now token tid db))) k =
     map_option (\<lambda>u. if k = tid then u\<lparr>us_linked_account_id := Some a\<rparr> else u)
       (row_of (tg_users db) k)"
  using assms by (auto simp: consume_link_token_def split: option.splits if_splits)

section \<open>Properties\<close>

text \<open>C5: over any sequence of mints and consumptions, by any users at any times and in any
  order, a link token binds an account at most once.\<close>

theorem token_binds_once: "win_count link_step link_bound token xs db \<le> 1"
  by (rule links.won_at_most_once)

text \<open>When consuming a token answers an account, the token was there, unused and not
  expired, and minted for that account; a known user is then linked to that account, no other
  user's link changes, and no later attempt by anybody, at any time, gets an answer from the
  same token.\<close>

theorem consume_links_user:
  assumes "consume_link_token now token tid db = (db', Some a)"
    and "a \<noteq> []" and "row_of (tg_users db) tid \<noteq> None"
  shows "(\<exists>r. row_of (link_tokens db) token = Some r \<and> lt_used_at r = None \<and>
              now < lt_expires_at r \<and> lt_account_id r = a) \<and>
    linked_account tid db' = Some a \<and>
    (\<forall>k. k \<noteq> tid \<longrightarrow> linked_account k db' = linked_account k db) \<and>
    (\<forall>xs now2 tid2. snd (consume_link_token now2 token tid2 (run_ops link_step xs db')) = None)"
proof (intro conjI allI impI)
  have some: "snd (consume_link_token now token tid db) = Some a"
    and db': "db' = fst (consume_link_token now token tid db)"
    using assms(1) by simp_all
  show "\<exists>r. row_of (link_tokens db) token = Some r \<and> lt_used_at r = None \<and>
              now < lt_expires_at r \<and> lt_account_id r = a"
    using some by (auto simp: consume_Some token_usable_def)
  note users = linked_after_consume [OF some, folded db']
  show "linked_account tid db' = Some a"
    using assms(2,3) by (auto simp: linked_account_def users)
  show "linked_account k db' = linked_account k db" if "k \<noteq> tid" for k
    using that by (simp add: linked_account_def users split: option.split)
  fix xs now2 tid2
  have "token_used db' token"
    using links.win_closes [of token "Consume_Op now token tid" db] some db' by simp
  then have "token_used (run_ops link_step xs db') token" by (rule links.closed_run)
  then show "snd (consume_link_token now2 token tid2 (run_ops link_step xs db')) = None"
    using links.closed_no_win [of "run_ops link_step xs db'" token "Consume_Op now2 token tid2"]
    by (auto split: if_splits)
qed

definition link_sample :: link_db where
  "link_sample = \<lparr>link_tokens = [(''t0k'', \<lparr>lt_account_id = ''acc'', lt_expires_at = minutes 15,
       lt_used_at = None\<rparr>)],
     tg_users = [(7, \<lparr>us_linked_account_id = None, us_username = None\<rparr>)]\<rparr>"

theorem consume_links_user_witness:
  "\<exists>db'. consume_link_token 5 ''t0k'' 7 link_sample = (db', Some ''acc'') \<and>
     linked_account 7 db' = Some ''acc'' \<and> snd (consume_link_token 6 ''t0k'' 8 db') = None"
proof -
  obtain db' where c: "consume_link_token 5 ''t0k'' 7 link_sample = (db', Some ''acc'')"
    by (simp add: consume_link_token_def link_sample_def token_usable_def time_simps)
  have "row_of (tg_users link_sample) 7 \<noteq> None" by (simp add: link_sample_def)
  from consume_links_user [OF c _ this]
  have "linked_account 7 db' = Some ''acc''"
    "\<forall>xs now2 tid2. snd (consume_link_token now2 ''t0k'' tid2 (run_ops link_step xs db')) = None"
    by simp_all
  then show ?thesis using c by (metis run_ops.simps(1))
qed

end
