(* ===== verification/Interleave.thy ===== *)
theory Interleave
  imports Prelude
begin

text \<open>
  Asynchronous operations as programs of atomic statements. An \<open>async\<close> function of the
  services runs one SQL statement (or one transaction) at a time and other calls may run
  between two of them; \<open>('s, 'r) prog\<close> is such a function, \<open>run_prog\<close> runs it alone, and
  \<open>pool_step\<close> runs one statement of any program of a pool.

  \<open>owes\<close> is the proof rule for such pools. A potential \<open>phi\<close> on the shared state pays for
  what programs hold: a program may take something (a claim, a month) only in a statement
  that raises the potential, and no statement of any program may lower it unpaid.
\<close>

section \<open>Programs\<close>

datatype ('s, 'r) prog =
    Ret 'r
  | Stmt "'s \<Rightarrow> 's" "'s \<Rightarrow> ('s, 'r) prog"

text \<open>\<open>sql f\<close> is one atomic statement with its answer; \<open>andthen\<close> is sequencing.\<close>

definition sql :: "('s \<Rightarrow> 's \<times> 'a) \<Rightarrow> ('s, 'a) prog" where
  "sql f = Stmt (fst \<circ> f) (Ret \<circ> snd \<circ> f)"

primrec andthen :: "('s, 'a) prog \<Rightarrow> ('a \<Rightarrow> ('s, 'b) prog) \<Rightarrow> ('s, 'b) prog" where
  "andthen (Ret a) g = g a"
| "andthen (Stmt u k) g = Stmt u (\<lambda>s. andthen (k s) g)"

primrec run_prog :: "('s, 'r) prog \<Rightarrow> 's \<Rightarrow> 's \<times> 'r" where
  "run_prog (Ret r) = (\<lambda>s. (s, r))"
| "run_prog (Stmt u k) = (\<lambda>s. run_prog (k s) (u s))"

lemma run_sql [simp]: "run_prog (sql f) s = f s"
  by (simp add: sql_def)

lemma run_andthen [simp]:
  "run_prog (andthen p g) s = (case run_prog p s of (s', a) \<Rightarrow> run_prog (g a) s')"
  by (induction p arbitrary: s) simp_all

lemma andthen_sql: "andthen (sql f) g = Stmt (fst \<circ> f) (\<lambda>s. g (snd (f s)))"
  by (simp add: sql_def)

lemma andthen_assoc: "andthen (andthen p f) g = andthen p (\<lambda>a. andthen (f a) g)"
  by (induction p) simp_all

section \<open>Pools\<close>

inductive pool_step :: "'s \<times> ('s, 'r) prog list \<Rightarrow> 's \<times> ('s, 'r) prog list \<Rightarrow> bool" where
  step: "i < length ps \<Longrightarrow> ps ! i = Stmt u k \<Longrightarrow> pool_step (s, ps) (u s, ps[i := k s])"

inductive pool_runs :: "'s \<times> ('s, 'r) prog list \<Rightarrow> 's \<times> ('s, 'r) prog list \<Rightarrow> bool" where
  pool_refl: "pool_runs c c"
| pool_more: "pool_step c d \<Longrightarrow> pool_runs d e \<Longrightarrow> pool_runs c e"

inductive_cases pool_stepE: "pool_step (s, ps) c"

text \<open>What the finished programs of a pool answered.\<close>

fun answers :: "('s, 'r) prog list \<Rightarrow> 'r list" where
  "answers [] = []"
| "answers (Ret r # ps) = r # answers ps"
| "answers (Stmt u k # ps) = answers ps"

text \<open>
  A schedule js the list of the positions of the programs that run next; a position that is
  out of range or of a finished program is skipped.
\<close>

fun schedule :: "nat list \<Rightarrow> 's \<times> ('s, 'r) prog list \<Rightarrow> 's \<times> ('s, 'r) prog list" where
  "schedule [] c = c"
| "schedule (i # js) (s, ps) =
     (if i < length ps then
        (case ps ! i of Ret r \<Rightarrow> schedule js (s, ps)
         | Stmt u k \<Rightarrow> schedule js (u s, ps[i := k s]))
      else schedule js (s, ps))"

lemma schedule_runs: "pool_runs c (schedule js c)"
proof (induction js c rule: schedule.induct)
  case (2 i js s ps)
  show ?case
  proof (cases "i < length ps")
    case True
    show ?thesis
    proof (cases "ps ! i")
      case (Stmt u k)
      have "pool_step (s, ps) (u s, ps[i := k s])" using True Stmt by (rule step)
      then show ?thesis using 2(2) [OF True Stmt] True Stmt by (auto intro: pool_more)
    qed (use 2 True in simp)
  qed (use 2 in simp)
qed (simp add: pool_refl)

lemma member_le_sum_list_int:
  fixes f :: "'a \<Rightarrow> int"
  shows "(\<And>a. 0 \<le> f a) \<Longrightarrow> x \<in> set xs \<Longrightarrow> f x \<le> sum_list (map f xs)"
proof (induction xs)
  case (Cons y ys)
  have "0 \<le> sum_list (map f ys)" using Cons.prems(1) by (induction ys) simp_all
  then show ?case using Cons by (auto intro: add_increasing)
qed simp

section \<open>Paying for what a program holds\<close>

inductive owes ::
  "('s \<Rightarrow> bool) \<Rightarrow> ('s \<Rightarrow> int) \<Rightarrow> ('r \<Rightarrow> int) \<Rightarrow> ('s, 'r) prog \<Rightarrow> int \<Rightarrow> bool"
  for I phi w where
  owes_Ret: "0 \<le> n \<Longrightarrow> w r \<le> n \<Longrightarrow> owes I phi w (Ret r) n"
| owes_Stmt: "0 \<le> n \<Longrightarrow>
     (\<And>s. I s \<Longrightarrow> I (u s)) \<Longrightarrow>
     (\<And>s. I s \<Longrightarrow> \<exists>m. owes I phi w (k s) m \<and> phi s + m \<le> phi (u s) + n) \<Longrightarrow>
     owes I phi w (Stmt u k) n"

inductive_cases owes_RetE: "owes I phi w (Ret r) n"
inductive_cases owes_StmtE: "owes I phi w (Stmt u k) n"

lemma owes_nonneg: "owes I phi w p n \<Longrightarrow> 0 \<le> n"
  by (erule owes.cases) auto

text \<open>The three shapes of a statement: one that only reads, one that takes, and one that
  gives back.\<close>

lemma owes_sql:
  assumes "0 \<le> n" and "\<And>s. I s \<Longrightarrow> I (fst (f s))"
    and "\<And>s. I s \<Longrightarrow> \<exists>m. owes I phi w (g (snd (f s))) m \<and> phi s + m \<le> phi (fst (f s)) + n"
  shows "owes I phi w (andthen (sql f) g) n"
  unfolding andthen_sql using assms by (intro owes_Stmt) auto

lemma owes_read:
  assumes "0 \<le> n" and "\<And>s. fst (f s) = s" and "\<And>a. owes I phi w (g a) n"
  shows "owes I phi w (andthen (sql f) g) n"
  using assms by (intro owes_sql) auto

lemma owes_if:
  "(b \<Longrightarrow> owes I phi w p n) \<Longrightarrow> (\<not> b \<Longrightarrow> owes I phi w q n) \<Longrightarrow>
   owes I phi w (if b then p else q) n"
  by simp

lemma owes_option:
  "(x = None \<Longrightarrow> owes I phi w p n) \<Longrightarrow> (\<And>a. x = Some a \<Longrightarrow> owes I phi w (q a) n) \<Longrightarrow>
   owes I phi w (case x of None \<Rightarrow> p | Some a \<Rightarrow> q a) n"
  by (cases x) simp_all

lemma owes_map: "owes I phi (\<lambda>a. w (h a)) p n \<Longrightarrow> owes I phi w (andthen p (\<lambda>a. Ret (h a))) n"
proof (induction rule: owes.induct)
  case (owes_Stmt n u k)
  then show ?case unfolding andthen.simps by (intro owes.owes_Stmt) blast+
qed (auto intro: owes.owes_Ret)

lemma owes_weaken: "owes I phi w p m \<Longrightarrow> m \<le> n \<Longrightarrow> owes I phi w p n"
proof (induction arbitrary: n rule: owes.induct)
  case (owes_Stmt m u k)
  have "\<exists>m'. owes I phi w (k s) m' \<and> phi s + m' \<le> phi (u s) + n" if "I s" for s
    using owes_Stmt(3) [OF that] owes_Stmt(4) by force
  then show ?case using owes_Stmt(1,2,4) by (intro owes.owes_Stmt) auto
qed (auto intro: owes.owes_Ret)

lemma owes_seq:
  "owes I phi (\<lambda>_. 0) p n \<Longrightarrow> (\<And>a. owes I phi w (g a) 0) \<Longrightarrow> owes I phi w (andthen p g) n"
proof (induction rule: owes.induct)
  case (owes_Ret n r)
  then show ?case by (auto intro: owes_weaken)
next
  case (owes_Stmt n u k)
  then show ?case unfolding andthen.simps by (intro owes.owes_Stmt) blast+
qed

lemmas owes_syntax = owes_if owes_option

definition pool_paid ::
  "('s \<Rightarrow> bool) \<Rightarrow> ('s \<Rightarrow> int) \<Rightarrow> ('r \<Rightarrow> int) \<Rightarrow> int \<Rightarrow> 's \<times> ('s, 'r) prog list \<Rightarrow> bool" where
  "pool_paid I phi w d c \<longleftrightarrow>
     I (fst c) \<and> (\<exists>ns. list_all2 (owes I phi w) (snd c) ns \<and> sum_list ns + d \<le> phi (fst c))"

lemma sum_list_update_int:
  fixes xs :: "int list"
  shows "i < length xs \<Longrightarrow> sum_list (xs[i := x]) = sum_list xs + x - xs ! i"
  by (induction xs arbitrary: i) (auto split: nat.split)

lemma pool_paid_step:
  assumes "pool_step c d" and "pool_paid I phi w e c"
  shows "pool_paid I phi w e d"
  using assms
proof cases
  case (step i ps u k s)
  obtain ns where ns: "list_all2 (owes I phi w) ps ns" "sum_list ns + e \<le> phi s" and I: "I s"
    using assms(2) step by (auto simp: pool_paid_def)
  have len: "i < length ns" using ns(1) step by (simp add: list_all2_lengthD)
  have "owes I phi w (Stmt u k) (ns ! i)"
    using list_all2_nthD [OF ns(1) step(3)] step(4) by simp
  then obtain m where m: "owes I phi w (k s) m" "phi s + m \<le> phi (u s) + ns ! i" "I (u s)"
    by (rule owes_StmtE) (use I in blast)
  have "list_all2 (owes I phi w) (ps[i := k s]) (ns[i := m])"
    using ns(1) m(1) by (rule list_all2_update_cong)
  moreover have "sum_list (ns[i := m]) + e \<le> phi (u s)"
    using len ns(2) m(2) by (simp add: sum_list_update_int)
  ultimately show ?thesis
    using m(3) step(2) by (auto simp: pool_paid_def)
qed

lemma pool_paid_runs: "pool_runs c d \<Longrightarrow> pool_paid I phi w e c \<Longrightarrow> pool_paid I phi w e d"
  by (induction rule: pool_runs.induct) (auto intro: pool_paid_step)

lemma answers_paid:
  "list_all2 (owes I phi w) ps ns \<Longrightarrow> sum_list (map w (answers ps)) \<le> sum_list ns"
proof (induction rule: list_all2_induct)
  case (Cons p ps n ns)
  then show ?case
    by (cases p) (auto elim: owes_RetE dest: owes_nonneg)
qed simp

theorem pool_bound:
  assumes "pool_runs (s, ps) (s', ps')" and "I s"
    and "\<And>p. p \<in> set ps \<Longrightarrow> owes I phi w p 0"
  shows "phi s + sum_list (map w (answers ps')) \<le> phi s'" and "I s'"
proof -
  have "list_all2 (owes I phi w) ps (replicate (length ps) 0)"
    using assms(3) by (simp add: list_all2_conv_all_nth)
  then have "pool_paid I phi w (phi s) (s, ps)"
    using assms(2) by (auto simp: pool_paid_def sum_list_replicate)
  then have "pool_paid I phi w (phi s) (s', ps')" using assms(1) by (rule pool_paid_runs [rotated])
  then show "phi s + sum_list (map w (answers ps')) \<le> phi s'" "I s'"
    by (auto simp: pool_paid_def dest: answers_paid)
qed

end
