(* ===== verification/Claims.thy ===== *)
theory Claims
  imports Interleave PyText Settings
begin

text \<open>
  Sending to someone who has not used the bot yet, \<open>app/services/claims.py\<close>: the table
  \<open>tg_claims\<close> and the operations on it. Every operation is a program of atomic statements
  (theory \<open>Interleave\<close>), so two taps on one link, a cancel, a failed transfer and the sweep
  of stale claims can be interleaved as the database interleaves them.

  The clock is a component of the state that any other program may advance; the database's
  \<open>now()\<close> and Python's \<open>time.time()\<close> read the same clock. Random tokens are an argument.
\<close>

section \<open>State\<close>

datatype claim_status = Pending | Claimed | Failed | Expired | Cancelled

record claim_row =
  cl_from_telegram_id :: int
  cl_to_username :: string
  cl_token_address :: "string option"
  cl_symbol :: string
  cl_amount_base :: int
  cl_decimals :: int
  cl_status :: claim_status
  cl_tx_hash :: "string option"
  cl_created_at :: usec
  cl_expires_at :: usec
  cl_updated_at :: usec

record claim_db =
  clock :: usec
  tg_claims :: "(string, claim_row) table"

text \<open>The messages of \<open>ClaimError\<close>, and the database's refusal of a duplicate token.\<close>

datatype claim_error =
    Link_Not_Valid
  | Already_Claimed
  | Sender_Cancelled
  | Link_Expired
  | Sent_To string
  | Not_Your_Transfer
  | Too_Late
  | No_Longer_Pending
  | Duplicate_Token

section \<open>Statements\<close>

definition CLAIM_TTL_DAYS :: int where
  "CLAIM_TTL_DAYS = 7"

definition claim_link :: "settings \<Rightarrow> string \<Rightarrow> string" where
  "claim_link c token =
     ''https://t.me/'' @ or_text (OPRAI_TG_BOT_USERNAME c) ''Oprai_Labs_Bot'' @
     ''?start=claim_'' @ token"

definition claim_get :: "string \<Rightarrow> claim_db \<Rightarrow> claim_db \<times> claim_row option" where
  "claim_get token db = (db, row_of (tg_claims db) token)"

definition read_clock :: "claim_db \<Rightarrow> claim_db \<times> usec" where
  "read_clock db = (db, clock db)"

text \<open>An \<open>UPDATE ... WHERE token = $1 [AND p] RETURNING *\<close>.\<close>

definition claim_update ::
  "string \<Rightarrow> (claim_row \<Rightarrow> bool) \<Rightarrow> (claim_row \<Rightarrow> claim_row) \<Rightarrow> claim_db
    \<Rightarrow> claim_db \<times> claim_row option" where
  "claim_update token p f db =
     (case row_of (tg_claims db) token of
        None \<Rightarrow> (db, None)
      | Some r \<Rightarrow>
          if p r then
            (let r' = (f r)\<lparr>cl_updated_at := clock db\<rparr>
             in (db\<lparr>tg_claims := put_row token r' (tg_claims db)\<rparr>, Some r'))
          else (db, None))"

definition is_pending :: "claim_row \<Rightarrow> bool" where
  "is_pending r \<longleftrightarrow> cl_status r = Pending"

definition set_status :: "claim_status \<Rightarrow> claim_row \<Rightarrow> claim_row" where
  "set_status s r = r\<lparr>cl_status := s\<rparr>"

section \<open>Operations\<close>

definition claim_create ::
  "settings \<Rightarrow> string \<Rightarrow> int \<Rightarrow> string \<Rightarrow> string \<Rightarrow> int \<Rightarrow> int \<Rightarrow> string option
    \<Rightarrow> (claim_db, claim_error + string \<times> string) prog" where
  "claim_create c token from_id to_username symbol amount_base decimals token_address =
     andthen
       (sql (\<lambda>db.
          (let (t, inserted) = insert_new token
                 \<lparr>cl_from_telegram_id = from_id,
                  cl_to_username = lower (lstrip_chars ''@'' to_username),
                  cl_token_address = token_address, cl_symbol = symbol,
                  cl_amount_base = amount_base, cl_decimals = decimals,
                  cl_status = Pending, cl_tx_hash = None, cl_created_at = clock db,
                  cl_expires_at = clock db + days CLAIM_TTL_DAYS,
                  cl_updated_at = clock db\<rparr> (tg_claims db)
           in (db\<lparr>tg_claims := t\<rparr>, inserted))))
       (\<lambda>inserted. Ret (if inserted then Inr (token, claim_link c token) else Inl Duplicate_Token))"

text \<open>\<open>pending_for\<close> and \<open>pending_from\<close>: selects, oldest first.\<close>

definition claims_where ::
  "(claim_row \<Rightarrow> bool) \<Rightarrow> claim_db \<Rightarrow> (string \<times> claim_row) list" where
  "claims_where p db =
     sort_key (\<lambda>(_, r). cl_created_at r)
       (rows_where (\<lambda>_ r. p r \<and> is_pending r \<and> cl_expires_at r > clock db) (tg_claims db))"

definition pending_for :: "string \<Rightarrow> claim_db \<Rightarrow> (string \<times> claim_row) list" where
  "pending_for username db =
     claims_where (\<lambda>r. lower (cl_to_username r) = lower (lstrip_chars ''@'' username)) db"

definition pending_from :: "int \<Rightarrow> claim_db \<Rightarrow> (string \<times> claim_row) list" where
  "pending_from from_id db = claims_where (\<lambda>r. cl_from_telegram_id r = from_id) db"

definition claim_finish :: "string \<Rightarrow> claim_status \<Rightarrow> (claim_db, claim_row option) prog" where
  "claim_finish token s = sql (claim_update token (\<lambda>_. True) (set_status s))"

definition mark_failed :: "string \<Rightarrow> (claim_db, claim_row option) prog" where
  "mark_failed token = sql (claim_update token (\<lambda>_. True) (set_status Failed))"

definition record_sent :: "string \<Rightarrow> string \<Rightarrow> (claim_db, claim_row option) prog" where
  "record_sent token tx_hash =
     sql (claim_update token (\<lambda>_. True) (\<lambda>r. r\<lparr>cl_tx_hash := Some tx_hash\<rparr>))"

definition take_claim ::
  "string \<Rightarrow> string option \<Rightarrow> (claim_db, claim_error + claim_row) prog" where
  "take_claim token claimer_username =
     andthen (sql (claim_get token)) (\<lambda>row.
       case row of
         None \<Rightarrow> Ret (Inl Link_Not_Valid)
       | Some r \<Rightarrow>
           if cl_status r = Claimed then Ret (Inl Already_Claimed)
           else if cl_status r = Cancelled then Ret (Inl Sender_Cancelled)
           else if cl_status r \<noteq> Pending then Ret (Inl Link_Expired)
           else andthen (sql read_clock) (\<lambda>now.
             if cl_expires_at r \<le> now then
               andthen (claim_finish token Expired) (\<lambda>_. Ret (Inl Link_Expired))
             else if lower (or_text_opt claimer_username []) \<noteq> lower (cl_to_username r) then
               Ret (Inl (Sent_To (cl_to_username r)))
             else andthen (sql (claim_update token is_pending (set_status Claimed))) (\<lambda>claimed.
               case claimed of
                 None \<Rightarrow> Ret (Inl Already_Claimed)
               | Some r' \<Rightarrow> Ret (Inr r'))))"

definition claim_cancel :: "string \<Rightarrow> int \<Rightarrow> (claim_db, claim_error + claim_row) prog" where
  "claim_cancel token from_id =
     andthen (sql (claim_update token (\<lambda>r. cl_from_telegram_id r = from_id \<and> is_pending r)
                    (set_status Cancelled))) (\<lambda>row.
       case row of
         Some r \<Rightarrow> Ret (Inr r)
       | None \<Rightarrow> andthen (sql (claim_get token)) (\<lambda>existing.
           case existing of
             None \<Rightarrow> Ret (Inl Not_Your_Transfer)
           | Some e \<Rightarrow>
               if cl_from_telegram_id e \<noteq> from_id then Ret (Inl Not_Your_Transfer)
               else if cl_status e = Claimed then Ret (Inl Too_Late)
               else Ret (Inl No_Longer_Pending)))"

definition is_stale :: "usec \<Rightarrow> claim_row \<Rightarrow> bool" where
  "is_stale now r \<longleftrightarrow> is_pending r \<and> cl_expires_at r \<le> now"

definition expire_stale :: "(claim_db, (string \<times> claim_row) list) prog" where
  "expire_stale = sql (\<lambda>db.
     (db\<lparr>tg_claims := update_where (\<lambda>_. is_stale (clock db))
            (\<lambda>r. (set_status Expired r)\<lparr>cl_updated_at := clock db\<rparr>) (tg_claims db)\<rparr>,
      map (\<lambda>(k, r). (k, (set_status Expired r)\<lparr>cl_updated_at := clock db\<rparr>))
        (rows_where (\<lambda>_. is_stale (clock db)) (tg_claims db))))"

section \<open>Calls that may be in progress together\<close>

datatype claim_call =
    Call_Create string int string string int int "string option"
  | Call_Take string "string option"
  | Call_Cancel string int
  | Call_Failed string
  | Call_Sent string string
  | Call_Sweep
  | Call_Tick usec

datatype claim_reply =
    Took string "string option" claim_row
  | Took_Back string claim_row
  | Swept "string list"
  | Refused claim_error
  | Done

primrec claim_prog :: "settings \<Rightarrow> claim_call \<Rightarrow> (claim_db, claim_reply) prog" where
  "claim_prog c (Call_Create token from_id to symbol amount dec addr) =
     andthen (claim_create c token from_id to symbol amount dec addr)
       (\<lambda>a. Ret (case a of Inl e \<Rightarrow> Refused e | Inr _ \<Rightarrow> Done))"
| "claim_prog c (Call_Take token who) =
     andthen (take_claim token who)
       (\<lambda>a. Ret (case a of Inl e \<Rightarrow> Refused e | Inr r \<Rightarrow> Took token who r))"
| "claim_prog c (Call_Cancel token from_id) =
     andthen (claim_cancel token from_id)
       (\<lambda>a. Ret (case a of Inl e \<Rightarrow> Refused e | Inr r \<Rightarrow> Took_Back token r))"
| "claim_prog c (Call_Failed token) = andthen (mark_failed token) (\<lambda>_. Ret Done)"
| "claim_prog c (Call_Sent token h) = andthen (record_sent token h) (\<lambda>_. Ret Done)"
| "claim_prog c Call_Sweep = andthen expire_stale (\<lambda>rows. Ret (Swept (map fst rows)))"
| "claim_prog c (Call_Tick d) = andthen (sql (\<lambda>db. (db\<lparr>clock := clock db + d\<rparr>, ()))) (\<lambda>_. Ret Done)"

text \<open>The answers that settle a claim: it was taken, taken back, or swept.\<close>

primrec settles :: "string \<Rightarrow> claim_reply \<Rightarrow> bool" where
  "settles k (Took token who r) \<longleftrightarrow> token = k"
| "settles k (Took_Back token r) \<longleftrightarrow> token = k"
| "settles k (Swept tokens) \<longleftrightarrow> k \<in> set tokens"
| "settles k (Refused e) \<longleftrightarrow> False"
| "settles k Done \<longleftrightarrow> False"

definition claim_closed :: "string \<Rightarrow> claim_db \<Rightarrow> bool" where
  "claim_closed k db \<longleftrightarrow> (\<exists>r. row_of (tg_claims db) k = Some r \<and> \<not> is_pending r)"

section \<open>Lemmas on the statements\<close>

lemmas claim_progs = take_claim_def claim_cancel_def mark_failed_def record_sent_def
  expire_stale_def claim_create_def claim_finish_def

lemma is_pending_set_status [simp]: "is_pending (set_status s r) \<longleftrightarrow> s = Pending"
  by (simp add: is_pending_def set_status_def)

lemma set_status_sels [simp]:
  "cl_status (set_status s r) = s" "cl_to_username (set_status s r) = cl_to_username r"
  "cl_amount_base (set_status s r) = cl_amount_base r"
  "cl_from_telegram_id (set_status s r) = cl_from_telegram_id r"
  "cl_symbol (set_status s r) = cl_symbol r" "cl_decimals (set_status s r) = cl_decimals r"
  "cl_token_address (set_status s r) = cl_token_address r"
  "cl_expires_at (set_status s r) = cl_expires_at r"
  by (simp_all add: set_status_def)

lemma is_pending_updates [simp]:
  "is_pending (r\<lparr>cl_updated_at := t\<rparr>) = is_pending r"
  "is_pending (r\<lparr>cl_tx_hash := h\<rparr>) = is_pending r"
  by (simp_all add: is_pending_def)

lemma claim_get_state [simp]: "fst (claim_get k db) = db" "snd (claim_get k db) = row_of (tg_claims db) k"
  by (simp_all add: claim_get_def)

lemma read_clock_state [simp]: "fst (read_clock db) = db" "snd (read_clock db) = clock db"
  by (simp_all add: read_clock_def)

lemma claim_update_row:
  "row_of (tg_claims (fst (claim_update token p f db))) k =
     (case row_of (tg_claims db) k of
        None \<Rightarrow> None
      | Some r \<Rightarrow> Some (if k = token \<and> p r then (f r)\<lparr>cl_updated_at := clock db\<rparr> else r))"
  by (auto simp: claim_update_def Let_def split: option.split)

lemma claim_update_answer:
  "snd (claim_update token p f db) =
     (case row_of (tg_claims db) token of
        None \<Rightarrow> None
      | Some r \<Rightarrow> if p r then Some ((f r)\<lparr>cl_updated_at := clock db\<rparr>) else None)"
  by (auto simp: claim_update_def Let_def split: option.split)

lemma claim_update_keyed [simp]:
  "keyed (tg_claims db) \<Longrightarrow> keyed (tg_claims (fst (claim_update token p f db)))"
  by (auto simp: claim_update_def Let_def split: option.split)

lemma claim_update_clock [simp]: "clock (fst (claim_update token p f db)) = clock db"
  by (auto simp: claim_update_def Let_def split: option.split)

text \<open>What no statement but an insert touches: who sent what to whom, until when.\<close>

definition terms_of where
  "terms_of r = (cl_from_telegram_id r, cl_to_username r, cl_token_address r, cl_symbol r,
     cl_amount_base r, cl_decimals r, cl_expires_at r)"

lemma terms_of_updates [simp]:
  "terms_of (r\<lparr>cl_updated_at := t\<rparr>) = terms_of r" "terms_of (r\<lparr>cl_tx_hash := h\<rparr>) = terms_of r"
  "terms_of (set_status s r) = terms_of r"
  by (simp_all add: terms_of_def)

section \<open>The potential of a claim\<close>

definition claim_phi :: "string \<Rightarrow> claim_db \<Rightarrow> int" where
  "claim_phi k db = (if claim_closed k db then 1 else 0)"

definition claim_gain :: "string \<Rightarrow> claim_reply \<Rightarrow> int" where
  "claim_gain k a = (if settles k a then 1 else 0)"

definition claims_keyed :: "claim_db \<Rightarrow> bool" where
  "claims_keyed db \<longleftrightarrow> keyed (tg_claims db)"

lemma claim_phi_keep:
  assumes "\<And>r. is_pending (f r) \<Longrightarrow> is_pending r"
  shows "claim_phi k db \<le> claim_phi k (fst (claim_update token p f db))"
  using assms by (auto simp: claim_phi_def claim_closed_def claim_update_row split: option.split)

lemma claim_phi_win:
  assumes "\<And>r. p r \<Longrightarrow> is_pending r" and "\<And>r. \<not> is_pending (f r)"
    and "snd (claim_update token p f db) = Some r'"
  shows "claim_phi k db + (if token = k then 1 else 0) \<le> claim_phi k (fst (claim_update token p f db))"
  using assms
  by (auto simp: claim_phi_def claim_closed_def claim_update_row claim_update_answer
      split: option.splits if_splits)

lemma owes_claim_update:
  assumes "\<And>r. is_pending (f r) \<Longrightarrow> is_pending r"
    and "\<And>a. owes claims_keyed (claim_phi k) w (g a) 0"
  shows "owes claims_keyed (claim_phi k) w (andthen (sql (claim_update token p f)) g) 0"
  using assms claim_phi_keep [of f]
  by (intro owes_sql) (auto simp: claims_keyed_def intro!: exI [of _ 0])

lemma owes_claim_win:
  assumes p: "\<And>r. p r \<Longrightarrow> is_pending r" and f: "\<And>r. \<not> is_pending (f r)"
    and none: "owes claims_keyed (claim_phi k) w (g None) 0"
    and some: "\<And>r. owes claims_keyed (claim_phi k) w (g (Some r)) (if token = k then 1 else 0)"
  shows "owes claims_keyed (claim_phi k) w (andthen (sql (claim_update token p f)) g) 0"
proof (rule owes_sql)
  fix db assume "claims_keyed db"
  then show "claims_keyed (fst (claim_update token p f db))" by (simp add: claims_keyed_def)
  show "\<exists>m. owes claims_keyed (claim_phi k) w (g (snd (claim_update token p f db))) m \<and>
      claim_phi k db + m \<le> claim_phi k (fst (claim_update token p f db)) + 0"
  proof (cases "snd (claim_update token p f db)")
    case None
    then show ?thesis
      using none claim_phi_keep [of f k db token p] f by (intro exI [of _ 0]) auto
  next
    case (Some r)
    then show ?thesis
      using some [of r] claim_phi_win [OF p f Some, of k]
      by (intro exI [of _ "if token = k then 1 else 0"]) auto
  qed
qed simp

section \<open>Every call pays for what it settles\<close>

lemma sweep_row:
  "row_of (tg_claims (fst (run_prog expire_stale db))) k =
     (case row_of (tg_claims db) k of
        None \<Rightarrow> None
      | Some r \<Rightarrow> Some (if is_stale (clock db) r
                       then (set_status Expired r)\<lparr>cl_updated_at := clock db\<rparr> else r))"
  by (auto simp: expire_stale_def split: option.split)

lemma sweep_answer:
  "keyed (tg_claims db) \<Longrightarrow> k \<in> fst ` set (snd (run_prog expire_stale db)) \<longleftrightarrow>
     (\<exists>r. row_of (tg_claims db) k = Some r \<and> is_stale (clock db) r)"
  using row_of_rows_where [of "tg_claims db" k "\<lambda>_. is_stale (clock db)"]
  by (simp add: expire_stale_def image_image case_prod_unfold)

lemmas owes_get = owes_read [where f = "claim_get token" for token, OF _ claim_get_state(1)]
lemmas owes_clock = owes_read [where f = read_clock, OF _ read_clock_state(1)]
lemmas owes_reads = owes_get owes_clock

lemma owes_claim_prog: "owes claims_keyed (claim_phi k) (claim_gain k) (claim_prog c x) 0"
proof (cases x)
  case (Call_Create token from_id to symbol amount dec addr)
  show ?thesis unfolding Call_Create claim_prog.simps claim_create_def andthen_assoc
    by (rule owes_sql)
      (auto simp: claims_keyed_def insert_new_def claim_phi_def claim_closed_def has_row_def Let_def
        is_pending_def claim_gain_def intro!: exI [of _ 0] owes_Ret split: sum.split)
next
  case (Call_Take token who)
  show ?thesis unfolding Call_Take claim_prog.simps take_claim_def claim_finish_def
    by (rule owes_map, intro owes_syntax owes_get owes_clock owes_claim_update [where p = "\<lambda>_. True"]
        owes_claim_win [where p = is_pending] owes_Ret) (simp_all add: claim_gain_def)
next
  case (Call_Cancel token from_id)
  show ?thesis unfolding Call_Cancel claim_prog.simps claim_cancel_def
    by (rule owes_map, intro owes_syntax owes_get owes_claim_win owes_Ret)
      (simp_all add: claim_gain_def)
next
  case (Call_Failed token)
  show ?thesis unfolding Call_Failed claim_prog.simps mark_failed_def
    by (rule owes_claim_update) (auto simp: claim_gain_def intro!: owes_Ret)
next
  case (Call_Sent token h)
  show ?thesis unfolding Call_Sent claim_prog.simps record_sent_def
    by (rule owes_claim_update) (auto simp: claim_gain_def intro!: owes_Ret)
next
  case Call_Sweep
  show ?thesis unfolding Call_Sweep claim_prog.simps expire_stale_def
  proof (rule owes_sql, goal_cases)
    case (3 db)
    let ?a = "snd (run_prog expire_stale db)"
    have "keyed (tg_claims db)" using 3 by (simp add: claims_keyed_def)
    note iff = sweep_answer [OF this, of k]
    have "claim_phi k db + (if k \<in> fst ` set ?a then 1 else 0) \<le>
        claim_phi k (fst (run_prog expire_stale db))"
      unfolding iff claim_phi_def claim_closed_def sweep_row
      by (cases "row_of (tg_claims db) k") (auto simp: is_stale_def)
    moreover have "owes claims_keyed (claim_phi k) (claim_gain k) (Ret (Swept (map fst ?a)))
        (if k \<in> fst ` set ?a then 1 else 0)"
      by (rule owes_Ret) (auto simp: claim_gain_def)
    ultimately show ?case
      by (auto simp: expire_stale_def)
  qed (auto simp: claims_keyed_def)
next
  case (Call_Tick d)
  show ?thesis unfolding Call_Tick claim_prog.simps
    by (rule owes_sql)
      (auto simp: claims_keyed_def claim_phi_def claim_closed_def claim_gain_def intro!: exI [of _ 0] owes_Ret)
qed


definition claim_named :: "string \<Rightarrow> claim_row \<Rightarrow> claim_db \<Rightarrow> bool" where
  "claim_named k r0 db \<longleftrightarrow> (\<exists>r. row_of (tg_claims db) k = Some r \<and> terms_of r = terms_of r0)"

definition misdirected :: "string \<Rightarrow> claim_row \<Rightarrow> claim_reply \<Rightarrow> int" where
  "misdirected k r0 a = (case a of
     Took token who r \<Rightarrow> if token = k \<and>
        (lower (or_text_opt who []) \<noteq> lower (cl_to_username r0) \<or> terms_of r \<noteq> terms_of r0) then 1 else 0
   | _ \<Rightarrow> 0)"

lemma terms_username: "terms_of r = terms_of r0 \<Longrightarrow> cl_to_username r = cl_to_username r0"
  by (simp add: terms_of_def)

lemma claim_named_update:
  "(\<And>r. terms_of (f r) = terms_of r) \<Longrightarrow> claim_named k r0 db \<Longrightarrow>
   claim_named k r0 (fst (claim_update token p f db))"
  by (auto simp: claim_named_def claim_update_row)

lemma owes_named_update:
  assumes "\<And>r. terms_of (f r) = terms_of r"
    and "\<And>a. (\<And>r. token = k \<Longrightarrow> a = Some r \<Longrightarrow> terms_of r = terms_of r0) \<Longrightarrow>
       owes (claim_named k r0) (\<lambda>_. 0) w (g a) 0"
  shows "owes (claim_named k r0) (\<lambda>_. 0) w (andthen (sql (claim_update token p f)) g) 0"
proof (rule owes_sql)
  fix db assume I: "claim_named k r0 db"
  then show "claim_named k r0 (fst (claim_update token p f db))" using assms(1) by (rule claim_named_update [rotated])
  have "terms_of r = terms_of r0" if "token = k" "snd (claim_update token p f db) = Some r" for r
    using that I assms(1) by (auto simp: claim_named_def claim_update_answer split: if_splits)
  then show "\<exists>m. owes (claim_named k r0) (\<lambda>_. 0) w (g (snd (claim_update token p f db))) m \<and>
      0 + m \<le> 0 + 0"
    by (intro exI [of _ 0]) (auto intro!: assms(2))
qed simp

lemma owes_named_get:
  assumes "\<And>a. (\<And>r. token = k \<Longrightarrow> a = Some r \<Longrightarrow>
         terms_of r = terms_of r0 \<and> cl_to_username r = cl_to_username r0) \<Longrightarrow>
       owes (claim_named k r0) (\<lambda>_. 0) w (g a) 0"
  shows "owes (claim_named k r0) (\<lambda>_. 0) w (andthen (sql (claim_get token)) g) 0"
proof (rule owes_sql)
  fix db assume I: "claim_named k r0 db"
  show "\<exists>m. owes (claim_named k r0) (\<lambda>_. 0) w (g (snd (claim_get token db))) m \<and> 0 + m \<le> 0 + 0"
    using I by (intro exI [of _ 0]) (auto intro!: assms dest: terms_username simp: claim_named_def)
qed simp_all

lemma owes_named_prog: "owes (claim_named k r0) (\<lambda>_. 0) (misdirected k r0) (claim_prog c x) 0"
proof (cases x)
  case (Call_Create token from_id to symbol amount dec addr)
  show ?thesis unfolding Call_Create claim_prog.simps claim_create_def andthen_assoc
    by (rule owes_sql)
      (auto simp: insert_new_def has_row_def Let_def claim_named_def misdirected_def
        intro!: exI [of _ 0] owes_Ret split: sum.split)
next
  case (Call_Take token who)
  show ?thesis unfolding Call_Take claim_prog.simps take_claim_def claim_finish_def
    by (rule owes_map, intro owes_syntax owes_named_get owes_clock owes_named_update owes_Ret)
      (auto simp: misdirected_def)
next
  case (Call_Cancel token from_id)
  show ?thesis unfolding Call_Cancel claim_prog.simps claim_cancel_def
    by (rule owes_map, intro owes_syntax owes_get owes_named_update owes_Ret)
      (simp_all add: misdirected_def)
next
  case (Call_Failed token)
  show ?thesis unfolding Call_Failed claim_prog.simps mark_failed_def
    by (rule owes_named_update) (auto simp: misdirected_def intro!: owes_Ret)
next
  case (Call_Sent token h)
  show ?thesis unfolding Call_Sent claim_prog.simps record_sent_def
    by (rule owes_named_update) (auto simp: misdirected_def intro!: owes_Ret)
next
  case Call_Sweep
  have "claim_named k r0 (fst (run_prog expire_stale db))" if "claim_named k r0 db" for db
    using that by (auto simp: claim_named_def sweep_row)
  then show ?thesis unfolding Call_Sweep claim_prog.simps expire_stale_def
    by (intro owes_sql) (simp_all add: misdirected_def owes_Ret exI [of _ 0])
next
  case (Call_Tick d)
  show ?thesis unfolding Call_Tick claim_prog.simps
    by (rule owes_sql) (auto simp: claim_named_def misdirected_def intro!: exI [of _ 0] owes_Ret)
qed

lemma pool_settled:
  assumes "pool_runs (db, map (claim_prog c) xs) (db', ps)" and "claims_keyed db"
  shows "claim_phi k db + int (length (filter (settles k) (answers ps))) \<le> claim_phi k db'"
proof -
  have "sum_list (map (claim_gain k) as) = int (length (filter (settles k) as))" for as
    by (induction as) (auto simp: claim_gain_def)
  moreover have "claim_phi k db + sum_list (map (claim_gain k) (answers ps)) \<le> claim_phi k db'"
    using assms by (rule pool_bound(1)) (auto intro: owes_claim_prog)
  ultimately show ?thesis by simp
qed

section \<open>Running one call alone\<close>

lemma take_claim_alone:
  "run_prog (take_claim token who) db =
     (case row_of (tg_claims db) token of
        None \<Rightarrow> (db, Inl Link_Not_Valid)
      | Some r \<Rightarrow>
          if cl_status r = Claimed then (db, Inl Already_Claimed)
          else if cl_status r = Cancelled then (db, Inl Sender_Cancelled)
          else if cl_status r \<noteq> Pending then (db, Inl Link_Expired)
          else if cl_expires_at r \<le> clock db then
            (fst (claim_update token (\<lambda>_. True) (set_status Expired) db), Inl Link_Expired)
          else if lower (or_text_opt who []) \<noteq> lower (cl_to_username r) then
            (db, Inl (Sent_To (cl_to_username r)))
          else (let r' = (set_status Claimed r)\<lparr>cl_updated_at := clock db\<rparr>
                in (db\<lparr>tg_claims := put_row token r' (tg_claims db)\<rparr>, Inr r')))"
  by (simp add: take_claim_def claim_finish_def claim_get_def read_clock_def claim_update_def Let_def
      is_pending_def split: option.split)

lemma claim_cancel_alone:
  "run_prog (claim_cancel token from_id) db =
     (case row_of (tg_claims db) token of
        None \<Rightarrow> (db, Inl Not_Your_Transfer)
      | Some r \<Rightarrow>
          if cl_from_telegram_id r \<noteq> from_id then (db, Inl Not_Your_Transfer)
          else if cl_status r = Claimed then (db, Inl Too_Late)
          else if cl_status r \<noteq> Pending then (db, Inl No_Longer_Pending)
          else (let r' = (set_status Cancelled r)\<lparr>cl_updated_at := clock db\<rparr>
                in (db\<lparr>tg_claims := put_row token r' (tg_claims db)\<rparr>, Inr r')))"
  by (simp add: claim_cancel_def claim_get_def claim_update_def Let_def is_pending_def
      split: option.split)

section \<open>Properties\<close>

text \<open>C6: however the statements of any number of takes, cancels, sweeps, failures and other
  calls interleave, a claim is settled at most once: of all the answers, at most one says that
  it was claimed, that its sender took it back, or that it was swept as stale.\<close>

theorem claim_settled_once:
  assumes "pool_runs (db, map (claim_prog c) xs) (db', ps)" and "keyed (tg_claims db)"
  shows "length (filter (settles k) (answers ps)) \<le> 1"
proof -
  have "claims_keyed db" using assms(2) by (simp add: claims_keyed_def)
  from pool_settled [OF assms(1) this, of k] show ?thesis
    by (simp add: claim_phi_def split: if_splits)
qed

definition sample_claim :: claim_row where
  "sample_claim = \<lparr>cl_from_telegram_id = 1, cl_to_username = ''ann'', cl_token_address = None,
     cl_symbol = ''ETH'', cl_amount_base = 5, cl_decimals = 18, cl_status = Pending,
     cl_tx_hash = None, cl_created_at = 0, cl_expires_at = 100, cl_updated_at = 0\<rparr>"

definition sample_claims :: claim_db where
  "sample_claims = \<lparr>clock = 10, tg_claims = [(''tk'', sample_claim)]\<rparr>"

lemma sample_claim_sels [simp]:
  "cl_from_telegram_id sample_claim = 1" "cl_to_username sample_claim = ''ann''"
  "cl_status sample_claim = Pending" "cl_expires_at sample_claim = 100"
  "is_pending sample_claim" "cl_amount_base sample_claim = 5"
  "clock sample_claims = 10" "row_of (tg_claims sample_claims) ''tk'' = Some sample_claim"
  "keyed (tg_claims sample_claims)"
  by (simp_all add: sample_claim_def sample_claims_def is_pending_def keyed_def)

lemma lower_ann: "lower ''Ann'' = ''ann''" "lower ''ann'' = ''ann''" "lower ''Bob'' = ''bob''"
  by code_simp+

text \<open>Two taps on one link and a cancel, their statements alternating.\<close>

definition two_taps_one_cancel :: "claim_call list" where
  "two_taps_one_cancel =
     [Call_Take ''tk'' (Some ''Ann''), Call_Take ''tk'' (Some ''ann''), Call_Cancel ''tk'' 1]"

theorem claim_settled_once_witness:
  "length (filter (settles ''tk'') (answers (snd (schedule [0, 1, 0, 1, 1, 0, 2, 2]
     (sample_claims, map (claim_prog default_settings) two_taps_one_cancel))))) \<le> 1"
proof -
  obtain db' ps where s: "schedule [0, 1, 0, 1, 1, 0, 2, 2]
      (sample_claims, map (claim_prog default_settings) two_taps_one_cancel) = (db', ps)"
    by fastforce
  have "pool_runs (sample_claims, map (claim_prog default_settings) two_taps_one_cancel) (db', ps)"
    using schedule_runs [of _ "[0, 1, 0, 1, 1, 0, 2, 2]"] s by metis
  from claim_settled_once [OF this, of "''tk''"] show ?thesis unfolding s by simp
qed

text \<open>A claim only ever goes to the handle its sender named. In any interleaving of any
  calls, whoever is answered that they took a claim holds that handle, up to case, and gets
  the sender, token and amount of the claim as it was created.\<close>

theorem claim_goes_to_named_handle:
  assumes "pool_runs (db, map (claim_prog c) xs) (db', ps)"
    and "row_of (tg_claims db) k = Some r0" and "Took k who r \<in> set (answers ps)"
  shows "lower (or_text_opt who []) = lower (cl_to_username r0) \<and> terms_of r = terms_of r0"
proof -
  have "sum_list (map (misdirected k r0) (answers ps)) \<le> 0"
    using pool_bound(1) [OF assms(1), of "claim_named k r0" "\<lambda>_. 0" "misdirected k r0"]
      assms(2) owes_named_prog by (auto simp: claim_named_def)
  moreover have "0 \<le> misdirected k r0 a" for a
    by (simp add: misdirected_def split: claim_reply.split)
  then have "misdirected k r0 (Took k who r) \<le> sum_list (map (misdirected k r0) (answers ps))"
    using assms(3) by (intro member_le_sum_list_int)
  ultimately have "misdirected k r0 (Took k who r) \<le> 0" by linarith
  then show ?thesis by (auto simp: misdirected_def split: if_splits)
qed

theorem claim_goes_to_named_handle_witness:
  "\<exists>db' ps. pool_runs (sample_claims, map (claim_prog default_settings)
       [Call_Take ''tk'' (Some ''Bob''), Call_Take ''tk'' (Some ''Ann'')]) (db', ps) \<and>
     answers ps = [Refused (Sent_To ''ann''), Took ''tk'' (Some ''Ann'')
        (sample_claim\<lparr>cl_status := Claimed, cl_updated_at := 10\<rparr>)] \<and>
     terms_of (sample_claim\<lparr>cl_status := Claimed, cl_updated_at := 10\<rparr>) = terms_of sample_claim"
proof -
  let ?c = "(sample_claims, map (claim_prog default_settings)
       [Call_Take ''tk'' (Some ''Bob''), Call_Take ''tk'' (Some ''Ann'')])"
  let ?r = "sample_claim\<lparr>cl_status := Claimed, cl_updated_at := 10\<rparr>"
  obtain db' ps where s: "schedule [0, 0, 1, 1, 1] ?c = (db', ps)" by fastforce
  have runs: "pool_runs ?c (db', ps)" using schedule_runs [of ?c "[0, 0, 1, 1, 1]"] s by metis
  have "answers (snd (schedule [0, 0, 1, 1, 1] ?c)) =
      [Refused (Sent_To ''ann''), Took ''tk'' (Some ''Ann'') ?r]"
    using lower_ann
    by (simp add: take_claim_def andthen_sql claim_update_def or_text_opt_def set_status_def Let_def)
  then have a: "answers ps = [Refused (Sent_To ''ann''), Took ''tk'' (Some ''Ann'') ?r]"
    unfolding s by simp
  have "terms_of ?r = terms_of sample_claim"
    using claim_goes_to_named_handle [OF runs, of "''tk''" sample_claim "Some ''Ann''" ?r] a by simp
  with runs a show ?thesis by blast
qed

text \<open>Once a transfer failed, its link is dead: whatever calls follow, in any interleaving,
  nobody can take the claim, take it back or have it swept.\<close>

theorem failed_claim_stays_dead:
  assumes "row_of (tg_claims db) k \<noteq> None" and "keyed (tg_claims db)"
    and "pool_runs (fst (run_prog (mark_failed k) db), map (claim_prog c) xs) (db', ps)"
    and "a \<in> set (answers ps)"
  shows "\<not> settles k a"
proof -
  let ?db = "fst (run_prog (mark_failed k) db)"
  have "claims_keyed ?db" using assms(2) by (simp add: claims_keyed_def mark_failed_def)
  moreover have "claim_phi k ?db = 1"
    using assms(1) by (auto simp: claim_phi_def claim_closed_def mark_failed_def claim_update_row)
  ultimately have "length (filter (settles k) (answers ps)) = 0"
    using pool_settled [OF assms(3), of k] by (simp add: claim_phi_def split: if_splits)
  with assms(4) show ?thesis by (auto simp: filter_empty_conv)
qed

theorem failed_claim_stays_dead_witness:
  "\<not> settles ''tk'' (snd (run_prog (claim_prog default_settings (Call_Take ''tk'' (Some ''ann'')))
       (fst (run_prog (mark_failed ''tk'') sample_claims)))) \<and>
   snd (run_prog (take_claim ''tk'' (Some ''ann'')) (fst (run_prog (mark_failed ''tk'') sample_claims)))
     = Inl Link_Expired"
proof
  let ?db = "fst (run_prog (mark_failed ''tk'') sample_claims)"
  let ?x = "claim_prog default_settings (Call_Take ''tk'' (Some ''ann''))"
  obtain db' ps where s: "schedule [0, 0, 0] (?db, map (claim_prog default_settings)
      [Call_Take ''tk'' (Some ''ann'')]) = (db', ps)" by fastforce
  have runs: "pool_runs (?db, map (claim_prog default_settings) [Call_Take ''tk'' (Some ''ann'')]) (db', ps)"
    using schedule_runs [of "(?db, map (claim_prog default_settings) [Call_Take ''tk'' (Some ''ann'')])"
        "[0, 0, 0]"] s by metis
  show "snd (run_prog (take_claim ''tk'' (Some ''ann'')) ?db) = Inl Link_Expired"
    by (simp add: take_claim_alone mark_failed_def claim_update_row)
  have row: "row_of (tg_claims ?db) ''tk'' = Some ((set_status Failed sample_claim)\<lparr>cl_updated_at := 10\<rparr>)"
    by (simp add: mark_failed_def claim_update_row)
  have "answers (snd (schedule [0, 0, 0] (?db, map (claim_prog default_settings)
      [Call_Take ''tk'' (Some ''ann'')]))) = [snd (run_prog ?x ?db)]"
    by (simp add: take_claim_def andthen_sql row)
  then have "snd (run_prog ?x ?db) \<in> set (answers ps)" unfolding s by simp
  from failed_claim_stays_dead [OF _ _ runs this] show "\<not> settles ''tk'' (snd (run_prog ?x ?db))"
    by simp
qed

text \<open>\<open>take\<close> run alone: it succeeds exactly when the claim is there and pending, has not
  expired and is for the caller's handle, and then only marks that row claimed. When it is
  refused nothing changes, except that a pending claim found past its time is marked expired.\<close>

theorem take_alone_spec:
  assumes "run_prog (take_claim token who) db = (db', res)"
  defines "ok \<equiv> \<exists>r. row_of (tg_claims db) token = Some r \<and> cl_status r = Pending \<and>
       clock db < cl_expires_at r \<and> lower (or_text_opt who []) = lower (cl_to_username r)"
  shows "((\<exists>r. res = Inr r) \<longleftrightarrow> ok) \<and>
    (\<forall>k. row_of (tg_claims db') k =
       (if ok \<and> k = token
        then map_option (\<lambda>r. (set_status Claimed r)\<lparr>cl_updated_at := clock db\<rparr>) (row_of (tg_claims db) k)
        else map_option (\<lambda>r. if k = token \<and> is_stale (clock db) r
               then (set_status Expired r)\<lparr>cl_updated_at := clock db\<rparr> else r)
               (row_of (tg_claims db) k)))"
proof (cases "row_of (tg_claims db) token")
  case None
  then show ?thesis
    using assms(1) by (auto simp: ok_def take_claim_alone map_option_case split: option.splits)
next
  case (Some r)
  then show ?thesis
    using assms(1)
    by (cases "cl_status r")
      (auto simp: ok_def take_claim_alone is_stale_def is_pending_def claim_update_row Let_def
        map_option_case split: if_splits option.splits)
qed

theorem take_alone_spec_witness:
  "\<exists>db' r. run_prog (take_claim ''tk'' (Some ''Ann'')) sample_claims = (db', Inr r) \<and>
     row_of (tg_claims db') ''tk'' =
       Some ((set_status Claimed sample_claim)\<lparr>cl_updated_at := 10\<rparr>)"
proof -
  obtain db' res where t: "run_prog (take_claim ''tk'' (Some ''Ann'')) sample_claims = (db', res)"
    by fastforce
  from take_alone_spec [OF t] show ?thesis using t lower_ann by (auto simp: or_text_opt_def)
qed

text \<open>What a sender creates for a handle can be taken by whoever holds the handle, written
  with or without the at sign and in any case, until seven days have passed: \<open>take\<close> answers
  the amount, the token and the sender as given.\<close>

theorem create_then_take:
  assumes "run_prog (claim_create c token from_id handle symbol amount dec addr) db = (db1, Inr res)"
    and "lower who = lower (lstrip_chars ''@'' handle)" "who \<noteq> []"
    and "db2 = db1\<lparr>clock := clock db + passed\<rparr>" "passed < days 7"
  shows "\<exists>db3 r. run_prog (take_claim token (Some who)) db2 = (db3, Inr r) \<and>
     cl_amount_base r = amount \<and> cl_symbol r = symbol \<and> cl_decimals r = dec \<and>
     cl_token_address r = addr \<and> cl_from_telegram_id r = from_id \<and> cl_status r = Claimed"
proof -
  let ?r = "\<lparr>cl_from_telegram_id = from_id, cl_to_username = lower (lstrip_chars ''@'' handle),
     cl_token_address = addr, cl_symbol = symbol, cl_amount_base = amount, cl_decimals = dec,
     cl_status = Pending, cl_tx_hash = None, cl_created_at = clock db,
     cl_expires_at = clock db + days CLAIM_TTL_DAYS, cl_updated_at = clock db\<rparr>"
  have "row_of (tg_claims db2) token = Some ?r"
    using assms(1,4) by (auto simp: claim_create_def insert_new_def Let_def split: if_splits)
  then show ?thesis
    using assms(2-5) by (simp add: take_claim_alone Let_def CLAIM_TTL_DAYS_def or_text_opt_def)
qed

theorem create_then_take_witness:
  "\<exists>db3 r. run_prog (take_claim ''t1'' (Some ''Ann''))
      ((fst (run_prog (claim_create default_settings ''t1'' 1 ''@ann'' ''ETH'' 5 18 None) sample_claims))
         \<lparr>clock := 10 + days 6\<rparr>) = (db3, Inr r) \<and> cl_amount_base r = 5"
proof -
  have c: "run_prog (claim_create default_settings ''t1'' 1 ''@ann'' ''ETH'' 5 18 None) sample_claims =
      (fst (run_prog (claim_create default_settings ''t1'' 1 ''@ann'' ''ETH'' 5 18 None) sample_claims),
       Inr (''t1'', claim_link default_settings ''t1''))"
    by (simp add: claim_create_def insert_new_def has_row_def Let_def sample_claims_def)
  have "lower ''Ann'' = lower (lstrip_chars ''@'' ''@ann'')"
    using lower_ann by (simp add: lstrip_chars_def lstrip_where_def)
  from create_then_take [OF c this _ refl, of "days 6"] show ?thesis by (auto simp: time_simps)
qed

text \<open>A cancel succeeds exactly for the sender's own claim while it is still pending; a
  claim somebody else took first is reported as taken, and a claim of another sender as not
  theirs, with nothing changed.\<close>

theorem cancel_alone_spec:
  "snd (run_prog (claim_cancel token from_id) db) =
     (case row_of (tg_claims db) token of
        None \<Rightarrow> Inl Not_Your_Transfer
      | Some r \<Rightarrow> if cl_from_telegram_id r \<noteq> from_id then Inl Not_Your_Transfer
          else case cl_status r of
            Pending \<Rightarrow> Inr ((set_status Cancelled r)\<lparr>cl_updated_at := clock db\<rparr>)
          | Claimed \<Rightarrow> Inl Too_Late
          | _ \<Rightarrow> Inl No_Longer_Pending) \<and>
   (\<forall>e. snd (run_prog (claim_cancel token from_id) db) = Inl e \<longrightarrow>
        fst (run_prog (claim_cancel token from_id) db) = db)"
  by (auto simp: claim_cancel_alone Let_def split: option.split claim_status.split if_splits)

theorem cancel_alone_spec_witness:
  "fst (run_prog (claim_cancel ''tk'' 2) sample_claims) = sample_claims"
  using cancel_alone_spec [of "''tk''" 2 sample_claims] by simp

text \<open>Marking a claim expired is not conditional, so it can undo a claim. When one caller
  checks the time just before a pending claim expires and another one just after, the first is
  answered that the claim is theirs, with its money to send, and the row still ends as expired.\<close>

theorem claimed_then_marked_expired:
  assumes "row_of (tg_claims db) k = Some r" and "cl_status r = Pending"
    and "clock db < cl_expires_at r" and "lower (or_text_opt who []) = lower (cl_to_username r)"
  shows "\<exists>db' ps r'. pool_runs (db, map (claim_prog c)
        [Call_Take k who, Call_Take k who2, Call_Tick (cl_expires_at r - clock db)]) (db', ps) \<and>
     (\<exists>r''. Took k who r'' \<in> set (answers ps)) \<and>
     row_of (tg_claims db') k = Some r' \<and> cl_status r' = Expired"
proof -
  let ?c = "(db, map (claim_prog c)
        [Call_Take k who, Call_Take k who2, Call_Tick (cl_expires_at r - clock db)])"
  let ?js = "[0, 0, 2, 1, 1, 0, 1]"
  have run: "pool_runs ?c (fst (schedule ?js ?c), snd (schedule ?js ?c))"
    using schedule_runs [of ?c ?js] by simp
  have "\<exists>r''. Took k who r'' \<in> set (answers (snd (schedule ?js ?c)))"
    using assms by (simp add: take_claim_def claim_finish_def andthen_sql claim_update_answer
        is_pending_def)
  moreover have "\<exists>r'. row_of (tg_claims (fst (schedule ?js ?c))) k = Some r' \<and> cl_status r' = Expired"
    using assms by (simp add: take_claim_def claim_finish_def andthen_sql claim_update_answer
        claim_update_row is_pending_def)
  ultimately show ?thesis using run by blast
qed

theorem claimed_then_marked_expired_witness:
  "\<exists>db' ps r'. pool_runs (sample_claims, map (claim_prog default_settings)
        [Call_Take ''tk'' (Some ''ann''), Call_Take ''tk'' None, Call_Tick 90]) (db', ps) \<and>
     row_of (tg_claims db') ''tk'' = Some r' \<and> cl_status r' = Expired"
  using claimed_then_marked_expired [of sample_claims "''tk''" sample_claim "Some ''ann''"
      default_settings None] lower_ann by (fastforce simp: or_text_opt_def)

end
