(* ===== verification/Subscription_Store.thy ===== *)
theory Subscription_Store
  imports Settings
begin

text \<open>
  The paid months of \<open>app/services/subscriptions.py\<close>: the table \<open>tg_subscriptions\<close>,
  reading it, extending it by a month and summing it up. Paying for a month is in
  theory \<open>Payments\<close>.

  Dollar amounts are the exact decimal numbers the database's NUMERIC columns hold.
\<close>

section \<open>The subscription value and its clock\<close>

record subscription =
  scope_id :: int
  expires_at :: usec
  months :: int
  paid_usd :: rat

definition live :: "usec \<Rightarrow> subscription \<Rightarrow> bool" where
  "live now s \<longleftrightarrow> expires_at s > now"

text \<open>\<open>timedelta.days\<close> is the floor of the difference in days.\<close>

definition days_left :: "usec \<Rightarrow> subscription \<Rightarrow> int" where
  "days_left now s = max ((expires_at s - now) div days 1) 0"

section \<open>The table\<close>

record sub_row =
  sr_telegram_id :: int
  sr_is_group :: bool
  sr_expires_at :: usec
  sr_paid_wei :: int
  sr_paid_usd :: rat
  sr_months :: int

type_synonym sub_table = "(int, sub_row) table"

definition to_subscription :: "int \<Rightarrow> sub_row \<Rightarrow> subscription" where
  "to_subscription sid r =
     \<lparr>scope_id = sid, expires_at = sr_expires_at r, months = sr_months r, paid_usd = sr_paid_usd r\<rparr>"

definition sub_get :: "int \<Rightarrow> sub_table \<Rightarrow> subscription option" where
  "sub_get sid t = map_option (to_subscription sid) (row_of t sid)"

definition is_live :: "usec \<Rightarrow> int \<Rightarrow> sub_table \<Rightarrow> bool" where
  "is_live now sid t = (case sub_get sid t of None \<Rightarrow> False | Some s \<Rightarrow> live now s)"

text \<open>
  \<open>extend\<close>: one upsert. A new row expires \<open>days\<close> from now; an existing one is extended
  from whichever is later, now or what is already paid for.
\<close>

definition extend_sub ::
  "settings \<Rightarrow> usec \<Rightarrow> int \<Rightarrow> int \<Rightarrow> bool \<Rightarrow> int \<Rightarrow> rat \<Rightarrow> int option \<Rightarrow> sub_table
    \<Rightarrow> sub_table \<times> subscription" where
  "extend_sub c now sid tid grp wei usd ds t =
     (let d = days (or_int ds (OPRAI_TG_SUB_DAYS c));
          row' = (case row_of t sid of
              None \<Rightarrow> \<lparr>sr_telegram_id = tid, sr_is_group = grp, sr_expires_at = now + d,
                       sr_paid_wei = wei, sr_paid_usd = usd, sr_months = 1\<rparr>
            | Some r \<Rightarrow> r\<lparr>sr_expires_at := max (sr_expires_at r) now + d,
                          sr_paid_wei := sr_paid_wei r + wei,
                          sr_paid_usd := sr_paid_usd r + usd,
                          sr_months := sr_months r + 1,
                          sr_telegram_id := tid\<rparr>)
      in (put_row sid row' t, to_subscription sid row'))"

record revenue_report =
  rv_subscribers :: nat
  rv_live :: nat
  rv_eth :: rat
  rv_usd :: rat
  rv_months :: int

definition revenue :: "usec \<Rightarrow> sub_table \<Rightarrow> revenue_report" where
  "revenue now t =
     \<lparr>rv_subscribers = length t,
      rv_live = length (filter (\<lambda>(_, r). sr_expires_at r > now) t),
      rv_eth = of_int (sum_list (map (sr_paid_wei \<circ> snd) t)) / 10 ^ 18,
      rv_usd = sum_list (map (sr_paid_usd \<circ> snd) t),
      rv_months = sum_list (map (sr_months \<circ> snd) t)\<rparr>"

section \<open>Lemmas\<close>

lemma sub_get_empty [simp]: "sub_get sid [] = None"
  by (simp add: sub_get_def)

lemma is_live_row: "is_live now sid t \<longleftrightarrow> (\<exists>r. row_of t sid = Some r \<and> sr_expires_at r > now)"
  by (auto simp: is_live_def sub_get_def to_subscription_def live_def split: option.split)

lemma extend_sub_get_self: "sub_get sid (fst (extend_sub c now sid tid grp wei usd ds t)) =
    Some (snd (extend_sub c now sid tid grp wei usd ds t))"
  by (simp add: extend_sub_def sub_get_def Let_def)

lemma extend_sub_get_other [simp]:
  "sid' \<noteq> sid \<Longrightarrow> row_of (fst (extend_sub c now sid tid grp wei usd ds t)) sid' = row_of t sid'"
  by (simp add: extend_sub_def Let_def)

lemma extend_sub_keyed: "keyed t \<Longrightarrow> keyed (fst (extend_sub c now sid tid grp wei usd ds t))"
  by (simp add: extend_sub_def Let_def)

lemma extend_sub_months:
  "months (snd (extend_sub c now sid tid grp wei usd ds t)) =
     (case sub_get sid t of None \<Rightarrow> 1 | Some s \<Rightarrow> months s + 1)"
  by (auto simp: extend_sub_def sub_get_def to_subscription_def Let_def split: option.split)

lemma extend_sub_expiry:
  "expires_at (snd (extend_sub c now sid tid grp wei usd ds t)) =
     (case sub_get sid t of None \<Rightarrow> now | Some s \<Rightarrow> max (expires_at s) now)
       + days (or_int ds (OPRAI_TG_SUB_DAYS c))"
  by (auto simp: extend_sub_def sub_get_def to_subscription_def Let_def split: option.split)

lemma sum_list_put_row:
  fixes f :: "'r \<Rightarrow> 'b::ab_group_add"
  shows "keyed t \<Longrightarrow> sum_list (map (f \<circ> snd) (put_row k r t)) =
     sum_list (map (f \<circ> snd) t) + f r - (case row_of t k of None \<Rightarrow> 0 | Some r' \<Rightarrow> f r')"
proof (induction t)
  case Nil
  then show ?case by (simp add: put_row_def)
next
  case (Cons p t)
  obtain k' r' where p: "p = (k', r')" by fastforce
  have kt: "keyed t" using Cons.prems by (simp add: keyed_def)
  show ?case
    using Cons.IH [OF kt] p by (simp add: put_row_def algebra_simps)
qed

lemma length_put_row:
  "length (put_row k r t) = (if has_row t k then length t else Suc (length t))"
  by (induction t) (auto simp: put_row_def has_row_def)

end
