(* ===== verification/Payments.thy ===== *)
theory Payments
  imports Portfolio Subscription_Store Interleave
begin

text \<open>
  Paying for a month, the second half of \<open>app/services/subscriptions.py\<close>: the intents in
  \<open>tg_topups\<close>, \<open>pay\<close>, and the reconciler \<open>settle_pending\<close>. Both are programs of atomic steps
  (theory \<open>Interleave\<close>), where a step is one SQL statement or one exchange with the node or
  the signer, so that payments and the reconciler may run into each other anywhere.

  The callback \<open>on_sent\<close> (a chat message) is left out. \<open>eth\<close> stands for
  \<open>Decimal(str(eth))\<close>; random keys are arguments; a dash of a message is ASCII here.
\<close>

section \<open>State\<close>

datatype topup_status = Top_Sending | Top_Pending | Top_Credited | Top_Failed

record topup_row =
  tu_scope_id :: int
  tu_telegram_id :: int
  tu_oprai_wei :: int
  tu_credits :: int
  tu_status :: topup_status
  tu_usd :: "rat option"
  tu_wallet :: "string option"
  tu_from_block :: "int option"
  tu_created_at :: usec

record pay_state = wallet_state +
  tg_topups :: "(string, topup_row) table"
  tg_subscriptions :: sub_table

type_synonym 'a payer = "(pay_state, exn + 'a) prog"

text \<open>Sequencing where an exception ends the program.\<close>

definition then_do :: "('s, exn + 'a) prog \<Rightarrow> ('a \<Rightarrow> ('s, exn + 'b) prog) \<Rightarrow> ('s, exn + 'b) prog" where
  "then_do p f = andthen p (\<lambda>r. case r of Inl e \<Rightarrow> Ret (Inl e) | Inr a \<Rightarrow> f a)"

definition is_open :: "topup_row \<Rightarrow> bool" where
  "is_open r \<longleftrightarrow> tu_status r = Top_Sending \<or> tu_status r = Top_Pending"

section \<open>Statements\<close>

definition in_flight :: "outside \<Rightarrow> int \<Rightarrow> pay_state \<Rightarrow> pay_state \<times> bool" where
  "in_flight env sid w =
     (w, rows_where (\<lambda>_ r. tu_scope_id r = sid \<and> is_open r \<and>
            tu_created_at r > utc_now env w - minutes 10) (tg_topups w) \<noteq> [])"

definition insert_topup :: "string \<Rightarrow> topup_row \<Rightarrow> pay_state \<Rightarrow> pay_state \<times> (exn + string)" where
  "insert_topup key r w =
     (if has_row (tg_topups w) key then (w, Inl UniqueViolation)
      else (w\<lparr>tg_topups := put_row key r (tg_topups w)\<rparr>, Inr key))"

text \<open>
  \<open>_attach_hash\<close> changes the primary key: the row moves under the hash, and another row there
  makes the statement raise.
\<close>

definition attach_row :: "string \<Rightarrow> string \<Rightarrow> pay_state \<Rightarrow> pay_state \<times> (exn + string)" where
  "attach_row key h w =
     (case row_of (tg_topups w) key of
        None \<Rightarrow> (w, Inr h)
      | Some r \<Rightarrow>
          if h \<noteq> key \<and> has_row (tg_topups w) h then (w, Inl UniqueViolation)
          else (w\<lparr>tg_topups := put_row h (r\<lparr>tu_status := Top_Pending\<rparr>) (drop_row key (tg_topups w))\<rparr>,
                Inr h))"

definition attach_hash :: "string \<Rightarrow> json \<Rightarrow> string payer" where
  "attach_hash key h =
     (case h of JStr s \<Rightarrow> sql (attach_row key (lower s)) | _ \<Rightarrow> Ret (Inl AttributeError))"

definition close_row :: "string \<Rightarrow> topup_status \<Rightarrow> pay_state \<Rightarrow> pay_state \<times> bool" where
  "close_row key st w =
     (case row_of (tg_topups w) key of
        None \<Rightarrow> (w, False)
      | Some r \<Rightarrow>
          if is_open r
          then (w\<lparr>tg_topups := put_row key (r\<lparr>tu_status := st\<rparr>) (tg_topups w)\<rparr>, True)
          else (w, False))"

definition extend_stmt ::
  "settings \<Rightarrow> outside \<Rightarrow> int \<Rightarrow> int \<Rightarrow> bool \<Rightarrow> int \<Rightarrow> rat \<Rightarrow> pay_state \<Rightarrow> pay_state \<times> subscription" where
  "extend_stmt c env sid tid grp wei usd w =
     (let (t, s) = extend_sub c (utc_now env w) sid tid grp wei usd None (tg_subscriptions w)
      in (w\<lparr>tg_subscriptions := t\<rparr>, s))"

section \<open>Paying\<close>

definition payment_request :: "settings \<Rightarrow> int \<Rightarrow> provider_tx" where
  "payment_request c want =
     \<lparr>pt_chainId = JInt CHAIN_ID, pt_to = Some (treasury_wallet c), pt_data = Some ''0x'',
      pt_value = JStr (hex want), pt_gas = JNull, pt_gasLimit = JNull, pt_maxFeePerGas = JNull,
      pt_maxPriorityFeePerGas = JNull\<rparr>"

definition as_subscription_error :: "exn \<Rightarrow> exn" where
  "as_subscription_error e =
     (case e of EvmError m \<Rightarrow> SubscriptionError m | SignerError m \<Rightarrow> SubscriptionError m | _ \<Rightarrow> e)"

definition short_message :: "int \<Rightarrow> string \<Rightarrow> string" where
  "short_message missing address =
     ''This wallet is '' @ fixed_text False 6 (dec28 (of_int missing / 10 ^ 18)) @
     '' ETH short of the subscription plus gas.'' @ [CHR 0x0A, CHR 0x0A] @
     ''Send a little to <code>'' @ address @ ''</code> and try again.''"

definition open_intent ::
  "settings \<Rightarrow> outside \<Rightarrow> string \<Rightarrow> int \<Rightarrow> int \<Rightarrow> string \<Rightarrow> int \<Rightarrow> rat \<Rightarrow> string payer" where
  "open_intent c env uuid sid tid wallet wei usd =
     then_do (sql (try_except
                (bind (rpc c env ''eth_blockNumber'' [] CHAIN_ID) (\<lambda>r. from_sum (to_int r 0)))
                (\<lambda>e. if is_evm_error e then return 0 else throw e))) (\<lambda>block.
       sql (\<lambda>w. insert_topup (''sending:'' @ uuid)
              \<lparr>tu_scope_id = sid, tu_telegram_id = tid, tu_oprai_wei = wei, tu_credits = 0,
               tu_status = Top_Sending, tu_usd = Some usd, tu_wallet = Some (lower wallet),
               tu_from_block = Some block, tu_created_at = utc_now env w\<rparr> w))"

definition want_wei :: "rat \<Rightarrow> int" where
  "want_wei eth = py_int (dec28 (eth * 10 ^ 18))"

text \<open>From the broadcast on: record the hash, wait, and grant the month if this call closes the
  intent.\<close>

definition after_send ::
  "settings \<Rightarrow> outside \<Rightarrow> int \<Rightarrow> int \<Rightarrow> bool \<Rightarrow> int \<Rightarrow> rat \<Rightarrow> string \<Rightarrow> json
    \<Rightarrow> subscription option payer" where
  "after_send c env tid sid grp want usd key tx_hash =
     then_do (attach_hash key tx_hash) (\<lambda>intent.
     then_do (sql (wait_receipt c env tx_hash (seconds 60) CHAIN_ID)) (\<lambda>receipt.
       case receipt of
         None \<Rightarrow> Ret (Inl (SubscriptionError
           (''Your payment is sent but hasn't confirmed yet. The month starts as soon as it '' @
            ''does - check /subscription in a moment.'')))
       | Some r \<Rightarrow>
           then_do (sql (from_sum (receipt_succeeded r))) (\<lambda>ok.
             if \<not> ok then
               andthen (sql (close_row intent Top_Failed)) (\<lambda>_.
                 Ret (Inl (SubscriptionError
                   (''The payment didn't go through, so nothing was charged. '' @
                    ''Try again in a moment.''))))
             else
               andthen (sql (close_row intent Top_Credited)) (\<lambda>won.
                 if won then
                   andthen (sql (extend_stmt c env sid tid grp want usd)) (\<lambda>s. Ret (Inr (Some s)))
                 else sql (\<lambda>w. (w, Inr (sub_get sid (tg_subscriptions w))))))))"

definition send_payment ::
  "settings \<Rightarrow> outside \<Rightarrow> int \<Rightarrow> int \<Rightarrow> bool \<Rightarrow> int \<Rightarrow> rat \<Rightarrow> string \<Rightarrow> tx \<Rightarrow> string
    \<Rightarrow> subscription option payer" where
  "send_payment c env tid sid grp want usd enc_key_ref t key =
     andthen (sql (sign_and_send c env enc_key_ref t)) (\<lambda>sent.
       case sent of
         Inr tx_hash \<Rightarrow> after_send c env tid sid grp want usd key tx_hash
       | Inl e \<Rightarrow>
           if as_subscription_error e = e then Ret (Inl e)
           else andthen (sql (close_row key Top_Failed))
                  (\<lambda>_. Ret (Inl (as_subscription_error e))))"

definition pay ::
  "settings \<Rightarrow> outside \<Rightarrow> string \<Rightarrow> int \<Rightarrow> int \<Rightarrow> bool \<Rightarrow> rat \<Rightarrow> rat \<Rightarrow> subscription option payer" where
  "pay c env uuid tid sid grp eth usd =
     then_do (sql (wallet_address c env tid)) (\<lambda>address.
     andthen (sql (in_flight env sid)) (\<lambda>busy.
       if busy then Ret (Inl (SubscriptionError
         (''A payment for this is already going through. Give it a moment - '' @
          ''check /subscription rather than paying twice.'')))
       else
         then_do (sql (try_except
             (build_tx_from_provider c env address (payment_request c (want_wei eth)) None)
             (\<lambda>e. if is_evm_error e then throw (as_subscription_error e) else throw e))) (\<lambda>t.
         then_do (sql (native_balance c env tid)) (\<lambda>held.
           case tx_cost_wei t of
             None \<Rightarrow> Ret (Inl ValueError)
           | Some cost \<Rightarrow>
               if nv_wei held < want_wei eth + cost then
                 Ret (Inl (SubscriptionError
                   (short_message (want_wei eth + cost - nv_wei held) address)))
               else
                 then_do (sql (get_or_create_wallet c env tid)) (\<lambda>wr.
                 then_do (open_intent c env uuid sid tid address (want_wei eth) usd) (\<lambda>key.
                   send_payment c env tid sid grp (want_wei eth) usd (wr_enc_key_ref wr) t key))))))"

section \<open>The reconciler\<close>

definition GIVE_UP_MINUTES :: int where "GIVE_UP_MINUTES = 30"
definition MAX_SCAN_BLOCKS :: int where "MAX_SCAN_BLOCKS = 5000"

text \<open>\<open>(tx.get(k) or "").lower()\<close>.\<close>

definition lower_field :: "string \<Rightarrow> json \<Rightarrow> exn + string" where
  "lower_field k j =
     (case field k j of
        Inl e \<Rightarrow> Inl e
      | Inr v \<Rightarrow> if \<not> truthy v then Inr []
                 else (case v of JStr s \<Rightarrow> Inr (lower s) | _ \<Rightarrow> Inl AttributeError))"

text \<open>The transactions of one block: the first that matches answers its hash field.\<close>

fun match_txs :: "string \<Rightarrow> string \<Rightarrow> int \<Rightarrow> json list \<Rightarrow> exn + json option" where
  "match_txs wallet treasury want [] = Inr None"
| "match_txs wallet treasury want (t # ts) =
     (case lower_field ''from'' t of
        Inl e \<Rightarrow> Inl e
      | Inr from_addr \<Rightarrow>
          if from_addr \<noteq> wallet then match_txs wallet treasury want ts
          else (case lower_field ''to'' t of
            Inl e \<Rightarrow> Inl e
          | Inr to \<Rightarrow>
              if to \<noteq> treasury then match_txs wallet treasury want ts
              else (case field ''value'' t of
                Inl e \<Rightarrow> Inl e
              | Inr v \<Rightarrow> (case to_int v 0 of
                    Inl e \<Rightarrow> Inl e
                  | Inr n \<Rightarrow> if n \<noteq> want then match_txs wallet treasury want ts
                             else (case field ''hash'' t of
                               Inl e \<Rightarrow> Inl e | Inr h \<Rightarrow> Inr (Some h))))))"

definition match_block :: "string \<Rightarrow> string \<Rightarrow> int \<Rightarrow> json \<Rightarrow> exn + json option" where
  "match_block wallet treasury want block =
     (case field ''transactions'' (j_or block (JObj [])) of
        Inl e \<Rightarrow> Inl e
      | Inr v \<Rightarrow> (case v of
          JArr txs \<Rightarrow> match_txs wallet treasury want txs
        | _ \<Rightarrow> if truthy v then Inl TypeError else Inr None))"

text \<open>Any \<open>EvmError\<close> while reading blocks ends the search with nothing.\<close>

primrec scan_blocks ::
  "settings \<Rightarrow> outside \<Rightarrow> string \<Rightarrow> string \<Rightarrow> int \<Rightarrow> int list \<Rightarrow> ('z world_scheme, json) io" where
  "scan_blocks c env wallet treasury want [] = return JNull"
| "scan_blocks c env wallet treasury want (n # ns) =
     bind (try_except
             (bind (rpc c env ''eth_getBlockByNumber'' [JStr (hex n), JBool True] CHAIN_ID)
                (\<lambda>b. return (Some b)))
             (\<lambda>e. if is_evm_error e then return None else throw e)) (\<lambda>b.
       case b of
         None \<Rightarrow> return JNull
       | Some block \<Rightarrow>
           bind (from_sum (match_block wallet treasury want block)) (\<lambda>found.
             case found of
               Some h \<Rightarrow> return h
             | None \<Rightarrow> scan_blocks c env wallet treasury want ns))"

definition find_lost_payment ::
  "settings \<Rightarrow> outside \<Rightarrow> topup_row \<Rightarrow> ('z world_scheme, json) io" where
  "find_lost_payment c env r =
     (let wallet = lower (or_text_opt (tu_wallet r) []); from_block = or_int (tu_from_block r) 0
      in if wallet = [] \<or> from_block = 0 then return JNull
         else
           bind (try_except
                   (bind (rpc c env ''eth_blockNumber'' [] CHAIN_ID)
                      (\<lambda>h. bind (from_sum (to_int h 0)) (\<lambda>n. return (Some n))))
                   (\<lambda>e. if is_evm_error e then return None else throw e)) (\<lambda>head_block.
             case head_block of
               None \<Rightarrow> return JNull
             | Some tip \<Rightarrow>
                 scan_blocks c env wallet (lower (treasury_wallet c)) (tu_oprai_wei r)
                   [max (min from_block tip) (tip - MAX_SCAN_BLOCKS)..tip]))"

definition give_up_if_stale :: "outside \<Rightarrow> string \<Rightarrow> topup_row \<Rightarrow> unit payer" where
  "give_up_if_stale env key r =
     andthen (sql (\<lambda>w. (w, utc_now env w - tu_created_at r))) (\<lambda>age.
       if age < minutes GIVE_UP_MINUTES then Ret (Inr ())
       else andthen (sql (close_row key Top_Failed)) (\<lambda>_. Ret (Inr ())))"

definition due_rows :: "outside \<Rightarrow> pay_state \<Rightarrow> (string \<times> topup_row) list" where
  "due_rows env w =
     take 25 (sort_key (\<lambda>(_, r). tu_created_at r)
       (rows_where (\<lambda>_ r. is_open r \<and> tu_credits r = 0 \<and>
          tu_created_at r < utc_now env w - seconds 20) (tg_topups w)))"

definition settle_known ::
  "settings \<Rightarrow> outside \<Rightarrow> topup_row \<Rightarrow> json \<Rightarrow> (int \<times> int \<times> subscription) option payer" where
  "settle_known c env r tx_hash =
     then_do (sql (rpc c env ''eth_getTransactionReceipt'' [tx_hash] CHAIN_ID)) (\<lambda>receipt.
       if \<not> truthy receipt then Ret (Inr None)
       else
         then_do (sql (from_sum (receipt_succeeded receipt))) (\<lambda>ok.
           case tx_hash of
             JStr key \<Rightarrow>
               andthen (sql (close_row key (if ok then Top_Credited else Top_Failed))) (\<lambda>won.
                 if \<not> won \<or> \<not> ok then Ret (Inr None)
                 else
                   andthen (sql (extend_stmt c env (tu_scope_id r) (tu_telegram_id r)
                              (tu_scope_id r < 0) (tu_oprai_wei r)
                              (case tu_usd r of None \<Rightarrow> 0 | Some u \<Rightarrow> u))) (\<lambda>s.
                     Ret (Inr (Some (tu_scope_id r, tu_telegram_id r, s)))))
           | _ \<Rightarrow> Ret (Inl TypeError)))"

definition settle_one ::
  "settings \<Rightarrow> outside \<Rightarrow> string \<times> topup_row \<Rightarrow> (int \<times> int \<times> subscription) option payer" where
  "settle_one c env kr =
     (case kr of (key, r) \<Rightarrow>
        if tu_status r = Top_Sending then
          then_do (sql (find_lost_payment c env r)) (\<lambda>h.
            if h = JNull then then_do (give_up_if_stale env key r) (\<lambda>_. Ret (Inr None))
            else then_do (attach_hash key h) (\<lambda>_. settle_known c env r h))
        else settle_known c env r (JStr key))"

primrec settle_rows ::
  "settings \<Rightarrow> outside \<Rightarrow> (string \<times> topup_row) list \<Rightarrow> (int \<times> int \<times> subscription) list payer" where
  "settle_rows c env [] = Ret (Inr [])"
| "settle_rows c env (kr # rest) =
     then_do (settle_one c env kr) (\<lambda>x.
     then_do (settle_rows c env rest) (\<lambda>xs.
       Ret (Inr (case x of None \<Rightarrow> xs | Some s \<Rightarrow> s # xs))))"

definition settle_pending :: "settings \<Rightarrow> outside \<Rightarrow> (int \<times> int \<times> subscription) list payer" where
  "settle_pending c env =
     andthen (sql (\<lambda>w. (w, due_rows env w))) (\<lambda>rows. settle_rows c env rows)"

section \<open>Steps that leave the payments alone\<close>

definition same_wallet_more :: "'z wallet_state_scheme \<Rightarrow> 'z wallet_state_scheme \<Rightarrow> bool" where
  "same_wallet_more w w' \<longleftrightarrow> wallet_state.more w' = wallet_state.more w"

interpretation wframe: io_relation "\<lambda>_. True" same_wallet_more
  by unfold_locales (simp_all add: same_wallet_more_def)

abbreviation apart :: "('z wallet_state_scheme, 'a) io \<Rightarrow> bool" where
  "apart m \<equiv> obeys (\<lambda>_. True) same_wallet_more m"

lemma apart_framed:
  fixes m :: "('z wallet_state_scheme, 'a) io"
  assumes "framed m"
  shows "apart m"
proof -
  have "wallet_state.more w' = wallet_state.more w" if "same_more w w'"
    for w w' :: "'z wallet_state_scheme"
    using that by (cases w; cases w') (simp add: same_more_def)
  then show ?thesis using assms by (simp add: obeys_def same_wallet_more_def)
qed

lemma apart_statements:
  "apart (archive_active env tid)" "apart (insert_wallet env q tid a k i)" "apart (get_wallet tid)"
  by (simp_all add: obeys_def same_wallet_more_def archive_active_def insert_wallet_def get_wallet_def io_simps)

lemma apart_wallets:
  "apart (get_or_create_wallet c env tid)" "apart (wallet_address c env tid)"
  "apart (native_balance c env tid)"
  unfolding get_or_create_wallet_def wallet_address_def native_balance_def portfolio_rpc_def signer_calls
  by (intro wframe.obeys_rules apart_statements apart_framed framed_signer framed_rules framed_rpc)+

lemma framed_scan: "framed (scan_blocks c env wa tr n bs)"
  by (induction bs) (auto intro!: framed_rules framed_rpc)

lemma framed_find: "framed (find_lost_payment c env r)"
  unfolding find_lost_payment_def Let_def by (intro framed_rules framed_rpc framed_scan)

section \<open>The potential: payments credited less months granted\<close>

definition is_credited :: "topup_row \<Rightarrow> int" where
  "is_credited r = (if tu_status r = Top_Credited then 1 else 0)"

definition credited :: "pay_state \<Rightarrow> int" where
  "credited w = sum_list (map (is_credited \<circ> snd) (tg_topups w))"

definition granted :: "pay_state \<Rightarrow> int" where
  "granted w = sum_list (map (sr_months \<circ> snd) (tg_subscriptions w))"

definition placeholder :: "string \<Rightarrow> bool" where
  "placeholder k \<longleftrightarrow> startswith k ''sending:''"

text \<open>A row that is still to be sent sits under a placeholder key, one that has a hash does not.\<close>

definition key_ok :: "string \<Rightarrow> topup_row \<Rightarrow> bool" where
  "key_ok k r = (case tu_status r of
     Top_Sending \<Rightarrow> placeholder k | Top_Pending \<Rightarrow> \<not> placeholder k
   | Top_Credited \<Rightarrow> \<not> placeholder k | Top_Failed \<Rightarrow> True)"

definition payments_ok :: "pay_state \<Rightarrow> bool" where
  "payments_ok w \<longleftrightarrow> keyed (tg_topups w) \<and> keyed (tg_subscriptions w) \<and>
     (\<forall>k r. row_of (tg_topups w) k = Some r \<longrightarrow> key_ok k r)"

definition pay_phi :: "pay_state \<Rightarrow> int" where
  "pay_phi w = credited w - granted w"

abbreviation pays :: "(pay_state, 'r) prog \<Rightarrow> int \<Rightarrow> bool" where
  "pays p n \<equiv> owes payments_ok pay_phi (\<lambda>_. 0) p n"

lemma pays_Ret [simp]: "0 \<le> n \<Longrightarrow> pays (Ret r) n"
  by (simp add: owes_Ret)

lemma pays_sum:
  "0 \<le> n \<Longrightarrow> (\<And>a. r = Inr a \<Longrightarrow> pays (f a) n) \<Longrightarrow>
   pays (case r of Inl e \<Rightarrow> Ret (Inl e) | Inr a \<Rightarrow> f a) n"
  by (cases r) simp_all

lemma same_payments:
  fixes w w' :: pay_state
  assumes "same_wallet_more w w'"
  shows "tg_topups w' = tg_topups w" "tg_subscriptions w' = tg_subscriptions w"
  using assms by (cases w; cases w'; simp add: same_wallet_more_def)+

lemma pays_apart:
  assumes "apart m" and "0 \<le> n" and "\<And>w a. payments_ok w \<Longrightarrow> snd (m w) = a \<Longrightarrow> pays (g a) n"
  shows "pays (andthen (sql m) g) n"
proof (rule owes_sql [OF assms(2)])
  fix w :: pay_state assume w: "payments_ok w"
  have "same_wallet_more w (fst (m w))" using assms(1) by (simp add: obeys_def)
  then have eq: "tg_topups (fst (m w)) = tg_topups w" "tg_subscriptions (fst (m w)) = tg_subscriptions w"
    by (rule same_payments)+
  show "payments_ok (fst (m w))" using w eq by (simp add: payments_ok_def)
  have "pay_phi (fst (m w)) = pay_phi w" using eq by (simp add: pay_phi_def credited_def granted_def)
  then show "\<exists>m'. pays (g (snd (m w))) m' \<and> pay_phi w + m' \<le> pay_phi (fst (m w)) + n"
    using assms(3) [OF w refl] by (intro exI [of _ n]) simp
qed

lemma pays_step:
  assumes "apart m" and "0 \<le> n" and "\<And>a. pays (f a) n"
  shows "pays (then_do (sql m) f) n"
  unfolding then_do_def by (rule pays_apart [OF assms(1,2)]) (simp add: pays_sum assms)

lemma pays_query:
  assumes "\<And>w. fst (f w) = w" and "0 \<le> n" and "\<And>w a. payments_ok w \<Longrightarrow> snd (f w) = a \<Longrightarrow> pays (g a) n"
  shows "pays (andthen (sql f) g) n"
  using assms by (intro owes_sql) auto

subsection \<open>The statements\<close>

lemma credited_put:
  "keyed t \<Longrightarrow> sum_list (map (is_credited \<circ> snd) (put_row k r t)) =
     sum_list (map (is_credited \<circ> snd) t) + is_credited r -
     (case row_of t k of None \<Rightarrow> 0 | Some s \<Rightarrow> is_credited s)"
  by (rule sum_list_put_row)

lemma sum_list_drop_row:
  fixes f :: "'r \<Rightarrow> int"
  shows "keyed t \<Longrightarrow> sum_list (map (f \<circ> snd) (drop_row k t)) =
     sum_list (map (f \<circ> snd) t) - (case row_of t k of None \<Rightarrow> 0 | Some r \<Rightarrow> f r)"
proof (induction t)
  case Nil
  then show ?case by (simp add: drop_row_def)
next
  case (Cons p t)
  obtain k' r' where p: "p = (k', r')" by fastforce
  have kt: "keyed t" and fresh: "k' \<notin> fst ` set t" using Cons.prems p by (auto simp: keyed_def)
  have "row_of t k' = None" using fresh by (simp add: row_of_def map_of_eq_None_iff)
  moreover have "drop_row k' t = t" using fresh by (simp add: drop_row_def delete_id)
  ultimately show ?case
    using Cons.IH [OF kt] p by (cases "k = k'") (simp_all add: drop_row_def delete_simps)
qed

lemma insert_topup_ok:
  assumes "payments_ok w" and "tu_status r = Top_Sending" and "placeholder key"
  shows "payments_ok (fst (insert_topup key r w))"
    and "pay_phi (fst (insert_topup key r w)) = pay_phi w"
  using assms
  by (auto simp: insert_topup_def payments_ok_def pay_phi_def credited_def granted_def credited_put
      is_credited_def key_ok_def has_row_def)

lemma attach_row_ok:
  assumes "payments_ok w" and "placeholder key" and "\<not> placeholder h"
  shows "payments_ok (fst (attach_row key h w)) \<and> pay_phi (fst (attach_row key h w)) = pay_phi w"
proof (cases "row_of (tg_topups w) key")
  case None
  then show ?thesis using assms(1) by (simp add: attach_row_def)
next
  case (Some r)
  have k: "keyed (tg_topups w)" using assms(1) by (simp add: payments_ok_def)
  have "key_ok key r" using assms(1) Some by (simp add: payments_ok_def)
  then have nc: "is_credited r = 0"
    using assms(2) by (auto simp: key_ok_def is_credited_def)
  have ne: "h \<noteq> key" using assms(2,3) by auto
  show ?thesis
  proof (cases "has_row (tg_topups w) h")
    case True
    then show ?thesis using assms(1) Some ne by (simp add: attach_row_def)
  next
    case False
    then have h: "row_of (tg_topups w) h = None" by (simp add: has_row_def)
    have "payments_ok (fst (attach_row key h w))"
      using assms Some ne False by (simp add: attach_row_def payments_ok_def key_ok_def)
    moreover have "pay_phi (fst (attach_row key h w)) = pay_phi w"
      using k nc ne h Some False
      by (simp add: attach_row_def pay_phi_def credited_def granted_def credited_put
          sum_list_drop_row is_credited_def)
    ultimately show ?thesis by simp
  qed
qed

lemma close_row_ok:
  assumes "payments_ok w" and "st = Top_Failed \<or> (st = Top_Credited \<and> \<not> placeholder key)"
  shows "payments_ok (fst (close_row key st w))"
    and "pay_phi (fst (close_row key st w)) =
      pay_phi w + (if snd (close_row key st w) \<and> st = Top_Credited then 1 else 0)"
proof -
  have k: "keyed (tg_topups w)" using assms(1) by (simp add: payments_ok_def)
  show "payments_ok (fst (close_row key st w))"
    using assms by (auto simp: close_row_def payments_ok_def key_ok_def split: option.split)
  show "pay_phi (fst (close_row key st w)) =
      pay_phi w + (if snd (close_row key st w) \<and> st = Top_Credited then 1 else 0)"
    using k assms(2)
    by (auto simp: close_row_def pay_phi_def credited_def granted_def credited_put is_credited_def
        is_open_def split: option.split)
qed

lemma extend_stmt_ok:
  assumes "payments_ok w"
  shows "payments_ok (fst (extend_stmt c env sid tid grp wei usd w))"
    and "pay_phi (fst (extend_stmt c env sid tid grp wei usd w)) = pay_phi w - 1"
proof -
  have k: "keyed (tg_subscriptions w)" using assms by (simp add: payments_ok_def)
  show "payments_ok (fst (extend_stmt c env sid tid grp wei usd w))"
    using assms extend_sub_keyed [OF k]
    by (simp add: extend_stmt_def payments_ok_def split: prod.split) (metis fst_conv)
  have "sum_list (map (sr_months \<circ> snd) (fst (extend_sub c (utc_now env w) sid tid grp wei usd None (tg_subscriptions w)))) =
      granted w + 1"
    using k by (auto simp: extend_sub_def Let_def sum_list_put_row granted_def split: option.split)
  then show "pay_phi (fst (extend_stmt c env sid tid grp wei usd w)) = pay_phi w - 1"
    by (cases "extend_sub c (utc_now env w) sid tid grp wei usd None (tg_subscriptions w)")
      (simp add: extend_stmt_def pay_phi_def credited_def granted_def)
qed


section \<open>Every program pays for the months it grants\<close>

text \<open>
  The documented form of a transaction hash: the node answers hashes in hexadecimal with the
  prefix 0x, so none is a placeholder key.
\<close>

definition node_hashes :: "settings \<Rightarrow> outside \<Rightarrow> bool" where
  "node_hashes c env \<longleftrightarrow>
     (\<forall>key t (w :: pay_state) w' s. sign_and_send c env key t w = (w', Inr (JStr s)) \<longrightarrow> startswith s ''0x'') \<and>
     (\<forall>r (w :: pay_state) w' s. find_lost_payment c env r w = (w', Inr (JStr s)) \<longrightarrow> startswith s ''0x'')"

lemma hash_not_placeholder:
  assumes "startswith s ''0x''"
  shows "\<not> placeholder s" "\<not> placeholder (lower s)"
proof -
  obtain rest where s: "s = CHR ''0'' # CHR ''x'' # rest"
    using assms by (cases s; cases "tl s") (auto simp: startswith_def)
  show "\<not> placeholder s" by (simp add: s placeholder_def startswith_def)
  show "\<not> placeholder (lower s)"
    by (simp add: s placeholder_def startswith_def lower_def lower_char_def is_upper_def)
qed

lemma placeholder_sending [simp]: "placeholder (''sending:'' @ u)"
  by (simp add: placeholder_def startswith_def)

lemma pays_attach:
  assumes "placeholder key" and "\<And>s. h = JStr s \<Longrightarrow> startswith s ''0x''"
    and "\<And>s. h = JStr s \<Longrightarrow> pays (f (lower s)) 0"
  shows "pays (then_do (attach_hash key h) f) 0"
proof (cases h)
  case (JStr s)
  have ns: "\<not> placeholder (lower s)" using hash_not_placeholder(2) assms(2) JStr by blast
  have ans: "snd (attach_row key (lower s) w) = Inl UniqueViolation \<or>
      snd (attach_row key (lower s) w) = Inr (lower s)" for w
    by (simp add: attach_row_def split: option.split)
  show ?thesis
    unfolding JStr attach_hash_def then_do_def json.case
  proof (rule owes_sql)
    fix w assume w: "payments_ok w"
    note a = attach_row_ok [OF w assms(1) ns]
    show "payments_ok (fst (attach_row key (lower s) w))" using a by simp
    have "pays (case snd (attach_row key (lower s) w) of Inl e \<Rightarrow> Ret (Inl e) | Inr b \<Rightarrow> f b) 0"
      using ans [of w] assms(3) [OF JStr] by auto
    then show "\<exists>m. pays (case snd (attach_row key (lower s) w) of Inl e \<Rightarrow> Ret (Inl e) | Inr b \<Rightarrow> f b) m \<and>
        pay_phi w + m \<le> pay_phi (fst (attach_row key (lower s) w)) + 0"
      using a by (intro exI [of _ 0]) simp
  qed simp
qed (simp_all add: attach_hash_def then_do_def)

lemma pays_close_failed:
  assumes "\<And>b. pays (g b) 0"
  shows "pays (andthen (sql (close_row key Top_Failed)) g) 0"
  using close_row_ok [of _ Top_Failed key] assms by (intro owes_sql exI [of _ 0]) auto

lemma pays_close_credited:
  assumes "\<not> placeholder key" and "pays (g False) 0" and "pays (g True) 1"
  shows "pays (andthen (sql (close_row key Top_Credited)) g) 0"
proof (rule owes_sql)
  fix w assume w: "payments_ok w"
  note cl = close_row_ok [OF w, of Top_Credited key]
  show "payments_ok (fst (close_row key Top_Credited w))" using cl(1) assms(1) by simp
  show "\<exists>m. pays (g (snd (close_row key Top_Credited w))) m \<and>
      pay_phi w + m \<le> pay_phi (fst (close_row key Top_Credited w)) + 0"
    using cl(2) assms
    by (cases "snd (close_row key Top_Credited w)") (auto intro: exI [of _ 0] exI [of _ 1])
qed simp

lemma pays_extend:
  assumes "\<And>s. pays (g s) 0"
  shows "pays (andthen (sql (extend_stmt c env sid tid grp wei usd)) g) 1"
  using extend_stmt_ok assms by (intro owes_sql exI [of _ 0]) auto

lemma apart_pure:
  "apart (from_sum r)" "apart (wait_receipt c env h t chain)" "apart (rpc c env m ps chain)"
  "apart (sign_and_send c env key txn)" "apart (find_lost_payment c env row)"
  by (simp_all add: wframe.obeys_rules apart_framed framed_wait framed_rpc framed_send framed_find)

lemma pays_after_send:
  assumes "placeholder key" and "\<And>s. h = JStr s \<Longrightarrow> startswith s ''0x''"
  shows "pays (after_send c env tid sid grp want usd key h) 0"
  unfolding after_send_def
proof (rule pays_attach [OF assms], goal_cases)
  case (2 s)
  then have ns: "\<not> placeholder (lower s)" using assms(2) hash_not_placeholder(2) by blast
  have lost: "pays (sql (\<lambda>w. (w, x w))) 0" for x :: "pay_state \<Rightarrow> 'a"
    unfolding sql_def by (intro owes_Stmt exI [of _ 0]) auto
  show ?case
    by (intro pays_step apart_pure owes_syntax pays_close_failed pays_close_credited pays_extend
        pays_Ret ns order_refl)
      (auto intro: pays_extend lost)
qed


lemma pays_pay:
  assumes "node_hashes c env"
  shows "pays (pay c env uuid tid sid grp eth usd) 0"
proof -
  have send: "pays (send_payment c env tid sid grp want usd kr txn (''sending:'' @ uuid)) 0" for want kr txn
    unfolding send_payment_def
  proof (rule pays_apart [OF apart_pure(4)], simp)
    fix w :: pay_state and a
    assume a: "snd (sign_and_send c env kr txn w) = a"
    show "pays (case a of Inl e \<Rightarrow>
            if as_subscription_error e = e then Ret (Inl e)
            else andthen (sql (close_row (''sending:'' @ uuid) Top_Failed))
                  (\<lambda>_. Ret (Inl (as_subscription_error e)))
          | Inr h \<Rightarrow> after_send c env tid sid grp want usd (''sending:'' @ uuid) h) 0"
    proof (cases a)
      case (Inl e)
      then show ?thesis by (simp add: pays_close_failed)
    next
      case (Inr h)
      have "startswith s ''0x''" if "h = JStr s" for s
        using assms a Inr that unfolding node_hashes_def by (metis prod.collapse)
      then show ?thesis unfolding Inr sum.case by (rule pays_after_send [OF placeholder_sending])
    qed
  qed
  have ins: "pays (then_do (sql (\<lambda>w. insert_topup (''sending:'' @ uuid) (row w) w)) f) 0"
    if "\<And>w. tu_status (row w) = Top_Sending" "pays (f (''sending:'' @ uuid)) 0"
    for row and f :: "string \<Rightarrow> (pay_state, exn + subscription option) prog"
    unfolding then_do_def
  proof (rule owes_sql)
    fix w assume w: "payments_ok w"
    note i = insert_topup_ok [where r = "row w" and key = "''sending:'' @ uuid",
        OF w that(1) placeholder_sending]
    show "payments_ok (fst (insert_topup (''sending:'' @ uuid) (row w) w))" using i(1) .
    have "snd (insert_topup (''sending:'' @ uuid) (row w) w) \<in>
        {Inl UniqueViolation, Inr (''sending:'' @ uuid)}" by (simp add: insert_topup_def)
    then show "\<exists>m. pays (case snd (insert_topup (''sending:'' @ uuid) (row w) w) of
          Inl e \<Rightarrow> Ret (Inl e) | Inr a \<Rightarrow> f a) m \<and>
        pay_phi w + m \<le> pay_phi (fst (insert_topup (''sending:'' @ uuid) (row w) w)) + 0"
      using i(2) that(2) by (intro exI [of _ 0]) auto
  qed simp
  have assoc: "then_do (then_do p f) g = then_do p (\<lambda>a. then_do (f a) g)"
    for p :: "(pay_state, exn + 'x) prog" and f :: "'x \<Rightarrow> (pay_state, exn + 'y) prog"
      and g :: "'y \<Rightarrow> (pay_state, exn + 'z) prog"
  proof -
    have "andthen (case r of Inl e \<Rightarrow> Ret (Inl e) | Inr a \<Rightarrow> f a) (\<lambda>r. case r of Inl e \<Rightarrow> Ret (Inl e) | Inr a \<Rightarrow> g a)
        = (case r of Inl e \<Rightarrow> Ret (Inl e) | Inr a \<Rightarrow> andthen (f a) (\<lambda>r. case r of Inl e \<Rightarrow> Ret (Inl e) | Inr a \<Rightarrow> g a))" for r
      by (cases r) simp_all
    then show ?thesis by (simp add: then_do_def andthen_assoc)
  qed
  have open_then: "pays (then_do (open_intent c env uuid sid tid wa wei usd) f) 0"
    if "pays (f (''sending:'' @ uuid)) 0" for wa wei and f :: "string \<Rightarrow> (pay_state, exn + subscription option) prog"
    unfolding open_intent_def assoc
    by (rule pays_step, intro apart_framed framed_rules framed_rpc, simp, rule ins, simp, rule that)
  show ?thesis
    unfolding pay_def
    by (intro pays_step pays_query owes_syntax pays_Ret open_then send apart_wallets order_refl
        apart_framed framed_rules framed_provider) (simp_all add: in_flight_def)
qed

lemma pays_settle_known:
  assumes "\<And>s. h = JStr s \<Longrightarrow> \<not> placeholder s"
  shows "pays (settle_known c env r h) 0"
  unfolding settle_known_def
proof (intro pays_step apart_pure owes_if pays_Ret order_refl, goal_cases)
  case (1 receipt ok)
  show ?case
  proof (cases h)
    case (JStr key)
    then show ?thesis
      using assms
      by (cases ok) (auto intro!: pays_close_credited pays_close_failed pays_extend)
  qed simp_all
qed

lemma pays_settle_one:
  assumes "node_hashes c env" and "tu_status r = Top_Sending \<Longrightarrow> placeholder key"
    and "tu_status r \<noteq> Top_Sending \<Longrightarrow> \<not> placeholder key"
  shows "pays (settle_one c env (key, r)) 0"
proof (cases "tu_status r = Top_Sending")
  case False
  then show ?thesis using assms(3) by (auto simp: settle_one_def intro!: pays_settle_known)
next
  case True
  have gu: "pays (then_do (give_up_if_stale env key r) f) 0" if "\<And>a. pays (f a) 0" for f :: "unit \<Rightarrow> (pay_state, exn + 'x) prog"
    unfolding give_up_if_stale_def then_do_def andthen_assoc
    by (rule pays_query) (auto simp: andthen_assoc intro!: pays_close_failed that)
  have eq: "settle_one c env (key, r) = andthen (sql (find_lost_payment c env r)) (\<lambda>a.
      case a of Inl e \<Rightarrow> Ret (Inl e) | Inr h \<Rightarrow>
        if h = JNull then then_do (give_up_if_stale env key r) (\<lambda>_. Ret (Inr None))
        else then_do (attach_hash key h) (\<lambda>_. settle_known c env r h))"
    by (simp add: settle_one_def True) (rule then_do_def)
  show ?thesis
    unfolding eq
  proof (rule pays_apart [OF apart_pure(5) order_refl])
    fix w :: pay_state and a
    assume a: "snd (find_lost_payment c env r w) = a"
    show "pays (case a of Inl e \<Rightarrow> Ret (Inl e) | Inr h \<Rightarrow>
        if h = JNull then then_do (give_up_if_stale env key r) (\<lambda>_. Ret (Inr None))
        else then_do (attach_hash key h) (\<lambda>_. settle_known c env r h)) 0"
    proof (cases a)
      case (Inr h)
      have hx: "startswith s ''0x''" if "h = JStr s" for s
        using assms(1) a Inr that unfolding node_hashes_def by (metis prod.collapse)
      have "pays (settle_known c env r h) 0"
        using hx hash_not_placeholder(1) by (intro pays_settle_known) blast
      then show ?thesis
        using Inr gu [of "\<lambda>_. Ret (Inr None)"]
          pays_attach [OF assms(2) [OF True] hx, where f = "\<lambda>_. settle_known c env r h"]
        by auto
    qed simp
  qed
qed

lemma pays_settle_rows:
  assumes "node_hashes c env"
    and "\<And>key r. (key, r) \<in> set rows \<Longrightarrow> is_open r \<and> key_ok key r"
  shows "pays (settle_rows c env rows) 0"
  using assms(2)
proof (induction rows)
  case (Cons kr rows)
  obtain key r where kr: "kr = (key, r)" by fastforce
  have "is_open r" "key_ok key r" using Cons.prems kr by auto
  then have one: "pays (settle_one c env kr) 0"
    unfolding kr by (intro pays_settle_one [OF assms(1)]) (auto simp: key_ok_def is_open_def)
  have rest: "pays (settle_rows c env rows) 0"
    by (rule Cons.IH) (use Cons.prems in auto)
  have inner: "pays (then_do (settle_rows c env rows) (\<lambda>xs. Ret (Inr (h xs)))) 0"
    for h :: "(int \<times> int \<times> subscription) list \<Rightarrow> (int \<times> int \<times> subscription) list"
    unfolding then_do_def by (rule owes_seq [OF rest]) (simp add: pays_sum)
  show ?case
    unfolding settle_rows.simps then_do_def [of "settle_one c env kr"]
    by (rule owes_seq [OF one], rule pays_sum) (auto intro: inner)
qed simp

lemma due_rows_ok:
  assumes "payments_ok w" and "(key, r) \<in> set (due_rows env w)"
  shows "is_open r \<and> key_ok key r"
proof -
  have "(key, r) \<in> set (tg_topups w)" "is_open r"
    using assms(2) by (auto simp: due_rows_def rows_where_def dest!: in_set_takeD)
  then show ?thesis using assms(1) by (auto simp: payments_ok_def keyed_row_of)
qed

lemma pays_settle:
  assumes "node_hashes c env"
  shows "pays (settle_pending c env) 0"
  unfolding settle_pending_def
  by (rule pays_query) (use due_rows_ok in \<open>auto intro!: pays_settle_rows [OF assms]\<close>)

section \<open>Calls in progress together\<close>

datatype pay_call =
    Call_Pay string int int bool rat rat
  | Call_Settle

primrec pay_prog :: "settings \<Rightarrow> outside \<Rightarrow> pay_call \<Rightarrow> (pay_state, unit) prog" where
  "pay_prog c env (Call_Pay uuid tid sid grp eth usd) =
     andthen (pay c env uuid tid sid grp eth usd) (\<lambda>_. Ret ())"
| "pay_prog c env Call_Settle = andthen (settle_pending c env) (\<lambda>_. Ret ())"

lemma pays_prog: "node_hashes c env \<Longrightarrow> pays (pay_prog c env x) 0"
  by (cases x) (auto intro!: owes_map pays_pay pays_settle)

section \<open>Properties\<close>

text \<open>C9: in any interleaving of any number of payments and runs of the reconciler, the months
  granted are never more than the payments credited: every month added to a subscription is
  paid for by its own transaction hash being moved to credited, so no payment, retry or race
  grants two months. (A run stopped anywhere may leave a credited payment whose month is not
  yet granted, never the reverse.)\<close>

theorem months_never_exceed_payments:
  assumes "node_hashes c env" and "payments_ok w"
    and "pool_runs (w, map (pay_prog c env) xs) (w', ps)"
  shows "granted w' - granted w \<le> credited w' - credited w \<and> distinct (map fst (tg_topups w'))"
proof -
  have "pay_phi w + sum_list (map (\<lambda>_. 0) (answers ps)) \<le> pay_phi w'" "payments_ok w'"
    using pool_bound [where I = payments_ok and phi = pay_phi and w = "\<lambda>_. 0", OF assms(3,2)]
      pays_prog [OF assms(1)] by auto
  then show ?thesis
    by (simp add: pay_phi_def payments_ok_def keyed_def)
qed


text \<open>A world in which the signer signs, the node accepts every transaction and every receipt
  is a success.\<close>

definition node_answer :: "json \<Rightarrow> json" where
  "node_answer p =
     (case p of JObj kvs \<Rightarrow>
        (if map_of kvs ''method'' = Some (JStr ''eth_sendRawTransaction'') then JStr ''0xab''
         else if map_of kvs ''method'' = Some (JStr ''eth_getTransactionReceipt'')
           then JObj [(''status'', JStr ''0x1'')]
         else if map_of kvs ''method'' = Some (JStr ''eth_getBlockByNumber'') then JObj []
         else if map_of kvs ''method'' = Some (JStr ''eth_estimateGas'') then JStr ''0x0''
         else JStr ''0x1'')
      | _ \<Rightarrow> JNull)"

definition paying :: outside where
  "paying = \<lparr>http = (\<lambda>n verb url p. Reply 200 (Some (JObj [(''raw'', JStr ''0x02''),
         (''address'', JStr ''0xAa''), (''enc_key_ref'', JStr ''k''), (''result'', node_answer p)]))),
     mono = (\<lambda>n. int n), utc = (\<lambda>n. seconds (int n)), repr_of = (\<lambda>_. []), raw_text = (\<lambda>_. []),
     env_var = (\<lambda>_. None), auth_cookie = (\<lambda>_. None), error_text = (\<lambda>_. []),
     chat_answer = (\<lambda>_ _ _. Sent_To_Chat)\<rparr>"

lemma rpc_paying:
  fixes w w' :: "'z world_scheme"
  assumes "rpc c paying m ps chain w = (w', Inr r)"
  shows "r = node_answer (rpc_payload 1 m ps)"
proof -
  have post: "q = (200, Some (JObj [(''raw'', JStr ''0x02''), (''address'', JStr ''0xAa''),
      (''enc_key_ref'', JStr ''k''), (''result'', node_answer (rpc_payload 1 m ps))]))"
    if "post_first paying k (rpc_payload 1 m ps) i urls v = (v', Inr q)" for k i urls v v' q
    using that by (cases urls) (auto simp: bind_Inr io_simps paying_def split: if_splits)
  obtain urls q and w1 w2 :: "'z world_scheme" where
    "post_first paying (length urls) (rpc_payload 1 m ps) 0 urls w1 = (w2, Inr q)"
    "rpc_result paying q = Inr r"
    using assms by (auto simp: rpc_def bind_Inr io_simps)
  with post show ?thesis by (fastforce simp: rpc_result_def has_key_def)
qed

lemma paying_scan: "scan_blocks c paying wa tr n bs w = (w', Inr h) \<Longrightarrow> h = JNull"
proof (induction bs arbitrary: w)
  case (Cons b bs)
  have blk: "r = JObj []" if "rpc c paying ''eth_getBlockByNumber'' [JStr (hex b), JBool True] CHAIN_ID v = (v', Inr r)"
    for v v' r
    using rpc_paying [OF that] by (simp add: node_answer_def rpc_payload_def)
  show ?case
    using Cons.prems
    by (auto simp: bind_Inr try_except_def io_simps match_block_def j_or_def dest!: blk
        intro: Cons.IH split: prod.splits sum.splits if_splits)
qed (simp add: io_simps)

lemma paying_hashes: "node_hashes c paying"
  unfolding node_hashes_def
proof (intro conjI allI impI)
  fix key t s and w w' :: pay_state
  assume "sign_and_send c paying key t w = (w', Inr (JStr s))"
  then obtain raw chain and v v' :: pay_state
    where "rpc c paying ''eth_sendRawTransaction'' [raw] chain v = (v', Inr (JStr s))"
    by (auto simp: sign_and_send_def bind_Inr)
  from rpc_paying [OF this] show "startswith s ''0x''"
    by (simp add: node_answer_def rpc_payload_def startswith_def)
next
  fix r s and w w' :: pay_state
  assume "find_lost_payment c paying r w = (w', Inr (JStr s))"
  then show "startswith s ''0x''"
    by (auto simp: find_lost_payment_def Let_def bind_Inr io_simps dest: paying_scan split: if_splits option.splits)
qed

definition pay_sample :: pay_state where
  "pay_sample = \<lparr>looks = 100, slept = 0, on_fallback = False, primary_stale = False, lag_checked_at = 0,
     tg_wallets = [], next_wallet_id = 1,
     tg_topups = [(''0xee'', \<lparr>tu_scope_id = 7, tu_telegram_id = 7, tu_oprai_wei = 5, tu_credits = 0,
       tu_status = Top_Pending, tu_usd = Some 9, tu_wallet = Some ''0xaa'', tu_from_block = Some 1,
       tu_created_at = 0\<rparr>)],
     tg_subscriptions = []\<rparr>"

lemma pay_sample_ok: "payments_ok pay_sample"
  by (simp add: payments_ok_def pay_sample_def key_ok_def placeholder_def startswith_def keyed_def)

lemma pay_sample_start: "granted pay_sample = 0" "credited pay_sample = 0"
  by (simp_all add: granted_def credited_def pay_sample_def is_credited_def)

theorem months_never_exceed_payments_witness:
  "\<forall>js. granted (fst (schedule js (pay_sample, map (pay_prog default_settings paying)
       [Call_Settle, Call_Pay ''u1'' 7 7 False (1/100) 10, Call_Pay ''u2'' 7 7 False (1/100) 10, Call_Settle])))
     \<le> credited (fst (schedule js (pay_sample, map (pay_prog default_settings paying)
       [Call_Settle, Call_Pay ''u1'' 7 7 False (1/100) 10, Call_Pay ''u2'' 7 7 False (1/100) 10, Call_Settle])))"
proof
  fix js
  let ?xs = "[Call_Settle, Call_Pay ''u1'' 7 7 False (1/100) 10, Call_Pay ''u2'' 7 7 False (1/100) 10, Call_Settle]"
  let ?c = "(pay_sample, map (pay_prog default_settings paying) ?xs)"
  have "pool_runs ?c (fst (schedule js ?c), snd (schedule js ?c))"
    using schedule_runs [of ?c js] by simp
  from months_never_exceed_payments [OF paying_hashes pay_sample_ok this]
  show "granted (fst (schedule js ?c)) \<le> credited (fst (schedule js ?c))"
    using pay_sample_start by simp
qed


lemma hex_pos_0x: "0 \<le> n \<Longrightarrow> to_int (JStr (hex n)) d = Inr n"
proof -
  assume n: "0 \<le> n"
  have "strip (hex n) = hex n"
    using n by (intro strip_id) (auto simp: hex_def is_space_def dest: show_base_plain(4) [rotated 2])
  moreover have "startswith (hex n) ''0x''" using n by (simp add: hex_def startswith_def)
  ultimately show ?thesis by (simp add: to_int_def Let_def) (simp add: hex_def)
qed

lemma build_payment:
  assumes "0 \<le> want"
  shows "build_tx_from_provider c env a (payment_request c want) None =
      (if treasury_wallet c = [] then throw (EvmError ''provider returned a transaction with no recipient'')
       else bind (estimate_gas c env a (treasury_wallet c) want ''0x'' CHAIN_ID) (\<lambda>gas.
            bind (get_fees c env CHAIN_ID) (\<lambda>(max_fee, priority).
            bind (get_nonce c env a CHAIN_ID) (\<lambda>nonce.
              return \<lparr>tx_chain_id = show_int CHAIN_ID, tx_nonce = show_int nonce, tx_to = treasury_wallet c,
                tx_value = show_int want, tx_data = ''0x'', tx_gas = show_int gas,
                tx_max_fee_per_gas = show_int max_fee,
                tx_max_priority_fee_per_gas = show_int priority\<rparr>))))"
proof -
  have zero: "to_int JNull 0 = Inr 0" "to_int (j_or JNull JNull) 0 = Inr 0"
    by (simp_all add: to_int_def j_or_def)
  have home: "to_int (JInt CHAIN_ID) CHAIN_ID = Inr CHAIN_ID" "CHAIN_ID \<noteq> 0"
    by (simp_all add: to_int_def CHAIN_ID_def)
  show ?thesis
    by (simp add: build_tx_from_provider_def payment_request_def io_cases hex_pos_0x [OF assms]
        zero home or_text_opt_def or_text_def)
qed

lemma payment_cost:
  assumes "build_tx_from_provider c env a (payment_request c want) None w = (w', Inr t)" and "0 \<le> want"
  shows "\<exists>gas fee. parse_int 10 (tx_gas t) = Some gas \<and>
    parse_int 10 (tx_max_fee_per_gas t) = Some fee \<and> tx_cost_wei t = Some (want + gas * fee)"
  using assms(1) [unfolded build_payment [OF assms(2)]]
  by (auto simp: bind_Inr io_simps tx_cost_wei_def split: if_splits)

text \<open>The check before a payment asks for the price twice. The cost of a transaction already
  includes the value it carries, and \<open>pay\<close> adds the price to it: a wallet that holds the price
  and the worst-case gas, but not the price a second time, is refused as short, and nothing
  is recorded or sent.\<close>

theorem pay_refuses_affordable:
  assumes "wallet_address c env tid w = (w1, Inr a)"
    and "\<not> snd (in_flight env sid w1)"
    and "build_tx_from_provider c env a (payment_request c (want_wei eth)) None w1 = (w2, Inr t)"
    and "native_balance c env tid w2 = (w3, Inr held)"
    and "0 \<le> want_wei eth" and "tx_cost_wei t = Some cost"
    and "cost \<le> nv_wei held" "nv_wei held < cost + want_wei eth"
  shows "(\<exists>gas fee. parse_int 10 (tx_gas t) = Some gas \<and>
      parse_int 10 (tx_max_fee_per_gas t) = Some fee \<and> cost = want_wei eth + gas * fee) \<and>
    (\<exists>m. run_prog (pay c env uuid tid sid grp eth usd) w = (w3, Inl (SubscriptionError m)))"
proof
  show "\<exists>gas fee. parse_int 10 (tx_gas t) = Some gas \<and>
      parse_int 10 (tx_max_fee_per_gas t) = Some fee \<and> cost = want_wei eth + gas * fee"
    using payment_cost [OF assms(3,5)] assms(6) by auto
  have inf: "fst (in_flight env sid w1) = w1" by (simp add: in_flight_def)
  show "\<exists>m. run_prog (pay c env uuid tid sid grp eth usd) w = (w3, Inl (SubscriptionError m))"
    using assms inf
    by (cases "in_flight env sid w1") (simp add: pay_def then_do_def try_except_def)
qed

text \<open>One intent can stop the reconciler for good. When the oldest row was never given its
  hash and the search finds a transaction that is already recorded (same wallet, same amount,
  as for a private and a group subscription bought at one quoted price), attaching it violates
  the primary key: \<open>settle_pending\<close> raises, and neither this row nor any row after it is
  settled or given up.\<close>

theorem reconciler_wedges:
  assumes "due_rows env w = (key, r) # rest" and "tu_status r = Top_Sending"
    and "find_lost_payment c env r w = (w', Inr (JStr h))"
    and "lower h \<noteq> key" and "has_row (tg_topups w) (lower h)" "has_row (tg_topups w) key"
  shows "\<exists>w''. run_prog (settle_pending c env) w = (w'', Inl UniqueViolation) \<and>
    tg_topups w'' = tg_topups w \<and> tg_subscriptions w'' = tg_subscriptions w"
proof -
  have "same_wallet_more w w'"
    using apart_pure(5) [of c env r] assms(3) unfolding obeys_def by (metis fst_conv)
  then have eq: "tg_topups w' = tg_topups w" "tg_subscriptions w' = tg_subscriptions w"
    by (rule same_payments)+
  obtain s where "row_of (tg_topups w) key = Some s" using assms(6) by (auto simp: has_row_def)
  then have at: "attach_row key (lower h) w' = (w', Inl UniqueViolation)"
    using assms(4,5) eq by (simp add: attach_row_def)
  have "run_prog (settle_pending c env) w = (w', Inl UniqueViolation)"
    using assms(1-3) at
    by (simp add: settle_pending_def settle_one_def then_do_def attach_hash_def)
  with eq show ?thesis by blast
qed


lemma rpc_paying_ok: "\<exists>w'. rpc c paying m ps CHAIN_ID w = (w', Inr (node_answer (rpc_payload 1 m ps)))"
  by (rule rpc_const [where kvs = "[(''raw'', JStr ''0x02''), (''address'', JStr ''0xAa''),
      (''enc_key_ref'', JStr ''k''), (''result'', node_answer (rpc_payload 1 m ps))]"])
    (simp_all add: paying_def)

lemma want_one: "want_wei (1 / 10 ^ 18) = 1"
  using rnd_int [of 1 10 28] by (simp add: want_wei_def dec28_def py_int_def)

lemma buffered_0: "buffered 0 = 0"
  by (simp add: buffered_def to_float_small fmul_def f64.fl_zero py_int_def)

lemma hex_bits: "hex_to_int (JStr ''0x0'') 0 = Inr 0" "hex_to_int (JStr ''0x1'') 0 = Inr 1"
  "hex_text (JStr ''0x1'') = Inr 1"
  by code_simp+

lemma node_answers:
  "node_answer (rpc_payload 1 ''eth_estimateGas'' ps) = JStr ''0x0''"
  "node_answer (rpc_payload 1 ''eth_getBlockByNumber'' ps) = JObj []"
  "node_answer (rpc_payload 1 ''eth_maxPriorityFeePerGas'' ps) = JStr ''0x1''"
  "node_answer (rpc_payload 1 ''eth_getTransactionCount'' ps) = JStr ''0x1''"
  "node_answer (rpc_payload 1 ''eth_getBalance'' ps) = JStr ''0x1''"
  by (simp_all add: node_answer_def rpc_payload_def)

lemma build_paying:
  assumes "treasury_wallet c \<noteq> []"
  shows "\<exists>w' t. build_tx_from_provider c paying a (payment_request c 1) None w = (w', Inr t) \<and>
    tx_cost_wei t = Some 1"
proof -
  obtain w1 where 1: "rpc c paying ''eth_estimateGas'' [JObj [(''from'', JStr a), (''to'', JStr (treasury_wallet c)),
      (''value'', JStr (hex 1)), (''data'', JStr ''0x'')]] CHAIN_ID w = (w1, Inr (JStr ''0x0''))"
    using rpc_paying_ok node_answers(1) by metis
  obtain w2 where 2: "rpc c paying ''eth_getBlockByNumber'' [JStr ''latest'', JBool False] CHAIN_ID w1 = (w2, Inr (JObj []))"
    using rpc_paying_ok node_answers(2) by metis
  obtain w3 where 3: "rpc c paying ''eth_maxPriorityFeePerGas'' [] CHAIN_ID w2 = (w3, Inr (JStr ''0x1''))"
    using rpc_paying_ok node_answers(3) by metis
  obtain w4 where 4: "rpc c paying ''eth_getTransactionCount'' [JStr a, JStr ''pending''] CHAIN_ID w3 = (w4, Inr (JStr ''0x1''))"
    using rpc_paying_ok node_answers(4) by metis
  have gas: "estimate_gas c paying a (treasury_wallet c) 1 ''0x'' CHAIN_ID w = (w1, Inr 0)"
    using 1 by (simp add: estimate_gas_def bind_def try_except_def io_simps hex_bits buffered_0)
  have none: "hex_to_int JNull 0 = Inr 0" by (simp add: hex_to_int_def)
  have fees: "get_fees c paying CHAIN_ID w1 = (w3, Inr (1, 1))"
    using 2 3 by (simp add: get_fees_def bind_def try_except_def io_simps hex_bits j_or_def none Let_def)
  have nonce: "get_nonce c paying a CHAIN_ID w3 = (w4, Inr 1)"
    using 4 by (simp add: get_nonce_def bind_def io_simps hex_bits)
  have "build_tx_from_provider c paying a (payment_request c 1) None w = (w4, Inr
      \<lparr>tx_chain_id = show_int CHAIN_ID, tx_nonce = show_int 1, tx_to = treasury_wallet c,
       tx_value = show_int 1, tx_data = ''0x'', tx_gas = show_int 0, tx_max_fee_per_gas = show_int 1,
       tx_max_priority_fee_per_gas = show_int 1\<rparr>)"
    using assms gas fees nonce by (simp add: build_payment bind_def io_simps)
  then show ?thesis by (simp add: tx_cost_wei_def)
qed

definition pay_start :: pay_state where
  "pay_start = pay_sample\<lparr>tg_topups := [], tg_wallets := [(1, \<lparr>wr_telegram_id = 7, wr_address = ''0xAa'',
     wr_enc_key_ref = ''k'', wr_imported = False, wr_created_at = 0, wr_archived_at = None,
     wr_label = None\<rparr>)]\<rparr>"

lemma start_address:
  "tg_wallets w = tg_wallets pay_start \<Longrightarrow> wallet_address c env 7 (w :: pay_state) = (w, Inr ''0xAa'')"
  by (simp add: wallet_address_def get_or_create_wallet_def get_wallet_def bind_def io_simps pay_start_def
      first_row_def active_of_def)

theorem pay_refuses_affordable_witness:
  "\<exists>w' m. run_prog (pay default_settings paying ''u1'' 7 7 False (1 / 10 ^ 18) 10) pay_start =
     (w', Inl (SubscriptionError m))"
proof -
  let ?c = default_settings
  have treasury: "treasury_wallet ?c \<noteq> []" by (simp add: treasury_wallet_def default_settings_def)
  have a: "wallet_address ?c paying 7 pay_start = (pay_start, Inr ''0xAa'')" by (simp add: start_address)
  have idle: "\<not> snd (in_flight paying 7 pay_start)"
    by (simp add: in_flight_def pay_start_def rows_where_def)
  obtain w2 t where b: "build_tx_from_provider ?c paying ''0xAa'' (payment_request ?c 1) None pay_start = (w2, Inr t)"
    and cost: "tx_cost_wei t = Some 1" using build_paying [OF treasury] by blast
  have "same_wallet_more pay_start w2 \<and> same_more pay_start w2"
    using framed_provider [of ?c paying "''0xAa''" "payment_request ?c 1" None] apart_framed [OF framed_provider] b
    unfolding obeys_def by (metis fst_conv)
  then have w2: "tg_wallets w2 = tg_wallets pay_start" using same_more_wallets(1) by blast
  obtain w3 where bal: "rpc ?c paying ''eth_getBalance'' [JStr ''0xAa'', JStr ''latest''] CHAIN_ID w2 = (w3, Inr (JStr ''0x1''))"
    using rpc_paying_ok node_answers(5) by metis
  obtain held where h: "native_balance ?c paying 7 w2 = (w3, Inr held)" "nv_wei held = 1"
    using bal by (simp add: native_balance_def start_address [OF w2] portfolio_rpc_def bind_def try_except_def
        io_simps hex_bits)
  from pay_refuses_affordable [OF a idle _ h(1), of "1 / 10 ^ 18" t 1 "''u1''" False 10]
  show ?thesis using b cost h(2) using want_one by auto
qed

definition lost_env :: outside where
  "lost_env = paying\<lparr>http := (\<lambda>n verb url p. Reply 200 (Some (JObj [(''result'',
     if p = rpc_payload 1 ''eth_getBlockByNumber'' [JStr (hex 1), JBool True]
     then JObj [(''transactions'', JArr [JObj [(''from'', JStr ''0xaa''),
        (''to'', JStr (treasury_wallet default_settings)), (''value'', JInt 5), (''hash'', JStr ''0xee'')]])]
     else JStr ''0x1'')])))\<rparr>"

definition wedged :: pay_state where
  "wedged = pay_sample\<lparr>tg_topups :=
     (''sending:u'', \<lparr>tu_scope_id = 8, tu_telegram_id = 7, tu_oprai_wei = 5, tu_credits = 0,
       tu_status = Top_Sending, tu_usd = Some 9, tu_wallet = Some ''0xaa'', tu_from_block = Some 1,
       tu_created_at = 0\<rparr>) # tg_topups pay_sample\<rparr>"


lemma wedged_row: "due_rows lost_env wedged = (''sending:u'', snd (hd (tg_topups wedged))) #
    [(''0xee'', snd (hd (tg_topups pay_sample)))]"
  by (simp add: due_rows_def wedged_def pay_sample_def rows_where_def is_open_def lost_env_def paying_def
      utc_now_def time_simps)

lemma lost_rpc:
  "\<exists>w'. rpc c lost_env ''eth_blockNumber'' [] CHAIN_ID w = (w', Inr (JStr ''0x1''))"
  "\<exists>w'. rpc c lost_env ''eth_getBlockByNumber'' [JStr (hex 1), JBool True] CHAIN_ID w =
     (w', Inr (JObj [(''transactions'', JArr [JObj [(''from'', JStr ''0xaa''),
        (''to'', JStr (treasury_wallet default_settings)), (''value'', JInt 5), (''hash'', JStr ''0xee'')]])]))"
  by (rule rpc_const [where kvs = "[(''result'', JStr ''0x1'')]"],
      simp_all add: lost_env_def rpc_payload_def)
    (rule rpc_const [where kvs = "[(''result'', JObj [(''transactions'', JArr [JObj [(''from'', JStr ''0xaa''),
        (''to'', JStr (treasury_wallet default_settings)), (''value'', JInt 5), (''hash'', JStr ''0xee'')]])])]"],
      simp_all add: rpc_payload_def)

theorem reconciler_wedges_witness:
  "\<exists>w''. run_prog (settle_pending default_settings lost_env) wedged = (w'', Inl UniqueViolation) \<and>
     tg_topups w'' = tg_topups wedged"
proof -
  let ?r = "snd (hd (tg_topups wedged))"
  have r: "tu_status ?r = Top_Sending" "tu_wallet ?r = Some ''0xaa''" "tu_from_block ?r = Some 1"
    "tu_oprai_wei ?r = 5"
    by (simp_all add: wedged_def)
  obtain w1 where 1: "rpc default_settings lost_env ''eth_blockNumber'' [] CHAIN_ID wedged = (w1, Inr (JStr ''0x1''))"
    using lost_rpc(1) by blast
  obtain w2 where 2: "rpc default_settings lost_env ''eth_getBlockByNumber'' [JStr (hex 1), JBool True] CHAIN_ID w1 =
     (w2, Inr (JObj [(''transactions'', JArr [JObj [(''from'', JStr ''0xaa''),
        (''to'', JStr (treasury_wallet default_settings)), (''value'', JInt 5), (''hash'', JStr ''0xee'')]])]))"
    using lost_rpc(2) by blast
  have l: "lower ''0xaa'' = ''0xaa''" "to_int (JStr ''0x1'') 0 = Inr 1" "lower ''0xee'' = ''0xee''"
    by code_simp+
  have treasury: "treasury_wallet default_settings \<noteq> []"
    by (simp add: treasury_wallet_def default_settings_def)
  have five: "to_int (JInt 5) 0 = Inr 5" by (simp add: to_int_def)
  have find: "find_lost_payment default_settings lost_env ?r wedged = (w2, Inr (JStr ''0xee''))"
    using 1 2
    by (simp add: find_lost_payment_def Let_def r or_text_opt_def l bind_def try_except_def io_simps
        MAX_SCAN_BLOCKS_def match_block_def j_or_def lower_field_def treasury five)
  have h: "has_row (tg_topups wedged) (lower ''0xee'')" "has_row (tg_topups wedged) ''sending:u''"
    by (simp_all add: wedged_def pay_sample_def has_row_def l(3))
  have "lower ''0xee'' \<noteq> ''sending:u''" by (simp add: l(3))
  from reconciler_wedges [OF wedged_row r(1) find this h] show ?thesis by blast
qed

end
