(* ===== verification/Credits.thy ===== *)
theory Credits
  imports Subscription_Store
begin

text \<open>
  Conversation credits, \<open>app/services/credits.py\<close>: the table \<open>tg_credits\<close>, the ledger
  \<open>tg_credit_ledger\<close>, and the operations \<open>balance\<close>, \<open>spend\<close>, \<open>refund\<close> and
  \<open>grant\<close>. Each SQL statement is one function on the state, so a run of interleaved
  statements is a list of them; on the right of an \<open>UPDATE ... SET\<close> every column is the
  old one, as in SQL.
\<close>

section \<open>Balances\<close>

record balance_view =
  bv_scope_id :: int
  bv_is_group :: bool
  bv_free_used :: int
  bv_paid :: int
  bv_month_used :: int
  bv_allowance :: int
  bv_subscribed :: bool
  bv_month_allowance :: int

definition free_left :: "balance_view \<Rightarrow> int" where
  "free_left b = max (bv_allowance b - bv_free_used b) 0"

definition month_left :: "balance_view \<Rightarrow> int" where
  "month_left b = max (bv_month_allowance b - bv_month_used b) 0"

definition remaining :: "balance_view \<Rightarrow> int" where
  "remaining b = min (free_left b + bv_paid b) (month_left b)"

definition exhausted :: "balance_view \<Rightarrow> bool" where
  "exhausted b \<longleftrightarrow> remaining b \<le> 0"

definition free_allowance :: "settings \<Rightarrow> bool \<Rightarrow> int" where
  "free_allowance c grp =
     (if grp then OPRAI_TG_FREE_GROUP_CREDITS c else OPRAI_TG_FREE_USER_CREDITS c)"

definition allowance_for :: "settings \<Rightarrow> usec \<Rightarrow> sub_table \<Rightarrow> int \<Rightarrow> bool \<Rightarrow> int \<times> bool" where
  "allowance_for c now subs sid grp =
     (if is_live now sid subs then (OPRAI_TG_SUB_DAILY_CREDITS c, True)
      else (free_allowance c grp, False))"

definition month_allowance :: "settings \<Rightarrow> bool \<Rightarrow> bool \<Rightarrow> int" where
  "month_allowance c subscribed grp =
     (if subscribed then OPRAI_TG_SUB_MONTHLY_CREDITS c else free_allowance c grp * 31)"

definition window_length :: "settings \<Rightarrow> usec" where
  "window_length c = hours (max (OPRAI_TG_FREE_WINDOW_HOURS c) 1)"

section \<open>The tables\<close>

record credit_row =
  cr_is_group :: bool
  cr_free_used :: int
  cr_paid :: int
  cr_month_used :: int
  cr_window_start :: usec
  cr_month_start :: usec

record ledger_entry =
  le_scope_id :: int
  le_telegram_id :: "int option"
  le_delta :: int
  le_reason :: string
  le_detail :: json

record credit_db =
  credits :: "(int, credit_row) table"
  ledger :: "ledger_entry list"

definition view_of :: "settings \<Rightarrow> int \<Rightarrow> credit_row \<Rightarrow> int \<Rightarrow> bool \<Rightarrow> balance_view" where
  "view_of c sid r allowance subscribed =
     \<lparr>bv_scope_id = sid, bv_is_group = cr_is_group r, bv_free_used = cr_free_used r,
      bv_paid = cr_paid r, bv_month_used = cr_month_used r, bv_allowance = allowance,
      bv_subscribed = subscribed,
      bv_month_allowance = month_allowance c subscribed (cr_is_group r)\<rparr>"

text \<open>\<open>detail or {}\<close>: a missing or empty detail is stored as the empty object.\<close>

definition add_ledger ::
  "int \<Rightarrow> int option \<Rightarrow> int \<Rightarrow> string \<Rightarrow> (string \<times> json) list option \<Rightarrow> credit_db \<Rightarrow> credit_db" where
  "add_ledger sid tid delta reason detail db =
     db\<lparr>ledger := ledger db @ [\<lparr>le_scope_id = sid, le_telegram_id = tid, le_delta = delta,
        le_reason = reason,
        le_detail = JObj (case detail of None \<Rightarrow> [] | Some d \<Rightarrow> d)\<rparr>]\<rparr>"

section \<open>Operations\<close>

text \<open>The \<open>DO UPDATE SET\<close> of \<open>balance\<close>: roll the window and the month when they are over.\<close>

definition roll :: "usec \<Rightarrow> usec \<Rightarrow> credit_row \<Rightarrow> credit_row" where
  "roll now window r =
     r\<lparr>cr_free_used := (if cr_window_start r < now - window then 0 else cr_free_used r),
       cr_window_start := (if cr_window_start r < now - window then now else cr_window_start r),
       cr_month_used := (if cr_month_start r < now - days 30 then 0 else cr_month_used r),
       cr_month_start := (if cr_month_start r < now - days 30 then now else cr_month_start r)\<rparr>"

definition fresh_row :: "usec \<Rightarrow> bool \<Rightarrow> credit_row" where
  "fresh_row now grp = \<lparr>cr_is_group = grp, cr_free_used = 0, cr_paid = 0, cr_month_used = 0,
     cr_window_start = now, cr_month_start = now\<rparr>"

definition balance ::
  "settings \<Rightarrow> usec \<Rightarrow> sub_table \<Rightarrow> int \<Rightarrow> bool \<Rightarrow> credit_db \<Rightarrow> credit_db \<times> balance_view" where
  "balance c now subs sid grp db =
     (let (row, created) = (case row_of (credits db) sid of
              None \<Rightarrow> (fresh_row now grp, True)
            | Some r \<Rightarrow> (roll now (window_length c) r, False));
          db1 = db\<lparr>credits := put_row sid row (credits db)\<rparr>;
          (allowance, subscribed) = allowance_for c now subs sid grp;
          db2 = (if created
                 then add_ledger sid None allowance ''free_window'' (Some [(''group'', JBool grp)]) db1
                 else db1)
      in (db2, view_of c sid row allowance subscribed))"

text \<open>
  The charge itself is one conditional \<open>UPDATE\<close>: the check and the charge together. It
  answers the new row, or nothing when the scope cannot pay.
\<close>

definition can_pay :: "int \<Rightarrow> int \<Rightarrow> int \<Rightarrow> credit_row \<Rightarrow> bool" where
  "can_pay amount allowance month_cap r \<longleftrightarrow>
     max (allowance - cr_free_used r) 0 + cr_paid r \<ge> amount \<and>
     cr_month_used r + amount \<le> month_cap"

definition charge_row :: "int \<Rightarrow> int \<Rightarrow> credit_row \<Rightarrow> credit_row" where
  "charge_row amount allowance r =
     r\<lparr>cr_free_used := cr_free_used r + min amount (max (allowance - cr_free_used r) 0),
       cr_paid := cr_paid r - max (amount - max (allowance - cr_free_used r) 0) 0,
       cr_month_used := cr_month_used r + amount\<rparr>"

definition charge ::
  "int \<Rightarrow> int \<Rightarrow> int \<Rightarrow> int \<Rightarrow> credit_db \<Rightarrow> credit_db \<times> credit_row option" where
  "charge sid amount allowance month_cap db =
     (case row_of (credits db) sid of
        None \<Rightarrow> (db, None)
      | Some r \<Rightarrow>
          if can_pay amount allowance month_cap r
          then (db\<lparr>credits := put_row sid (charge_row amount allowance r) (credits db)\<rparr>,
                Some (charge_row amount allowance r))
          else (db, None))"

definition spend ::
  "settings \<Rightarrow> usec \<Rightarrow> sub_table \<Rightarrow> int \<Rightarrow> bool \<Rightarrow> int \<Rightarrow> int \<Rightarrow> (string \<times> json) list option
    \<Rightarrow> credit_db \<Rightarrow> credit_db \<times> balance_view option" where
  "spend c now subs sid grp tid amount detail db =
     (let (db1, current) = balance c now subs sid grp db;
          allowance = bv_allowance current;
          subscribed = bv_subscribed current
      in case charge sid amount allowance (bv_month_allowance current) db1 of
           (db2, None) \<Rightarrow> (db2, None)
         | (db2, Some row) \<Rightarrow>
             (add_ledger sid (Some tid) (- amount) ''spend'' detail db2,
              Some (view_of c sid row allowance subscribed)))"

definition refund_row :: "int \<Rightarrow> credit_row \<Rightarrow> credit_row" where
  "refund_row amount r =
     r\<lparr>cr_free_used := max (cr_free_used r - amount) 0,
       cr_paid := cr_paid r + max (amount - cr_free_used r) 0,
       cr_month_used := max (cr_month_used r - amount) 0\<rparr>"

definition refund :: "int \<Rightarrow> int \<Rightarrow> int \<Rightarrow> string \<Rightarrow> credit_db \<Rightarrow> credit_db" where
  "refund sid tid amount reason db =
     add_ledger sid (Some tid) amount ''refund'' (Some [(''reason'', JStr reason)])
       (db\<lparr>credits := update_where (\<lambda>k _. k = sid) (refund_row amount) (credits db)\<rparr>)"

text \<open>
  \<open>grant\<close> reads the row its own \<open>UPDATE\<close> returned; with no row, the Python would fail on
  \<open>row["scope_id"]\<close>, which is the \<open>None\<close> below. Lemma \<open>grant_total\<close> shows it never happens.
\<close>

definition grant ::
  "settings \<Rightarrow> usec \<Rightarrow> sub_table \<Rightarrow> int \<Rightarrow> bool \<Rightarrow> int \<Rightarrow> int option \<Rightarrow> string
    \<Rightarrow> (string \<times> json) list option \<Rightarrow> credit_db \<Rightarrow> credit_db \<times> balance_view option" where
  "grant c now subs sid grp amount tid reason detail db =
     (let (db1, current) = balance c now subs sid grp db;
          db2 = db1\<lparr>credits := update_where (\<lambda>k _. k = sid)
                     (\<lambda>r. r\<lparr>cr_paid := cr_paid r + amount\<rparr>) (credits db1)\<rparr>
      in (add_ledger sid tid amount reason detail db2,
          map_option (\<lambda>r. view_of c sid r (bv_allowance current) (bv_subscribed current))
            (row_of (credits db2) sid)))"

section \<open>Rows, one at a time\<close>

text \<open>What a row can still pay for in this window under an allowance.\<close>

definition pot :: "int \<Rightarrow> credit_row \<Rightarrow> int" where
  "pot allowance r = max (allowance - cr_free_used r) 0 + cr_paid r"

definition row_ok :: "credit_row \<Rightarrow> bool" where
  "row_ok r \<longleftrightarrow> 0 \<le> cr_free_used r \<and> 0 \<le> cr_paid r \<and> 0 \<le> cr_month_used r"

lemma can_pay_pot:
  "can_pay n a m r \<longleftrightarrow> n \<le> pot a r \<and> cr_month_used r + n \<le> m"
  by (auto simp: can_pay_def pot_def)

lemma pot_charge_row: "0 \<le> n \<Longrightarrow> a \<le> b \<Longrightarrow> pot b (charge_row n a r) = pot b r - n"
  by (auto simp: pot_def charge_row_def max_def min_def)

lemma month_used_charge_row [simp]:
  "cr_month_used (charge_row n a r) = cr_month_used r + n"
  by (simp add: charge_row_def)

lemma is_group_row [simp]:
  "cr_is_group (charge_row n a r) = cr_is_group r"
  "cr_is_group (roll now w r) = cr_is_group r"
  "cr_is_group (refund_row n r) = cr_is_group r"
  by (simp_all add: charge_row_def roll_def refund_row_def)

lemma pot_refund_row:
  "0 \<le> n \<Longrightarrow> 0 \<le> cr_free_used r \<Longrightarrow> cr_free_used r \<le> a \<Longrightarrow>
     pot a (refund_row n r) = pot a r + n"
  by (auto simp: pot_def refund_row_def max_def)

lemma row_ok_charge: "row_ok r \<Longrightarrow> 0 \<le> n \<Longrightarrow> can_pay n a m r \<Longrightarrow> row_ok (charge_row n a r)"
  by (auto simp: row_ok_def can_pay_def charge_row_def max_def min_def)

lemma row_ok_refund: "row_ok r \<Longrightarrow> row_ok (refund_row n r)"
  by (auto simp: row_ok_def refund_row_def)

lemma row_ok_roll: "row_ok r \<Longrightarrow> row_ok (roll now w r)"
  by (simp add: row_ok_def roll_def)

lemma row_ok_fresh [simp]: "row_ok (fresh_row now grp)"
  by (simp add: row_ok_def fresh_row_def)

lemmas row_ok_intros = row_ok_charge row_ok_refund row_ok_roll row_ok_fresh

section \<open>Operations on the whole state\<close>

definition current_row :: "settings \<Rightarrow> usec \<Rightarrow> int \<Rightarrow> bool \<Rightarrow> credit_db \<Rightarrow> credit_row" where
  "current_row c now sid grp db =
     (case row_of (credits db) sid of
        None \<Rightarrow> fresh_row now grp | Some r \<Rightarrow> roll now (window_length c) r)"

lemma balance_row:
  "row_of (credits (fst (balance c now subs sid grp db))) k =
     (if k = sid then Some (current_row c now sid grp db) else row_of (credits db) k)"
  by (simp add: balance_def current_row_def add_ledger_def Let_def split: prod.split option.split)

lemma balance_view_eq:
  "snd (balance c now subs sid grp db) =
     view_of c sid (current_row c now sid grp db)
       (fst (allowance_for c now subs sid grp)) (snd (allowance_for c now subs sid grp))"
  by (simp add: balance_def current_row_def Let_def split: prod.split option.split)

lemma free_left_view [simp]: "free_left (view_of c sid r a s) = max (a - cr_free_used r) 0"
  by (simp add: free_left_def view_of_def)

lemma view_sels [simp]:
  "bv_allowance (view_of c sid r a s) = a" "bv_subscribed (view_of c sid r a s) = s"
  "bv_paid (view_of c sid r a s) = cr_paid r"
  "bv_free_used (view_of c sid r a s) = cr_free_used r"
  "bv_month_used (view_of c sid r a s) = cr_month_used r"
  "bv_month_allowance (view_of c sid r a s) = month_allowance c s (cr_is_group r)"
  by (simp_all add: view_of_def)

lemma add_ledger_credits [simp]: "credits (add_ledger sid tid d why det db) = credits db"
  by (simp add: add_ledger_def)

lemma charge_cases:
  "charge sid n a m db =
     (case row_of (credits db) sid of
        Some r \<Rightarrow> if can_pay n a m r
          then (db\<lparr>credits := put_row sid (charge_row n a r) (credits db)\<rparr>, Some (charge_row n a r))
          else (db, None)
      | None \<Rightarrow> (db, None))"
  by (simp add: charge_def split: option.split)

lemma spend_eq:
  "spend c now subs sid grp tid n det db =
     (let db1 = fst (balance c now subs sid grp db);
          r = current_row c now sid grp db;
          (a, s) = allowance_for c now subs sid grp;
          m = month_allowance c s (cr_is_group r)
      in if can_pay n a m r
         then (add_ledger sid (Some tid) (- n) ''spend'' det
                 (db1\<lparr>credits := put_row sid (charge_row n a r) (credits db1)\<rparr>),
               Some (view_of c sid (charge_row n a r) a s))
         else (db1, None))"
proof -
  obtain db1 cur where b: "balance c now subs sid grp db = (db1, cur)" by fastforce
  have r: "row_of (credits db1) sid = Some (current_row c now sid grp db)"
    using balance_row [of c now subs sid grp db sid] b by simp
  have v: "cur = view_of c sid (current_row c now sid grp db)
       (fst (allowance_for c now subs sid grp)) (snd (allowance_for c now subs sid grp))"
    using balance_view_eq [of c now subs sid grp db] b by simp
  show ?thesis
    by (simp add: spend_def b charge_def r v Let_def split: prod.split)
qed

lemma grant_total: "\<exists>b. snd (grant c now subs sid grp n tid why det db) = Some b"
proof -
  obtain db1 cur where b: "balance c now subs sid grp db = (db1, cur)" by fastforce
  then show ?thesis
    using balance_row [of c now subs sid grp db sid] by (simp add: grant_def)
qed

lemma refund_row_of:
  "row_of (credits (refund sid tid n why db)) k =
     map_option (\<lambda>r. if k = sid then refund_row n r else r) (row_of (credits db) k)"
  by (simp add: refund_def)

lemma spend_Some:
  assumes "spend c now subs sid grp tid n det db = (db', Some b)"
  defines "r \<equiv> current_row c now sid grp db"
    and "a \<equiv> fst (allowance_for c now subs sid grp)"
    and "s \<equiv> snd (allowance_for c now subs sid grp)"
  shows "can_pay n a (month_allowance c s (cr_is_group r)) r"
    and "row_of (credits db') sid = Some (charge_row n a r)"
    and "b = view_of c sid (charge_row n a r) a s"
proof -
  from assms(1) have *: "can_pay n a (month_allowance c s (cr_is_group r)) r"
    "db' = add_ledger sid (Some tid) (- n) ''spend'' det
       ((fst (balance c now subs sid grp db))\<lparr>credits := put_row sid (charge_row n a r)
          (credits (fst (balance c now subs sid grp db)))\<rparr>)"
    "b = view_of c sid (charge_row n a r) a s"
    by (auto simp: spend_eq r_def a_def s_def Let_def split: if_splits prod.splits)
  then show "can_pay n a (month_allowance c s (cr_is_group r)) r"
    and "row_of (credits db') sid = Some (charge_row n a r)"
    and "b = view_of c sid (charge_row n a r) a s"
    by simp_all
qed

section \<open>Runs of statements\<close>

datatype credit_op =
    OpBalance usec sub_table int bool
  | OpSpend usec sub_table int bool int int
  | OpRefund int int int string
  | OpGrant usec sub_table int bool int

fun credit_step :: "settings \<Rightarrow> credit_op \<Rightarrow> credit_db \<Rightarrow> credit_db" where
  "credit_step c (OpBalance now subs sid grp) db = fst (balance c now subs sid grp db)"
| "credit_step c (OpSpend now subs sid grp tid n) db = fst (spend c now subs sid grp tid n None db)"
| "credit_step c (OpRefund sid tid n why) db = refund sid tid n why db"
| "credit_step c (OpGrant now subs sid grp n) db = fst (grant c now subs sid grp n None ''topup'' None db)"

fun amount_of :: "credit_op \<Rightarrow> int" where
  "amount_of (OpSpend now subs sid grp tid n) = n"
| "amount_of (OpRefund sid tid n why) = n"
| "amount_of (OpGrant now subs sid grp n) = n"
| "amount_of _ = 0"

definition credits_ok :: "credit_db \<Rightarrow> bool" where
  "credits_ok db \<longleftrightarrow> (\<forall>k r. row_of (credits db) k = Some r \<longrightarrow> row_ok r)"

lemma credits_okI: "(\<And>k r. row_of (credits db) k = Some r \<Longrightarrow> row_ok r) \<Longrightarrow> credits_ok db"
  by (auto simp: credits_ok_def)

lemma credits_okD: "credits_ok db \<Longrightarrow> row_of (credits db) k = Some r \<Longrightarrow> row_ok r"
  by (auto simp: credits_ok_def)

lemma current_row_ok: "credits_ok db \<Longrightarrow> row_ok (current_row c now sid grp db)"
  by (auto simp: current_row_def row_ok_roll credits_okD split: option.split)

lemma balance_ok: "credits_ok db \<Longrightarrow> credits_ok (fst (balance c now subs sid grp db))"
  by (rule credits_okI)
     (auto simp: balance_row current_row_ok credits_okD split: if_splits)

lemma refund_ok: "credits_ok db \<Longrightarrow> credits_ok (refund sid tid n why db)"
  by (rule credits_okI)
     (auto simp: refund_row_of row_ok_refund credits_okD split: if_splits)

lemma spend_ok:
  assumes "credits_ok db" "0 \<le> n"
  shows "credits_ok (fst (spend c now subs sid grp tid n det db))"
proof (rule credits_okI)
  fix k r
  assume *: "row_of (credits (fst (spend c now subs sid grp tid n det db))) k = Some r"
  show "row_ok r"
    using * assms balance_ok [OF assms(1), of c now subs sid grp] current_row_ok [OF assms(1)]
    by (auto simp: spend_eq Let_def row_ok_charge credits_okD split: if_splits prod.splits)
qed

lemma grant_ok:
  assumes "credits_ok db" "0 \<le> n"
  shows "credits_ok (fst (grant c now subs sid grp n tid why det db))"
proof (rule credits_okI)
  fix k r
  obtain db1 cur where b: "balance c now subs sid grp db = (db1, cur)" by fastforce
  have ok: "credits_ok db1" using balance_ok [OF assms(1), of c now subs sid grp] b by simp
  assume "row_of (credits (fst (grant c now subs sid grp n tid why det db))) k = Some r"
  then obtain r0 where "row_of (credits db1) k = Some r0"
    and r: "r = (if k = sid then r0\<lparr>cr_paid := cr_paid r0 + n\<rparr> else r0)"
    by (auto simp: grant_def b)
  then have "row_ok r0" using ok by (simp add: credits_okD)
  then show "row_ok r" using r assms(2) by (simp add: row_ok_def)
qed

lemma credit_step_ok: "credits_ok db \<Longrightarrow> 0 \<le> amount_of x \<Longrightarrow> credits_ok (credit_step c x db)"
  by (cases x) (simp_all add: balance_ok refund_ok spend_ok grant_ok)

lemma credit_run_ok:
  "credits_ok db \<Longrightarrow> (\<And>x. x \<in> set xs \<Longrightarrow> 0 \<le> amount_of x) \<Longrightarrow> credits_ok (fold (credit_step c) xs db)"
  by (induction xs arbitrary: db) (simp_all add: credit_step_ok)

text \<open>
  A race of charges: each request is the conditional \<open>UPDATE\<close> of one \<open>spend\<close>, with the
  allowance and month ceiling its own call read before. \<open>accepted\<close> is what one scope was
  charged in all.
\<close>

type_synonym charge_request = "int \<times> int \<times> int \<times> int"

fun race :: "charge_request list \<Rightarrow> credit_db \<Rightarrow> credit_db" where
  "race [] db = db"
| "race ((sid, n, a, m) # qs) db = race qs (fst (charge sid n a m db))"

fun accepted :: "int \<Rightarrow> charge_request list \<Rightarrow> credit_db \<Rightarrow> int" where
  "accepted k [] db = 0"
| "accepted k ((sid, n, a, m) # qs) db =
     (if sid = k \<and> snd (charge sid n a m db) \<noteq> None then n else 0)
       + accepted k qs (fst (charge sid n a m db))"

lemma charge_row_of:
  "row_of (credits (fst (charge sid n a m db))) k =
     (case row_of (credits db) k of None \<Rightarrow> None
      | Some r \<Rightarrow> Some (if k = sid \<and> can_pay n a m r then charge_row n a r else r))"
  by (auto simp: charge_cases split: option.split)

lemma charge_flag:
  "snd (charge sid n a m db) \<noteq> None \<longleftrightarrow> (\<exists>r. row_of (credits db) sid = Some r \<and> can_pay n a m r)"
  by (auto simp: charge_cases split: option.split)

lemma race_bound:
  assumes "row_of (credits db) k = Some r" "row_ok r"
    and "\<And>n a m. (k, n, a, m) \<in> set qs \<Longrightarrow> 0 \<le> n \<and> a \<le> A \<and> m \<le> M"
  shows "accepted k qs db \<le> pot A r \<and> accepted k qs db \<le> max (M - cr_month_used r) 0"
  using assms
proof (induction qs arbitrary: db r)
  case Nil
  then show ?case by (simp add: pot_def row_ok_def)
next
  case (Cons q qs)
  obtain sid n a m where q: "q = (sid, n, a, m)" by (cases q)
  define r' where "r' = (if k = sid \<and> can_pay n a m r then charge_row n a r else r)"
  have row': "row_of (credits (fst (charge sid n a m db))) k = Some r'"
    using Cons.prems(1) by (simp add: charge_row_of r'_def)
  have bounds: "k = sid \<Longrightarrow> 0 \<le> n \<and> a \<le> A \<and> m \<le> M"
    using Cons.prems(3) q by auto
  have ok': "row_ok r'"
    using Cons.prems(2) bounds by (auto simp: r'_def row_ok_charge)
  have IH: "accepted k qs (fst (charge sid n a m db)) \<le> pot A r' \<and>
            accepted k qs (fst (charge sid n a m db)) \<le> max (M - cr_month_used r') 0"
    using Cons.prems(3) by (intro Cons.IH [OF row' ok']) auto
  show ?case
  proof (cases "k = sid \<and> can_pay n a m r")
    case True
    then have "pot A r' = pot A r - n" "cr_month_used r' = cr_month_used r + n"
      "cr_month_used r + n \<le> M"
      using bounds by (auto simp: r'_def pot_charge_row can_pay_def)
    moreover have "accepted k (q # qs) db = n + accepted k qs (fst (charge sid n a m db))"
      using True Cons.prems(1) by (simp add: q charge_cases)
    ultimately show ?thesis using IH by auto
  next
    case False
    then have "r' = r" by (auto simp: r'_def)
    moreover have "accepted k (q # qs) db = accepted k qs (fst (charge sid n a m db))"
      using False Cons.prems(1) by (auto simp: q charge_cases split: option.splits if_splits)
    ultimately show ?thesis using IH by simp
  qed
qed

section \<open>Properties\<close>

text \<open>C1: \<open>spend\<close> answers a balance exactly when the requested amount is at most what the
  refreshed balance says remains: the nearer of the window's ration plus the granted credits
  and the month's ceiling.\<close>

theorem spend_success_iff:
  assumes "0 < n"
  shows "(\<exists>b. snd (spend c now subs sid grp tid n det db) = Some b) \<longleftrightarrow>
         n \<le> remaining (snd (balance c now subs sid grp db))"
proof -
  define r where "r = current_row c now sid grp db"
  obtain a s where a: "allowance_for c now subs sid grp = (a, s)" by fastforce
  have "remaining (snd (balance c now subs sid grp db)) =
          min (pot a r) (max (month_allowance c s (cr_is_group r) - cr_month_used r) 0)"
    by (simp add: remaining_def balance_view_eq a r_def month_left_def pot_def)
  moreover have "(\<exists>b. snd (spend c now subs sid grp tid n det db) = Some b) \<longleftrightarrow>
          can_pay n a (month_allowance c s (cr_is_group r)) r"
    by (simp add: spend_eq a r_def Let_def)
  ultimately show ?thesis using assms by (auto simp: can_pay_pot)
qed

definition sample_row :: credit_row where
  "sample_row = \<lparr>cr_is_group = False, cr_free_used = 9, cr_paid = 3, cr_month_used = 20,
     cr_window_start = 0, cr_month_start = 0\<rparr>"

lemma sample_sels [simp]:
  "cr_is_group sample_row = False" "cr_free_used sample_row = 9" "cr_paid sample_row = 3"
  "cr_month_used sample_row = 20"
  by (simp_all add: sample_row_def)

definition sample_db :: credit_db where
  "sample_db = \<lparr>credits = [(7, sample_row)], ledger = []\<rparr>"

lemma sample_current [simp]: "current_row default_settings 1 7 False sample_db = sample_row"
  by (simp add: current_row_def sample_db_def sample_row_def roll_def window_length_def
      default_settings_def time_simps)

lemma sample_allowance [simp]: "allowance_for default_settings 1 [] 7 False = (10, False)"
  by (simp add: allowance_for_def is_live_def free_allowance_def default_settings_def)

lemma sample_month [simp]: "month_allowance default_settings False False = 310"
  by (simp add: month_allowance_def free_allowance_def default_settings_def)

theorem spend_success_iff_witness:
  "(\<exists>b. snd (spend default_settings 1 [] 7 False 7 4 None sample_db) = Some b) \<and>
   \<not> (\<exists>b. snd (spend default_settings 1 [] 7 False 7 5 None sample_db) = Some b)"
  using spend_success_iff [of 4 default_settings 1 "[]" 7 False 7 None sample_db]
    spend_success_iff [of 5 default_settings 1 "[]" 7 False 7 None sample_db]
  by (simp add: balance_view_eq remaining_def month_left_def)

text \<open>A successful \<open>spend\<close> charges exactly the amount, the free ration first and the
  granted credits only for what the ration does not cover; it never passes the month's
  ceiling, touches no other scope and writes one ledger line of minus the amount.\<close>

theorem spend_charges_exactly:
  assumes "spend c now subs sid grp tid n det db = (db', Some b)" and "0 \<le> n"
  defines "cur \<equiv> snd (balance c now subs sid grp db)"
  shows "free_left b + bv_paid b = free_left cur + bv_paid cur - n \<and>
    bv_paid b = bv_paid cur - max (n - free_left cur) 0 \<and>
    bv_month_used b = bv_month_used cur + n \<and>
    bv_month_used b \<le> bv_month_allowance b \<and>
    (\<forall>k. k \<noteq> sid \<longrightarrow> row_of (credits db') k = row_of (credits db) k) \<and>
    (\<exists>pre. ledger db' = pre @ [\<lparr>le_scope_id = sid, le_telegram_id = Some tid,
           le_delta = - n, le_reason = ''spend'',
           le_detail = JObj (case det of None \<Rightarrow> [] | Some d \<Rightarrow> d)\<rparr>])"
proof (intro conjI allI impI)
  define r where "r = current_row c now sid grp db"
  obtain a s where a: "allowance_for c now subs sid grp = (a, s)" by fastforce
  note sp = spend_Some [OF assms(1), unfolded a fst_conv snd_conv, folded r_def]
  have cur: "cur = view_of c sid r a s"
    by (simp add: cur_def balance_view_eq a r_def)
  show "free_left b + bv_paid b = free_left cur + bv_paid cur - n"
    using assms(2) pot_charge_row [of n a a r] by (simp add: sp(3) cur pot_def)
  show "bv_paid b = bv_paid cur - max (n - free_left cur) 0"
    by (simp add: sp(3) cur charge_row_def)
  show "bv_month_used b = bv_month_used cur + n"
    by (simp add: sp(3) cur)
  show "bv_month_used b \<le> bv_month_allowance b"
    using sp(1) by (simp add: sp(3) can_pay_def)
  show "row_of (credits db') k = row_of (credits db) k" if "k \<noteq> sid" for k
    using that assms(1)
    by (auto simp: spend_eq Let_def balance_row split: if_splits prod.splits)
  show "\<exists>pre. ledger db' = pre @ [\<lparr>le_scope_id = sid, le_telegram_id = Some tid,
           le_delta = - n, le_reason = ''spend'',
           le_detail = JObj (case det of None \<Rightarrow> [] | Some d \<Rightarrow> d)\<rparr>]"
    using assms(1)
    by (auto simp: spend_eq Let_def add_ledger_def split: if_splits prod.splits)
qed

theorem spend_charges_exactly_witness:
  "\<exists>db' b. spend default_settings 1 [] 7 False 7 2 None sample_db = (db', Some b) \<and>
     bv_paid b = 2 \<and> bv_month_used b \<le> bv_month_allowance b"
proof -
  have "\<exists>db' b. spend default_settings 1 [] 7 False 7 2 None sample_db = (db', Some b)"
    by (simp add: spend_eq can_pay_def Let_def)
  then obtain db' b
    where sp: "spend default_settings 1 [] 7 False 7 2 None sample_db = (db', Some b)" by blast
  from spend_charges_exactly [OF sp] sp show ?thesis by (simp add: balance_view_eq)
qed

text \<open>C2: however many charges race on one scope, in any order and mixed with charges on
  other scopes, together they take no more than the ration and the granted credits that were
  there, and no more than the month's ceiling leaves.\<close>

theorem race_never_overspends:
  assumes "row_of (credits db) k = Some r" and "row_ok r"
    and "\<And>n a m. (k, n, a, m) \<in> set qs \<Longrightarrow> 0 \<le> n \<and> a \<le> A \<and> m \<le> M"
  shows "accepted k qs db \<le> max (A - cr_free_used r) 0 + cr_paid r \<and>
    accepted k qs db \<le> max (M - cr_month_used r) 0"
  using race_bound [OF assms] by (simp_all add: pot_def)

theorem race_never_overspends_witness:
  "accepted 7 [(7, 3, 10, 310), (8, 1, 10, 310), (7, 3, 10, 310)] sample_db \<le> 4 \<and>
   accepted 7 [(7, 3, 10, 310), (8, 1, 10, 310), (7, 3, 10, 310)] sample_db = 3"
proof
  show "accepted 7 [(7, 3, 10, 310), (8, 1, 10, 310), (7, 3, 10, 310)] sample_db \<le> 4"
    using race_never_overspends [of sample_db 7 sample_row
        "[(7, 3, 10, 310), (8, 1, 10, 310), (7, 3, 10, 310)]" 10 310]
    by (simp add: sample_db_def row_ok_def)
  show "accepted 7 [(7, 3, 10, 310), (8, 1, 10, 310), (7, 3, 10, 310)] sample_db = 3"
    by (simp add: sample_db_def charge_def can_pay_def charge_row_def)
qed

text \<open>C3: from any state whose counters are not negative, no sequence of balances, spends,
  refunds and grants of non-negative amounts makes a counter or a granted credit negative.\<close>

theorem credits_never_negative:
  assumes "credits_ok db" and "\<And>x. x \<in> set xs \<Longrightarrow> 0 \<le> amount_of x"
    and "row_of (credits (fold (credit_step c) xs db)) k = Some r"
  shows "0 \<le> cr_free_used r \<and> 0 \<le> cr_paid r \<and> 0 \<le> cr_month_used r"
  using credits_okD [OF credit_run_ok [OF assms(1,2)] assms(3)] by (simp add: row_ok_def)

theorem credits_never_negative_witness:
  "\<exists>r. row_of (credits (fold (credit_step default_settings)
           [OpSpend 1 [] 7 False 7 2, OpRefund 7 7 1 ''failed'', OpGrant 1 [] 7 False 5] sample_db)) 7
         = Some r \<and> 0 \<le> cr_paid r"
proof -
  let ?xs = "[OpSpend 1 [] 7 False 7 2, OpRefund 7 7 1 ''failed'', OpGrant 1 [] 7 False 5]"
  have ok: "credits_ok sample_db"
    by (rule credits_okI) (auto simp: sample_db_def row_ok_def split: if_splits)
  have "\<exists>r. row_of (credits (fold (credit_step default_settings) ?xs sample_db)) 7 = Some r"
  proof -
    define db2 where "db2 = refund 7 7 1 ''failed'' (fst (spend default_settings 1 [] 7 False 7 2 None sample_db))"
    obtain db1 cur where b: "balance default_settings 1 [] 7 False db2 = (db1, cur)" by fastforce
    have "\<exists>r. row_of (credits db1) 7 = Some r"
      using balance_row [of default_settings 1 "[]" 7 False db2 7] b by simp
    then show ?thesis by (simp add: grant_def b db2_def [symmetric])
  qed
  then obtain r where
    r: "row_of (credits (fold (credit_step default_settings) ?xs sample_db)) 7 = Some r" by blast
  have "0 \<le> amount_of x" if "x \<in> set ?xs" for x using that by auto
  from credits_never_negative [OF ok this r] r show ?thesis by blast
qed



text \<open>When the ration was already used up, a spend takes granted credits, and the refund
  puts the credit into the ration instead: the granted credits stay spent and the counter of
  the ration goes down, so a credit that never expires comes back as one that lapses with the
  window.\<close>

theorem refund_turns_granted_into_ration:
  assumes "spend c now subs sid grp tid n det db = (db', Some b)"
  defines "r \<equiv> current_row c now sid grp db" and "a \<equiv> fst (allowance_for c now subs sid grp)"
  assumes "0 < n" "n \<le> cr_free_used r" "a \<le> cr_free_used r"
  shows "\<exists>r'. row_of (credits (refund sid tid n why db')) sid = Some r' \<and>
     cr_paid r' = cr_paid r - n \<and> cr_free_used r' = cr_free_used r - n"
proof -
  have "row_of (credits db') sid = Some (charge_row n a r)"
    using spend_Some(2) [OF assms(1)] by (simp add: r_def a_def)
  then show ?thesis
    using assms(4-6) by (simp add: refund_row_of refund_row_def charge_row_def)
qed

definition drained_db :: credit_db where
  "drained_db = \<lparr>credits = [(7, sample_row\<lparr>cr_free_used := 10\<rparr>)], ledger = []\<rparr>"

lemma drained_current [simp]:
  "current_row default_settings 1 7 False drained_db = sample_row\<lparr>cr_free_used := 10\<rparr>"
  by (simp add: current_row_def drained_db_def sample_row_def roll_def window_length_def
      default_settings_def time_simps)

theorem refund_turns_granted_into_ration_witness:
  "\<exists>db' b r'. spend default_settings 1 [] 7 False 7 1 None drained_db = (db', Some b) \<and>
     row_of (credits (refund 7 7 1 ''failed'' db')) 7 = Some r' \<and>
     cr_paid r' = 2 \<and> cr_free_used r' = 9"
proof -
  have "\<exists>db' b. spend default_settings 1 [] 7 False 7 1 None drained_db = (db', Some b)"
    by (simp add: spend_eq can_pay_def Let_def)
  then obtain db' b
    where sp: "spend default_settings 1 [] 7 False 7 1 None drained_db = (db', Some b)" by blast
  from refund_turns_granted_into_ration [OF sp, of "''failed''"] sp show ?thesis
    by simp
qed

text \<open>When a scope has used more of its window than it is now allowed (a subscription
  lapsed inside the window), a failed question paid with granted credits is refunded to no
  effect: what the scope can still ask is what it was after the charge.\<close>

theorem refund_lost_after_downgrade:
  assumes "spend c now subs sid grp tid n det db = (db', Some b)"
  defines "r \<equiv> current_row c now sid grp db" and "a \<equiv> fst (allowance_for c now subs sid grp)"
  assumes "0 < n" "a + n \<le> cr_free_used r" "0 \<le> a"
  shows "\<exists>r'. row_of (credits (refund sid tid n why db')) sid = Some r' \<and>
     max (a - cr_free_used r') 0 + cr_paid r' = max (a - cr_free_used r) 0 + cr_paid r - n"
proof -
  have "row_of (credits db') sid = Some (charge_row n a r)"
    using spend_Some(2) [OF assms(1)] by (simp add: r_def a_def)
  then show ?thesis
    using assms(4-6) by (simp add: refund_row_of refund_row_def charge_row_def)
qed

definition lapsed_db :: credit_db where
  "lapsed_db = \<lparr>credits = [(7, sample_row\<lparr>cr_free_used := 50\<rparr>)], ledger = []\<rparr>"

lemma lapsed_current [simp]:
  "current_row default_settings 1 7 False lapsed_db = sample_row\<lparr>cr_free_used := 50\<rparr>"
  by (simp add: current_row_def lapsed_db_def sample_row_def roll_def window_length_def
      default_settings_def time_simps)

theorem refund_lost_after_downgrade_witness:
  "\<exists>db' b r'. spend default_settings 1 [] 7 False 7 1 None lapsed_db = (db', Some b) \<and>
     row_of (credits (refund 7 7 1 ''failed'' db')) 7 = Some r' \<and>
     max (10 - cr_free_used r') 0 + cr_paid r' = 2"
proof -
  have "\<exists>db' b. spend default_settings 1 [] 7 False 7 1 None lapsed_db = (db', Some b)"
    by (simp add: spend_eq can_pay_def Let_def)
  then obtain db' b
    where sp: "spend default_settings 1 [] 7 False 7 1 None lapsed_db = (db', Some b)" by blast
  from refund_lost_after_downgrade [OF sp, of "''failed''"] sp show ?thesis
    by simp
qed

end
