(* ===== verification/Calendar.thy ===== *)
theory Calendar
  imports PyText
begin

text \<open>
  The part of Python's \<open>datetime\<close> the services use, on the proleptic Gregorian calendar in UTC:
  dates from a day number (day 0 is 1970-01-01) and back, weekdays, ISO weeks, and the ISO 8601
  texts of moments. Moments are microseconds since the epoch. A year is counted from March, so
  that the leap day is its last day.
\<close>

section \<open>Dates\<close>

record date =
  year :: int
  month :: int
  day :: int

definition year_days :: "int \<Rightarrow> int" where
  "year_days y = 365 * y + y div 4 - y div 100 + y div 400"

definition days_from_civil :: "int \<Rightarrow> int \<Rightarrow> int \<Rightarrow> int" where
  "days_from_civil y m d =
     (let y' = (if m \<le> 2 then y - 1 else y); mp = (if m > 2 then m - 3 else m + 9)
      in year_days y' + (153 * mp + 2) div 5 + d - 719469)"

text \<open>The March-based year of a day number: the estimate is at most one year too late.\<close>

definition march_year :: "int \<Rightarrow> int" where
  "march_year z =
     (let e = (400 * z + 591) div 146097 in if year_days e \<le> z then e else e - 1)"

definition date_of_days :: "int \<Rightarrow> date" where
  "date_of_days n =
     (let z = n + 719468; y = march_year z; doy = z - year_days y; mp = (5 * doy + 2) div 153;
          m = (if mp < 10 then mp + 3 else mp - 9)
      in \<lparr>year = (if m \<le> 2 then y + 1 else y), month = m, day = doy - (153 * mp + 2) div 5 + 1\<rparr>)"

definition day_of :: "int \<Rightarrow> int" where
  "day_of t = t div 86400000000"

text \<open>Monday is 0.\<close>

definition weekday :: "int \<Rightarrow> int" where
  "weekday n = (n + 3) mod 7"

text \<open>\<open>isocalendar()\<close>: the year and week of the Thursday of the same week.\<close>

definition iso_week :: "int \<Rightarrow> int \<times> int" where
  "iso_week n =
     (let thursday = n - weekday n + 3; y = year (date_of_days thursday)
      in (y, (thursday - days_from_civil y 1 1) div 7 + 1))"

definition leap :: "int \<Rightarrow> bool" where
  "leap y \<longleftrightarrow> y mod 4 = 0 \<and> (y mod 100 \<noteq> 0 \<or> y mod 400 = 0)"

definition month_length :: "int \<Rightarrow> int \<Rightarrow> int" where
  "month_length y m =
     (if m = 2 then (if leap y then 29 else 28) else if m \<in> {4, 6, 9, 11} then 30 else 31)"

section \<open>Texts\<close>

definition padded :: "nat \<Rightarrow> int \<Rightarrow> string" where
  "padded k n = rjust (show_int n) k CHR ''0''"

definition date_text :: "int \<Rightarrow> string" where
  "date_text n =
     (let x = date_of_days n
      in padded 4 (year x) @ ''-'' @ padded 2 (month x) @ ''-'' @ padded 2 (day x))"

definition month_text :: "int \<Rightarrow> string" where
  "month_text n = (let x = date_of_days n in padded 4 (year x) @ ''-'' @ padded 2 (month x))"

definition week_text :: "int \<Rightarrow> string" where
  "week_text n = (case iso_week n of (y, k) \<Rightarrow> padded 4 y @ ''-W'' @ padded 2 k)"

text \<open>\<open>strftime("%Y-%m-%dT%H:%M:%SZ")\<close>.\<close>

definition utc_text :: "int \<Rightarrow> string" where
  "utc_text t =
     (let s = t mod 86400000000 div 1000000
      in date_text (day_of t) @ ''T'' @ padded 2 (s div 3600) @ '':'' @ padded 2 (s div 60 mod 60) @ '':'' @
         padded 2 (s mod 60) @ ''Z'')"

section \<open>Reading moments\<close>

text \<open>
  \<open>datetime.fromisoformat(s).timestamp()\<close> for texts \<open>YYYY-MM-DD?HH:MM:SS\<close> with an optional
  fraction and an optional offset \<open>+HH:MM\<close>; a text without an offset is read as UTC. The
  shorter forms the library accepts as well are not read.
\<close>

definition number :: "nat \<Rightarrow> string \<Rightarrow> (int \<times> string) option" where
  "number k s =
     (if length s \<ge> k \<and> list_all is_digit (take k s)
      then map_option (\<lambda>n. (n, drop k s)) (read_digits 10 0 False (take k s)) else None)"

definition after_char :: "char \<Rightarrow> string \<Rightarrow> string option" where
  "after_char c s = (case s of [] \<Rightarrow> None | x # xs \<Rightarrow> if x = c then Some xs else None)"

definition read_date :: "string \<Rightarrow> (int \<times> string) option" where
  "read_date s =
     Option.bind (number 4 s) (\<lambda>(y, s1).
     Option.bind (after_char CHR ''-'' s1) (\<lambda>s2.
     Option.bind (number 2 s2) (\<lambda>(m, s3).
     Option.bind (after_char CHR ''-'' s3) (\<lambda>s4.
     Option.bind (number 2 s4) (\<lambda>(d, s5).
       if 1 \<le> y \<and> 1 \<le> m \<and> m \<le> 12 \<and> 1 \<le> d \<and> d \<le> month_length y m
       then Some (days_from_civil y m d, s5) else None)))))"

definition read_clock :: "string \<Rightarrow> (int \<times> string) option" where
  "read_clock s =
     Option.bind (number 2 s) (\<lambda>(h, s1).
     Option.bind (after_char CHR '':'' s1) (\<lambda>s2.
     Option.bind (number 2 s2) (\<lambda>(m, s3).
     Option.bind (after_char CHR '':'' s3) (\<lambda>s4.
     Option.bind (number 2 s4) (\<lambda>(sec, s5).
       if h < 24 \<and> m < 60 \<and> sec < 60 then Some (3600 * h + 60 * m + sec, s5) else None)))))"

definition read_fraction :: "string \<Rightarrow> (int \<times> string) option" where
  "read_fraction s =
     (case after_char CHR ''.'' s of
        None \<Rightarrow> Some (0, s)
      | Some rest \<Rightarrow>
          let ds = takeWhile is_digit rest in
            if ds = [] then None
            else map_option (\<lambda>n. (n, dropWhile is_digit rest))
                   (read_digits 10 0 False (take 6 (ds @ replicate 6 CHR ''0''))))"

definition read_offset :: "string \<Rightarrow> int option" where
  "read_offset s =
     (if s = [] then Some 0
      else if hd s = CHR ''+'' \<or> hd s = CHR ''-'' then
        Option.bind (number 2 (tl s)) (\<lambda>(h, s1).
        Option.bind (after_char CHR '':'' s1) (\<lambda>s2.
        Option.bind (number 2 s2) (\<lambda>(m, s3).
          if s3 = [] \<and> h < 24 \<and> m < 60
          then Some ((if hd s = CHR ''-'' then -1 else 1) * (3600 * h + 60 * m)) else None)))
      else None)"

definition read_iso :: "string \<Rightarrow> int option" where
  "read_iso s =
     Option.bind (read_date s) (\<lambda>(d, s1).
     case s1 of
       [] \<Rightarrow> None
     | _ # s2 \<Rightarrow>
         Option.bind (read_clock s2) (\<lambda>(secs, s3).
         Option.bind (read_fraction s3) (\<lambda>(us, s4).
         Option.bind (read_offset s4) (\<lambda>offset.
           Some ((86400 * d + secs - offset) * 1000000 + us)))))"

section \<open>Lemmas\<close>

lemma scaled_days:
  "400 * year_days y = 146097 * y - 100 * (y mod 4) + 4 * (y mod 100) - y mod 400"
proof -
  have linear: "y = 4 * a + r \<Longrightarrow> y = 100 * b + s \<Longrightarrow> y = 400 * e + u \<Longrightarrow>
      400 * (365 * y + a - b + e) = 146097 * y - 100 * r + 4 * s - u" for a b e r s u :: int
    by algebra
  show ?thesis unfolding year_days_def by (rule linear) simp_all
qed

lemma scaled_bounds:
  "400 * year_days y \<le> 146097 * y + 297" "146097 * y - 591 \<le> 400 * year_days y"
proof -
  define a where "a = y mod 100"
  define q where "q = y mod 400 div 100"
  have "y mod 400 mod 100 = a" by (simp add: a_def mod_mod_cancel)
  then have y: "y mod 400 = 100 * q + a" using mult_div_mod_eq [of 100 "y mod 400"] by (simp add: q_def)
  have "y mod 4 = a mod 4" by (simp add: a_def mod_mod_cancel)
  then have r: "y mod 4 \<le> a" "0 \<le> y mod 4" "y mod 4 \<le> 3"
    using zmod_le_nonneg_dividend [of a 4] by (simp_all add: a_def)
  have a: "0 \<le> a" "a \<le> 99" by (simp_all add: a_def)
  have q: "0 \<le> q" "q \<le> 3" using y a by (simp_all add: q_def pos_imp_zdiv_nonneg_iff)
  show "400 * year_days y \<le> 146097 * y + 297" "146097 * y - 591 \<le> 400 * year_days y"
    unfolding scaled_days y a_def [symmetric] using r a q by linarith+
qed

lemma march_year_bounds:
  "year_days (march_year z) \<le> z" "z < year_days (march_year z + 1)"
proof -
  define e where "e = (400 * z + 591) div 146097"
  have e: "146097 * e \<le> 400 * z + 591" "400 * z + 591 < 146097 * e + 146097"
    using mult_div_mod_eq [of 146097 "400 * z + 591"] pos_mod_bound [of 146097 "400 * z + 591"]
      pos_mod_sign [of 146097 "400 * z + 591"] unfolding e_def by linarith+
  have "400 * year_days (e - 1) \<le> 146097 * e - 146097 + 297"
    using scaled_bounds(1) [of "e - 1"] by (simp add: algebra_simps)
  then have "year_days (e - 1) \<le> z" using e(1) by linarith
  moreover have "146097 * e + 146097 - 591 \<le> 400 * year_days (e + 1)"
    using scaled_bounds(2) [of "e + 1"] by (simp add: algebra_simps)
  then have "z < year_days (e + 1)" using e(2) by linarith
  ultimately show "year_days (march_year z) \<le> z" "z < year_days (march_year z + 1)"
    unfolding march_year_def Let_def e_def [symmetric] by auto
qed

text \<open>Reading a date back gives its day number.\<close>

lemma days_of_date:
  "days_from_civil (year (date_of_days n)) (month (date_of_days n)) (day (date_of_days n)) = n"
proof -
  define z where "z = n + 719468"
  define y where "y = march_year z"
  define mp where "mp = (5 * (z - year_days y) + 2) div 153"
  have doy: "0 \<le> z - year_days y" "z - year_days y \<le> 366"
  proof -
    have "400 * year_days (y + 1) \<le> 146097 * y + 146394"
      using scaled_bounds(1) [of "y + 1"] by (simp add: algebra_simps)
    then show "0 \<le> z - year_days y" "z - year_days y \<le> 366"
      using march_year_bounds [of z, folded y_def] scaled_bounds(2) [of y] by linarith+
  qed
  have "0 \<le> mp" "mp \<le> 11" using doy unfolding mp_def by (simp_all add: pos_imp_zdiv_nonneg_iff)
  then show ?thesis
    unfolding date_of_days_def days_from_civil_def Let_def z_def [symmetric] y_def [symmetric] mp_def [symmetric]
    by (auto simp: z_def)
qed

end
