(* ===== verification/Gateway.thy ===== *)
theory Gateway
  imports Wallet Calendar
begin

text \<open>
  The client of the API gateway, \<open>app/gateway_client.py\<close>, and the sign-in on a user's behalf,
  \<open>app/services/auth.py\<close>. The payload of a gateway call holds its headers and its body. The
  cookie an exchange sets is \<open>auth_cookie\<close> at the exchange's number. The module's cache of
  tokens is part of the state.
\<close>

section \<open>The client\<close>

definition gateway_headers :: "string option \<Rightarrow> json" where
  "gateway_headers jwt =
     JObj ((''X-Requested-With'', JStr ''XMLHttpRequest'') #
       (if or_text_opt jwt [] = [] then []
        else [(''Authorization'', JStr (''Bearer '' @ or_text_opt jwt []))]))"

definition gateway_call ::
  "settings \<Rightarrow> outside \<Rightarrow> string \<Rightarrow> string \<Rightarrow> (string \<times> json) list
    \<Rightarrow> ('z world_scheme, int \<times> json option) io" where
  "gateway_call c env verb path payload =
     bind (http_call env verb (rstrip_chars ''/'' (GATEWAY_URL c) @ path) (JObj payload)) (\<lambda>o1.
       case o1 of
         Transport_Error cls msg \<Rightarrow> throw (GatewayError (''gateway unreachable: '' @ msg))
       | Reply status body \<Rightarrow> return (status, body))"

definition gateway_post ::
  "settings \<Rightarrow> outside \<Rightarrow> string \<Rightarrow> json \<Rightarrow> string option \<Rightarrow> ('z world_scheme, int \<times> json option) io" where
  "gateway_post c env path body jwt =
     gateway_call c env ''POST'' path [(''headers'', gateway_headers jwt), (''json'', body)]"

definition gateway_get ::
  "settings \<Rightarrow> outside \<Rightarrow> string \<Rightarrow> json \<Rightarrow> string option \<Rightarrow> ('z world_scheme, int \<times> json option) io" where
  "gateway_get c env path params jwt =
     gateway_call c env ''GET'' path [(''headers'', gateway_headers jwt), (''params'', params)]"

lemma framed_gateway:
  "framed (gateway_post c env path body jwt)" "framed (gateway_get c env path body jwt)"
  unfolding gateway_post_def gateway_get_def gateway_call_def by (intro framed_rules)+

section \<open>Sign-in\<close>

record auth_state = wallet_state +
  jwt_cache :: "(int, string \<times> usec) table"

definition REFRESH_SKEW :: usec where "REFRESH_SKEW = seconds 60"
definition AUTH_CHAIN :: string where "AUTH_CHAIN = ''evm''"

definition newline :: string where "newline = [CHR 0x0A]"

definition build_message :: "settings \<Rightarrow> usec \<Rightarrow> string \<Rightarrow> string \<Rightarrow> string" where
  "build_message c now address nonce =
     (let domain = or_text (OPRAI_TG_APP_DOMAIN c) ''localhost''
      in domain @ '' wants you to sign in with your Ethereum account:'' @ newline @
         address @ newline @ newline @
         ''Sign in to OPRAI on Robinhood Chain.'' @ newline @ newline @
         ''URI: https://'' @ domain @ newline @
         ''Version: 1'' @ newline @
         ''Chain ID: '' @ show_int ROBINHOOD @ newline @
         ''Nonce: '' @ nonce @ newline @
         ''Issued At: '' @ utc_text now)"

text \<open>\<open>s.replace("Z", "+00:00")\<close>.\<close>

definition spell_zulu :: "string \<Rightarrow> string" where
  "spell_zulu s = concat (map (\<lambda>x. if x = CHR ''Z'' then ''+00:00'' else [x]) s)"

definition expiry_epoch :: "usec \<Rightarrow> json option \<Rightarrow> usec" where
  "expiry_epoch now body =
     (case body of
        Some (JObj kvs) \<Rightarrow>
          (case (case map_of kvs ''expiresAt'' of None \<Rightarrow> JStr [] | Some v \<Rightarrow> v) of
             JStr s \<Rightarrow> (case read_iso (spell_zulu s) of None \<Rightarrow> now + seconds 3600 | Some t \<Rightarrow> t)
           | _ \<Rightarrow> now + seconds 3600)
      | _ \<Rightarrow> now + seconds 3600)"

definition json_body :: "int \<times> json option \<Rightarrow> exn + json" where
  "json_body r = or_raise ValueError (snd r)"

definition is_signer_error :: "exn \<Rightarrow> bool" where
  "is_signer_error e = (case e of SignerError _ \<Rightarrow> True | _ \<Rightarrow> False)"

definition exn_text :: "exn \<Rightarrow> string" where
  "exn_text e =
     (case e of EvmError m \<Rightarrow> m | SignerError m \<Rightarrow> m | PortfolioError m \<Rightarrow> m | PriceUnavailable m \<Rightarrow> m
      | SubscriptionError m \<Rightarrow> m | TokenError m \<Rightarrow> m | GatewayError m \<Rightarrow> m | RelayError m \<Rightarrow> m
      | SushiError m \<Rightarrow> m | UniswapError m \<Rightarrow> m | OpenSeaError m \<Rightarrow> m | SignalsError m \<Rightarrow> m
      | CopyError m \<Rightarrow> m | MorphoError m \<Rightarrow> m | LaunchError m \<Rightarrow> m | LighterError m \<Rightarrow> m | PayoutError m \<Rightarrow> m | RuntimeError m \<Rightarrow> m | HttpError m \<Rightarrow> m | AuthError m \<Rightarrow> m | KeyError m \<Rightarrow> [CHR 0x27] @ m @ [CHR 0x27] | _ \<Rightarrow> [])"

definition cookie_of_last :: "outside \<Rightarrow> 'z world_scheme \<Rightarrow> string" where
  "cookie_of_last env w = or_text_opt (auth_cookie env (looks w - 1)) []"

definition authenticate :: "settings \<Rightarrow> outside \<Rightarrow> int \<Rightarrow> ('z auth_state_scheme, string) io" where
  "authenticate c env tid =
     bind (get_or_create_wallet c env tid) (\<lambda>w.
     bind (gateway_post c env ''/auth/nonce'' (JObj []) None) (\<lambda>r.
       if fst r \<noteq> 200 then throw (AuthError (''nonce failed ('' @ show_int (fst r) @ '')''))
       else
         bind (from_sum (json_body r)) (\<lambda>body.
         bind (from_sum (item ''nonce'' body)) (\<lambda>nonce.
         bind (from_sum (item ''nonceId'' body)) (\<lambda>nonce_id.
         bind (gets (\<lambda>s. build_message c (utc_now env s) (wr_address w) (py_str env nonce))) (\<lambda>message.
         bind (try_except (signer_sign c env AUTH_CHAIN (wr_enc_key_ref w) message)
                 (\<lambda>e. if is_signer_error e then throw (AuthError (''signer failed: '' @ exn_text e)) else throw e))
           (\<lambda>signed.
         bind (from_sum (item ''signature'' signed)) (\<lambda>signature.
         bind (gateway_post c env ''/auth/verify''
                 (JObj [(''walletAddress'', JStr (wr_address w)), (''signature'', signature),
                        (''nonceId'', nonce_id), (''chain'', JStr ''ethereum''), (''message'', JStr message)]) None)
           (\<lambda>v.
         if fst v \<noteq> 200 then
           throw (AuthError (''verify failed ('' @ show_int (fst v) @ ''): '' @ take 200 (raw_text env (snd v))))
         else
           bind (gets (cookie_of_last env)) (\<lambda>jwt.
             if jwt = [] then throw (AuthError ''verify succeeded but no auth cookie returned'')
             else
               bind (modify (\<lambda>s. s\<lparr>jwt_cache :=
                   put_row tid (jwt, expiry_epoch (utc_now env s) (snd v)) (jwt_cache s)\<rparr>)) (\<lambda>_.
                 return jwt)))))))))))"

definition sign_in :: "settings \<Rightarrow> outside \<Rightarrow> int \<Rightarrow> ('z auth_state_scheme, string) io" where
  "sign_in c env tid =
     try_except (authenticate c env tid)
       (\<lambda>e. case e of
              GatewayError m \<Rightarrow> throw (AuthError m)
            | SignerError m \<Rightarrow> throw (AuthError m)
            | _ \<Rightarrow> throw e)"

definition get_jwt :: "settings \<Rightarrow> outside \<Rightarrow> int \<Rightarrow> ('z auth_state_scheme, string) io" where
  "get_jwt c env tid =
     bind (gets (\<lambda>s. (row_of (jwt_cache s) tid, utc_now env s))) (\<lambda>(cached, now).
       case cached of
         Some (jwt, expiry) \<Rightarrow> if expiry - REFRESH_SKEW > now then return jwt else sign_in c env tid
       | None \<Rightarrow> sign_in c env tid)"

end
