(* ===== verification/Readings.thy ===== *)
theory Readings
  imports World
begin

text \<open>
  Python's \<open>float(x)\<close> on a JSON value. A decimal literal is read exactly and rounded once to a
  double; the literals for infinities and for no number are not read.
\<close>

definition digit_or_bar :: "char \<Rightarrow> bool" where
  "digit_or_bar x \<longleftrightarrow> is_digit x \<or> x = CHR ''_''"

definition split_sign :: "string \<Rightarrow> bool \<times> string" where
  "split_sign s =
     (case s of
        [] \<Rightarrow> (False, [])
      | x # xs \<Rightarrow> if x = CHR ''-'' then (True, xs) else if x = CHR ''+'' then (False, xs) else (False, s))"

definition read_group :: "string \<Rightarrow> int option" where
  "read_group ds = (if ds = [] then Some 0 else read_digits 10 0 False ds)"

definition count_digits :: "string \<Rightarrow> nat" where
  "count_digits ds = length (filter is_digit ds)"

definition read_exponent :: "string \<Rightarrow> int option" where
  "read_exponent s =
     (case s of
        [] \<Rightarrow> Some 0
      | x # xs \<Rightarrow>
          if x = CHR ''e'' \<or> x = CHR ''E'' then
            (case split_sign xs of (neg, ds) \<Rightarrow>
               map_option (\<lambda>n. if neg then - n else n) (read_digits 10 0 False ds))
          else None)"

definition read_decimal :: "string \<Rightarrow> rat option" where
  "read_decimal text =
     (case split_sign (strip text) of (neg, s) \<Rightarrow>
        let whole = takeWhile digit_or_bar s; r1 = dropWhile digit_or_bar s;
            pointed = (r1 \<noteq> [] \<and> hd r1 = CHR ''.'');
            frac = (if pointed then takeWhile digit_or_bar (tl r1) else []);
            r2 = (if pointed then dropWhile digit_or_bar (tl r1) else r1)
        in if whole = [] \<and> frac = [] then None
           else (case (read_group whole, read_group frac, read_exponent r2) of
               (Some w, Some f, Some e) \<Rightarrow>
                 let v = (of_int w + of_int f / 10 ^ count_digits frac) * 10 powi e
                 in Some (if neg then - v else v)
             | _ \<Rightarrow> None))"

definition float_of :: "json \<Rightarrow> exn + rat" where
  "float_of j =
     (case j of
        JInt n \<Rightarrow> Inr (to_float n)
      | JFloat x \<Rightarrow> Inr x
      | JBool b \<Rightarrow> Inr (if b then 1 else 0)
      | JStr s \<Rightarrow> or_raise ValueError (map_option b64 (read_decimal s))
      | _ \<Rightarrow> Inl TypeError)"

text \<open>\<open>float(d.get(k) or 0)\<close>.\<close>

definition float_field :: "string \<Rightarrow> json \<Rightarrow> exn + rat" where
  "float_field k j = then_sum (field k j) (\<lambda>v. float_of (j_or v (JInt 0)))"

end
