(* ===== verification/Venues.thy ===== *)
theory Venues
  imports Gateway Readings
begin

text \<open>
  The trading venues: Relay (\<open>app/services/relay.py\<close>), SushiSwap (\<open>sushi.py\<close>), Uniswap
  (\<open>uniswap.py\<close>) and OpenSea (\<open>opensea.py\<close>). Each asks the gateway for transactions and has them
  signed, sent and confirmed one after another. The callbacks \<open>on_step\<close> (chat messages) are left
  out. A recipient or calldata that is no text raises when the transaction is read.
\<close>

section \<open>Shared steps\<close>

definition error_text_of :: "outside \<Rightarrow> int \<times> json option \<Rightarrow> string" where
  "error_text_of env r =
     (case snd r of
        Some (JObj kvs) \<Rightarrow>
          (let get = (\<lambda>k. case map_of kvs k of None \<Rightarrow> JNull | Some v \<Rightarrow> v)
           in take 300 (py_str env (j_or (j_or (get ''error'') (get ''message'')) (JStr (raw_text env (snd r))))))
      | _ \<Rightarrow> ''HTTP '' @ show_int (fst r))"

text \<open>\<open>gateway.post\<close> with the errors of one venue: \<open>err\<close> makes its exception.\<close>

definition venue_post ::
  "settings \<Rightarrow> outside \<Rightarrow> (string \<Rightarrow> exn) \<Rightarrow> string \<Rightarrow> string \<Rightarrow> json \<Rightarrow> ('z world_scheme, json) io" where
  "venue_post c env err jwt path body =
     bind (try_except (gateway_post c env path body (Some jwt))
             (\<lambda>e. case e of GatewayError m \<Rightarrow> throw (err m) | _ \<Rightarrow> throw e)) (\<lambda>r.
       if fst r \<noteq> 200 then throw (err (error_text_of env r)) else from_sum (json_body r))"

definition text_or_none :: "json \<Rightarrow> exn + string option" where
  "text_or_none j =
     (if \<not> truthy j then Inr None else case j of JStr s \<Rightarrow> Inr (Some s) | _ \<Rightarrow> Inl TypeError)"

definition provider_of :: "json \<Rightarrow> exn + provider_tx" where
  "provider_of d =
     then_sum (field ''to'' d) (\<lambda>to. then_sum (text_or_none to) (\<lambda>to.
     then_sum (field ''data'' d) (\<lambda>dat. then_sum (text_or_none dat) (\<lambda>dat.
     then_sum (field ''chainId'' d) (\<lambda>ch. then_sum (field ''value'' d) (\<lambda>v.
     then_sum (field ''gas'' d) (\<lambda>g. then_sum (field ''gasLimit'' d) (\<lambda>gl.
     then_sum (field ''maxFeePerGas'' d) (\<lambda>mf. then_sum (field ''maxPriorityFeePerGas'' d) (\<lambda>mp.
       Inr \<lparr>pt_chainId = ch, pt_to = to, pt_data = dat, pt_value = v, pt_gas = g, pt_gasLimit = gl,
            pt_maxFeePerGas = mf, pt_maxPriorityFeePerGas = mp\<rparr>))))))))))"

text \<open>One transaction: completed, signed, sent and confirmed. Only the errors of sending get the
  venue's exception.\<close>

definition run_tx ::
  "settings \<Rightarrow> outside \<Rightarrow> (string \<Rightarrow> exn) \<Rightarrow> int option \<Rightarrow> string \<Rightarrow> string \<Rightarrow> string \<Rightarrow> json
    \<Rightarrow> ('z world_scheme, json) io" where
  "run_tx c env err chain_opt enc_key_ref from_addr label data =
     bind (from_sum (provider_of data)) (\<lambda>p.
     bind (build_tx_from_provider c env from_addr p chain_opt) (\<lambda>t.
       try_except (send_and_confirm c env enc_key_ref t label)
         (\<lambda>e. if is_evm_error e then throw (err (evm_message e)) else throw e)))"

definition step_label :: "nat \<Rightarrow> nat \<Rightarrow> string" where
  "step_label n all_n = ''step '' @ show_int (int n) @ ''/'' @ show_int (int all_n)"

definition list_field :: "string \<Rightarrow> json \<Rightarrow> exn + json list" where
  "list_field k j = then_sum (field k j) (\<lambda>v. iterate (j_or v (JArr [])))"

definition object_field :: "string \<Rightarrow> json \<Rightarrow> exn + json" where
  "object_field k j = then_sum (field k j) (\<lambda>v. Inr (j_or v (JObj [])))"

section \<open>Relay\<close>

definition RELAY_NATIVE :: string where
  "RELAY_NATIVE = ''0x0000000000000000000000000000000000000000''"

definition relay_build_params ::
  "string \<Rightarrow> string \<Rightarrow> string \<Rightarrow> int \<Rightarrow> int \<Rightarrow> string option \<Rightarrow> string option \<Rightarrow> string \<Rightarrow> json" where
  "relay_build_params origin destination amount origin_chain destination_chain sender recipient trade_type =
     JObj ([(''originChainId'', JInt origin_chain), (''destinationChainId'', JInt destination_chain),
            (''originCurrency'', JStr origin), (''destinationCurrency'', JStr destination),
            (''amount'', JStr amount), (''tradeType'', JStr trade_type)] @
       (if or_text_opt sender [] = [] then [] else [(''sender'', JStr (or_text_opt sender []))]) @
       (if or_text_opt recipient [] = [] then [] else [(''recipient'', JStr (or_text_opt recipient []))]))"

definition relay_build_action ::
  "settings \<Rightarrow> outside \<Rightarrow> string \<Rightarrow> string \<Rightarrow> json \<Rightarrow> ('z world_scheme, json) io" where
  "relay_build_action c env jwt action_type params =
     venue_post c env RelayError jwt ''/actions/build''
       (JObj [(''type'', JStr action_type), (''params'', params)])"

definition relay_quote :: "settings \<Rightarrow> outside \<Rightarrow> string \<Rightarrow> json \<Rightarrow> ('z world_scheme, json) io" where
  "relay_quote c env jwt params =
     bind (relay_build_action c env jwt ''relay_get_quote'' params) (\<lambda>res.
     bind (from_sum (field ''quote'' res)) (\<lambda>q.
       if \<not> truthy q then throw (RelayError ''no route for that pair right now'') else return q))"

definition relay_build ::
  "settings \<Rightarrow> outside \<Rightarrow> string \<Rightarrow> json \<Rightarrow> ('z world_scheme, json \<times> json \<times> json) io" where
  "relay_build c env jwt params =
     bind (relay_build_action c env jwt ''relay_bridge'' params) (\<lambda>res.
     bind (from_sum (field ''executionSteps'' res)) (\<lambda>es.
     bind (from_sum (object_field ''quote'' res)) (\<lambda>q.
       if \<not> truthy es then throw (RelayError ''Relay returned no transactions to execute'')
       else bind (from_sum (field ''requestId'' q)) (\<lambda>rid. return (es, rid, q)))))"

definition relay_side :: "json \<Rightarrow> exn + json" where
  "relay_side x =
     then_sum (object_field ''currency'' x) (\<lambda>cur.
     then_sum (field ''symbol'' cur) (\<lambda>s.
     then_sum (field ''amountFormatted'' x) (\<lambda>af.
     then_sum (field ''amount'' x) (\<lambda>a.
     then_sum (field ''amountUsd'' x) (\<lambda>usd.
       Inr (JObj [(''symbol'', j_or s (JStr ''?'')), (''amount'', j_or (j_or af a) (JStr ''?'')),
                  (''usd'', usd)]))))))"

definition relay_summarize :: "json \<Rightarrow> exn + json" where
  "relay_summarize q =
     then_sum (object_field ''details'' q) (\<lambda>details.
     then_sum (object_field ''currencyIn'' details) (\<lambda>cin.
     then_sum (object_field ''currencyOut'' details) (\<lambda>cout.
     then_sum (relay_side cin) (\<lambda>inside.
     then_sum (relay_side cout) (\<lambda>outs.
     then_sum (field ''minimumAmount'' cout) (\<lambda>least.
     then_sum (field ''priceImpact'' details) (\<lambda>impact.
     then_sum (field ''estimatedTime'' details) (\<lambda>eta.
       Inr (JObj [(''in'', inside), (''out'', outs), (''min_out'', least), (''impact'', impact),
                  (''eta_s'', eta)])))))))))"

text \<open>The data of an item, and whether it has a recipient.\<close>

definition item_data :: "json \<Rightarrow> exn + json \<times> bool" where
  "item_data it =
     then_sum (object_field ''data'' it) (\<lambda>d. then_sum (field ''to'' d) (\<lambda>to. Inr (d, truthy to)))"

definition step_items :: "json \<Rightarrow> exn + json list" where
  "step_items step = list_field ''items'' step"

definition count_transactions :: "json list \<Rightarrow> exn + nat" where
  "count_transactions steps =
     then_sum (collect step_items steps) (\<lambda>itemss.
     then_sum (collect item_data (concat itemss)) (\<lambda>ds. Inr (length (filter snd ds))))"

primrec run_items ::
  "settings \<Rightarrow> outside \<Rightarrow> string \<Rightarrow> string \<Rightarrow> nat \<Rightarrow> json list \<Rightarrow> json list
    \<Rightarrow> ('z world_scheme, json list) io" where
  "run_items c env enc_key_ref from_addr all_n hashes [] = return hashes"
| "run_items c env enc_key_ref from_addr all_n hashes (it # rest) =
     bind (from_sum (item_data it)) (\<lambda>(data, sends).
       if \<not> sends then run_items c env enc_key_ref from_addr all_n hashes rest
       else
         bind (run_tx c env RelayError None enc_key_ref from_addr
                 (step_label (length hashes + 1) all_n) data) (\<lambda>h.
           run_items c env enc_key_ref from_addr all_n (hashes @ [h]) rest))"

primrec run_steps ::
  "settings \<Rightarrow> outside \<Rightarrow> string \<Rightarrow> string \<Rightarrow> nat \<Rightarrow> json list \<Rightarrow> json list
    \<Rightarrow> ('z world_scheme, json list) io" where
  "run_steps c env enc_key_ref from_addr all_n hashes [] = return hashes"
| "run_steps c env enc_key_ref from_addr all_n hashes (step # rest) =
     bind (from_sum (step_items step)) (\<lambda>items.
     bind (run_items c env enc_key_ref from_addr all_n hashes items) (\<lambda>hs.
       run_steps c env enc_key_ref from_addr all_n hs rest))"

definition execute_steps ::
  "settings \<Rightarrow> outside \<Rightarrow> string \<Rightarrow> string \<Rightarrow> json list \<Rightarrow> ('z world_scheme, json list) io" where
  "execute_steps c env enc_key_ref from_addr steps =
     bind (from_sum (count_transactions steps)) (\<lambda>all_n.
     bind (run_steps c env enc_key_ref from_addr all_n [] steps) (\<lambda>hashes.
       if hashes = [] then throw (RelayError ''Relay returned no broadcastable transaction'')
       else return hashes))"

definition relay_record :: "settings \<Rightarrow> outside \<Rightarrow> string \<Rightarrow> json \<Rightarrow> ('z world_scheme, unit) io" where
  "relay_record c env jwt request_id =
     try_except
       (bind (gateway_post c env ''/actions/relay/record'' (JObj [(''requestId'', request_id)]) (Some jwt))
          (\<lambda>_. return ()))
       (\<lambda>e. case e of GatewayError _ \<Rightarrow> return () | _ \<Rightarrow> throw e)"

definition intent_status :: "settings \<Rightarrow> outside \<Rightarrow> string \<Rightarrow> string \<Rightarrow> ('z world_scheme, json) io" where
  "intent_status c env jwt request_id =
     bind (gateway_get c env ''/actions/relay/intent-status'' (JObj [(''requestId'', JStr request_id)]) (Some jwt))
       (\<lambda>r. if fst r \<noteq> 200 then throw (RelayError (error_text_of env r)) else from_sum (json_body r))"

section \<open>SushiSwap\<close>

definition sushi_swap ::
  "settings \<Rightarrow> outside \<Rightarrow> string \<Rightarrow> string \<Rightarrow> string \<Rightarrow> string \<Rightarrow> rat \<Rightarrow> rat \<Rightarrow> ('z world_scheme, json) io" where
  "sushi_swap c env jwt wallet token_in token_out amount slippage_pct =
     bind (venue_post c env SushiError jwt ''/actions/sushi/swap''
             (JObj [(''tokenIn'', JStr token_in), (''tokenOut'', JStr token_out),
                    (''walletAddress'', JStr wallet), (''amount'', JStr (py_str env (JFloat amount))),
                    (''slippagePct'', JFloat slippage_pct)])) (\<lambda>res0.
     let res = j_or res0 (JObj []) in
     bind (from_sum (field ''transactions'' res)) (\<lambda>txs.
       if \<not> truthy txs then throw (SushiError ''no route for that pair right now'') else return res))"

definition sushi_transaction_count :: "json \<Rightarrow> exn + nat" where
  "sushi_transaction_count res = then_sum (list_field ''transactions'' res) (\<lambda>txs. Inr (length txs))"

definition sushi_summarize :: "json \<Rightarrow> exn + json" where
  "sushi_summarize res =
     then_sum (field ''expectedAmountOut'' res) (\<lambda>out_amount.
     then_sum (field ''priceImpact'' res) (\<lambda>impact.
     then_sum (field ''swapPrice'' res) (\<lambda>price.
     then_sum (sushi_transaction_count res) (\<lambda>n.
       Inr (JObj [(''venue'', JStr ''sushi''), (''out_amount'', out_amount), (''impact'', impact),
                  (''price'', price), (''steps'', JInt (int n))])))))"

text \<open>The transactions of a list in order, the next one built when the last is confirmed.\<close>

primrec run_list ::
  "settings \<Rightarrow> outside \<Rightarrow> (string \<Rightarrow> exn) \<Rightarrow> int option \<Rightarrow> string \<Rightarrow> string \<Rightarrow> nat \<Rightarrow> json list \<Rightarrow> json list
    \<Rightarrow> ('z world_scheme, json list) io" where
  "run_list c env err chain_opt enc_key_ref wallet all_n hashes [] = return hashes"
| "run_list c env err chain_opt enc_key_ref wallet all_n hashes (data # rest) =
     bind (run_tx c env err chain_opt enc_key_ref wallet (step_label (length hashes + 1) all_n) data) (\<lambda>h.
       run_list c env err chain_opt enc_key_ref wallet all_n (hashes @ [h]) rest)"

definition sushi_execute ::
  "settings \<Rightarrow> outside \<Rightarrow> string \<Rightarrow> string \<Rightarrow> json \<Rightarrow> ('z world_scheme, json list) io" where
  "sushi_execute c env enc_key_ref wallet res =
     bind (from_sum (list_field ''transactions'' res)) (\<lambda>txs.
       run_list c env SushiError (Some CHAIN_ID) enc_key_ref wallet (length txs) [] txs)"

section \<open>Uniswap\<close>

definition uniswap_build_params ::
  "string \<Rightarrow> string \<Rightarrow> string \<Rightarrow> string \<Rightarrow> string option \<Rightarrow> int \<Rightarrow> string \<Rightarrow> json" where
  "uniswap_build_params origin destination amount sender recipient chain trade_type =
     JObj [(''originChainId'', JInt chain), (''destinationChainId'', JInt chain),
           (''originCurrency'', JStr origin), (''destinationCurrency'', JStr destination),
           (''amount'', JStr amount), (''tradeType'', JStr trade_type), (''sender'', JStr sender),
           (''recipient'', JStr (or_text_opt recipient sender))]"

definition uniswap_quote :: "settings \<Rightarrow> outside \<Rightarrow> string \<Rightarrow> json \<Rightarrow> ('z world_scheme, json) io" where
  "uniswap_quote c env jwt params = venue_post c env UniswapError jwt ''/actions/uniswap/quote'' params"

definition uniswap_summarize :: "json \<Rightarrow> exn + json" where
  "uniswap_summarize q =
     then_sum (field ''inputAmountDisplay'' q) (\<lambda>ia.
     then_sum (field ''inputSymbol'' q) (\<lambda>is1.
     then_sum (field ''outputAmountDisplay'' q) (\<lambda>oa.
     then_sum (field ''outputSymbol'' q) (\<lambda>os.
     then_sum (field ''priceImpact'' q) (\<lambda>impact.
     then_sum (field ''slippage'' q) (\<lambda>slippage.
     then_sum (field ''estimatedGasUsd'' q) (\<lambda>gas_usd.
     then_sum (field ''needsPermit'' q) (\<lambda>permit.
     then_sum (field ''approval'' q) (\<lambda>approval.
       Inr (JObj [(''in_amount'', ia), (''in_symbol'', is1), (''out_amount'', oa), (''out_symbol'', os),
                  (''impact'', impact), (''slippage'', slippage), (''gas_usd'', gas_usd),
                  (''needs_permit'', JBool (truthy permit)), (''has_approval'', JBool (truthy approval))]))))))))))"

definition build_swap ::
  "settings \<Rightarrow> outside \<Rightarrow> string \<Rightarrow> json \<Rightarrow> json option \<Rightarrow> json option \<Rightarrow> ('z world_scheme, json) io" where
  "build_swap c env jwt quote_obj permit_data signature =
     venue_post c env UniswapError jwt ''/actions/uniswap/swap''
       (JObj ([(''quote'', quote_obj)] @
          (case permit_data of None \<Rightarrow> [] | Some p \<Rightarrow> [(''permitData'', p)]) @
          (case signature of None \<Rightarrow> [] | Some s \<Rightarrow> [(''signature'', s)])))"

definition uniswap_transaction_count :: "json \<Rightarrow> exn + nat" where
  "uniswap_transaction_count q =
     then_sum (field ''approval'' q) (\<lambda>a. Inr (1 + (if truthy a then 1 else 0)))"

text \<open>The permit: a signature when the quote needs one. Python passes \<open>None\<close> for null.\<close>

definition some_json :: "json \<Rightarrow> json option" where
  "some_json j = (if j = JNull then None else Some j)"

definition permit_signature ::
  "settings \<Rightarrow> outside \<Rightarrow> string \<Rightarrow> json \<Rightarrow> json \<Rightarrow> ('z world_scheme, json) io" where
  "permit_signature c env enc_key_ref needs permit_data =
     (if \<not> truthy needs then return JNull
      else if \<not> truthy permit_data then throw (UniswapError ''a permit is required but the quote carried none'')
      else
        bind (try_except (signer_sign_typed_data c env enc_key_ref permit_data)
                (\<lambda>e. if is_signer_error e then throw (UniswapError (''permit signing failed: '' @ exn_text e))
                     else throw e))
          (\<lambda>signed. from_sum (item ''signature'' signed)))"

definition uniswap_execute ::
  "settings \<Rightarrow> outside \<Rightarrow> string \<Rightarrow> string \<Rightarrow> string \<Rightarrow> json \<Rightarrow> ('z world_scheme, json list) io" where
  "uniswap_execute c env jwt enc_key_ref from_addr q =
     bind (from_sum (field ''approval'' q)) (\<lambda>approval.
     bind (if truthy approval then
             bind (run_tx c env UniswapError None enc_key_ref from_addr ''approval'' approval) (\<lambda>h. return [h])
           else return []) (\<lambda>hashes.
     bind (from_sum (field ''permitData'' q)) (\<lambda>permit_data.
     bind (from_sum (field ''needsPermit'' q)) (\<lambda>needs.
     bind (permit_signature c env enc_key_ref needs permit_data) (\<lambda>signature.
     bind (from_sum (field ''quote'' q)) (\<lambda>quote_obj.
     bind (build_swap c env jwt quote_obj (if truthy signature then some_json permit_data else None)
             (some_json signature)) (\<lambda>swap_tx.
     bind (run_tx c env UniswapError None enc_key_ref from_addr ''swap'' swap_tx) (\<lambda>h.
       return (hashes @ [h])))))))))"

section \<open>OpenSea\<close>

definition opensea_post ::
  "settings \<Rightarrow> outside \<Rightarrow> string \<Rightarrow> string \<Rightarrow> json \<Rightarrow> ('z world_scheme, json) io" where
  "opensea_post c env jwt path body =
     bind (venue_post c env OpenSeaError jwt path body) (\<lambda>j. return (j_or j (JObj [])))"

definition opensea_read ::
  "settings \<Rightarrow> outside \<Rightarrow> string \<Rightarrow> string \<Rightarrow> json \<Rightarrow> ('z world_scheme, json) io" where
  "opensea_read c env jwt kind params =
     bind (opensea_post c env jwt ''/actions/build'' (JObj [(''type'', JStr kind), (''params'', params)]))
       (\<lambda>res. from_sum (object_field ''data'' res))"

definition opensea_list ::
  "settings \<Rightarrow> outside \<Rightarrow> string \<Rightarrow> string \<Rightarrow> string \<Rightarrow> (string \<times> json) list \<Rightarrow> ('z world_scheme, json) io" where
  "opensea_list c env jwt kind k params =
     bind (opensea_read c env jwt kind (JObj params))
       (\<lambda>res. from_sum (then_sum (field k res) (\<lambda>v. Inr (j_or v (JArr [])))))"

definition opensea_trending :: "settings \<Rightarrow> outside \<Rightarrow> string \<Rightarrow> int \<Rightarrow> ('z world_scheme, json) io" where
  "opensea_trending c env jwt limit =
     opensea_list c env jwt ''opensea_trending'' ''collections'' [(''limit'', JInt limit)]"

definition opensea_search :: "settings \<Rightarrow> outside \<Rightarrow> string \<Rightarrow> string \<Rightarrow> int \<Rightarrow> ('z world_scheme, json) io" where
  "opensea_search c env jwt query limit =
     opensea_list c env jwt ''opensea_collections'' ''collections''
       [(''query'', JStr query), (''limit'', JInt limit)]"

definition opensea_collection :: "settings \<Rightarrow> outside \<Rightarrow> string \<Rightarrow> string \<Rightarrow> ('z world_scheme, json) io" where
  "opensea_collection c env jwt slug =
     bind (opensea_read c env jwt ''opensea_collection'' (JObj [(''slug'', JStr slug)]))
       (\<lambda>res. from_sum (field ''collection'' res))"

definition opensea_listings :: "settings \<Rightarrow> outside \<Rightarrow> string \<Rightarrow> string \<Rightarrow> int \<Rightarrow> ('z world_scheme, json) io" where
  "opensea_listings c env jwt slug limit =
     opensea_list c env jwt ''opensea_listings'' ''listings'' [(''slug'', JStr slug), (''limit'', JInt limit)]"

definition wallet_nfts :: "settings \<Rightarrow> outside \<Rightarrow> string \<Rightarrow> string \<Rightarrow> int \<Rightarrow> ('z world_scheme, json) io" where
  "wallet_nfts c env jwt wallet limit =
     opensea_list c env jwt ''opensea_wallet_nfts'' ''nfts'' [(''wallet'', JStr wallet), (''limit'', JInt limit)]"

definition mint_info :: "settings \<Rightarrow> outside \<Rightarrow> string \<Rightarrow> string \<Rightarrow> ('z world_scheme, json) io" where
  "mint_info c env jwt slug = opensea_read c env jwt ''opensea_mint_info'' (JObj [(''slug'', JStr slug)])"

text \<open>\<open>results[0] if results else None\<close>; only an \<open>OpenSeaError\<close> of the exact lookup falls through.\<close>

definition resolve_collection ::
  "settings \<Rightarrow> outside \<Rightarrow> string \<Rightarrow> string \<Rightarrow> ('z world_scheme, json) io" where
  "resolve_collection c env jwt query0 =
     (let query = strip query0 in
      bind (try_except (opensea_collection c env jwt query)
              (\<lambda>e. case e of OpenSeaError _ \<Rightarrow> return JNull | _ \<Rightarrow> throw e)) (\<lambda>found.
        if truthy found then return found
        else
          bind (opensea_search c env jwt query 1) (\<lambda>results.
            if \<not> truthy results then return JNull
            else (case results of
                JArr (x # _) \<Rightarrow> return x
              | JObj _ \<Rightarrow> throw (KeyError ''0'')
              | JStr s \<Rightarrow> return (JStr (take 1 s))
              | _ \<Rightarrow> throw TypeError))))"

definition build_buy ::
  "settings \<Rightarrow> outside \<Rightarrow> string \<Rightarrow> string \<Rightarrow> string \<Rightarrow> string option \<Rightarrow> ('z world_scheme, json) io" where
  "build_buy c env jwt wallet order_hash protocol_address =
     opensea_post c env jwt ''/actions/opensea/buy''
       (JObj ([(''orderHash'', JStr order_hash), (''walletAddress'', JStr wallet)] @
          (if or_text_opt protocol_address [] = [] then []
           else [(''protocolAddress'', JStr (or_text_opt protocol_address []))])))"

definition build_mint ::
  "settings \<Rightarrow> outside \<Rightarrow> string \<Rightarrow> string \<Rightarrow> string \<Rightarrow> int \<Rightarrow> ('z world_scheme, json) io" where
  "build_mint c env jwt wallet slug quantity =
     opensea_post c env jwt ''/actions/opensea/mint''
       (JObj [(''walletAddress'', JStr wallet), (''collection'', JStr slug), (''quantity'', JInt quantity)])"

definition opensea_execute ::
  "settings \<Rightarrow> outside \<Rightarrow> string \<Rightarrow> string \<Rightarrow> json \<Rightarrow> ('z world_scheme, json list) io" where
  "opensea_execute c env enc_key_ref wallet built =
     bind (from_sum (list_field ''transactions'' built)) (\<lambda>txs.
       if txs = [] then throw (OpenSeaError ''nothing to sign - try again in a moment'')
       else run_list c env OpenSeaError (Some CHAIN_ID) enc_key_ref wallet (length txs) [] txs)"

definition build_listing ::
  "settings \<Rightarrow> outside \<Rightarrow> string \<Rightarrow> string \<Rightarrow> string \<Rightarrow> string \<Rightarrow> rat \<Rightarrow> string option \<Rightarrow> int
    \<Rightarrow> ('z world_scheme, json) io" where
  "build_listing c env jwt wallet token token_id price slug duration_days =
     opensea_post c env jwt ''/actions/opensea/list''
       (JObj ([(''token'', JStr token), (''tokenId'', JStr token_id),
               (''priceEth'', JStr (py_str env (JFloat price))), (''walletAddress'', JStr wallet),
               (''durationDays'', JInt duration_days)] @
          (if or_text_opt slug [] = [] then [] else [(''slug'', JStr (or_text_opt slug []))])))"

definition submit_order ::
  "settings \<Rightarrow> outside \<Rightarrow> string \<Rightarrow> json \<Rightarrow> json \<Rightarrow> string \<Rightarrow> ('z world_scheme, json) io" where
  "submit_order c env jwt built signature kind =
     bind (from_sum (item ''parameters'' built)) (\<lambda>params.
     bind (from_sum (field ''protocolAddress'' built)) (\<lambda>pa.
       opensea_post c env jwt ''/actions/opensea/order/submit''
         (JObj ([(''parameters'', params), (''signature'', signature), (''kind'', JStr kind)] @
            (if truthy pa then [(''protocolAddress'', pa)] else [])))))"

definition place_order ::
  "settings \<Rightarrow> outside \<Rightarrow> string \<Rightarrow> string \<Rightarrow> string \<Rightarrow> json \<Rightarrow> string \<Rightarrow> ('z world_scheme, json) io" where
  "place_order c env jwt enc_key_ref wallet built kind =
     bind (from_sum (then_sum (field ''nftApprove'' built) (\<lambda>a.
             then_sum (field ''wethApprove'' built) (\<lambda>b. Inr (j_or a b))))) (\<lambda>approve.
     bind (if truthy approve then
             bind (run_tx c env OpenSeaError (Some CHAIN_ID) enc_key_ref wallet ''approval'' approve)
               (\<lambda>_. return ())
           else return ()) (\<lambda>_.
     bind (from_sum (item ''typedData'' built)) (\<lambda>typed.
     bind (try_except (signer_sign_typed_data c env enc_key_ref typed)
             (\<lambda>e. if is_signer_error e then throw (OpenSeaError (''couldn't sign the order: '' @ exn_text e))
                  else throw e)) (\<lambda>signed.
     bind (from_sum (item ''signature'' signed)) (\<lambda>signature.
       submit_order c env jwt built signature kind)))))"

definition price_of :: "outside \<Rightarrow> json \<Rightarrow> exn + rat \<times> string" where
  "price_of env row =
     then_sum (float_field ''price'' row) (\<lambda>p.
     then_sum (field ''currency'' row) (\<lambda>cur. Inr (p, py_str env (j_or cur (JStr ''ETH'')))))"

section \<open>What the venues leave alone\<close>

lemma framed_venue_post: "framed (venue_post c env err jwt path body)"
  unfolding venue_post_def by (intro framed_rules framed_gateway) (auto split: exn.split intro: framed_rules)

lemma framed_run_tx: "framed (run_tx c env err ch key a label d)"
  unfolding run_tx_def by (intro framed_rules framed_pipeline)

lemma framed_run_list: "framed (run_list c env err ch key a n hs txs)"
  by (induction txs arbitrary: hs) (auto intro!: framed_rules framed_run_tx)

lemma framed_run_items: "framed (run_items c env key a n hs its)"
  by (induction its arbitrary: hs) (auto intro!: framed_rules framed_run_tx)

lemma framed_run_steps: "framed (run_steps c env key a n hs steps)"
  by (induction steps arbitrary: hs) (auto intro!: framed_rules framed_run_items)

lemma framed_sushi:
  "framed (sushi_swap c env jwt a tin tout amount slip)" "framed (sushi_execute c env key a res)"
  unfolding sushi_swap_def sushi_execute_def Let_def
  by (intro framed_rules framed_venue_post framed_run_list)+

lemma framed_relay:
  "framed (relay_build c env jwt params)" "framed (execute_steps c env key a steps)"
  unfolding relay_build_def relay_build_action_def execute_steps_def
  by (intro framed_rules framed_venue_post framed_run_steps)+

lemma framed_record: "framed (relay_record c env jwt rid)"
  unfolding relay_record_def by (intro framed_rules framed_gateway) (auto split: exn.split intro: framed_rules)

section \<open>One plan\<close>

text \<open>
  The transactions a Relay plan holds, in order: the items with a recipient, step after step.
\<close>

definition sendable :: "json list \<Rightarrow> exn + json list" where
  "sendable items = then_sum (collect item_data items) (\<lambda>ds. Inr (map fst (filter snd ds)))"

definition plan_of :: "json list \<Rightarrow> exn + json list" where
  "plan_of steps = then_sum (collect step_items steps) (\<lambda>itemss. sendable (concat itemss))"

lemma run_items_plan:
  assumes "sendable items = Inr txs"
  shows "run_items c env k a all_n hs items = run_list c env RelayError None k a all_n hs txs"
  using assms
proof (induction items arbitrary: hs txs)
  case Nil
  then show ?case by (simp add: sendable_def)
next
  case (Cons it rest)
  then obtain d ds where d: "item_data it = Inr d" "collect item_data rest = Inr ds"
    "txs = map fst (filter snd (d # ds))"
    by (auto simp: sendable_def then_sum_Inr)
  have "sendable rest = Inr (map fst (filter snd ds))" using d(2) by (simp add: sendable_def)
  note IH = Cons.IH [OF this]
  have first: "run_items c env k a all_n hs (it # rest) =
      (case d of (data, sends) \<Rightarrow> if \<not> sends then run_items c env k a all_n hs rest
        else bind (run_tx c env RelayError None k a (step_label (length hs + 1) all_n) data) (\<lambda>h.
          run_items c env k a all_n (hs @ [h]) rest))"
    by (simp add: fun_eq_iff bind_def from_sum_def d(1))
  show ?case unfolding first using IH d(3) by (cases d) (auto simp: fun_eq_iff bind_def split: prod.split sum.split)
qed

lemma run_list_append:
  "run_list c env err ch k a all_n hs (xs @ ys) =
     bind (run_list c env err ch k a all_n hs xs) (\<lambda>hs'. run_list c env err ch k a all_n hs' ys)"
  by (induction xs arbitrary: hs) (simp_all add: bind_assoc)

lemma collect_append:
  "collect f (xs @ ys) = then_sum (collect f xs) (\<lambda>a. then_sum (collect f ys) (\<lambda>b. Inr (a @ b)))"
proof (induction xs)
  case Nil
  show ?case by (cases "collect f ys") simp_all
next
  case (Cons x xs)
  show ?case unfolding append.simps collect.simps Cons.IH
    by (cases "f x"; cases "collect f xs"; cases "collect f ys") simp_all
qed

lemma sendable_append:
  "sendable (xs @ ys) = Inr txs \<longleftrightarrow> (\<exists>a b. sendable xs = Inr a \<and> sendable ys = Inr b \<and> txs = a @ b)"
  by (auto simp: sendable_def collect_append then_sum_Inr)

lemma run_steps_plan:
  assumes "plan_of steps = Inr txs"
  shows "run_steps c env k a all_n hs steps = run_list c env RelayError None k a all_n hs txs"
  using assms
proof (induction steps arbitrary: hs txs)
  case Nil
  then show ?case by (simp add: plan_of_def sendable_def)
next
  case (Cons step rest)
  then obtain items a1 b1 where 1: "step_items step = Inr items" "sendable items = Inr a1"
    "plan_of rest = Inr b1" "txs = a1 @ b1"
    by (auto simp: plan_of_def then_sum_Inr sendable_append)
  have first: "run_steps c env k a all_n hs (step # rest) =
      bind (run_items c env k a all_n hs items) (\<lambda>hs'. run_steps c env k a all_n hs' rest)"
    by (simp add: fun_eq_iff bind_def from_sum_def 1(1))
  show ?case
    unfolding first 1(4) run_list_append run_items_plan [OF 1(2)] using Cons.IH [OF 1(3)] by simp
qed

lemma plan_count: "plan_of steps = Inr txs \<Longrightarrow> count_transactions steps = Inr (length txs)"
  by (auto simp: plan_of_def count_transactions_def sendable_def then_sum_Inr)

lemma run_list_nonempty:
  "run_list c env err ch k a all_n hs txs w = (w', Inr hs') \<Longrightarrow> length hs' = length hs + length txs"
  by (induction txs arbitrary: hs w) (auto simp: io_simps bind_Inr)

lemma bind_after_pure: "r = Inr x \<Longrightarrow> bind (from_sum r) f = f x"
  by (simp add: bind_def from_sum_def fun_eq_iff)

lemma bind_return_right: "bind m return = m"
  by (simp add: bind_def return_def fun_eq_iff split: prod.split sum.split)

text \<open>C12: Relay's nested plan is executed as one list: all items with a recipient, of every step,
  in order, none skipped and none repeated, each built only after the one before it is
  confirmed, and numbered against their true count; a plan without any raises. SushiSwap and
  OpenSea run their lists by the same routine.\<close>

theorem relay_runs_whole_plan:
  assumes "plan_of steps = Inr txs"
  shows "execute_steps c env k a steps =
    (if txs = [] then throw (RelayError ''Relay returned no broadcastable transaction'')
     else run_list c env RelayError None k a (length txs) [] txs)"
proof -
  have "execute_steps c env k a steps =
      bind (run_list c env RelayError None k a (length txs) [] txs) (\<lambda>hashes.
        if hashes = [] then throw (RelayError ''Relay returned no broadcastable transaction'') else return hashes)"
    unfolding execute_steps_def run_steps_plan [OF assms, symmetric]
    by (rule bind_after_pure [OF plan_count [OF assms]])
  also have "\<dots> = (if txs = [] then throw (RelayError ''Relay returned no broadcastable transaction'')
     else run_list c env RelayError None k a (length txs) [] txs)"
    using run_list_nonempty [of c env RelayError None k a "length txs" "[]" txs]
    by (fastforce simp: fun_eq_iff bind_def io_simps split: prod.split sum.split)
  finally show ?thesis .
qed

definition relay_item :: "string \<Rightarrow> json" where
  "relay_item to = JObj [(''data'', JObj [(''to'', JStr to)])]"

theorem relay_runs_whole_plan_witness:
  "execute_steps default_settings outage ''k'' ''0xa''
     [JObj [(''items'', JArr [relay_item ''0xapprove'', JObj []])], JObj [(''items'', JArr [relay_item ''0xswap''])]] =
   run_list default_settings outage RelayError None ''k'' ''0xa'' 2 []
     [JObj [(''to'', JStr ''0xapprove'')], JObj [(''to'', JStr ''0xswap'')]]"
proof -
  have "plan_of [JObj [(''items'', JArr [relay_item ''0xapprove'', JObj []])],
      JObj [(''items'', JArr [relay_item ''0xswap''])]] =
    Inr [JObj [(''to'', JStr ''0xapprove'')], JObj [(''to'', JStr ''0xswap'')]]"
    by (simp add: plan_of_def step_items_def list_field_def iterate_def j_or_def sendable_def item_data_def
        object_field_def relay_item_def)
  from relay_runs_whole_plan [OF this, where k = "''k''" and a = "''0xa''" and c = default_settings and env = outage]
  show ?thesis by (simp add: numeral_2_eq_2 del: run_list.simps)
qed

end
