(* ===== verification/Pricing.thy ===== *)
theory Pricing
  imports Readings Subscription_Store
begin

text \<open>
  What ETH is worth, \<open>app/services/pricing.py\<close>: the rate is read from the deepest live
  stablecoin pair quoted in ETH, kept for two minutes, and used to price a subscription. The
  module's two globals are the state.
\<close>

section \<open>Definitions\<close>

record price_state = world +
  eth_cached :: "rat option"
  eth_cached_at :: usec

definition PRICE_TTL :: usec where "PRICE_TTL = seconds 120"
definition MIN_LIQUIDITY_USD :: rat where "MIN_LIQUIDITY_USD = 50000"
definition PEG_TOLERANCE :: rat where "PEG_TOLERANCE = b64 (5 / 100)"

definition dexscreener_url :: "string \<Rightarrow> string" where
  "dexscreener_url address = ''https://api.dexscreener.com/latest/dex/tokens/'' @ address"

definition sub_object :: "string \<Rightarrow> json \<Rightarrow> exn + json" where
  "sub_object k j = then_sum (field k j) (\<lambda>v. Inr (j_or v (JObj [])))"

record pair_numbers =
  pn_usd :: rat
  pn_native :: rat
  pn_liquidity :: rat
  pn_traded :: rat

definition read_numbers :: "json \<Rightarrow> exn + pair_numbers" where
  "read_numbers pair =
     then_sum (float_field ''priceUsd'' pair) (\<lambda>usd.
     then_sum (float_field ''priceNative'' pair) (\<lambda>native.
     then_sum (then_sum (sub_object ''liquidity'' pair) (float_field ''usd'')) (\<lambda>liquidity.
     then_sum (then_sum (sub_object ''volume'' pair) (float_field ''h24'')) (\<lambda>traded.
       Inr \<lparr>pn_usd = usd, pn_native = native, pn_liquidity = liquidity, pn_traded = traded\<rparr>))))"

definition pair_quote :: "json \<Rightarrow> exn + string" where
  "pair_quote pair =
     then_sum (sub_object ''quoteToken'' pair) (\<lambda>q.
     then_sum (field ''symbol'' q) (\<lambda>s. then_sum (text_method s) (\<lambda>s. Inr (upper s))))"

definition usable :: "pair_numbers \<Rightarrow> bool" where
  "usable n \<longleftrightarrow>
     \<not> (pn_usd n \<le> 0 \<or> pn_native n \<le> 0) \<and>
     \<not> (pn_liquidity n < MIN_LIQUIDITY_USD \<or> pn_traded n \<le> 0) \<and>
     \<not> \<bar>fsub (pn_usd n) 1\<bar> > PEG_TOLERANCE"

text \<open>One pair: its liquidity and rate, or nothing. Numbers that cannot be read skip the pair;
  other exceptions end the loop.\<close>

definition pair_rate :: "json \<Rightarrow> exn + (rat \<times> rat) option" where
  "pair_rate pair =
     (case read_numbers pair of
        Inl e \<Rightarrow> if e = TypeError \<or> e = ValueError then Inr None else Inl e
      | Inr n \<Rightarrow>
          then_sum (pair_quote pair) (\<lambda>quote.
            Inr (if quote \<noteq> ''ETH'' \<and> quote \<noteq> ''WETH'' then None
                 else if \<not> usable n then None
                 else Some (pn_liquidity n, fdiv (pn_usd n) (pn_native n)))))"

definition deeper :: "(rat \<times> rat) option \<Rightarrow> rat \<times> rat \<Rightarrow> (rat \<times> rat) option" where
  "deeper best x = (case best of None \<Rightarrow> Some x | Some b \<Rightarrow> if fst x > fst b then Some x else Some b)"

fun eth_from_loop :: "(rat \<times> rat) option \<Rightarrow> json list \<Rightarrow> exn + (rat \<times> rat) option" where
  "eth_from_loop best [] = Inr best"
| "eth_from_loop best (pair # pairs) =
     then_sum (pair_rate pair) (\<lambda>r.
       eth_from_loop (case r of None \<Rightarrow> best | Some x \<Rightarrow> deeper best x) pairs)"

definition eth_from :: "json list \<Rightarrow> exn + rat option" where
  "eth_from pairs = then_sum (eth_from_loop None pairs) (\<lambda>best. Inr (map_option snd best))"

definition fetch_pairs :: "outside \<Rightarrow> string \<Rightarrow> ('z world_scheme, json list) io" where
  "fetch_pairs env address =
     bind (http_call env ''GET'' (dexscreener_url address) JNull) (\<lambda>o1.
       case o1 of
         Transport_Error cls msg \<Rightarrow> throw (PriceUnavailable ''couldn't read the market price'')
       | Reply status body \<Rightarrow>
           (case (if status = 200 then body else Some (JObj [])) of
              None \<Rightarrow> throw (PriceUnavailable ''couldn't read the market price'')
            | Some payload \<Rightarrow>
                from_sum (then_sum (field ''pairs'' payload) (\<lambda>v. iterate (j_or v (JArr []))))))"

definition read_rate :: "settings \<Rightarrow> outside \<Rightarrow> ('z world_scheme, rat) io" where
  "read_rate c env =
     bind (fetch_pairs env (OPRAI_TG_STABLE_ADDRESS c)) (\<lambda>pairs.
     bind (from_sum (eth_from pairs)) (\<lambda>price.
       case price of
         None \<Rightarrow> throw (PriceUnavailable ''couldn't read the ETH price'')
       | Some p \<Rightarrow> return p))"

definition eth_usd :: "settings \<Rightarrow> outside \<Rightarrow> bool \<Rightarrow> ('z price_state_scheme, rat) io" where
  "eth_usd c env force =
     bind (monotonic env) (\<lambda>now.
     bind (gets (\<lambda>w. (eth_cached w, eth_cached_at w))) (\<lambda>(cached, read_at).
       if \<not> force \<and> cached \<noteq> None \<and> cached \<noteq> Some 0 \<and> now - read_at < PRICE_TTL
       then return (the cached)
       else
         bind (read_rate c env) (\<lambda>price.
         bind (modify (\<lambda>w. w\<lparr>eth_cached := Some price, eth_cached_at := now\<rparr>)) (\<lambda>_. return price))))"

definition subscription_usd :: "settings \<Rightarrow> rat" where
  "subscription_usd c = OPRAI_TG_SUB_PRICE_USD c"

definition subscription_cost_eth ::
  "settings \<Rightarrow> outside \<Rightarrow> ('z price_state_scheme, rat \<times> rat \<times> rat) io" where
  "subscription_cost_eth c env =
     bind (eth_usd c env False) (\<lambda>rate.
       return (fdiv (subscription_usd c) rate, subscription_usd c, rate))"

section \<open>The chosen pair\<close>

definition rate_ok :: "rat \<Rightarrow> rat \<Rightarrow> bool" where
  "rate_ok l p \<longleftrightarrow> MIN_LIQUIDITY_USD \<le> l \<and>
     (\<exists>usd native. p = fdiv usd native \<and> 0 < native \<and> 94 / 100 < usd \<and> usd < 106 / 100)"

lemma peg_bounds:
  assumes "\<bar>fsub u 1\<bar> \<le> PEG_TOLERANCE"
  shows "94 / 100 < u" "u < 106 / 100"
proof -
  have "PEG_TOLERANCE \<le> (5 / 100) * (1 + 1 / 2 ^ 53)"
    using f64.fl_upper [of "5 / 100"] by (simp add: PEG_TOLERANCE_def)
  also have "\<dots> < 51 / 1000" by simp
  finally have tol: "PEG_TOLERANCE < 51 / 1000" .
  have "\<bar>fsub u 1 - (u - 1)\<bar> \<le> \<bar>u - 1\<bar> / 2 ^ 53"
    using f64.fl_error [of "u - 1"] by (simp add: fsub_def)
  moreover have "\<bar>u - 1\<bar> / 2 ^ 53 \<le> \<bar>u - 1\<bar> / 100" by (rule divide_left_mono) simp_all
  moreover have "\<bar>u - 1\<bar> \<le> \<bar>fsub u 1 - (u - 1)\<bar> + \<bar>fsub u 1\<bar>" by (simp add: abs_if)
  ultimately have "\<bar>u - 1\<bar> \<le> \<bar>u - 1\<bar> / 100 + 51 / 1000" using tol assms by linarith
  then have "\<bar>u - 1\<bar> < 6 / 100" by simp
  then show "94 / 100 < u" "u < 106 / 100" by linarith+
qed

lemma pair_rate_ok: "pair_rate pair = Inr (Some (l, p)) \<Longrightarrow> rate_ok l p"
proof -
  assume a: "pair_rate pair = Inr (Some (l, p))"
  then obtain n where n: "usable n" "l = pn_liquidity n" "p = fdiv (pn_usd n) (pn_native n)"
    by (auto simp: pair_rate_def then_sum_Inr split: sum.splits if_splits)
  then have "\<bar>fsub (pn_usd n) 1\<bar> \<le> PEG_TOLERANCE" by (simp add: usable_def)
  moreover have "0 < pn_native n" "MIN_LIQUIDITY_USD \<le> pn_liquidity n"
    using n(1) by (simp_all add: usable_def)
  ultimately show ?thesis
    unfolding rate_ok_def n(2,3) using peg_bounds by blast
qed

lemma loop_best:
  assumes "eth_from_loop best pairs = Inr (Some (l, p))"
  shows "(best = Some (l, p) \<or> (\<exists>pair\<in>set pairs. pair_rate pair = Inr (Some (l, p)))) \<and>
    (\<forall>l' p'. (best = Some (l', p') \<or> (\<exists>pair\<in>set pairs. pair_rate pair = Inr (Some (l', p')))) \<longrightarrow> l' \<le> l)"
  using assms
proof (induction pairs arbitrary: best)
  case Nil
  then show ?case by simp
next
  case (Cons pair pairs)
  then obtain r where r: "pair_rate pair = Inr r"
    "eth_from_loop (case r of None \<Rightarrow> best | Some x \<Rightarrow> deeper best x) pairs = Inr (Some (l, p))"
    by (auto simp: then_sum_Inr)
  show ?case
  proof (cases r)
    case None
    then show ?thesis using Cons.IH [of best] r by auto
  next
    case (Some x)
    obtain lx px where x: "x = (lx, px)" by fastforce
    note IH = Cons.IH [of "deeper best x", OF r(2) [unfolded Some option.case]]
    show ?thesis
    proof (cases best)
      case None
      then show ?thesis using IH r(1) Some x by (auto simp: deeper_def)
    next
      case (Some b)
      obtain lb pb where b: "b = (lb, pb)" by fastforce
      show ?thesis
      proof (cases "lb < lx")
        case True
        then have d: "deeper best x = Some x" using Some b x by (simp add: deeper_def)
        have "lx \<le> l" using IH d x by blast
        then show ?thesis using IH r(1) \<open>r = Some x\<close> x b Some True unfolding d by auto
      next
        case False
        then have d: "deeper best x = Some b" using Some b x by (simp add: deeper_def)
        have "lb \<le> l" using IH d b by blast
        then show ?thesis using IH r(1) \<open>r = Some x\<close> x b Some False unfolding d by auto
      qed
    qed
  qed
qed

definition pair_example :: "int \<Rightarrow> rat \<Rightarrow> json" where
  "pair_example liquidity native = JObj
     [(''quoteToken'', JObj [(''symbol'', JStr ''weth'')]),
      (''priceUsd'', JFloat 1), (''priceNative'', JFloat native),
      (''liquidity'', JObj [(''usd'', JInt liquidity)]), (''volume'', JObj [(''h24'', JInt 5)])]"

definition market_example :: "json list" where
  "market_example = [pair_example 900000 (1 / 1024), pair_example 8100000 (1 / 2048),
     pair_example 40000000 0, JObj []]"

text \<open>The rate is one a pair of the market quotes: some pair quoted in ETH, with at least
  50,000 dollars of liquidity, traded within the day and within its peg, has exactly this rate,
  and no usable pair is deeper; no other pair can set the price.\<close>

theorem rate_from_deepest_pair:
  assumes "eth_from pairs = Inr (Some p)"
  shows "\<exists>l. (\<exists>pair\<in>set pairs. pair_rate pair = Inr (Some (l, p))) \<and> rate_ok l p \<and>
    (\<forall>pair l' p'. pair \<in> set pairs \<and> pair_rate pair = Inr (Some (l', p')) \<longrightarrow> l' \<le> l)"
proof -
  obtain l where "eth_from_loop None pairs = Inr (Some (l, p))"
    using assms by (auto simp: eth_from_def then_sum_Inr)
  note best = loop_best [OF this]
  then obtain pair where pair: "pair \<in> set pairs" "pair_rate pair = Inr (Some (l, p))" by blast
  have "l' \<le> l" if "x \<in> set pairs" "pair_rate x = Inr (Some (l', p'))" for x l' p'
    using best that by blast
  then show ?thesis using pair pair_rate_ok [OF pair(2)] by blast
qed

lemma rate_from_deepest_pair_witness:
  "\<exists>l. (\<exists>pair\<in>set market_example. pair_rate pair = Inr (Some (l, fdiv 1 (1 / 2048)))) \<and>
    rate_ok l (fdiv 1 (1 / 2048))"
proof -
  have tol: "0 \<le> PEG_TOLERANCE" by (simp add: PEG_TOLERANCE_def f64.fl_nonneg)
  have zero: "b64 0 = 0" using to_float_small [of 0] by (simp add: to_float_def)
  have "read_numbers (pair_example l x) =
      Inr \<lparr>pn_usd = 1, pn_native = x, pn_liquidity = to_float l, pn_traded = 5\<rparr>" if "l \<noteq> 0" for l x
    using that zero by (simp add: read_numbers_def pair_example_def float_field_def sub_object_def
        j_or_def float_of_def to_float_small)
  moreover have "pair_quote (pair_example l x) = Inr ''WETH''" for l x
    unfolding pair_quote_def pair_example_def sub_object_def j_or_def text_method_def
    by simp code_simp
  ultimately have pair: "pair_rate (pair_example l x) =
      Inr (if 0 < x \<and> 50000 \<le> l then Some (of_int l, fdiv 1 x) else None)" if "0 < l" "l < 2 ^ 53" for l x
    using that tol zero by (auto simp: pair_rate_def usable_def MIN_LIQUIDITY_USD_def fsub_def
        to_float_small)
  have empty: "pair_rate (JObj []) = Inr None"
    by (simp add: pair_rate_def read_numbers_def float_field_def sub_object_def j_or_def float_of_def
        pair_quote_def text_method_def upper_def to_float_small)
  have "eth_from market_example = Inr (Some (fdiv 1 (1 / 2048)))"
    by (simp add: eth_from_def market_example_def pair empty deeper_def)
  from rate_from_deepest_pair [OF this] show ?thesis by blast
qed

end
