(* ===== verification/Notify.thy ===== *)
theory Notify
  imports Gateway
begin

text \<open>
  Sending a chat message the recipient gets, \<open>app/services/notify.py\<close>. The chat service's answer
  to a message is a parameter; what was delivered is part of the state. Signs outside ASCII
  stand as their UTF-8 bytes.
\<close>

section \<open>Definitions\<close>

record chat_state = auth_state +
  delivered :: "(int \<times> string) list"

definition MAX_WAIT_SECONDS :: rat where "MAX_WAIT_SECONDS = 30"

definition usec_of :: "rat \<Rightarrow> usec" where
  "usec_of secs = \<lfloor>secs * 10 ^ 6\<rfloor>"

definition warning_sign :: string where
  "warning_sign = [CHR 0xE2, CHR 0x9A, CHR 0xA0, CHR 0xEF, CHR 0xB8, CHR 0x8F]"

definition robot_sign :: string where "robot_sign = [CHR 0xF0, CHR 0x9F, CHR 0xA4, CHR 0x96]"
definition long_dash :: string where "long_dash = [CHR 0xE2, CHR 0x80, CHR 0x94]"
definition ellipsis_sign :: string where "ellipsis_sign = [CHR 0xE2, CHR 0x80, CHR 0xA6]"
definition arrow_sign :: string where "arrow_sign = [CHR 0xE2, CHR 0x86, CHR 0x92]"

definition send_message ::
  "outside \<Rightarrow> int \<Rightarrow> string \<Rightarrow> ('z chat_state_scheme, delivery) io" where
  "send_message env uid message w =
     (let d = chat_answer env (looks w) uid message
      in (w\<lparr>looks := looks w + 1,
            delivered := delivered w @ (if d = Sent_To_Chat then [(uid, message)] else [])\<rparr>, Inr d))"

fun send_attempts ::
  "outside \<Rightarrow> int \<Rightarrow> string \<Rightarrow> nat list \<Rightarrow> ('z chat_state_scheme, bool) io" where
  "send_attempts env uid message [] = return False"
| "send_attempts env uid message (attempt # rest) =
     bind (send_message env uid message) (\<lambda>d.
       case d of
         Sent_To_Chat \<Rightarrow> return True
       | Retry_After secs \<Rightarrow>
           if attempt = 0
           then bind (sleep (usec_of (min secs MAX_WAIT_SECONDS))) (\<lambda>_. send_attempts env uid message rest)
           else return False
       | Chat_Forbidden \<Rightarrow> return False
       | Chat_Failed \<Rightarrow> return False)"

definition notify_send :: "outside \<Rightarrow> int \<Rightarrow> string \<Rightarrow> ('z chat_state_scheme, bool) io" where
  "notify_send env uid message = send_attempts env uid message [0, 1]"

section \<open>Delivery\<close>


end
