(* ===== verification/Copy_Trade.thy ===== *)
theory Copy_Trade
  imports Notify Venues Portfolio
begin

text \<open>
  Copying another wallet's buys: the limits and the engine of \<open>app/services/copy_engine.py\<close>, the
  tables of \<open>app/services/copy_store.py\<close>, and the buying of \<open>app/services/copy_executor.py\<close>.
  Column values are exact numbers, as NUMERIC is; reading them gives floats. The seams the
  engine is given stand as a locale.
\<close>

section \<open>Limits\<close>

record copy_config =
  cc_enabled :: bool
  cc_mode :: string
  cc_amount_eth :: rat
  cc_max_per_trade_eth :: rat
  cc_min_per_trade_eth :: rat
  cc_daily_cap_usd :: rat

record copy_decision =
  cd_execute :: bool
  cd_amount_eth :: rat
  cd_reason :: string

definition COPY_BASE_ASSETS :: "string list" where
  "COPY_BASE_ASSETS =
     [''0x5fc5360d0400a0fd4f2af552add042d716f1d168'', ''0x0bd7d308f8e1639fab988df18a8011f41eacad73'']"

definition refuse :: "string \<Rightarrow> copy_decision" where
  "refuse msg = \<lparr>cd_execute = False, cd_amount_eth = 0, cd_reason = msg\<rparr>"

definition allow :: "rat \<Rightarrow> string \<Rightarrow> copy_decision" where
  "allow amount msg = \<lparr>cd_execute = True, cd_amount_eth = amount, cd_reason = msg\<rparr>"

definition copy_size :: "copy_config \<Rightarrow> rat \<Rightarrow> rat" where
  "copy_size cfg leader_eth =
     min (if cc_mode cfg = ''proportional'' then fmul leader_eth (cc_amount_eth cfg) else cc_amount_eth cfg)
       (cc_max_per_trade_eth cfg)"

definition decide :: "outside \<Rightarrow> string \<Rightarrow> rat \<Rightarrow> copy_config \<Rightarrow> rat \<Rightarrow> rat \<Rightarrow> copy_decision" where
  "decide env token leader_eth cfg spent_today_usd eth_price_usd =
     (if \<not> cc_enabled cfg then refuse ''copy disabled''
      else if lower token \<in> set COPY_BASE_ASSETS
      then refuse (''base/quote asset '' @ long_dash @ '' not a real buy'')
      else
        let amount = copy_size cfg leader_eth in
        if amount < cc_min_per_trade_eth cfg
        then refuse (''size '' @ fixed_text False 4 amount @ '' ETH below min '' @
               py_str env (JFloat (cc_min_per_trade_eth cfg)))
        else
          let add_usd = fmul amount eth_price_usd in
          if fadd spent_today_usd add_usd > cc_daily_cap_usd cfg then
            let room = fsub (cc_daily_cap_usd cfg) spent_today_usd in
            if room \<le> 0 then refuse ''daily cap reached''
            else
              let shrunk = (if eth_price_usd \<noteq> 0 then fdiv room eth_price_usd else 0) in
              if shrunk < cc_min_per_trade_eth cfg then refuse ''daily cap: remaining room below min''
              else allow (py_round shrunk 6) ''sized down to daily-cap room''
          else allow (py_round amount 6) ''ok'')"

section \<open>The tables\<close>

record copy_sub =
  cs_enabled :: bool
  cs_mode :: string
  cs_amount_eth :: rat
  cs_max_per_trade_eth :: rat
  cs_min_per_trade_eth :: rat
  cs_daily_cap_usd :: rat
  cs_created_at :: usec

record copy_fill =
  cf_telegram_id :: int
  cf_leader :: string
  cf_token :: string
  cf_amount_eth :: rat
  cf_usd :: rat
  cf_leader_tx :: string
  cf_our_tx :: "string option"
  cf_status :: string
  cf_created_at :: usec

record copy_state = chat_state +
  copy_price :: "rat option"
  copy_price_at :: usec
  copy_subs :: "(int \<times> string, copy_sub) table"
  copy_fills :: "copy_fill list"
  copy_leaders :: "string list"

definition cfg_of :: "copy_sub \<Rightarrow> copy_config" where
  "cfg_of r = \<lparr>cc_enabled = cs_enabled r, cc_mode = cs_mode r, cc_amount_eth = b64 (cs_amount_eth r),
     cc_max_per_trade_eth = b64 (cs_max_per_trade_eth r),
     cc_min_per_trade_eth = b64 (cs_min_per_trade_eth r), cc_daily_cap_usd = b64 (cs_daily_cap_usd r)\<rparr>"

definition copiers_of :: "string \<Rightarrow> ('z copy_state_scheme, (int \<times> copy_config) list) io" where
  "copiers_of leader = gets (\<lambda>w.
     map (\<lambda>((uid, _), r). (uid, cfg_of r))
       (rows_where (\<lambda>k r. snd k = lower leader \<and> cs_enabled r) (copy_subs w)))"

definition all_leaders :: "('z copy_state_scheme, string list) io" where
  "all_leaders = gets (\<lambda>w. remdups (map (snd \<circ> fst) (rows_where (\<lambda>_ r. cs_enabled r) (copy_subs w))))"

definition counts_today :: "int \<Rightarrow> usec \<Rightarrow> copy_fill \<Rightarrow> bool" where
  "counts_today uid now f \<longleftrightarrow>
     cf_telegram_id f = uid \<and> cf_status f \<noteq> ''failed'' \<and> cf_created_at f > now - hours 24"

definition spent_sum :: "int \<Rightarrow> usec \<Rightarrow> copy_fill list \<Rightarrow> rat" where
  "spent_sum uid now fills = sum_list (map cf_usd (filter (counts_today uid now) fills))"

definition spent_today_usd :: "outside \<Rightarrow> int \<Rightarrow> ('z copy_state_scheme, rat) io" where
  "spent_today_usd env uid = gets (\<lambda>w. b64 (spent_sum uid (utc_now env w) (copy_fills w)))"

definition record_fill ::
  "outside \<Rightarrow> int \<Rightarrow> string \<Rightarrow> string \<Rightarrow> rat \<Rightarrow> rat \<Rightarrow> string \<Rightarrow> string option \<Rightarrow> string
    \<Rightarrow> ('z copy_state_scheme, unit) io" where
  "record_fill env uid leader token amount_eth usd leader_tx our_tx status =
     modify (\<lambda>w. w\<lparr>copy_fills := copy_fills w @
       [\<lparr>cf_telegram_id = uid, cf_leader = lower leader, cf_token = lower token,
         cf_amount_eth = amount_eth, cf_usd = usd, cf_leader_tx = leader_tx, cf_our_tx = our_tx,
         cf_status = status, cf_created_at = utc_now env w\<rparr>]\<rparr>)"

definition or_default :: "'a option \<Rightarrow> 'a \<Rightarrow> 'a" where
  "or_default x d = (case x of None \<Rightarrow> d | Some a \<Rightarrow> a)"

definition valid_mode :: "string \<Rightarrow> bool" where
  "valid_mode m \<longleftrightarrow> m = ''fixed'' \<or> m = ''proportional''"

definition set_copy ::
  "outside \<Rightarrow> int \<Rightarrow> string \<Rightarrow> bool \<Rightarrow> rat option \<Rightarrow> string option \<Rightarrow> rat option \<Rightarrow> rat option
    \<Rightarrow> ('z copy_state_scheme, unit) io" where
  "set_copy env uid leader enabled amount mode max_per_trade daily_cap =
     (if \<not> valid_mode (or_default mode ''fixed'') then throw IntegrityViolation
      else modify (\<lambda>w.
        let k = (uid, lower leader);
            row = (case row_of (copy_subs w) k of
                None \<Rightarrow> \<lparr>cs_enabled = enabled, cs_mode = or_default mode ''fixed'',
                  cs_amount_eth = or_default amount (1 / 100),
                  cs_max_per_trade_eth = or_default max_per_trade (5 / 100),
                  cs_min_per_trade_eth = 1 / 1000, cs_daily_cap_usd = or_default daily_cap 100,
                  cs_created_at = utc_now env w\<rparr>
              | Some r \<Rightarrow> r\<lparr>cs_enabled := enabled, cs_mode := or_default mode (cs_mode r),
                  cs_amount_eth := or_default amount (cs_amount_eth r),
                  cs_max_per_trade_eth := or_default max_per_trade (cs_max_per_trade_eth r),
                  cs_daily_cap_usd := or_default daily_cap (cs_daily_cap_usd r)\<rparr>)
        in w\<lparr>copy_subs := put_row k row (copy_subs w)\<rparr>))"

definition list_copies :: "int \<Rightarrow> ('z copy_state_scheme, (string \<times> copy_sub) list) io" where
  "list_copies uid = gets (\<lambda>w.
     map (\<lambda>((_, leader), r). (leader, r))
       (rev (sort_key (\<lambda>(_, r). cs_created_at r) (rows_where (\<lambda>k _. fst k = uid) (copy_subs w)))))"

section \<open>The engine\<close>

definition tell :: "outside \<Rightarrow> int \<Rightarrow> string \<Rightarrow> ('z chat_state_scheme, unit) io" where
  "tell env uid message = bind (notify_send env uid message) (\<lambda>_. return ())"

definition copied_message :: "string \<Rightarrow> string \<Rightarrow> copy_decision \<Rightarrow> string" where
  "copied_message leader token d =
     robot_sign @ '' <b>Copied</b> '' @ take 8 leader @ ellipsis_sign @ '' '' @ arrow_sign @ '' bought <code>'' @ token @
     ''</code> for '' @ fixed_text False 4 (cd_amount_eth d) @ '' ETH ('' @ cd_reason d @ '').''"

definition copy_once ::
  "(int \<Rightarrow> string \<Rightarrow> rat \<Rightarrow> ('z copy_state_scheme, 'h) io) \<Rightarrow>
   (int \<Rightarrow> string \<Rightarrow> ('z copy_state_scheme, unit) io) \<Rightarrow>
   (int \<Rightarrow> ('z copy_state_scheme, rat option) io) \<Rightarrow>
   outside \<Rightarrow> string \<Rightarrow> string \<Rightarrow> rat \<Rightarrow> string \<Rightarrow> int \<times> copy_config \<Rightarrow> ('z copy_state_scheme, unit) io" where
  "copy_once execute notify price_provider env leader token eth_spent tx_hash sub =
     (case sub of (uid, cfg) \<Rightarrow>
        bind (spent_today_usd env uid) (\<lambda>spent.
        bind (price_provider uid) (\<lambda>live.
          case live of
            None \<Rightarrow> notify uid (warning_sign @ '' Skipped a copy-buy '' @ long_dash @
              '' couldn't price ETH just now, so your daily limit couldn't be checked.'')
          | Some price \<Rightarrow>
              let d = decide env token eth_spent cfg spent price in
              if \<not> cd_execute d then return ()
              else
                bind (catch_all (bind (execute uid token (cd_amount_eth d)) (\<lambda>_. return None)) (\<lambda>e. return (Some e)))
                  (\<lambda>failed.
                   case failed of
                     Some e \<Rightarrow> notify uid (warning_sign @ '' Copy-buy failed: '' @ take 100 (exn_text e))
                   | None \<Rightarrow>
                       bind (record_fill env uid leader token (cd_amount_eth d) (fmul (cd_amount_eth d) price)
                               tx_hash None ''sent'') (\<lambda>_.
                         notify uid (copied_message leader token d))))))"

definition on_buy ::
  "(int \<Rightarrow> string \<Rightarrow> rat \<Rightarrow> ('z copy_state_scheme, 'h) io) \<Rightarrow>
   (int \<Rightarrow> string \<Rightarrow> ('z copy_state_scheme, unit) io) \<Rightarrow>
   (int \<Rightarrow> ('z copy_state_scheme, rat option) io) \<Rightarrow>
   outside \<Rightarrow> string \<Rightarrow> string \<Rightarrow> rat \<Rightarrow> string \<Rightarrow> ('z copy_state_scheme, unit) io" where
  "on_buy execute notify price_provider env leader token eth_spent tx_hash =
     bind (copiers_of leader) (\<lambda>subs.
     bind (for_each (copy_once execute notify price_provider env leader token eth_spent tx_hash) subs) (\<lambda>_.
       return ()))"

section \<open>Buying\<close>

definition COPY_PRICE_TTL :: usec where "COPY_PRICE_TTL = seconds 120"

definition price_quote :: "settings \<Rightarrow> outside \<Rightarrow> int \<Rightarrow> ('z copy_state_scheme, json) io" where
  "price_quote c env tid =
     bind (get_jwt c env tid) (\<lambda>jwt.
     bind (wallet_address c env tid) (\<lambda>address.
       sushi_swap c env jwt address ''eth'' ''usdg'' 1 (1 / 2)))"

definition read_price :: "json \<Rightarrow> exn + rat option" where
  "read_price q =
     then_sum (sushi_summarize q) (\<lambda>view.
     then_sum (field ''out_amount'' view) (\<lambda>raw.
       if raw = JNull then Inr None
       else then_sum (float_of raw) (\<lambda>x.
         let price = fdiv x (10 ^ 6) in Inr (if price \<le> 0 then None else Some price))))"

definition copy_eth_price :: "settings \<Rightarrow> outside \<Rightarrow> int \<Rightarrow> ('z copy_state_scheme, rat option) io" where
  "copy_eth_price c env tid =
     bind (monotonic env) (\<lambda>now.
     bind (gets (\<lambda>w. (copy_price w, copy_price_at w))) (\<lambda>(cached, read_at).
       if cached \<noteq> None \<and> cached \<noteq> Some 0 \<and> now - read_at < COPY_PRICE_TTL then return cached
       else
         bind (catch_all (bind (price_quote c env tid) (\<lambda>q. return (Some q))) (\<lambda>_. return None)) (\<lambda>q.
         case q of
           None \<Rightarrow> return None
         | Some q \<Rightarrow>
             bind (from_sum (read_price q)) (\<lambda>price.
             case price of
               None \<Rightarrow> return None
             | Some p \<Rightarrow>
                 bind (modify (\<lambda>w. w\<lparr>copy_price := Some p, copy_price_at := now\<rparr>)) (\<lambda>_. return (Some p))))))"

definition is_unreachable :: "exn \<Rightarrow> bool" where
  "is_unreachable e = (case e of AuthError _ \<Rightarrow> True | PortfolioError _ \<Rightarrow> True | EvmError _ \<Rightarrow> True | _ \<Rightarrow> False)"

definition copy_purse :: "settings \<Rightarrow> outside \<Rightarrow> int \<Rightarrow> ('z copy_state_scheme, string \<times> string \<times> int) io" where
  "copy_purse c env tid =
     try_except
       (bind (wallet_address c env tid) (\<lambda>address.
        bind (get_jwt c env tid) (\<lambda>jwt.
        bind (native_balance c env tid) (\<lambda>b. return (address, jwt, nv_wei b)))))
       (\<lambda>e. if is_unreachable e then throw (CopyError (''couldn't reach your wallet: '' @ exn_text e)) else throw e)"

definition copy_want :: "outside \<Rightarrow> rat \<Rightarrow> exn + int" where
  "copy_want env amount_eth =
     then_sum (or_raise ValueError (read_decimal (py_str env (JFloat amount_eth)))) (\<lambda>d.
       Inr (py_int (dec28 (d * 10 ^ 18))))"

definition is_sushi_error :: "exn \<Rightarrow> bool" where
  "is_sushi_error e = (case e of SushiError _ \<Rightarrow> True | _ \<Rightarrow> False)"

text \<open>\<open>try: m except SushiError: None\<close>.\<close>

definition unless_sushi :: "('s, 'a) io \<Rightarrow> ('s, 'a option) io" where
  "unless_sushi m =
     try_except (bind m (\<lambda>a. return (Some a))) (\<lambda>e. if is_sushi_error e then return None else throw e)"

definition last_hash :: "json list \<Rightarrow> exn + json" where
  "last_hash hs = (if hs = [] then Inl IndexError else Inr (last hs))"

definition relay_buy ::
  "settings \<Rightarrow> outside \<Rightarrow> string \<Rightarrow> string \<Rightarrow> string \<Rightarrow> string \<Rightarrow> rat \<Rightarrow> ('z world_scheme, json) io" where
  "relay_buy c env jwt enc_key_ref address token amount_eth =
     bind (try_except
        (bind (relay_build c env jwt (relay_build_params RELAY_NATIVE token (py_str env (JFloat amount_eth))
                 ROBINHOOD ROBINHOOD (Some address) (Some address) ''EXACT_INPUT'')) (\<lambda>(es, rid, _).
         bind (from_sum (iterate es)) (\<lambda>steps.
         bind (execute_steps c env enc_key_ref address steps) (\<lambda>hs. return (rid, hs)))))
        (\<lambda>e. case e of RelayError m \<Rightarrow> throw (CopyError m) | EvmError m \<Rightarrow> throw (CopyError m) | _ \<Rightarrow> throw e))
       (\<lambda>(rid, hs).
     bind (if truthy rid then relay_record c env jwt rid else return ()) (\<lambda>_.
       from_sum (last_hash hs)))"

definition copy_buy ::
  "settings \<Rightarrow> outside \<Rightarrow> int \<Rightarrow> string \<Rightarrow> rat \<Rightarrow> ('z copy_state_scheme, json) io" where
  "copy_buy c env tid token amount_eth =
     bind (copy_purse c env tid) (\<lambda>(address, jwt, balance).
     bind (from_sum (copy_want env amount_eth)) (\<lambda>want.
       if balance \<le> want then
         throw (CopyError (''not enough ETH '' @ long_dash @ '' '' @
           fixed_text False 4 (dec28 (of_int balance / 10 ^ 18)) @ '' left, '' @
           fixed_text False 4 amount_eth @ '' needed plus gas''))
       else
         bind (unless_sushi (sushi_swap c env jwt address ''eth'' token amount_eth (1 / 2))) (\<lambda>sushi_res.
         bind (get_or_create_wallet c env tid) (\<lambda>w.
         bind (case sushi_res of
                 None \<Rightarrow> return None
               | Some res \<Rightarrow> unless_sushi
                   (bind (sushi_execute c env (wr_enc_key_ref w) address res) (\<lambda>hs. from_sum (last_hash hs))))
           (\<lambda>filled.
            case filled of
              Some h \<Rightarrow> return h
            | None \<Rightarrow> relay_buy c env jwt (wr_enc_key_ref w) address token amount_eth)))))"

section \<open>Limits hold\<close>

lemma near_decimal:
  fixes x y :: rat
  assumes "\<bar>y - x\<bar> \<le> 1 / 2000000" and "1 / 1001 \<le> x"
  shows "0 \<le> y" "y \<le> x * (100051 / 100000)"
  using assms by linarith+

lemma py_round_upper:
  assumes "1 / 1001 \<le> x"
  shows "0 \<le> py_round x 6" "py_round x 6 \<le> x * (1 + 6 / 10 ^ 4)"
proof -
  let ?y = "of_int (round_half_even (x * 10 ^ 6)) / 10 ^ 6 :: rat"
  have near: "\<bar>?y - x\<bar> \<le> 1 / 2000000" using decimal_round_error [of x 6] by simp
  note y = near_decimal(1) [OF near assms] and y' = near_decimal(2) [OF near assms]
  show "0 \<le> py_round x 6" unfolding py_round_def using y by (rule f64.fl_nonneg)
  have "b64 ?y \<le> ?y * (1 + 1 / 2 ^ 53)" using y by (rule f64.fl_upper)
  then show "py_round x 6 \<le> x * (1 + 6 / 10 ^ 4)" unfolding py_round_def using y' assms by simp
qed

lemma copied_usd:
  assumes "1 / 1001 \<le> x" "0 < p"
  shows "fmul (py_round x 6) p \<le> (x * p) * (1 + 7 / 10 ^ 4)"
proof -
  have a: "0 \<le> py_round x 6 * p" "py_round x 6 * p \<le> x * (1 + 6 / 10 ^ 4) * p"
    using py_round_upper [OF assms(1)] assms(2) by (simp_all add: mult_right_mono)
  have "b64 (py_round x 6 * p) \<le> (py_round x 6 * p) * (1 + 1 / 2 ^ 53)" using a(1) by (rule f64.fl_upper)
  moreover have "x * (1 + 6 / 10 ^ 4) * p = (x * p) * (1 + 6 / 10 ^ 4)" by simp
  moreover have "0 \<le> x * p" using assms by simp
  ultimately show ?thesis unfolding fmul_def using a by simp
qed

definition within_limits :: "copy_config \<Rightarrow> rat \<Rightarrow> rat \<Rightarrow> bool" where
  "within_limits cfg amount usd \<longleftrightarrow>
     0 \<le> amount \<and> amount \<le> cc_max_per_trade_eth cfg * (1001 / 1000) \<and>
     usd \<le> cc_daily_cap_usd cfg * (1001 / 1000)"

lemma cap_plain:
  assumes S: "0 \<le> S" and x: "1 / 1001 \<le> x" and p: "0 < p" and fits: "fadd (b64 S) (fmul x p) \<le> cap"
  shows "S + fmul (py_round x 6) p \<le> cap * (1001 / 1000)"
proof -
  let ?e = "1 / 2 ^ 53 :: rat"
  have m: "0 \<le> x * p" using x p by simp
  have "S * (1 - ?e) \<le> b64 S" "x * p * (1 - ?e) \<le> fmul x p"
    using f64.fl_lower [OF S] f64.fl_lower [OF m] by (simp_all add: fmul_def)
  moreover have "0 \<le> b64 S + fmul x p" using f64.fl_nonneg [OF S] f64.fl_nonneg [OF m] by (simp add: fmul_def)
  then have "(b64 S + fmul x p) * (1 - ?e) \<le> cap" using f64.fl_lower fits unfolding fadd_def by fastforce
  ultimately show ?thesis using copied_usd [OF x p] S m by simp
qed

lemma cap_shrunk:
  assumes S: "0 \<le> S" and p: "0 < p" and room: "\<not> fsub cap (b64 S) \<le> 0"
    and x: "1 / 1001 \<le> fdiv (fsub cap (b64 S)) p"
  shows "S + fmul (py_round (fdiv (fsub cap (b64 S)) p) 6) p \<le> cap * (1001 / 1000)"
proof -
  let ?e = "1 / 2 ^ 53 :: rat" and ?r = "fsub cap (b64 S)"
  have r: "0 < cap - b64 S" using room fsub_pos_iff by force
  have "0 \<le> cap - b64 S" using r by simp
  then have 1: "?r \<le> (cap - b64 S) * (1 + ?e)" unfolding fsub_def by (rule f64.fl_upper)
  have "0 \<le> ?r / p" using room p by simp
  then have "fdiv ?r p \<le> ?r / p * (1 + ?e)" unfolding fdiv_def by (rule f64.fl_upper)
  then have "fdiv ?r p * p \<le> ?r / p * (1 + ?e) * p" using p by (intro mult_right_mono) simp_all
  also have "\<dots> = ?r * (1 + ?e)" using p by simp
  finally have 2: "fdiv ?r p * p \<le> ?r * (1 + ?e)" .
  have 3: "S * (1 - ?e) \<le> b64 S" using S by (rule f64.fl_lower)
  have 4: "0 \<le> b64 S" using S by (rule f64.fl_nonneg)
  have 5: "fmul (py_round (fdiv ?r p) 6) p \<le> fdiv ?r p * p * (1 + 7 / 10 ^ 4)" using x p by (rule copied_usd)
  have "fmul (py_round (fdiv ?r p) 6) p \<le> (cap - b64 S) * (1 + 8 / 10 ^ 4)" using 5 2 1 r by simp
  then show ?thesis using 3 4 r S by simp
qed

lemma shrunk_size:
  assumes cap: "is_float cap" and x: "0 \<le> x" and p: "0 < p" and over: "cap < fadd s (fmul x p)"
  shows "fdiv (fsub cap s) p \<le> x * (1 + 1 / 10 ^ 6)"
proof -
  let ?e = "1 / 2 ^ 53 :: rat" and ?f = "fmul x p"
  have "cap < s + ?f" using f64.exact_le_of_fl_less [of cap] cap over by (simp add: fadd_def is_float_def)
  then have "fsub cap s \<le> ?f" unfolding fsub_def
    by (intro f64.fl_le_fixed) (use is_float_b64 in \<open>auto simp: fmul_def is_float_def\<close>)
  then have "fdiv (fsub cap s) p \<le> fdiv ?f p"
    unfolding fdiv_def using p by (intro f64.fl_mono divide_right_mono) simp_all
  also have "\<dots> \<le> ?f / p * (1 + ?e)"
    unfolding fdiv_def using x p by (intro f64.fl_upper) (simp add: fmul_nonneg)
  also have "\<dots> \<le> (x * p * (1 + ?e)) / p * (1 + ?e)"
    unfolding fmul_def using x p by (intro mult_right_mono divide_right_mono f64.fl_upper) simp_all
  also have "\<dots> = x * ((1 + ?e) * (1 + ?e))" using p by simp
  also have "\<dots> \<le> x * (1 + 1 / 10 ^ 6)" using x by (intro mult_left_mono) simp_all
  finally show ?thesis .
qed

lemma decide_limits:
  assumes d: "cd_execute (decide env token l cfg (b64 S) p)"
    and S: "0 \<le> S" and p: "0 < p" and least: "1 / 1001 \<le> cc_min_per_trade_eth cfg"
    and cap: "is_float (cc_daily_cap_usd cfg)"
  defines "a \<equiv> cd_amount_eth (decide env token l cfg (b64 S) p)"
  shows "within_limits cfg a (S + fmul a p)"
proof -
  let ?x = "copy_size cfg l" and ?cap = "cc_daily_cap_usd cfg" and ?least = "cc_min_per_trade_eth cfg"
  let ?small = "fdiv (fsub ?cap (b64 S)) p"
  have le: "?x \<le> cc_max_per_trade_eth cfg" by (simp add: copy_size_def)
  consider (plain) "1 / 1001 \<le> ?x" "fadd (b64 S) (fmul ?x p) \<le> ?cap" "a = py_round ?x 6"
    | (shrunk) "1 / 1001 \<le> ?x" "\<not> fsub ?cap (b64 S) \<le> 0" "1 / 1001 \<le> ?small" "a = py_round ?small 6"
        "?cap < fadd (b64 S) (fmul ?x p)"
    using d p least unfolding a_def by (auto simp: decide_def refuse_def allow_def Let_def split: if_splits)
  then show ?thesis
  proof cases
    case plain
    then show ?thesis
      using cap_plain [OF S plain(1) p plain(2)] py_round_upper [OF plain(1)] le by (simp add: within_limits_def)
  next
    case shrunk
    have "?small \<le> ?x * (1 + 1 / 10 ^ 6)" using shrunk(1) by (intro shrunk_size [OF cap _ p shrunk(5)]) simp
    then show ?thesis
      using cap_shrunk [OF S p shrunk(2,3)] py_round_upper [OF shrunk(3)] shrunk(1,4) le
      by (simp add: within_limits_def)
  qed
qed

section \<open>The ledger\<close>

text \<open>What the seams may do: leave subscriptions and fills alone, keep the price positive, and let
  time pass.\<close>

definition priced :: "'z copy_state_scheme \<Rightarrow> bool" where
  "priced w \<longleftrightarrow> (\<forall>p. copy_price w = Some p \<longrightarrow> 0 < p)"

definition same_ledger :: "'z copy_state_scheme \<Rightarrow> 'z copy_state_scheme \<Rightarrow> bool" where
  "same_ledger w w' \<longleftrightarrow> copy_fills w' = copy_fills w \<and> copy_subs w' = copy_subs w \<and>
     looks w \<le> looks w' \<and> slept w \<le> slept w'"

abbreviation aside :: "('z copy_state_scheme, 'a) io \<Rightarrow> bool" where
  "aside m \<equiv> obeys priced same_ledger m"

interpretation ledger: io_relation priced same_ledger
  by unfold_locales (auto simp: same_ledger_def)

text \<open>A fill within the limits of an enabled subscription, given the fills before it.\<close>

definition fill_ok :: "(int \<times> string, copy_sub) table \<Rightarrow> copy_fill list \<Rightarrow> copy_fill \<Rightarrow> bool" where
  "fill_ok subs before f \<longleftrightarrow>
     (\<exists>row. ((cf_telegram_id f, cf_leader f), row) \<in> set subs \<and> cs_enabled row \<and>
        within_limits (cfg_of row) (cf_amount_eth f)
          (spent_sum (cf_telegram_id f) (cf_created_at f) before + cf_usd f))"

lemma spent_later:
  assumes "now \<le> later" "\<forall>f\<in>set fills. 0 \<le> cf_usd f"
  shows "spent_sum uid later fills \<le> spent_sum uid now fills"
  using assms(2) by (induction fills) (use assms(1) in \<open>auto simp: spent_sum_def counts_today_def\<close>)

lemma fill_okI:
  assumes "((cf_telegram_id f, cf_leader f), row) \<in> set subs" "cs_enabled row"
    "within_limits (cfg_of row) (cf_amount_eth f) (spent_sum (cf_telegram_id f) now before + cf_usd f)"
    "now \<le> cf_created_at f" "\<forall>g\<in>set before. 0 \<le> cf_usd g"
  shows "fill_ok subs before f"
  using assms spent_later [OF assms(4,5), of "cf_telegram_id f"]
  by (fastforce simp: fill_ok_def within_limits_def)

fun fills_ok :: "(int \<times> string, copy_sub) table \<Rightarrow> copy_fill list \<Rightarrow> copy_fill list \<Rightarrow> bool" where
  "fills_ok subs before [] \<longleftrightarrow> True"
| "fills_ok subs before (f # fs) \<longleftrightarrow> fill_ok subs before f \<and> fills_ok subs (before @ [f]) fs"

lemma fills_ok_append:
  "fills_ok subs before (fs @ gs) \<longleftrightarrow> fills_ok subs before fs \<and> fills_ok subs (before @ fs) gs"
  by (induction fs arbitrary: before) auto

definition sane_subs :: "(int \<times> string, copy_sub) table \<Rightarrow> bool" where
  "sane_subs subs \<longleftrightarrow> (\<forall>(_, r)\<in>set subs. 1 / 1000 \<le> cs_min_per_trade_eth r)"

definition copy_ok :: "(int \<times> string, copy_sub) table \<Rightarrow> 'z copy_state_scheme \<Rightarrow> bool" where
  "copy_ok subs w \<longleftrightarrow> priced w \<and> copy_subs w = subs \<and> sane_subs subs \<and>
     (\<forall>f\<in>set (copy_fills w). 0 \<le> cf_usd f)"

definition copied :: "(int \<times> string, copy_sub) table \<Rightarrow> 'z copy_state_scheme \<Rightarrow> 'z copy_state_scheme \<Rightarrow> bool" where
  "copied subs w w' \<longleftrightarrow> (\<exists>new. copy_fills w' = copy_fills w @ new \<and> fills_ok subs (copy_fills w) new)"

interpretation copying: io_relation "copy_ok subs" "copied subs"
proof
  show "copied subs w w" for w by (simp add: copied_def exI [of _ "[]"])
  show "copied subs w1 w3" if "copied subs w1 w2" "copied subs w2 w3" for w1 w2 w3
    using that by (auto simp: copied_def fills_ok_append)
qed

lemma utc_later: "utc_monotone env \<Longrightarrow> same_ledger w w' \<Longrightarrow> utc_now env w \<le> utc_now env w'"
  by (simp add: same_ledger_def utc_forward)

lemma aside_copies: "aside m \<Longrightarrow> obeys (copy_ok subs) (copied subs) m"
  unfolding obeys_def copy_ok_def copied_def same_ledger_def
  by (metis append_Nil2 fills_ok.simps(1))

lemma spent_nonneg: "\<forall>f\<in>set fills. 0 \<le> cf_usd f \<Longrightarrow> 0 \<le> spent_sum uid now fills"
  unfolding spent_sum_def by (intro sum_list_nonneg) auto

lemma cfg_of_floats:
  "is_float (cc_daily_cap_usd (cfg_of r))"
  "1 / 1000 \<le> cs_min_per_trade_eth r \<Longrightarrow> 1 / 1001 \<le> cc_min_per_trade_eth (cfg_of r)"
proof -
  assume "1 / 1000 \<le> cs_min_per_trade_eth r"
  then have "0 \<le> cs_min_per_trade_eth r" "1 / 1001 \<le> cs_min_per_trade_eth r * (1 - 1 / 2 ^ 53)" by simp_all
  then show "1 / 1001 \<le> cc_min_per_trade_eth (cfg_of r)"
    using f64.fl_lower [of "cs_min_per_trade_eth r"] by (simp add: cfg_of_def)
qed (simp add: cfg_of_def)

locale copy_seams =
  fixes execute :: "int \<Rightarrow> string \<Rightarrow> rat \<Rightarrow> ('z copy_state_scheme, 'h) io"
    and notify :: "int \<Rightarrow> string \<Rightarrow> ('z copy_state_scheme, unit) io"
    and price_provider :: "int \<Rightarrow> ('z copy_state_scheme, rat option) io"
  assumes execute_aside: "aside (execute uid token amount)"
    and notify_aside: "aside (notify uid message)"
    and price_aside: "aside (price_provider uid)"
    and price_positive: "priced w \<Longrightarrow> price_provider uid w = (w', Inr (Some p)) \<Longrightarrow> 0 < p"
begin

lemma tried_aside:
  "aside (catch_all (bind (execute uid token amount) (\<lambda>_. return None)) (\<lambda>e. return (Some e)))"
  unfolding catch_all_def by (intro ledger.obeys_rules execute_aside)

lemma copy_once_obeys:
  assumes row: "((uid, lower leader), row) \<in> set subs" "cs_enabled row" and clock: "utc_monotone env"
  shows "obeys (copy_ok subs) (copied subs)
    (copy_once execute notify price_provider env leader token eth_spent tx_hash (uid, cfg_of row))"
  unfolding obeys_def
proof (intro allI impI)
  let ?cfg = "cfg_of row" and ?say = "\<lambda>m. obeys (copy_ok subs) (copied subs) (notify uid m)"
  have say: "?say m" for m by (rule aside_copies [OF notify_aside])
  fix w :: "'z copy_state_scheme" assume ok: "copy_ok subs w"
  let ?S = "spent_sum uid (utc_now env w) (copy_fills w)"
  let ?goal = "\<lambda>r. copy_ok subs (fst r) \<and> copied subs w (fst r)"
  have S: "0 \<le> ?S" using ok by (intro spent_nonneg) (simp add: copy_ok_def)
  obtain w1 r1 where 1: "price_provider uid w = (w1, r1)" by fastforce
  have k1: "copy_ok subs w1" "copied subs w w1" "same_ledger w w1"
    using obeysD [OF aside_copies [OF price_aside] ok 1] obeysD [OF price_aside _ 1] ok
    by (auto simp: copy_ok_def)
  have later: "?goal (notify uid m u)" if "copy_ok subs u" "copied subs w u" for m u
    using say [of m] that copying.R_trans unfolding obeys_def by blast
  show "?goal (copy_once execute notify price_provider env leader token eth_spent tx_hash (uid, ?cfg) w)"
  proof (cases "\<exists>p. r1 = Inr (Some p) \<and> cd_execute (decide env token eth_spent ?cfg (b64 ?S) p)")
    case False
    then show ?thesis
      using 1 k1 later by (auto simp: copy_once_def spent_today_usd_def io_simps bind_def Let_def
          split: sum.split option.split)
  next
    case True
    then obtain p where p: "r1 = Inr (Some p)" "cd_execute (decide env token eth_spent ?cfg (b64 ?S) p)" by blast
    let ?d = "decide env token eth_spent ?cfg (b64 ?S) p"
    have pos: "0 < p" using price_positive 1 p(1) ok by (auto simp: copy_ok_def)
    have limits: "within_limits ?cfg (cd_amount_eth ?d) (?S + fmul (cd_amount_eth ?d) p)"
      using p(2) S pos ok row by (intro decide_limits cfg_of_floats) (auto simp: copy_ok_def sane_subs_def)
    obtain w2 r2 where 2: "catch_all (bind (execute uid token (cd_amount_eth ?d)) (\<lambda>_. return None))
        (\<lambda>e. return (Some e)) w1 = (w2, r2)" by fastforce
    have k2: "copy_ok subs w2" "copied subs w1 w2" "same_ledger w1 w2"
      using obeysD [OF aside_copies [OF tried_aside] k1(1) 2] obeysD [OF tried_aside _ 2] k1(1)
      by (auto simp: copy_ok_def)
    obtain w3 where 3: "record_fill env uid leader token (cd_amount_eth ?d) (fmul (cd_amount_eth ?d) p)
        tx_hash None ''sent'' w2 = (w3, Inr ())" by (simp add: record_fill_def io_simps)
    have "0 \<le> fmul (cd_amount_eth ?d) p"
      using limits pos by (intro fmul_nonneg) (simp_all add: within_limits_def)
    moreover have "utc_now env w \<le> utc_now env w2"
      using utc_later [OF clock k1(3)] utc_later [OF clock k2(3)] by simp
    ultimately have k3: "copy_ok subs w3" "copied subs w w3"
      using 3 k2 k1 ok row limits
      by (auto simp: record_fill_def io_simps copy_ok_def copied_def same_ledger_def priced_def intro!: fill_okI)
    have "copied subs w w2" using k1(2) k2(2) by (rule copying.R_trans)
    then show ?thesis
      using 1 p 2 3 k1 k2 k3 later
      by (cases r2) (auto simp: copy_once_def spent_today_usd_def io_simps bind_def Let_def split: option.split)
  qed
qed

lemma on_buy_obeys:
  assumes clock: "utc_monotone env"
  shows "obeys (copy_ok subs) (copied subs) (on_buy execute notify price_provider env leader token eth_spent tx_hash)"
proof -
  let ?once = "copy_once execute notify price_provider env leader token eth_spent tx_hash"
  let ?rows = "rows_where (\<lambda>k r. snd k = lower leader \<and> cs_enabled r) subs"
  let ?f = "\<lambda>x :: (int \<times> string) \<times> copy_sub. (fst (fst x), cfg_of (snd x))"
  have "obeys (copy_ok subs) (copied subs) (for_each ?once (map ?f rows))"
    if "set rows \<subseteq> set ?rows" for rows
    using that
  proof (induction rows)
    case Nil
    show ?case by (simp add: copying.obeys_pure)
  next
    case (Cons x rows)
    then have "((fst (fst x), lower leader), snd x) \<in> set subs" "cs_enabled (snd x)"
      by (cases x, force simp: rows_where_def)+
    from copy_once_obeys [OF this clock] Cons show ?case
      by (auto intro!: copying.obeys_bind copying.obeys_pure)
  qed
  from this [of ?rows] have each: "obeys (copy_ok subs) (copied subs) (for_each ?once (map ?f ?rows))" by simp
  have "obeys (copy_ok subs) (copied subs) (bind (for_each ?once (map ?f ?rows)) (\<lambda>_. return ()))"
    by (intro copying.obeys_rules each)
  moreover have "on_buy execute notify price_provider env leader token eth_spent tx_hash w =
      bind (for_each ?once (map ?f ?rows)) (\<lambda>_. return ()) w" if "copy_ok subs w" for w
  proof -
    have "copiers_of leader w = (w, Inr (map ?f ?rows))"
      using that by (simp add: copiers_of_def gets_def copy_ok_def case_prod_unfold)
    then show ?thesis by (simp add: on_buy_def bind_simps)
  qed
  ultimately show ?thesis by (simp add: obeys_def)
qed

end

section \<open>The seams of the bot\<close>

lemma same_more_ledger:
  fixes w w' :: "'z copy_state_scheme"
  assumes "same_more w w'"
  shows "copy_fills w' = copy_fills w" "copy_subs w' = copy_subs w" "copy_price w' = copy_price w"
    "looks w \<le> looks w'" "slept w \<le> slept w'"
  using assms by (cases w; cases w'; simp add: same_more_def)+

lemma aside_framed:
  fixes m :: "('z copy_state_scheme, 'a) io"
  shows "framed m \<Longrightarrow> aside m"
  unfolding obeys_def same_ledger_def priced_def using same_more_ledger by metis

lemma aside_modify:
  assumes "\<And>w. copy_fills (h w) = copy_fills w" "\<And>w. copy_subs (h w) = copy_subs w"
    "\<And>w. priced w \<Longrightarrow> priced (h w)" "\<And>w. looks (h w) = looks w" "\<And>w. slept (h w) = slept w"
  shows "aside (modify h)"
  using assms by (simp add: obeys_def same_ledger_def modify_def)

lemma aside_insert: "aside (insert_wallet env quiet tid address key imported)"
  by (simp add: obeys_def same_ledger_def insert_wallet_def priced_def)

lemmas aside_rules = ledger.obeys_rules aside_insert aside_framed [OF framed_signer]
  aside_framed [OF framed_gateway(1)] aside_framed [OF framed_rpc] aside_framed [OF framed_looks(2)]

lemma aside_wallet: "aside (get_or_create_wallet c env tid)" "aside (wallet_address c env tid)"
  unfolding wallet_address_def get_or_create_wallet_def get_wallet_def signer_calls
  by (intro aside_rules)+

lemma aside_native: "aside (native_balance c env tid)"
  unfolding native_balance_def portfolio_rpc_def by (intro aside_rules aside_wallet)

lemma aside_jwt: "aside (get_jwt c env tid)"
proof -
  have cache: "aside (modify (\<lambda>s. s\<lparr>jwt_cache := put_row tid (jwt, expiry_epoch (utc_now env s) b) (jwt_cache s)\<rparr>))"
    for jwt b by (rule aside_modify) (simp_all add: priced_def)
  have "aside (authenticate c env tid)"
    unfolding authenticate_def signer_calls by (intro aside_rules aside_wallet cache)
  then have "aside (sign_in c env tid)" unfolding sign_in_def
    by (intro ledger.obeys_try) (auto split: exn.split intro: aside_rules)
  then show ?thesis unfolding get_jwt_def by (intro aside_rules)
qed

lemma aside_tell: "aside (tell env uid message)"
proof -
  have "aside (send_message env uid m)" for m
    by (simp add: obeys_def same_ledger_def send_message_def priced_def Let_def)
  then have "aside (send_attempts env uid message n)" for n
    by (induction n) (auto split: delivery.split intro!: aside_rules aside_framed [OF framed_looks(3)])
  then show ?thesis unfolding tell_def notify_send_def by (intro aside_rules)
qed

lemma aside_price: "aside (copy_eth_price c env tid)"
proof -
  have keep: "aside (modify (\<lambda>w. w\<lparr>copy_price := Some p, copy_price_at := t\<rparr>))" if "0 < p" for p t
    using that by (intro aside_modify) (simp_all add: priced_def)
  have "aside (price_quote c env tid)" unfolding price_quote_def
    by (intro aside_rules aside_jwt aside_wallet aside_framed [OF framed_sushi(1)])
  then have tried: "aside (catch_all (bind (price_quote c env tid) (\<lambda>q. return (Some q))) (\<lambda>_. return None))"
    unfolding catch_all_def by (intro aside_rules)
  have pos: "0 < p" if "read_price q = Inr (Some p)" for q p
    using that by (auto simp: read_price_def then_sum_Inr Let_def split: if_splits)
  have step: "aside (bind (from_sum (read_price q)) (\<lambda>price. case price of None \<Rightarrow> return None
      | Some p \<Rightarrow> bind (modify (\<lambda>w. w\<lparr>copy_price := Some p, copy_price_at := t\<rparr>)) (\<lambda>_. return (Some p))))" for q t
  proof (cases "\<exists>p. read_price q = Inr (Some p)")
    case True
    then obtain p where p: "read_price q = Inr (Some p)" by blast
    have "aside (bind (modify (\<lambda>w. w\<lparr>copy_price := Some p, copy_price_at := t\<rparr>)) (\<lambda>_. return (Some p)))"
      by (intro ledger.obeys_bind keep pos [OF p] ledger.obeys_pure)
    then show ?thesis using p by (simp add: obeys_def bind_def from_sum_def)
  next
    case False
    then show ?thesis by (auto simp: obeys_def bind_def from_sum_def io_simps ledger.R_refl split: sum.split option.split)
  qed
  show ?thesis unfolding copy_eth_price_def by (intro aside_rules tried step)
qed

lemma copy_price_positive:
  assumes "priced w" "copy_eth_price c env tid w = (w', Inr (Some p))"
  shows "0 < p"
  using assms
  by (auto simp: copy_eth_price_def bind_Inr io_simps priced_def read_price_def then_sum_Inr Let_def
      split: if_splits option.splits)

lemma aside_purse: "aside (copy_purse c env tid)"
  unfolding copy_purse_def by (intro aside_rules aside_wallet aside_jwt aside_native)

lemma aside_unless: "aside m \<Longrightarrow> aside (unless_sushi m)"
  unfolding unless_sushi_def by (intro aside_rules)

lemma framed_relay_buy: "framed (relay_buy c env jwt key a token amount)"
  unfolding relay_buy_def
  by (intro framed_rules framed_relay framed_record) (auto split: exn.split intro: framed_rules)

lemma aside_buy: "aside (copy_buy c env tid token amount)"
  unfolding copy_buy_def
  by (intro aside_rules aside_purse aside_wallet aside_unless aside_framed [OF framed_sushi(1)]
      aside_framed [OF framed_sushi(2)] aside_framed [OF framed_relay_buy])

interpretation live_copy: copy_seams "copy_buy c env" "tell env" "copy_eth_price c env"
  by unfold_locales (rule aside_buy aside_tell aside_price copy_price_positive; assumption)+

lemma put_row_in: "(k', r') \<in> set (put_row k r t) \<Longrightarrow> r' = r \<or> (k', r') \<in> set t"
  by (induction t) (auto simp: put_row_def split: if_splits)

text \<open>Rows only come from \<open>set_copy\<close>, which never touches the least trade of a row.\<close>

lemma set_copy_sane:
  assumes "sane_subs (copy_subs w)" "set_copy env uid leader enabled amount mode most cap w = (w', r)"
  shows "sane_subs (copy_subs w')"
proof -
  have kept: "1 / 1000 \<le> cs_min_per_trade_eth r0" if "row_of (copy_subs w) k = Some r0" for k r0
    using row_of_in [OF that] assms(1) by (auto simp: sane_subs_def)
  show ?thesis
    using assms kept [of "(uid, lower leader)"]
    by (auto simp: set_copy_def sane_subs_def io_simps Let_def split: if_splits option.splits dest!: put_row_in)
qed


definition copy_start :: copy_state where
  "copy_start = \<lparr>looks = 0, slept = 0, on_fallback = False, primary_stale = False, lag_checked_at = 0,
     tg_wallets = [], next_wallet_id = 1, jwt_cache = [], delivered = [], copy_price = Some 2000,
     copy_price_at = 0,
     copy_subs = [((7, ''0xa''), \<lparr>cs_enabled = True, cs_mode = ''fixed'', cs_amount_eth = 1 / 100,
       cs_max_per_trade_eth = 5 / 100, cs_min_per_trade_eth = 1 / 1000, cs_daily_cap_usd = 100,
       cs_created_at = 0\<rparr>)],
     copy_fills = [], copy_leaders = []\<rparr>"


end
