(* ===== verification/Copy_Watcher.thy ===== *)
theory Copy_Watcher
  imports Copy_Trade
begin

text \<open>
  Detecting the buys to copy, \<open>app/services/copy_watcher.py\<close>: blocks are read from the node's
  head and every buy by a watched wallet is given to a callback. The callback and the set of
  wallets are parameters, as in the code; \<open>app/main.py\<close> supplies the engine and the leaders it
  refreshes. Only log lines are left out.
\<close>

section \<open>Definitions\<close>

record watch_state = copy_state +
  watch_last :: "int option"
  watch_index :: nat

definition COPY_TRANSFER :: string where
  "COPY_TRANSFER = ''0xddf252ad1be2c89b69c2b068fc378daa952ba7f163c4a11628f55a4df523b3ef''"

definition watch_rpc :: "outside \<Rightarrow> string \<Rightarrow> string \<Rightarrow> json list \<Rightarrow> ('z world_scheme, json) io" where
  "watch_rpc env node m ps =
     bind (http_call env ''POST'' node
             (JObj [(''jsonrpc'', JStr ''2.0''), (''id'', JInt 1), (''method'', JStr m), (''params'', JArr ps)]))
       (\<lambda>o1. case o1 of
          Transport_Error cls msg \<Rightarrow> throw (HttpError msg)
        | Reply status body \<Rightarrow>
            (case body of
               None \<Rightarrow> throw ValueError
             | Some j \<Rightarrow> from_sum (field ''result'' (j_or j (JObj [])))))"

text \<open>\<open>d.get(k, v)\<close>.\<close>

definition field_else :: "string \<Rightarrow> json \<Rightarrow> json \<Rightarrow> exn + json" where
  "field_else k v j = (if has_key k j then field k j else then_sum (field k j) (\<lambda>_. Inr v))"

definition text_of :: "exn \<Rightarrow> json \<Rightarrow> exn + string" where
  "text_of e j = (case j of JStr s \<Rightarrow> Inr s | _ \<Rightarrow> Inl e)"

definition tx_value :: "json \<Rightarrow> exn + int" where
  "tx_value tx = then_sum (field_else ''value'' (JStr ''0x0'') tx) hex_text"

definition topic_list :: "json \<Rightarrow> exn + json list" where
  "topic_list lg =
     then_sum (field ''topics'' lg) (\<lambda>t.
       case j_or t (JArr []) of
         JArr xs \<Rightarrow> Inr xs
       | JStr s \<Rightarrow> Inr (map (\<lambda>x. JStr [x]) s)
       | JObj kvs \<Rightarrow> if length (remdups (map fst kvs)) = 3 then Inl (KeyError ''0'') else Inr []
       | _ \<Rightarrow> Inl TypeError)"

definition last_forty :: "string \<Rightarrow> string" where
  "last_forty s = drop (length s - 40) s"

text \<open>A log that credits the sender: the token.\<close>

definition credited :: "string \<Rightarrow> json \<Rightarrow> exn + string option" where
  "credited sender lg =
     then_sum (topic_list lg) (\<lambda>topics.
       if length topics \<noteq> 3 then Inr None
       else
         then_sum (text_of AttributeError (topics ! 0)) (\<lambda>t0.
         if lower t0 \<noteq> COPY_TRANSFER then Inr None
         else
           then_sum (text_of TypeError (topics ! 2)) (\<lambda>t2.
           if ''0x'' @ lower (last_forty t2) \<noteq> sender then Inr None
           else
             then_sum (item ''address'' lg) (\<lambda>a.
             then_sum (text_of AttributeError a) (\<lambda>a. Inr (Some (lower a)))))))"

fun first_credit :: "string \<Rightarrow> json list \<Rightarrow> exn + string option" where
  "first_credit sender [] = Inr None"
| "first_credit sender (lg # lgs) =
     then_sum (credited sender lg) (\<lambda>t. case t of Some a \<Rightarrow> Inr (Some a) | None \<Rightarrow> first_credit sender lgs)"

definition good_status :: "json \<Rightarrow> bool" where
  "good_status st \<longleftrightarrow> st = JStr ''0x1'' \<or> equals_int st 1"

definition bought_in :: "json \<Rightarrow> json \<Rightarrow> exn + string option" where
  "bought_in tx rc =
     (if \<not> truthy rc then Inr None
      else
        then_sum (field ''status'' rc) (\<lambda>st.
        if \<not> good_status st then Inr None
        else
          then_sum (field ''logs'' rc) (\<lambda>logs.
          if \<not> truthy logs then Inr None
          else
            then_sum (item ''from'' tx) (\<lambda>f.
            then_sum (text_of AttributeError f) (\<lambda>f.
            then_sum (iterate logs) (\<lambda>lgs. first_credit (lower f) lgs))))))"

definition resolve_buy ::
  "outside \<Rightarrow> string \<Rightarrow> json \<Rightarrow> ('z world_scheme, (string \<times> rat) option) io" where
  "resolve_buy env node tx =
     bind (from_sum (tx_value tx)) (\<lambda>wei.
       let eth = fdiv (to_float wei) (10 ^ 18) in
       if eth \<le> 0 then return None
       else
         bind (from_sum (item ''hash'' tx)) (\<lambda>h.
         bind (watch_rpc env node ''eth_getTransactionReceipt'' [h]) (\<lambda>rc.
         bind (from_sum (bought_in tx rc)) (\<lambda>t.
           return (map_option (\<lambda>token. (token, eth)) t)))))"

type_synonym 's buy_callback = "string \<Rightarrow> string \<Rightarrow> rat \<Rightarrow> string \<Rightarrow> ('s, unit) io"

definition watch_tx ::
  "outside \<Rightarrow> string \<Rightarrow> string list \<Rightarrow> 'z world_scheme buy_callback \<Rightarrow> json \<Rightarrow> ('z world_scheme, unit) io" where
  "watch_tx env node wallets callback tx =
     bind (from_sum (then_sum (field_else ''from'' (JStr []) tx) (text_of AttributeError))) (\<lambda>sender.
       if lower sender \<notin> set wallets then return ()
       else
         bind (from_sum (tx_value tx)) (\<lambda>wei.
         if wei \<le> 0 then return ()
         else
           bind (resolve_buy env node tx) (\<lambda>hit.
             case hit of
               None \<Rightarrow> return ()
             | Some (token, eth) \<Rightarrow>
                 bind (from_sum (then_sum (item ''hash'' tx) (text_of DataError))) (\<lambda>h.
                   callback (lower sender) token eth h))))"

definition block_txs :: "json \<Rightarrow> exn + json list" where
  "block_txs blk = then_sum (field_else ''transactions'' (JArr []) (j_or blk (JObj []))) iterate"

definition watch_block ::
  "outside \<Rightarrow> string \<Rightarrow> ('z world_scheme \<Rightarrow> string list) \<Rightarrow> 'z world_scheme buy_callback \<Rightarrow> int
    \<Rightarrow> ('z world_scheme, unit) io" where
  "watch_block env node get_wallets callback bn =
     bind (gets get_wallets) (\<lambda>wallets.
       if wallets = [] then return ()
       else
         bind (watch_rpc env node ''eth_getBlockByNumber'' [JStr (hex bn), JBool True]) (\<lambda>blk.
         bind (from_sum (block_txs blk)) (\<lambda>txs.
         bind (for_each (watch_tx env node wallets callback) txs) (\<lambda>_. return ()))))"

definition watch_nodes :: "string \<Rightarrow> string option \<Rightarrow> string list" where
  "watch_nodes node fallback =
     node # (if or_text_opt fallback [] \<noteq> [] \<and> fallback \<noteq> Some node then [or_text_opt fallback []] else [])"

text \<open>One look at the head: the blocks since the last look, the newest ones only.\<close>

definition watch_scan ::
  "outside \<Rightarrow> string \<Rightarrow> int \<Rightarrow> ('z watch_state_scheme \<Rightarrow> string list) \<Rightarrow>
   'z watch_state_scheme buy_callback \<Rightarrow> ('z watch_state_scheme, unit) io" where
  "watch_scan env node max_block_span get_wallets callback =
     bind (watch_rpc env node ''eth_blockNumber'' []) (\<lambda>r.
     bind (from_sum (hex_text r)) (\<lambda>head.
     bind (modify (\<lambda>w. case watch_last w of None \<Rightarrow> w\<lparr>watch_last := Some (head - 1)\<rparr> | Some _ \<Rightarrow> w)) (\<lambda>_.
     bind (gets (\<lambda>w. the (watch_last w))) (\<lambda>last_seen.
     let lo = max (last_seen + 1) (head - max_block_span) in
     bind (for_each (watch_block env node get_wallets callback) [lo..head]) (\<lambda>_.
     modify (\<lambda>w. w\<lparr>watch_last := Some head, watch_index := 0\<rparr>))))))"

definition watch_step ::
  "outside \<Rightarrow> string \<Rightarrow> string option \<Rightarrow> int \<Rightarrow> int \<Rightarrow> ('z watch_state_scheme \<Rightarrow> string list) \<Rightarrow>
   'z watch_state_scheme buy_callback \<Rightarrow> ('z watch_state_scheme, unit) io" where
  "watch_step env node fallback poll_ms max_block_span get_wallets callback =
     (let nodes = watch_nodes node fallback in
      bind (gets (\<lambda>w. nodes ! watch_index w)) (\<lambda>current.
      bind (catch_all (watch_scan env current max_block_span get_wallets callback) (\<lambda>_.
              bind (modify (\<lambda>w. if length nodes > 1
                  then w\<lparr>watch_index := (watch_index w + 1) mod length nodes\<rparr> else w)) (\<lambda>_.
                sleep (seconds 2)))) (\<lambda>_.
        sleep (poll_ms * 1000))))"

text \<open>The loop never ends; these are its first rounds.\<close>

primrec watch_rounds ::
  "nat \<Rightarrow> outside \<Rightarrow> string \<Rightarrow> string option \<Rightarrow> int \<Rightarrow> int \<Rightarrow> ('z watch_state_scheme \<Rightarrow> string list) \<Rightarrow>
   'z watch_state_scheme buy_callback \<Rightarrow> ('z watch_state_scheme, unit) io" where
  "watch_rounds 0 env node fallback poll_ms reach get_wallets callback = return ()"
| "watch_rounds (Suc n) env node fallback poll_ms reach get_wallets callback =
     bind (watch_step env node fallback poll_ms reach get_wallets callback) (\<lambda>_.
       watch_rounds n env node fallback poll_ms reach get_wallets callback)"

text \<open>What the bot runs: one refresh of the leaders, and the watcher on the engine.\<close>

definition refresh_leaders :: "('z copy_state_scheme, unit) io" where
  "refresh_leaders =
     bind all_leaders (\<lambda>ls. modify (\<lambda>w. w\<lparr>copy_leaders := map lower ls\<rparr>))"

definition bot_watch_step :: "settings \<Rightarrow> outside \<Rightarrow> ('z watch_state_scheme, unit) io" where
  "bot_watch_step c env =
     watch_step env (robinhood_rpc c) (Some (OPRAI_TG_RPC_FALLBACK c)) 400 20 copy_leaders
       (\<lambda>leader token eth tx_hash.
          on_buy (copy_buy c env) (tell env) (copy_eth_price c env) env leader token eth tx_hash)"

section \<open>A block read twice\<close>

text \<open>
  Block 5 holds two buys of the watched wallet. The node's answer to the second receipt is lost
  once; the third and later looks at it are answered.
\<close>

definition watched_tx :: "string \<Rightarrow> json" where
  "watched_tx h = JObj [(''from'', JStr ''0xA''), (''value'', JStr ''0x1''), (''hash'', JStr h)]"

definition watched_receipt :: json where
  "watched_receipt = JObj
     [(''status'', JStr ''0x1''),
      (''logs'', JArr [JObj
        [(''address'', JStr ''0xToken''),
         (''topics'', JArr [JStr COPY_TRANSFER, JStr ''0xpool'', JStr ''a''])]])]"

definition watched_answer :: "nat \<Rightarrow> json option" where
  "watched_answer n =
     (if n = 3 then None
      else Some (JObj [(''result'',
        if n = 0 \<or> n = 4 then JStr ''0x5''
        else if n = 1 \<or> n = 5 then JObj [(''transactions'', JArr [watched_tx ''h1'', watched_tx ''h2''])]
        else watched_receipt)]))"

definition flaky_node :: outside where
  "flaky_node = outage\<lparr>http := (\<lambda>n verb url p. case watched_answer n of
     None \<Rightarrow> Transport_Error ''ReadTimeout'' [] | Some j \<Rightarrow> Reply 200 (Some j))\<rparr>"

definition note_buy :: "'z copy_state_scheme buy_callback" where
  "note_buy leader token eth h = record_fill flaky_node 7 leader token eth 0 h None ''sent''"

definition watch_start :: watch_state where
  "watch_start = copy_state.extend copy_start (watch_state.fields None 0)"

lemma flaky_rpc:
  "watch_rpc flaky_node node m ps w = (w\<lparr>looks := looks w + 1\<rparr>,
     case watched_answer (looks w) of None \<Rightarrow> Inl (HttpError []) | Some j \<Rightarrow> field ''result'' j)"
  by (auto simp: watch_rpc_def flaky_node_def io_simps bind_def watched_answer_def j_or_def split: option.split)

lemma one_wei: "fdiv (to_float 1) (10 ^ 18) = b64 (1 / 10 ^ 18)" "0 < b64 (1 / 10 ^ 18)"
  using rnd_pos [of "1 / 10 ^ 18" 2 53] by (simp_all add: fdiv_def to_float_small b64_def)

lemma watched_value: "tx_value (watched_tx h) = Inr 1"
  unfolding watched_tx_def by code_simp

lemma watched_bought: "bought_in (watched_tx h) watched_receipt = Inr (Some ''0xtoken'')"
  unfolding watched_tx_def by code_simp

lemma watched_fields:
  "then_sum (field_else ''from'' (JStr []) (watched_tx h)) (text_of AttributeError) = Inr ''0xA''"
  "item ''hash'' (watched_tx h) = Inr (JStr h)"
  by (simp_all add: watched_tx_def field_else_def has_key_def text_of_def item_def)

lemma watched_sender: "lower ''0xA'' = ''0xa''"
  by code_simp

definition noted :: "string \<Rightarrow> 'z world_scheme \<Rightarrow> copy_fill" where
  "noted h w = \<lparr>cf_telegram_id = 7, cf_leader = lower ''0xa'', cf_token = lower ''0xtoken'',
     cf_amount_eth = b64 (1 / 10 ^ 18), cf_usd = 0, cf_leader_tx = h, cf_our_tx = None,
     cf_status = ''sent'', cf_created_at = utc_now flaky_node w\<rparr>"

lemma noted_tx [simp]: "cf_leader_tx (noted h w) = h"
  by (simp add: noted_def)

lemma watched_step:
  fixes w :: "'z copy_state_scheme"
  shows "watch_tx flaky_node node [''0xa''] note_buy (watched_tx h) w =
     (let w1 = w\<lparr>looks := looks w + 1\<rparr> in
      if looks w = 3 then (w1, Inl (HttpError []))
      else if looks w \<in> {0, 1, 4, 5} then watch_tx flaky_node node [''0xa''] note_buy (watched_tx h) w
      else (w1\<lparr>copy_fills := copy_fills w @ [noted h w1]\<rparr>, Inr ()))"
  using one_wei watched_sender
  by (auto simp: watch_tx_def resolve_buy_def watched_value watched_fields watched_bought flaky_rpc
      watched_answer_def io_simps bind_def Let_def text_of_def note_buy_def record_fill_def noted_def)


end
