(* ===== verification/Alerts.thy ===== *)
theory Alerts
  imports Notify Portfolio Venues
begin

text \<open>
  The alert feed: the client of the signal service, \<open>app/services/signals_client.py\<close>, the tables
  of \<open>app/services/alert_store.py\<close>, turning signals into messages, \<open>app/services/alerts.py\<close>, and
  the worker, \<open>app/services/alert_worker.py\<close>. The worker is given its sender.
\<close>

section \<open>The signal service\<close>

definition signals_url :: "settings \<Rightarrow> string" where
  "signals_url c = rstrip_chars ''/'' (or_text (CHAIN_INTEL_URL c) ''http://rh-chain-intel-api:3160'')"

definition signals_headers :: "settings \<Rightarrow> json" where
  "signals_headers c =
     JObj (if OPRAI_INTERNAL_API_KEY c = [] then []
           else [(''X-Internal-Api-Key'', JStr (OPRAI_INTERNAL_API_KEY c))])"

text \<open>\<open>for attempt in range(2)\<close>: the attempts left to make.\<close>

fun signals_attempts ::
  "settings \<Rightarrow> outside \<Rightarrow> string \<Rightarrow> json \<Rightarrow> string \<Rightarrow> nat list \<Rightarrow> ('z world_scheme, json) io" where
  "signals_attempts c env path params last_error [] =
     throw (SignalsError (''chain-intel unreachable: '' @ last_error))"
| "signals_attempts c env path params last_error (attempt # rest) =
     bind (http_call env ''GET'' (signals_url c @ path)
             (JObj [(''headers'', signals_headers c), (''params'', params)])) (\<lambda>o1.
       case o1 of
         Transport_Error cls msg \<Rightarrow>
           if attempt = 0
           then bind (sleep (seconds 4 div 10)) (\<lambda>_. signals_attempts c env path params msg rest)
           else throw (SignalsError (''chain-intel unreachable: '' @ msg))
       | Reply status body \<Rightarrow>
           if status \<noteq> 200 then
             throw (SignalsError (''chain-intel '' @ path @ '' '' @ arrow_sign @ '' '' @ show_int status @
               '': '' @ take 200 (raw_text env body)))
           else from_sum (or_raise ValueError body))"

definition signals_get ::
  "settings \<Rightarrow> outside \<Rightarrow> string \<Rightarrow> json \<Rightarrow> ('z world_scheme, json) io" where
  "signals_get c env path params = signals_attempts c env path params ''None'' [0, 1]"

text \<open>\<open>int(x)\<close>.\<close>

definition int_of :: "json \<Rightarrow> exn + int" where
  "int_of j =
     (case j of
        JInt n \<Rightarrow> Inr n
      | JFloat x \<Rightarrow> Inr (py_int x)
      | JBool b \<Rightarrow> Inr (if b then 1 else 0)
      | JStr s \<Rightarrow> or_raise ValueError (parse_int 10 s)
      | _ \<Rightarrow> Inl TypeError)"

definition tip_or :: "json \<Rightarrow> int \<Rightarrow> exn + int" where
  "tip_or res n = then_sum (field ''tip'' res) (\<lambda>t. int_of (j_or t (JInt n)))"

definition signals_tip :: "settings \<Rightarrow> outside \<Rightarrow> ('z world_scheme, int) io" where
  "signals_tip c env =
     bind (signals_get c env ''/signals/tip'' (JObj [])) (\<lambda>res. from_sum (tip_or res 0))"

definition smart_buys ::
  "settings \<Rightarrow> outside \<Rightarrow> int \<Rightarrow> int \<Rightarrow> int \<Rightarrow> ('z world_scheme, json) io" where
  "smart_buys c env since_block min_smart limit =
     signals_get c env ''/signals/smart-buys''
       (JObj [(''since_block'', JInt since_block), (''min_smart'', JInt min_smart), (''limit'', JInt limit)])"

definition new_launches ::
  "settings \<Rightarrow> outside \<Rightarrow> int \<Rightarrow> bool \<Rightarrow> int \<Rightarrow> ('z world_scheme, json) io" where
  "new_launches c env since_block with_smart_only limit =
     signals_get c env ''/signals/new-launches''
       (JObj [(''since_block'', JInt since_block),
              (''with_smart_only'', JStr (if with_smart_only then ''true'' else ''false'')),
              (''limit'', JInt limit)])"

definition wallet_recent_buys ::
  "settings \<Rightarrow> outside \<Rightarrow> string \<Rightarrow> int \<Rightarrow> int \<Rightarrow> ('z world_scheme, json) io" where
  "wallet_recent_buys c env wallet since_block limit =
     signals_get c env (''/wallet/'' @ wallet @ ''/recent-buys'')
       (JObj [(''since_block'', JInt since_block), (''limit'', JInt limit)])"

definition token_report :: "settings \<Rightarrow> outside \<Rightarrow> string \<Rightarrow> ('z world_scheme, json) io" where
  "token_report c env token = signals_get c env (''/token/'' @ token) (JObj [])"

section \<open>Messages\<close>

definition green_sign :: string where "green_sign = [CHR 0xF0, CHR 0x9F, CHR 0x9F, CHR 0xA2]"
definition lens_sign :: string where "lens_sign = [CHR 0xF0, CHR 0x9F, CHR 0x94, CHR 0x8D]"
definition new_sign :: string where "new_sign = [CHR 0xF0, CHR 0x9F, CHR 0x86, CHR 0x95]"
definition rocket_sign :: string where "rocket_sign = [CHR 0xF0, CHR 0x9F, CHR 0x9A, CHR 0x80]"
definition eyes_sign :: string where "eyes_sign = [CHR 0xF0, CHR 0x9F, CHR 0x91, CHR 0x80]"
definition brain_sign :: string where "brain_sign = [CHR 0xF0, CHR 0x9F, CHR 0xA7, CHR 0xA0]"
definition bullet_sign :: string where "bullet_sign = [CHR 0xE2, CHR 0x80, CHR 0xA2]"

type_synonym button = "string \<times> string \<times> json"

definition short_text :: "string \<Rightarrow> string" where
  "short_text a =
     (if length a > 12 then take 6 a @ ellipsis_sign @ drop (length a - 4) a else or_text a ''?'')"

definition short_addr :: "outside \<Rightarrow> json \<Rightarrow> exn + string" where
  "short_addr env j =
     (if \<not> truthy j then Inr ''?''
      else case j of
        JStr s \<Rightarrow> Inr (short_text s)
      | JArr xs \<Rightarrow> Inr (if length xs > 12
          then repr_of env (JArr (take 6 xs)) @ ellipsis_sign @ repr_of env (JArr (drop (length xs - 4) xs))
          else repr_of env j)
      | JObj kvs \<Rightarrow> if length (remdups (map fst kvs)) > 12 then Inl TypeError else Inr (repr_of env j)
      | _ \<Rightarrow> Inl TypeError)"

definition get_or :: "string \<Rightarrow> json \<Rightarrow> json \<Rightarrow> exn + json" where
  "get_or k v j = (if has_key k j then field k j else then_sum (field k j) (\<lambda>_. Inr v))"

definition sym_of :: "outside \<Rightarrow> json \<Rightarrow> exn + string" where
  "sym_of env s =
     then_sum (field ''symbol'' s) (\<lambda>y.
       if truthy y then Inr (''$'' @ py_str env y)
       else then_sum (get_or ''token'' (JStr []) s) (short_addr env))"

definition alert_buttons :: "json \<Rightarrow> button list" where
  "alert_buttons token =
     [(green_sign @ '' Buy'', ''buy'', token), (lens_sign @ '' Analyze'', ''analyze'', token)]"

definition plural :: "json \<Rightarrow> string" where
  "plural n = (if equals_int n 1 then [] else ''s'')"

definition format_smart_buy :: "outside \<Rightarrow> json \<Rightarrow> exn + string \<times> button list" where
  "format_smart_buy env sig =
     then_sum (sym_of env sig) (\<lambda>y.
     then_sum (get_or ''smart_buyers'' (JInt 0) sig) (\<lambda>n.
     then_sum (get_or ''buys'' (JInt 0) sig) (\<lambda>buys.
     then_sum (field ''is_new_launch'' sig) (\<lambda>launch.
     then_sum (field ''token'' sig) (\<lambda>shown.
     then_sum (get_or ''token'' (JStr []) sig) (\<lambda>token.
       Inr (green_sign @ '' <b>Smart money buying '' @ y @ ''</b>'' @
            (if truthy launch then '' '' @ new_sign @ '' <b>fresh launch</b>'' else []) @ newline @ newline @
            bullet_sign @ '' <b>'' @ py_str env n @ ''</b> smart wallet'' @ plural n @ '' bought in'' @ newline @
            bullet_sign @ '' <b>'' @ py_str env buys @ ''</b> total buys just now'' @ newline @
            ''<code>'' @ py_str env shown @ ''</code>'',
            alert_buttons token)))))))"

definition format_new_launch :: "outside \<Rightarrow> json \<Rightarrow> exn + string \<times> button list" where
  "format_new_launch env launch =
     then_sum (sym_of env launch) (\<lambda>y.
     then_sum (get_or ''smart_buyers'' (JInt 0) launch) (\<lambda>n.
     then_sum (field ''token'' launch) (\<lambda>shown.
     then_sum (get_or ''token'' (JStr []) launch) (\<lambda>token.
       Inr (rocket_sign @ '' <b>New launch: '' @ y @ ''</b>'' @
            (if truthy n then newline @ bullet_sign @ '' already <b>'' @ py_str env n @ ''</b> smart buyer'' @ plural n
             else []) @ newline @
            ''<code>'' @ py_str env shown @ ''</code>'',
            alert_buttons token)))))"

text \<open>\<open>f"{x:,.0f}"\<close>.\<close>

definition whole_text :: "rat \<Rightarrow> string" where
  "whole_text x =
     (if x < 0 then ''-'' else []) @ group3 (show_base 10 (nat \<bar>round_half_even x\<bar>))"

definition whole_of :: "json \<Rightarrow> exn + string" where
  "whole_of j =
     (case j of
        JInt n \<Rightarrow> Inr (whole_text (to_float n))
      | JFloat x \<Rightarrow> Inr (whole_text x)
      | JBool b \<Rightarrow> Inr (whole_text (if b then 1 else 0))
      | JStr s \<Rightarrow> Inl ValueError
      | _ \<Rightarrow> Inl TypeError)"

definition format_wallet_buy ::
  "outside \<Rightarrow> string \<Rightarrow> json \<Rightarrow> bool \<Rightarrow> string option \<Rightarrow> exn + string \<times> button list" where
  "format_wallet_buy env wallet buy wallet_is_smart label =
     then_sum (sym_of env buy) (\<lambda>y.
     then_sum (field ''usd'' buy) (\<lambda>usd.
     then_sum (if truthy usd then then_sum (whole_of usd) (\<lambda>s. Inr ('' (~$'' @ s @ '')'')) else Inr []) (\<lambda>usd.
     then_sum (field ''token'' buy) (\<lambda>shown.
     then_sum (get_or ''token'' (JStr []) buy) (\<lambda>token.
       Inr (eyes_sign @ '' <b>'' @ or_text_opt label (short_text wallet) @ ''</b>'' @
            (if wallet_is_smart then '' '' @ brain_sign @ ''<i>smart</i>'' else []) @
            '' bought <b>'' @ y @ ''</b>'' @ usd @ newline @
            ''<code>'' @ py_str env shown @ ''</code>'',
            alert_buttons token))))))"

section \<open>Polling\<close>

record alert =
  al_token :: json
  al_message :: string
  al_buttons :: "button list"
  al_smart_buyers :: json
  al_is_new_launch :: bool
  al_block :: json

definition discovery_alert :: "outside \<Rightarrow> json \<Rightarrow> exn + alert" where
  "discovery_alert env sig =
     then_sum (format_smart_buy env sig) (\<lambda>(msg, buttons).
     then_sum (field ''token'' sig) (\<lambda>token.
     then_sum (get_or ''smart_buyers'' (JInt 0) sig) (\<lambda>smart.
     then_sum (field ''is_new_launch'' sig) (\<lambda>launch.
     then_sum (get_or ''last_block'' (JInt 0) sig) (\<lambda>block.
       Inr \<lparr>al_token = token, al_message = msg, al_buttons = buttons, al_smart_buyers = smart,
            al_is_new_launch = truthy launch, al_block = block\<rparr>)))))"

definition poll_discovery ::
  "settings \<Rightarrow> outside \<Rightarrow> int \<Rightarrow> int \<Rightarrow> int \<Rightarrow> ('z world_scheme, alert list \<times> int) io" where
  "poll_discovery c env since_block min_smart limit =
     bind (smart_buys c env since_block min_smart limit) (\<lambda>res.
     bind (from_sum (then_sum (get_or ''signals'' (JArr []) res) iterate)) (\<lambda>sigs.
     bind (from_sum (collect (discovery_alert env) sigs)) (\<lambda>alerts.
     bind (from_sum (tip_or res since_block)) (\<lambda>cur. return (alerts, cur)))))"

definition wallet_alert :: "outside \<Rightarrow> string \<Rightarrow> bool \<Rightarrow> string option \<Rightarrow> json \<Rightarrow> exn + alert" where
  "wallet_alert env wallet is_smart label buy =
     then_sum (format_wallet_buy env wallet buy is_smart label) (\<lambda>(msg, buttons).
     then_sum (field ''token'' buy) (\<lambda>token.
     then_sum (get_or ''block'' (JInt 0) buy) (\<lambda>block.
       Inr \<lparr>al_token = token, al_message = msg, al_buttons = buttons, al_smart_buyers = JNull,
            al_is_new_launch = False, al_block = block\<rparr>)))"

definition poll_tracked_wallet ::
  "settings \<Rightarrow> outside \<Rightarrow> string \<Rightarrow> int \<Rightarrow> string option \<Rightarrow> ('z world_scheme, alert list \<times> int) io" where
  "poll_tracked_wallet c env wallet since_block label =
     bind (wallet_recent_buys c env wallet since_block 20) (\<lambda>res.
     bind (from_sum (field ''wallet_is_smart'' res)) (\<lambda>smart.
     bind (from_sum (then_sum (get_or ''buys'' (JArr []) res) iterate)) (\<lambda>buys.
     bind (from_sum (collect (wallet_alert env wallet (truthy smart) label) buys)) (\<lambda>alerts.
     bind (from_sum (tip_or res since_block)) (\<lambda>cur. return (alerts, cur))))))"

section \<open>The tables\<close>

record track_row =
  tk_telegram_id :: int
  tk_address :: string
  tk_label :: "string option"
  tk_cursor_block :: int
  tk_created_at :: usec

record alert_sub =
  as_smart_alerts :: bool
  as_min_smart :: int
  as_new_only :: bool
  as_cursor_block :: int
  as_updated_at :: usec

record alert_state = chat_state +
  tracked_rows :: "(int, track_row) table"
  next_track_id :: int
  alert_subs :: "(int, alert_sub) table"
  alert_sent :: "(int \<times> string \<times> string, usec) table"

definition discovery_subs :: "('z alert_state_scheme, (int \<times> alert_sub) list) io" where
  "discovery_subs = gets (\<lambda>w. rows_where (\<lambda>_ r. as_smart_alerts r) (alert_subs w))"

definition tracked_wallets :: "('z alert_state_scheme, (int \<times> track_row) list) io" where
  "tracked_wallets = gets tracked_rows"

text \<open>A token that is no text is NULL, which no row equals, or of a type the driver refuses.\<close>

definition was_sent_recently ::
  "outside \<Rightarrow> int \<Rightarrow> json \<Rightarrow> string \<Rightarrow> int \<Rightarrow> ('z alert_state_scheme, bool) io" where
  "was_sent_recently env uid token kind cooldown_min =
     (case token of
        JStr t \<Rightarrow> gets (\<lambda>w. case row_of (alert_sent w) (uid, t, kind) of
            None \<Rightarrow> False | Some sent_at \<Rightarrow> sent_at > utc_now env w - minutes cooldown_min)
      | JNull \<Rightarrow> return False
      | _ \<Rightarrow> throw DataError)"

definition mark_sent ::
  "outside \<Rightarrow> int \<Rightarrow> json \<Rightarrow> string \<Rightarrow> ('z alert_state_scheme, unit) io" where
  "mark_sent env uid token kind =
     (case token of
        JStr t \<Rightarrow> modify (\<lambda>w. w\<lparr>alert_sent := put_row (uid, t, kind) (utc_now env w) (alert_sent w)\<rparr>)
      | JNull \<Rightarrow> throw IntegrityViolation
      | _ \<Rightarrow> throw DataError)"

definition set_discovery_cursor :: "outside \<Rightarrow> int \<Rightarrow> int \<Rightarrow> ('z alert_state_scheme, unit) io" where
  "set_discovery_cursor env uid block = modify (\<lambda>w. w\<lparr>alert_subs :=
     update_where (\<lambda>k _. k = uid) (\<lambda>r. r\<lparr>as_cursor_block := block, as_updated_at := utc_now env w\<rparr>)
       (alert_subs w)\<rparr>)"

definition set_wallet_cursor :: "int \<Rightarrow> int \<Rightarrow> ('z alert_state_scheme, unit) io" where
  "set_wallet_cursor sub_id block = modify (\<lambda>w. w\<lparr>tracked_rows :=
     update_where (\<lambda>k _. k = sub_id) (\<lambda>r. r\<lparr>tk_cursor_block := block\<rparr>) (tracked_rows w)\<rparr>)"

definition tracks :: "int \<Rightarrow> string \<Rightarrow> track_row \<Rightarrow> bool" where
  "tracks uid address r \<longleftrightarrow> tk_telegram_id r = uid \<and> tk_address r = lower address"

text \<open>The serial id is taken also when the row is there already.\<close>

definition add_tracked_wallet ::
  "outside \<Rightarrow> int \<Rightarrow> string \<Rightarrow> int \<Rightarrow> string option \<Rightarrow> ('z alert_state_scheme, bool) io" where
  "add_tracked_wallet env uid address seed_block label w =
     (let known = (\<exists>p\<in>set (tracked_rows w). tracks uid address (snd p));
          row = \<lparr>tk_telegram_id = uid, tk_address = lower address, tk_label = label,
            tk_cursor_block = seed_block, tk_created_at = utc_now env w\<rparr>
      in (w\<lparr>tracked_rows := tracked_rows w @ (if known then [] else [(next_track_id w, row)]),
            next_track_id := next_track_id w + 1\<rparr>, Inr (\<not> known)))"

definition remove_tracked_wallet :: "int \<Rightarrow> string \<Rightarrow> ('z alert_state_scheme, bool) io" where
  "remove_tracked_wallet uid address w =
     (w\<lparr>tracked_rows := rows_where (\<lambda>_ r. \<not> tracks uid address r) (tracked_rows w)\<rparr>,
      Inr (length (rows_where (\<lambda>_. tracks uid address) (tracked_rows w)) mod 10 = 1))"

definition list_tracked :: "int \<Rightarrow> ('z alert_state_scheme, track_row list) io" where
  "list_tracked uid = gets (\<lambda>w.
     rev (sort_key tk_created_at (map snd (rows_where (\<lambda>_ r. tk_telegram_id r = uid) (tracked_rows w)))))"

definition get_sub :: "int \<Rightarrow> ('z alert_state_scheme, alert_sub option) io" where
  "get_sub uid = gets (\<lambda>w. row_of (alert_subs w) uid)"

definition set_smart_alerts ::
  "outside \<Rightarrow> int \<Rightarrow> bool \<Rightarrow> int \<Rightarrow> int \<Rightarrow> bool \<Rightarrow> ('z alert_state_scheme, unit) io" where
  "set_smart_alerts env uid on seed_block min_smart new_only = modify (\<lambda>w.
     let cursor = (case row_of (alert_subs w) uid of
           None \<Rightarrow> seed_block
         | Some r \<Rightarrow> if on \<and> \<not> as_smart_alerts r then seed_block else as_cursor_block r)
     in w\<lparr>alert_subs := put_row uid \<lparr>as_smart_alerts = on, as_min_smart = min_smart,
          as_new_only = new_only, as_cursor_block = cursor, as_updated_at = utc_now env w\<rparr> (alert_subs w)\<rparr>)"

section \<open>The worker\<close>

type_synonym 's alert_sender = "int \<Rightarrow> string \<Rightarrow> button list \<Rightarrow> ('s, unit) io"

text \<open>One alert: whether it was sent.\<close>

definition send_alert ::
  "outside \<Rightarrow> 'z alert_state_scheme alert_sender \<Rightarrow> int \<Rightarrow> int \<Rightarrow> string \<Rightarrow> bool \<Rightarrow> alert
    \<Rightarrow> ('z alert_state_scheme, bool) io" where
  "send_alert env send cooldown_min uid kind new_only a =
     (if new_only \<and> \<not> al_is_new_launch a then return False
      else
        bind (was_sent_recently env uid (al_token a) kind cooldown_min) (\<lambda>recent.
        if recent then return False
        else
          bind (send uid (al_message a) (al_buttons a)) (\<lambda>_.
          bind (mark_sent env uid (al_token a) kind) (\<lambda>_. return True))))"

definition is_signals_error :: "exn \<Rightarrow> bool" where
  "is_signals_error e = (case e of SignalsError _ \<Rightarrow> True | _ \<Rightarrow> False)"

definition polled :: "('s, 'a) io \<Rightarrow> ('s, 'a option) io" where
  "polled m =
     try_except (bind m (\<lambda>a. return (Some a))) (\<lambda>e. if is_signals_error e then return None else throw e)"

definition or_tip :: "int \<Rightarrow> int \<Rightarrow> int" where
  "or_tip cursor tip = (if cursor = 0 then tip else cursor)"

definition send_all ::
  "outside \<Rightarrow> 'z alert_state_scheme alert_sender \<Rightarrow> int \<Rightarrow> int \<Rightarrow> string \<Rightarrow> bool \<Rightarrow> alert list
    \<Rightarrow> ('z alert_state_scheme, nat) io" where
  "send_all env send cooldown_min uid kind new_only alerts =
     bind (for_each (send_alert env send cooldown_min uid kind new_only) alerts) (\<lambda>bs.
       return (length (filter (\<lambda>b. b) bs)))"

definition serve_discovery ::
  "settings \<Rightarrow> outside \<Rightarrow> 'z alert_state_scheme alert_sender \<Rightarrow> int \<Rightarrow> int \<Rightarrow> int \<times> alert_sub
    \<Rightarrow> ('z alert_state_scheme, nat) io" where
  "serve_discovery c env send cooldown_min tip sub =
     (case sub of (uid, s) \<Rightarrow>
        bind (polled (poll_discovery c env (or_tip (as_cursor_block s) tip) (as_min_smart s) 30)) (\<lambda>p.
        case p of
          None \<Rightarrow> return 0
        | Some (alerts, new_cur) \<Rightarrow>
            bind (send_all env send cooldown_min uid ''discovery'' (as_new_only s) alerts) (\<lambda>n.
            bind (set_discovery_cursor env uid new_cur) (\<lambda>_. return n))))"

definition serve_wallet ::
  "settings \<Rightarrow> outside \<Rightarrow> 'z alert_state_scheme alert_sender \<Rightarrow> int \<Rightarrow> int \<Rightarrow> int \<times> track_row
    \<Rightarrow> ('z alert_state_scheme, nat) io" where
  "serve_wallet c env send cooldown_min tip row =
     (case row of (sub_id, tw) \<Rightarrow>
        bind (polled (poll_tracked_wallet c env (tk_address tw) (or_tip (tk_cursor_block tw) tip) (tk_label tw)))
          (\<lambda>p.
        case p of
          None \<Rightarrow> return 0
        | Some (alerts, new_cur) \<Rightarrow>
            bind (send_all env send cooldown_min (tk_telegram_id tw) (''wallet:'' @ tk_address tw) False alerts)
              (\<lambda>n.
            bind (set_wallet_cursor sub_id new_cur) (\<lambda>_. return n))))"

definition alerts_run_once ::
  "settings \<Rightarrow> outside \<Rightarrow> 'z alert_state_scheme alert_sender \<Rightarrow> int \<Rightarrow> ('z alert_state_scheme, nat) io" where
  "alerts_run_once c env send cooldown_min =
     bind (signals_tip c env) (\<lambda>tip.
     bind discovery_subs (\<lambda>subs.
     bind (for_each (serve_discovery c env send cooldown_min tip) subs) (\<lambda>ns.
     bind tracked_wallets (\<lambda>rows.
     bind (for_each (serve_wallet c env send cooldown_min tip) rows) (\<lambda>ms.
       return (sum_list ns + sum_list ms))))))"

text \<open>The first rounds of the loop that never ends.\<close>

primrec alerts_rounds ::
  "nat \<Rightarrow> settings \<Rightarrow> outside \<Rightarrow> 'z alert_state_scheme alert_sender \<Rightarrow> ('z alert_state_scheme, unit) io" where
  "alerts_rounds 0 c env send = return ()"
| "alerts_rounds (Suc n) c env send =
     bind (catch_all (alerts_run_once c env send (ALERT_COOLDOWN_MINUTES c)) (\<lambda>_. return 0)) (\<lambda>_.
     bind (sleep (seconds (ALERT_POLL_SECONDS c))) (\<lambda>_. alerts_rounds n c env send))"

text \<open>The bot's sender: a message that cannot be delivered is only logged.\<close>

definition alert_sender :: "outside \<Rightarrow> 'z chat_state_scheme alert_sender" where
  "alert_sender env uid msg buttons = bind (send_message env uid msg) (\<lambda>_. return ())"

section \<open>The cooldown\<close>

text \<open>The marks only appear and, once there, only move on by at least the cooldown.\<close>

definition spaced :: "int \<Rightarrow> 'z alert_state_scheme \<Rightarrow> 'z alert_state_scheme \<Rightarrow> bool" where
  "spaced d w w' \<longleftrightarrow> looks w \<le> looks w' \<and> slept w \<le> slept w' \<and>
     (\<forall>k t. row_of (alert_sent w) k = Some t \<longrightarrow>
       (\<exists>t'. row_of (alert_sent w') k = Some t' \<and> (t' = t \<or> t + minutes (max 0 d) \<le> t')))"

definition same_sent :: "'z alert_state_scheme \<Rightarrow> 'z alert_state_scheme \<Rightarrow> bool" where
  "same_sent w w' \<longleftrightarrow> alert_sent w' = alert_sent w \<and> looks w \<le> looks w' \<and> slept w \<le> slept w'"

abbreviation in_time :: "int \<Rightarrow> ('z alert_state_scheme, 'a) io \<Rightarrow> bool" where
  "in_time d m \<equiv> obeys (\<lambda>_. True) (spaced d) m"

interpretation spacing: io_relation "\<lambda>_. True" "spaced d"
proof
  show "spaced d w w" for w by (simp add: spaced_def)
  have d: "0 \<le> minutes (max 0 d)" by (simp add: time_defs)
  show "spaced d w1 w3" if "spaced d w1 w2" "spaced d w2 w3" for w1 w2 w3
    using that d unfolding spaced_def by (smt (verit) order_trans)
qed

lemma same_sent_spaced: "same_sent w w' \<Longrightarrow> spaced d w w'"
  by (simp add: same_sent_def spaced_def)

lemma in_time_same: "obeys (\<lambda>_. True) same_sent m \<Longrightarrow> in_time d m"
  by (simp add: obeys_def same_sent_spaced)

lemma in_time_framed:
  fixes m :: "('z alert_state_scheme, 'a) io"
  assumes "framed m"
  shows "in_time d m"
proof -
  have "alert_sent w' = alert_sent w" if "same_more w w'" for w w' :: "'z alert_state_scheme"
    using that by (cases w; cases w') (simp add: same_more_def)
  then show ?thesis using assms by (intro in_time_same) (auto simp: obeys_def same_sent_def same_more_def)
qed

lemma in_time_cursors: "in_time d (set_discovery_cursor env uid b)" "in_time d (set_wallet_cursor i b)"
  by (simp_all add: obeys_def spaced_def set_discovery_cursor_def set_wallet_cursor_def modify_def)

lemma framed_signals: "framed (signals_get c env path params)"
proof -
  have "framed (signals_attempts c env path params e n)" for e n
    by (induction n arbitrary: e) (auto intro!: framed_rules)
  then show ?thesis unfolding signals_get_def by blast
qed

locale alert_seam =
  fixes send :: "'z alert_state_scheme alert_sender"
  assumes send_aside: "obeys (\<lambda>_. True) same_sent (send uid msg buttons)"
begin

lemma send_alert_in_time:
  assumes clock: "utc_monotone env" and d: "0 \<le> d"
  shows "in_time d (send_alert env send d uid kind new_only a)"
proof (cases "new_only \<and> \<not> al_is_new_launch a")
  case True
  then show ?thesis by (simp add: send_alert_def spacing.obeys_pure)
next
  case False
  show ?thesis
  proof (cases "\<exists>s. al_token a = JStr s")
    case no_text: False
    have "in_time d (was_sent_recently env uid (al_token a) kind d)"
      "in_time d (mark_sent env uid (al_token a) kind)"
      using no_text by (auto simp: was_sent_recently_def mark_sent_def split: json.split intro: spacing.obeys_pure)
    then show ?thesis using False unfolding send_alert_def
      by (auto intro!: spacing.obeys_rules in_time_same [OF send_aside])
  next
    case True
    then obtain s where s: "al_token a = JStr s" by blast
    have "spaced d w (fst (send_alert env send d uid kind new_only a w))" for w
    proof -
      obtain w1 r1 where 1: "send uid (al_message a) (al_buttons a) w = (w1, r1)" by fastforce
      have same: "same_sent w w1" using obeysD [OF send_aside _ 1] by simp
      then have later: "utc_now env w \<le> utc_now env w1" using clock by (simp add: same_sent_def utc_forward)
      show ?thesis
        using False s 1 same later d
        by (auto simp: send_alert_def was_sent_recently_def mark_sent_def io_simps bind_def same_sent_spaced
            spacing.R_refl spaced_def same_sent_def split: sum.split option.splits)
    qed
    then show ?thesis by (simp add: obeys_def)
  qed
qed

lemma run_once_in_time:
  assumes clock: "utc_monotone env" and d: "0 \<le> d"
  shows "in_time d (alerts_run_once c env send d)"
proof -
  note rules = spacing.obeys_rules in_time_framed [OF framed_signals] in_time_cursors
    send_alert_in_time [OF clock d]
  have all: "in_time d (send_all env send d uid kind new_only alerts)" for uid kind new_only alerts
    unfolding send_all_def by (intro rules)
  have "in_time d (serve_discovery c env send d tip x)" for tip x
    unfolding serve_discovery_def polled_def poll_discovery_def smart_buys_def by (intro rules all)
  moreover have "in_time d (serve_wallet c env send d tip x)" for tip x
    unfolding serve_wallet_def polled_def poll_tracked_wallet_def wallet_recent_buys_def by (intro rules all)
  ultimately show ?thesis
    unfolding alerts_run_once_def signals_tip_def discovery_subs_def tracked_wallets_def by (intro rules)
qed

lemma rounds_in_time:
  assumes clock: "utc_monotone env" and d: "0 \<le> ALERT_COOLDOWN_MINUTES c"
  shows "in_time (ALERT_COOLDOWN_MINUTES c) (alerts_rounds n c env send)"
  by (induction n) (auto simp: catch_all_def
      intro!: spacing.obeys_rules run_once_in_time [OF clock d] in_time_framed [OF framed_looks(3)])

end

interpretation bot_alerts: alert_seam "alert_sender env"
proof
  show "obeys (\<lambda>_. True) same_sent (alert_sender env uid msg buttons)" for uid msg buttons
    by (simp add: obeys_def alert_sender_def send_message_def same_sent_def io_simps bind_def Let_def)
qed


definition alert_start :: alert_state where
  "alert_start = \<lparr>looks = 0, slept = 0, on_fallback = False, primary_stale = False, lag_checked_at = 0,
     tg_wallets = [], next_wallet_id = 1, jwt_cache = [], delivered = [], tracked_rows = [],
     next_track_id = 1, alert_subs = [], alert_sent = [((7, ''0xb'', ''discovery''), 5)]\<rparr>"


end
