(* ===== verification/Py_Pieces.thy ===== *)
theory Py_Pieces
  imports PyText
begin

text \<open>
  Cutting and joining: Python's slices with signed bounds, \<open>sep.join\<close>, \<open>str.split()\<close> into words,
  finding a substring, and \<open>re.split(r"\n\n+", s)\<close> into paragraphs, with the laws the chunkers
  share. Texts are ASCII.
\<close>

named_theorems piece_simps

abbreviation LF :: char where "LF \<equiv> CHR 0x0A"

section \<open>Slices\<close>

text \<open>\<open>xs[i:]\<close> and \<open>xs[:j]\<close>; a negative bound counts from the end.\<close>

definition slice_from :: "int \<Rightarrow> 'a list \<Rightarrow> 'a list" where
  "slice_from i xs = (if 0 \<le> i then drop (nat i) xs else drop (nat (int (length xs) + i)) xs)"

definition slice_to :: "int \<Rightarrow> 'a list \<Rightarrow> 'a list" where
  "slice_to j xs = (if 0 \<le> j then take (nat j) xs else take (nat (int (length xs) + j)) xs)"

lemma length_slice_to: "0 \<le> j \<Longrightarrow> int (length (slice_to j xs)) \<le> j"
  by (simp add: slice_to_def)

lemma slice_to_all: "int (length xs) \<le> j \<Longrightarrow> slice_to j xs = xs"
  by (simp add: slice_to_def)

section \<open>Joining\<close>

fun join_with :: "string \<Rightarrow> string list \<Rightarrow> string" where
  "join_with sep [] = []"
| "join_with sep [s] = s"
| "join_with sep (s # t # ts) = s @ sep @ join_with sep (t # ts)"

section \<open>Stripping\<close>

lemma strip_split: "\<exists>a b. s = a @ strip s @ b \<and> (\<forall>c\<in>set (a @ b). is_space c)"
proof -
  let ?l = "dropWhile is_space s"
  have "s = takeWhile is_space s @ strip s @ rev (takeWhile is_space (rev ?l))"
    by (metis rev_append rev_rev_ident strip_def rstrip_where_def lstrip_where_def takeWhile_dropWhile_id)
  moreover have "\<forall>c\<in>set (takeWhile is_space s @ rev (takeWhile is_space (rev ?l))). is_space c"
    by (auto dest: set_takeWhileD)
  ultimately show ?thesis by blast
qed

lemma length_strip: "length (strip s) \<le> length s"
proof -
  obtain a b where "s = a @ strip s @ b" using strip_split by blast
  then have "length s = length a + length (strip s) + length b" by (metis length_append add.assoc)
  then show ?thesis by simp
qed

lemma strip_all_space: "(\<And>c. c \<in> set s \<Longrightarrow> is_space c) \<Longrightarrow> strip s = []"
proof -
  assume "\<And>c. c \<in> set s \<Longrightarrow> is_space c"
  then have "dropWhile is_space s = []" using dropWhile_eq_Nil_conv [of is_space s] by blast
  then show ?thesis by (simp only: strip_def rstrip_where_def lstrip_where_def rev.simps dropWhile.simps)
qed

lemma lstrip_ends: "s = [] \<or> \<not> is_space (hd s) \<Longrightarrow> dropWhile is_space s = s"
  by (cases s) auto

lemma strip_fixed: "s = [] \<or> \<not> is_space (hd s) \<and> \<not> is_space (last s) \<Longrightarrow> strip s = s"
  using lstrip_ends [of s] lstrip_ends [of "rev s"]
  by (auto simp: strip_def rstrip_where_def lstrip_where_def hd_rev)

section \<open>Words\<close>

text \<open>\<open>s.split()\<close>: the maximal runs of characters that are not whitespace.\<close>

fun words :: "string \<Rightarrow> string list" where
  "words [] = []"
| "words (c # cs) =
     (if is_space c then words cs
      else if cs = [] \<or> is_space (hd cs) then [c] # words cs
      else case words cs of [] \<Rightarrow> [[c]] | w # ws \<Rightarrow> (c # w) # ws)"

lemma words_spaces [piece_simps]: "(\<And>c. c \<in> set s \<Longrightarrow> is_space c) \<Longrightarrow> words (s @ t) = words t"
  by (induction s) auto

lemma words_some: "s \<noteq> [] \<Longrightarrow> \<not> is_space (hd s) \<Longrightarrow> words s \<noteq> []"
  by (cases s) (auto split: list.split)

lemma words_apart: "is_space c \<Longrightarrow> words (s @ c # t) = words s @ words t"
proof (induction s)
  case (Cons a s)
  show ?case
  proof (cases "is_space a \<or> s = [] \<or> is_space (hd s)")
    case True
    then show ?thesis using Cons by (auto simp: hd_append)
  next
    case False
    then obtain w ws where "words s = w # ws" using words_some [of s] by (cases "words s") auto
    then show ?thesis using False Cons by (simp add: hd_append)
  qed
qed simp

lemma words_after: "(\<And>c. c \<in> set t \<Longrightarrow> is_space c) \<Longrightarrow> words (s @ t) = words s"
proof (cases t)
  case (Cons c t')
  assume "\<And>c. c \<in> set t \<Longrightarrow> is_space c"
  with Cons words_apart [of c s t'] words_spaces [of t' "[]"] show ?thesis by simp
qed simp

lemma words_strip [simp, piece_simps]: "words (strip s) = words s"
proof -
  obtain a b where ab: "s = a @ strip s @ b" and sp: "\<forall>c\<in>set (a @ b). is_space c"
    using strip_split by blast
  have "words (a @ strip s @ b) = words (strip s)"
    using sp words_spaces [of a "strip s @ b"] words_after [of b "strip s"] by auto
  then show ?thesis using ab by simp
qed

lemma words_space_head: "t = [] \<or> is_space (hd t) \<Longrightarrow> words (s @ t) = words s @ words t"
  by (cases t) (auto simp: words_apart)

lemma words_space_last: "s = [] \<or> is_space (last s) \<Longrightarrow> words (s @ t) = words s @ words t"
proof (cases "s = []")
  case False
  assume "s = [] \<or> is_space (last s)"
  then have "s @ t = butlast s @ last s # t" and sp: "is_space (last s)" using False by simp_all
  then have "words (s @ t) = words (butlast s) @ words t" by (simp only: words_apart)
  also have "words (butlast s) = words s"
    using words_after [of "[last s]" "butlast s"] sp False by simp
  finally show ?thesis .
qed simp

lemma words_empty_iff: "words s = [] \<longleftrightarrow> (\<forall>c\<in>set s. is_space c)"
  by (induction s) (auto split: list.split)

lemma strip_empty_iff: "strip s = [] \<longleftrightarrow> words s = []"
proof
  assume "strip s = []"
  then have "words (strip s) = []" by simp
  then show "words s = []" by simp
next
  assume "words s = []"
  then show "strip s = []" by (intro strip_all_space) (simp add: words_empty_iff)
qed

lemma words_words: "\<forall>w\<in>set (words s). w \<noteq> [] \<and> (\<forall>c\<in>set w. \<not> is_space c)"
  by (induction s) (auto split: list.split)

lemma words_of_word: "w \<noteq> [] \<Longrightarrow> (\<And>c. c \<in> set w \<Longrightarrow> \<not> is_space c) \<Longrightarrow> words w = [w]"
proof (induction w)
  case (Cons c w)
  then show ?case by (cases w) auto
qed simp

lemma words_join:
  "(\<And>w. w \<in> set ws \<Longrightarrow> w \<noteq> [] \<and> (\<forall>c\<in>set w. \<not> is_space c)) \<Longrightarrow> words (join_with '' '' ws) = ws"
proof (induction ws)
  case (Cons s ws)
  have sp: "is_space CHR '' ''" by (simp add: is_space_def)
  show ?case
  proof (cases ws)
    case Nil
    then show ?thesis using Cons.prems by (simp add: words_of_word)
  next
    case (Cons t ts)
    then have "words (join_with '' '' (s # ws)) = words s @ words (join_with '' '' ws)"
      using words_apart [OF sp, of s] by simp
    moreover have "words (join_with '' '' ws) = ws" by (rule Cons.IH) (use Cons.prems in auto)
    moreover have "words s = [s]" using Cons.prems [of s] by (intro words_of_word) auto
    ultimately show ?thesis by simp
  qed
qed simp

section \<open>Paragraphs\<close>

text \<open>The text before the first run of two or more line feeds, and what follows the run.\<close>

fun cut_blank :: "string \<Rightarrow> string \<times> string option" where
  "cut_blank [] = ([], None)"
| "cut_blank (c # cs) =
     (if c = LF \<and> cs \<noteq> [] \<and> hd cs = LF then ([], Some (dropWhile (\<lambda>x. x = LF) cs))
      else case cut_blank cs of (p, r) \<Rightarrow> (c # p, r))"

lemma cut_blank_shorter: "cut_blank s = (p, Some r) \<Longrightarrow> length r < length s"
  by (induction s arbitrary: p r) (auto split: if_splits prod.splits simp: le_imp_less_Suc length_dropWhile_le less_SucI)

function blank_split :: "string \<Rightarrow> string list" where
  "blank_split s = (case cut_blank s of (p, None) \<Rightarrow> [p] | (p, Some r) \<Rightarrow> p # blank_split r)"
  by auto
termination by (relation "measure length") (auto dest: cut_blank_shorter [OF sym])

declare blank_split.simps [simp del]

definition paragraphs_of :: "string \<Rightarrow> string list" where
  "paragraphs_of s = filter (\<lambda>p. p \<noteq> []) (map strip (blank_split s))"

lemma LF_space [simp]: "is_space LF" by (simp add: is_space_def)

lemma cut_blank_words:
  "cut_blank s = (p, r) \<Longrightarrow> words s = words p @ (case r of None \<Rightarrow> [] | Some t \<Rightarrow> words t)"
proof -
  assume c: "cut_blank s = (p, r)"
  have "\<exists>ls. s = p @ ls @ (case r of None \<Rightarrow> [] | Some t \<Rightarrow> t) \<and> (\<forall>x\<in>set ls. x = LF) \<and> (r \<noteq> None \<longrightarrow> ls \<noteq> [])"
    using c
  proof (induction s arbitrary: p r)
    case (Cons c cs)
    show ?case
    proof (cases "c = LF \<and> cs \<noteq> [] \<and> hd cs = LF")
      case True
      have "c # cs = (c # takeWhile (\<lambda>x. x = LF) cs) @ dropWhile (\<lambda>x. x = LF) cs" by simp
      moreover have "p = []" "r = Some (dropWhile (\<lambda>x. x = LF) cs)" using True Cons.prems by simp_all
      moreover have "\<forall>x\<in>set (c # takeWhile (\<lambda>x. x = LF) cs). x = LF" using True by (auto dest: set_takeWhileD)
      ultimately show ?thesis by (intro exI [of _ "c # takeWhile (\<lambda>x. x = LF) cs"]) simp
    next
      case False
      obtain q where q: "cut_blank cs = (q, r)" "p = c # q" using Cons.prems False
        by (auto simp del: hd_Cons_tl split: prod.splits if_splits)
      from Cons.IH [OF q(1)] show ?thesis using q(2) by auto
    qed
  qed simp
  then obtain ls where s: "s = p @ ls @ (case r of None \<Rightarrow> [] | Some t \<Rightarrow> t)"
      and ls: "\<forall>x\<in>set ls. x = LF" "r \<noteq> None \<longrightarrow> ls \<noteq> []" by blast
  have sp: "\<And>c. c \<in> set ls \<Longrightarrow> is_space c" using ls(1) LF_space by metis
  show ?thesis
  proof (cases r)
    case None
    have "words (p @ ls) = words p" by (rule words_after) (rule sp)
    then show ?thesis using s None by simp
  next
    case (Some t)
    then have "is_space (hd (ls @ t))" using ls(2) sp [of "hd ls"] by simp
    then have "words (p @ ls @ t) = words p @ words (ls @ t)" by (intro words_space_head) simp
    moreover have "words (ls @ t) = words t" by (rule words_spaces) (rule sp)
    ultimately show ?thesis using s Some by simp
  qed
qed

lemma words_paragraphs: "concat (map words (paragraphs_of s)) = words s"
proof -
  have "concat (map words (filter (\<lambda>p. p \<noteq> []) (map strip ps))) = concat (map words ps)" for ps
    by (induction ps) (auto simp: strip_empty_iff)
  moreover have "concat (map words (blank_split s)) = words s"
  proof (induction s rule: blank_split.induct)
    case (1 s)
    then show ?case
      using cut_blank_words [of s] by (subst blank_split.simps) (auto split: prod.split option.split)
  qed
  ultimately show ?thesis by (simp add: paragraphs_of_def)
qed

lemma paragraph_of: "p \<in> set (paragraphs_of s) \<Longrightarrow> p \<noteq> [] \<and> strip p = p"
proof -
  assume "p \<in> set (paragraphs_of s)"
  then obtain q where q: "p = strip q" "p \<noteq> []" by (auto simp: paragraphs_of_def)
  let ?l = "dropWhile is_space q" and ?r = "dropWhile is_space (rev (dropWhile is_space q))"
  have p: "p = rev ?r" using q by (simp add: strip_def rstrip_where_def lstrip_where_def)
  then have r: "?r \<noteq> []" using q(2) by (metis rev.simps(1))
  moreover have "?l = [] \<Longrightarrow> ?r = []" by (metis dropWhile.simps(1) rev.simps(1))
  ultimately have ne: "?r \<noteq> []" "?l \<noteq> []" by metis+
  have "rev ?l = takeWhile is_space (rev ?l) @ ?r" by simp
  then have "?l = p @ rev (takeWhile is_space (rev ?l))" using p by (metis rev_append rev_rev_ident)
  then have "hd p = hd ?l" using q(2) by (metis hd_append2)
  moreover have "last p = hd ?r" using p ne by (simp add: last_rev)
  ultimately show ?thesis using hd_dropWhile [OF ne(1)] hd_dropWhile [OF ne(2)] strip_fixed [of p] q(2) by simp
qed

text \<open>A text without a blank line is one paragraph.\<close>

lemma cut_blank_none: "(\<And>a b. s \<noteq> a @ LF # LF # b) \<Longrightarrow> cut_blank s = (s, None)"
proof (induction s)
  case (Cons c cs)
  have "cut_blank cs = (cs, None)" by (rule Cons.IH) (metis Cons.prems append_Cons)
  moreover have "\<not> (c = LF \<and> cs \<noteq> [] \<and> hd cs = LF)"
    by (metis Cons.prems append_Nil list.collapse)
  ultimately show ?case by simp
qed simp

lemma one_paragraph:
  "(\<And>a b. s \<noteq> a @ LF # LF # b) \<Longrightarrow> strip s = s \<Longrightarrow> s \<noteq> [] \<Longrightarrow> paragraphs_of s = [s]"
  by (simp add: paragraphs_of_def blank_split.simps [of s] cut_blank_none)

section \<open>Finding\<close>

text \<open>The text before the first occurrence of \<open>p\<close>, and from there on.\<close>

fun cut_at :: "string \<Rightarrow> string \<Rightarrow> (string \<times> string) option" where
  "cut_at p [] = (if p = [] then Some ([], []) else None)"
| "cut_at p (c # cs) =
     (if startswith (c # cs) p then Some ([], c # cs) else map_option (\<lambda>(a, b). (c # a, b)) (cut_at p cs))"

lemma cut_at_split: "cut_at p s = Some (a, b) \<Longrightarrow> s = a @ b \<and> startswith b p"
  by (induction s arbitrary: a) (auto simp: startswith_def split: if_splits)

end
