(* ===== verification/Chat_Cache.thy ===== *)
theory Chat_Cache
  imports Readings Portfolio Calendar Py_Pieces
begin

text \<open>
  The cache of the chat service, \<open>chat-service-py/app/services/cache.py\<close>, on Redis. A stored value
  lives until its expiry; a command reaches Redis or fails, as the outside answers the call. The
  JSON text of a value stands for the value. \<open>app.config\<close> and the INFO command are left out.
\<close>

section \<open>Redis\<close>

record redis_entry =
  re_value :: json
  re_expires :: usec

record cache_state = world +
  redis_store :: "(string, redis_entry) table"
  cache_connected :: bool

text \<open>One command: whether it was carried out.\<close>

definition redis_reached :: "outside \<Rightarrow> string \<Rightarrow> string \<Rightarrow> ('z world_scheme, bool) io" where
  "redis_reached env cmd key =
     bind (http_call env cmd key JNull) (\<lambda>o1.
       return (case o1 of Transport_Error _ _ \<Rightarrow> False | Reply _ _ \<Rightarrow> True))"

definition alive :: "usec \<Rightarrow> redis_entry \<Rightarrow> bool" where
  "alive now e \<longleftrightarrow> now < re_expires e"

definition redis_value :: "(string, redis_entry) table \<Rightarrow> string \<Rightarrow> usec \<Rightarrow> json option" where
  "redis_value t key now =
     (case row_of t key of None \<Rightarrow> None | Some e \<Rightarrow> if alive now e then Some (re_value e) else None)"

text \<open>The glob of SCAN, with \<open>*\<close> and \<open>?\<close>.\<close>

fun glob_match :: "string \<Rightarrow> string \<Rightarrow> bool" where
  "glob_match [] s \<longleftrightarrow> s = []"
| "glob_match (p # ps) [] \<longleftrightarrow> p = CHR ''*'' \<and> glob_match ps []"
| "glob_match (p # ps) (x # xs) \<longleftrightarrow>
     (if p = CHR ''*'' then glob_match ps (x # xs) \<or> glob_match (p # ps) xs
      else (p = CHR ''?'' \<or> p = x) \<and> glob_match ps xs)"

section \<open>Keys and configurations\<close>

definition CACHE_PREFIX :: string where "CACHE_PREFIX = ''oprai:chat''"

record cache_config =
  ttl_seconds :: int
  cache_prefix :: string

definition cfg :: "int \<Rightarrow> string \<Rightarrow> cache_config" where
  "cfg ttl prefix = \<lparr>ttl_seconds = ttl, cache_prefix = prefix\<rparr>"

definition CACHE_CONFIGS :: "(string \<times> cache_config) list" where
  "CACHE_CONFIGS =
     [(''yields:liquid_staking'', cfg 300 ''yields''), (''yields:lending'', cfg 300 ''yields''),
      (''yields:all'', cfg 300 ''yields''), (''price'', cfg 15 ''price''),
      (''prices:batch'', cfg 15 ''prices''), (''price:ohlcv:1m'', cfg 30 ''ohlcv''),
      (''price:ohlcv:15m'', cfg 300 ''ohlcv''), (''price:ohlcv:1h'', cfg 900 ''ohlcv''),
      (''price:ohlcv:1d'', cfg 3600 ''ohlcv''), (''portfolio'', cfg 30 ''portfolio''),
      (''portfolio:positions'', cfg 60 ''portfolio''), (''portfolio:history'', cfg 300 ''portfolio''),
      (''protocol:stats'', cfg 120 ''protocol''), (''protocol:compare'', cfg 120 ''protocol''),
      (''protocol:pools'', cfg 120 ''protocol''), (''token:security'', cfg 86400 ''token''),
      (''token:holders'', cfg 600 ''token''), (''token:meta'', cfg 86400 ''token''),
      (''nft:collection'', cfg 600 ''nft''), (''nft:listings'', cfg 120 ''nft''),
      (''risk:position'', cfg 120 ''risk''), (''risk:portfolio'', cfg 300 ''risk''),
      (''session:card_state'', cfg 86400 ''card''), (''session:llm_daily'', cfg 90000 ''llmcost''),
      (''wallet_balances'', cfg 30 ''walbal''), (''default'', cfg 60 ''default'')]"

definition get_config :: "string \<Rightarrow> cache_config" where
  "get_config cache_type =
     (case map_of CACHE_CONFIGS cache_type of Some x \<Rightarrow> x | None \<Rightarrow> cfg 60 ''default'')"

definition make_key :: "string \<Rightarrow> string list \<Rightarrow> string" where
  "make_key prefix parts = join_with '':'' (CACHE_PREFIX # prefix # parts)"

definition cache_key :: "string \<Rightarrow> string list \<Rightarrow> string" where
  "cache_key cache_type parts = make_key (cache_prefix (get_config cache_type)) parts"

section \<open>Operations\<close>

definition cache_connect :: "outside \<Rightarrow> ('z cache_state_scheme, unit) io" where
  "cache_connect env =
     bind (gets cache_connected) (\<lambda>c.
       if c then return ()
       else bind (redis_reached env ''PING'' []) (\<lambda>ok. modify (\<lambda>w. w\<lparr>cache_connected := ok\<rparr>)))"

definition cache_disconnect :: "('z cache_state_scheme, unit) io" where
  "cache_disconnect = modify (\<lambda>w. w\<lparr>cache_connected := False\<rparr>)"

text \<open>The steps between a connected client and its answer; a failure answers \<open>dflt\<close>.\<close>

definition with_redis ::
  "outside \<Rightarrow> string \<Rightarrow> string \<Rightarrow> 'a \<Rightarrow> ('z cache_state_scheme, 'a) io \<Rightarrow> ('z cache_state_scheme, 'a) io" where
  "with_redis env cmd key dflt m =
     bind (gets cache_connected) (\<lambda>c.
       if \<not> c then return dflt
       else bind (redis_reached env cmd key) (\<lambda>ok. if ok then m else return dflt))"

definition is_envelope :: "json \<Rightarrow> bool" where
  "is_envelope j \<longleftrightarrow> has_key ''_v'' j \<and> has_key ''_data'' j"

definition entry_of :: "string \<Rightarrow> json \<Rightarrow> json" where
  "entry_of k j = (case j of JObj kvs \<Rightarrow> (case map_of kvs k of None \<Rightarrow> JNull | Some v \<Rightarrow> v) | _ \<Rightarrow> JNull)"

definition unwrap :: "json \<Rightarrow> json" where
  "unwrap j = (if is_envelope j then entry_of ''_data'' j else j)"

definition cache_get :: "outside \<Rightarrow> string \<Rightarrow> string list \<Rightarrow> ('z cache_state_scheme, json) io" where
  "cache_get env cache_type parts =
     (let key = cache_key cache_type parts in
      with_redis env ''GET'' key JNull
        (gets (\<lambda>w. case redis_value (redis_store w) key (utc_now env w) of
            None \<Rightarrow> JNull | Some v \<Rightarrow> unwrap v)))"

text \<open>\<open>time.time()\<close>.\<close>

definition time_time :: "outside \<Rightarrow> 'z world_scheme \<Rightarrow> rat" where
  "time_time env w = b64 (of_int (utc_now env w) / 10 ^ 6)"

definition entry_age :: "rat \<Rightarrow> json \<Rightarrow> exn + json \<times> int option" where
  "entry_age now j =
     (if is_envelope j then
        then_sum (float_of (j_or (entry_of ''_fetched_at'' j) (JInt 0))) (\<lambda>at0.
          Inr (entry_of ''_data'' j, if at0 \<noteq> 0 then Some (py_int (fsub now at0)) else None))
      else Inr (j, None))"

definition get_with_age ::
  "outside \<Rightarrow> string \<Rightarrow> string list \<Rightarrow> ('z cache_state_scheme, json \<times> int option) io" where
  "get_with_age env cache_type parts =
     (let key = cache_key cache_type parts in
      with_redis env ''GET'' key (JNull, None)
        (gets (\<lambda>w. case redis_value (redis_store w) key (utc_now env w) of
            None \<Rightarrow> (JNull, None)
          | Some v \<Rightarrow> (case entry_age (time_time env w) v of Inl e \<Rightarrow> (JNull, None) | Inr x \<Rightarrow> x))))"

definition cache_ttl :: "string \<Rightarrow> int option \<Rightarrow> int" where
  "cache_ttl cache_type ttl =
     (case ttl of None \<Rightarrow> ttl_seconds (get_config cache_type)
      | Some n \<Rightarrow> if n = 0 then ttl_seconds (get_config cache_type) else n)"

text \<open>The envelope is stamped before the command is sent; Redis refuses a ttl that is not positive.\<close>

definition cache_set ::
  "outside \<Rightarrow> string \<Rightarrow> json \<Rightarrow> string list \<Rightarrow> int option \<Rightarrow> ('z cache_state_scheme, bool) io" where
  "cache_set env cache_type value parts ttl =
     (let key = cache_key cache_type parts; n = cache_ttl cache_type ttl in
      bind (gets (time_time env)) (\<lambda>stamp.
        with_redis env ''SETEX'' key False
          (if n \<le> 0 then return False
           else bind (modify (\<lambda>w. w\<lparr>redis_store := put_row key
                  \<lparr>re_value = JObj [(''_v'', JInt 1), (''_fetched_at'', JFloat stamp), (''_ttl'', JInt n),
                     (''_data'', value)],
                   re_expires = utc_now env w + seconds n\<rparr> (redis_store w)\<rparr>))
                (\<lambda>_. return True))))"

definition cache_delete :: "outside \<Rightarrow> string \<Rightarrow> string list \<Rightarrow> ('z cache_state_scheme, bool) io" where
  "cache_delete env cache_type parts =
     (let key = cache_key cache_type parts in
      with_redis env ''DEL'' key False
        (bind (modify (\<lambda>w. w\<lparr>redis_store := drop_row key (redis_store w)\<rparr>)) (\<lambda>_. return True)))"

definition live_keys :: "string \<Rightarrow> usec \<Rightarrow> (string, redis_entry) table \<Rightarrow> string list" where
  "live_keys pat now t = map fst (filter (\<lambda>(k, e). glob_match pat k \<and> alive now e) t)"

definition delete_pattern :: "outside \<Rightarrow> string \<Rightarrow> ('z cache_state_scheme, nat) io" where
  "delete_pattern env pat =
     (let full = make_key pat [] in
      with_redis env ''SCAN'' full 0
        (bind (gets (\<lambda>w. live_keys full (utc_now env w) (redis_store w))) (\<lambda>keys.
           if keys = [] then return 0
           else with_redis env ''DEL'' full 0
             (bind (modify (\<lambda>w. w\<lparr>redis_store := filter (\<lambda>(k, _). k \<notin> set keys) (redis_store w)\<rparr>))
               (\<lambda>_. return (length keys))))))"

definition invalidate_yields :: "outside \<Rightarrow> ('z cache_state_scheme, nat) io" where
  "invalidate_yields env = delete_pattern env ''yields:*''"

definition invalidate_prices :: "outside \<Rightarrow> ('z cache_state_scheme, nat) io" where
  "invalidate_prices env = delete_pattern env ''price:*''"

definition invalidate_portfolio :: "outside \<Rightarrow> string \<Rightarrow> ('z cache_state_scheme, nat) io" where
  "invalidate_portfolio env wallet = delete_pattern env (''portfolio:'' @ take 8 wallet @ ''*'')"

definition invalidate_token :: "outside \<Rightarrow> string \<Rightarrow> ('z cache_state_scheme, nat) io" where
  "invalidate_token env address = delete_pattern env (''token:'' @ take 8 address @ ''*'')"

definition get_or_set ::
  "outside \<Rightarrow> string \<Rightarrow> string list \<Rightarrow> ('z cache_state_scheme, json) io option \<Rightarrow> int option
    \<Rightarrow> ('z cache_state_scheme, json \<times> bool) io" where
  "get_or_set env cache_type parts factory ttl =
     bind (cache_get env cache_type parts) (\<lambda>cached.
       if cached \<noteq> JNull then return (cached, True)
       else
         case factory of
           None \<Rightarrow> return (JNull, False)
         | Some f \<Rightarrow>
             catch_all
               (bind f (\<lambda>value.
                  if value \<noteq> JNull
                  then bind (cache_set env cache_type value parts ttl) (\<lambda>_. return (value, False))
                  else return (JNull, False)))
               (\<lambda>_. return (JNull, False)))"

definition cache_stats :: "outside \<Rightarrow> ('z cache_state_scheme, (string \<times> nat) list option) io" where
  "cache_stats env =
     bind (gets cache_connected) (\<lambda>c.
       if \<not> c then return None
       else catch_all
         (bind (for_each (\<lambda>prefix.
            bind (redis_reached env ''SCAN'' prefix) (\<lambda>ok.
              if ok then gets (\<lambda>w. (prefix,
                length (live_keys (make_key (prefix @ '':*'') []) (utc_now env w) (redis_store w))))
              else throw (HttpError []))) [''yields'', ''price'', ''portfolio'', ''protocol'', ''token'', ''risk''])
           (\<lambda>stats. return (Some stats)))
         (\<lambda>_. return None))"

section \<open>What was stored is read back\<close>

text \<open>Redis answers every call.\<close>

definition redis_up :: "outside \<Rightarrow> bool" where
  "redis_up env \<longleftrightarrow> (\<forall>n cmd key. \<exists>st body. http env n cmd key JNull = Reply st body)"

lemma redis_reached_up:
  "redis_up env \<Longrightarrow> redis_reached env cmd key w = (w\<lparr>looks := looks w + 1\<rparr>, Inr True)"
  unfolding redis_up_def redis_reached_def
  by (auto simp: io_simps bind_def split: http_outcome.split) (metis http_outcome.distinct(1))

lemma with_redis_up:
  "redis_up env \<Longrightarrow> cache_connected w \<Longrightarrow> with_redis env cmd key dflt m w = m (w\<lparr>looks := looks w + 1\<rparr>)"
  by (simp add: with_redis_def io_simps bind_def redis_reached_up)

lemma unwrap_envelope:
  "unwrap (JObj [(''_v'', a), (''_fetched_at'', b), (''_ttl'', c), (''_data'', v)]) = v"
  by (simp add: unwrap_def is_envelope_def has_key_def entry_of_def)

end
