(* ===== verification/Usage_Caps.thy ===== *)
theory Usage_Caps
  imports Chat_Cache
begin

text \<open>
  The caps on the use of the language model, \<open>chat-service-py/app/services/cost_cap.py\<close>: counters
  per wallet and day, week and month in the cache, and the caps of one chat. The wall clock is
  read once for each key or reset, as in the code. An exceeded cap, an exception there, is a
  value here.
\<close>

section \<open>Caps\<close>

definition DEFAULT_DAILY_TOKEN_CAP :: int where "DEFAULT_DAILY_TOKEN_CAP = 1500000"
definition DEFAULT_DAILY_MESSAGE_CAP :: int where "DEFAULT_DAILY_MESSAGE_CAP = 300"
definition DEFAULT_WEEKLY_TOKEN_CAP :: int where "DEFAULT_WEEKLY_TOKEN_CAP = 7500000"
definition DEFAULT_WEEKLY_MESSAGE_CAP :: int where "DEFAULT_WEEKLY_MESSAGE_CAP = 1500"
definition DEFAULT_MONTHLY_TOKEN_CAP :: int where "DEFAULT_MONTHLY_TOKEN_CAP = 25000000"
definition DEFAULT_MONTHLY_MESSAGE_CAP :: int where "DEFAULT_MONTHLY_MESSAGE_CAP = 5000"
definition DEFAULT_CHAT_TOKEN_CAP :: int where "DEFAULT_CHAT_TOKEN_CAP = 500000"
definition DEFAULT_CHAT_MESSAGE_CAP :: int where "DEFAULT_CHAT_MESSAGE_CAP = 300"

definition env_text :: "outside \<Rightarrow> string \<Rightarrow> string" where
  "env_text env name = or_text_opt (env_var env name) []"

definition env_int :: "outside \<Rightarrow> string \<Rightarrow> int \<Rightarrow> int" where
  "env_int env name dflt =
     (let raw = env_text env name;
          n = (if raw = [] then dflt else case parse_int 10 raw of None \<Rightarrow> dflt | Some n \<Rightarrow> n)
      in if n \<ge> 0 then n else 0)"

definition is_dev_no_caps :: "outside \<Rightarrow> bool" where
  "is_dev_no_caps env \<longleftrightarrow>
     strip (env_text env ''OPRAI_DEV_DISABLE_CAPS'') = ''1'' \<or>
     lower (strip (env_text env ''NODE_ENV'')) \<in> {''development'', ''dev'', ''test''}"

definition CAP_INF :: int where "CAP_INF = 10 ^ 12"

definition unless_dev :: "outside \<Rightarrow> int \<Rightarrow> int" where
  "unless_dev env n = (if is_dev_no_caps env then CAP_INF else n)"

definition daily_token_cap :: "outside \<Rightarrow> int" where
  "daily_token_cap env = unless_dev env (env_int env ''OPRAI_LLM_DAILY_TOKEN_CAP'' DEFAULT_DAILY_TOKEN_CAP)"
definition daily_message_cap :: "outside \<Rightarrow> int" where
  "daily_message_cap env = unless_dev env (env_int env ''OPRAI_LLM_DAILY_MESSAGE_CAP'' DEFAULT_DAILY_MESSAGE_CAP)"
definition weekly_token_cap :: "outside \<Rightarrow> int" where
  "weekly_token_cap env = unless_dev env (env_int env ''OPRAI_LLM_WEEKLY_TOKEN_CAP'' DEFAULT_WEEKLY_TOKEN_CAP)"
definition weekly_message_cap :: "outside \<Rightarrow> int" where
  "weekly_message_cap env =
     unless_dev env (env_int env ''OPRAI_LLM_WEEKLY_MESSAGE_CAP'' DEFAULT_WEEKLY_MESSAGE_CAP)"
definition monthly_token_cap :: "outside \<Rightarrow> int" where
  "monthly_token_cap env =
     unless_dev env (env_int env ''OPRAI_LLM_MONTHLY_TOKEN_CAP'' DEFAULT_MONTHLY_TOKEN_CAP)"
definition monthly_message_cap :: "outside \<Rightarrow> int" where
  "monthly_message_cap env = env_int env ''OPRAI_LLM_MONTHLY_MESSAGE_CAP'' DEFAULT_MONTHLY_MESSAGE_CAP"
definition chat_token_cap :: "outside \<Rightarrow> int" where
  "chat_token_cap env = env_int env ''OPRAI_LLM_CHAT_TOKEN_CAP'' DEFAULT_CHAT_TOKEN_CAP"
definition chat_message_cap :: "outside \<Rightarrow> int" where
  "chat_message_cap env = env_int env ''OPRAI_LLM_CHAT_MESSAGE_CAP'' DEFAULT_CHAT_MESSAGE_CAP"

section \<open>Periods and keys\<close>

datatype period = Daily | Weekly | Monthly
datatype cap_unit = Messages | Tokens

definition today_text :: "usec \<Rightarrow> string" where "today_text now = date_text (day_of now)"
definition this_week :: "usec \<Rightarrow> string" where "this_week now = week_text (day_of now)"
definition this_month :: "usec \<Rightarrow> string" where "this_month now = month_text (day_of now)"

definition token_key :: "string \<Rightarrow> usec \<Rightarrow> string" where
  "token_key wallet now = ''llm:daily:tok:'' @ wallet @ '':'' @ today_text now"
definition msg_key :: "string \<Rightarrow> usec \<Rightarrow> string" where
  "msg_key wallet now = ''llm:daily:msg:'' @ wallet @ '':'' @ today_text now"
definition wtok_key :: "string \<Rightarrow> usec \<Rightarrow> string" where
  "wtok_key wallet now = ''llm:weekly:tok:'' @ wallet @ '':'' @ this_week now"
definition wmsg_key :: "string \<Rightarrow> usec \<Rightarrow> string" where
  "wmsg_key wallet now = ''llm:weekly:msg:'' @ wallet @ '':'' @ this_week now"
definition mtok_key :: "string \<Rightarrow> usec \<Rightarrow> string" where
  "mtok_key wallet now = ''llm:monthly:tok:'' @ wallet @ '':'' @ this_month now"
definition mmsg_key :: "string \<Rightarrow> usec \<Rightarrow> string" where
  "mmsg_key wallet now = ''llm:monthly:msg:'' @ wallet @ '':'' @ this_month now"

fun usage_key :: "cap_unit \<Rightarrow> period \<Rightarrow> string \<Rightarrow> usec \<Rightarrow> string" where
  "usage_key Tokens Daily = token_key"
| "usage_key Tokens Weekly = wtok_key"
| "usage_key Tokens Monthly = mtok_key"
| "usage_key Messages Daily = msg_key"
| "usage_key Messages Weekly = wmsg_key"
| "usage_key Messages Monthly = mmsg_key"

definition midnight :: "int \<Rightarrow> string" where
  "midnight d = date_text d @ ''T00:00:00Z''"

definition next_daily_reset :: "usec \<Rightarrow> int" where
  "next_daily_reset now = day_of now + 1"

definition next_weekly_reset :: "usec \<Rightarrow> int" where
  "next_weekly_reset now =
     (let d = (7 - weekday (day_of now)) mod 7 in day_of now + (if d = 0 then 7 else d))"

definition next_monthly_reset :: "usec \<Rightarrow> int" where
  "next_monthly_reset now =
     (let x = date_of_days (day_of now)
      in if month x = 12 then days_from_civil (year x + 1) 1 1 else days_from_civil (year x) (month x + 1) 1)"

fun next_reset :: "period \<Rightarrow> usec \<Rightarrow> int" where
  "next_reset Daily = next_daily_reset"
| "next_reset Weekly = next_weekly_reset"
| "next_reset Monthly = next_monthly_reset"

section \<open>Exceeded caps\<close>

record cap_exceeded =
  ce_wallet :: string
  ce_used :: int
  ce_cap :: int
  ce_unit :: cap_unit
  ce_period :: period
  ce_resets_at :: string

definition unit_text :: "cap_unit \<Rightarrow> string" where
  "unit_text u = (case u of Messages \<Rightarrow> ''messages'' | Tokens \<Rightarrow> ''tokens'')"

definition period_text :: "period \<Rightarrow> string" where
  "period_text p = (case p of Daily \<Rightarrow> ''daily'' | Weekly \<Rightarrow> ''weekly'' | Monthly \<Rightarrow> ''monthly'')"

definition capitalize :: "string \<Rightarrow> string" where
  "capitalize s = (case s of [] \<Rightarrow> [] | x # xs \<Rightarrow> upper_char x # lower xs)"

definition commas :: "int \<Rightarrow> string" where
  "commas n = (if n < 0 then ''-'' else []) @ group3 (show_base 10 (nat \<bar>n\<bar>))"

definition cut_mark :: string where "cut_mark = [CHR 0xE2, CHR 0x80, CHR 0xA6]"

definition cap_message :: "cap_exceeded \<Rightarrow> string" where
  "cap_message e =
     capitalize (period_text (ce_period e)) @ '' LLM '' @ unit_text (ce_unit e) @ '' cap reached for wallet '' @
     take 8 (ce_wallet e) @ cut_mark @ '': '' @ commas (ce_used e) @ '' / '' @ commas (ce_cap e) @ '' '' @
     unit_text (ce_unit e) @ '' (resets at '' @ ce_resets_at e @ '')''"

definition cap_payload :: "cap_exceeded \<Rightarrow> json" where
  "cap_payload e = JObj
     [(''error'', JStr (cap_message e)), (''errorType'', JStr ''llm_daily_cap''),
      (''unit'', JStr (unit_text (ce_unit e))), (''period'', JStr (period_text (ce_period e))),
      (''used'', JInt (ce_used e)), (''cap'', JInt (ce_cap e)), (''resetsAt'', JStr (ce_resets_at e)),
      (''message'', JStr (cap_message e))]"

record chat_locked =
  cl_session_id :: string
  cl_used :: int
  cl_cap :: int
  cl_unit :: cap_unit

definition locked_message :: "chat_locked \<Rightarrow> string" where
  "locked_message e =
     ''Chat '' @ take 8 (cl_session_id e) @ cut_mark @ '' reached its per-chat '' @ unit_text (cl_unit e) @
     '' cap ('' @ commas (cl_used e) @ '' / '' @ commas (cl_cap e) @ ''); user must start a new conversation.''"

definition locked_payload :: "chat_locked \<Rightarrow> json" where
  "locked_payload e = JObj
     [(''error'', JStr (locked_message e)), (''errorType'', JStr ''chat_limit''), (''scope'', JStr ''chat''),
      (''unit'', JStr (unit_text (cl_unit e))), (''used'', JInt (cl_used e)), (''cap'', JInt (cl_cap e)),
      (''message'', JStr (locked_message e))]"

definition chat_cap_check :: "outside \<Rightarrow> int \<Rightarrow> int \<Rightarrow> chat_locked option" where
  "chat_cap_check env message_count token_total =
     (if chat_message_cap env > 0 \<and> message_count \<ge> chat_message_cap env
      then Some \<lparr>cl_session_id = [], cl_used = message_count, cl_cap = chat_message_cap env, cl_unit = Messages\<rparr>
      else if chat_token_cap env > 0 \<and> token_total \<ge> chat_token_cap env
      then Some \<lparr>cl_session_id = [], cl_used = token_total, cl_cap = chat_token_cap env, cl_unit = Tokens\<rparr>
      else None)"

section \<open>Counters\<close>

definition LLM_CACHE :: string where "LLM_CACHE = ''session:llm_daily''"

definition int_or_zero :: "json \<Rightarrow> int" where
  "int_or_zero raw =
     (case raw of
        JInt n \<Rightarrow> n
      | JFloat x \<Rightarrow> py_int x
      | JBool b \<Rightarrow> (if b then 1 else 0)
      | JStr s \<Rightarrow> (case parse_int 10 s of None \<Rightarrow> 0 | Some n \<Rightarrow> n)
      | _ \<Rightarrow> 0)"

definition read_int :: "outside \<Rightarrow> string \<Rightarrow> ('z cache_state_scheme, int) io" where
  "read_int env key = bind (cache_get env LLM_CACHE [key]) (\<lambda>raw. return (int_or_zero raw))"

definition add_int :: "outside \<Rightarrow> string \<Rightarrow> int \<Rightarrow> ('z cache_state_scheme, unit) io" where
  "add_int env key delta =
     bind (read_int env key) (\<lambda>prev.
     bind (cache_set env LLM_CACHE (JStr (show_int (prev + delta))) [key] None) (\<lambda>_. return ()))"

text \<open>The caps checked, in order, with the time each is looked up at.\<close>

definition effective_daily :: "outside \<Rightarrow> int option \<Rightarrow> int" where
  "effective_daily env tier =
     (case tier of
        Some n \<Rightarrow> if n > 0 \<and> \<not> is_dev_no_caps env then n else daily_token_cap env
      | None \<Rightarrow> daily_token_cap env)"

definition cap_checks :: "outside \<Rightarrow> int option \<Rightarrow> (cap_unit \<times> period \<times> int) list" where
  "cap_checks env tier =
     [(Messages, Daily, daily_message_cap env), (Messages, Weekly, weekly_message_cap env),
      (Messages, Monthly, monthly_message_cap env), (Tokens, Daily, effective_daily env tier),
      (Tokens, Weekly, weekly_token_cap env), (Tokens, Monthly, monthly_token_cap env)]"

definition resolve_check ::
  "outside \<Rightarrow> string \<Rightarrow> cap_unit \<times> period \<times> int
    \<Rightarrow> ('z cache_state_scheme, cap_unit \<times> period \<times> string \<times> int \<times> string) io" where
  "resolve_check env wallet x =
     (case x of (u, p, cap) \<Rightarrow>
        gets (\<lambda>w. (u, p, usage_key u p wallet (utc_now env w), cap, midnight (next_reset p (utc_now env w)))))"

fun first_exceeded ::
  "outside \<Rightarrow> string \<Rightarrow> (cap_unit \<times> period \<times> string \<times> int \<times> string) list
    \<Rightarrow> ('z cache_state_scheme, cap_exceeded option) io" where
  "first_exceeded env wallet [] = return None"
| "first_exceeded env wallet ((u, p, key, cap, resets) # rest) =
     (if cap \<le> 0 then first_exceeded env wallet rest
      else
        bind (read_int env key) (\<lambda>used.
          if used \<ge> cap
          then return (Some \<lparr>ce_wallet = wallet, ce_used = used, ce_cap = cap, ce_unit = u, ce_period = p,
                             ce_resets_at = resets\<rparr>)
          else first_exceeded env wallet rest))"

definition assert_under_cap ::
  "outside \<Rightarrow> string \<Rightarrow> int option \<Rightarrow> ('z cache_state_scheme, cap_exceeded option) io" where
  "assert_under_cap env wallet tier =
     (if wallet = [] then return None
      else bind (for_each (resolve_check env wallet) (cap_checks env tier)) (first_exceeded env wallet))"

definition keys_now :: "outside \<Rightarrow> cap_unit \<Rightarrow> string \<Rightarrow> ('z cache_state_scheme, string list) io" where
  "keys_now env u wallet = gets (\<lambda>w. map (\<lambda>p. usage_key u p wallet (utc_now env w)) [Daily, Weekly, Monthly])"

definition record_message :: "outside \<Rightarrow> string \<Rightarrow> ('z cache_state_scheme, unit) io" where
  "record_message env wallet =
     (if wallet = [] then return ()
      else bind (keys_now env Messages wallet) (\<lambda>keys.
           bind (for_each (\<lambda>key. add_int env key 1) keys) (\<lambda>_. return ())))"

definition record_tokens :: "outside \<Rightarrow> string \<Rightarrow> int \<Rightarrow> ('z cache_state_scheme, unit) io" where
  "record_tokens env wallet tokens =
     (if wallet = [] \<or> tokens \<le> 0 then return ()
      else bind (keys_now env Tokens wallet) (\<lambda>keys.
           bind (for_each (\<lambda>key. add_int env key tokens) keys) (\<lambda>_. return ())))"

definition used_of :: "outside \<Rightarrow> cap_unit \<Rightarrow> period \<Rightarrow> string \<Rightarrow> ('z cache_state_scheme, int) io" where
  "used_of env u p wallet =
     bind (gets (\<lambda>w. usage_key u p wallet (utc_now env w))) (\<lambda>key. read_int env key)"

definition period_snapshot ::
  "outside \<Rightarrow> string \<Rightarrow> period \<Rightarrow> int \<Rightarrow> int \<Rightarrow> ('z cache_state_scheme, json) io" where
  "period_snapshot env wallet p message_cap token_cap =
     bind (used_of env Messages p wallet) (\<lambda>m.
     bind (used_of env Tokens p wallet) (\<lambda>t.
     bind (gets (\<lambda>w. midnight (next_reset p (utc_now env w)))) (\<lambda>resets.
       return (JObj
         [(''messages'', JObj [(''used'', JInt m), (''cap'', JInt message_cap)]),
          (''tokens'', JObj [(''used'', JInt t), (''cap'', JInt token_cap)]), (''resetsAt'', JStr resets)]))))"

definition usage_snapshot :: "outside \<Rightarrow> string \<Rightarrow> ('z cache_state_scheme, json) io" where
  "usage_snapshot env wallet =
     bind (period_snapshot env wallet Daily (daily_message_cap env) (daily_token_cap env)) (\<lambda>d.
     bind (period_snapshot env wallet Weekly (weekly_message_cap env) (weekly_token_cap env)) (\<lambda>k.
     bind (period_snapshot env wallet Monthly (monthly_message_cap env) (monthly_token_cap env)) (\<lambda>m.
       return (JObj [(''daily'', d), (''weekly'', k), (''monthly'', m),
         (''chat'', JObj [(''messageCap'', JInt (chat_message_cap env)),
                        (''tokenCap'', JInt (chat_token_cap env))])]))))"

section \<open>Counters as a table of totals\<close>

text \<open>The abstract view: a number for each unit, period and wallet at the present moment.\<close>

definition counter_at :: "(string, redis_entry) table \<Rightarrow> string \<Rightarrow> usec \<Rightarrow> int" where
  "counter_at t key now =
     int_or_zero (case redis_value t (cache_key LLM_CACHE [key]) now of None \<Rightarrow> JNull | Some v \<Rightarrow> unwrap v)"

definition usage_of :: "outside \<Rightarrow> 'z cache_state_scheme \<Rightarrow> cap_unit \<Rightarrow> period \<Rightarrow> string \<Rightarrow> int" where
  "usage_of env w u p wallet = counter_at (redis_store w) (usage_key u p wallet (utc_now env w)) (utc_now env w)"

definition add_usage ::
  "cap_unit \<Rightarrow> string \<Rightarrow> int \<Rightarrow> (cap_unit \<Rightarrow> period \<Rightarrow> string \<Rightarrow> int) \<Rightarrow> cap_unit \<Rightarrow> period \<Rightarrow> string \<Rightarrow> int" where
  "add_usage u wallet n totals u' p wallet' = totals u' p wallet' + (if u' = u \<and> wallet' = wallet then n else 0)"

text \<open>Redis answers and no time passes on the clock while an operation runs.\<close>

definition calm :: "outside \<Rightarrow> bool" where
  "calm env \<longleftrightarrow> redis_up env \<and> (\<forall>n. utc env n = utc env 0)"

lemma calm_now: "calm env \<Longrightarrow> slept w' = slept w \<Longrightarrow> utc_now env w' = utc_now env w"
  unfolding calm_def utc_now_def by metis

lemma cache_key_inj [simp]: "cache_key LLM_CACHE [k] = cache_key LLM_CACHE [k'] \<longleftrightarrow> k = k'"
  by (simp add: cache_key_def make_key_def)

lemma usage_key_inj:
  "usage_key u p wallet now = usage_key u' p' wallet' now \<longleftrightarrow> u = u' \<and> p = p' \<and> wallet = wallet'"
  by (cases u; cases p; cases u'; cases p')
    (simp_all add: token_key_def msg_key_def wtok_key_def wmsg_key_def mtok_key_def mmsg_key_def)

lemma llm_ttl: "cache_ttl LLM_CACHE None = 90000"
  by (simp add: cache_ttl_def get_config_def CACHE_CONFIGS_def LLM_CACHE_def cfg_def)

lemma counter_put:
  "counter_at (put_row (cache_key LLM_CACHE [k]) e t) k' now =
     (if k' = k then int_or_zero (if alive now e then unwrap (re_value e) else JNull) else counter_at t k' now)"
  by (auto simp: counter_at_def redis_value_def)

lemma read_int_calm:
  assumes "calm env" "cache_connected w"
  shows "read_int env key w = (w\<lparr>looks := looks w + 1\<rparr>, Inr (counter_at (redis_store w) key (utc_now env w)))"
proof -
  have up: "redis_up env" using assms(1) by (simp add: calm_def)
  have now: "utc_now env (w\<lparr>looks := looks w + 1\<rparr>) = utc_now env w" using assms(1) by (rule calm_now) simp
  show ?thesis
    using now by (simp add: read_int_def cache_get_def with_redis_up [OF up assms(2)] io_simps bind_def counter_at_def Let_def)
qed

text \<open>An increment, and what it leaves: the new entry lives for twenty-five hours.\<close>

lemma add_int_calm:
  assumes "calm env" "cache_connected w"
  shows "\<exists>w'. add_int env key d w = (w', Inr ()) \<and> cache_connected w' \<and> slept w' = slept w \<and>
    (\<forall>k now. now < utc_now env w + seconds 90000 \<longrightarrow> counter_at (redis_store w') k now =
       (if k = key then counter_at (redis_store w) key (utc_now env w) + d else counter_at (redis_store w) k now)) \<and>
    (\<forall>k. k \<noteq> key \<longrightarrow> row_of (redis_store w') (cache_key LLM_CACHE [k]) = row_of (redis_store w) (cache_key LLM_CACHE [k])) \<and>
    (\<exists>e. row_of (redis_store w') (cache_key LLM_CACHE [key]) = Some e \<and> re_expires e = utc_now env w + seconds 90000)"
proof -
  have up: "redis_up env" using assms(1) by (simp add: calm_def)
  have now: "utc_now env (w\<lparr>looks := n\<rparr>) = utc_now env w" for n using assms(1) by (rule calm_now) simp
  let ?w1 = "w\<lparr>looks := looks w + 1\<rparr>" and ?k = "cache_key LLM_CACHE [key]"
  let ?e = "\<lparr>re_value = JObj [(''_v'', JInt 1), (''_fetched_at'', JFloat (time_time env ?w1)), (''_ttl'', JInt 90000),
      (''_data'', JStr (show_int (counter_at (redis_store w) key (utc_now env w) + d)))],
    re_expires = utc_now env w + seconds 90000\<rparr>"
  have step: "with_redis env cmd key' dflt m (w\<lparr>looks := n\<rparr>) = m (w\<lparr>looks := Suc n\<rparr>)"
    for cmd key' n and dflt :: 'b and m
    using with_redis_up [OF up, of "w\<lparr>looks := n\<rparr>"] assms(2) by simp
  have "add_int env key d w = (w\<lparr>looks := looks w + 2, redis_store := put_row ?k ?e (redis_store w)\<rparr>, Inr ())"
    by (simp add: add_int_def cache_set_def read_int_calm [OF assms] step io_simps bind_def
        Let_def llm_ttl now)
  then show ?thesis
    using assms(2) by (auto simp: counter_put alive_def unwrap_envelope int_or_zero_def)
qed

lemma add_ints_calm:
  assumes "calm env" "cache_connected w" "distinct keys"
  shows "\<exists>w'. for_each (\<lambda>key. add_int env key d) keys w = (w', Inr (map (\<lambda>_. ()) keys)) \<and> cache_connected w' \<and>
    slept w' = slept w \<and>
    (\<forall>k. counter_at (redis_store w') k (utc_now env w) =
       counter_at (redis_store w) k (utc_now env w) + (if k \<in> set keys then d else 0)) \<and>
    (\<forall>k. k \<notin> set keys \<longrightarrow> row_of (redis_store w') (cache_key LLM_CACHE [k]) = row_of (redis_store w) (cache_key LLM_CACHE [k])) \<and>
    (\<forall>k\<in>set keys. \<exists>e. row_of (redis_store w') (cache_key LLM_CACHE [k]) = Some e \<and>
       re_expires e = utc_now env w + seconds 90000)"
  using assms(2,3)
proof (induction keys arbitrary: w)
  case Nil
  then show ?case by (simp add: io_simps)
next
  case (Cons key keys)
  obtain w1 where 1: "add_int env key d w = (w1, Inr ())" "cache_connected w1" "slept w1 = slept w"
    "\<forall>k now. now < utc_now env w + seconds 90000 \<longrightarrow> counter_at (redis_store w1) k now =
       (if k = key then counter_at (redis_store w) key (utc_now env w) + d else counter_at (redis_store w) k now)"
    "\<forall>k. k \<noteq> key \<longrightarrow> row_of (redis_store w1) (cache_key LLM_CACHE [k]) = row_of (redis_store w) (cache_key LLM_CACHE [k])"
    "\<exists>e. row_of (redis_store w1) (cache_key LLM_CACHE [key]) = Some e \<and> re_expires e = utc_now env w + seconds 90000"
    using add_int_calm [OF assms(1) Cons.prems(1)] by blast
  have now: "utc_now env w1 = utc_now env w" using assms(1) 1(3) by (rule calm_now)
  have soon: "utc_now env w < utc_now env w + seconds 90000" by (simp add: seconds_def)
  obtain w2 where 2: "for_each (\<lambda>key. add_int env key d) keys w1 = (w2, Inr (map (\<lambda>_. ()) keys))"
    "cache_connected w2" "slept w2 = slept w1"
    "\<forall>k. counter_at (redis_store w2) k (utc_now env w1) =
       counter_at (redis_store w1) k (utc_now env w1) + (if k \<in> set keys then d else 0)"
    "\<forall>k. k \<notin> set keys \<longrightarrow> row_of (redis_store w2) (cache_key LLM_CACHE [k]) = row_of (redis_store w1) (cache_key LLM_CACHE [k])"
    "\<forall>k\<in>set keys. \<exists>e. row_of (redis_store w2) (cache_key LLM_CACHE [k]) = Some e \<and>
       re_expires e = utc_now env w1 + seconds 90000"
    using Cons.IH [OF 1(2)] Cons.prems(2) by auto
  have "for_each (\<lambda>key. add_int env key d) (key # keys) w = (w2, Inr (map (\<lambda>_. ()) (key # keys)))"
    using 1(1) 2(1) by (simp add: bind_def io_simps)
  moreover have "counter_at (redis_store w2) k (utc_now env w) =
      counter_at (redis_store w) k (utc_now env w) + (if k \<in> set (key # keys) then d else 0)" for k
    using 2(4) 1(4) soon Cons.prems(2) by (auto simp: now)
  ultimately show ?case
    using 1 2 Cons.prems(2) now by (intro exI [of _ w2]) auto
qed

lemma usage_keys_distinct: "distinct (map (\<lambda>p. usage_key u p wallet now) [Daily, Weekly, Monthly])"
  by (simp add: usage_key_inj)

lemma usage_key_in:
  "usage_key u' p wallet' now \<in> set (map (\<lambda>p. usage_key u p wallet now) [Daily, Weekly, Monthly]) \<longleftrightarrow>
     u' = u \<and> wallet' = wallet"
  by (cases p) (auto simp: usage_key_inj)

text \<open>Both recordings are one loop over the three keys of the moment.\<close>

definition record_usage :: "outside \<Rightarrow> cap_unit \<Rightarrow> string \<Rightarrow> int \<Rightarrow> ('z cache_state_scheme, unit) io" where
  "record_usage env u wallet d =
     bind (keys_now env u wallet) (\<lambda>keys. bind (for_each (\<lambda>key. add_int env key d) keys) (\<lambda>_. return ()))"

lemma record_unfold:
  "wallet \<noteq> [] \<Longrightarrow> record_message env wallet = record_usage env Messages wallet 1"
  "wallet \<noteq> [] \<Longrightarrow> 0 < n \<Longrightarrow> record_tokens env wallet n = record_usage env Tokens wallet n"
  by (simp_all add: record_message_def record_tokens_def record_usage_def)

lemma record_usage_calm:
  assumes "calm env" "cache_connected w"
  shows "\<exists>w'. record_usage env u wallet d w = (w', Inr ()) \<and> cache_connected w' \<and> slept w' = slept w \<and>
    usage_of env w' = add_usage u wallet d (usage_of env w) \<and>
    (\<forall>p. \<exists>e. row_of (redis_store w') (cache_key LLM_CACHE [usage_key u p wallet (utc_now env w)]) = Some e \<and>
       re_expires e = utc_now env w + seconds 90000)"
proof -
  let ?keys = "map (\<lambda>p. usage_key u p wallet (utc_now env w)) [Daily, Weekly, Monthly]"
  obtain w' where 1: "for_each (\<lambda>key. add_int env key d) ?keys w = (w', Inr (map (\<lambda>_. ()) ?keys))"
    "cache_connected w'" "slept w' = slept w"
    "\<forall>k. counter_at (redis_store w') k (utc_now env w) =
       counter_at (redis_store w) k (utc_now env w) + (if k \<in> set ?keys then d else 0)"
    "\<forall>k\<in>set ?keys. \<exists>e. row_of (redis_store w') (cache_key LLM_CACHE [k]) = Some e \<and>
       re_expires e = utc_now env w + seconds 90000"
    using add_ints_calm [OF assms usage_keys_distinct] by blast
  have now: "utc_now env w' = utc_now env w" using assms(1) 1(3) by (rule calm_now)
  have "record_usage env u wallet d w = (w', Inr ())"
    using 1(1) by (simp add: record_usage_def keys_now_def bind_def io_simps del: for_each.simps list.map)
  moreover have "usage_of env w' u' p x = add_usage u wallet d (usage_of env w) u' p x" for u' p x
    using 1(4) unfolding usage_of_def now add_usage_def usage_key_in [symmetric, where p = p and now = "utc_now env w"]
    by blast
  moreover have "\<forall>p. \<exists>e. row_of (redis_store w') (cache_key LLM_CACHE [usage_key u p wallet (utc_now env w)]) =
      Some e \<and> re_expires e = utc_now env w + seconds 90000"
  proof
    fix p :: period
    have "usage_key u p wallet (utc_now env w) \<in> set ?keys" by (cases p) simp_all
    with 1(5) show "\<exists>e. row_of (redis_store w') (cache_key LLM_CACHE [usage_key u p wallet (utc_now env w)]) =
      Some e \<and> re_expires e = utc_now env w + seconds 90000" by blast
  qed
  ultimately show ?thesis using 1(2,3) by (intro exI [of _ w']) (simp add: fun_eq_iff)
qed


definition calm_example :: outside where
  "calm_example = outage\<lparr>http := (\<lambda>n verb url p. Reply 200 None), utc := (\<lambda>_. 0)\<rparr>"

definition cache_example :: cache_state where
  "cache_example = \<lparr>looks = 0, slept = 0, on_fallback = False, primary_stale = False, lag_checked_at = 0,
     redis_store = [], cache_connected = True\<rparr>"

lemma calm_witness: "calm calm_example" "cache_connected cache_example"
  by (simp_all add: calm_def redis_up_def calm_example_def cache_example_def)


text \<open>The weekly and the monthly counters share the time to live of the daily ones: whatever a
  wallet has used, twenty-five hours without a message later its counter reads 0 while its week
  or month goes on, so the weekly and monthly caps do not bind a wallet that pauses for a day.\<close>

theorem pause_forgets_usage:
  assumes "calm env" and "cache_connected w" and "wallet \<noteq> []" and "0 < n"
    and "usage_key Tokens p wallet (utc_now env w + hours 25) = usage_key Tokens p wallet (utc_now env w)"
  shows "\<exists>w' w''. record_tokens env wallet n w = (w', Inr ()) \<and>
    used_of env Tokens p wallet (w'\<lparr>slept := slept w' + hours 25\<rparr>) = (w'', Inr 0)"
proof -
  let ?key = "usage_key Tokens p wallet (utc_now env w)"
  obtain w' e where w': "record_usage env Tokens wallet n w = (w', Inr ())" "cache_connected w'" "slept w' = slept w"
    "row_of (redis_store w') (cache_key LLM_CACHE [?key]) = Some e" "re_expires e = utc_now env w + seconds 90000"
    using record_usage_calm [OF assms(1,2)] by metis
  let ?later = "w'\<lparr>slept := slept w' + hours 25\<rparr>"
  have later: "utc_now env ?later = utc_now env w + hours 25"
    using calm_now [OF assms(1) w'(3)] by (simp add: utc_now_def)
  have "counter_at (redis_store ?later) ?key (utc_now env ?later) = 0"
    using w'(4,5) later by (simp add: counter_at_def redis_value_def alive_def int_or_zero_def time_defs)
  moreover have "cache_connected ?later" using w'(2) by simp
  ultimately have "used_of env Tokens p wallet ?later = (?later\<lparr>looks := looks ?later + 1\<rparr>, Inr 0)"
    using later assms(5) by (simp add: used_of_def io_simps bind_def read_int_calm [OF assms(1)])
  then show ?thesis using w'(1) unfolding record_unfold(2) [OF assms(3,4)] by blast
qed

theorem pause_forgets_usage_witness:
  "\<exists>w' w''. record_tokens calm_example ''w'' 25000000 cache_example = (w', Inr ()) \<and>
    used_of calm_example Tokens Monthly ''w'' (w'\<lparr>slept := slept w' + hours 25\<rparr>) = (w'', Inr 0)"
proof -
  have month: "month_text 0 = ''1970-01''" "month_text 1 = ''1970-01''" by code_simp+
  have "usage_key Tokens Monthly ''w'' (utc_now calm_example cache_example + hours 25) =
      usage_key Tokens Monthly ''w'' (utc_now calm_example cache_example)"
    by (simp add: mtok_key_def this_month_def calm_example_def cache_example_def utc_now_def time_defs
        day_of_def month)
  then show ?thesis by (intro pause_forgets_usage calm_witness) simp_all
qed

end
