(* ===== verification/Cashback.thy ===== *)
theory Cashback
  imports Usage_Caps Evm
begin

text \<open>
  Rewards of the chat service: the payout in a chain's native token,
  \<open>chat-service-py/app/services/evm_payout.py\<close>, and claiming cashback and redeeming a referral,
  in \<open>chat-service-py/app/main.py\<close>. The key library of the payout is a parameter. The views on the
  economics of wallets and accounts belong to another service: what they answer is part of the
  state, and a claim's own rows are the table here.
\<close>

section \<open>The payout\<close>

record key_library =
  key_address :: "string \<Rightarrow> string option"
  sign_raw :: "json \<Rightarrow> string \<Rightarrow> string"

definition EVM_CHAINS :: "(string \<times> int \<times> string \<times> string) list" where
  "EVM_CHAINS =
     [(''ethereum'', 1, ''https://eth.llamarpc.com'', ''ethereum''),
      (''base'', 8453, ''https://mainnet.base.org'', ''ethereum''),
      (''arbitrum'', 42161, ''https://arb1.arbitrum.io/rpc'', ''ethereum''),
      (''optimism'', 10, ''https://mainnet.optimism.io'', ''ethereum''),
      (''polygon'', 137, ''https://polygon-rpc.com'', ''polygon-ecosystem-token''),
      (''bsc'', 56, ''https://bsc-dataseed.binance.org'', ''binancecoin''),
      (''robinhood'', 4663, ''https://rpc.mainnet.chain.robinhood.com'', ''ethereum'')]"

definition treasury_key :: "outside \<Rightarrow> string" where
  "treasury_key env = strip (env_text env ''EVM_CASHBACK_TREASURY_KEY'')"

definition treasury_configured :: "outside \<Rightarrow> bool" where
  "treasury_configured env \<longleftrightarrow> treasury_key env \<noteq> []"

text \<open>The address and the key of the treasury.\<close>

definition treasury_account :: "key_library \<Rightarrow> outside \<Rightarrow> (string \<times> string) option" where
  "treasury_account lib env =
     (let key0 = treasury_key env;
          key = (if startswith key0 ''0x'' then key0 else ''0x'' @ key0)
      in if key0 = [] then None else map_option (\<lambda>a. (a, key)) (key_address lib key))"

definition is_evm_chain :: "string \<Rightarrow> bool" where
  "is_evm_chain chain \<longleftrightarrow> map_of EVM_CHAINS chain \<noteq> None"

definition payout_rpc ::
  "outside \<Rightarrow> string \<Rightarrow> string \<Rightarrow> json list \<Rightarrow> ('z world_scheme, json) io" where
  "payout_rpc env url m ps =
     bind (http_call env ''POST'' url
             (JObj [(''jsonrpc'', JStr ''2.0''), (''id'', JInt 1), (''method'', JStr m), (''params'', JArr ps)]))
       (\<lambda>o1.
     bind (from_sum (then_sum (raise_for_status o1) (or_raise ValueError))) (\<lambda>d.
     bind (from_sum (field ''error'' d)) (\<lambda>e.
       if truthy e then throw (RuntimeError (m @ '': '' @ py_str env e)) else from_sum (item ''result'' d))))"

definition native_price_usd :: "outside \<Rightarrow> string \<Rightarrow> ('z world_scheme, rat) io" where
  "native_price_usd env coingecko_id =
     bind (http_call env ''GET'' ''https://api.coingecko.com/api/v3/simple/price''
             (JObj [(''ids'', JStr coingecko_id), (''vs_currencies'', JStr ''usd'')])) (\<lambda>o1.
       from_sum (then_sum (then_sum (raise_for_status o1) (or_raise ValueError)) (\<lambda>j.
         then_sum (item coingecko_id j) (\<lambda>x. then_sum (item ''usd'' x) float_of))))"

definition GAS_LIMIT :: int where "GAS_LIMIT = 21000"

text \<open>The fee, at least the gas of this transfer, and what is left of the claim.\<close>

definition payout_fee :: "int \<Rightarrow> rat \<Rightarrow> rat \<Rightarrow> rat" where
  "payout_fee gas_price price min_fee_usd =
     (let gas_usd = fmul (fdiv (to_float (GAS_LIMIT * gas_price)) (10 ^ 18)) price
      in py_round (max min_fee_usd gas_usd) 6)"

definition payout_net :: "rat \<Rightarrow> rat \<Rightarrow> rat" where
  "payout_net claimable_usd fee_usd = py_round (fsub claimable_usd fee_usd) 6"

definition payout_wei :: "rat \<Rightarrow> rat \<Rightarrow> int" where
  "payout_wei net_usd price = py_int (fmul (fdiv net_usd price) (10 ^ 18))"

definition send_payout ::
  "key_library \<Rightarrow> outside \<Rightarrow> string \<times> string \<Rightarrow> int \<Rightarrow> string \<Rightarrow> string \<Rightarrow> int \<Rightarrow> int \<Rightarrow> ('z world_scheme, json) io" where
  "send_payout lib env acct cid url recipient gas_price value_wei =
     bind (payout_rpc env url ''eth_getTransactionCount'' [JStr (fst acct), JStr ''pending'']) (\<lambda>n.
     bind (from_sum (hex_text n)) (\<lambda>nonce.
       let tx = JObj [(''to'', JStr recipient), (''value'', JInt value_wei), (''gas'', JInt GAS_LIMIT),
                      (''gasPrice'', JInt gas_price), (''nonce'', JInt nonce), (''chainId'', JInt cid)];
           raw = sign_raw lib tx (snd acct);
           raw_hex = (if startswith raw ''0x'' then raw else ''0x'' @ raw)
       in payout_rpc env url ''eth_sendRawTransaction'' [JStr raw_hex]))"

definition payout ::
  "key_library \<Rightarrow> outside \<Rightarrow> string \<Rightarrow> string \<Rightarrow> rat \<Rightarrow> rat \<Rightarrow> ('z world_scheme, json \<times> rat \<times> rat) io" where
  "payout lib env chain recipient claimable_usd min_fee_usd =
     (case treasury_account lib env of
        None \<Rightarrow> throw (PayoutError ''EVM cashback payouts are not enabled yet.'')
      | Some acct \<Rightarrow>
          (case map_of EVM_CHAINS chain of
             None \<Rightarrow> throw (PayoutError (chain @ '' payouts are not supported.''))
           | Some (cid, url, cg_id) \<Rightarrow>
               if \<not> (startswith recipient ''0x'' \<and> length recipient = 42)
               then throw (PayoutError ''An EVM wallet is required to receive this payout.'')
               else
                 bind (native_price_usd env cg_id) (\<lambda>price.
                 if price \<le> 0 then throw (RuntimeError ''could not price the native token'')
                 else
                   bind (payout_rpc env url ''eth_gasPrice'' []) (\<lambda>g.
                   bind (from_sum (hex_text g)) (\<lambda>gas_price.
                     let fee_usd = payout_fee gas_price price min_fee_usd;
                         net_usd = payout_net claimable_usd fee_usd;
                         value_wei = payout_wei net_usd price
                     in
                     if net_usd \<le> 0 then
                       throw (PayoutError (''This reward is too small to cover the network fee on '' @
                         chain @ ''. It keeps accruing '' @ [CHR 0xE2, CHR 0x80, CHR 0x94] @
                         '' claim once it's a bit larger.''))
                     else if value_wei \<le> 0 then throw (PayoutError ''Cashback amount is too small to pay out.'')
                     else
                       bind (send_payout lib env acct cid url recipient gas_price value_wei) (\<lambda>tx_hash.
                         return (tx_hash, fee_usd, net_usd)))))))"

section \<open>Claims\<close>

definition MIN_CLAIM_USD :: rat where "MIN_CLAIM_USD = 5"
definition CLAIM_FEE_PCT :: rat where "CLAIM_FEE_PCT = b64 (2 / 100)"

definition CHAIN_TOKEN :: "(string \<times> string) list" where
  "CHAIN_TOKEN =
     [(''solana'', ''SOL''), (''ethereum'', ''ETH''), (''base'', ''ETH''), (''arbitrum'', ''ETH''),
      (''optimism'', ''ETH''), (''bsc'', ''BNB''), (''polygon'', ''POL''), (''robinhood'', ''ETH'')]"

definition CLAIM_CHAINS :: "string list" where
  "CLAIM_CHAINS = [''solana'', ''ethereum'', ''base'', ''bsc'', ''polygon'', ''arbitrum'', ''optimism'', ''robinhood'']"

datatype cb_status = CB_Pending | CB_Paid | CB_Failed

record cb_row =
  cb_wallet :: string
  cb_account :: "string option"
  cb_chain :: string
  cb_amount :: rat
  cb_status :: cb_status
  cb_signature :: "json option"

text \<open>What the views say: the account of a wallet, a linked EVM wallet of an account, what an
  account earned on a chain and by referrals, and what a wallet earned.\<close>

record reward_views =
  wallet_account :: "string \<Rightarrow> string option"
  account_evm_wallet :: "string \<Rightarrow> string option"
  own_by_chain :: "string \<Rightarrow> string \<Rightarrow> rat option"
  referral_of :: "string \<Rightarrow> rat option"
  wallet_earned :: "string \<Rightarrow> rat option"

record reward_state = world +
  views :: reward_views
  cb_rows :: "(int, cb_row) table"
  cb_next :: int
  referral_codes :: "(string, string) table"
  referrals :: "(string, string \<times> string) table"

definition resolve_account_id :: "reward_views \<Rightarrow> string \<Rightarrow> string option \<Rightarrow> string option" where
  "resolve_account_id v wallet hdr =
     (if or_text_opt hdr [] \<noteq> [] then hdr else wallet_account v wallet)"

definition resolve_evm_recipient :: "reward_views \<Rightarrow> string \<Rightarrow> string option \<Rightarrow> string option" where
  "resolve_evm_recipient v wallet account =
     (if wallet \<noteq> [] \<and> startswith wallet ''0x'' \<and> length wallet = 42 then Some wallet
      else if or_text_opt account [] \<noteq> [] then account_evm_wallet v (or_text_opt account [])
      else None)"

definition claim_counts :: "cb_row \<Rightarrow> bool" where
  "claim_counts r \<longleftrightarrow> cb_status r = CB_Pending \<or> cb_status r = CB_Paid"

definition claimed_total :: "(cb_row \<Rightarrow> bool) \<Rightarrow> (int, cb_row) table \<Rightarrow> rat" where
  "claimed_total p t = sum_list (map (cb_amount \<circ> snd) (filter (\<lambda>(_, r). p r \<and> claim_counts r) t))"

definition or_zero :: "rat option \<Rightarrow> rat" where
  "or_zero x = (case x of None \<Rightarrow> 0 | Some a \<Rightarrow> a)"

definition of_account :: "string \<Rightarrow> string \<Rightarrow> cb_row \<Rightarrow> bool" where
  "of_account a chain r \<longleftrightarrow> cb_account r = Some a \<and> cb_chain r = chain"

text \<open>\<open>v_user_cashback.cashback_claimable_usd\<close>.\<close>

definition wallet_claimable :: "reward_views \<Rightarrow> (int, cb_row) table \<Rightarrow> string \<Rightarrow> rat option" where
  "wallet_claimable v t w =
     map_option (\<lambda>e. max 0 (e - claimed_total (\<lambda>r. cb_wallet r = w) t)) (wallet_earned v w)"

definition claimable_usd :: "reward_views \<Rightarrow> (int, cb_row) table \<Rightarrow> string \<Rightarrow> string option \<Rightarrow> string \<Rightarrow> rat" where
  "claimable_usd v t w account chain =
     (case account of
        Some a \<Rightarrow>
          max 0 (fsub (fadd (b64 (or_zero (own_by_chain v a chain)))
                    (if chain = ''solana'' then b64 (or_zero (referral_of v a)) else 0))
                  (b64 (claimed_total (of_account a chain) t)))
      | None \<Rightarrow> max 0 (fsub (fadd (b64 (or_zero (wallet_claimable v t w))) 0) 0))"

definition book_claim ::
  "string \<Rightarrow> string option \<Rightarrow> string \<Rightarrow> rat \<Rightarrow> 'z reward_state_scheme \<Rightarrow> 'z reward_state_scheme \<times> int" where
  "book_claim w account chain amount s =
     (s\<lparr>cb_rows := cb_rows s @ [(cb_next s, \<lparr>cb_wallet = w, cb_account = account, cb_chain = chain,
          cb_amount = amount, cb_status = CB_Pending, cb_signature = None\<rparr>)],
        cb_next := cb_next s + 1\<rparr>, cb_next s)"

definition settle_claim ::
  "int \<Rightarrow> cb_status \<Rightarrow> json option \<Rightarrow> 'z reward_state_scheme \<Rightarrow> 'z reward_state_scheme" where
  "settle_claim i st sig s =
     s\<lparr>cb_rows := update_where (\<lambda>k _. k = i)
         (\<lambda>r. r\<lparr>cb_status := st, cb_signature := (if st = CB_Paid then sig else cb_signature r)\<rparr>) (cb_rows s)\<rparr>"

definition is_payout_error :: "exn \<Rightarrow> bool" where
  "is_payout_error e = (case e of PayoutError _ \<Rightarrow> True | _ \<Rightarrow> False)"

text \<open>Paying: the receipt, or whether the claim is released and why.\<close>

definition solana_payout ::
  "settings \<Rightarrow> outside \<Rightarrow> string \<Rightarrow> rat \<Rightarrow> ('z world_scheme, (bool \<times> string option) + json) io" where
  "solana_payout c env w net =
     bind (http_call env ''POST''
             (or_text_opt (env_var env ''SOLANA_SERVICE_HTTP'') ''http://solana-service-rs:3030'' @ ''/actions/cashback-payout'')
             (JObj [(''X-Internal-Api-Key'', JStr (OPRAI_INTERNAL_API_KEY c)), (''X-User-Wallet'', JStr w),
                    (''amountUsd'', JFloat net)])) (\<lambda>o1.
       return (case o1 of
         Transport_Error cls msg \<Rightarrow> Inl (False, None)
       | Reply status body \<Rightarrow>
           if status = 400 then Inl (True, None)
           else if status \<noteq> 200 then Inl (False, None)
           else (case body of
               Some (JObj kvs) \<Rightarrow> Inr (case map_of kvs ''signature'' of None \<Rightarrow> JNull | Some v \<Rightarrow> v)
             | _ \<Rightarrow> Inl (False, None))))"

definition pay_claim ::
  "settings \<Rightarrow> key_library \<Rightarrow> outside \<Rightarrow> string \<Rightarrow> string \<Rightarrow> string \<Rightarrow> rat \<Rightarrow> rat \<Rightarrow> rat
    \<Rightarrow> ('z world_scheme, (bool \<times> string option) + json \<times> rat \<times> rat) io" where
  "pay_claim c lib env w chain recipient claimable fee net =
     (if chain \<noteq> ''solana'' then
        catch_all (bind (payout lib env chain recipient claimable fee) (\<lambda>x. return (Inr x)))
          (\<lambda>e. return (Inl (is_payout_error e, case e of PayoutError m \<Rightarrow> Some m | _ \<Rightarrow> None)))
      else
        bind (solana_payout c env w net) (\<lambda>r.
          return (case r of Inl x \<Rightarrow> Inl x | Inr sig \<Rightarrow> Inr (sig, fee, net))))"

definition claim_receipt :: "string \<Rightarrow> rat \<Rightarrow> rat \<Rightarrow> rat \<Rightarrow> json \<Rightarrow> json" where
  "claim_receipt chain claimable fee net sig =
     JObj [(''ok'', JBool True), (''chain'', JStr chain),
           (''token'', JStr (case map_of CHAIN_TOKEN chain of None \<Rightarrow> [] | Some x \<Rightarrow> x)),
           (''claimedUsd'', JFloat claimable), (''feeUsd'', JFloat fee), (''netUsd'', JFloat net),
           (''signature'', sig)]"

definition claim_guard ::
  "outside \<Rightarrow> string \<Rightarrow> string \<Rightarrow> string option \<Rightarrow> ('z reward_state_scheme, string option \<times> string) io" where
  "claim_guard env w chain hdr =
     (if chain \<notin> set CLAIM_CHAINS then throw (HttpException 400 ''Unknown chain'')
      else if chain \<noteq> ''solana'' \<and> \<not> treasury_configured env then
        throw (HttpException 400 ((case map_of CHAIN_TOKEN chain of None \<Rightarrow> ''EVM'' | Some x \<Rightarrow> x) @
          '' claiming isn't enabled yet '' @ [CHR 0xE2, CHR 0x80, CHR 0x94] @ '' check back soon.''))
      else
        bind (gets (\<lambda>s. resolve_account_id (views s) w hdr)) (\<lambda>account.
        bind (gets (\<lambda>s. resolve_evm_recipient (views s) w account)) (\<lambda>recipient.
          if chain \<noteq> ''solana'' \<and> or_text_opt recipient [] = []
          then throw (HttpException 400 ''Link an EVM wallet to claim rewards on EVM chains.'')
          else return (account, or_text_opt recipient []))))"

text \<open>An empty account id counts as none.\<close>

definition some_account :: "string option \<Rightarrow> string option" where
  "some_account a = (if or_text_opt a [] = [] then None else a)"

definition claim_cashback ::
  "settings \<Rightarrow> key_library \<Rightarrow> outside \<Rightarrow> string \<Rightarrow> string \<Rightarrow> string option \<Rightarrow> ('z reward_state_scheme, json) io" where
  "claim_cashback c lib env w chain0 hdr =
     (let chain = lower (or_text chain0 ''solana'') in
      bind (claim_guard env w chain hdr) (\<lambda>(account, recipient).
      bind (gets (\<lambda>s. claimable_usd (views s) (cb_rows s) w (some_account account) chain)) (\<lambda>claimable.
      if claimable < MIN_CLAIM_USD then
        throw (HttpException 400 (''Minimum claim is $5 per chain. You have $'' @
          fixed_text False 2 claimable @ '' on '' @ chain @ ''.''))
      else
        let fee = py_round (fmul claimable CLAIM_FEE_PCT) 6; net = py_round (fsub claimable fee) 6 in
        bind (\<lambda>s. case book_claim w account chain claimable s of (s', i) \<Rightarrow> (s', Inr i)) (\<lambda>claim_id.
        bind (pay_claim c lib env w chain recipient claimable fee net) (\<lambda>outcome.
        case outcome of
          Inl (released, reason) \<Rightarrow>
            bind (modify (settle_claim claim_id (if released then CB_Failed else CB_Pending) None)) (\<lambda>_.
              if released \<and> or_text_opt reason [] \<noteq> []
              then throw (HttpException 400 (or_text_opt reason []))
              else throw (HttpException 502
                ''Cashback payout could not be completed right now. Please try again shortly.''))
        | Inr (sig, fee', net') \<Rightarrow>
            bind (modify (settle_claim claim_id CB_Paid (Some sig))) (\<lambda>_.
              return (claim_receipt chain claimable fee' net' sig)))))))"

section \<open>Referrals\<close>

definition redeem_referral :: "string \<Rightarrow> string \<Rightarrow> ('z reward_state_scheme, bool) io" where
  "redeem_referral referee code0 =
     (let code = upper (strip code0) in
      if code = [] then throw (HttpException 422 ''code required'')
      else
        bind (gets (\<lambda>s. find (\<lambda>(_, k). k = code) (referral_codes s))) (\<lambda>ref.
        case ref of
          None \<Rightarrow> throw (HttpException 404 ''invalid code'')
        | Some (referrer, _) \<Rightarrow>
            if referrer = referee then throw (HttpException 400 ''cannot refer yourself'')
            else
              bind (gets (\<lambda>s. (wallet_account (views s) referrer, wallet_account (views s) referee))) (\<lambda>(a, b).
              if a \<noteq> None \<and> b \<noteq> None \<and> a = b then throw (HttpException 400 ''cannot refer your own account'')
              else
                bind (gets (\<lambda>s. has_row (referrals s) referee)) (\<lambda>known.
                bind (modify (\<lambda>s. if known then s
                    else s\<lparr>referrals := referrals s @ [(referee, (referrer, code))]\<rparr>)) (\<lambda>_.
                  return (\<not> known))))))"

section \<open>A rejected payout\<close>

definition no_rejection :: "exn + 'a \<Rightarrow> bool" where
  "no_rejection r \<longleftrightarrow> (\<forall>m. r \<noteq> Inl (PayoutError m))"

lemma no_rejection_pure:
  "no_rejection (raise_for_status o1)" "no_rejection (or_raise ValueError b)" "no_rejection (field k j)"
  "no_rejection (item k j)" "no_rejection (float_of j)" "no_rejection (hex_text j)"
  by (auto simp: no_rejection_def raise_for_status_def or_raise_def field_def item_def float_of_def hex_text_def
      split: http_outcome.splits option.splits json.splits if_splits)

lemma no_rejection_then: "no_rejection r \<Longrightarrow> (\<And>a. no_rejection (f a)) \<Longrightarrow> no_rejection (then_sum r f)"
  by (cases r) (auto simp: no_rejection_def)

lemma payout_rpc_once:
  assumes "payout_rpc env url m ps w = (w', r)"
  shows "looks w' = looks w + 1" "no_rejection r"
proof -
  have "no_rejection (then_sum (raise_for_status o1) (or_raise ValueError))" for o1
    by (intro no_rejection_then no_rejection_pure)
  then show "looks w' = looks w + 1" "no_rejection r"
    using assms no_rejection_pure
    by (auto simp: payout_rpc_def io_simps bind_def no_rejection_def split: sum.splits if_splits prod.splits)
qed

lemma price_once:
  assumes "native_price_usd env cg w = (w', r)"
  shows "looks w' = looks w + 1"
  using assms by (auto simp: native_price_usd_def io_simps bind_def)

lemma send_payout_no_rejection:
  "send_payout lib env acct cid url rcpt g v w = (w', r) \<Longrightarrow> no_rejection r"
  using payout_rpc_once(2) no_rejection_pure(6)
  by (fastforce simp: send_payout_def io_simps bind_def Let_def no_rejection_def split: sum.splits prod.splits)

text \<open>C18: a payout that ends in a rejection has asked for nothing but the price and the gas price:
  neither the nonce nor the broadcast was reached, so releasing the claim cannot pay it twice.
  The broadcast is the fourth request of a payout.\<close>

theorem rejected_payout_sends_nothing:
  assumes "payout lib env chain recipient claimable fee w = (w', Inl (PayoutError m))"
  shows "looks w' \<le> looks w + 2"
proof (cases "treasury_account lib env")
  case None
  then show ?thesis using assms by (simp add: payout_def io_simps)
next
  case (Some acct)
  show ?thesis
  proof (cases "map_of EVM_CHAINS chain")
    case None
    then show ?thesis using assms Some by (simp add: payout_def io_simps)
  next
    case found: (Some x)
    obtain cid url cg where x: "x = (cid, url, cg)" by (cases x) auto
    obtain w1 r1 where 1: "native_price_usd env cg w = (w1, r1)" by fastforce
    obtain w2 r2 where 2: "payout_rpc env url ''eth_gasPrice'' [] w1 = (w2, r2)" by fastforce
    note count = price_once [OF 1] payout_rpc_once(1) [OF 2]
    have sent: "send_payout lib env acct cid url recipient g v u \<noteq> (u', Inl (PayoutError m))" for g v u u'
      using send_payout_no_rejection by (fastforce simp: no_rejection_def)
    show ?thesis
      using assms Some found x 1 2 count sent
      by (auto simp: payout_def io_simps bind_def Let_def split: sum.splits if_splits prod.splits)
  qed
qed

definition small_env :: outside where
  "small_env = outage\<lparr>http := (\<lambda>n verb url p. Reply 200 (Some
       (if n = 0 then JObj [(''ethereum'', JObj [(''usd'', JInt 1)])] else JObj [(''result'', JStr ''0x0'')]))),
     env_var := (\<lambda>name. Some ''0xkey'')\<rparr>"

definition toy_keys :: key_library where
  "toy_keys = \<lparr>key_address = Some, sign_raw = (\<lambda>tx key. ''0x'')\<rparr>"

definition recipient_example :: string where
  "recipient_example = ''0xb0E580Cf95E2B045b99b31ddF3137D3D88d55b8E''"

theorem rejected_payout_sends_nothing_witness:
  "\<exists>w' m. payout toy_keys small_env ''base'' recipient_example 0 0 cache_example = (w', Inl (PayoutError m)) \<and>
     looks w' \<le> 2"
proof -
  have acct: "treasury_account toy_keys small_env = Some (''0xkey'', ''0xkey'')"
    unfolding treasury_account_def treasury_key_def env_text_def toy_keys_def small_env_def by code_simp
  have zero: "hex_text (JStr ''0x0'') = Inr 0" by code_simp
  have rcpt: "startswith recipient_example ''0x'' \<and> length recipient_example = 42" by code_simp
  have fee: "payout_fee 0 1 0 = 0" "payout_net 0 0 = 0"
    using rhe_of_int [of 0] by (simp_all add: payout_fee_def payout_net_def float_ops py_round_def f64.fl_zero)
  have price: "native_price_usd small_env ''ethereum'' cache_example = (cache_example\<lparr>looks := 1\<rparr>, Inr 1)"
    by (simp add: native_price_usd_def small_env_def cache_example_def io_simps bind_def raise_for_status_def
        item_def float_of_def to_float_small)
  have gas: "payout_rpc small_env url ''eth_gasPrice'' [] (cache_example\<lparr>looks := 1\<rparr>) =
      (cache_example\<lparr>looks := 2\<rparr>, Inr (JStr ''0x0''))" for url
    by (simp add: payout_rpc_def small_env_def io_simps bind_def raise_for_status_def item_def cache_example_def)
  have "\<exists>w' m. payout toy_keys small_env ''base'' recipient_example 0 0 cache_example = (w', Inl (PayoutError m))"
    using rcpt by (simp add: payout_def acct EVM_CHAINS_def bind_def price gas [simplified] zero fee io_simps)
  then obtain w' m where run: "payout toy_keys small_env ''base'' recipient_example 0 0 cache_example =
      (w', Inl (PayoutError m))" by blast
  then show ?thesis using rejected_payout_sends_nothing [OF run] by (simp add: cache_example_def)
qed

section \<open>Claims side by side\<close>

text \<open>
  Several claims at once. A claim's transaction takes the advisory lock of its key, reads what is
  claimable, and books the row when it commits; then it pays and settles. The lock is held from
  the reading to the booking, so two claims are between them only with different keys. Meanwhile
  earnings may grow.
\<close>

record claim_request =
  rq_wallet :: string
  rq_account :: "string option"
  rq_chain :: string

datatype claim_phase = Asking | Locked rat | Paying int | Closed

type_synonym claim_session = "claim_request \<times> claim_phase"

definition claim_lock_key :: "claim_request \<Rightarrow> string" where
  "claim_lock_key q = or_text_opt (rq_account q) (rq_wallet q) @ '':'' @ rq_chain q"

definition session_reads :: "reward_state \<Rightarrow> claim_request \<Rightarrow> rat" where
  "session_reads s q = claimable_usd (views s) (cb_rows s) (rq_wallet q) (some_account (rq_account q)) (rq_chain q)"

definition lock_free :: "claim_request \<Rightarrow> claim_session list \<Rightarrow> bool" where
  "lock_free q ss \<longleftrightarrow> (\<forall>(q', ph)\<in>set ss. case ph of Locked _ \<Rightarrow> claim_lock_key q' \<noteq> claim_lock_key q | _ \<Rightarrow> True)"

definition earned_on :: "reward_views \<Rightarrow> string \<Rightarrow> string \<Rightarrow> rat" where
  "earned_on v a chain =
     or_zero (own_by_chain v a chain) + (if chain = ''solana'' then or_zero (referral_of v a) else 0)"

definition views_grow :: "reward_views \<Rightarrow> reward_views \<Rightarrow> bool" where
  "views_grow v v' \<longleftrightarrow>
     (\<forall>a chain. or_zero (own_by_chain v a chain) \<le> or_zero (own_by_chain v' a chain)) \<and>
     (\<forall>a. or_zero (referral_of v a) \<le> or_zero (referral_of v' a))"

inductive claim_step :: "reward_state \<times> claim_session list \<Rightarrow> reward_state \<times> claim_session list \<Rightarrow> bool" where
  refuse_small: "i < length ss \<Longrightarrow> ss ! i = (q, Asking) \<Longrightarrow> lock_free q ss \<Longrightarrow>
     session_reads s q < MIN_CLAIM_USD \<Longrightarrow> claim_step (s, ss) (s, ss[i := (q, Closed)])"
| read_claim: "i < length ss \<Longrightarrow> ss ! i = (q, Asking) \<Longrightarrow> lock_free q ss \<Longrightarrow>
     \<not> session_reads s q < MIN_CLAIM_USD \<Longrightarrow>
     claim_step (s, ss) (s, ss[i := (q, Locked (session_reads s q))])"
| book: "i < length ss \<Longrightarrow> ss ! i = (q, Locked x) \<Longrightarrow>
     book_claim (rq_wallet q) (rq_account q) (rq_chain q) x s = (s', n) \<Longrightarrow>
     claim_step (s, ss) (s', ss[i := (q, Paying n)])"
| settle: "i < length ss \<Longrightarrow> ss ! i = (q, Paying n) \<Longrightarrow>
     claim_step (s, ss) (settle_claim n st sig s, ss[i := (q, Closed)])"
| earn: "views_grow (views s) v \<Longrightarrow> claim_step (s, ss) (s\<lparr>views := v\<rparr>, ss)"

inductive claim_runs :: "reward_state \<times> claim_session list \<Rightarrow> reward_state \<times> claim_session list \<Rightarrow> bool" where
  claim_done: "claim_runs c c"
| claim_more: "claim_step c d \<Longrightarrow> claim_runs d e \<Longrightarrow> claim_runs c e"

section \<open>An account is never paid more than it earned\<close>

text \<open>What is booked and what is about to be, for one account and chain.\<close>

definition session_holds :: "string \<Rightarrow> string \<Rightarrow> claim_session \<Rightarrow> bool" where
  "session_holds a chain x \<longleftrightarrow> rq_account (fst x) = Some a \<and> rq_chain (fst x) = chain"

definition SLACK :: rat where "SLACK = 1 + 1 / 10 ^ 12"

definition claims_fit :: "reward_state \<Rightarrow> bool" where
  "claims_fit s \<longleftrightarrow> (\<forall>a chain. a \<noteq> [] \<longrightarrow>
     claimed_total (of_account a chain) (cb_rows s) \<le> earned_on (views s) a chain * SLACK)"

definition session_fits :: "reward_state \<Rightarrow> claim_session \<Rightarrow> bool" where
  "session_fits s y \<longleftrightarrow> (\<forall>q x. y = (q, Locked x) \<longrightarrow> 0 \<le> x \<and>
     (\<forall>a. rq_account q = Some a \<and> a \<noteq> [] \<longrightarrow>
       claimed_total (of_account a (rq_chain q)) (cb_rows s) + x \<le> earned_on (views s) a (rq_chain q) * SLACK))"

definition reads_fit :: "reward_state \<Rightarrow> claim_session list \<Rightarrow> bool" where
  "reads_fit s ss \<longleftrightarrow> (\<forall>i<length ss. session_fits s (ss ! i))"

lemma session_fitsD:
  assumes "reads_fit s ss" "i < length ss" "ss ! i = (q, Locked x)"
  shows "0 \<le> x" "rq_account q = Some a \<Longrightarrow> a \<noteq> [] \<Longrightarrow>
    claimed_total (of_account a (rq_chain q)) (cb_rows s) + x \<le> earned_on (views s) a (rq_chain q) * SLACK"
  using assms by (auto simp: reads_fit_def session_fits_def)

lemma reads_fit_update:
  assumes "i < length ss" "\<And>j. j < length ss \<Longrightarrow> j \<noteq> i \<Longrightarrow> session_fits s (ss ! j)" "session_fits s y"
  shows "reads_fit s (ss[i := y])"
  using assms by (simp add: reads_fit_def nth_list_update)

definition locks_apart :: "claim_session list \<Rightarrow> bool" where
  "locks_apart ss \<longleftrightarrow> (\<forall>i<length ss. \<forall>j<length ss. \<forall>q x r y. i \<noteq> j \<and> ss ! i = (q, Locked x) \<and> ss ! j = (r, Locked y) \<longrightarrow>
     claim_lock_key q \<noteq> claim_lock_key r)"

definition payments_open :: "reward_state \<Rightarrow> claim_session list \<Rightarrow> bool" where
  "payments_open s ss \<longleftrightarrow> (\<forall>i<length ss. \<forall>q n. ss ! i = (q, Paying n) \<longrightarrow>
     (\<exists>r. row_of (cb_rows s) n = Some r \<and> cb_status r = CB_Pending)) \<and>
     (\<forall>i<length ss. \<forall>j<length ss. \<forall>q r n. i \<noteq> j \<and> ss ! i = (q, Paying n) \<longrightarrow> ss ! j \<noteq> (r, Paying n))"

definition rows_sane :: "reward_state \<Rightarrow> bool" where
  "rows_sane s \<longleftrightarrow> keyed (cb_rows s) \<and> (\<forall>(n, r)\<in>set (cb_rows s). n < cb_next s \<and> 0 \<le> cb_amount r) \<and>
     (\<forall>a chain. 0 \<le> or_zero (own_by_chain (views s) a chain)) \<and> (\<forall>a. 0 \<le> or_zero (referral_of (views s) a))"

definition claims_inv :: "reward_state \<times> claim_session list \<Rightarrow> bool" where
  "claims_inv c \<longleftrightarrow> (case c of (s, ss) \<Rightarrow>
     rows_sane s \<and> claims_fit s \<and> reads_fit s ss \<and> locks_apart ss \<and> payments_open s ss)"

lemma claimed_append:
  "claimed_total p (t @ [(n, r)]) = claimed_total p t + (if p r \<and> claim_counts r then cb_amount r else 0)"
  by (simp add: claimed_total_def)

lemma claimed_nonneg: "\<forall>(n, r)\<in>set t. 0 \<le> cb_amount r \<Longrightarrow> 0 \<le> claimed_total p t"
  unfolding claimed_total_def by (intro sum_list_nonneg) auto

text \<open>Reading keeps the total within the earnings: the three roundings cost less than the slack.\<close>

lemma read_within:
  fixes o1 r1 T :: rat
  assumes "0 \<le> o1" "0 \<le> r1" "0 \<le> T" and x: "x = max 0 (fsub (fadd (b64 o1) (b64 r1)) (b64 T))" and pos: "0 < x"
  shows "T + x \<le> (o1 + r1) * SLACK"
proof -
  let ?e = "1 / 2 ^ 53 :: rat" and ?A = "fadd (b64 o1) (b64 r1)"
  have A: "?A \<le> (b64 o1 + b64 r1) * (1 + ?e)"
    unfolding fadd_def using assms(1,2) by (intro f64.fl_upper) (simp add: f64.fl_nonneg)
  note o = f64.fl_upper [OF assms(1)] f64.fl_upper [OF assms(2)]
  have x': "x = b64 (?A - b64 T)" using x pos by (auto simp: fsub_def max_def split: if_splits)
  have "0 < ?A - b64 T" using pos x' f64.fl_nonpos [of "?A - b64 T"] by (cases "?A - b64 T \<le> 0") auto
  note gap = this
  have "0 \<le> ?A - b64 T" using gap by simp
  note d = f64.fl_upper [OF this, folded x'] gap
  note T = f64.fl_lower [OF assms(3)] f64.fl_nonneg [OF assms(3)]
  have "(b64 o1 + b64 r1) * (1 + ?e) \<le> (o1 + r1) * (1 + 3 / 2 ^ 53)" using o assms(1,2) by simp
  then have A': "?A \<le> (o1 + r1) * (1 + 3 / 2 ^ 53)" using A by linarith
  have "T \<le> b64 T * (1 + 2 / 2 ^ 53)" using T by simp
  then have "T + x \<le> b64 T * (1 + 2 / 2 ^ 53) + (?A - b64 T) * (1 + ?e)" using d by linarith
  also have "\<dots> \<le> b64 T * (1 + 2 / 2 ^ 53) + (?A - b64 T) * (1 + 2 / 2 ^ 53)"
    using gap by (intro add_left_mono mult_left_mono) simp_all
  also have "\<dots> = ?A * (1 + 2 / 2 ^ 53)" by (simp only: distrib_right [symmetric]) simp
  also have "\<dots> \<le> (o1 + r1) * (1 + 3 / 2 ^ 53) * (1 + 2 / 2 ^ 53)" using A' by (intro mult_right_mono) simp_all
  also have "\<dots> \<le> (o1 + r1) * SLACK" using assms(1,2) by (simp add: SLACK_def)
  finally show ?thesis .
qed

lemma claimed_settle:
  assumes "keyed t" "row_of t n = Some r0" "cb_status r0 = CB_Pending" "\<forall>(i, r)\<in>set t. 0 \<le> cb_amount r"
    "\<And>r. p (f r) = p r" "\<And>r. cb_amount (f r) = cb_amount r"
  shows "claimed_total p (update_where (\<lambda>k _. k = n) f t) \<le> claimed_total p t"
proof -
  have pending: "cb_status r = CB_Pending" if "(n, r) \<in> set t" for r
    using that assms(1-3) keyed_row_of by force
  then show ?thesis using assms(4) unfolding claimed_total_def update_where_def
    using assms(5,6)
  proof (induction t)
    case (Cons x t)
    obtain k r where x: "x = (k, r)" by fastforce
    have "claim_counts r" if "k = n" using Cons.prems(1) x that by (auto simp: claim_counts_def)
    moreover have "0 \<le> cb_amount r" using Cons.prems(2) x by auto
    ultimately show ?case using Cons x by (auto simp: add_increasing)
  qed simp
qed

lemma fresh_row: "rows_sane s \<Longrightarrow> row_of (cb_rows s) (cb_next s) = None"
  by (cases "row_of (cb_rows s) (cb_next s)") (auto simp: rows_sane_def dest!: row_of_in)

lemma session_reads_fit:
  assumes "rows_sane s" "rq_account q = Some a" "a \<noteq> []" "\<not> session_reads s q < MIN_CLAIM_USD"
  shows "claimed_total (of_account a (rq_chain q)) (cb_rows s) + session_reads s q \<le>
    earned_on (views s) a (rq_chain q) * SLACK"
proof -
  let ?o = "or_zero (own_by_chain (views s) a (rq_chain q))"
  let ?r = "if rq_chain q = ''solana'' then or_zero (referral_of (views s) a) else 0"
  let ?T = "claimed_total (of_account a (rq_chain q)) (cb_rows s)"
  have "0 \<le> ?o" "0 \<le> ?r" using assms(1) by (auto simp: rows_sane_def)
  moreover have "0 \<le> ?T" using assms(1) by (intro claimed_nonneg) (auto simp: rows_sane_def)
  moreover have "session_reads s q = max 0 (fsub (fadd (b64 ?o) (b64 ?r)) (b64 ?T))"
    using assms(2,3) by (auto simp: session_reads_def claimable_usd_def some_account_def or_text_opt_def or_text_def f64.fl_zero)
  moreover have "0 < session_reads s q" using assms(4) by (simp add: MIN_CLAIM_USD_def)
  ultimately show ?thesis unfolding earned_on_def by (rule read_within)
qed

lemma update_nth: "j < length ss \<Longrightarrow> ss[i := y] ! j = (if j = i then y else ss ! j)"
  by (cases "i < length ss") auto

lemma reads_update: "reads_fit s ss \<Longrightarrow> (\<And>x. ph \<noteq> Locked x) \<Longrightarrow> reads_fit s (ss[i := (q, ph)])"
  by (simp add: reads_fit_def session_fits_def update_nth)

lemma locks_update: "locks_apart ss \<Longrightarrow> (\<And>x. ph \<noteq> Locked x) \<Longrightarrow> locks_apart (ss[i := (q, ph)])"
  unfolding locks_apart_def by (simp add: update_nth)

lemma open_row:
  assumes "payments_open s ss" "i < length ss" "ss ! i = (q, Paying n)"
  shows "\<exists>r. row_of (cb_rows s) n = Some r \<and> cb_status r = CB_Pending"
  using assms unfolding payments_open_def by blast

lemma open_apart:
  assumes "payments_open s ss" "i < length ss" "j < length ss" "i \<noteq> j" "ss ! i = (q, Paying n)"
  shows "ss ! j \<noteq> (r, Paying n)"
  using assms unfolding payments_open_def by blast

lemma payments_openI:
  assumes "\<And>i q n. i < length ss \<Longrightarrow> ss ! i = (q, Paying n) \<Longrightarrow>
      \<exists>r. row_of (cb_rows s) n = Some r \<and> cb_status r = CB_Pending"
    and "\<And>i j q r n. i < length ss \<Longrightarrow> j < length ss \<Longrightarrow> i \<noteq> j \<Longrightarrow> ss ! i = (q, Paying n) \<Longrightarrow>
      ss ! j \<noteq> (r, Paying n)"
  shows "payments_open s ss"
  using assms unfolding payments_open_def by blast

lemma payments_update:
  assumes "payments_open s ss" "\<And>n. ph \<noteq> Paying n"
  shows "payments_open s (ss[i := (q, ph)])"
proof (rule payments_openI)
  fix j q' n assume j: "j < length (ss[i := (q, ph)])" "ss[i := (q, ph)] ! j = (q', Paying n)"
  have old: "ss ! j = (q', Paying n)" "j < length ss" using j assms(2) by (auto simp: update_nth split: if_splits)
  show "\<exists>r. row_of (cb_rows s) n = Some r \<and> cb_status r = CB_Pending"
    using open_row [OF assms(1) old(2,1)] .
  fix k r assume k: "k < length (ss[i := (q, ph)])" "j \<noteq> k"
  then show "ss[i := (q, ph)] ! k \<noteq> (r, Paying n)"
    using open_apart [OF assms(1) old(2) _ k(2) old(1), of r] assms(2) by (auto simp: update_nth)
qed

lemmas sessions_update = reads_update locks_update payments_update

lemma settle_rows:
  "(k, r) \<in> set (update_where p f t) \<Longrightarrow> \<exists>r0. (k, r0) \<in> set t \<and> (r = r0 \<or> r = f r0)"
  by (auto simp: update_where_def split: if_splits)

lemma inv_read:
  assumes inv: "claims_inv (s, ss)" and i: "i < length ss" "ss ! i = (q, Asking)" "lock_free q ss"
    and big: "\<not> session_reads s q < MIN_CLAIM_USD"
  shows "claims_inv (s, ss[i := (q, Locked (session_reads s q))])"
proof -
  have free: "claim_lock_key q' \<noteq> claim_lock_key q" if "j < length ss" "ss ! j = (q', Locked y)" for j q' y
    using i(3) that nth_mem [OF that(1)] by (force simp: lock_free_def)
  have "0 \<le> session_reads s q" using big by (simp add: MIN_CLAIM_USD_def)
  moreover have "claimed_total (of_account a (rq_chain q)) (cb_rows s) + session_reads s q \<le>
      earned_on (views s) a (rq_chain q) * SLACK" if "rq_account q = Some a" "a \<noteq> []" for a
    using inv that big by (intro session_reads_fit) (auto simp: claims_inv_def)
  ultimately have "session_fits s (q, Locked (session_reads s q))" by (simp add: session_fits_def)
  then have "reads_fit s (ss[i := (q, Locked (session_reads s q))])"
    using inv i(1) by (intro reads_fit_update) (auto simp: claims_inv_def reads_fit_def)
  moreover have "locks_apart (ss[i := (q, Locked (session_reads s q))])"
    using inv free i(1) by (auto simp: claims_inv_def locks_apart_def nth_list_update) metis+
  moreover have "payments_open s (ss[i := (q, Locked (session_reads s q))])"
    using inv by (intro sessions_update) (auto simp: claims_inv_def)
  ultimately show ?thesis using inv by (simp add: claims_inv_def)
qed

lemma inv_book:
  assumes inv: "claims_inv (s, ss)" and i: "i < length ss" "ss ! i = (q, Locked x)"
    and b: "book_claim (rq_wallet q) (rq_account q) (rq_chain q) x s = (s', n)"
  shows "claims_inv (s', ss[i := (q, Paying n)])"
proof -
  let ?row = "\<lparr>cb_wallet = rq_wallet q, cb_account = rq_account q, cb_chain = rq_chain q, cb_amount = x,
    cb_status = CB_Pending, cb_signature = None\<rparr>"
  have sane: "rows_sane s" and fit: "claims_fit s" and reads: "reads_fit s ss" and apart: "locks_apart ss"
    and opened: "payments_open s ss"
    using inv by (simp_all add: claims_inv_def)
  have s': "cb_rows s' = cb_rows s @ [(n, ?row)]" "cb_next s' = n + 1" "views s' = views s" "n = cb_next s"
    using b by (auto simp: book_claim_def)
  note own = session_fitsD [OF reads i]
  note x = own(1)
  have fresh: "row_of (cb_rows s) n = None" using fresh_row [OF sane] s'(4) by simp
  have total: "claimed_total (of_account a chain) (cb_rows s') =
      claimed_total (of_account a chain) (cb_rows s) + (if rq_account q = Some a \<and> rq_chain q = chain then x else 0)" for a chain
    by (simp add: s' claimed_append of_account_def claim_counts_def)
  have "n \<notin> fst ` set (cb_rows s)" using sane s'(4) by (auto simp: rows_sane_def)
  then have "rows_sane s'" using sane x s' by (auto simp: rows_sane_def keyed_def)
  moreover have "claims_fit s'" unfolding claims_fit_def total s'(3)
    using fit own(2) by (auto simp: claims_fit_def)
  moreover have "reads_fit s' (ss[i := (q, Paying n)])"
  proof -
    have "session_fits s' (ss ! j)" if j: "j < length ss" "j \<noteq> i" for j
      unfolding session_fits_def
    proof (intro allI impI conjI)
      fix q' y assume l: "ss ! j = (q', Locked y)"
      note theirs = session_fitsD [OF reads j(1) l]
      show "0 \<le> y" by (rule theirs(1))
      fix a assume a: "rq_account q' = Some a \<and> a \<noteq> []"
      have "claim_lock_key q' \<noteq> claim_lock_key q" using apart j l i by (auto simp: locks_apart_def)
      then have "\<not> (rq_account q = Some a \<and> rq_chain q = rq_chain q')"
        using a by (auto simp: claim_lock_key_def or_text_opt_def or_text_def)
      then show "claimed_total (of_account a (rq_chain q')) (cb_rows s') + y \<le> earned_on (views s') a (rq_chain q') * SLACK"
        using theirs(2) a by (auto simp: total s'(3))
    qed
    then show ?thesis using i(1) by (intro reads_fit_update) (auto simp: session_fits_def)
  qed
  moreover have "locks_apart (ss[i := (q, Paying n)])" using apart by (rule sessions_update) simp
  moreover have "payments_open s' (ss[i := (q, Paying n)])"
  proof (rule payments_openI)
    have other: "ss ! j \<noteq> (r, Paying n)" if "j < length ss" for j r
      using open_row [OF opened that] fresh by force
    show "\<exists>r. row_of (cb_rows s') m = Some r \<and> cb_status r = CB_Pending"
      if j: "j < length (ss[i := (q, Paying n)])" "ss[i := (q, Paying n)] ! j = (q', Paying m)" for j q' m
    proof (cases "j = i")
      case True
      then show ?thesis using j fresh by (simp add: update_nth s'(1) row_of_snoc)
    next
      case False
      then show ?thesis using j open_row [OF opened, of j q' m] by (auto simp: update_nth s'(1) row_of_snoc)
    qed
    show "ss[i := (q, Paying n)] ! k \<noteq> (r, Paying m)"
      if j: "j < length (ss[i := (q, Paying n)])" "k < length (ss[i := (q, Paying n)])" "j \<noteq> k"
        "ss[i := (q, Paying n)] ! j = (q', Paying m)" for j k q' r m
      using j other open_apart [OF opened, of j k q' m r] by (auto simp: update_nth split: if_splits)
  qed
  ultimately show ?thesis by (simp add: claims_inv_def)
qed

lemma inv_settle:
  assumes inv: "claims_inv (s, ss)" and i: "i < length ss" "ss ! i = (q, Paying n)"
  shows "claims_inv (settle_claim n st sig s, ss[i := (q, Closed)])"
proof -
  let ?s = "settle_claim n st sig s"
  have sane: "rows_sane s" and fit: "claims_fit s" and reads: "reads_fit s ss" and apart: "locks_apart ss"
    and opened: "payments_open s ss"
    using inv by (simp_all add: claims_inv_def)
  have same: "views ?s = views s" "cb_next ?s = cb_next s" by (simp_all add: settle_claim_def)
  obtain r0 where r0: "row_of (cb_rows s) n = Some r0" "cb_status r0 = CB_Pending"
    using open_row [OF opened i] by blast
  have total: "claimed_total (of_account a chain) (cb_rows ?s) \<le> claimed_total (of_account a chain) (cb_rows s)" for a chain
    unfolding settle_claim_def using sane r0
    by (auto intro!: claimed_settle simp: rows_sane_def of_account_def)
  have "rows_sane ?s" using sane by (auto simp: rows_sane_def settle_claim_def dest!: settle_rows)
  moreover have "claims_fit ?s" unfolding claims_fit_def same
    using fit total by (fastforce simp: claims_fit_def intro: order_trans)
  moreover have "reads_fit ?s (ss[i := (q, Closed)])"
  proof (rule sessions_update)
    have "claimed_total (of_account a c) (cb_rows ?s) + x \<le> e" if "claimed_total (of_account a c) (cb_rows s) + x \<le> e" for a c x e
      using total [of a c] that by linarith
    then show "reads_fit ?s ss" using reads unfolding reads_fit_def session_fits_def same by blast
  qed simp
  moreover have "locks_apart (ss[i := (q, Closed)])" using apart by (rule sessions_update) simp
  moreover have "payments_open ?s (ss[i := (q, Closed)])"
  proof (rule payments_openI)
    show "\<exists>r. row_of (cb_rows ?s) m = Some r \<and> cb_status r = CB_Pending"
      if j: "j < length (ss[i := (q, Closed)])" "ss[i := (q, Closed)] ! j = (q', Paying m)" for j q' m
    proof -
      have j': "j \<noteq> i" "ss ! j = (q', Paying m)" "j < length ss" using j by (auto simp: update_nth split: if_splits)
      then have "m \<noteq> n" using open_apart [OF opened i(1) j'(3) _ i(2)] by auto
      then show ?thesis using open_row [OF opened j'(3,2)] by (auto simp: settle_claim_def)
    qed
    show "ss[i := (q, Closed)] ! k \<noteq> (r, Paying m)"
      if j: "j < length (ss[i := (q, Closed)])" "k < length (ss[i := (q, Closed)])" "j \<noteq> k"
        "ss[i := (q, Closed)] ! j = (q', Paying m)" for j k q' r m
      using j open_apart [OF opened, of j k q' m r] by (auto simp: update_nth split: if_splits)
  qed
  ultimately show ?thesis by (simp add: claims_inv_def)
qed

lemma inv_earn:
  assumes inv: "claims_inv (s, ss)" and grow: "views_grow (views s) v"
  shows "claims_inv (s\<lparr>views := v\<rparr>, ss)"
proof -
  have more: "earned_on (views s) a c * SLACK \<le> earned_on v a c * SLACK" for a c
    using grow by (intro mult_right_mono) (auto simp: earned_on_def views_grow_def SLACK_def intro: add_mono)
  have "0 \<le> or_zero (own_by_chain (views s) a c)" "0 \<le> or_zero (referral_of (views s) a)"
    "or_zero (own_by_chain (views s) a c) \<le> or_zero (own_by_chain v a c)"
    "or_zero (referral_of (views s) a) \<le> or_zero (referral_of v a)" for a c
    using inv grow by (simp_all add: claims_inv_def rows_sane_def views_grow_def)
  then have "0 \<le> or_zero (own_by_chain v a c)" "0 \<le> or_zero (referral_of v a)" for a c
    by (blast intro: order_trans)+
  then have "rows_sane (s\<lparr>views := v\<rparr>)" using inv by (simp add: claims_inv_def rows_sane_def)
  have lift: "x \<le> earned_on v a c * SLACK" if "x \<le> earned_on (views s) a c * SLACK" for x a c
    using that more by (rule order_trans)
  have old: "claims_fit s" "reads_fit s ss" "locks_apart ss" "payments_open s ss"
    using inv by (simp_all add: claims_inv_def)
  have fit: "claims_fit (s\<lparr>views := v\<rparr>)"
    using old(1) lift unfolding claims_fit_def by simp
  have reads: "reads_fit (s\<lparr>views := v\<rparr>) ss"
    unfolding reads_fit_def session_fits_def
  proof (intro allI impI conjI)
    fix i q x a assume l: "i < length ss" "ss ! i = (q, Locked x)"
    show "0 \<le> x" using old(2) l by (rule session_fitsD)
    assume a: "rq_account q = Some a \<and> a \<noteq> []"
    have "claimed_total (of_account a (rq_chain q)) (cb_rows s) + x \<le> earned_on (views s) a (rq_chain q) * SLACK"
      using a by (intro session_fitsD [OF old(2) l]) simp_all
    from lift [OF this] show "claimed_total (of_account a (rq_chain q)) (cb_rows (s\<lparr>views := v\<rparr>)) + x \<le>
        earned_on (views (s\<lparr>views := v\<rparr>)) a (rq_chain q) * SLACK" by simp
  qed
  have same: "cb_rows (s\<lparr>views := v\<rparr>) = cb_rows s" by simp
  have "payments_open (s\<lparr>views := v\<rparr>) ss" using old(4) unfolding payments_open_def same .
  then show ?thesis using \<open>rows_sane (s\<lparr>views := v\<rparr>)\<close> fit reads old(3) by (simp add: claims_inv_def)
qed

lemma inv_step: "claim_step c d \<Longrightarrow> claims_inv c \<Longrightarrow> claims_inv d"
proof (induction rule: claim_step.induct)
  case (refuse_small i ss q s)
  then show ?case by (simp add: claims_inv_def reads_update locks_update payments_update)
qed (simp_all add: inv_read inv_book inv_settle inv_earn)

lemma inv_runs: "claim_runs c d \<Longrightarrow> claims_inv c \<Longrightarrow> claims_inv d"
  by (induction rule: claim_runs.induct) (simp_all add: inv_step)


definition views_example :: reward_views where
  "views_example = \<lparr>wallet_account = (\<lambda>w. if w = ''w1'' then Some ''acc'' else None),
     account_evm_wallet = (\<lambda>a. None), own_by_chain = (\<lambda>a c. if c = ''solana'' then Some 100 else None),
     referral_of = (\<lambda>a. None), wallet_earned = (\<lambda>w. Some 100)\<rparr>"

definition rewards_example :: reward_state where
  "rewards_example = \<lparr>looks = 0, slept = 0, on_fallback = False, primary_stale = False, lag_checked_at = 0,
     views = views_example, cb_rows = [], cb_next = 1, referral_codes = [], referrals = []\<rparr>"

lemma hundred: "b64 100 = 100" "b64 0 = 0"
  using to_float_small [of 100] f64.fl_zero by (simp_all add: to_float_def)

lemma reads_hundred:
  "views s = views_example \<Longrightarrow> cb_rows s = [] \<Longrightarrow>
     session_reads s \<lparr>rq_wallet = ''w1'', rq_account = Some ''acc'', rq_chain = ''solana''\<rparr> = 100"
  "views s = views_example \<Longrightarrow> cb_rows s = [] \<Longrightarrow>
     session_reads s \<lparr>rq_wallet = ''w2'', rq_account = None, rq_chain = c\<rparr> = 100"
  by (simp_all add: session_reads_def claimable_usd_def some_account_def or_text_opt_def or_text_def or_zero_def
      views_example_def claimed_total_def wallet_claimable_def float_ops hundred)



end
