(* ===== verification/Chunkers.thy ===== *)
theory Chunkers
  imports Py_Pieces World
begin

text \<open>
  Cutting a document into chunks, \<open>knowledge-ingestion-service/app/chunkers\<close>: by markdown headings,
  around code fences, by words with an overlap, by windows of sentences, and the router
  \<open>services/chunker_router.py\<close> that picks one by content type.
\<close>

section \<open>Packing paragraphs\<close>

record chunk =
  ch_text :: string
  ch_path :: string
  ch_index :: nat

text \<open>The loop both character-limited chunkers share: a paragraph joins the buffer while it fits.\<close>

fun pack_paragraphs :: "int \<Rightarrow> string \<Rightarrow> string list \<Rightarrow> string list" where
  "pack_paragraphs m buf [] = (if buf \<noteq> [] then [buf] else [])"
| "pack_paragraphs m buf (p # ps) =
     (if int (length buf) + int (length p) + 2 \<le> m
      then pack_paragraphs m (strip (buf @ [LF, LF] @ p)) ps
      else (if buf \<noteq> [] then [buf] else []) @ pack_paragraphs m (slice_to m p) ps)"

fun number_chunks :: "string \<Rightarrow> nat \<Rightarrow> string list \<Rightarrow> chunk list" where
  "number_chunks path i [] = []"
| "number_chunks path i (t # ts) = \<lparr>ch_text = t, ch_path = path, ch_index = i\<rparr> # number_chunks path (i + 1) ts"

definition paragraph_split :: "string \<Rightarrow> int \<Rightarrow> chunk list" where
  "paragraph_split text m = number_chunks [] 0 (pack_paragraphs m [] (paragraphs_of text))"

section \<open>Headings\<close>

definition HASH :: char where "HASH = CHR 0x23"

text \<open>\<open>^(#{1,6})\s+(.+)$\<close> at the start of a line: the level, the title and the text after it. The
  whitespace may span line feeds; when nothing else follows it, the title is its last character
  that is not a line feed.\<close>

definition match_heading :: "string \<Rightarrow> (nat \<times> string \<times> string) option" where
  "match_heading s =
     (let hs = takeWhile (\<lambda>c. c = HASH) s; r = drop (length hs) s;
          sp = takeWhile is_space r; after = drop (length sp) r
      in if hs = [] \<or> 6 < length hs \<or> sp = [] then None
         else if after \<noteq> []
           then Some (length hs, takeWhile (\<lambda>c. c \<noteq> LF) after, dropWhile (\<lambda>c. c \<noteq> LF) after)
         else
           let t = rstrip_chars [LF] (tl sp)
           in if t = [] then None else Some (length hs, [last t], drop (length t + 1) sp))"

lemma match_heading_shorter:
  assumes "match_heading s = Some (h, t, r)" shows "length r < length s"
proof -
  let ?hs = "takeWhile (\<lambda>c. c = HASH) s"
  let ?r = "drop (length ?hs) s"
  let ?sp = "takeWhile is_space ?r"
  let ?after = "drop (length ?sp) ?r"
  have hs: "?hs \<noteq> []" using assms by (auto simp: match_heading_def Let_def split: if_splits)
  have "length ?hs + length ?r = length s" by (metis append_take_drop_id length_append takeWhile_eq_take length_takeWhile_le le_add_diff_inverse length_drop)
  moreover have "length ?after \<le> length ?r" "length ?sp \<le> length ?r"
    by (simp, rule length_takeWhile_le)
  moreover have "length r \<le> length ?after \<or> length r \<le> length ?sp"
    using assms length_dropWhile_le [of "\<lambda>c. c \<noteq> LF" ?after]
    by (auto simp: match_heading_def Let_def split: if_splits)
  moreover have "0 < length ?hs" using hs by simp
  ultimately show ?thesis by linarith
qed

text \<open>\<open>_HEADING_RE.finditer(text)\<close>: position, level and title of each match, from left to right.\<close>

function find_headings :: "nat \<Rightarrow> bool \<Rightarrow> string \<Rightarrow> (nat \<times> nat \<times> string) list" where
  "find_headings pos bol [] = []"
| "find_headings pos bol (c # cs) =
     (case (if bol then match_heading (c # cs) else None) of
        Some (h, t, r) \<Rightarrow> (pos, h, t) # find_headings (pos + (length (c # cs) - length r)) False r
      | None \<Rightarrow> find_headings (pos + 1) (c = LF) cs)"
  by pat_completeness auto
termination
  by (relation "measure (\<lambda>(_, _, s). length s)") (auto split: if_splits dest: match_heading_shorter)

text \<open>The breadcrumb: setting a level forgets the deeper ones.\<close>

definition set_level :: "nat \<Rightarrow> string \<Rightarrow> (nat \<rightharpoonup> string) \<Rightarrow> nat \<rightharpoonup> string" where
  "set_level level title b = (\<lambda>l. if l = level then Some title else if level < l then None else b l)"

definition crumb_path :: "(nat \<rightharpoonup> string) \<Rightarrow> string" where
  "crumb_path b = join_with '' > '' (List.map_filter b [1 ..< 7])"

fun sections_of :: "string \<Rightarrow> (nat \<rightharpoonup> string) \<Rightarrow> (nat \<times> nat \<times> string) list \<Rightarrow> (string \<times> string) list" where
  "sections_of text b [] = []"
| "sections_of text b ((pos, level, title) # hs) =
     (let b' = set_level level title b;
          end_pos = (case hs of [] \<Rightarrow> length text | (p, _, _) # _ \<Rightarrow> p)
      in (crumb_path b', strip (take (end_pos - pos) (drop pos text))) # sections_of text b' hs)"

definition section_texts :: "int \<Rightarrow> string \<Rightarrow> string list" where
  "section_texts m content =
     (if int (length content) \<le> m then (if strip content \<noteq> [] then [content] else [])
      else map ch_text (paragraph_split content m))"

fun section_chunks :: "int \<Rightarrow> nat \<Rightarrow> (string \<times> string) list \<Rightarrow> chunk list" where
  "section_chunks m i [] = []"
| "section_chunks m i ((path, content) # ss) =
     number_chunks path i (section_texts m content) @ section_chunks m (i + length (section_texts m content)) ss"

definition split_markdown :: "string \<Rightarrow> int \<Rightarrow> chunk list" where
  "split_markdown text m =
     (let hs = find_headings 0 True text
      in if hs = [] then paragraph_split text m
         else section_chunks m 0 (sections_of text (\<lambda>_. None) hs))"

section \<open>Code fences\<close>

definition FENCE :: string where "FENCE = [CHR 0x60, CHR 0x60, CHR 0x60]"

text \<open>\<open>re.split(r"(```[\s\S]*?```)", s)\<close>: prose, fence, prose, \<dots>, prose.\<close>

definition first_fence :: "string \<Rightarrow> (string \<times> string \<times> string) option" where
  "first_fence s =
     (case cut_at FENCE s of
        None \<Rightarrow> None
      | Some (a, b) \<Rightarrow> (case cut_at FENCE (drop 3 b) of
            None \<Rightarrow> None
          | Some (body, e) \<Rightarrow> Some (a, FENCE @ body @ FENCE, drop 3 e)))"

lemma first_fence_split: "first_fence s = Some (a, f, r) \<Longrightarrow> s = a @ f @ r \<and> 6 \<le> length f"
proof -
  assume "first_fence s = Some (a, f, r)"
  then obtain b body e where c: "cut_at FENCE s = Some (a, b)" "cut_at FENCE (drop 3 b) = Some (body, e)"
      and f: "f = FENCE @ body @ FENCE" "r = drop 3 e"
    by (auto simp: first_fence_def split: option.splits prod.splits)
  have "b = FENCE @ drop 3 b" "e = FENCE @ drop 3 e"
    using cut_at_split [OF c(1)] cut_at_split [OF c(2)]
    by (metis FENCE_def append_take_drop_id length_Cons list.size(3) numeral_3_eq_3 startswith_def)+
  then show ?thesis using cut_at_split [OF c(1)] cut_at_split [OF c(2)] f by (auto simp: FENCE_def)
qed

function fence_split :: "string \<Rightarrow> string list" where
  "fence_split s = (case first_fence s of None \<Rightarrow> [s] | Some (a, f, r) \<Rightarrow> a # f # fence_split r)"
  by auto
termination by (relation "measure length") (auto dest!: first_fence_split)

declare fence_split.simps [simp del]

text \<open>\<open>for i in range(0, len(part), max_chars)\<close>: a zero step raises, a negative one runs no round.\<close>

function cut_every :: "nat \<Rightarrow> 'a list \<Rightarrow> 'a list list" where
  "cut_every n s = (if s = [] \<or> n = 0 then [] else take n s # cut_every n (drop n s))"
  by auto
termination by (relation "measure (\<lambda>(_, s). length s)") auto

declare cut_every.simps [simp del]

definition hard_pieces :: "int \<Rightarrow> string \<Rightarrow> exn + string list" where
  "hard_pieces m s =
     (if m = 0 then Inl ValueError else if m < 0 then Inr [] else Inr (cut_every (nat m) s))"

definition prose_chunks :: "string \<Rightarrow> int \<Rightarrow> string list" where
  "prose_chunks text m = pack_paragraphs m [] (paragraphs_of text)"

definition flush_prose :: "int \<Rightarrow> string \<Rightarrow> string list" where
  "flush_prose m buf = (if strip buf \<noteq> [] then prose_chunks buf m else [])"

fun fence_loop :: "int \<Rightarrow> string \<Rightarrow> string list \<Rightarrow> exn + string list" where
  "fence_loop m buf [] = Inr (flush_prose m buf)"
| "fence_loop m buf (part # parts) =
     (if part = [] then fence_loop m buf parts
      else if startswith part FENCE then
        then_sum (if int (length part) \<le> m then Inr [strip part] else hard_pieces m part) (\<lambda>new.
        then_sum (fence_loop m (if strip buf \<noteq> [] then [] else buf) parts) (\<lambda>more.
          Inr (flush_prose m buf @ new @ more)))
      else fence_loop m (buf @ part) parts)"

definition split_code_fence_aware :: "string \<Rightarrow> int \<Rightarrow> exn + chunk list" where
  "split_code_fence_aware text m =
     then_sum (fence_loop m [] (fence_split text)) (\<lambda>ts. Inr (number_chunks [] 0 ts))"

section \<open>Words with an overlap\<close>

text \<open>The hard split of one long paragraph. It does not end when the overlap is not smaller than
  the chunk.\<close>

partial_function (option) hard_split :: "int \<Rightarrow> int \<Rightarrow> string list \<Rightarrow> string list option" where
  "hard_split m overlap ws =
     (if ws = [] then Some []
      else Option.bind (hard_split m overlap (slice_from (m - overlap) ws)) (\<lambda>rest.
        Some (join_with '' '' (slice_to m ws) # rest)))"

fun words_loop :: "int \<Rightarrow> int \<Rightarrow> string list \<Rightarrow> string list \<Rightarrow> string list option" where
  "words_loop m overlap cur [] = Some (if cur \<noteq> [] then [join_with '' '' cur] else [])"
| "words_loop m overlap cur (p # ps) =
     (let ws = words p
      in if int (length cur) + int (length ws) \<le> m then words_loop m overlap (cur @ ws) ps
         else if cur \<noteq> [] then
           Option.bind (words_loop m overlap (slice_from (- overlap) cur @ ws) ps) (\<lambda>more.
             Some (join_with '' '' cur # more))
         else
           Option.bind (hard_split m overlap ws) (\<lambda>cut.
           Option.bind (words_loop m overlap [] ps) (\<lambda>more. Some (cut @ more))))"

definition split_paragraphs :: "string \<Rightarrow> int \<Rightarrow> int \<Rightarrow> chunk list option" where
  "split_paragraphs text m overlap =
     map_option (number_chunks [] 0) (words_loop m overlap [] (paragraphs_of text))"

section \<open>Windows of sentences\<close>

text \<open>\<open>re.split(r"(?<=[.!?])\s+", s)\<close>; the flag says whether the character before ends a sentence.\<close>

definition ends_sentence :: "char \<Rightarrow> bool" where
  "ends_sentence c \<longleftrightarrow> c \<in> set ''.!?''"

function sentence_split :: "bool \<Rightarrow> string \<Rightarrow> string list" where
  "sentence_split ended [] = [[]]"
| "sentence_split ended (c # cs) =
     (if ended \<and> is_space c then [] # sentence_split False (dropWhile is_space cs)
      else case sentence_split (ends_sentence c) cs of [] \<Rightarrow> [[c]] | s # ss \<Rightarrow> (c # s) # ss)"
  by pat_completeness auto
termination
  by (relation "measure (\<lambda>(_, s). length s)") (auto simp: le_imp_less_Suc length_dropWhile_le)

partial_function (option) window_loop :: "int \<Rightarrow> int \<Rightarrow> string list \<Rightarrow> int \<Rightarrow> string list option" where
  "window_loop window stride ss i =
     (if i < int (length ss) then
        Option.bind (window_loop window stride ss (i + stride)) (\<lambda>more.
          Some (join_with '' '' (drop (nat i) (slice_to (i + window) ss)) # more))
      else Some [])"

definition split_sentence_window :: "string \<Rightarrow> int \<Rightarrow> int \<Rightarrow> chunk list option" where
  "split_sentence_window text window stride =
     (let ss = filter (\<lambda>s. s \<noteq> []) (map strip (sentence_split False text))
      in if ss = [] then Some [] else map_option (number_chunks [] 0) (window_loop window stride ss 0))"

section \<open>The router\<close>

datatype content_type = Html | Markdown | Rss_Item | Json_Doc | Code | Other_Type

definition chunk_document :: "content_type \<Rightarrow> string \<Rightarrow> (exn + chunk list) option" where
  "chunk_document ct body =
     (case ct of
        Html \<Rightarrow> map_option Inr (split_paragraphs body 1000 200)
      | Markdown \<Rightarrow> Some (Inr (split_markdown body 1200))
      | Rss_Item \<Rightarrow> map_option Inr (split_paragraphs body 800 100)
      | Code \<Rightarrow> Some (split_code_fence_aware body 1500)
      | Json_Doc \<Rightarrow> Some (Inr [\<lparr>ch_text = body, ch_path = [], ch_index = 0\<rparr>])
      | Other_Type \<Rightarrow> map_option Inr (split_paragraphs body 1000 200))"

section \<open>No chunk is longer than the limit\<close>

lemma texts_number [simp]: "map ch_text (number_chunks path i ts) = ts"
  by (induction ts arbitrary: i) auto

lemma text_of_chunks: "ch_text ` set (number_chunks path i ts) = set ts"
  by (metis texts_number set_map)

lemma pack_within: "0 \<le> m \<Longrightarrow> int (length buf) \<le> m \<Longrightarrow> t \<in> set (pack_paragraphs m buf ps) \<Longrightarrow> int (length t) \<le> m"
proof (induction ps arbitrary: buf)
  case (Cons p ps)
  show ?case
  proof (cases "int (length buf) + int (length p) + 2 \<le> m")
    case True
    have "int (length (strip (buf @ [LF, LF] @ p))) \<le> m"
      using length_strip [of "buf @ [LF, LF] @ p"] True by simp
    from Cons.IH [OF Cons.prems(1) this] show ?thesis using True Cons.prems by simp
  next
    case False
    from Cons.IH [OF Cons.prems(1) length_slice_to [OF Cons.prems(1)]] show ?thesis
      using False Cons.prems by (auto split: if_splits)
  qed
qed (auto split: if_splits)

lemma section_texts_within: "0 \<le> m \<Longrightarrow> t \<in> set (section_texts m content) \<Longrightarrow> int (length t) \<le> m"
  using pack_within [of m "[]" t] by (auto simp: section_texts_def paragraph_split_def split: if_splits)

lemma section_within: "0 \<le> m \<Longrightarrow> c \<in> set (section_chunks m i ss) \<Longrightarrow> int (length (ch_text c)) \<le> m"
proof (induction ss arbitrary: i)
  case (Cons x ss)
  obtain path content where x: "x = (path, content)" by (cases x)
  have "c \<in> set (number_chunks path i (section_texts m content)) \<Longrightarrow> ch_text c \<in> set (section_texts m content)"
    using text_of_chunks by blast
  then show ?case using Cons x section_texts_within by auto
qed simp

text \<open>No chunk of the markdown chunker is longer than the limit it is given.\<close>

theorem markdown_chunks_within_limit:
  assumes "0 \<le> m" and "c \<in> set (split_markdown text m)"
  shows "int (length (ch_text c)) \<le> m"
proof -
  have "\<forall>c\<in>set (paragraph_split text m). int (length (ch_text c)) \<le> m"
    using assms(1) pack_within [of m "[]"] text_of_chunks unfolding paragraph_split_def by fastforce
  then show ?thesis
    using assms section_within by (auto simp: split_markdown_def Let_def split: if_splits)
qed

section \<open>What the markdown chunker keeps\<close>

lemma words_two_feeds: "words (buf @ [LF, LF] @ p) = words buf @ words p"
  using words_apart [of LF buf "LF # p"] by simp

lemma pack_words:
  "(\<And>p. p \<in> set ps \<Longrightarrow> int (length p) \<le> m) \<Longrightarrow>
     concat (map words (pack_paragraphs m buf ps)) = words buf @ concat (map words ps)"
proof (induction ps arbitrary: buf)
  case (Cons p ps)
  have "slice_to m p = p" using Cons.prems by (intro slice_to_all) simp
  moreover have "words (buf @ LF # LF # p) = words buf @ words p" using words_two_feeds [of buf p] by simp
  ultimately show ?case using Cons by simp
qed simp

definition line_start :: "string \<Rightarrow> nat \<Rightarrow> bool" where
  "line_start text p \<longleftrightarrow> p \<le> length text \<and> (p = 0 \<or> text ! (p - 1) = LF)"

lemma match_heading_suffix: "match_heading s = Some (h, t, r) \<Longrightarrow> \<exists>x. s = x @ r"
proof -
  assume m: "match_heading s = Some (h, t, r)"
  let ?hs = "takeWhile (\<lambda>c. c = HASH) s"
  let ?r = "drop (length ?hs) s"
  let ?sp = "takeWhile is_space ?r"
  let ?after = "drop (length ?sp) ?r"
  have s: "s = ?hs @ ?r" "?r = ?sp @ ?after" by (metis append_take_drop_id takeWhile_eq_take)+
  show ?thesis
  proof (cases "?after = []")
    case False
    then have "?after = takeWhile (\<lambda>c. c \<noteq> LF) ?after @ r"
      using m by (auto simp: match_heading_def Let_def split: if_splits)
    then show ?thesis using s by (metis append_assoc)
  next
    case True
    then have "?sp = take (length (rstrip_chars [LF] (tl ?sp)) + 1) ?sp @ r"
      using m by (auto simp: match_heading_def Let_def split: if_splits)
    then show ?thesis using s True by (metis append_assoc append_Nil2)
  qed
qed

lemma headings_at_lines:
  "text = pre @ s \<Longrightarrow> pos = length pre \<Longrightarrow> (bol \<longrightarrow> line_start text pos) \<Longrightarrow>
     (\<forall>x\<in>set (find_headings pos bol s). line_start text (fst x) \<and> pos \<le> fst x) \<and>
     sorted (map fst (find_headings pos bol s))"
proof (induction pos bol s arbitrary: pre rule: find_headings.induct)
  case (2 pos bol c cs)
  show ?case
  proof (cases "if bol then match_heading (c # cs) else None")
    case None
    have "line_start text (pos + 1)" if "c = LF" using 2(3,4) that by (simp add: line_start_def nth_append)
    with 2(1) [OF None, of "pre @ [c]"] None 2(3,4) show ?thesis by force
  next
    case (Some x)
    obtain h t r where x: "x = (h, t, r)" by (cases x) auto
    have bol: "bol" and m: "match_heading (c # cs) = Some (h, t, r)" using Some x by (auto split: if_splits)
    obtain y where y: "c # cs = y @ r" using match_heading_suffix [OF m] by blast
    have len: "length (c # cs) - length r = length y" using y by simp
    have "(\<forall>z\<in>set (find_headings (pos + length y) False r). line_start text (fst z) \<and> pos + length y \<le> fst z) \<and>
        sorted (map fst (find_headings (pos + length y) False r))"
      using 2(2) [OF Some, of h "(t, r)" t r "pre @ y"] x 2(3,4) y len by simp
    then show ?thesis using Some x 2(5) bol len by auto
  qed
qed simp

lemma words_between:
  assumes "p \<le> e" and "line_start text e"
  shows "words (drop p text) = words (take (e - p) (drop p text)) @ words (drop e text)"
proof -
  have d: "drop p text = take (e - p) (drop p text) @ drop e text"
    using assms(1) by (metis append_take_drop_id drop_drop le_add_diff_inverse2)
  have "take (e - p) (drop p text) = [] \<or> is_space (last (take (e - p) (drop p text)))"
  proof (cases "p = e")
    case False
    then have lt: "p < e" "e \<le> length text" using assms by (simp_all add: line_start_def)
    then have "last (take (e - p) (drop p text)) = text ! (e - 1)" by (subst last_conv_nth) auto
    then show ?thesis using assms(2) lt by (simp add: line_start_def)
  qed simp
  from words_space_last [OF this, of "drop e text"] show ?thesis using d by simp
qed

lemma sections_words:
  "hs \<noteq> [] \<Longrightarrow> sorted (map fst hs) \<Longrightarrow> (\<And>x. x \<in> set hs \<Longrightarrow> line_start text (fst x)) \<Longrightarrow>
     concat (map (words \<circ> snd) (sections_of text b hs)) = words (drop (fst (hd hs)) text)"
proof (induction hs arbitrary: b)
  case (Cons x hs)
  obtain pos level title where x: "x = (pos, level, title)" by (cases x) auto
  show ?case
  proof (cases hs)
    case Nil
    then show ?thesis by (simp add: x)
  next
    case (Cons y hs')
    then have "pos \<le> fst y" "line_start text (fst y)" using Cons.prems x by auto
    from words_between [OF this] show ?thesis
      using Cons.IH [of "set_level level title b"] Cons.prems \<open>hs = y # hs'\<close> x
      by (cases y) (simp add: Let_def)
  qed
qed simp

lemma section_texts_words:
  assumes "\<And>p. p \<in> set (paragraphs_of content) \<Longrightarrow> int (length p) \<le> m"
  shows "concat (map words (section_texts m content)) = words content"
  using pack_words [of "paragraphs_of content" m "[]"] assms words_paragraphs [of content]
  by (cases "strip content = []") (simp_all add: section_texts_def paragraph_split_def strip_empty_iff)

lemma section_chunks_words:
  "(\<And>x p. x \<in> set ss \<Longrightarrow> p \<in> set (paragraphs_of (snd x)) \<Longrightarrow> int (length p) \<le> m) \<Longrightarrow>
     concat (map (words \<circ> ch_text) (section_chunks m i ss)) = concat (map (words \<circ> snd) ss)"
proof (induction ss arbitrary: i)
  case (Cons x ss)
  obtain path content where x: "x = (path, content)" by (cases x)
  have "map (words \<circ> ch_text) (number_chunks path j ts) = map words ts" for j ts
    by (metis list.map_comp texts_number)
  moreover have "concat (map words (section_texts m content)) = words content"
    using Cons.prems [of x] x by (intro section_texts_words) simp
  moreover have "concat (map (words \<circ> ch_text) (section_chunks m j ss)) = concat (map (words \<circ> snd) ss)" for j
    by (rule Cons.IH) (use Cons.prems in auto)
  ultimately show ?case using x by (simp add: comp_def)
qed simp

definition markdown_parts :: "string \<Rightarrow> string list" where
  "markdown_parts text =
     (let hs = find_headings 0 True text in if hs = [] then [text] else map snd (sections_of text (\<lambda>_. None) hs))"

definition first_heading :: "string \<Rightarrow> nat" where
  "first_heading text = (case find_headings 0 True text of [] \<Rightarrow> 0 | (p, _, _) # _ \<Rightarrow> p)"

text \<open>C21: when every paragraph of every section fits the limit, the chunks carry the words of the
  text in order: all of it when it has no heading, and otherwise exactly what stands from the
  first heading on. What precedes the first heading is in no chunk.\<close>

theorem markdown_keeps_words:
  assumes "\<And>part p. part \<in> set (markdown_parts text) \<Longrightarrow> p \<in> set (paragraphs_of part) \<Longrightarrow> int (length p) \<le> m"
  shows "concat (map (words \<circ> ch_text) (split_markdown text m)) = words (drop (first_heading text) text)"
proof (cases "find_headings 0 True text = []")
  case True
  then have "int (length p) \<le> m" if "p \<in> set (paragraphs_of text)" for p
    using assms that by (simp add: markdown_parts_def)
  then have "concat (map words (pack_paragraphs m [] (paragraphs_of text))) = words text"
    using pack_words [of "paragraphs_of text" m "[]"] words_paragraphs by simp
  moreover have "map (words \<circ> ch_text) (number_chunks [] 0 ts) = map words ts" for ts
    by (metis list.map_comp texts_number)
  ultimately show ?thesis using True by (simp add: split_markdown_def paragraph_split_def first_heading_def)
next
  case False
  let ?hs = "find_headings 0 True text"
  have "sorted (map fst ?hs)" "\<And>x. x \<in> set ?hs \<Longrightarrow> line_start text (fst x)"
    using headings_at_lines [of "text" "[]" "text" 0 True] by (simp_all add: line_start_def)
  then have "concat (map (words \<circ> snd) (sections_of text (\<lambda>_. None) ?hs)) = words (drop (fst (hd ?hs)) text)"
    by (rule sections_words [OF False])
  moreover have "concat (map (words \<circ> ch_text) (section_chunks m 0 (sections_of text (\<lambda>_. None) ?hs))) =
      concat (map (words \<circ> snd) (sections_of text (\<lambda>_. None) ?hs))"
    by (rule section_chunks_words) (use assms False in \<open>auto simp: markdown_parts_def Let_def\<close>)
  moreover have "first_heading text = fst (hd ?hs)"
    using False by (cases ?hs) (auto simp: first_heading_def)
  ultimately show ?thesis using False by (simp add: split_markdown_def Let_def)
qed

definition sample_markdown :: string where
  "sample_markdown = ''lost'' @ [LF, HASH] @ '' A'' @ [LF, LF] @ ''kept''"

theorem markdown_keeps_words_witness:
  "concat (map (words \<circ> ch_text) (split_markdown sample_markdown 12)) = [''#'', ''A'', ''kept'']"
proof -
  have h: "first_heading sample_markdown = 5" by code_simp
  have parts: "markdown_parts sample_markdown = [[HASH] @ '' A'' @ [LF, LF] @ ''kept'']" by code_simp
  have ps: "paragraphs_of ([HASH] @ '' A'' @ [LF, LF] @ ''kept'') = [[HASH] @ '' A'', ''kept'']" by code_simp
  have "int (length p) \<le> 12" if "part \<in> set (markdown_parts sample_markdown)" "p \<in> set (paragraphs_of part)" for part p
    using that parts ps by auto
  from markdown_keeps_words [of sample_markdown 12, OF this]
  have "concat (map (words \<circ> ch_text) (split_markdown sample_markdown 12)) = words (drop 5 sample_markdown)"
    using h by simp
  moreover have "words (drop 5 sample_markdown) = [''#'', ''A'', ''kept'']" by code_simp
  ultimately show ?thesis by simp
qed

theorem markdown_chunks_within_limit_witness:
  "\<exists>c \<in> set (split_markdown sample_markdown 3). int (length (ch_text c)) \<le> 3"
proof -
  have "split_markdown sample_markdown 3 \<noteq> []" by code_simp
  then have "hd (split_markdown sample_markdown 3) \<in> set (split_markdown sample_markdown 3)" by simp
  then show ?thesis using markdown_chunks_within_limit [of 3 "hd (split_markdown sample_markdown 3)" sample_markdown]
    by auto
qed

text \<open>A paragraph longer than the limit is cut off at the limit: the rest of it is in no chunk.\<close>

theorem long_paragraph_cut_off:
  assumes "find_headings 0 True text = []" and "\<And>a b. text \<noteq> a @ LF # LF # b"
    and "strip text = text" and "0 \<le> m" and "m < int (length text)"
  shows "map ch_text (split_markdown text m) = (if m = 0 then [] else [take (nat m) text])"
proof -
  have "paragraphs_of text = [text]" using assms(2-5) by (intro one_paragraph) auto
  then show ?thesis
    using assms by (auto simp: split_markdown_def paragraph_split_def slice_to_def)
qed

theorem long_paragraph_cut_off_witness:
  "map ch_text (split_markdown ''one two'' 3) = [''one'']"
proof -
  have "LF \<notin> set ''one two''" by simp
  then have a: "\<And>a b. ''one two'' \<noteq> a @ LF # LF # b" by (metis in_set_conv_decomp)
  have b: "find_headings 0 True ''one two'' = []" "strip ''one two'' = ''one two''" by code_simp+
  show ?thesis
    using long_paragraph_cut_off [of "''one two''" 3] a b by simp
qed

section \<open>Code fences stay whole\<close>

lemma flush_keeps: "fence_loop m buf parts = Inr ts \<Longrightarrow> p \<in> set parts \<Longrightarrow> startswith p FENCE \<Longrightarrow>
     int (length p) \<le> m \<Longrightarrow> strip p \<in> set ts"
proof (induction m buf parts arbitrary: ts rule: fence_loop.induct)
  case (2 m buf part parts)
  then show ?case by (auto simp: startswith_def FENCE_def then_sum_def split: if_splits sum.splits)
qed simp

text \<open>Every code fence that is no longer than the limit is a chunk of its own, whole.\<close>

theorem short_fences_stay_whole:
  assumes "split_code_fence_aware text m = Inr cs" and "f \<in> set (fence_split text)"
    and "startswith f FENCE" and "int (length f) \<le> m"
  shows "\<exists>c\<in>set cs. ch_text c = strip f"
proof -
  obtain ts where ts: "fence_loop m [] (fence_split text) = Inr ts" "cs = number_chunks [] 0 ts"
    using assms(1) by (auto simp: split_code_fence_aware_def then_sum_def split: sum.splits)
  then have "strip f \<in> ch_text ` set cs"
    using flush_keeps [OF ts(1) assms(2-4)] text_of_chunks by blast
  then show ?thesis by auto
qed

section \<open>The word chunker\<close>

lemma hard_split_ends:
  "overlap < m \<Longrightarrow> 0 \<le> overlap \<Longrightarrow> \<exists>cut. hard_split m overlap ws = Some cut"
proof (induction "length ws" arbitrary: ws rule: less_induct)
  case less
  show ?case
  proof (cases "ws = []")
    case True
    then show ?thesis by (subst hard_split.simps) simp
  next
    case False
    then have "length (slice_from (m - overlap) ws) < length ws" using less.prems by (simp add: slice_from_def)
    from less.hyps [OF this less.prems] show ?thesis by (subst hard_split.simps) (auto simp: False)
  qed
qed

lemma words_loop_ends:
  "overlap < m \<Longrightarrow> 0 \<le> overlap \<Longrightarrow> \<exists>cs. words_loop m overlap cur ps = Some cs"
proof (induction ps arbitrary: cur)
  case (Cons p ps)
  obtain cut where "hard_split m overlap (words p) = Some cut" using hard_split_ends Cons.prems by blast
  moreover obtain a where "words_loop m overlap (cur @ words p) ps = Some a" using Cons by blast
  moreover obtain b where "words_loop m overlap (slice_from (- overlap) cur @ words p) ps = Some b" using Cons by blast
  moreover obtain c where "words_loop m overlap [] ps = Some c" using Cons by blast
  ultimately show ?case by (simp add: Let_def)
qed simp

lemma fence_loop_total: "0 < m \<Longrightarrow> \<exists>ts. fence_loop m buf parts = Inr ts"
proof (induction parts arbitrary: buf)
  case (Cons part parts)
  obtain a where a: "fence_loop m (if strip buf \<noteq> [] then [] else buf) parts = Inr a" using Cons by blast
  obtain b where b: "fence_loop m (buf @ part) parts = Inr b" using Cons by blast
  obtain c where c: "fence_loop m buf parts = Inr c" using Cons by blast
  have "hard_pieces m part = Inr (cut_every (nat m) part)" using Cons.prems by (simp add: hard_pieces_def)
  then show ?case using a b c by (simp add: then_sum_def)
qed simp

text \<open>With the limits the router uses, cutting any document into chunks ends, and without an
  exception.\<close>

theorem chunk_document_ends: "\<exists>cs. chunk_document ct body = Some (Inr cs)"
proof -
  have s: "\<exists>cs. split_paragraphs body m overlap = Some cs" if "overlap < m" "0 \<le> overlap" for m overlap
    using words_loop_ends [OF that] by (auto simp: split_paragraphs_def)
  have c: "\<exists>cs. split_code_fence_aware body 1500 = Inr cs"
    using fence_loop_total [of 1500 "[]" "fence_split body"] by (auto simp: split_code_fence_aware_def then_sum_def)
  show ?thesis
    using s [of 200 1000] s [of 100 800] c by (cases ct) (auto simp: chunk_document_def)
qed

text \<open>The word limit is not one: a long paragraph after a short one is joined to it whole, so a
  chunk of any size comes out.\<close>

theorem word_limit_exceeded:
  "\<exists>text cs c. chunk_document Html text = Some (Inr cs) \<and> c \<in> set cs \<and> n \<le> length (words (ch_text c))"
proof -
  define tail where "tail k = concat (replicate k '' a'')" for k
  define p where "p = ''a'' @ tail (n + 1000)"
  have head: "tail k = [] \<or> is_space (hd (tail k))" for k
    by (cases k) (auto simp: tail_def is_space_def)
  have words_tail: "words (tail k) = replicate k ''a''" for k
  proof (induction k)
    case (Suc k)
    have "words ('' a'' @ tail k) = words '' a'' @ words (tail k)" using head by (rule words_space_head)
    moreover have "words '' a'' = [''a'']" by code_simp
    ultimately show ?case using Suc by (simp add: tail_def)
  qed (simp add: tail_def)
  have words_p: "words p = ''a'' # replicate (n + 1000) ''a''"
  proof -
    have "words p = words ''a'' @ words (tail (n + 1000))" unfolding p_def using head by (rule words_space_head)
    moreover have "words ''a'' = [''a'']" by code_simp
    ultimately show ?thesis using words_tail [of "n + 1000"] by simp
  qed
  have set_p: "LF \<notin> set p" by (auto simp: p_def tail_def)
  have "tail (Suc k) = tail k @ '' a''" for k by (induction k) (simp_all add: tail_def)
  from this [of "n + 999"] have last_p: "last p = CHR ''a''" by (simp add: p_def add.commute [of n])
  have strip_p: "strip p = p"
    by (rule strip_fixed) (use last_p in \<open>simp add: is_space_def, simp add: p_def\<close>)
  have "blank_split p = [p]"
    using cut_blank_none [of p] set_p by (subst blank_split.simps) (auto simp: in_set_conv_decomp)
  moreover have "cut_blank (''a'' @ [LF, LF] @ p) = (''a'', Some p)" by (simp add: p_def)
  ultimately have "blank_split (''a'' @ [LF, LF] @ p) = [''a'', p]" by (subst blank_split.simps) simp
  moreover have "strip ''a'' = ''a''" by code_simp
  ultimately have ps: "paragraphs_of (''a'' @ [LF, LF] @ p) = [''a'', p]"
    using strip_p by (simp add: paragraphs_of_def) (simp add: p_def)
  let ?big = "join_with '' '' (''a'' # words p)"
  have "words ''a'' = [''a'']" by code_simp
  then have loop: "words_loop 1000 200 [] [''a'', p] = Some [''a'', ?big]"
    using words_p by (simp add: slice_from_def)
  have "words ?big = ''a'' # words p" by (rule words_join) (auto simp: words_p is_space_def)
  then have "n \<le> length (words ?big)" using words_p by simp
  moreover have "chunk_document Html (''a'' @ [LF, LF] @ p) = Some (Inr (number_chunks [] 0 [''a'', ?big]))"
    using ps loop by (simp add: chunk_document_def split_paragraphs_def del: number_chunks.simps)
  ultimately show ?thesis by (intro exI conjI) (auto simp: numeral_2_eq_2)
qed

end
