(* ===== verification/Knowledge_Index.thy ===== *)
theory Knowledge_Index
  imports Chunkers Readings "HOL-Library.Word"
begin

text \<open>
  The index of crawled documents, \<open>knowledge-ingestion-service/app/services\<close>: sparse vectors
  (\<open>sparse.py\<close>), content hashes (\<open>deduper.py\<close>), embeddings (\<open>embedder.py\<close>), the vector store
  (\<open>qdrant_writer.py\<close>) and the pipeline that keeps them in step with a source (\<open>pipeline.py\<close>).
  The digests are a parameter; the vector store is part of the state and every command to it may
  fail, as the outside answers the call. A session's statements are committed document by document.
\<close>

section \<open>Sparse vectors\<close>

definition is_token_char :: "char \<Rightarrow> bool" where
  "is_token_char c \<longleftrightarrow> is_lower c \<or> is_digit c"

text \<open>\<open>re.findall(r"[a-z0-9]+", s)\<close>.\<close>

function runs_of :: "(char \<Rightarrow> bool) \<Rightarrow> string \<Rightarrow> string list" where
  "runs_of p s =
     (case dropWhile (\<lambda>c. \<not> p c) s of
        [] \<Rightarrow> []
      | c # cs \<Rightarrow> takeWhile p (c # cs) # runs_of p (dropWhile p cs))"
  by auto
termination
proof (relation "measure (\<lambda>(_, s). length s)")
  fix p s and c :: char and cs
  assume "dropWhile (\<lambda>c. \<not> p c) s = c # cs"
  then have "length (c # cs) \<le> length s" by (metis length_dropWhile_le)
  then show "((p, dropWhile p cs), p, s) \<in> measure (\<lambda>(_, s). length s)"
    using length_dropWhile_le [of p cs] by simp
qed simp

declare runs_of.simps [simp del]

definition tokenise :: "string \<Rightarrow> string list" where
  "tokenise s = runs_of is_token_char (lower s)"

text \<open>\<open>h = ((h << 5) + h) + ord(ch)\<close> on unbounded integers, and the lowest 31 bits at the end.\<close>

definition stable_token_id :: "string \<Rightarrow> int" where
  "stable_token_id token =
     foldl (\<lambda>h c. (h * 2 ^ 5 + h) + int (code c)) 5381 token mod 2 ^ 31"

definition first_occurrences :: "'a list \<Rightarrow> 'a list" where
  "first_occurrences xs = rev (remdups (rev xs))"

definition make_sparse_vector :: "string \<Rightarrow> (int \<times> rat) list" where
  "make_sparse_vector s =
     (let ids = map stable_token_id (tokenise s)
      in map (\<lambda>i. (i, of_nat (count_list ids i))) (first_occurrences ids))"

text \<open>The same hash on 31-bit words, wrapping at every step.\<close>

definition token_id_word :: "string \<Rightarrow> 31 word" where
  "token_id_word token = foldl (\<lambda>h c. (push_bit 5 h + h) + of_nat (code c)) 5381 token"

text \<open>The token id computed on unbounded integers is the one a 31-bit register computes, and the
  vector lists every id once, with counts that add up to the number of tokens.\<close>

lemma token_id_wraps: "stable_token_id token = uint (token_id_word token)"
proof -
  have step: "push_bit 5 (of_int h) + of_int h + of_nat (code c) = (of_int ((h * 2 ^ 5 + h) + int (code c)) :: 31 word)"
    for h :: int and c :: char by (simp add: push_bit_eq_mult)
  have "foldl (\<lambda>h c. (push_bit 5 h + h) + of_nat (code c)) (of_int x) token =
      (of_int (foldl (\<lambda>h c. (h * 2 ^ 5 + h) + int (code c)) x token) :: 31 word)" for x
    by (induction token arbitrary: x) (simp_all only: foldl.simps step)
  from this [of 5381] show ?thesis
    by (simp add: stable_token_id_def token_id_word_def uint_word_of_int take_bit_eq_mod unsigned_of_int)
qed

lemma set_first_occurrences [simp]: "set (first_occurrences xs) = set xs"
  by (simp add: first_occurrences_def)

lemma sum_counts: "distinct ys \<Longrightarrow> set xs \<subseteq> set ys \<Longrightarrow> sum_list (map (count_list xs) ys) = length xs"
proof (induction xs)
  case (Cons x xs)
  have "sum_list (map (\<lambda>y. if x = y then count_list xs y + 1 else count_list xs y) ys) =
      sum_list (map (count_list xs) ys) + sum_list (map (\<lambda>y. if x = y then 1 else 0) ys)"
    by (induction ys) auto
  moreover have "sum_list (map (\<lambda>y. if x = y then 1 else 0) ys) = (1 :: nat)"
  proof -
    have "x \<in> set ys" using Cons.prems by simp
    then show ?thesis using Cons.prems(1) by (induction ys) (auto simp: sum_list_eq_0_iff)
  qed
  ultimately show ?case using Cons by simp
qed simp

lemma sparse_vector_counts:
  "distinct (map fst (make_sparse_vector s)) \<and>
   sum_list (map snd (make_sparse_vector s)) = of_nat (length (tokenise s)) \<and>
   (\<forall>i\<in>fst ` set (make_sparse_vector s). 0 \<le> i \<and> i < 2 ^ 31)"
proof -
  let ?ids = "map stable_token_id (tokenise s)"
  let ?ks = "first_occurrences ?ids"
  have d: "distinct ?ks" by (simp add: first_occurrences_def)
  have "sum_list (map (count_list ?ids) ?ks) = length ?ids" by (rule sum_counts) (use d in simp_all)
  then have "(of_nat (sum_list (map (count_list ?ids) ?ks)) :: rat) = of_nat (length (tokenise s))" by simp
  moreover have "(of_nat (sum_list (map g ks)) :: rat) = sum_list (map (\<lambda>i. of_nat (g i)) ks)" for g :: "int \<Rightarrow> nat" and ks
    by (induction ks) simp_all
  ultimately show ?thesis using d by (auto simp: make_sparse_vector_def Let_def comp_def stable_token_id_def)
qed

section \<open>State\<close>

record ingest_settings =
  OPENAI_API_KEY :: string
  EMBEDDING_MODEL :: string
  EMBEDDING_BATCH_SIZE :: int

text \<open>\<open>hashlib.sha256(s).hexdigest()\<close> and \<open>str(uuid5(UUID_NAMESPACE, s))\<close>.\<close>

record digests =
  sha256_hex :: "string \<Rightarrow> string"
  uuid5_text :: "string \<Rightarrow> string"

record source_config =
  sc_id :: string
  sc_type :: string
  sc_base_url :: string
  sc_protocol :: "string option"
  sc_category :: string
  sc_license :: string
  sc_schedule_cron :: string
  sc_language :: string
  sc_crawl_delay :: rat
  sc_max_pages :: int
  sc_include :: "string list"
  sc_exclude :: "string list"
  sc_legal_review_passed :: bool
  sc_tags :: "string list"
  sc_extra :: json

record document_ref =
  dr_doc_id :: string
  dr_url :: string

text \<open>A time of publication is in seconds.\<close>

record raw_document =
  rd_ref :: document_ref
  rd_type :: content_type
  rd_body :: string
  rd_title :: string
  rd_published_at :: "int option"

record chunk_payload =
  cp_doc_id :: string
  cp_chunk_id :: nat
  cp_content :: string
  cp_title :: string
  cp_section_path :: string
  cp_source_url :: string
  cp_source_type :: string
  cp_protocol :: "string option"
  cp_category :: string
  cp_language :: string
  cp_published_at :: "int option"
  cp_content_hash :: string
  cp_tags :: "string list"
  cp_license :: string

record index_point =
  pt_payload :: chunk_payload
  pt_fetched_at :: int
  pt_token_count :: nat
  pt_embedding_model :: string
  pt_dense :: json
  pt_sparse :: "(int \<times> rat) list"

record ingest_document =
  id_source :: string
  id_url :: string
  id_content_hash :: string
  id_chunk_count :: int
  id_fetched_at :: usec
  id_status :: string

record ingest_run =
  ir_source :: string
  ir_started_at :: usec
  ir_finished_at :: "usec option"
  ir_status :: string
  ir_docs_seen :: int
  ir_chunks_added :: int
  ir_chunks_unchanged :: int
  ir_docs_failed :: int
  ir_embedding_tokens :: int

record ingest_source =
  is_type :: string
  is_base_url :: string
  is_protocol :: "string option"
  is_category :: string
  is_license :: string
  is_language :: string
  is_schedule_cron :: string
  is_crawl_delay :: rat
  is_max_pages :: int
  is_enabled :: bool
  is_created_at :: usec

record ingest_state = world +
  index_points :: "(string, index_point) table"
  documents :: "(string, ingest_document) table"
  runs :: "(int, ingest_run) table"
  sources :: "(string, ingest_source) table"
  run_next :: int
  running_jobs :: "(string, bool) table"
  embedder_tokens :: int
  robots_cache :: "(string, string option) table"

section \<open>Embeddings\<close>

definition embedding_of :: "json \<Rightarrow> exn + int \<times> json" where
  "embedding_of d =
     then_sum (field ''index'' d) (\<lambda>i.
     then_sum (field ''embedding'' d) (\<lambda>v.
       case i of JInt n \<Rightarrow> Inr (n, v) | _ \<Rightarrow> Inl TypeError))"

text \<open>\<open>resp.usage.total_tokens\<close> and the embeddings by index.\<close>

definition read_embeddings :: "json option \<Rightarrow> exn + int \<times> json list" where
  "read_embeddings body =
     then_sum (or_raise ValueError body) (\<lambda>j.
     then_sum (field ''usage'' j) (\<lambda>u.
     then_sum (field ''total_tokens'' u) (\<lambda>n.
     then_sum (field ''data'' j) (\<lambda>d.
     then_sum (iterate d) (\<lambda>ds.
     then_sum (collect embedding_of ds) (\<lambda>vs.
       case n of JInt k \<Rightarrow> Inr (k, map snd (sort_key fst vs)) | _ \<Rightarrow> Inl TypeError))))))"

definition embed_once ::
  "outside \<Rightarrow> ingest_settings \<Rightarrow> string list \<Rightarrow> ('z ingest_state_scheme, json list) io" where
  "embed_once env c texts =
     bind (http_call env ''POST'' ''https://api.openai.com/v1/embeddings''
             (JObj [(''Authorization'', JStr (''Bearer '' @ OPENAI_API_KEY c)),
                    (''model'', JStr (EMBEDDING_MODEL c)), (''input'', JArr (map JStr texts))])) (\<lambda>o1.
     bind (from_sum (then_sum (raise_for_status o1) read_embeddings)) (\<lambda>(k, vs).
     bind (modify (\<lambda>s. s\<lparr>embedder_tokens := embedder_tokens s + k\<rparr>)) (\<lambda>_. return vs)))"

text \<open>Five attempts; the waits between them double from 1 s, but are at least 2 s and at most 60 s.\<close>

definition embed_wait :: "nat \<Rightarrow> usec" where
  "embed_wait attempt = seconds (max 2 (min (2 ^ (attempt - 1)) 60))"

fun embed_attempts ::
  "outside \<Rightarrow> ingest_settings \<Rightarrow> string list \<Rightarrow> nat \<Rightarrow> nat \<Rightarrow> ('z ingest_state_scheme, json list) io" where
  "embed_attempts env c texts attempt 0 = embed_once env c texts"
| "embed_attempts env c texts attempt (Suc rest) =
     catch_all (embed_once env c texts) (\<lambda>e.
       bind (sleep (embed_wait attempt)) (\<lambda>_. embed_attempts env c texts (attempt + 1) rest))"

definition embed_batch :: "outside \<Rightarrow> ingest_settings \<Rightarrow> string list \<Rightarrow> ('z ingest_state_scheme, json list) io" where
  "embed_batch env c texts = embed_attempts env c texts 1 4"

definition embed_many :: "outside \<Rightarrow> ingest_settings \<Rightarrow> string list \<Rightarrow> ('z ingest_state_scheme, json list) io" where
  "embed_many env c texts =
     (if EMBEDDING_BATCH_SIZE c = 0 then throw ValueError
      else
        bind (for_each (embed_batch env c)
               (if EMBEDDING_BATCH_SIZE c < 0 then [] else cut_every (nat (EMBEDDING_BATCH_SIZE c)) texts))
          (\<lambda>vss. return (concat vss)))"

section \<open>The vector store\<close>

definition show_nat :: "nat \<Rightarrow> string" where
  "show_nat n = show_base 10 n"

definition point_name :: "string \<Rightarrow> nat \<Rightarrow> string" where
  "point_name doc_id chunk_id = doc_id @ '':'' @ show_nat chunk_id"

definition make_point_id :: "digests \<Rightarrow> string \<Rightarrow> nat \<Rightarrow> string" where
  "make_point_id lib doc_id chunk_id = uuid5_text lib (point_name doc_id chunk_id)"

definition content_hash :: "digests \<Rightarrow> string \<Rightarrow> string" where
  "content_hash lib s = sha256_hex lib s"

definition qdrant :: "outside \<Rightarrow> string \<Rightarrow> ('z ingest_state_scheme, unit) io" where
  "qdrant env command =
     bind (http_call env ''QDRANT'' command JNull) (\<lambda>o1.
     bind (from_sum (raise_for_status o1)) (\<lambda>_. return ()))"

text \<open>\<open>int(now.timestamp() * 1000)\<close>.\<close>

definition millis_now :: "outside \<Rightarrow> 'z world_scheme \<Rightarrow> int" where
  "millis_now env s = py_int (fmul (b64 (of_int (utc_now env s) / 10 ^ 6)) 1000)"

definition point_of :: "int \<Rightarrow> chunk_payload \<Rightarrow> json \<Rightarrow> (int \<times> rat) list \<Rightarrow> index_point" where
  "point_of now p dense sparse =
     \<lparr>pt_payload = p, pt_fetched_at = now, pt_token_count = length (words (cp_content p)),
      pt_embedding_model = ''text-embedding-3-large'', pt_dense = dense, pt_sparse = sparse\<rparr>"

definition put_point :: "digests \<Rightarrow> index_point \<Rightarrow> (string, index_point) table \<Rightarrow> (string, index_point) table" where
  "put_point lib p t = put_row (make_point_id lib (cp_doc_id (pt_payload p)) (cp_chunk_id (pt_payload p))) p t"

definition upsert_batch ::
  "outside \<Rightarrow> digests \<Rightarrow> chunk_payload list \<Rightarrow> json list \<Rightarrow> (int \<times> rat) list list
    \<Rightarrow> ('z ingest_state_scheme, nat) io" where
  "upsert_batch env lib payloads dense sparse =
     bind (gets (\<lambda>s. map (\<lambda>(p, d, v). point_of (millis_now env s) p d v) (zip payloads (zip dense sparse)))) (\<lambda>ps.
       if ps = [] then return 0
       else bind (qdrant env ''upsert'') (\<lambda>_.
            bind (modify (\<lambda>s. s\<lparr>index_points := fold (put_point lib) ps (index_points s)\<rparr>)) (\<lambda>_.
              return (length ps))))"

definition is_tail :: "string \<Rightarrow> nat \<Rightarrow> index_point \<Rightarrow> bool" where
  "is_tail doc_id keep p \<longleftrightarrow> cp_doc_id (pt_payload p) = doc_id \<and> keep \<le> cp_chunk_id (pt_payload p)"

definition delete_tail_chunks :: "outside \<Rightarrow> string \<Rightarrow> nat \<Rightarrow> ('z ingest_state_scheme, unit) io" where
  "delete_tail_chunks env doc_id keep =
     bind (qdrant env ''delete'') (\<lambda>_.
       modify (\<lambda>s. s\<lparr>index_points := filter (\<lambda>(_, p). \<not> is_tail doc_id keep p) (index_points s)\<rparr>))"

definition is_same_chunk :: "string \<Rightarrow> string \<Rightarrow> nat \<Rightarrow> index_point \<Rightarrow> bool" where
  "is_same_chunk h doc_id i p \<longleftrightarrow>
     cp_content_hash (pt_payload p) = h \<and> cp_doc_id (pt_payload p) = doc_id \<and> cp_chunk_id (pt_payload p) = i"

definition count_by_content_hash ::
  "outside \<Rightarrow> string \<Rightarrow> string \<Rightarrow> nat \<Rightarrow> ('z ingest_state_scheme, nat) io" where
  "count_by_content_hash env h doc_id i =
     bind (qdrant env ''count'') (\<lambda>_.
       gets (\<lambda>s. length (filter (\<lambda>(_, p). is_same_chunk h doc_id i p) (index_points s))))"

section \<open>The pipeline\<close>

record run_counts =
  n_added :: int
  n_unchanged :: int
  n_seen :: int
  n_failed :: int

text \<open>\<open>int(published_at.timestamp() * 1000)\<close>.\<close>

definition published_ms :: "int option \<Rightarrow> int option" where
  "published_ms p = map_option (\<lambda>s. py_int (fmul (b64 (of_int s)) 1000)) p"

definition payload_of ::
  "digests \<Rightarrow> source_config \<Rightarrow> document_ref \<Rightarrow> raw_document \<Rightarrow> chunk list \<Rightarrow> nat \<Rightarrow> chunk_payload" where
  "payload_of lib cfg ref doc results i =
     (let c = results ! i in
      \<lparr>cp_doc_id = dr_doc_id ref, cp_chunk_id = i, cp_content = ch_text c, cp_title = rd_title doc,
       cp_section_path = ch_path c, cp_source_url = dr_url ref, cp_source_type = sc_type cfg,
       cp_protocol = sc_protocol cfg, cp_category = sc_category cfg, cp_language = sc_language cfg,
       cp_published_at = published_ms (rd_published_at doc), cp_content_hash = content_hash lib (ch_text c),
       cp_tags = sc_tags cfg, cp_license = sc_license cfg\<rparr>)"

definition upsert_doc ::
  "outside \<Rightarrow> string \<Rightarrow> string \<Rightarrow> string \<Rightarrow> string \<Rightarrow> int \<Rightarrow> 'z ingest_state_scheme \<Rightarrow> 'z ingest_state_scheme" where
  "upsert_doc env doc_id source_id url h n s =
     s\<lparr>documents := put_row doc_id
        (case row_of (documents s) doc_id of
           Some d \<Rightarrow> d\<lparr>id_content_hash := h, id_chunk_count := n, id_fetched_at := utc_now env s, id_status := ''indexed''\<rparr>
         | None \<Rightarrow> \<lparr>id_source = source_id, id_url = url, id_content_hash = h, id_chunk_count = n,
             id_fetched_at = utc_now env s, id_status = ''indexed''\<rparr>) (documents s)\<rparr>"

text \<open>The chunks of a fetched document against the index.\<close>

definition store_chunks ::
  "outside \<Rightarrow> digests \<Rightarrow> ingest_settings \<Rightarrow> source_config \<Rightarrow> document_ref \<Rightarrow> ingest_document option
    \<Rightarrow> raw_document \<Rightarrow> chunk list \<Rightarrow> nat list \<Rightarrow> run_counts \<Rightarrow> json list \<Rightarrow> ('z ingest_state_scheme, run_counts) io" where
  "store_chunks env lib c cfg ref existing doc results new n dense =
     bind (upsert_batch env lib (map (payload_of lib cfg ref doc results) new) dense
             (map (\<lambda>i. make_sparse_vector (ch_text (results ! i))) new)) (\<lambda>added.
     bind (case existing of
             Some d \<Rightarrow> (if int (length results) < id_chunk_count d
                        then delete_tail_chunks env (dr_doc_id ref) (length results) else return ())
           | None \<Rightarrow> return ()) (\<lambda>_.
     bind (modify (upsert_doc env (dr_doc_id ref) (sc_id cfg) (dr_url ref)
             (content_hash lib (ch_text (hd results))) (int (length results)))) (\<lambda>_.
       return (n\<lparr>n_added := n_added n + int added\<rparr>))))"

text \<open>Embedding and storing the chunks that are not in the index yet.\<close>

definition index_missing ::
  "outside \<Rightarrow> digests \<Rightarrow> ingest_settings \<Rightarrow> source_config \<Rightarrow> document_ref \<Rightarrow> ingest_document option
    \<Rightarrow> raw_document \<Rightarrow> chunk list \<Rightarrow> nat list \<Rightarrow> run_counts \<Rightarrow> ('z ingest_state_scheme, run_counts) io" where
  "index_missing env lib c cfg ref existing doc results new n =
     bind (catch_all (bind (embed_many env c (map (\<lambda>i. ch_text (results ! i)) new)) (\<lambda>v. return (Some v)))
            (\<lambda>e. return None)) (\<lambda>r.
       case r of
         None \<Rightarrow> return (n\<lparr>n_failed := n_failed n + 1\<rparr>)
       | Some dense \<Rightarrow> store_chunks env lib c cfg ref existing doc results new n dense)"

definition index_chunks ::
  "outside \<Rightarrow> digests \<Rightarrow> ingest_settings \<Rightarrow> source_config \<Rightarrow> document_ref \<Rightarrow> ingest_document option
    \<Rightarrow> raw_document \<Rightarrow> chunk list \<Rightarrow> run_counts \<Rightarrow> ('z ingest_state_scheme, run_counts) io" where
  "index_chunks env lib c cfg ref existing doc results n =
     bind (for_each (\<lambda>i. count_by_content_hash env (content_hash lib (ch_text (results ! i))) (dr_doc_id ref) i)
             [0 ..< length results]) (\<lambda>counts.
       let new = filter (\<lambda>i. counts ! i = 0) [0 ..< length results];
           n2 = n\<lparr>n_unchanged := n_unchanged n + int (length results - length new)\<rparr>
       in if new = [] then return n2
          else index_missing env lib c cfg ref existing doc results new n2)"

definition cut_document :: "raw_document \<Rightarrow> ('z ingest_state_scheme, chunk list) io" where
  "cut_document doc =
     (case chunk_document (rd_type doc) (rd_body doc) of
        None \<Rightarrow> throw Out_Of_Fuel | Some (Inl e) \<Rightarrow> throw e | Some (Inr cs) \<Rightarrow> return cs)"

definition ingest_one ::
  "outside \<Rightarrow> digests \<Rightarrow> ingest_settings \<Rightarrow> (document_ref \<Rightarrow> ('z ingest_state_scheme, raw_document option) io)
    \<Rightarrow> source_config \<Rightarrow> document_ref \<Rightarrow> run_counts \<Rightarrow> ('z ingest_state_scheme, run_counts) io" where
  "ingest_one env lib c fetch cfg ref n0 =
     (let n = n0\<lparr>n_seen := n_seen n0 + 1\<rparr> in
      bind (gets (\<lambda>s. row_of (documents s) (dr_doc_id ref))) (\<lambda>existing.
      bind (catch_all (bind (fetch ref) (\<lambda>d. return (Some d))) (\<lambda>e. return None)) (\<lambda>r.
        case r of
          None \<Rightarrow> return (n\<lparr>n_failed := n_failed n + 1\<rparr>)
        | Some None \<Rightarrow> return n
        | Some (Some doc) \<Rightarrow>
            bind (cut_document doc) (\<lambda>results.
              if results = [] then return n
              else index_chunks env lib c cfg ref existing doc results n))))"

fun ingest_all ::
  "outside \<Rightarrow> digests \<Rightarrow> ingest_settings \<Rightarrow> (document_ref \<Rightarrow> ('z ingest_state_scheme, raw_document option) io)
    \<Rightarrow> source_config \<Rightarrow> document_ref list \<Rightarrow> run_counts \<Rightarrow> ('z ingest_state_scheme, run_counts) io" where
  "ingest_all env lib c fetch cfg [] n = return n"
| "ingest_all env lib c fetch cfg (ref # refs) n =
     bind (ingest_one env lib c fetch cfg ref n) (ingest_all env lib c fetch cfg refs)"

definition update_run :: "outside \<Rightarrow> int \<Rightarrow> run_counts \<Rightarrow> 'z ingest_state_scheme \<Rightarrow> 'z ingest_state_scheme" where
  "update_run env run_id n s =
     s\<lparr>runs := update_where (\<lambda>k _. k = run_id)
        (\<lambda>r. r\<lparr>ir_finished_at := Some (utc_now env s), ir_status := ''completed'', ir_chunks_added := n_added n,
               ir_chunks_unchanged := n_unchanged n, ir_docs_seen := n_seen n, ir_docs_failed := n_failed n,
               ir_embedding_tokens := embedder_tokens s\<rparr>) (runs s)\<rparr>"

text \<open>A run of a source; \<open>discover\<close> yields the references it will look at.\<close>

definition run_source ::
  "outside \<Rightarrow> digests \<Rightarrow> ingest_settings \<Rightarrow> ('z ingest_state_scheme, document_ref list) io
    \<Rightarrow> (document_ref \<Rightarrow> ('z ingest_state_scheme, raw_document option) io)
    \<Rightarrow> source_config \<Rightarrow> int \<Rightarrow> ('z ingest_state_scheme, unit) io" where
  "run_source env lib c discover fetch cfg run_id =
     bind (modify (\<lambda>s. s\<lparr>embedder_tokens := 0\<rparr>)) (\<lambda>_.
     bind discover (\<lambda>refs.
     bind (ingest_all env lib c fetch cfg refs \<lparr>n_added = 0, n_unchanged = 0, n_seen = 0, n_failed = 0\<rparr>) (\<lambda>n.
       modify (update_run env run_id n))))"

end
