(* ===== verification/Index_Mirror.thy ===== *)
theory Index_Mirror
  imports Knowledge_Index
begin

text \<open>
  What the ingestion pipeline keeps true of the index. Seen from outside, a document in the index
  is a set of numbered contents (\<open>doc_view\<close>); the theorems say when a run makes it the chunks of
  the fetched text, and when it does not. The adapters enter by what they promise: to leave the
  store alone.
\<close>

section \<open>What leaves the store alone\<close>

definition same_store :: "'z ingest_state_scheme \<Rightarrow> 'z ingest_state_scheme \<Rightarrow> bool" where
  "same_store s s' \<longleftrightarrow> index_points s' = index_points s \<and> documents s' = documents s \<and> runs s' = runs s"

abbreviation quiet :: "('z ingest_state_scheme, 'a) io \<Rightarrow> bool" where
  "quiet m \<equiv> obeys (\<lambda>_. True) same_store m"

interpretation quietly: io_relation "\<lambda>_. True" same_store
  by unfold_locales (auto simp: same_store_def)

lemma quiet_framed:
  fixes m :: "('z ingest_state_scheme, 'a) io"
  assumes "framed m"
  shows "quiet m"
proof -
  have "same_more w w' \<Longrightarrow> same_store w w'" for w w' :: "'z ingest_state_scheme"
    by (cases w; cases w') (simp add: same_more_def same_store_def)
  then show ?thesis using assms by (auto simp: obeys_def)
qed

lemma quiet_tokens: "quiet (modify (\<lambda>s. s\<lparr>embedder_tokens := f s\<rparr>))"
  by (simp add: obeys_def same_store_def io_simps)

lemma quiet_catch: "quiet m \<Longrightarrow> (\<And>e. quiet (h e)) \<Longrightarrow> quiet (catch_all m h)"
  unfolding catch_all_def by (intro quietly.obeys_rules)

lemmas quiet_rules = quietly.obeys_rules quiet_catch quiet_tokens quiet_framed [OF framed_looks(1)]
  quiet_framed [OF framed_looks(3)]

lemma quiet_embed: "quiet (embed_many env c texts)"
proof -
  have once: "quiet (embed_once env c ts)" for ts
    unfolding embed_once_def by (intro quiet_rules)
  have "quiet (embed_attempts env c ts a k)" for ts a k
    by (induction k arbitrary: a) (simp_all add: once quiet_rules)
  then show ?thesis unfolding embed_many_def embed_batch_def by (intro quiet_rules)
qed

lemma quiet_qdrant: "quiet (qdrant env command)"
  unfolding qdrant_def by (intro quiet_rules)

lemma quietD: "quiet m \<Longrightarrow> m s = (s', r) \<Longrightarrow> same_store s s'"
  using obeysD [of "\<lambda>_. True" same_store m s s' r] by simp

section \<open>A document in the index\<close>

definition point_doc :: "index_point \<Rightarrow> string" where
  "point_doc p = cp_doc_id (pt_payload p)"

definition point_chunk :: "index_point \<Rightarrow> nat" where
  "point_chunk p = cp_chunk_id (pt_payload p)"

definition point_content :: "index_point \<Rightarrow> string" where
  "point_content p = cp_content (pt_payload p)"

definition doc_view :: "(string, index_point) table \<Rightarrow> string \<Rightarrow> (nat \<times> string) set" where
  "doc_view t d = (\<lambda>(_, p). (point_chunk p, point_content p)) ` {x \<in> set t. point_doc (snd x) = d}"

lemma doc_view_Cons:
  "doc_view [] d = {}"
  "doc_view ((k, p) # t) d =
     (if point_doc p = d then insert (point_chunk p, point_content p) (doc_view t d) else doc_view t d)"
  by (auto simp: doc_view_def)

definition point_stored :: "digests \<Rightarrow> string \<Rightarrow> index_point \<Rightarrow> bool" where
  "point_stored lib k p \<longleftrightarrow> k = make_point_id lib (point_doc p) (point_chunk p) \<and>
     cp_content_hash (pt_payload p) = content_hash lib (point_content p)"

definition well_stored :: "digests \<Rightarrow> (string, index_point) table \<Rightarrow> bool" where
  "well_stored lib t \<longleftrightarrow> keyed t \<and> (\<forall>(k, p)\<in>set t. point_stored lib k p)"

text \<open>A document's row knows how many chunks it may have.\<close>

definition tracked :: "'z ingest_state_scheme \<Rightarrow> bool" where
  "tracked s \<longleftrightarrow> (\<forall>(_, p)\<in>set (index_points s).
     \<exists>d. row_of (documents s) (point_doc p) = Some d \<and> int (point_chunk p) < id_chunk_count d)"

definition index_ok :: "digests \<Rightarrow> 'z ingest_state_scheme \<Rightarrow> bool" where
  "index_ok lib s \<longleftrightarrow> well_stored lib (index_points s) \<and> tracked s"

text \<open>Neither digest collides on the names and contents at hand.\<close>

definition names_of :: "(string, index_point) table \<Rightarrow> string set" where
  "names_of t = (\<lambda>(_, p). point_name (point_doc p) (point_chunk p)) ` set t"

definition no_clash :: "digests \<Rightarrow> (string, index_point) table \<Rightarrow> string \<Rightarrow> string list \<Rightarrow> bool" where
  "no_clash lib t d texts \<longleftrightarrow>
     inj_on (uuid5_text lib) (names_of t \<union> point_name d ` {..< length texts}) \<and>
     inj_on (sha256_hex lib) ((point_content \<circ> snd) ` set t \<union> set texts)"

lemma digits_no_colon: "CHR '':'' \<notin> set (show_nat n)"
proof
  assume "CHR '':'' \<in> set (show_nat n)"
  then obtain d where "d < 10" "CHR '':'' = digit_char d"
    using set_show_base [of 10 "CHR '':''" n] by (auto simp: show_nat_def)
  moreover have "code (CHR '':'') = 58" by simp
  ultimately show False using code_digit_char [of d] by simp
qed

lemma show_nat_inj: "show_nat m = show_nat n \<Longrightarrow> m = n"
proof -
  assume "show_nat m = show_nat n"
  moreover have "read_unsigned 10 (show_nat k) = Some (int k)" for k
    unfolding show_nat_def by (rule read_unsigned_show_base) simp_all
  ultimately show "m = n" by (metis of_nat_eq_iff option.inject)
qed

lemma point_name_inj: "point_name d i = point_name d' i' \<longleftrightarrow> d = d' \<and> i = i'"
proof
  assume eq: "point_name d i = point_name d' i'"
  have "takeWhile (\<lambda>c. c \<noteq> CHR '':'') (rev (point_name d i)) = rev (show_nat i)" for d i
    using digits_no_colon [of i] by (auto simp: point_name_def takeWhile_append)
  then show "d = d' \<and> i = i'" using eq show_nat_inj by (metis append_same_eq point_name_def rev_rev_ident)
qed simp

section \<open>Writing points\<close>

lemma set_put_keyed: "keyed t \<Longrightarrow> set (put_row k r t) = insert (k, r) {x \<in> set t. fst x \<noteq> k}"
  using keyed_row_of [of "put_row k r t"] keyed_row_of [of t] by (auto simp: table_simps split: if_splits)

lemma put_point_doc: "put_point lib p t = put_row (make_point_id lib (point_doc p) (point_chunk p)) p t"
  by (simp add: put_point_def point_doc_def point_chunk_def)

text \<open>On names that do not collide, a written point replaces the one of the same document and number.\<close>

lemma set_put_point:
  assumes "well_stored lib t" and "inj_on (uuid5_text lib) N" and "names_of t \<subseteq> N"
    and "point_name (point_doc p) (point_chunk p) \<in> N"
  shows "snd ` set (put_point lib p t) =
    insert p {q \<in> snd ` set t. \<not> (point_doc q = point_doc p \<and> point_chunk q = point_chunk p)}"
proof -
  have "k = make_point_id lib (point_doc p) (point_chunk p) \<longleftrightarrow> point_doc q = point_doc p \<and> point_chunk q = point_chunk p"
    if "(k, q) \<in> set t" for k q
  proof -
    have "k = uuid5_text lib (point_name (point_doc q) (point_chunk q))" "point_name (point_doc q) (point_chunk q) \<in> N"
      using that assms(1,3) by (auto simp: well_stored_def point_stored_def make_point_id_def names_of_def)
    then show ?thesis
      using inj_onD [OF assms(2), of "point_name (point_doc q) (point_chunk q)" "point_name (point_doc p) (point_chunk p)"]
        assms(4) by (auto simp: make_point_id_def point_name_inj)
  qed
  then show ?thesis
    using assms(1) by (fastforce simp: put_point_doc set_put_keyed well_stored_def image_iff)
qed

lemma well_stored_put:
  "well_stored lib t \<Longrightarrow> cp_content_hash (pt_payload p) = content_hash lib (point_content p) \<Longrightarrow>
     well_stored lib (put_point lib p t)"
  by (auto simp: well_stored_def put_point_doc set_put_keyed point_stored_def)

lemma names_put: "well_stored lib t \<Longrightarrow> names_of t \<subseteq> N \<Longrightarrow> point_name (point_doc p) (point_chunk p) \<in> N \<Longrightarrow>
     names_of (put_point lib p t) \<subseteq> N"
  by (auto simp: names_of_def well_stored_def put_point_doc set_put_keyed)

lemma fold_put_points:
  assumes "inj_on (uuid5_text lib) N"
  shows "well_stored lib t \<Longrightarrow> names_of t \<subseteq> N \<Longrightarrow>
     (\<And>p. p \<in> set ps \<Longrightarrow> point_doc p = d \<and> point_name d (point_chunk p) \<in> N \<and>
        cp_content_hash (pt_payload p) = content_hash lib (point_content p)) \<Longrightarrow>
     distinct (map point_chunk ps) \<Longrightarrow>
     well_stored lib (fold (put_point lib) ps t) \<and>
     snd ` set (fold (put_point lib) ps t) =
       set ps \<union> {q \<in> snd ` set t. \<not> (point_doc q = d \<and> point_chunk q \<in> point_chunk ` set ps)}"
proof (induction ps arbitrary: t)
  case (Cons p ps)
  have p: "point_doc p = d" "point_name d (point_chunk p) \<in> N"
      "cp_content_hash (pt_payload p) = content_hash lib (point_content p)"
    using Cons.prems(3) [of p] by simp_all
  have s: "snd ` set (put_point lib p t) = insert p {q \<in> snd ` set t. \<not> (point_doc q = d \<and> point_chunk q = point_chunk p)}"
    using set_put_point [OF Cons.prems(1) assms Cons.prems(2)] p by simp
  have "well_stored lib (fold (put_point lib) ps (put_point lib p t)) \<and>
      snd ` set (fold (put_point lib) ps (put_point lib p t)) =
       set ps \<union> {q \<in> snd ` set (put_point lib p t). \<not> (point_doc q = d \<and> point_chunk q \<in> point_chunk ` set ps)}"
    by (rule Cons.IH) (use Cons.prems p well_stored_put names_put in auto)
  then show ?case using Cons.prems(4) p(1) by (auto simp: s)
qed simp

lemma doc_view_points: "doc_view t d = (\<lambda>p. (point_chunk p, point_content p)) ` {p \<in> snd ` set t. point_doc p = d}"
  by (force simp: doc_view_def)

section \<open>The steps of the pipeline\<close>

definition same_chunks :: "(string, index_point) table \<Rightarrow> string \<Rightarrow> (nat \<Rightarrow> string) \<Rightarrow> nat \<Rightarrow> nat" where
  "same_chunks t d h i = length (filter (\<lambda>(_, p). is_same_chunk (h i) d i p) t)"

lemma count_step:
  "count_by_content_hash env h d i s = (s', Inr k) \<Longrightarrow>
     same_store s s' \<and> k = length (filter (\<lambda>(_, p). is_same_chunk h d i p) (index_points s))"
  using quietD [OF quiet_qdrant] by (force simp: count_by_content_hash_def bind_Inr io_simps same_store_def)

lemma count_steps:
  "for_each (\<lambda>i. count_by_content_hash env (h i) d i) is s = (s', Inr ks) \<Longrightarrow>
     same_store s s' \<and> ks = map (same_chunks (index_points s) d h) is"
proof (induction "is" arbitrary: s ks)
  case (Cons i "is")
  then obtain s1 k ks' where 1: "count_by_content_hash env (h i) d i s = (s1, Inr k)"
      and 2: "for_each (\<lambda>i. count_by_content_hash env (h i) d i) is s1 = (s', Inr ks')"
      and ks: "ks = k # ks'"
    by (auto simp: bind_Inr io_simps)
  show ?case using count_step [OF 1] Cons.IH [OF 2] ks by (auto simp: same_store_def same_chunks_def)
qed (simp add: io_simps same_store_def)

lemma upsert_step:
  assumes "upsert_batch env lib payloads dense sparse s = (s', Inr k)"
  shows "\<exists>ps. map pt_payload ps = map fst (zip payloads (zip dense sparse)) \<and> k = length ps \<and>
    index_points s' = fold (put_point lib) ps (index_points s) \<and> documents s' = documents s"
proof -
  let ?ps = "map (\<lambda>(p, d, v). point_of (millis_now env s) p d v) (zip payloads (zip dense sparse))"
  have m: "map pt_payload ?ps = map fst (zip payloads (zip dense sparse))"
    by (auto simp: point_of_def)
  show ?thesis
  proof (cases "?ps = []")
    case True
    then show ?thesis using assms m by (intro exI [of _ ?ps]) (auto simp: upsert_batch_def bind_Inr io_simps)
  next
    case False
    then obtain s1 where q: "qdrant env ''upsert'' s = (s1, Inr ())"
        and "s' = s1\<lparr>index_points := fold (put_point lib) ?ps (index_points s1)\<rparr>" "k = length ?ps"
      using assms by (auto simp: upsert_batch_def bind_Inr io_simps)
    moreover have "index_points s1 = index_points s" "documents s1 = documents s"
      using quietD [OF quiet_qdrant q] by (simp_all add: same_store_def)
    ultimately show ?thesis using m by (intro exI [of _ ?ps]) simp
  qed
qed

definition drops_tail :: "ingest_document option \<Rightarrow> nat \<Rightarrow> bool" where
  "drops_tail existing n \<longleftrightarrow> (case existing of None \<Rightarrow> False | Some d \<Rightarrow> int n < id_chunk_count d)"

lemma store_step:
  assumes "store_chunks env lib c cfg ref existing doc results new n dense s = (s', Inr n')"
  shows "\<exists>ps row. map pt_payload ps = take (length ps) (map (payload_of lib cfg ref doc results) new) \<and>
    n' = n\<lparr>n_added := n_added n + int (length ps)\<rparr> \<and>
    index_points s' = (let t = fold (put_point lib) ps (index_points s) in
      if drops_tail existing (length results)
      then filter (\<lambda>(_, p). \<not> is_tail (dr_doc_id ref) (length results) p) t else t) \<and>
    documents s' = put_row (dr_doc_id ref) row (documents s) \<and> id_chunk_count row = int (length results)"
proof -
  let ?tail = "case existing of
      Some d \<Rightarrow> (if int (length results) < id_chunk_count d
                 then delete_tail_chunks env (dr_doc_id ref) (length results) else return ())
    | None \<Rightarrow> return ()"
  obtain s1 k s2 where 1: "upsert_batch env lib (map (payload_of lib cfg ref doc results) new) dense
        (map (\<lambda>i. make_sparse_vector (ch_text (results ! i))) new) s = (s1, Inr k)"
      and 2: "?tail s1 = (s2, Inr ())"
      and 3: "s' = upsert_doc env (dr_doc_id ref) (sc_id cfg) (dr_url ref)
        (content_hash lib (ch_text (hd results))) (int (length results)) s2" "n' = n\<lparr>n_added := n_added n + int k\<rparr>"
    using assms by (auto simp: store_chunks_def bind_Inr io_simps)
  obtain ps where ps: "map pt_payload ps = map fst (zip (map (payload_of lib cfg ref doc results) new)
        (zip dense (map (\<lambda>i. make_sparse_vector (ch_text (results ! i))) new)))" "k = length ps"
      "index_points s1 = fold (put_point lib) ps (index_points s)" "documents s1 = documents s"
    using upsert_step [OF 1] by blast
  let ?xs = "map (payload_of lib cfg ref doc results) new"
  let ?ys = "zip dense (map (\<lambda>i. make_sparse_vector (ch_text (results ! i))) new)"
  have "map pt_payload ps = take (min (length ?xs) (length ?ys)) ?xs" using ps(1) by (simp only: map_fst_zip_take)
  moreover from this have "length ps = min (length ?xs) (length ?ys)" by (metis length_map length_take min.cobounded1 min.absorb2)
  ultimately have payloads: "map pt_payload ps = take (length ps) ?xs" by simp
  have tail: "index_points s2 = (if drops_tail existing (length results)
      then filter (\<lambda>(_, p). \<not> is_tail (dr_doc_id ref) (length results) p) (index_points s1) else index_points s1) \<and>
      documents s2 = documents s1"
  proof (cases "drops_tail existing (length results)")
    case True
    then have "delete_tail_chunks env (dr_doc_id ref) (length results) s1 = (s2, Inr ())"
      using 2 by (auto simp: drops_tail_def split: option.splits)
    then obtain u where q: "qdrant env ''delete'' s1 = (u, Inr ())"
        and s2: "s2 = u\<lparr>index_points := filter (\<lambda>(_, p). \<not> is_tail (dr_doc_id ref) (length results) p) (index_points u)\<rparr>"
      by (auto simp: delete_tail_chunks_def bind_Inr io_simps)
    then show ?thesis using True quietD [OF quiet_qdrant q] by (simp add: same_store_def)
  next
    case False
    then have "s2 = s1" using 2 by (auto simp: drops_tail_def io_simps split: option.splits if_splits)
    then show ?thesis using False by simp
  qed
  show ?thesis
    using payloads ps 3 tail
    by (intro exI [of _ ps] exI [of _ "the (row_of (documents s') (dr_doc_id ref))"])
      (auto simp: upsert_doc_def Let_def table_simps split: option.split)
qed

definition missing :: "digests \<Rightarrow> (string, index_point) table \<Rightarrow> string \<Rightarrow> chunk list \<Rightarrow> nat list" where
  "missing lib t d results =
     filter (\<lambda>i. same_chunks t d (\<lambda>i. content_hash lib (ch_text (results ! i))) i = 0) [0 ..< length results]"

text \<open>Either the store stays as it was, or the missing chunks are written, as many as vectors came.\<close>

lemma index_step:
  assumes "index_chunks env lib c cfg ref existing doc results n s = (s', Inr n')"
  defines "new \<equiv> missing lib (index_points s) (dr_doc_id ref) results"
  shows "(same_store s s' \<and> n_added n' = n_added n \<and>
      n_unchanged n' = n_unchanged n + int (length results - length new)) \<or>
    (\<exists>ps row. map pt_payload ps = take (length ps) (map (payload_of lib cfg ref doc results) new) \<and> new \<noteq> [] \<and>
      n_added n' = n_added n + int (length ps) \<and>
      n_unchanged n' = n_unchanged n + int (length results - length new) \<and>
      index_points s' = (let t = fold (put_point lib) ps (index_points s) in
        if drops_tail existing (length results)
        then filter (\<lambda>(_, p). \<not> is_tail (dr_doc_id ref) (length results) p) t else t) \<and>
      documents s' = put_row (dr_doc_id ref) row (documents s) \<and> id_chunk_count row = int (length results))"
proof -
  let ?h = "\<lambda>i. content_hash lib (ch_text (results ! i))"
  let ?n2 = "n\<lparr>n_unchanged := n_unchanged n + int (length results - length new)\<rparr>"
  let ?embed = "catch_all (bind (embed_many env c (map (\<lambda>i. ch_text (results ! i)) new)) (\<lambda>v. return (Some v)))
      (\<lambda>e. return None)"
  obtain s1 ks where 1: "for_each (\<lambda>i. count_by_content_hash env (?h i) (dr_doc_id ref) i) [0 ..< length results] s = (s1, Inr ks)"
      and 2: "(let new = filter (\<lambda>i. ks ! i = 0) [0 ..< length results];
             n2 = n\<lparr>n_unchanged := n_unchanged n + int (length results - length new)\<rparr>
         in if new = [] then return n2
            else index_missing env lib c cfg ref existing doc results new n2) s1 = (s', Inr n')"
    using assms(1) by (auto simp: index_chunks_def bind_Inr)
  note c = count_steps [OF 1]
  have "filter (\<lambda>i. ks ! i = 0) [0 ..< length results] = new"
    using c unfolding new_def missing_def by (intro filter_cong) auto
  then have 2: "(if new = [] then return ?n2
      else index_missing env lib c cfg ref existing doc results new ?n2) s1 = (s', Inr n')"
    using 2 by (simp add: Let_def)
  show ?thesis
  proof (cases "new = []")
    case True
    then have "s' = s1" "n' = ?n2" using 2 by (simp_all add: io_simps)
    then show ?thesis using c by simp
  next
    case False
    then have "index_missing env lib c cfg ref existing doc results new ?n2 s1 = (s', Inr n')" using 2 by simp
    then obtain s2 r where 3: "?embed s1 = (s2, Inr r)"
        and 4: "(case r of None \<Rightarrow> return (?n2\<lparr>n_failed := n_failed ?n2 + 1\<rparr>)
              | Some dense \<Rightarrow> store_chunks env lib c cfg ref existing doc results new ?n2 dense) s2 = (s', Inr n')"
      unfolding index_missing_def bind_Inr by blast
    have q: "quiet ?embed" by (intro quiet_rules quiet_embed)
    have s2: "same_store s s2" using quietD [OF q 3] c quietly.R_trans by blast
    show ?thesis
    proof (cases r)
      case None
      then have "s' = s2" "n' = ?n2\<lparr>n_failed := n_failed ?n2 + 1\<rparr>" using 4 by (simp_all add: io_simps)
      then show ?thesis using s2 by simp
    next
      case (Some dense)
      then have "store_chunks env lib c cfg ref existing doc results new ?n2 dense s2 = (s', Inr n')" using 4 by simp
      from store_step [OF this] False s2 show ?thesis
        by (elim exE, intro disjI2) (auto simp: same_store_def)
    qed
  qed
qed

section \<open>The mirror\<close>

lemma payload_point:
  "pt_payload p = payload_of lib cfg ref doc results i \<Longrightarrow>
     point_doc p = dr_doc_id ref \<and> point_chunk p = i \<and> point_content p = ch_text (results ! i) \<and>
     cp_content_hash (pt_payload p) = content_hash lib (point_content p)"
  by (simp add: payload_of_def Let_def point_doc_def point_chunk_def point_content_def)

lemma stored_points:
  assumes "map pt_payload ps = take (length ps) (map (payload_of lib cfg ref doc results) new)"
    and "length ps = length new"
  shows "map point_chunk ps = new" and "map point_content ps = map (\<lambda>i. ch_text (results ! i)) new"
    and "\<And>p. p \<in> set ps \<Longrightarrow> point_doc p = dr_doc_id ref \<and> cp_content_hash (pt_payload p) = content_hash lib (point_content p)"
proof -
  have eq: "map pt_payload ps = map (payload_of lib cfg ref doc results) new" using assms by simp
  then have "list_all2 (\<lambda>p i. pt_payload p = payload_of lib cfg ref doc results i) ps new"
    by (simp add: list_all2_conv_all_nth list_eq_iff_nth_eq)
  then have all: "list_all2 (\<lambda>p i. point_doc p = dr_doc_id ref \<and> point_chunk p = i \<and> point_content p = ch_text (results ! i) \<and>
     cp_content_hash (pt_payload p) = content_hash lib (point_content p)) ps new"
    by (rule list_all2_mono) (rule payload_point)
  show "map point_chunk ps = new" "map point_content ps = map (\<lambda>i. ch_text (results ! i)) new"
    using all by (induction rule: list_all2_induct) auto
  show "\<And>p. p \<in> set ps \<Longrightarrow> point_doc p = dr_doc_id ref \<and> cp_content_hash (pt_payload p) = content_hash lib (point_content p)"
    using all by (induction rule: list_all2_induct) auto
qed

lemma well_storedD: "well_stored lib t \<Longrightarrow> (k, p) \<in> set t \<Longrightarrow> point_stored lib k p"
  by (auto simp: well_stored_def)

lemma well_stored_unique:
  assumes "well_stored lib t" and "p \<in> snd ` set t" and "q \<in> snd ` set t"
    and "point_doc p = point_doc q" and "point_chunk p = point_chunk q"
  shows "p = q"
proof -
  obtain k l where k: "(k, p) \<in> set t" and l: "(l, q) \<in> set t" using assms(2,3) by auto
  then have "k = l"
    using well_storedD [OF assms(1) k] well_storedD [OF assms(1) l] assms(4,5) by (simp add: point_stored_def)
  then show ?thesis using k l assms(1) by (metis eq_key_imp_eq_value keyed_def well_stored_def)
qed

text \<open>A chunk the index does not miss is there, and nothing else under its number.\<close>

lemma found_chunk:
  assumes "well_stored lib t" and "inj_on (sha256_hex lib) ((point_content \<circ> snd) ` set t \<union> set (map ch_text results))"
    and "i < length results" and "i \<notin> set (missing lib t d results)"
  shows "\<exists>q \<in> snd ` set t. point_doc q = d \<and> point_chunk q = i \<and> point_content q = ch_text (results ! i)"
proof -
  have "filter (\<lambda>(_, p). is_same_chunk (content_hash lib (ch_text (results ! i))) d i p) t \<noteq> []"
    using assms(3,4) by (auto simp: missing_def same_chunks_def)
  then obtain k q where q: "(k, q) \<in> set t" "is_same_chunk (content_hash lib (ch_text (results ! i))) d i q"
    by (auto simp: filter_empty_conv)
  then have "sha256_hex lib (point_content q) = sha256_hex lib (ch_text (results ! i))"
    using assms(1) by (auto simp: well_stored_def point_stored_def is_same_chunk_def content_hash_def)
  then have "point_content q = ch_text (results ! i)"
    by (rule inj_onD [OF assms(2)]) (use q(1) assms(3) in \<open>force+\<close>)
  then show ?thesis using q by (force simp: is_same_chunk_def point_doc_def point_chunk_def)
qed

lemma mirror_tables:
  fixes t :: "(string, index_point) table"
  assumes ok: "well_stored lib t" and clash: "no_clash lib t d (map ch_text results)"
    and d: "d = dr_doc_id ref" and new: "new = missing lib t d results"
    and ps: "map pt_payload ps = take (length ps) (map (payload_of lib cfg ref doc results) new)" "length ps = length new"
    and t': "t' = (let u = fold (put_point lib) ps t in
      if shrink then filter (\<lambda>(_, p). \<not> is_tail d (length results) p) u else u)"
    and tail: "\<And>p. \<not> shrink \<Longrightarrow> p \<in> snd ` set t \<Longrightarrow> point_doc p = d \<Longrightarrow> point_chunk p < length results"
  shows "well_stored lib t'" and "doc_view t' d = (\<lambda>i. (i, ch_text (results ! i))) ` {..< length results}"
    and "snd ` set t' \<subseteq> {p. point_doc p = d \<and> point_chunk p < length results} \<union> snd ` set t"
    and "d' \<noteq> d \<Longrightarrow> doc_view t' d' = doc_view t d'"
    and "p \<in> snd ` set t' \<Longrightarrow> point_doc p = d \<Longrightarrow> point_chunk p < length results"
proof -
  let ?u = "fold (put_point lib) ps t"
  let ?N = "names_of t \<union> point_name d ` {..< length results}"
  note sp = stored_points [OF ps]
  have new_less: "i \<in> set new \<Longrightarrow> i < length results" for i by (auto simp: new missing_def)
  have chunks: "point_chunk ` set ps = set new" using sp(1) by (metis set_map)
  have "point_doc p = d \<and> point_name d (point_chunk p) \<in> ?N \<and>
      cp_content_hash (pt_payload p) = content_hash lib (point_content p)" if "p \<in> set ps" for p
    using sp(3) [OF that] new_less [of "point_chunk p"] chunks that d by auto
  moreover have "inj_on (uuid5_text lib) ?N" using clash by (simp add: no_clash_def)
  moreover have "distinct (map point_chunk ps)" unfolding sp(1) new missing_def by simp
  ultimately have "well_stored lib ?u \<and> snd ` set ?u =
      set ps \<union> {q \<in> snd ` set t. \<not> (point_doc q = d \<and> point_chunk q \<in> point_chunk ` set ps)}"
    using fold_put_points [of lib ?N t ps d] ok by blast
  then have u: "well_stored lib ?u" "snd ` set ?u = set ps \<union> {q \<in> snd ` set t. \<not> (point_doc q = d \<and> point_chunk q \<in> set new)}"
    using chunks by simp_all
  have sub: "set t' \<subseteq> set ?u" by (auto simp: t' Let_def)
  have points: "q \<in> snd ` set t' \<longleftrightarrow> q \<in> snd ` set ?u \<and> (point_doc q = d \<longrightarrow> point_chunk q < length results)" for q
  proof (cases shrink)
    case True
    then show ?thesis by (force simp: t' is_tail_def point_doc_def point_chunk_def)
  next
    case False
    then have "q \<in> snd ` set ?u \<Longrightarrow> point_doc q = d \<Longrightarrow> point_chunk q < length results"
      using u(2) tail chunks new_less by blast
    then show ?thesis using False by (auto simp: t')
  qed
  show "well_stored lib t'"
  proof -
    have "keyed t'" using u(1) by (auto simp: t' Let_def well_stored_def keyed_def distinct_map_filter)
    then show ?thesis using u(1) sub by (auto simp: well_stored_def)
  qed
  have content: "p \<in> set ps \<Longrightarrow> point_content p = ch_text (results ! point_chunk p)" for p
    using sp(1,2) by (metis (no_types, lifting) in_set_conv_nth length_map nth_map)
  have inj: "inj_on (sha256_hex lib) ((point_content \<circ> snd) ` set t \<union> set (map ch_text results))"
    using clash by (simp add: no_clash_def)
  have old: "point_content q = ch_text (results ! point_chunk q)"
    if "q \<in> snd ` set t" "point_doc q = d" "point_chunk q \<notin> set new" "point_chunk q < length results" for q
    using found_chunk [OF ok inj that(4)] that well_stored_unique [OF ok] new by metis
  show "doc_view t' d = (\<lambda>i. (i, ch_text (results ! i))) ` {..< length results}" (is "?l = ?r")
  proof
    show "?l \<subseteq> ?r"
      using points u(2) content old by (force simp: doc_view_points)
    show "?r \<subseteq> ?l"
    proof
      fix x assume "x \<in> ?r"
      then obtain i where i: "i < length results" "x = (i, ch_text (results ! i))" by auto
      have "\<exists>q \<in> snd ` set ?u. point_doc q = d \<and> point_chunk q = i \<and> point_content q = ch_text (results ! i)"
      proof (cases "i \<in> set new")
        case True
        then obtain p where "p \<in> set ps" "point_chunk p = i" using chunks by (metis imageE)
        then show ?thesis using sp(3) content d u(2) by auto
      next
        case False
        then show ?thesis using found_chunk [OF ok inj i(1), of d] u(2) new by auto
      qed
      then show "x \<in> ?l" using i points by (force simp: doc_view_points)
    qed
  qed
  show "snd ` set t' \<subseteq> {p. point_doc p = d \<and> point_chunk p < length results} \<union> snd ` set t"
    using points u(2) sp(3) d by auto
  show "p \<in> snd ` set t' \<Longrightarrow> point_doc p = d \<Longrightarrow> point_chunk p < length results" using points by blast
  assume "d' \<noteq> d"
  then have "{p \<in> snd ` set t'. point_doc p = d'} = {p \<in> snd ` set t. point_doc p = d'}"
    using points u(2) sp(3) d by auto
  then show "doc_view t' d' = doc_view t d'" by (simp add: doc_view_points)
qed

text \<open>Chunks that are all in the index are not missing.\<close>

lemma none_missing:
  assumes "well_stored lib t" and "\<And>i. i < length results \<Longrightarrow> (i, ch_text (results ! i)) \<in> doc_view t d"
  shows "missing lib t d results = []"
proof -
  have "same_chunks t d (\<lambda>i. content_hash lib (ch_text (results ! i))) i \<noteq> 0" if i: "i < length results" for i
  proof -
    obtain k p where p: "(k, p) \<in> set t" "point_doc p = d" "point_chunk p = i" "point_content p = ch_text (results ! i)"
      using assms(2) [OF i] by (auto simp: doc_view_def)
    then have "is_same_chunk (content_hash lib (ch_text (results ! i))) d i p"
      using well_storedD [OF assms(1) p(1)]
      by (simp add: is_same_chunk_def point_stored_def point_doc_def point_chunk_def)
    then show ?thesis using p(1) by (force simp: same_chunks_def filter_empty_conv)
  qed
  then show ?thesis by (auto simp: missing_def filter_empty_conv)
qed

section \<open>Adapters\<close>

text \<open>What the pipeline asks of a source: fetching a document does not touch the store.\<close>

locale source_adapter =
  fixes fetch :: "document_ref \<Rightarrow> ('z ingest_state_scheme, raw_document option) io"
  assumes fetch_quiet: "quiet (fetch ref)"
begin

lemma fetched_step:
  assumes "ingest_one env lib c fetch cfg ref n s = (s', Inr n')" and "fetch ref s = (s1, Inr (Some doc))"
    and "chunk_document (rd_type doc) (rd_body doc) = Some (Inr cs)"
  shows "if cs = [] then s' = s1 \<and> n' = n\<lparr>n_seen := n_seen n + 1\<rparr>
    else index_chunks env lib c cfg ref (row_of (documents s) (dr_doc_id ref)) doc cs (n\<lparr>n_seen := n_seen n + 1\<rparr>) s1
      = (s', Inr n')"
  using assms
  by (auto simp: ingest_one_def Let_def bind_Inr io_simps catch_all_def try_except_def bind_def cut_document_def return_def)

lemma mirrors:
  assumes run: "ingest_one env lib c fetch cfg ref n s = (s', Inr n')" and got: "fetch ref s = (s1, Inr (Some doc))"
    and cs: "chunk_document (rd_type doc) (rd_body doc) = Some (Inr cs)"
    and ok: "index_ok lib s" and clash: "no_clash lib (index_points s) (dr_doc_id ref) (map ch_text cs)"
    and added: "n_added n < n_added n'"
    and all: "n_added n' + n_unchanged n' = n_added n + n_unchanged n + int (length cs)"
  shows "doc_view (index_points s') (dr_doc_id ref) = (\<lambda>i. (i, ch_text (cs ! i))) ` {..< length cs}"
    and "d' \<noteq> dr_doc_id ref \<Longrightarrow> doc_view (index_points s') d' = doc_view (index_points s) d'"
    and "index_ok lib s'"
proof -
  let ?d = "dr_doc_id ref" and ?t = "index_points s"
  let ?new = "missing lib ?t ?d cs"
  let ?old = "row_of (documents s) ?d"
  have s1: "same_store s s1" using quietD [OF fetch_quiet got] .
  have "cs \<noteq> []" using fetched_step [OF run got cs] added by auto
  then have step: "index_chunks env lib c cfg ref ?old doc cs (n\<lparr>n_seen := n_seen n + 1\<rparr>) s1 = (s', Inr n')"
    using fetched_step [OF run got cs] by simp
  obtain ps row where ps: "map pt_payload ps = take (length ps) (map (payload_of lib cfg ref doc cs) ?new)"
      and n': "n_added n' = n_added n + int (length ps)" "n_unchanged n' = n_unchanged n + int (length cs - length ?new)"
      and t': "index_points s' = (let t = fold (put_point lib) ps ?t in
        if drops_tail ?old (length cs) then filter (\<lambda>(_, p). \<not> is_tail ?d (length cs) p) t else t)"
      and docs: "documents s' = put_row ?d row (documents s)" "id_chunk_count row = int (length cs)"
    using index_step [OF step] s1 added by (auto simp: same_store_def)
  have "length ?new \<le> length cs" unfolding missing_def by (metis length_filter_le length_upt diff_zero)
  then have len: "length ps = length ?new" using all n' by simp
  have tail: "point_chunk p < length cs" if p: "\<not> drops_tail ?old (length cs)" "p \<in> snd ` set ?t" "point_doc p = ?d" for p
  proof -
    obtain k where "(k, p) \<in> set ?t" using p(2) by auto
    then obtain dd where "row_of (documents s) ?d = Some dd" "int (point_chunk p) < id_chunk_count dd"
      using ok p(3) by (auto simp: index_ok_def tracked_def)
    then show ?thesis using p(1) by (simp add: drops_tail_def)
  qed
  have st: "well_stored lib ?t" using ok by (simp add: index_ok_def)
  note m = mirror_tables [OF st clash refl refl ps len t' tail]
  show "doc_view (index_points s') ?d = (\<lambda>i. (i, ch_text (cs ! i))) ` {..< length cs}" by (rule m(2))
  show "d' \<noteq> ?d \<Longrightarrow> doc_view (index_points s') d' = doc_view ?t d'" by (rule m(4))
  have "\<exists>dd. row_of (documents s') (point_doc p) = Some dd \<and> int (point_chunk p) < id_chunk_count dd"
    if kp: "(k, p) \<in> set (index_points s')" for k p
  proof (cases "point_doc p = ?d")
    case True
    moreover have "p \<in> snd ` set (index_points s')" using kp by (metis imageI snd_conv)
    ultimately have "point_chunk p < length cs" using m(5) [of p] by blast
    then show ?thesis using True docs by (simp add: table_simps)
  next
    case False
    moreover have "p \<in> snd ` set (index_points s')" using kp by (metis imageI snd_conv)
    ultimately have "p \<in> snd ` set ?t" using m(3) by blast
    then obtain l where "(l, p) \<in> set ?t" by auto
    then obtain dd where "row_of (documents s) (point_doc p) = Some dd" "int (point_chunk p) < id_chunk_count dd"
      using ok by (auto simp: index_ok_def tracked_def)
    then show ?thesis using False docs(1) by (simp add: table_simps)
  qed
  then have "tracked s'" by (simp only: tracked_def) auto
  with m(1) show "index_ok lib s'" unfolding index_ok_def by (rule conjI)
qed

lemma stale_tail:
  assumes run: "ingest_one env lib c fetch cfg ref n s = (s', Inr n')" and got: "fetch ref s = (s1, Inr (Some doc))"
    and cs: "chunk_document (rd_type doc) (rd_body doc) = Some (Inr cs)" and ok: "index_ok lib s"
    and known: "\<And>i. i < length cs \<Longrightarrow> (i, ch_text (cs ! i)) \<in> doc_view (index_points s) (dr_doc_id ref)"
  shows "same_store s s'"
proof (cases "cs = []")
  case True
  then show ?thesis using fetched_step [OF run got cs] quietD [OF fetch_quiet got] by simp
next
  case False
  have s1: "same_store s s1" using quietD [OF fetch_quiet got] .
  have "missing lib (index_points s1) (dr_doc_id ref) cs = []"
    using none_missing [of lib "index_points s" cs "dr_doc_id ref"] ok known s1 by (simp add: index_ok_def same_store_def)
  moreover have "index_chunks env lib c cfg ref (row_of (documents s) (dr_doc_id ref)) doc cs (n\<lparr>n_seen := n_seen n + 1\<rparr>) s1
      = (s', Inr n')" using fetched_step [OF run got cs] False by simp
  ultimately have "same_store s1 s'" using index_step by fastforce
  then show ?thesis using s1 quietly.R_trans by blast
qed

end

end
