(* ===== verification/Crawl_Sources.thy ===== *)
theory Crawl_Sources
  imports Index_Mirror
begin

text \<open>
  Where documents come from: the adapters \<open>knowledge-ingestion-service/app/sources/docs_crawler.py\<close>
  and \<open>rss_poller.py\<close>, the clean-up of \<open>services/normaliser.py\<close>, and the endpoints of
  \<open>app/main.py\<close> that register sources and start runs. Parsing feeds, sitemaps and robots.txt,
  turning an article into markdown and searching a configured pattern are a parameter. URLs are
  absolute.
\<close>

section \<open>What the adapters are given\<close>

record feed_entry =
  fe_id :: "string option"
  fe_link :: "string option"
  fe_summary :: string
  fe_title :: string
  fe_published :: "int option"

text \<open>A sitemap's locations of sitemaps and of pages, \<open>None\<close> for an element without text; the
  whole is \<open>None\<close> when the text is not XML. No robots text stands for a robots.txt that could not be
  fetched.\<close>

record web_tools =
  parse_feed :: "string \<Rightarrow> feed_entry list"
  sitemap_locs :: "string \<Rightarrow> (string option list \<times> string option list) option"
  robots_allow :: "string \<Rightarrow> string \<Rightarrow> bool"
  article_markdown :: "string \<Rightarrow> string \<Rightarrow> string"
  re_search :: "string \<Rightarrow> string \<Rightarrow> bool"
  content_type_header :: "http_outcome \<Rightarrow> string"

section \<open>URLs\<close>

text \<open>\<open>urlparse(url)\<close>: scheme, network location, and the path without parameters, query and
  fragment.\<close>

definition url_scheme :: "string \<Rightarrow> string" where
  "url_scheme url = (case cut_at ''://'' url of None \<Rightarrow> [] | Some (a, b) \<Rightarrow> lower a)"

definition after_scheme :: "string \<Rightarrow> string" where
  "after_scheme url = (case cut_at ''://'' url of None \<Rightarrow> url | Some (a, b) \<Rightarrow> drop 3 b)"

definition url_netloc :: "string \<Rightarrow> string" where
  "url_netloc url = takeWhile (\<lambda>c. c \<notin> set ''/?#'') (after_scheme url)"

definition drop_params :: "string \<Rightarrow> string" where
  "drop_params path =
     (let last_segment = rev (takeWhile (\<lambda>c. c \<noteq> CHR ''/'') (rev path))
      in take (length path - length last_segment) path @ takeWhile (\<lambda>c. c \<noteq> CHR '';'') last_segment)"

definition url_path :: "string \<Rightarrow> string" where
  "url_path url =
     drop_params (takeWhile (\<lambda>c. c \<notin> set ''?#'') (drop (length (url_netloc url)) (after_scheme url)))"

definition url_root :: "string \<Rightarrow> string" where
  "url_root url = url_scheme url @ ''://'' @ url_netloc url"

section \<open>The documentation crawler\<close>

definition UA :: string where "UA = ''OPRAI-Knowledge/1.0 (+https://oprai.io/bot)''"

definition slug :: "string \<Rightarrow> string \<Rightarrow> string" where
  "slug url source_id =
     (let path = map (\<lambda>c. if c = CHR ''/'' \<or> c = CHR ''-'' then CHR ''_'' else c)
                   (rstrip_chars ''/'' (lstrip_chars ''/'' (url_path url)))
      in if path \<noteq> [] then source_id @ ''.'' @ path else source_id)"

definition matches_patterns :: "web_tools \<Rightarrow> string \<Rightarrow> string list \<Rightarrow> string list \<Rightarrow> bool" where
  "matches_patterns tools url incl excl =
     (if list_ex (\<lambda>pat. re_search tools pat url) excl then False
      else if incl \<noteq> [] then list_ex (\<lambda>pat. re_search tools pat url) incl
      else True)"

text \<open>\<open>tag.text.strip()\<close>; a tag without text raises.\<close>

definition loc_text :: "string option \<Rightarrow> exn + string" where
  "loc_text x = (case x of None \<Rightarrow> Inl AttributeError | Some t \<Rightarrow> Inr (strip t))"

definition parse_sitemap :: "web_tools \<Rightarrow> string \<Rightarrow> exn + string list" where
  "parse_sitemap tools xml =
     (case sitemap_locs tools xml of
        None \<Rightarrow> Inr []
      | Some (maps, pages) \<Rightarrow> collect loc_text (maps @ pages))"

definition get_robots :: "outside \<Rightarrow> string \<Rightarrow> ('z ingest_state_scheme, string option) io" where
  "get_robots env url =
     (let host = url_root url in
      bind (gets (\<lambda>s. row_of (robots_cache s) host)) (\<lambda>known.
        case known of
          Some r \<Rightarrow> return r
        | None \<Rightarrow>
            bind (http_call env ''GET'' (host @ ''/robots.txt'') JNull) (\<lambda>o1.
              let r = (case o1 of Transport_Error _ _ \<Rightarrow> None | Reply _ body \<Rightarrow> Some (raw_text env body))
              in bind (modify (\<lambda>s. s\<lparr>robots_cache := put_row host r (robots_cache s)\<rparr>)) (\<lambda>_. return r))))"

definition can_fetch :: "web_tools \<Rightarrow> string option \<Rightarrow> string \<Rightarrow> bool" where
  "can_fetch tools robots url = (case robots of None \<Rightarrow> True | Some r \<Rightarrow> robots_allow tools r url)"

text \<open>The delay of a source is in seconds.\<close>

definition delay_of :: "source_config \<Rightarrow> usec" where
  "delay_of cfg = \<lfloor>sc_crawl_delay cfg * 10 ^ 6\<rfloor>"

fun crawl_refs ::
  "outside \<Rightarrow> web_tools \<Rightarrow> source_config \<Rightarrow> int \<Rightarrow> string list \<Rightarrow> ('z ingest_state_scheme, document_ref list) io" where
  "crawl_refs env tools cfg count [] = return []"
| "crawl_refs env tools cfg count (url # urls) =
     (if count \<ge> sc_max_pages cfg then return []
      else if \<not> matches_patterns tools url (sc_include cfg) (sc_exclude cfg) then crawl_refs env tools cfg count urls
      else
        bind (get_robots env url) (\<lambda>robots.
          if \<not> can_fetch tools robots url then crawl_refs env tools cfg count urls
          else
            bind (sleep (delay_of cfg)) (\<lambda>_.
            bind (crawl_refs env tools cfg (count + 1) urls) (\<lambda>refs.
              return (\<lparr>dr_doc_id = slug url (sc_id cfg), dr_url = url\<rparr> # refs)))))"

text \<open>A GET that raised or was refused gives no response.\<close>

definition get_page :: "outside \<Rightarrow> string \<Rightarrow> ('z world_scheme, http_outcome option) io" where
  "get_page env url =
     bind (http_call env ''GET'' url JNull) (\<lambda>o1.
       return (case raise_for_status o1 of Inl _ \<Rightarrow> None | Inr _ \<Rightarrow> Some o1))"

definition response_text :: "outside \<Rightarrow> http_outcome \<Rightarrow> string" where
  "response_text env o1 = (case o1 of Transport_Error _ _ \<Rightarrow> [] | Reply _ body \<Rightarrow> raw_text env body)"

definition docs_discover ::
  "outside \<Rightarrow> web_tools \<Rightarrow> source_config \<Rightarrow> ('z ingest_state_scheme, document_ref list) io" where
  "docs_discover env tools cfg =
     bind (from_sum (field ''sitemap_url'' (sc_extra cfg))) (\<lambda>given.
       case j_or given (JStr (url_root (sc_base_url cfg) @ ''/sitemap.xml'')) of
         JStr sitemap_url \<Rightarrow>
           bind (get_page env sitemap_url) (\<lambda>page.
             case page of
               None \<Rightarrow> return []
             | Some o1 \<Rightarrow>
                 bind (from_sum (parse_sitemap tools (response_text env o1))) (crawl_refs env tools cfg 0))
       | _ \<Rightarrow> return [])"

section \<open>Cleaning up\<close>

text \<open>\<open>re.sub(r"\n{3,}", "\n\n", s)\<close>.\<close>

function squeeze_feeds :: "string \<Rightarrow> string" where
  "squeeze_feeds [] = []"
| "squeeze_feeds (c # cs) =
     (if c = LF then
        let feeds = takeWhile (\<lambda>x. x = LF) (c # cs)
        in (if 3 \<le> length feeds then [LF, LF] else feeds) @ squeeze_feeds (dropWhile (\<lambda>x. x = LF) cs)
      else c # squeeze_feeds cs)"
  by pat_completeness auto
termination by (relation "measure length") (auto simp: le_imp_less_Suc length_dropWhile_le)

text \<open>\<open>re.sub(r"^#{4,}", "###", s)\<close> in multiline mode.\<close>

function cap_hashes :: "bool \<Rightarrow> string \<Rightarrow> string" where
  "cap_hashes bol [] = []"
| "cap_hashes bol (c # cs) =
     (if bol \<and> 4 \<le> length (takeWhile (\<lambda>x. x = HASH) (c # cs))
      then replicate 3 HASH @ cap_hashes False (dropWhile (\<lambda>x. x = HASH) cs)
      else c # cap_hashes (c = LF) cs)"
  by pat_completeness auto
termination by (relation "measure (\<lambda>(_, s). length s)") (auto simp: le_imp_less_Suc length_dropWhile_le)

definition html_to_markdown :: "web_tools \<Rightarrow> string \<Rightarrow> string \<Rightarrow> string" where
  "html_to_markdown tools html url = strip (cap_hashes True (squeeze_feeds (article_markdown tools html url)))"

definition markdown_clean :: "string \<Rightarrow> string" where
  "markdown_clean md = strip (squeeze_feeds md)"

text \<open>\<open>re.search(r"<title[^>]*>([^<]+)</title>", html, re.IGNORECASE)\<close>.\<close>

definition title_here :: "string \<Rightarrow> string option" where
  "title_here s =
     (let after_tag = dropWhile (\<lambda>c. c \<noteq> CHR ''>'') (drop 6 s); inner = tl after_tag;
          title = takeWhile (\<lambda>c. c \<noteq> CHR ''<'') inner
      in if startswith (lower s) ''<title'' \<and> after_tag \<noteq> [] \<and> title \<noteq> [] \<and>
            startswith (lower (drop (length title) inner)) ''</title>''
         then Some title else None)"

fun search_title :: "string \<Rightarrow> string option" where
  "search_title [] = None"
| "search_title (c # cs) = (case title_here (c # cs) of Some t \<Rightarrow> Some t | None \<Rightarrow> search_title cs)"

definition extract_title :: "string \<Rightarrow> string" where
  "extract_title html = (case search_title html of None \<Rightarrow> [] | Some t \<Rightarrow> strip t)"

definition docs_fetch ::
  "outside \<Rightarrow> web_tools \<Rightarrow> source_config \<Rightarrow> document_ref \<Rightarrow> ('z ingest_state_scheme, raw_document option) io" where
  "docs_fetch env tools cfg ref =
     bind (get_page env (dr_url ref)) (\<lambda>page.
       return (case page of
           None \<Rightarrow> None
         | Some o1 \<Rightarrow>
             let html = response_text env o1; is_html = contains (content_type_header tools o1) ''html''
             in Some \<lparr>rd_ref = ref, rd_type = (if is_html then Html else Markdown),
                  rd_body = (if is_html then html_to_markdown tools html (dr_url ref) else html),
                  rd_title = extract_title html, rd_published_at = None\<rparr>))"

section \<open>The RSS poller\<close>

definition MAX_EXCERPT_CHARS :: nat where "MAX_EXCERPT_CHARS = 500"

text \<open>\<open>s.replace("://", "_")\<close>.\<close>

fun replace_scheme_mark :: "string \<Rightarrow> string" where
  "replace_scheme_mark (a # b # c # s) =
     (if [a, b, c] = ''://'' then CHR ''_'' # replace_scheme_mark s else a # replace_scheme_mark (b # c # s))"
| "replace_scheme_mark s = s"

definition entry_to_id :: "string \<Rightarrow> string \<Rightarrow> string" where
  "entry_to_id source_id entry_id =
     take 200 (source_id @ ''.'' @
       map (\<lambda>c. if c = CHR ''/'' \<or> c = CHR ''.'' then CHR ''_'' else c) (replace_scheme_mark entry_id))"

definition entry_key :: "feed_entry \<Rightarrow> string" where
  "entry_key e = or_text_opt (fe_id e) (or_text_opt (fe_link e) [])"

text \<open>\<open>s.rsplit(" ", 1)[0]\<close>.\<close>

definition before_last_space :: "string \<Rightarrow> string" where
  "before_last_space s =
     (if CHR '' '' \<in> set s then rev (tl (dropWhile (\<lambda>c. c \<noteq> CHR '' '') (rev s))) else s)"

definition excerpt :: "feed_entry \<Rightarrow> string" where
  "excerpt e =
     (let s = fe_summary e in
      strip (if MAX_EXCERPT_CHARS < length s
             then before_last_space (take MAX_EXCERPT_CHARS s) @ [CHR 0xE2, CHR 0x80, CHR 0xA6] else s))"

fun feed_refs :: "source_config \<Rightarrow> feed_entry list \<Rightarrow> ('z world_scheme, document_ref list) io" where
  "feed_refs cfg [] = return []"
| "feed_refs cfg (e # es) =
     (if entry_key e = [] then feed_refs cfg es
      else
        bind (sleep 50000) (\<lambda>_.
        bind (feed_refs cfg es) (\<lambda>refs.
          return (\<lparr>dr_doc_id = entry_to_id (sc_id cfg) (entry_key e),
                   dr_url = (case fe_link e of None \<Rightarrow> sc_base_url cfg | Some l \<Rightarrow> l)\<rparr> # refs))))"

definition rss_discover ::
  "outside \<Rightarrow> web_tools \<Rightarrow> source_config \<Rightarrow> ('z ingest_state_scheme, document_ref list) io" where
  "rss_discover env tools cfg =
     bind (get_page env (sc_base_url cfg)) (\<lambda>page.
       case page of None \<Rightarrow> return [] | Some o1 \<Rightarrow> feed_refs cfg (parse_feed tools (response_text env o1)))"

definition rss_fetch ::
  "outside \<Rightarrow> web_tools \<Rightarrow> source_config \<Rightarrow> document_ref \<Rightarrow> ('z ingest_state_scheme, raw_document option) io" where
  "rss_fetch env tools cfg ref =
     bind (get_page env (sc_base_url cfg)) (\<lambda>page.
       return (case page of
           None \<Rightarrow> None
         | Some o1 \<Rightarrow>
             map_option (\<lambda>e. \<lparr>rd_ref = ref, rd_type = Rss_Item,
                 rd_body = ''Source: '' @ dr_url ref @ [LF, LF] @ excerpt e, rd_title = fe_title e,
                 rd_published_at = fe_published e\<rparr>)
               (find (\<lambda>e. entry_to_id (sc_id cfg) (entry_key e) = dr_doc_id ref)
                 (parse_feed tools (response_text env o1)))))"

section \<open>Runs\<close>

definition get_adapter ::
  "outside \<Rightarrow> web_tools \<Rightarrow> source_config \<Rightarrow> ('z ingest_state_scheme, document_ref list) io
    \<times> (document_ref \<Rightarrow> ('z ingest_state_scheme, raw_document option) io)" where
  "get_adapter env tools cfg =
     (if sc_type cfg = ''rss'' then (rss_discover env tools cfg, rss_fetch env tools cfg)
      else (docs_discover env tools cfg, docs_fetch env tools cfg))"

definition crawl_run ::
  "outside \<Rightarrow> web_tools \<Rightarrow> digests \<Rightarrow> ingest_settings \<Rightarrow> source_config \<Rightarrow> int \<Rightarrow> ('z ingest_state_scheme, unit) io" where
  "crawl_run env tools lib c cfg run_id =
     (case get_adapter env tools cfg of (discover, fetch) \<Rightarrow> run_source env lib c discover fetch cfg run_id)"

section \<open>Endpoints\<close>

record source_create =
  cr_id :: string
  cr_source :: ingest_source

definition create_source :: "outside \<Rightarrow> source_create \<Rightarrow> ('z ingest_state_scheme, ingest_source) io" where
  "create_source env p =
     bind (gets (\<lambda>s. has_row (sources s) (cr_id p))) (\<lambda>known.
       if known then throw (HttpException 400 (''Source ' '' @ cr_id p @ '' ' already exists''))
       else
         bind (gets (\<lambda>s. (cr_source p)\<lparr>is_enabled := True, is_created_at := utc_now env s\<rparr>)) (\<lambda>src.
         bind (modify (\<lambda>s. s\<lparr>sources := sources s @ [(cr_id p, src)]\<rparr>)) (\<lambda>_. return src)))"

text \<open>The order of ids is the database's; the collation is an argument.\<close>

definition list_sources :: "(string \<Rightarrow> 'k::linorder) \<Rightarrow> ('z ingest_state_scheme, (string \<times> ingest_source) list) io" where
  "list_sources collate = gets (\<lambda>s. sort_key (\<lambda>(i, _). collate i) (sources s))"

definition config_of_row :: "string \<Rightarrow> ingest_source \<Rightarrow> source_config" where
  "config_of_row i r =
     \<lparr>sc_id = i, sc_type = is_type r, sc_base_url = is_base_url r, sc_protocol = is_protocol r,
      sc_category = is_category r, sc_license = is_license r, sc_schedule_cron = is_schedule_cron r,
      sc_language = is_language r, sc_crawl_delay = is_crawl_delay r, sc_max_pages = is_max_pages r,
      sc_include = [], sc_exclude = [], sc_legal_review_passed = False, sc_tags = [], sc_extra = JObj []\<rparr>"

text \<open>A row of \<open>ingest_runs\<close> as it is inserted.\<close>

definition new_run :: "string \<Rightarrow> usec \<Rightarrow> ingest_run" where
  "new_run source_id now =
     \<lparr>ir_source = source_id, ir_started_at = now, ir_finished_at = None, ir_status = ''running'',
      ir_docs_seen = 0, ir_chunks_added = 0, ir_chunks_unchanged = 0, ir_docs_failed = 0, ir_embedding_tokens = 0\<rparr>"

definition trigger_run :: "outside \<Rightarrow> string \<Rightarrow> ('z ingest_state_scheme, int \<times> source_config) io" where
  "trigger_run env source_id =
     bind (gets (\<lambda>s. row_of (sources s) source_id)) (\<lambda>src.
       case src of
         None \<Rightarrow> throw (HttpException 404 (''Source ' '' @ source_id @ '' ' not found''))
       | Some row \<Rightarrow>
           bind (gets (\<lambda>s. row_of (running_jobs s) source_id = Some True)) (\<lambda>busy.
             if busy then throw (HttpException 409 (''Source ' '' @ source_id @ '' ' already running''))
             else
               bind (gets run_next) (\<lambda>i.
               bind (modify (\<lambda>s. s\<lparr>runs := runs s @ [(i, new_run source_id (utc_now env s))], run_next := i + 1,
                                   running_jobs := put_row source_id True (running_jobs s)\<rparr>)) (\<lambda>_.
                 return (i, config_of_row source_id row)))))"

text \<open>The task: it is done however the run ends, and nobody looks at its exception.\<close>

definition run_task ::
  "outside \<Rightarrow> web_tools \<Rightarrow> digests \<Rightarrow> ingest_settings \<Rightarrow> source_config \<Rightarrow> int \<Rightarrow> ('z ingest_state_scheme, unit) io" where
  "run_task env tools lib c cfg run_id =
     bind (try_except (crawl_run env tools lib c cfg run_id) (\<lambda>e. return ())) (\<lambda>_.
       modify (\<lambda>s. s\<lparr>running_jobs := put_row (sc_id cfg) False (running_jobs s)\<rparr>))"

definition get_run :: "int \<Rightarrow> ('z ingest_state_scheme, ingest_run) io" where
  "get_run run_id =
     bind (gets (\<lambda>s. row_of (runs s) run_id)) (\<lambda>r.
       case r of None \<Rightarrow> throw (HttpException 404 ''Run not found'') | Some x \<Rightarrow> return x)"

text \<open>The latest run of a source: the greatest start, the first of equals.\<close>

definition latest_run :: "string \<Rightarrow> (int, ingest_run) table \<Rightarrow> ingest_run option" where
  "latest_run source_id t =
     (case sort_key (\<lambda>r. - ir_started_at r) (filter (\<lambda>r. ir_source r = source_id) (map snd t)) of
        [] \<Rightarrow> None | r # _ \<Rightarrow> Some r)"

definition admin_stats ::
  "('z ingest_state_scheme, (string \<times> string \<times> bool \<times> usec option \<times> string option) list) io" where
  "admin_stats =
     gets (\<lambda>s. map (\<lambda>(i, src). case latest_run i (runs s) of
         None \<Rightarrow> (i, is_type src, is_enabled src, None, None)
       | Some r \<Rightarrow> (i, is_type src, is_enabled src,
           (if ir_status r = ''completed'' then ir_finished_at r else None), Some (ir_status r))) (sources s))"

definition delete_document :: "outside \<Rightarrow> string \<Rightarrow> ('z ingest_state_scheme, unit) io" where
  "delete_document env doc_id =
     bind (qdrant env ''delete'') (\<lambda>_.
       modify (\<lambda>s. s\<lparr>index_points := filter (\<lambda>(_, p). cp_doc_id (pt_payload p) \<noteq> doc_id) (index_points s)\<rparr>))"

section \<open>The adapters keep their promise\<close>

lemma quiet_robots: "quiet (modify (\<lambda>s. s\<lparr>robots_cache := f s\<rparr>))"
  by (simp add: obeys_def same_store_def io_simps)

lemma quiet_page:
  fixes env :: outside
  shows "quiet (get_page env url :: ('z ingest_state_scheme, http_outcome option) io)"
  unfolding get_page_def by (intro quiet_rules)

lemma quiet_get_robots: "quiet (get_robots env url)"
  unfolding get_robots_def Let_def by (intro quiet_rules quiet_robots)

lemma quiet_crawl: "quiet (crawl_refs env tools cfg n urls)"
  by (induction urls arbitrary: n) (auto intro!: quiet_rules quiet_get_robots)

lemma quiet_feed: "quiet (feed_refs cfg es :: ('z ingest_state_scheme, document_ref list) io)"
  by (induction es) (auto intro!: quiet_rules)

lemma quiet_discoveries: "quiet (docs_discover env tools cfg)" "quiet (rss_discover env tools cfg)"
  unfolding docs_discover_def rss_discover_def
  by (auto split: json.split intro!: quiet_rules quiet_page quiet_crawl quiet_feed)

lemma quiet_discover: "quiet (fst (get_adapter env tools cfg))"
  by (simp add: get_adapter_def quiet_discoveries)

lemma quiet_fetches: "quiet (docs_fetch env tools cfg ref)" "quiet (rss_fetch env tools cfg ref)"
  unfolding docs_fetch_def rss_fetch_def by (intro quiet_rules quiet_page)+

lemma quiet_fetch: "quiet (snd (get_adapter env tools cfg) ref)"
  by (simp add: get_adapter_def quiet_fetches)

interpretation crawler: source_adapter "snd (get_adapter env tools cfg)" for env tools cfg
  by unfold_locales (rule quiet_fetch)

section \<open>What a run leaves in the index\<close>

text \<open>C22: after a document was fetched, cut and all its chunks were accounted for as added or as
  unchanged, at least one of them added, the index shows for it exactly the chunks of the fetched
  text, numbered in order, for every other document what it showed before, and it stays in order.\<close>

theorem indexed_document_mirrors_source:
  assumes "ingest_one env lib c (snd (get_adapter env tools cfg)) cfg ref n s = (s', Inr n')"
    and "snd (get_adapter env tools cfg) ref s = (s1, Inr (Some doc))"
    and "chunk_document (rd_type doc) (rd_body doc) = Some (Inr cs)"
    and "index_ok lib s" and "no_clash lib (index_points s) (dr_doc_id ref) (map ch_text cs)"
    and "n_added n < n_added n'" and "n_added n' + n_unchanged n' = n_added n + n_unchanged n + int (length cs)"
  shows "doc_view (index_points s') (dr_doc_id ref) = (\<lambda>i. (i, ch_text (cs ! i))) ` {..< length cs} \<and>
    (\<forall>d. d = dr_doc_id ref \<or> doc_view (index_points s') d = doc_view (index_points s) d) \<and> index_ok lib s'"
  using crawler.mirrors [OF assms] by blast

text \<open>When every chunk of the new text is in the index already, nothing of it is touched: the
  chunks that a longer version left behind stay, run after run.\<close>

theorem shrunk_document_keeps_tail:
  assumes "ingest_one env lib c (snd (get_adapter env tools cfg)) cfg ref n s = (s', Inr n')"
    and "snd (get_adapter env tools cfg) ref s = (s1, Inr (Some doc))"
    and "chunk_document (rd_type doc) (rd_body doc) = Some (Inr cs)" and "index_ok lib s"
    and "\<And>i. i < length cs \<Longrightarrow> (i, ch_text (cs ! i)) \<in> doc_view (index_points s) (dr_doc_id ref)"
    and "length cs \<le> j" and "(j, left_over) \<in> doc_view (index_points s) (dr_doc_id ref)"
  shows "(j, left_over) \<in> doc_view (index_points s') (dr_doc_id ref) \<and> documents s' = documents s"
  using crawler.stale_tail [OF assms(1-4) assms(5)] assms(7) by (simp add: same_store_def)

section \<open>A failed run\<close>

definition same_runs :: "'z ingest_state_scheme \<Rightarrow> 'z ingest_state_scheme \<Rightarrow> bool" where
  "same_runs s s' \<longleftrightarrow> runs s' = runs s"

abbreviation runless :: "('z ingest_state_scheme, 'a) io \<Rightarrow> bool" where
  "runless m \<equiv> obeys (\<lambda>_. True) same_runs m"

interpretation run_frame: io_relation "\<lambda>_. True" same_runs
  by unfold_locales (auto simp: same_runs_def)

lemma runless_quiet: "quiet m \<Longrightarrow> runless m"
  by (simp add: obeys_def same_store_def same_runs_def)

lemma runless_modify:
  "runless (modify (\<lambda>s. s\<lparr>index_points := f s\<rparr>))" "runless (modify (upsert_doc env d i u h k))"
  "runless (modify (\<lambda>s. s\<lparr>embedder_tokens := 0\<rparr>))"
  by (simp_all add: obeys_def same_runs_def io_simps upsert_doc_def)

lemma runless_catch: "runless m \<Longrightarrow> (\<And>e. runless (h e)) \<Longrightarrow> runless (catch_all m h)"
  unfolding catch_all_def by (intro run_frame.obeys_rules)

lemmas runless_rules = run_frame.obeys_rules runless_catch runless_modify runless_quiet [OF quiet_qdrant]
  runless_quiet [OF quiet_embed]

lemma runless_ingest:
  assumes "\<And>ref. quiet (fetch ref)"
  shows "runless (ingest_all env lib c fetch cfg refs n)"
proof -
  have "runless (store_chunks env lib c cfg ref existing doc results new n dense)" for ref existing doc results new n dense
    unfolding store_chunks_def upsert_batch_def delete_tail_chunks_def by (intro runless_rules)
  then have "runless (index_chunks env lib c cfg ref existing doc results n)" for ref existing doc results n
    unfolding index_chunks_def index_missing_def count_by_content_hash_def Let_def by (intro runless_rules)
  moreover have "runless (cut_document doc)" for doc
    unfolding cut_document_def by (auto split: option.split sum.split intro: runless_rules)
  ultimately have "runless (ingest_one env lib c fetch cfg ref n)" for ref n
    unfolding ingest_one_def Let_def by (intro runless_rules runless_quiet [OF assms])
  then show ?thesis by (induction refs arbitrary: n) (auto intro: runless_rules)
qed

text \<open>When a run raises, its task is over and the source may be started again, but the row of
  the run says that it is running, for good.\<close>

theorem failed_run_stays_running:
  fixes s :: "'z ingest_state_scheme"
  assumes "crawl_run env tools lib c cfg run_id s = (s1, Inl e)"
    and "run_task env tools lib c cfg run_id s = (s', u)" and "row_of (runs s) run_id = Some row"
  shows "row_of (running_jobs s') (sc_id cfg) = Some False \<and> get_run run_id s' = (s', Inr row)"
proof -
  obtain discover :: "('z ingest_state_scheme, document_ref list) io" and fetch
    where a: "get_adapter env tools cfg = (discover, fetch)" by fastforce
  then have d: "discover = fst (get_adapter env tools cfg)" "fetch = snd (get_adapter env tools cfg)" by simp_all
  have quiets: "quiet discover" "\<And>ref. quiet (fetch ref)"
    unfolding d by (rule quiet_discover, rule quiet_fetch)
  let ?start = "modify (\<lambda>s. s\<lparr>embedder_tokens := 0\<rparr>) :: ('z ingest_state_scheme, unit) io"
  let ?n = "\<lparr>n_added = 0, n_unchanged = 0, n_seen = 0, n_failed = 0\<rparr>"
  let ?body = "bind ?start (\<lambda>_. bind discover (\<lambda>refs. ingest_all env lib c fetch cfg refs ?n))"
  have "crawl_run env tools lib c cfg run_id = bind ?body (\<lambda>n. modify (update_run env run_id n))"
    by (simp add: crawl_run_def a run_source_def bind_assoc)
  then have "bind ?body (\<lambda>n. modify (update_run env run_id n)) s = (s1, Inl e)" using assms(1) by simp
  then have body: "?body s = (s1, Inl e)" by (auto simp: bind_Inl io_simps)
  have "runless ?body" by (intro runless_rules runless_quiet quiets runless_ingest)
  from obeysD [OF this TrueI body] have "runs s1 = runs s" by (simp add: same_runs_def)
  moreover have "s' = s1\<lparr>running_jobs := put_row (sc_id cfg) False (running_jobs s1)\<rparr>"
    using assms(1,2) by (simp add: run_task_def bind_def io_simps)
  ultimately show ?thesis using assms(3) by (simp add: table_simps get_run_def io_simps bind_def)
qed

section \<open>Witnesses\<close>

definition page_text :: "json option \<Rightarrow> string" where
  "page_text body = (case body of Some (JStr t) \<Rightarrow> t | _ \<Rightarrow> [])"

definition crawl_env :: "string \<Rightarrow> outside" where
  "crawl_env page = \<lparr>http = (\<lambda>n verb url p.
       if verb = ''GET'' then Reply 200 (Some (JStr page))
       else if verb = ''POST'' then Reply 200 (Some (JObj [
         (''data'', JArr [JObj [(''index'', JInt 0), (''embedding'', JArr [])]]),
         (''usage'', JObj [(''total_tokens'', JInt 1)])]))
       else Reply 200 None),
     mono = (\<lambda>n. 0), utc = (\<lambda>n. 0), repr_of = (\<lambda>j. []), raw_text = page_text, env_var = (\<lambda>n. None),
     auth_cookie = (\<lambda>n. None), error_text = (\<lambda>r. []), chat_answer = (\<lambda>n i m. Sent_To_Chat)\<rparr>"

definition plain_tools :: web_tools where
  "plain_tools = \<lparr>parse_feed = (\<lambda>t. []), sitemap_locs = (\<lambda>t. None), robots_allow = (\<lambda>t u. True),
     article_markdown = (\<lambda>h u. h), re_search = (\<lambda>p u. False), content_type_header = (\<lambda>r. ''text/plain'')\<rparr>"

definition plain_digests :: digests where
  "plain_digests = \<lparr>sha256_hex = (\<lambda>s. s), uuid5_text = (\<lambda>s. s)\<rparr>"

definition docs_config :: source_config where
  "docs_config = \<lparr>sc_id = ''docs'', sc_type = ''docs'', sc_base_url = ''https://d'', sc_protocol = None,
     sc_category = ''c'', sc_license = ''l'', sc_schedule_cron = ''x'', sc_language = ''en'', sc_crawl_delay = 1,
     sc_max_pages = 10, sc_include = [], sc_exclude = [], sc_legal_review_passed = False, sc_tags = [],
     sc_extra = JObj []\<rparr>"

definition embed_config :: ingest_settings where
  "embed_config = \<lparr>OPENAI_API_KEY = [], EMBEDDING_MODEL = ''m'', EMBEDDING_BATCH_SIZE = 64\<rparr>"

definition home_ref :: document_ref where
  "home_ref = \<lparr>dr_doc_id = ''docs'', dr_url = ''https://d''\<rparr>"

definition stored_point :: "nat \<Rightarrow> string \<Rightarrow> string \<times> index_point" where
  "stored_point i content =
     (point_name ''docs'' i,
      \<lparr>pt_payload = \<lparr>cp_doc_id = ''docs'', cp_chunk_id = i, cp_content = content, cp_title = [], cp_section_path = [],
         cp_source_url = [], cp_source_type = [], cp_protocol = None, cp_category = [], cp_language = [],
         cp_published_at = None, cp_content_hash = content, cp_tags = [], cp_license = []\<rparr>,
       pt_fetched_at = 0, pt_token_count = 1, pt_embedding_model = [], pt_dense = JNull, pt_sparse = []\<rparr>)"

definition two_chunks :: ingest_state where
  "two_chunks = \<lparr>looks = 0, slept = 0, on_fallback = False, primary_stale = False, lag_checked_at = 0,
     index_points = [stored_point 0 ''old'', stored_point 1 ''tail''],
     documents = [(''docs'', \<lparr>id_source = ''docs'', id_url = ''https://d'', id_content_hash = ''old'', id_chunk_count = 2,
       id_fetched_at = 0, id_status = ''indexed''\<rparr>)],
     runs = [(1, new_run ''docs'' 0)], sources = [], run_next = 2, running_jobs = [(''docs'', True)],
     embedder_tokens = 0, robots_cache = []\<rparr>"

definition no_counts :: run_counts where
  "no_counts = \<lparr>n_added = 0, n_unchanged = 0, n_seen = 0, n_failed = 0\<rparr>"

definition fetched_page :: "string \<Rightarrow> raw_document" where
  "fetched_page page = \<lparr>rd_ref = home_ref, rd_type = Markdown, rd_body = page, rd_title = [], rd_published_at = None\<rparr>"

lemma fetch_example:
  "search_title page = None \<Longrightarrow>
     snd (get_adapter (crawl_env page) plain_tools docs_config) home_ref two_chunks =
       (two_chunks\<lparr>looks := 1\<rparr>, Inr (Some (fetched_page page)))"
  by (simp add: get_adapter_def docs_config_def docs_fetch_def get_page_def io_simps bind_def crawl_env_def
      raise_for_status_def plain_tools_def response_text_def page_text_def Let_def extract_title_def
      fetched_page_def two_chunks_def startswith_def)

lemma two_chunks_ok: "index_ok plain_digests two_chunks"
proof -
  have "point_name ''docs'' 0 \<noteq> point_name ''docs'' 1" by (simp add: point_name_inj)
  then show ?thesis
    by (simp add: index_ok_def well_stored_def keyed_def tracked_def two_chunks_def stored_point_def point_stored_def
        make_point_id_def content_hash_def plain_digests_def point_doc_def point_chunk_def point_content_def)
qed

lemma plain_no_clash: "no_clash plain_digests t d texts"
  by (simp add: no_clash_def plain_digests_def)

definition one_chunk :: "string \<Rightarrow> chunk list" where
  "one_chunk s = [\<lparr>ch_text = s, ch_path = [], ch_index = 0\<rparr>]"

lemma cut_example:
  "chunk_document Markdown ''new'' = Some (Inr (one_chunk ''new''))"
  "chunk_document Markdown ''old'' = Some (Inr (one_chunk ''old''))"
  by code_simp+

lemma search_example: "search_title ''new'' = None" "search_title ''old'' = None" by code_simp+

lemma qdrant_example: "qdrant (crawl_env page) command s = (s\<lparr>looks := looks s + 1\<rparr>, Inr ())"
  by (simp add: qdrant_def io_simps bind_def crawl_env_def raise_for_status_def)

lemma two_chunks_sels:
  "index_points two_chunks = [stored_point 0 ''old'', stored_point 1 ''tail'']"
  "row_of (documents two_chunks) ''docs'' = Some \<lparr>id_source = ''docs'', id_url = ''https://d'', id_content_hash = ''old'',
     id_chunk_count = 2, id_fetched_at = 0, id_status = ''indexed''\<rparr>"
  "dr_doc_id home_ref = ''docs''"
  by (simp_all add: two_chunks_def home_ref_def)

lemma two_chunks_view: "doc_view (index_points two_chunks) ''docs'' = {(0, ''old''), (1, ''tail'')}"
  by (simp add: two_chunks_sels stored_point_def doc_view_Cons point_doc_def point_chunk_def point_content_def)

lemma count_example:
  "count_by_content_hash (crawl_env page) h d i s =
     (s\<lparr>looks := looks s + 1\<rparr>, Inr (length (filter (\<lambda>(_, p). is_same_chunk h d i p) (index_points s))))"
  by (simp add: count_by_content_hash_def qdrant_example io_simps bind_def)

lemma embed_example:
  "embed_many (crawl_env page) embed_config [a] s =
     (s\<lparr>looks := looks s + 1, embedder_tokens := embedder_tokens s + 1\<rparr>, Inr [JArr []])"
  by (simp add: embed_many_def embed_config_def cut_every.simps embed_batch_def numeral_eq_Suc embed_once_def
      catch_all_def try_except_def io_simps bind_def crawl_env_def raise_for_status_def read_embeddings_def
      or_raise_def iterate_def embedding_of_def)

lemma ingest_example:
  "\<exists>s' n'. ingest_one (crawl_env ''new'') plain_digests embed_config
      (snd (get_adapter (crawl_env ''new'') plain_tools docs_config)) docs_config home_ref no_counts two_chunks = (s', Inr n') \<and>
    n_added n' = 1 \<and> n_unchanged n' = 0"
  "\<exists>s' n'. ingest_one (crawl_env ''old'') plain_digests embed_config
      (snd (get_adapter (crawl_env ''old'') plain_tools docs_config)) docs_config home_ref no_counts two_chunks = (s', Inr n')"
  using fetch_example [OF search_example(1)] fetch_example [OF search_example(2)]
  by (simp_all add: ingest_one_def Let_def io_simps bind_def catch_all_def try_except_def cut_document_def fetched_page_def
      cut_example one_chunk_def index_chunks_def count_example index_missing_def embed_example store_chunks_def
      upsert_batch_def qdrant_example delete_tail_chunks_def two_chunks_sels stored_point_def
      is_same_chunk_def content_hash_def plain_digests_def no_counts_def)

theorem indexed_document_mirrors_source_witness:
  "\<exists>s' n'. ingest_one (crawl_env ''new'') plain_digests embed_config
      (snd (get_adapter (crawl_env ''new'') plain_tools docs_config)) docs_config home_ref no_counts two_chunks = (s', Inr n') \<and>
     doc_view (index_points two_chunks) ''docs'' = {(0, ''old''), (1, ''tail'')} \<and>
     doc_view (index_points s') ''docs'' = {(0, ''new'')} \<and> index_ok plain_digests s'"
proof -
  obtain s' n' where run: "ingest_one (crawl_env ''new'') plain_digests embed_config
      (snd (get_adapter (crawl_env ''new'') plain_tools docs_config)) docs_config home_ref no_counts two_chunks = (s', Inr n')"
      and n': "n_added n' = 1" "n_unchanged n' = 0" using ingest_example(1) by blast
  have cs: "chunk_document (rd_type (fetched_page ''new'')) (rd_body (fetched_page ''new'')) = Some (Inr (one_chunk ''new''))"
    using cut_example(1) by (simp add: fetched_page_def)
  have counted: "n_added no_counts < n_added n'"
      "n_added n' + n_unchanged n' = n_added no_counts + n_unchanged no_counts + int (length (one_chunk ''new''))"
    using n' by (simp_all add: no_counts_def one_chunk_def)
  have "(\<lambda>i. (i, ch_text (one_chunk ''new'' ! i))) ` {..< length (one_chunk ''new'')} = {(0, ''new'')}"
    by (simp add: one_chunk_def lessThan_Suc)
  note image = this
  have got: "snd (get_adapter (crawl_env ''new'') plain_tools docs_config) home_ref two_chunks =
      (two_chunks\<lparr>looks := 1\<rparr>, Inr (Some (fetched_page ''new'')))"
    by (rule fetch_example [OF search_example(1)])
  have clear: "no_clash plain_digests (index_points two_chunks) (dr_doc_id home_ref) (map ch_text (one_chunk ''new''))"
    by (rule plain_no_clash)
  note mirror = indexed_document_mirrors_source [OF run got cs two_chunks_ok clear counted]
  have "doc_view (index_points s') ''docs'' = {(0, ''new'')}"
    using mirror [THEN conjunct1] unfolding two_chunks_sels(3) image .
  moreover have "index_ok plain_digests s'" using mirror [THEN conjunct2, THEN conjunct2] .
  ultimately have "doc_view (index_points s') ''docs'' = {(0, ''new'')} \<and> index_ok plain_digests s'" ..
  then show ?thesis using run two_chunks_view by blast
qed

theorem shrunk_document_keeps_tail_witness:
  "\<exists>s' n'. ingest_one (crawl_env ''old'') plain_digests embed_config
      (snd (get_adapter (crawl_env ''old'') plain_tools docs_config)) docs_config home_ref no_counts two_chunks = (s', Inr n') \<and>
    (1, ''tail'') \<in> doc_view (index_points s') ''docs''"
proof -
  obtain s' n' where run: "ingest_one (crawl_env ''old'') plain_digests embed_config
      (snd (get_adapter (crawl_env ''old'') plain_tools docs_config)) docs_config home_ref no_counts two_chunks = (s', Inr n')"
    using ingest_example(2) by blast
  have view: "doc_view (index_points two_chunks) (dr_doc_id home_ref) = {(0, ''old''), (1, ''tail'')}"
    by (simp add: two_chunks_view two_chunks_sels(3))
  have "(1, ''tail'') \<in> doc_view (index_points s') (dr_doc_id home_ref)"
    using shrunk_document_keeps_tail [OF run fetch_example [OF search_example(2)] _ two_chunks_ok, of "one_chunk ''old''" 1 "''tail''"]
      cut_example(2) view by (auto simp: fetched_page_def one_chunk_def)
  then show ?thesis using run by (auto simp: home_ref_def)
qed

text \<open>A sitemap without text in a location makes the crawl raise.\<close>

theorem failed_run_stays_running_witness:
  "\<exists>s'. run_task (crawl_env ''old'') (plain_tools\<lparr>sitemap_locs := \<lambda>t. Some ([None], [])\<rparr>) plain_digests embed_config
       docs_config 1 two_chunks = (s', Inr ()) \<and>
     row_of (running_jobs s') ''docs'' = Some False \<and> get_run 1 s' = (s', Inr (new_run ''docs'' 0))"
proof -
  let ?tools = "plain_tools\<lparr>sitemap_locs := \<lambda>t. Some ([None], [])\<rparr>"
  have fails: "crawl_run (crawl_env ''old'') ?tools plain_digests embed_config docs_config 1 two_chunks =
      (two_chunks\<lparr>looks := 1\<rparr>, Inl AttributeError)"
    by (simp add: crawl_run_def get_adapter_def docs_config_def run_source_def docs_discover_def j_or_def get_page_def
        io_simps bind_def crawl_env_def raise_for_status_def parse_sitemap_def plain_tools_def loc_text_def two_chunks_def)
  obtain s' u where run: "run_task (crawl_env ''old'') ?tools plain_digests embed_config docs_config 1 two_chunks = (s', u)"
    by fastforce
  have u: "u = Inr ()" using run fails by (auto simp: run_task_def bind_def try_except_def io_simps)
  have row: "row_of (runs two_chunks) 1 = Some (new_run ''docs'' 0)" by (simp add: two_chunks_def)
  have id: "sc_id docs_config = ''docs''" by (simp add: docs_config_def)
  show ?thesis
    using failed_run_stays_running [OF fails run row] run unfolding id u by blast
qed

text \<open>Two pages of one site can have one document id, and then each run overwrites one by the other.\<close>

lemma slugs_collide: "slug ''https://d/a-b'' i = slug ''https://d/a/b'' i"
proof -
  have "url_path ''https://d/a-b'' = ''/a-b''" "url_path ''https://d/a/b'' = ''/a/b''" by code_simp+
  then show ?thesis by (simp add: slug_def Let_def rstrip_chars_def lstrip_chars_def rstrip_where_def lstrip_where_def)
qed

end
