(* ===== verification/Uuid_Text.thy ===== *)
theory Uuid_Text
  imports Calendar
begin

text \<open>
  Texts the services exchange: characters of UTF-8 bytes, moments as \<open>isoformat()\<close> writes and
  \<open>fromisoformat\<close> reads them, and UUIDs as the numbers they stand for.
\<close>

section \<open>Characters\<close>

text \<open>Characters of UTF-8 bytes: how many, and the first \<open>n\<close>.\<close>

definition continues :: "char \<Rightarrow> bool" where
  "continues c \<longleftrightarrow> 128 \<le> code c \<and> code c < 192"

definition char_count :: "string \<Rightarrow> nat" where
  "char_count s = length (filter (\<lambda>c. \<not> continues c) s)"

fun take_chars :: "nat \<Rightarrow> string \<Rightarrow> string" where
  "take_chars n [] = []"
| "take_chars n (c # cs) =
     (if continues c then c # take_chars n cs
      else case n of 0 \<Rightarrow> [] | Suc k \<Rightarrow> c # take_chars k cs)"

text \<open>\<open>s.replace(p, "")\<close>.\<close>

function remove_all :: "string \<Rightarrow> string \<Rightarrow> string" where
  "remove_all p s =
     (case s of
        [] \<Rightarrow> []
      | c # cs \<Rightarrow>
          if p \<noteq> [] \<and> startswith s p then remove_all p (drop (length p) s) else c # remove_all p cs)"
  by auto
termination by (relation "measure (length \<circ> snd)") auto

declare remove_all.simps [simp del]

section \<open>UUIDs\<close>

text \<open>\<open>uuid.UUID(s)\<close> as a number, and \<open>str\<close> of it.\<close>

definition uuid_int :: "string \<Rightarrow> int option" where
  "uuid_int s =
     (let h = remove_all ''-'' (lstrip_chars ''{}'' (rstrip_chars ''{}'' (remove_all ''uuid:'' (remove_all ''urn:'' s))))
      in if length h = 32 then parse_int 16 h else None)"

definition uuid_text :: "int \<Rightarrow> string" where
  "uuid_text n =
     (let h = rjust (show_base 16 (nat n)) 32 CHR ''0''
      in take 8 h @ ''-'' @ take 4 (drop 8 h) @ ''-'' @ take 4 (drop 12 h) @ ''-'' @ take 4 (drop 16 h) @ ''-'' @ drop 20 h)"

section \<open>Moments\<close>

text \<open>\<open>datetime.now(UTC).isoformat()\<close>.\<close>

definition iso_text :: "int \<Rightarrow> string" where
  "iso_text t =
     butlast (utc_text t) @ (if t mod 1000000 = 0 then [] else ''.'' @ padded 6 (t mod 1000000)) @ ''+00:00''"

lemma length_show_base: "n < 10 ^ k \<Longrightarrow> 0 < k \<Longrightarrow> length (show_base 10 n) \<le> k"
proof (induction k arbitrary: n)
  case (Suc k)
  show ?case
  proof (cases "n < 10")
    case True
    then show ?thesis by (subst show_base.simps) simp
  next
    case False
    then have "n div 10 < 10 ^ k" "0 < k" using Suc.prems by (cases k; auto)+
    then have "length (show_base 10 (n div 10)) \<le> k" by (rule Suc.IH)
    then show ?thesis using False by (subst show_base.simps) simp
  qed
qed simp

lemma padded_digits:
  assumes "0 \<le> n" and "n < 10 ^ k" and "0 < k"
  shows "length (padded k n) = k" "list_all is_digit (padded k n)" "read_digits 10 0 False (padded k n) = Some n"
proof -
  have digits: "show_int n = show_base 10 (nat n)" using assms(1) by (simp add: show_int_def)
  have "nat n < 10 ^ k" using assms(1,2) by (simp add: nat_less_iff)
  then have "length (show_base 10 (nat n)) \<le> k" using assms(3) by (rule length_show_base)
  then show "length (padded k n) = k" by (simp add: padded_def digits)
  have "is_digit CHR ''0''" by (simp add: is_digit_def)
  then show "list_all is_digit (padded k n)"
    using show_base_digits [of "nat n"] by (auto simp: padded_def digits rjust_def list_all_iff)
  have read: "read_digits 10 0 False (show_base 10 (nat n)) = Some n"
    using read_show_base [of 10 "nat n"] assms(1) by simp
  have ne: "show_base 10 (nat n) \<noteq> []" by simp
  have any: "read_digits 10 0 ok (show_base 10 (nat n)) = read_digits 10 0 False (show_base 10 (nat n))" for ok
  proof (cases "show_base 10 (nat n)")
    case (Cons c cs)
    then have "is_digit c" using show_base_digits [of "nat n"] by simp
    then have "digit_of 10 c \<noteq> None" "c \<noteq> CHR ''_''"
      by (auto simp: digit_of_def is_digit_def Let_def)
    then show ?thesis using Cons read_digits_ok by auto
  qed simp
  show "read_digits 10 0 False (padded k n) = Some n"
    using read_digits_zeros [of 10 "show_base 10 (nat n)" False] ne read any
    by (simp add: padded_def digits rjust_def)
qed

lemma number_padded: "0 \<le> n \<Longrightarrow> n < 10 ^ k \<Longrightarrow> 0 < k \<Longrightarrow> number k (padded k n @ s) = Some (n, s)"
  using padded_digits [of n k] by (simp add: number_def)

lemma span_digits:
  assumes "0 \<le> n" and "n < 10 ^ k" and "0 < k" and "s = [] \<or> \<not> is_digit (hd s)"
  shows "takeWhile is_digit (padded k n @ s) = padded k n" "dropWhile is_digit (padded k n @ s) = s"
  using padded_digits(2) [OF assms(1-3)] assms(4)
  by (auto simp: list_all_iff takeWhile_append dropWhile_append takeWhile_eq_Nil_iff dropWhile_eq_self_iff)

lemma read_fraction_none: "read_fraction ''+00:00'' = Some (0, ''+00:00'')"
  by (simp add: read_fraction_def after_char_def)

lemma read_fraction_some:
  assumes "0 \<le> n" and "n < 1000000"
  shows "read_fraction (''.'' @ padded 6 n @ ''+00:00'') = Some (n, ''+00:00'')"
proof -
  have n: "0 \<le> n" "n < 10 ^ 6" "0 < (6::nat)" using assms by simp_all
  note p = padded_digits [OF n] and s = span_digits [OF n, of "''+00:00''"]
  have plus: "''+00:00'' = [] \<or> \<not> is_digit (hd ''+00:00'')" by (simp add: is_digit_def)
  have "padded 6 n \<noteq> []" using p(1) by auto
  then show ?thesis using p s [OF plus] by (simp add: read_fraction_def after_char_def Let_def)
qed

lemma read_offset_utc: "read_offset ''+00:00'' = Some 0"
  by code_simp

section \<open>Dates are dates\<close>

lemma step_div:
  fixes y k :: int
  assumes "0 < k"
  shows "(y + 1) div k = y div k + (if (y + 1) mod k = 0 then 1 else 0)"
proof -
  have "(k * q + r + 1) div k = q + (if (k * q + r + 1) mod k = 0 then 1 else 0)" if "0 \<le> r" "r < k" for q r
  proof (cases "r = k - 1")
    case True
    then have "k * q + r + 1 = k * (q + 1)" by (simp add: algebra_simps)
    then show ?thesis using assms by (simp only: nonzero_mult_div_cancel_left mod_mult_self1_is_0) simp
  next
    case False
    then have r: "0 \<le> r + 1" "r + 1 < k" using that by auto
    have s: "k * q + r + 1 = (r + 1) + k * q" by simp
    have "((r + 1) + k * q) div k = q" "((r + 1) + k * q) mod k = r + 1"
      using r by (simp_all add: div_pos_pos_trivial mod_pos_pos_trivial)
    then show ?thesis using that(1) unfolding s by simp
  qed
  from this [of "y mod k" "y div k"] show ?thesis using assms by simp
qed

lemma year_step: "year_days (y + 1) - year_days y = 365 + (if leap (y + 1) then 1 else 0)"
proof -
  define A where "A \<longleftrightarrow> (y + 1) mod 4 = 0"
  define B where "B \<longleftrightarrow> (y + 1) mod 100 = 0"
  define C where "C \<longleftrightarrow> (y + 1) mod 400 = 0"
  have d: "400 dvd x \<Longrightarrow> 100 dvd x" "100 dvd x \<Longrightarrow> 4 dvd x" for x :: int
    by (rule dvd_trans [of 100 400], simp, assumption) (rule dvd_trans [of 4 100], simp, assumption)
  have "C \<Longrightarrow> B" unfolding C_def B_def mod_eq_0_iff_dvd by (rule d(1))
  moreover have "B \<Longrightarrow> A" unfolding A_def B_def mod_eq_0_iff_dvd by (rule d(2))
  moreover have "leap (y + 1) \<longleftrightarrow> A \<and> (\<not> B \<or> C)" by (simp only: leap_def A_def B_def C_def)
  moreover have "(y + 1) div 4 = y div 4 + (if A then 1 else 0)" "(y + 1) div 100 = y div 100 + (if B then 1 else 0)"
    "(y + 1) div 400 = y div 400 + (if C then 1 else 0)"
    unfolding A_def B_def C_def by (rule step_div, simp)+
  ultimately show ?thesis unfolding year_days_def by (cases A; cases B; cases C) simp_all
qed

text \<open>The day of a month counted from March, by the month it falls in.\<close>

lemma date_valid:
  assumes "0 \<le> n"
  defines "x \<equiv> date_of_days n"
  shows "1969 \<le> year x" "1 \<le> month x" "month x \<le> 12" "1 \<le> day x" "day x \<le> month_length (year x) (month x)"
proof -
  define z where "z = n + 719468"
  define y where "y = march_year z"
  define doy where "doy = z - year_days y"
  define mp where "mp = (5 * doy + 2) div 153"
  have doy: "0 \<le> doy" "doy < 365 + (if leap (y + 1) then 1 else 0)"
    using march_year_bounds [of z, folded y_def] year_step [of y] unfolding doy_def by linarith+
  have y: "1969 \<le> y"
  proof (rule ccontr)
    assume "\<not> 1969 \<le> y"
    then have "y + 1 \<le> 1969" by simp
    have "400 * year_days (y + 1) \<le> 146097 * (y + 1) + 297" by (rule scaled_bounds(1))
    also have "\<dots> \<le> 146097 * 1969 + 297" using \<open>y + 1 \<le> 1969\<close> by simp
    finally have "year_days (y + 1) \<le> 719165" by simp
    then show False using march_year_bounds(2) [of z, folded y_def] assms(1) z_def by simp
  qed
  have mp: "153 * mp \<le> 5 * doy + 2" "5 * doy + 2 < 153 * mp + 153"
    using mult_div_mod_eq [of 153 "5 * doy + 2"] pos_mod_bound [of 153 "5 * doy + 2"] pos_mod_sign [of 153 "5 * doy + 2"]
    unfolding mp_def by linarith+
  have x: "x = \<lparr>year = (if (if mp < 10 then mp + 3 else mp - 9) \<le> 2 then y + 1 else y),
      month = (if mp < 10 then mp + 3 else mp - 9), day = doy - (153 * mp + 2) div 5 + 1\<rparr>"
    unfolding x_def date_of_days_def Let_def z_def [symmetric] y_def [symmetric] doy_def [symmetric] mp_def [symmetric] ..
  have range: "0 \<le> mp" "mp \<le> 11" using mp doy by (auto split: if_splits)
  then have "mp = 0 \<or> mp = 1 \<or> mp = 2 \<or> mp = 3 \<or> mp = 4 \<or> mp = 5 \<or> mp = 6 \<or> mp = 7 \<or> mp = 8 \<or> mp = 9 \<or>
      mp = 10 \<or> mp = 11" by presburger
  then have day: "1 \<le> doy - (153 * mp + 2) div 5 + 1 \<and>
      doy - (153 * mp + 2) div 5 + 1 \<le>
        (if mp = 11 then (if leap (y + 1) then 29 else 28) else if mp \<in> {1, 3, 6, 8} then 30 else 31)"
    using mp doy by (elim disjE) (simp_all split: if_splits)
  show "1969 \<le> year x" using y unfolding x by simp
  show "1 \<le> month x" "month x \<le> 12" using range unfolding x by simp_all
  show "1 \<le> day x" using day unfolding x by simp
  show "day x \<le> month_length (year x) (month x)" using day range unfolding x month_length_def by (auto split: if_splits)
qed

section \<open>Reading a moment back\<close>

text \<open>The moments of the years 1970 to 9999.\<close>

definition in_text_range :: "int \<Rightarrow> bool" where
  "in_text_range t \<longleftrightarrow> 0 \<le> t \<and> year (date_of_days (day_of t)) \<le> 9999"

lemma read_date_text:
  assumes "0 \<le> n" and "year (date_of_days n) \<le> 9999"
  shows "read_date (date_text n @ s) = Some (n, s)"
proof -
  let ?x = "date_of_days n"
  note v = date_valid [OF assms(1)]
  have "day ?x \<le> 31" using v(5) by (auto simp: month_length_def split: if_splits)
  then have d: "number 2 (padded 2 (day ?x) @ u) = Some (day ?x, u)" for u using v by (intro number_padded) simp_all
  have m: "number 2 (padded 2 (month ?x) @ u) = Some (month ?x, u)" for u using v by (intro number_padded) simp_all
  have y: "number 4 (padded 4 (year ?x) @ u) = Some (year ?x, u)" for u using v assms(2) by (intro number_padded) simp_all
  show ?thesis using v by (simp add: read_date_def date_text_def Let_def y m d after_char_def days_of_date)
qed

lemma butlast_utc_text:
  "butlast (utc_text t) =
     (let s = t mod 86400000000 div 1000000
      in date_text (day_of t) @ ''T'' @ padded 2 (s div 3600) @ '':'' @ padded 2 (s div 60 mod 60) @ '':'' @ padded 2 (s mod 60))"
  by (simp add: utc_text_def Let_def butlast_append)

lemma read_clock_text:
  assumes "0 \<le> s" and "s < 86400"
  shows "read_clock (padded 2 (s div 3600) @ '':'' @ padded 2 (s div 60 mod 60) @ '':'' @ padded 2 (s mod 60) @ u) = Some (s, u)"
proof -
  have h: "number 2 (padded 2 (s div 3600) @ u) = Some (s div 3600, u)" for u using assms by (intro number_padded) simp_all
  have m: "number 2 (padded 2 (s div 60 mod 60) @ u) = Some (s div 60 mod 60, u)" for u by (intro number_padded) (simp_all add: pos_mod_bound less_trans [OF pos_mod_bound])
  have c: "number 2 (padded 2 (s mod 60) @ u) = Some (s mod 60, u)" for u by (intro number_padded) (simp_all add: less_trans [OF pos_mod_bound])
  have "3600 * (s div 3600) + 60 * (s div 60 mod 60) + s mod 60 = s"
  proof -
    have "s div 3600 = s div 60 div 60" by (simp add: zdiv_zmult2_eq [of 60 s 60, simplified])
    then show ?thesis using mult_div_mod_eq [of 60 s] mult_div_mod_eq [of 60 "s div 60"] by linarith
  qed
  moreover have "s div 3600 < 24" using assms by simp
  ultimately show ?thesis by (simp add: read_clock_def h m c after_char_def)
qed

lemma read_iso_text:
  assumes "in_text_range t"
  shows "read_iso (iso_text t) = Some t"
proof -
  define s where "s = t mod 86400000000 div 1000000"
  have t: "0 \<le> t" "year (date_of_days (day_of t)) \<le> 9999" using assms by (simp_all add: in_text_range_def)
  have n: "0 \<le> day_of t" using t(1) by (simp add: day_of_def pos_imp_zdiv_nonneg_iff)
  have "t mod 86400000000 < 86400000000" "0 \<le> t mod 86400000000" by simp_all
  then have s: "0 \<le> s" "s < 86400" unfolding s_def by linarith+
  have us: "0 \<le> t mod 1000000" "t mod 1000000 < 1000000" by simp_all
  have "read_fraction ((if t mod 1000000 = 0 then [] else ''.'' @ padded 6 (t mod 1000000)) @ ''+00:00'') = Some (t mod 1000000, ''+00:00'')"
    using read_fraction_none read_fraction_some [OF us] by simp
  moreover have "(86400 * day_of t + s) * 1000000 + t mod 1000000 = t"
  proof -
    have "t mod 86400000000 mod 1000000 = t mod 1000000" by (simp add: mod_mod_cancel)
    then have "t mod 86400000000 = 1000000 * s + t mod 1000000"
      using mult_div_mod_eq [of 1000000 "t mod 86400000000"] unfolding s_def by simp
    then show ?thesis using mult_div_mod_eq [of 86400000000 t] unfolding day_of_def by simp
  qed
  ultimately show ?thesis
    using read_date_text [OF n t(2)] read_clock_text [OF s] read_offset_utc
    by (simp add: read_iso_def iso_text_def butlast_utc_text Let_def s_def [symmetric] del: One_nat_def)
qed

end
