(* ===== verification/Memory_Store.thy ===== *)
theory Memory_Store
  imports Uuid_Text World PyFloat
begin

text \<open>
  The memory service (\<open>memory-service-py\<close>): what users let it remember. \<open>mem_points\<close> is the Qdrant
  collection, \<open>consents\<close> and \<open>mem_ops\<close> are the two PostgreSQL tables. A request runs in one database
  transaction (\<open>with_session\<close>), which a raised exception undoes; the collection is not part of it.
  Parameters are the Unicode normal form NFKC, the random identifiers and how the vector store
  chooses and scores the nearest points; points are identified by the text of their identifier, and
  writing an audit row succeeds.
\<close>

section \<open>Settings and state\<close>

record memory_settings =
  ms_port :: int
  ms_grpc_port :: int
  ms_bind_host :: string
  ms_database_url :: string
  ms_db_schema :: string
  ms_qdrant_url :: string
  ms_qdrant_key :: string
  ms_openai_key :: string
  ms_embedding_model :: string
  ms_embedding_dim :: int
  ms_collection :: string
  ms_internal_key :: string
  ms_jwt_secret :: string
  ms_cors_origins :: "string list"
  ms_log_level :: string
  ms_log_format :: string
  ms_node_env :: string

definition default_memory_settings :: memory_settings where
  "default_memory_settings = \<lparr>
     ms_port = 3040, ms_grpc_port = 50054, ms_bind_host = ''127.0.0.1'',
     ms_database_url = ''postgresql+asyncpg://postgres:@localhost:5433/oprai'',
     ms_db_schema = ''memory_schema'', ms_qdrant_url = ''http://localhost:6333'', ms_qdrant_key = [],
     ms_openai_key = [], ms_embedding_model = ''text-embedding-3-large'', ms_embedding_dim = 3072,
     ms_collection = ''oprai_memories'', ms_internal_key = [], ms_jwt_secret = [],
     ms_cors_origins = [''http://localhost:3000'', ''http://localhost:3001''],
     ms_log_level = ''INFO'', ms_log_format = ''json'', ms_node_env = ''development''\<rparr>"

type_synonym payload = "(string \<times> json) list"

record mem_point =
  mp_payload :: payload
  mp_vector :: json

record consent_row =
  c_position :: bool
  c_contract :: bool
  c_strategy :: bool
  c_preference :: bool
  c_decision :: bool
  c_created_at :: usec
  c_updated_at :: usec

record memory_op =
  mo_user :: "int option"
  mo_wallet :: "string option"
  mo_operation :: string
  mo_collection :: string
  mo_vectors :: int
  mo_bytes :: int
  mo_type :: "string option"
  mo_metadata :: "json option"
  mo_duration :: "int option"
  mo_success :: bool
  mo_error :: "string option"
  mo_created_at :: usec

record memory_state = world +
  mem_points :: "(string, mem_point) table"
  consents :: "(string, consent_row) table"
  mem_ops :: "memory_op list"

record memory_tools =
  nfkc :: "string \<Rightarrow> string"
  new_uuid :: "nat \<Rightarrow> string"
  nearest :: "nat \<Rightarrow> json \<Rightarrow> (string \<times> json) list \<Rightarrow> int \<Rightarrow> rat \<Rightarrow> (string \<times> rat) list"

text \<open>\<open>payload.get(k)\<close>, \<open>payload.get(k, d)\<close> and \<open>payload.setdefault(k, v)\<close>.\<close>

definition entry :: "payload \<Rightarrow> string \<Rightarrow> json" where
  "entry p k = (case map_of p k of None \<Rightarrow> JNull | Some v \<Rightarrow> v)"

definition entry_or :: "payload \<Rightarrow> string \<Rightarrow> json \<Rightarrow> json" where
  "entry_or p k d = (case map_of p k of None \<Rightarrow> d | Some v \<Rightarrow> v)"

definition set_default :: "string \<Rightarrow> json \<Rightarrow> payload \<Rightarrow> payload" where
  "set_default k v p = (if map_of p k = None then p @ [(k, v)] else p)"

section \<open>Consent\<close>

definition CONSENT_FIELDS :: "string list" where
  "CONSENT_FIELDS = [''position'', ''contract'', ''strategy'', ''preference'', ''decision'']"

type_synonym consent = "(string \<times> bool) list"

definition consent_map :: "consent_row \<Rightarrow> consent" where
  "consent_map r =
     [(''position'', c_position r), (''contract'', c_contract r), (''strategy'', c_strategy r),
      (''preference'', c_preference r), (''decision'', c_decision r)]"

definition get_consent :: "string \<Rightarrow> ('z memory_state_scheme, consent) io" where
  "get_consent user_id =
     gets (\<lambda>s. case row_of (consents s) user_id of None \<Rightarrow> [] | Some r \<Rightarrow> consent_map r)"

definition flag :: "consent \<Rightarrow> string \<Rightarrow> bool \<Rightarrow> bool" where
  "flag c k d = (case map_of c k of None \<Rightarrow> d | Some b \<Rightarrow> b)"

definition set_flags :: "consent \<Rightarrow> consent_row \<Rightarrow> consent_row" where
  "set_flags patch r = r\<lparr>
     c_position := flag patch ''position'' (c_position r), c_contract := flag patch ''contract'' (c_contract r),
     c_strategy := flag patch ''strategy'' (c_strategy r), c_preference := flag patch ''preference'' (c_preference r),
     c_decision := flag patch ''decision'' (c_decision r)\<rparr>"

definition no_consent :: "usec \<Rightarrow> consent_row" where
  "no_consent now = \<lparr>c_position = False, c_contract = False, c_strategy = False, c_preference = False,
     c_decision = False, c_created_at = now, c_updated_at = now\<rparr>"

text \<open>The row after the upsert; the database refreshes \<open>updated_at\<close> when the update changes something.\<close>

definition upserted :: "usec \<Rightarrow> consent \<Rightarrow> consent_row option \<Rightarrow> consent_row" where
  "upserted now patch old =
     (case old of
        None \<Rightarrow> set_flags patch (no_consent now)
      | Some r \<Rightarrow> if set_flags patch r = r then r else (set_flags patch r)\<lparr>c_updated_at := now\<rparr>)"

definition update_consent :: "outside \<Rightarrow> string \<Rightarrow> consent \<Rightarrow> ('z memory_state_scheme, consent) io" where
  "update_consent env user_id patch =
     bind (gets (\<lambda>s. upserted (utc_now env s) patch (row_of (consents s) user_id))) (\<lambda>r.
     bind (modify (\<lambda>s. s\<lparr>consents := put_row user_id r (consents s)\<rparr>)) (\<lambda>_.
       return (consent_map r)))"

text \<open>A list or an object cannot be a key: looking it up raises.\<close>

definition is_type_allowed :: "consent \<Rightarrow> json \<Rightarrow> exn + bool" where
  "is_type_allowed c memory_type =
     (case memory_type of
        JStr t \<Rightarrow> Inr (t = ''meta'' \<or> flag c t False)
      | JArr _ \<Rightarrow> Inl TypeError
      | JObj _ \<Rightarrow> Inl TypeError
      | _ \<Rightarrow> Inr False)"

section \<open>The vector store\<close>

definition mem_qdrant :: "outside \<Rightarrow> string \<Rightarrow> ('z memory_state_scheme, unit) io" where
  "mem_qdrant env command =
     bind (http_call env ''QDRANT'' command JNull) (\<lambda>o1.
     bind (from_sum (raise_for_status o1)) (\<lambda>_. return ()))"

definition draw_uuid :: "memory_tools \<Rightarrow> ('z memory_state_scheme, string) io" where
  "draw_uuid lib s = (s\<lparr>looks := looks s + 1\<rparr>, Inr (new_uuid lib (looks s)))"

definition vector_store ::
  "outside \<Rightarrow> memory_tools \<Rightarrow> payload \<Rightarrow> json \<Rightarrow> string option \<Rightarrow> ('z memory_state_scheme, string) io" where
  "vector_store env lib p vector point_id =
     bind (case point_id of Some i \<Rightarrow> (if i \<noteq> [] then return i else draw_uuid lib) | None \<Rightarrow> draw_uuid lib) (\<lambda>pid.
     bind (mem_qdrant env ''upsert'') (\<lambda>_.
     bind (modify (\<lambda>s. s\<lparr>mem_points := put_row pid \<lparr>mp_payload = p, mp_vector = vector\<rparr> (mem_points s)\<rparr>)) (\<lambda>_.
       return pid)))"

text \<open>
  \<open>MatchAny\<close> holds of a value among those named, and of an array that has one of them. The client
  takes texts only or integers only.
\<close>

definition match_any :: "json list \<Rightarrow> json \<Rightarrow> bool" where
  "match_any vs j = (case j of JArr xs \<Rightarrow> list_ex (\<lambda>x. x \<in> set vs) xs | _ \<Rightarrow> j \<in> set vs)"

definition match_values :: "json list \<Rightarrow> exn + json list" where
  "match_values vs =
     (if list_all (\<lambda>v. case v of JStr _ \<Rightarrow> True | _ \<Rightarrow> False) vs \<or>
         list_all (\<lambda>v. case v of JInt _ \<Rightarrow> True | _ \<Rightarrow> False) vs
      then Inr vs else Inl ValueError)"

type_synonym conditions = "(string \<times> json list) list"

definition build_filter :: "json \<Rightarrow> exn + conditions option" where
  "build_filter filters =
     (if \<not> truthy filters then Inr None
      else
        then_sum (field ''user_id'' filters) (\<lambda>u.
        then_sum (if truthy u then then_sum (match_values [u]) (\<lambda>vs. Inr [(''user_id'', vs)]) else Inr []) (\<lambda>c1.
        then_sum (field ''types'' filters) (\<lambda>t.
        then_sum (case t of
                    JArr (x # xs) \<Rightarrow> then_sum (match_values (x # xs)) (\<lambda>vs. Inr [(''type'', vs)])
                  | _ \<Rightarrow> Inr []) (\<lambda>c2.
          Inr (if c1 @ c2 = [] then None else Some (c1 @ c2)))))))"

definition passes :: "conditions \<Rightarrow> mem_point \<Rightarrow> bool" where
  "passes cs p \<longleftrightarrow> list_all (\<lambda>(k, vs). match_any vs (entry (mp_payload p) k)) cs"

definition candidates :: "conditions option \<Rightarrow> (string, mem_point) table \<Rightarrow> (string, mem_point) table" where
  "candidates f t = (case f of None \<Rightarrow> t | Some cs \<Rightarrow> rows_where (\<lambda>_. passes cs) t)"

definition hit :: "(string, mem_point) table \<Rightarrow> string \<times> rat \<Rightarrow> json" where
  "hit t x =
     (case x of (i, score) \<Rightarrow>
        JObj [(''id'', JStr i), (''score'', JFloat score),
              (''payload'', JObj (case row_of t i of None \<Rightarrow> [] | Some p \<Rightarrow> mp_payload p))])"

definition hits_of ::
  "memory_tools \<Rightarrow> nat \<Rightarrow> json \<Rightarrow> int \<Rightarrow> rat \<Rightarrow> (string, mem_point) table \<Rightarrow> json list" where
  "hits_of lib n query_vector top_k threshold t =
     map (hit t) (nearest lib n query_vector (map (\<lambda>(i, p). (i, mp_vector p)) t) top_k threshold)"

definition vector_search ::
  "outside \<Rightarrow> memory_tools \<Rightarrow> json \<Rightarrow> int \<Rightarrow> rat \<Rightarrow> json \<Rightarrow> ('z memory_state_scheme, json list) io" where
  "vector_search env lib query_vector top_k threshold filters =
     (if \<not> truthy filters then return []
      else
        bind (from_sum (field ''user_id'' filters)) (\<lambda>u.
        if \<not> truthy u then return []
        else
          bind (from_sum (build_filter filters)) (\<lambda>f.
            catch_all
              (bind (mem_qdrant env ''query'') (\<lambda>_.
                 gets (\<lambda>s. hits_of lib (looks s) query_vector top_k threshold (candidates f (mem_points s)))))
              (\<lambda>e. return []))))"

definition get_by_id :: "outside \<Rightarrow> string \<Rightarrow> ('z memory_state_scheme, payload option) io" where
  "get_by_id env point_id =
     catch_all
       (bind (mem_qdrant env ''retrieve'') (\<lambda>_. gets (\<lambda>s. map_option mp_payload (row_of (mem_points s) point_id))))
       (\<lambda>e. return None)"

definition vector_delete :: "outside \<Rightarrow> string \<Rightarrow> ('z memory_state_scheme, bool) io" where
  "vector_delete env point_id =
     catch_all
       (bind (mem_qdrant env ''delete'') (\<lambda>_.
        bind (modify (\<lambda>s. s\<lparr>mem_points := drop_row point_id (mem_points s)\<rparr>)) (\<lambda>_. return True)))
       (\<lambda>e. return False)"

text \<open>A page of a scroll from an offset on, and the offset of the next one.\<close>

definition SCROLL_LIMIT :: nat where "SCROLL_LIMIT = 512"

definition from_offset :: "string option \<Rightarrow> string list \<Rightarrow> string list" where
  "from_offset offset ids = (case offset of None \<Rightarrow> ids | Some i \<Rightarrow> dropWhile (\<lambda>j. j \<noteq> i) ids)"

definition scroll_page :: "string option \<Rightarrow> string list \<Rightarrow> string list \<times> string option" where
  "scroll_page offset ids =
     (let rest = from_offset offset ids
      in (take SCROLL_LIMIT rest, case drop SCROLL_LIMIT rest of [] \<Rightarrow> None | i # _ \<Rightarrow> Some i))"

definition ids_of :: "string \<Rightarrow> (string, mem_point) table \<Rightarrow> string list" where
  "ids_of wallet t = map fst (candidates (Some [(''user_id'', [JStr wallet])]) t)"

fun scroll_ids ::
  "outside \<Rightarrow> string \<Rightarrow> nat \<Rightarrow> string option \<Rightarrow> string list \<Rightarrow> ('z memory_state_scheme, string list) io" where
  "scroll_ids env wallet 0 offset acc = throw Out_Of_Fuel"
| "scroll_ids env wallet (Suc fuel) offset acc =
     bind (mem_qdrant env ''scroll'') (\<lambda>_.
     bind (gets (\<lambda>s. scroll_page offset (ids_of wallet (mem_points s)))) (\<lambda>(page, next_offset).
       case next_offset of
         None \<Rightarrow> return (acc @ page)
       | Some i \<Rightarrow> scroll_ids env wallet fuel (Some i) (acc @ page)))"

definition delete_by_wallet :: "outside \<Rightarrow> string \<Rightarrow> ('z memory_state_scheme, nat) io" where
  "delete_by_wallet env wallet =
     catch_all
       (bind (gets (\<lambda>s. length (mem_points s))) (\<lambda>fuel.
        bind (scroll_ids env wallet (Suc fuel) None []) (\<lambda>ids.
          if ids = [] then return 0
          else
            bind (mem_qdrant env ''delete'') (\<lambda>_.
            bind (modify (\<lambda>s. s\<lparr>mem_points := filter (\<lambda>(i, _). i \<notin> set ids) (mem_points s)\<rparr>)) (\<lambda>_.
              return (length ids))))))
       (\<lambda>e. return 0)"

section \<open>Embeddings and summaries\<close>

definition first_of :: "json \<Rightarrow> exn + json" where
  "first_of j = (case j of JArr (x # _) \<Rightarrow> Inr x | JArr [] \<Rightarrow> Inl IndexError | _ \<Rightarrow> Inl TypeError)"

definition embed :: "outside \<Rightarrow> memory_settings \<Rightarrow> string \<Rightarrow> ('z memory_state_scheme, json) io" where
  "embed env cfg s =
     (if strip s = [] then throw ValueError
      else
        bind (http_call env ''POST'' ''https://api.openai.com/v1/embeddings''
                (JObj [(''Authorization'', JStr (''Bearer '' @ ms_openai_key cfg)),
                       (''model'', JStr (ms_embedding_model cfg)), (''input'', JStr s),
                       (''encoding_format'', JStr ''float'')])) (\<lambda>o1.
          from_sum
            (then_sum (raise_for_status o1) (\<lambda>body.
             then_sum (or_raise ValueError body) (\<lambda>j.
             then_sum (field ''data'' j) (\<lambda>d.
             then_sum (first_of d) (\<lambda>x. field ''embedding'' x)))))))"

definition SUMMARIZATION_SYSTEM_PROMPT :: string where
  "SUMMARIZATION_SYSTEM_PROMPT =
     ''You are a conversation summarizer for a DeFi AI assistant on Solana. '' @
     ''Summarize the conversation chunk into a concise summary following this format:'' @ [CHR 0x0A] @
     ''Title: <...> | Date: YYYY-MM-DD | Summary: * bullet * bullet * bullet'' @ [CHR 0x0A, CHR 0x0A] @
     ''Focus on: actions taken, tokens/protocols discussed, user preferences expressed, '' @
     ''decisions made. Keep it under 200 words.''"

definition summary_value :: "string \<Rightarrow> string \<Rightarrow> int \<Rightarrow> string \<Rightarrow> json" where
  "summary_value title s tokens now =
     JObj [(''title'', JStr title), (''summary'', JStr s), (''tokenCount'', JInt tokens), (''timestamp'', JStr now)]"

definition fallback_summary :: "string \<Rightarrow> int \<Rightarrow> string \<Rightarrow> json" where
  "fallback_summary chunk tokens now =
     summary_value ''Session summary''
       (''Title: Session Summary | Date: '' @ take 10 now @ '' | Summary: * '' @
        strip (map (\<lambda>c. if c = CHR 0x0A then CHR '' '' else c) (take_chars 200 chunk)) @ ''...'') tokens now"

definition title_of :: "string \<Rightarrow> string" where
  "title_of s =
     (if startswith s ''Title:''
      then or_text (strip (remove_all ''Title:'' (takeWhile (\<lambda>c. c \<noteq> CHR ''|'') s))) ''Session summary''
      else ''Session summary'')"

definition completion_text :: "http_outcome \<Rightarrow> exn + string" where
  "completion_text o1 =
     then_sum (raise_for_status o1) (\<lambda>body.
     then_sum (or_raise ValueError body) (\<lambda>j.
     then_sum (field ''choices'' j) (\<lambda>cs.
     then_sum (first_of cs) (\<lambda>x.
     then_sum (field ''message'' x) (\<lambda>msg.
     then_sum (field ''content'' msg) (\<lambda>content.
     then_sum (text_method content) (\<lambda>s. Inr (strip s))))))))"

definition summary_request :: "memory_settings \<Rightarrow> string \<Rightarrow> int \<Rightarrow> json" where
  "summary_request cfg chunk tokens =
     JObj [(''Authorization'', JStr (''Bearer '' @ ms_openai_key cfg)), (''model'', JStr ''gpt-4o-mini''),
           (''messages'', JArr
              [JObj [(''role'', JStr ''system''), (''content'', JStr SUMMARIZATION_SYSTEM_PROMPT)],
               JObj [(''role'', JStr ''user''),
                     (''content'', JStr (''Summarize this conversation chunk ('' @ show_int tokens @ '' tokens):'' @
                        [CHR 0x0A, CHR 0x0A] @ chunk))]]),
           (''max_tokens'', JInt 300), (''temperature'', JFloat (b64 (3 / 10)))]"

definition summarize ::
  "outside \<Rightarrow> memory_settings \<Rightarrow> string \<Rightarrow> int \<Rightarrow> ('z memory_state_scheme, json) io" where
  "summarize env cfg chunk tokens =
     bind (gets (\<lambda>s. iso_text (utc_now env s))) (\<lambda>now.
       if ms_openai_key cfg = [] then return (fallback_summary chunk tokens now)
       else
         catch_all
           (bind (http_call env ''POST'' ''https://api.openai.com/v1/chat/completions'' (summary_request cfg chunk tokens)) (\<lambda>o1.
            bind (from_sum (completion_text o1)) (\<lambda>s.
              return (if s = [] then fallback_summary chunk tokens now
                      else summary_value (title_of s) s tokens now))))
           (\<lambda>e. return (fallback_summary chunk tokens now)))"

end
