(* ===== verification/Memory_Api.thy ===== *)
theory Memory_Api
  imports Memory_Store
begin

text \<open>
  The requests of the memory service: the gateway's headers, the audit trail, the endpoints of
  \<open>main.py\<close>, each in its database transaction, and the servicers of \<open>grpc_server.py\<close>. Not modelled are
  the middlewares that limit, count and log requests and add headers.
\<close>

section \<open>Audit trail\<close>

definition op_row :: "memory_settings \<Rightarrow> string \<Rightarrow> string \<Rightarrow> int \<Rightarrow> bool \<Rightarrow> memory_op" where
  "op_row cfg wallet operation duration ok =
     \<lparr>mo_user = uuid_int wallet, mo_wallet = Some wallet, mo_operation = operation,
      mo_collection = ms_collection cfg, mo_vectors = 0, mo_bytes = 0, mo_type = None, mo_metadata = None,
      mo_duration = Some duration, mo_success = ok, mo_error = None, mo_created_at = 0\<rparr>"

definition log_memory_op :: "outside \<Rightarrow> memory_op \<Rightarrow> ('z memory_state_scheme, unit) io" where
  "log_memory_op env r = modify (\<lambda>s. s\<lparr>mem_ops := mem_ops s @ [r\<lparr>mo_created_at := utc_now env s\<rparr>]\<rparr>)"

text \<open>\<open>int((time.perf_counter() - t_start) * 1000)\<close>, clock readings being microseconds.\<close>

definition timed :: "outside \<Rightarrow> ('z memory_state_scheme, 'a) io \<Rightarrow> ('z memory_state_scheme, 'a \<times> int) io" where
  "timed env m =
     bind (monotonic env) (\<lambda>t0. bind m (\<lambda>a. bind (monotonic env) (\<lambda>t1. return (a, (t1 - t0) div 1000))))"

section \<open>Who asks\<close>

text \<open>\<open>secrets.compare_digest\<close> raises on texts that are not ASCII.\<close>

definition compare_digest :: "string \<Rightarrow> string \<Rightarrow> exn + bool" where
  "compare_digest a b =
     (if list_ex (\<lambda>c. 128 \<le> code c) (a @ b) then Inl TypeError else Inr (a = b))"

definition missing_header :: "string option \<Rightarrow> bool" where
  "missing_header h \<longleftrightarrow> or_text_opt h [] = []"

definition require_auth :: "memory_settings \<Rightarrow> string option \<Rightarrow> string option \<Rightarrow> exn + string" where
  "require_auth cfg wallet key =
     (if missing_header wallet then Inl (HttpException 401 ''Unauthorized: missing wallet header'')
      else
        then_sum (if missing_header key then Inr False else compare_digest (the key) (ms_internal_key cfg)) (\<lambda>ok.
          if ok then Inr (the wallet) else Inl (HttpException 403 ''Forbidden: invalid internal API key'')))"

text \<open>The session of a request: committed when the endpoint returns, rolled back when it raises.\<close>

definition with_session :: "('z memory_state_scheme, 'a) io \<Rightarrow> ('z memory_state_scheme, 'a) io" where
  "with_session m s =
     (case m s of
        (s', Inl e) \<Rightarrow> (s'\<lparr>consents := consents s, mem_ops := mem_ops s\<rparr>, Inl e)
      | (s', Inr a) \<Rightarrow> (s', Inr a))"

section \<open>Storing\<close>

definition DENYLIST :: "string list" where
  "DENYLIST =
     [''private key'', ''mnemonic'', ''seed phrase'', ''signed transaction'',
      ''identity_number'', ''credit_card'', ''health_record'']"

definition validate_payload_compliance :: "memory_tools \<Rightarrow> json \<Rightarrow> json \<Rightarrow> exn + string" where
  "validate_payload_compliance lib summary memory_type =
     (case summary of
        JStr s \<Rightarrow>
          if list_ex (contains (lower (nfkc lib s))) DENYLIST
          then Inl (HttpException 400 ''Payload contains prohibited content'')
          else if memory_type \<noteq> JStr ''meta'' \<and> char_count s < 30
          then Inl (HttpException 400 ''Summary is too short (minimum 30 characters for non-meta types)'')
          else Inr s
      | _ \<Rightarrow> Inl TypeError)"

definition complete_payload :: "string \<Rightarrow> string \<Rightarrow> payload \<Rightarrow> payload" where
  "complete_payload wallet now p = set_default ''timestamp'' (JStr now) (set_default ''user_id'' (JStr wallet) p)"

definition type_text :: "json \<Rightarrow> string option" where
  "type_text j = (case j of JStr t \<Rightarrow> Some t | _ \<Rightarrow> None)"

definition checked_summary ::
  "outside \<Rightarrow> memory_tools \<Rightarrow> string \<Rightarrow> payload \<Rightarrow> ('z memory_state_scheme, string) io" where
  "checked_summary env lib wallet p =
     (let summary = entry_or p ''summary'' (JStr []); memory_type = entry_or p ''type'' (JStr ''meta'')
      in if \<not> truthy summary then throw (HttpException 400 ''payload.summary is required'')
         else
           bind (get_consent wallet) (\<lambda>c.
           bind (from_sum (is_type_allowed c memory_type)) (\<lambda>ok.
             if \<not> ok
             then throw (HttpException 403 (''User consent required for memory type '' @ [CHR 0x27] @
                    py_str env memory_type @ [CHR 0x27]))
             else from_sum (validate_payload_compliance lib summary memory_type))))"

definition stored_row :: "memory_settings \<Rightarrow> string \<Rightarrow> string \<Rightarrow> json \<Rightarrow> string \<Rightarrow> int \<Rightarrow> memory_op" where
  "stored_row cfg wallet summary memory_type pid duration =
     (op_row cfg wallet ''insert'' duration True)
       \<lparr>mo_vectors := 1, mo_bytes := int (length summary), mo_type := type_text memory_type,
        mo_metadata := Some (JObj [(''point_id'', JStr pid)])\<rparr>"

text \<open>The row of a failure is written and the exception raised again.\<close>

definition audit_failure ::
  "outside \<Rightarrow> memory_settings \<Rightarrow> string \<Rightarrow> string \<Rightarrow> usec \<Rightarrow> ('z memory_state_scheme, 'a) io \<Rightarrow> ('z memory_state_scheme, 'a) io" where
  "audit_failure env cfg wallet operation t0 m =
     catch_all m (\<lambda>e.
       bind (monotonic env) (\<lambda>t1.
       bind (log_memory_op env ((op_row cfg wallet operation ((t1 - t0) div 1000) False)
               \<lparr>mo_error := Some (case e of HttpError msg \<Rightarrow> msg | _ \<Rightarrow> [])\<rparr>)) (\<lambda>_. throw e)))"

definition store_audited ::
  "outside \<Rightarrow> memory_tools \<Rightarrow> memory_settings \<Rightarrow> string \<Rightarrow> string \<Rightarrow> json \<Rightarrow> payload \<Rightarrow> json
    \<Rightarrow> ('z memory_state_scheme, string) io" where
  "store_audited env lib cfg wallet summary memory_type p vector =
     bind (monotonic env) (\<lambda>t0.
       audit_failure env cfg wallet ''insert'' t0
         (bind (vector_store env lib p vector None) (\<lambda>pid.
          bind (monotonic env) (\<lambda>t1.
          bind (log_memory_op env (stored_row cfg wallet summary memory_type pid ((t1 - t0) div 1000))) (\<lambda>_.
            return pid)))))"

definition store_memory ::
  "outside \<Rightarrow> memory_tools \<Rightarrow> memory_settings \<Rightarrow> string \<Rightarrow> payload \<Rightarrow> ('z memory_state_scheme, json) io" where
  "store_memory env lib cfg wallet p =
     (if ms_openai_key cfg = []
      then throw (HttpException 503 ''Memory service is not fully configured (missing API key or Qdrant)'')
      else
        bind (checked_summary env lib wallet p) (\<lambda>summary.
        bind (embed env cfg summary) (\<lambda>vector.
        bind (gets (\<lambda>s. complete_payload wallet (iso_text (utc_now env s)) p)) (\<lambda>full.
        bind (store_audited env lib cfg wallet summary (entry_or p ''type'' (JStr ''meta'')) full vector) (\<lambda>pid.
          return (JObj [(''point'', JObj [(''id'', JStr pid), (''payload'', JObj full)]), (''merged'', JBool False)]))))))"

section \<open>Searching and deleting\<close>

definition split_commas :: "string \<Rightarrow> string list" where
  "split_commas s =
     foldr (\<lambda>c ws. if c = CHR '','' then [] # ws else (c # hd ws) # tl ws) s [[]]"

definition search_filter :: "string \<Rightarrow> string option \<Rightarrow> json" where
  "search_filter wallet types =
     JObj ([(''user_id'', JStr wallet)] @
       (case types of
          Some ts \<Rightarrow>
            if ts = [] then []
            else [(''types'', JArr (map JStr (filter (\<lambda>t. t \<noteq> []) (map strip (split_commas ts)))))]
        | None \<Rightarrow> []))"

definition search_memory ::
  "outside \<Rightarrow> memory_tools \<Rightarrow> memory_settings \<Rightarrow> string \<Rightarrow> string \<Rightarrow> string option \<Rightarrow> int \<Rightarrow> rat
    \<Rightarrow> ('z memory_state_scheme, json) io" where
  "search_memory env lib cfg wallet query types top_k threshold =
     (if \<not> (1 \<le> top_k \<and> top_k \<le> 50 \<and> 0 \<le> threshold \<and> threshold \<le> 1)
      then throw (HttpException 422 ''Validation error'')
      else if ms_openai_key cfg = [] then throw (HttpException 503 ''Memory service is not fully configured'')
      else if query = [] then return (JObj [(''results'', JArr [])])
      else
        bind (embed env cfg query) (\<lambda>vector.
        bind (monotonic env) (\<lambda>t0.
          audit_failure env cfg wallet ''search'' t0
            (bind (vector_search env lib vector top_k threshold (search_filter wallet types)) (\<lambda>results.
             bind (monotonic env) (\<lambda>t1.
             bind (log_memory_op env ((op_row cfg wallet ''search'' ((t1 - t0) div 1000) True)
                     \<lparr>mo_vectors := int (length results),
                      mo_metadata := Some (JObj [(''query_length'', JInt (int (char_count query))),
                        (''top_k'', JInt top_k), (''results_returned'', JInt (int (length results)))])\<rparr>)) (\<lambda>_.
               return (JObj [(''results'', JArr results)]))))))))"

definition delete_memory ::
  "outside \<Rightarrow> memory_settings \<Rightarrow> string \<Rightarrow> string \<Rightarrow> ('z memory_state_scheme, json) io" where
  "delete_memory env cfg wallet point_id =
     bind (get_by_id env point_id) (\<lambda>found.
       case found of
         None \<Rightarrow> throw (HttpException 404 ''Point not found'')
       | Some p \<Rightarrow>
           if entry p ''user_id'' \<noteq> JStr wallet then throw (HttpException 403 ''Forbidden'')
           else
             bind (timed env (vector_delete env point_id)) (\<lambda>(deleted, duration).
             bind (log_memory_op env ((op_row cfg wallet ''delete'' duration deleted)
                     \<lparr>mo_vectors := 1, mo_metadata := Some (JObj [(''point_id'', JStr point_id)]),
                      mo_error := (if deleted then None else Some ''Delete operation returned False'')\<rparr>)) (\<lambda>_.
               if deleted then return (JObj [(''ok'', JBool True), (''id'', JStr point_id)])
               else throw (HttpException 500 ''Delete failed''))))"

definition delete_all_memories ::
  "outside \<Rightarrow> memory_settings \<Rightarrow> string \<Rightarrow> string option \<Rightarrow> ('z memory_state_scheme, json) io" where
  "delete_all_memories env cfg wallet target =
     (if \<not> missing_header target \<and> target \<noteq> Some wallet then throw (HttpException 403 ''Forbidden'')
      else
        bind (timed env (delete_by_wallet env wallet)) (\<lambda>(n, duration).
        bind (log_memory_op env ((op_row cfg wallet ''delete_all'' duration True)
                \<lparr>mo_vectors := int n, mo_metadata := Some (JObj [])\<rparr>)) (\<lambda>_.
          return (JObj [(''ok'', JBool True), (''deleted'', JInt (int n))]))))"

section \<open>Consent\<close>

definition consent_json :: "string \<Rightarrow> consent \<Rightarrow> json" where
  "consent_json user_id c =
     JObj [(''userId'', JStr user_id), (''consent'', JObj (map (\<lambda>(k, b). (k, JBool b)) c))]"

definition resolved_id :: "string \<Rightarrow> string \<Rightarrow> exn + string" where
  "resolved_id wallet user_id =
     (let r = (if user_id = ''me'' then wallet else user_id)
      in if r \<noteq> wallet then Inl (HttpException 403 ''Forbidden'') else Inr r)"

definition get_consent_route :: "string \<Rightarrow> string \<Rightarrow> ('z memory_state_scheme, json) io" where
  "get_consent_route wallet user_id =
     bind (from_sum (resolved_id wallet user_id)) (\<lambda>r.
     bind (get_consent r) (\<lambda>c. return (consent_json r c)))"

text \<open>\<open>body.model_dump(exclude_none=True)\<close> of the five optional flags.\<close>

type_synonym consent_request = "(string \<times> bool option) list"

definition dump_patch :: "consent_request \<Rightarrow> consent" where
  "dump_patch body =
     concat (map (\<lambda>k. case map_of body k of Some (Some b) \<Rightarrow> [(k, b)] | _ \<Rightarrow> []) CONSENT_FIELDS)"

definition update_consent_route ::
  "outside \<Rightarrow> string \<Rightarrow> string \<Rightarrow> consent_request \<Rightarrow> ('z memory_state_scheme, json) io" where
  "update_consent_route env wallet user_id body =
     bind (from_sum (resolved_id wallet user_id)) (\<lambda>r.
     bind (update_consent env r (dump_patch body)) (\<lambda>c. return (consent_json r c)))"

definition summarize_route ::
  "outside \<Rightarrow> memory_settings \<Rightarrow> string \<Rightarrow> int \<Rightarrow> ('z memory_state_scheme, json) io" where
  "summarize_route env cfg chunk tokens =
     (if chunk = [] \<or> tokens < 0 then throw (HttpException 422 ''Validation error'')
      else bind (summarize env cfg chunk tokens) (\<lambda>j. return (JObj [(''summary'', j)])))"

section \<open>A request\<close>

datatype memory_request =
    Store_Memory payload
  | Search_Memory string "string option" int rat
  | Delete_Memory string
  | Delete_All "string option"
  | Read_Consent string
  | Put_Consent string consent_request
  | Summarize_Chunk string int

definition handle ::
  "outside \<Rightarrow> memory_tools \<Rightarrow> memory_settings \<Rightarrow> string \<Rightarrow> memory_request \<Rightarrow> ('z memory_state_scheme, json) io" where
  "handle env lib cfg wallet req =
     (case req of
        Store_Memory p \<Rightarrow> with_session (store_memory env lib cfg wallet p)
      | Search_Memory q ts k t \<Rightarrow> with_session (search_memory env lib cfg wallet q ts k t)
      | Delete_Memory i \<Rightarrow> with_session (delete_memory env cfg wallet i)
      | Delete_All target \<Rightarrow> with_session (delete_all_memories env cfg wallet target)
      | Read_Consent u \<Rightarrow> with_session (get_consent_route wallet u)
      | Put_Consent u body \<Rightarrow> with_session (update_consent_route env wallet u body)
      | Summarize_Chunk chunk n \<Rightarrow> summarize_route env cfg chunk n)"

record memory_call =
  mc_wallet :: "string option"
  mc_key :: "string option"
  mc_request :: memory_request

definition serve ::
  "outside \<Rightarrow> memory_tools \<Rightarrow> memory_settings \<Rightarrow> memory_call \<Rightarrow> ('z memory_state_scheme, json) io" where
  "serve env lib cfg call =
     bind (from_sum (require_auth cfg (mc_wallet call) (mc_key call))) (\<lambda>wallet.
       handle env lib cfg wallet (mc_request call))"

text \<open>Requests one after the other; an exception is the answer to its request only.\<close>

fun serve_all ::
  "outside \<Rightarrow> memory_tools \<Rightarrow> memory_settings \<Rightarrow> memory_call list \<Rightarrow> 'z memory_state_scheme \<Rightarrow> 'z memory_state_scheme" where
  "serve_all env lib cfg [] s = s"
| "serve_all env lib cfg (r # rs) s = serve_all env lib cfg rs (fst (serve env lib cfg r s))"

section \<open>Start-up and the servicers that are not registered yet\<close>

definition startup_check :: "memory_settings \<Rightarrow> exn + unit" where
  "startup_check cfg =
     (if ms_jwt_secret cfg = ''dev-insecure-secret-change''
      then Inl (RuntimeError (''FATAL: OPRAI_JWT_SECRET is set to the insecure default value. '' @
             ''Set OPRAI_JWT_SECRET to a secure random value in all environments.''))
      else if ms_internal_key cfg = ''dev-internal-key-change'' \<and> ms_node_env cfg = ''production''
      then Inl (RuntimeError (''FATAL: OPRAI_INTERNAL_API_KEY is set to the insecure default. '' @
             ''Refusing to start in production.''))
      else Inr ())"

text \<open>The defaults of the settings are empty secrets, which the check lets pass.\<close>

lemma default_settings_start: "startup_check default_memory_settings = Inr ()"
  by (simp add: startup_check_def default_memory_settings_def)

definition grpc_authed :: "memory_settings \<Rightarrow> string option \<Rightarrow> exn + bool" where
  "grpc_authed cfg key =
     (if ms_internal_key cfg = [] \<or> missing_header key then Inr False
      else compare_digest (the key) (ms_internal_key cfg))"

definition get_or :: "string \<Rightarrow> json \<Rightarrow> json \<Rightarrow> exn + json" where
  "get_or k d request = (if has_key k request then field k request else then_sum (field k request) (\<lambda>_. Inr d))"

text \<open>\<open>context.abort\<close> is a coroutine that nothing awaits: the call answers an empty object.\<close>

definition grpc_store ::
  "outside \<Rightarrow> memory_tools \<Rightarrow> memory_settings \<Rightarrow> json \<Rightarrow> ('z memory_state_scheme, json) io" where
  "grpc_store env lib cfg request =
     bind (from_sum (get_or ''payload'' (JObj []) request)) (\<lambda>p.
     bind (from_sum (get_or ''summary'' (JStr []) p)) (\<lambda>s.
       if \<not> truthy s \<or> ms_openai_key cfg = [] then return (JObj [])
       else
         bind (from_sum (case s of JStr t \<Rightarrow> Inr t | _ \<Rightarrow> Inl AttributeError)) (\<lambda>t.
         bind (embed env cfg t) (\<lambda>vector.
         bind (vector_store env lib (case p of JObj kvs \<Rightarrow> kvs | _ \<Rightarrow> []) vector None) (\<lambda>pid.
           return (JObj [(''point_id'', JStr pid)]))))))"

definition grpc_delete :: "outside \<Rightarrow> json \<Rightarrow> ('z memory_state_scheme, json) io" where
  "grpc_delete env request =
     bind (from_sum (get_or ''point_id'' (JStr []) request)) (\<lambda>i.
       case i of
         JStr pid \<Rightarrow>
           (if pid = [] then return (JObj [])
            else bind (vector_delete env pid) (\<lambda>ok. return (JObj [(''ok'', JBool ok)])))
       | JInt n \<Rightarrow>
           (if n = 0 then return (JObj [])
            else bind (vector_delete env (show_int n)) (\<lambda>ok. return (JObj [(''ok'', JBool ok)])))
       | _ \<Rightarrow> if truthy i then return (JObj [(''ok'', JBool False)]) else return (JObj []))"

definition grpc_get_consent :: "json \<Rightarrow> ('z memory_state_scheme, json) io" where
  "grpc_get_consent request =
     bind (from_sum (get_or ''user_id'' (JStr []) request)) (\<lambda>u.
       case u of
         JStr user_id \<Rightarrow>
           (if user_id = [] then return (JObj [])
            else
              bind (get_consent user_id) (\<lambda>c.
                return (JObj [(''user_id'', u), (''consent'', JObj (map (\<lambda>(k, b). (k, JBool b)) c))])))
       | _ \<Rightarrow> if truthy u then throw DataError else return (JObj []))"

definition grpc_summarize ::
  "outside \<Rightarrow> memory_settings \<Rightarrow> string \<Rightarrow> int \<Rightarrow> ('z memory_state_scheme, json) io" where
  "grpc_summarize env cfg chunk tokens =
     (if chunk = [] then return (JObj [])
      else bind (summarize env cfg chunk tokens) (\<lambda>j. return (JObj [(''summary'', j)])))"

end
