(* ===== verification/Memory_Isolation.thy ===== *)
theory Memory_Isolation
  imports Memory_Api
begin

text \<open>
  What the memory service guarantees one user against the others, and what it does not: whatever
  others ask, a user's memories and consent stay, and every stored memory has passed the checks;
  but the owner of a memory is whom its payload names.
\<close>

section \<open>The invariant and what others leave alone\<close>

definition owner :: "mem_point \<Rightarrow> json" where
  "owner p = entry (mp_payload p) ''user_id''"

text \<open>A payload as it passes the checks of a store request.\<close>

definition payload_ok :: "memory_tools \<Rightarrow> payload \<Rightarrow> bool" where
  "payload_ok lib p \<longleftrightarrow>
     (\<exists>s. map_of p ''summary'' = Some (JStr s) \<and> s \<noteq> [] \<and>
        \<not> list_ex (contains (lower (nfkc lib s))) DENYLIST \<and>
        (entry_or p ''type'' (JStr ''meta'') = JStr ''meta'' \<or>
         (\<exists>t. entry_or p ''type'' (JStr ''meta'') = JStr t \<and> t \<in> set CONSENT_FIELDS \<and> 30 \<le> char_count s))) \<and>
     map_of p ''user_id'' \<noteq> None \<and> map_of p ''timestamp'' \<noteq> None"

text \<open>Points have keys of their own, no identifier that is still to be drawn, and checked payloads.\<close>

definition memory_ok :: "memory_tools \<Rightarrow> 'z memory_state_scheme \<Rightarrow> bool" where
  "memory_ok lib s \<longleftrightarrow>
     keyed (mem_points s) \<and> (\<forall>n\<ge>looks s. row_of (mem_points s) (new_uuid lib n) = None) \<and>
     (\<forall>i p. row_of (mem_points s) i = Some p \<longrightarrow> payload_ok lib (mp_payload p))"

definition kept :: "string \<Rightarrow> 'z memory_state_scheme \<Rightarrow> 'z memory_state_scheme \<Rightarrow> bool" where
  "kept v s s' \<longleftrightarrow>
     (\<forall>i p. row_of (mem_points s) i = Some p \<and> owner p = JStr v \<longrightarrow> row_of (mem_points s') i = Some p) \<and>
     row_of (consents s') v = row_of (consents s) v"

abbreviation leaves :: "memory_tools \<Rightarrow> string \<Rightarrow> ('z memory_state_scheme, 'a) io \<Rightarrow> bool" where
  "leaves lib v m \<equiv> obeys (memory_ok lib) (kept v) m"

interpretation others: io_relation "memory_ok lib" "kept v" for lib v
  by unfold_locales (auto simp: kept_def)

lemma leaves_looks:
  fixes m :: "('z memory_state_scheme, 'a) io"
  assumes "framed m"
  shows "leaves lib v m"
proof -
  have "same_more w w' \<Longrightarrow> memory_ok lib w \<Longrightarrow> memory_ok lib w' \<and> kept v w w'" for w w' :: "'z memory_state_scheme"
    by (cases w; cases w') (auto simp: same_more_def memory_ok_def kept_def)
  then show ?thesis using assms by (auto simp: obeys_def)
qed

lemma framed_qdrant: "framed (mem_qdrant env command)"
  unfolding mem_qdrant_def by (intro framed_rules)

lemma framed_embed: "framed (embed env cfg s)"
  unfolding embed_def by (intro framed_rules)

lemma framed_catch: "framed m \<Longrightarrow> (\<And>e. framed (h e)) \<Longrightarrow> framed (catch_all m h)"
  unfolding catch_all_def by (intro framed_rules)

lemma framed_summarize: "framed (summarize env cfg chunk n)"
  unfolding summarize_def by (intro framed_rules framed_catch)

lemma leaves_log: "leaves lib v (log_memory_op env r)"
  by (simp add: log_memory_op_def obeys_def io_simps memory_ok_def kept_def)

lemma leaves_catch: "leaves lib v m \<Longrightarrow> (\<And>e. leaves lib v (h e)) \<Longrightarrow> leaves lib v (catch_all m h)"
  unfolding catch_all_def by (intro others.obeys_rules)

lemma leaves_gets: "(\<And>s. leaves lib v (f (g s))) \<Longrightarrow> leaves lib v (bind (gets g) f)"
  by (simp add: obeys_def bind_def io_simps)

lemma leaves_session:
  assumes "leaves lib v m"
  shows "leaves lib v (with_session m)"
  unfolding obeys_def
proof (intro allI impI)
  fix s :: "'a memory_state_scheme" assume ok: "memory_ok lib s"
  obtain s' r where m: "m s = (s', r)" by fastforce
  have *: "memory_ok lib s'" "kept v s s'" using obeysD [OF assms ok m] by simp_all
  show "memory_ok lib (fst (with_session m s)) \<and> kept v s (fst (with_session m s))"
  proof (cases r)
    case (Inl e)
    then have "fst (with_session m s) = s'\<lparr>consents := consents s, mem_ops := mem_ops s\<rparr>"
      using m by (simp add: with_session_def)
    then show ?thesis using * by (simp add: memory_ok_def kept_def)
  next
    case (Inr a)
    then show ?thesis using m * by (simp add: with_session_def)
  qed
qed

lemmas leaves_rules = others.obeys_rules leaves_catch leaves_log leaves_looks [OF framed_qdrant]
  leaves_looks [OF framed_embed] leaves_looks [OF framed_looks(1)] leaves_looks [OF framed_looks(2)]

section \<open>The vector store\<close>

lemma qdrant_result: "\<exists>r. mem_qdrant env c s = (s\<lparr>looks := looks s + 1\<rparr>, r) \<and> r \<noteq> Inl Out_Of_Fuel"
  by (auto simp: mem_qdrant_def bind_def io_simps raise_for_status_def split: http_outcome.split sum.split)

lemma leaves_store:
  assumes inj: "inj (new_uuid lib)" and p: "payload_ok lib p"
  shows "leaves lib v (vector_store env lib p x None)"
  unfolding obeys_def
proof (intro allI impI)
  fix s :: "'a memory_state_scheme" assume ok: "memory_ok lib s"
  let ?id = "new_uuid lib (looks s)" and ?s = "s\<lparr>looks := looks s + 2\<rparr>"
  obtain r where r: "mem_qdrant env ''upsert'' (s\<lparr>looks := looks s + 1\<rparr>) = (?s, r)"
    using qdrant_result [of env "''upsert''" "s\<lparr>looks := looks s + 1\<rparr>"] by auto
  have free: "row_of (mem_points s) ?id = None" using ok by (simp add: memory_ok_def)
  have new: "new_uuid lib n \<noteq> ?id" if "looks s + 2 \<le> n" for n using inj that by (auto dest: injD)
  have run: "vector_store env lib p x None s =
      (case r of Inl e \<Rightarrow> (?s, Inl e)
       | Inr _ \<Rightarrow> (?s\<lparr>mem_points := put_row ?id \<lparr>mp_payload = p, mp_vector = x\<rparr> (mem_points s)\<rparr>, Inr ?id))"
    using r by (simp add: vector_store_def draw_uuid_def bind_def io_simps split: sum.split)
  show "memory_ok lib (fst (vector_store env lib p x None s)) \<and> kept v s (fst (vector_store env lib p x None s))"
  proof (cases r)
    case (Inl e)
    then show ?thesis using ok run by (simp add: memory_ok_def kept_def)
  next
    case (Inr u)
    then show ?thesis using ok run free new p by (auto simp: memory_ok_def kept_def)
  qed
qed

lemma row_of_filter_key: "row_of (filter (\<lambda>(i, _). P i) t) i = (if P i then row_of t i else None)"
  by (induction t) auto

lemma keyed_filter: "keyed t \<Longrightarrow> keyed (filter P t)"
  by (simp add: keyed_def distinct_map_filter)

lemma memory_ok_fewer:
  "memory_ok lib s \<Longrightarrow> memory_ok lib (s\<lparr>mem_points := filter (\<lambda>(i, _). P i) (mem_points s)\<rparr>)"
  by (auto simp: memory_ok_def keyed_filter row_of_filter_key split: if_splits)

lemma memory_ok_dropped: "memory_ok lib s \<Longrightarrow> memory_ok lib (s\<lparr>mem_points := drop_row i (mem_points s)\<rparr>)"
  by (auto simp: memory_ok_def split: if_splits)

lemma memory_ok_later: "memory_ok lib s \<Longrightarrow> looks s \<le> n \<Longrightarrow> memory_ok lib (s\<lparr>looks := n\<rparr>)"
  by (auto simp: memory_ok_def)

lemma leaves_search: "leaves lib v (vector_search env lib' q k t filters)"
  unfolding vector_search_def by (intro leaves_rules leaves_gets)

section \<open>Scrolling\<close>

lemma from_offset_split: "distinct (xs @ i # ys) \<Longrightarrow> from_offset (Some i) (xs @ i # ys) = i # ys"
  by (induction xs) (auto simp: from_offset_def)

lemma scroll_from:
  assumes "ids_of wallet (mem_points s) = done @ rest" and "distinct (done @ rest)"
    and "from_offset offset (done @ rest) = rest" and "length rest < fuel"
  shows "\<exists>s' r. scroll_ids env wallet fuel offset done s = (s', r) \<and> s' = s\<lparr>looks := looks s'\<rparr> \<and>
    looks s \<le> looks s' \<and> r \<noteq> Inl Out_Of_Fuel \<and> (\<forall>ids. r = Inr ids \<longrightarrow> ids = done @ rest)"
  using assms
proof (induction fuel arbitrary: s offset "done" rest)
  case 0
  then show ?case by simp
next
  case (Suc fuel)
  obtain r where r: "mem_qdrant env ''scroll'' s = (s\<lparr>looks := looks s + 1\<rparr>, r)" "r \<noteq> Inl Out_Of_Fuel"
    using qdrant_result by blast
  let ?s = "s\<lparr>looks := looks s + 1\<rparr>"
  show ?case
  proof (cases r)
    case (Inl e)
    then show ?thesis using r by (simp add: bind_def)
  next
    case (Inr u)
    show ?thesis
    proof (cases "drop SCROLL_LIMIT rest")
      case Nil
      then have "take SCROLL_LIMIT rest = rest" by simp
      then show ?thesis using Nil Inr r Suc.prems
        by (simp add: bind_def io_simps scroll_page_def Let_def)
    next
      case (Cons i more)
      have split: "rest = take SCROLL_LIMIT rest @ i # more" using Cons by (metis append_take_drop_id)
      let ?done = "done @ take SCROLL_LIMIT rest" and ?rest = "i # more"
      have all: "done @ rest = ?done @ ?rest" using split by simp
      have limit: "0 < SCROLL_LIMIT" by (simp add: SCROLL_LIMIT_def)
      have "length ?rest < length rest" using Cons limit
        by (metis length_drop diff_less length_greater_0_conv list.distinct(1) drop_Nil)
      then have fuel: "length ?rest < fuel" using Suc.prems(4) by simp
      have offset: "from_offset (Some i) (?done @ ?rest) = ?rest"
        using Suc.prems(2) unfolding all by (rule from_offset_split)
      have same: "ids_of wallet (mem_points ?s) = ?done @ ?rest" using Suc.prems(1) all by simp
      have step: "scroll_ids env wallet (Suc fuel) offset done s = scroll_ids env wallet fuel (Some i) ?done ?s"
        using Cons Inr r Suc.prems by (simp add: bind_def io_simps scroll_page_def Let_def)
      have "distinct (?done @ ?rest)" using Suc.prems(2) unfolding all .
      then obtain s' r' where end_state: "scroll_ids env wallet fuel (Some i) ?done ?s = (s', r')"
          "s' = ?s\<lparr>looks := looks s'\<rparr>" "looks ?s \<le> looks s'" "r' \<noteq> Inl Out_Of_Fuel"
          "\<forall>ids. r' = Inr ids \<longrightarrow> ids = ?done @ ?rest"
        using Suc.IH [OF same _ offset fuel] by blast
      have "?s\<lparr>looks := looks s'\<rparr> = s\<lparr>looks := looks s'\<rparr>" by simp
      then have "s' = s\<lparr>looks := looks s'\<rparr>" using end_state(2) by (rule trans [rotated])
      moreover have "looks s \<le> looks s'" using end_state(3) by simp
      moreover have "scroll_ids env wallet (Suc fuel) offset done s = (s', r')"
        using step end_state(1) by (rule trans)
      ultimately show ?thesis using end_state(4,5) unfolding all by blast
    qed
  qed
qed

lemma scroll_all:
  assumes "keyed (mem_points s)"
  shows "\<exists>s' r. scroll_ids env wallet (Suc (length (mem_points s))) None [] s = (s', r) \<and>
    s' = s\<lparr>looks := looks s'\<rparr> \<and> looks s \<le> looks s' \<and> r \<noteq> Inl Out_Of_Fuel \<and>
    (\<forall>ids. r = Inr ids \<longrightarrow> ids = ids_of wallet (mem_points s))"
proof -
  have "distinct (ids_of wallet (mem_points s))"
    using assms by (simp add: ids_of_def candidates_def rows_where_def keyed_def distinct_map_filter)
  moreover have "length (ids_of wallet (mem_points s)) < Suc (length (mem_points s))"
    by (simp add: ids_of_def candidates_def rows_where_def le_imp_less_Suc)
  ultimately show ?thesis
    using scroll_from [of wallet s "[]" "ids_of wallet (mem_points s)" None "Suc (length (mem_points s))" env]
    unfolding append_Nil from_offset_def option.case by blast
qed

section \<open>The endpoints\<close>

lemma flag_allowed: "flag (consent_map r) t False \<Longrightarrow> t \<in> set CONSENT_FIELDS"
  by (auto simp: flag_def consent_map_def CONSENT_FIELDS_def split: if_splits option.splits)

text \<open>What the checks before a store leave of a payload, and that they change nothing.\<close>

lemma checked_summary_ok:
  assumes "checked_summary env lib wallet p s = (s', Inr x)"
  shows "s' = s \<and> payload_ok lib (complete_payload w now p) \<and>
    (entry_or p ''type'' (JStr ''meta'') = JStr ''meta'' \<or>
     (\<exists>r t. row_of (consents s) wallet = Some r \<and> entry_or p ''type'' (JStr ''meta'') = JStr t \<and>
        flag (consent_map r) t False))"
proof -
  let ?c = "case row_of (consents s) wallet of None \<Rightarrow> [] | Some r \<Rightarrow> consent_map r"
  let ?type = "entry_or p ''type'' (JStr ''meta'')" and ?summary = "entry_or p ''summary'' (JStr [])"
  have "truthy ?summary" and allowed: "is_type_allowed ?c ?type = Inr True"
    and s': "s' = s" and "validate_payload_compliance lib ?summary ?type = Inr x"
    using assms by (auto simp: checked_summary_def Let_def get_consent_def bind_Inr io_simps split: if_splits)
  then obtain sm where sm: "?summary = JStr sm" "sm \<noteq> []" "\<not> list_ex (contains (lower (nfkc lib sm))) DENYLIST"
      "?type = JStr ''meta'' \<or> 30 \<le> char_count sm"
    by (auto simp: validate_payload_compliance_def split: json.splits if_splits)
  obtain t where t: "?type = JStr t" "t = ''meta'' \<or> flag ?c t False"
    using allowed by (auto simp: is_type_allowed_def split: json.splits)
  have row: "t = ''meta'' \<or> (\<exists>r. row_of (consents s) wallet = Some r \<and> flag (consent_map r) t False)"
    using t(2) by (auto simp: flag_def split: option.splits)
  have "map_of p ''summary'' = Some (JStr sm)" using sm(1,2) by (auto simp: entry_or_def split: option.splits)
  moreover have "map_of (complete_payload w now p) k = map_of p k" if "k = ''summary'' \<or> k = ''type''" for k
    using that by (auto simp: complete_payload_def set_default_def map_add_def split: option.split)
  moreover have "map_of (complete_payload w now p) k \<noteq> None" if "k = ''user_id'' \<or> k = ''timestamp''" for k
    using that by (auto simp: complete_payload_def set_default_def map_add_def split: option.split)
  ultimately have "payload_ok lib (complete_payload w now p)"
    using sm t row flag_allowed unfolding payload_ok_def entry_or_def by (metis (no_types, lifting))
  then show ?thesis using s' t row by blast
qed

lemma checked_summary_still: "fst (checked_summary env lib wallet p s) = s"
  by (simp add: checked_summary_def Let_def get_consent_def bind_def io_simps split: sum.split)

lemma leaves_checked:
  assumes "\<And>s. fst (m s) = s" and "\<And>s a. m s = (s, Inr a) \<Longrightarrow> leaves lib v (f a)"
  shows "leaves lib v (bind m f)"
  unfolding obeys_def
proof (intro allI impI)
  fix s :: "'a memory_state_scheme" assume ok: "memory_ok lib s"
  obtain r where r: "m s = (s, r)" using assms(1) [of s] by (cases "m s") auto
  show "memory_ok lib (fst (bind m f s)) \<and> kept v s (fst (bind m f s))"
  proof (cases r)
    case (Inl e)
    then show ?thesis using r ok by (simp add: bind_def kept_def)
  next
    case (Inr a)
    then show ?thesis using r ok assms(2) [of s a] by (simp add: bind_def obeys_def)
  qed
qed

lemma leaves_audit: "leaves lib v m \<Longrightarrow> leaves lib v (audit_failure env cfg wallet operation t0 m)"
  unfolding audit_failure_def by (intro leaves_rules)

lemma leaves_stored:
  assumes "inj (new_uuid lib)" and "\<And>now. payload_ok lib (complete_payload wallet now p)"
  shows "leaves lib v
      (bind (embed env cfg x) (\<lambda>vector.
       bind (gets (\<lambda>s. complete_payload wallet (iso_text (utc_now env s)) p)) (\<lambda>full.
       bind (store_audited env lib cfg wallet x mtype full vector) (\<lambda>pid. return (g full pid)))))"
proof -
  have stored: "leaves lib v (store_audited env lib cfg wallet x mtype full vector)" if "payload_ok lib full" for full vector
    unfolding store_audited_def by (intro leaves_rules leaves_audit leaves_store assms(1) that)
  show ?thesis
    by (intro others.obeys_bind [OF leaves_looks [OF framed_embed]] leaves_gets
        others.obeys_bind [OF stored [OF assms(2)]] others.obeys_pure)
qed

lemma leaves_store_memory:
  assumes "inj (new_uuid lib)"
  shows "leaves lib v (store_memory env lib cfg wallet p)"
  unfolding store_memory_def
proof (rule others.obeys_split(1), rule others.obeys_pure, rule leaves_checked, rule checked_summary_still)
  fix s :: "'a memory_state_scheme" and x
  assume "checked_summary env lib wallet p s = (s, Inr x)"
  then have "payload_ok lib (complete_payload wallet now p)" for now using checked_summary_ok by blast
  then show "leaves lib v
      (bind (embed env cfg x) (\<lambda>vector.
       bind (gets (\<lambda>s. complete_payload wallet (iso_text (utc_now env s)) p)) (\<lambda>full.
       bind (store_audited env lib cfg wallet x (entry_or p ''type'' (JStr ''meta'')) full vector) (\<lambda>pid.
         return (JObj [(''point'', JObj [(''id'', JStr pid), (''payload'', JObj full)]), (''merged'', JBool False)])))))"
    by (intro leaves_stored assms)
qed

lemma leaves_search_memory: "leaves lib v (search_memory env lib' cfg wallet q ts k t)"
  unfolding search_memory_def by (intro leaves_rules leaves_audit leaves_search)

lemma leaves_get_by_id: "leaves lib v (get_by_id env i)"
  unfolding get_by_id_def by (intro leaves_rules)

lemma get_by_id_result:
  assumes "get_by_id env i s = (s', Inr (Some p))"
  shows "s' = s\<lparr>looks := looks s + 1\<rparr> \<and> (\<exists>x. row_of (mem_points s) i = Some x \<and> mp_payload x = p)"
proof -
  obtain r where r: "mem_qdrant env ''retrieve'' s = (s\<lparr>looks := looks s + 1\<rparr>, r)" using qdrant_result by blast
  then show ?thesis using assms
    by (cases r) (auto simp: get_by_id_def catch_all_def try_except_def bind_def io_simps split: if_splits)
qed

lemma vector_delete_result:
  "\<exists>ok. vector_delete env i s =
     ((if ok then s\<lparr>looks := looks s + 1, mem_points := drop_row i (mem_points s)\<rparr> else s\<lparr>looks := looks s + 1\<rparr>),
      Inr ok)"
proof -
  obtain r where r: "mem_qdrant env ''delete'' s = (s\<lparr>looks := looks s + 1\<rparr>, r)" "r \<noteq> Inl Out_Of_Fuel"
    using qdrant_result by blast
  then show ?thesis
    by (cases r) (auto simp: vector_delete_def catch_all_def try_except_def bind_def io_simps)
qed

text \<open>The two deletions, as what they do to the state.\<close>

lemma delete_memory_effect:
  assumes "s' = fst (delete_memory env cfg wallet i s)"
  shows "consents s' = consents s \<and> looks s \<le> looks s' \<and>
     (mem_points s' = mem_points s \<or>
      (\<exists>p. row_of (mem_points s) i = Some p \<and> owner p = JStr wallet \<and> mem_points s' = drop_row i (mem_points s)))"
proof -
  obtain s1 r where found: "get_by_id env i s = (s1, r)" by fastforce
  obtain u where u: "mem_qdrant env ''retrieve'' s = (s\<lparr>looks := looks s + 1\<rparr>, u)" using qdrant_result by blast
  have s1: "s1 = s\<lparr>looks := looks s + 1\<rparr>"
    using found u by (auto simp: get_by_id_def catch_all_def try_except_def bind_def io_simps split: sum.splits if_splits)
  show ?thesis
  proof (cases "\<exists>p. r = Inr (Some p) \<and> entry p ''user_id'' = JStr wallet")
    case False
    then have "s' = s1"
      by (auto simp: assms delete_memory_def bind_def found io_simps split: sum.split option.split)
    then show ?thesis unfolding s1 by simp
  next
    case True
    then obtain p where p: "r = Inr (Some p)" "entry p ''user_id'' = JStr wallet" by blast
    obtain x where x: "row_of (mem_points s) i = Some x" "mp_payload x = p"
      using get_by_id_result [of env i s s1 p] found p(1) by auto
    obtain ok where ok: "vector_delete env i (s\<lparr>looks := looks s + 2\<rparr>) =
       ((if ok then s\<lparr>looks := looks s + 3, mem_points := drop_row i (mem_points s)\<rparr> else s\<lparr>looks := looks s + 3\<rparr>), Inr ok)"
      using vector_delete_result [of env i "s\<lparr>looks := looks s + 2\<rparr>"] by auto
    have "owner x = JStr wallet" using x(2) p(2) by (simp add: owner_def)
    then show ?thesis
      using found p ok x(1) by (simp add: assms delete_memory_def bind_def timed_def log_memory_op_def io_simps s1)
  qed
qed

lemma leaves_by_effect:
  fixes m :: "('a memory_state_scheme, 'b) io"
  assumes "\<And>s. memory_ok lib s \<Longrightarrow> consents (fst (m s)) = consents s \<and> looks s \<le> looks (fst (m s)) \<and>
     (\<exists>P. mem_points (fst (m s)) = filter (\<lambda>(i, _). P i) (mem_points s) \<and>
        (\<forall>i p. row_of (mem_points s) i = Some p \<and> owner p = JStr v \<longrightarrow> P i))"
  shows "leaves lib v m"
  unfolding obeys_def
proof (intro allI impI)
  fix s :: "'a memory_state_scheme" assume ok: "memory_ok lib s"
  obtain P where P: "mem_points (fst (m s)) = filter (\<lambda>(i, _). P i) (mem_points s)"
      "\<forall>i p. row_of (mem_points s) i = Some p \<and> owner p = JStr v \<longrightarrow> P i"
      and rest: "consents (fst (m s)) = consents s" "looks s \<le> looks (fst (m s))"
    using assms [OF ok] by blast
  then show "memory_ok lib (fst (m s)) \<and> kept v s (fst (m s))"
    using ok by (auto simp: memory_ok_def kept_def keyed_filter row_of_filter_key)
qed

lemma drop_row_filter: "drop_row i t = filter (\<lambda>(j, _). j \<noteq> i) t"
  by (simp add: drop_row_def AList.delete_eq case_prod_unfold eq_commute [of i])

lemma leaves_delete_memory:
  assumes "wallet \<noteq> v"
  shows "leaves lib v (delete_memory env cfg wallet i)"
proof (rule leaves_by_effect)
  fix s :: "'a memory_state_scheme" assume "memory_ok lib s"
  let ?s = "fst (delete_memory env cfg wallet i s)"
  have effect: "consents ?s = consents s" "looks s \<le> looks ?s"
    "mem_points ?s = mem_points s \<or>
      (\<exists>p. row_of (mem_points s) i = Some p \<and> owner p = JStr wallet \<and> mem_points ?s = drop_row i (mem_points s))"
    using delete_memory_effect [OF refl, of env cfg wallet i s] by simp_all
  have "\<exists>P. mem_points ?s = filter (\<lambda>(i, _). P i) (mem_points s) \<and>
        (\<forall>i p. row_of (mem_points s) i = Some p \<and> owner p = JStr v \<longrightarrow> P i)"
    using effect(3)
  proof
    assume "mem_points ?s = mem_points s"
    then show ?thesis by (intro exI [of _ "\<lambda>_. True"]) simp
  next
    assume "\<exists>p. row_of (mem_points s) i = Some p \<and> owner p = JStr wallet \<and> mem_points ?s = drop_row i (mem_points s)"
    then show ?thesis using assms by (intro exI [of _ "\<lambda>j. j \<noteq> i"]) (auto simp: drop_row_filter)
  qed
  then show "consents ?s = consents s \<and> looks s \<le> looks ?s \<and>
     (\<exists>P. mem_points ?s = filter (\<lambda>(i, _). P i) (mem_points s) \<and>
        (\<forall>i p. row_of (mem_points s) i = Some p \<and> owner p = JStr v \<longrightarrow> P i))"
    using effect by blast
qed

lemma ids_of_owner:
  assumes "i \<in> set (ids_of wallet t)" and "keyed t" and "row_of t i = Some p"
  shows "match_any [JStr wallet] (owner p)"
  using assms by (auto simp: ids_of_def candidates_def rows_where_def keyed_row_of passes_def owner_def)

text \<open>A wipe that deletes takes away all that the scroll found, or it takes nothing.\<close>

lemma delete_by_wallet_effect:
  assumes "keyed (mem_points s)"
  shows "\<exists>s' n. delete_by_wallet env wallet s = (s', Inr n) \<and> consents s' = consents s \<and> looks s \<le> looks s' \<and>
     mem_ops s' = mem_ops s \<and>
     (n = 0 \<and> mem_points s' = mem_points s \<or>
      n = length (ids_of wallet (mem_points s)) \<and>
      mem_points s' = filter (\<lambda>(i, _). i \<notin> set (ids_of wallet (mem_points s))) (mem_points s))"
proof -
  let ?ids = "ids_of wallet (mem_points s)"
  obtain s1 r where scroll: "scroll_ids env wallet (Suc (length (mem_points s))) None [] s = (s1, r)"
      "s1 = s\<lparr>looks := looks s1\<rparr>" "looks s \<le> looks s1" "r \<noteq> Inl Out_Of_Fuel" "\<forall>ids. r = Inr ids \<longrightarrow> ids = ?ids"
    using scroll_all [OF assms, of env wallet] by blast
  have same: "mem_points s1 = mem_points s" "consents s1 = consents s" "mem_ops s1 = mem_ops s"
    by (subst scroll(2), simp)+
  obtain u where u: "mem_qdrant env ''delete'' s1 = (s1\<lparr>looks := looks s1 + 1\<rparr>, u)" "u \<noteq> Inl Out_Of_Fuel"
    using qdrant_result by blast
  show ?thesis
  proof (cases r)
    case (Inl e)
    then have "delete_by_wallet env wallet s = (s1, Inr 0)"
      using scroll(1,4) by (simp add: delete_by_wallet_def catch_all_def try_except_def bind_def io_simps del: scroll_ids.simps)
    then show ?thesis using same scroll(3) by simp
  next
    case (Inr ids)
    then have ids: "ids = ?ids" using scroll(5) by simp
    show ?thesis
    proof (cases "ids = []")
      case True
      then have "delete_by_wallet env wallet s = (s1, Inr 0)"
        using scroll(1) Inr by (simp add: delete_by_wallet_def catch_all_def try_except_def bind_def io_simps del: scroll_ids.simps)
      then show ?thesis using same scroll(3) by simp
    next
      case False
      then have "delete_by_wallet env wallet s =
          (case u of Inl e \<Rightarrow> (s1\<lparr>looks := looks s1 + 1\<rparr>, Inr 0)
           | Inr _ \<Rightarrow> (s1\<lparr>looks := looks s1 + 1, mem_points := filter (\<lambda>(i, _). i \<notin> set ids) (mem_points s1)\<rparr>,
                      Inr (length ids)))"
        using scroll(1) Inr u
        by (simp add: delete_by_wallet_def catch_all_def try_except_def bind_def io_simps  del: scroll_ids.simps
            split: sum.split)
      then show ?thesis using same scroll(3) ids by (cases u) simp_all
    qed
  qed
qed

lemma leaves_delete_all:
  assumes "wallet \<noteq> v"
  shows "leaves lib v (delete_all_memories env cfg wallet target)"
proof (rule leaves_by_effect)
  fix s :: "'a memory_state_scheme" assume ok: "memory_ok lib s"
  let ?s = "fst (delete_all_memories env cfg wallet target s)" and ?ids = "ids_of wallet (mem_points s)"
  have keyed: "keyed (mem_points s)" using ok by (simp add: memory_ok_def)
  let ?s1 = "s\<lparr>looks := looks s + 1\<rparr>"
  obtain s2 n where wipe: "delete_by_wallet env wallet ?s1 = (s2, Inr n)" "consents s2 = consents s" "looks s < looks s2"
     "mem_points s2 = mem_points s \<or> mem_points s2 = filter (\<lambda>(i, _). i \<notin> set ?ids) (mem_points s)"
    using delete_by_wallet_effect [of ?s1 env wallet] keyed by auto
  have effect: "consents ?s = consents s \<and> looks s \<le> looks ?s \<and>
      (mem_points ?s = mem_points s \<or> mem_points ?s = filter (\<lambda>(i, _). i \<notin> set ?ids) (mem_points s))"
  proof (cases "\<not> missing_header target \<and> target \<noteq> Some wallet")
    case True
    then show ?thesis by (simp add: delete_all_memories_def io_simps)
  next
    case False
    then have run: "delete_all_memories env cfg wallet target = bind (timed env (delete_by_wallet env wallet)) (\<lambda>(n, duration).
        bind (log_memory_op env ((op_row cfg wallet ''delete_all'' duration True)
                \<lparr>mo_vectors := int n, mo_metadata := Some (JObj [])\<rparr>)) (\<lambda>_.
          return (JObj [(''ok'', JBool True), (''deleted'', JInt (int n))])))"
      unfolding delete_all_memories_def by auto
    have "consents ?s = consents s2" "looks ?s = looks s2 + 1" "mem_points ?s = mem_points s2"
      unfolding run using wipe(1) by (simp_all add: bind_def timed_def log_memory_op_def io_simps)
    then show ?thesis using wipe(2,3,4) by auto
  qed
  have "i \<notin> set ?ids" if "row_of (mem_points s) i = Some p" "owner p = JStr v" for i p
    using ids_of_owner [OF _ keyed that(1), of wallet] that(2) assms by (auto simp: match_any_def)
  then show "consents ?s = consents s \<and> looks s \<le> looks ?s \<and>
     (\<exists>P. mem_points ?s = filter (\<lambda>(i, _). P i) (mem_points s) \<and>
        (\<forall>i p. row_of (mem_points s) i = Some p \<and> owner p = JStr v \<longrightarrow> P i))"
    using effect
    by (elim conjE disjE) (auto intro: exI [of _ "\<lambda>_. True"] exI [of _ "\<lambda>i. i \<notin> set ?ids"])
qed

lemma leaves_update_consent:
  assumes "wallet \<noteq> v"
  shows "leaves lib v (update_consent_route env wallet u body)"
proof -
  have upd: "leaves lib v (update_consent env wallet patch)" for patch
    using assms by (simp add: obeys_def update_consent_def bind_def io_simps memory_ok_def kept_def)
  have route: "update_consent_route env wallet u body =
      bind (from_sum (resolved_id wallet u)) (\<lambda>r.
      bind (update_consent env wallet (dump_patch body)) (\<lambda>c. return (consent_json r c)))"
    by (auto simp: update_consent_route_def resolved_id_def Let_def bind_def io_simps fun_eq_iff)
  show ?thesis unfolding route by (intro others.obeys_bind upd others.obeys_pure)
qed

lemma leaves_get_consent: "leaves lib v (get_consent_route wallet u)"
  unfolding get_consent_route_def get_consent_def by (intro leaves_rules)

lemma leaves_handle:
  assumes "inj (new_uuid lib)" and "wallet \<noteq> v"
  shows "leaves lib v (handle env lib cfg wallet req)"
proof (cases req)
  case (Summarize_Chunk chunk n)
  have "leaves lib v (summarize env cfg chunk n)" by (rule leaves_looks [OF framed_summarize])
  then show ?thesis unfolding handle_def Summarize_Chunk memory_request.case summarize_route_def
    by (intro leaves_rules)
qed (simp_all add: handle_def leaves_session leaves_store_memory leaves_search_memory leaves_delete_memory
      leaves_delete_all leaves_update_consent leaves_get_consent assms)

lemma leaves_serve:
  assumes "inj (new_uuid lib)" and "mc_wallet call \<noteq> Some v"
  shows "leaves lib v (serve env lib cfg call)"
  unfolding serve_def
proof (rule leaves_checked)
  fix s :: "'a memory_state_scheme" and wallet
  assume "from_sum (require_auth cfg (mc_wallet call) (mc_key call)) s = (s, Inr wallet)"
  then have "mc_wallet call = Some wallet"
    by (auto simp: io_simps require_auth_def missing_header_def or_text_opt_def then_sum_Inr split: if_splits option.splits)
  then show "leaves lib v (handle env lib cfg wallet (mc_request call))" using assms by (intro leaves_handle) auto
qed (simp add: io_simps)

lemma serve_all_leaves:
  fixes s :: "'z memory_state_scheme"
  assumes "inj (new_uuid lib)" and "\<forall>c\<in>set calls. mc_wallet c \<noteq> Some v" and "memory_ok lib s"
  shows "memory_ok lib (serve_all env lib cfg calls s) \<and> kept v s (serve_all env lib cfg calls s)"
  using assms(2,3)
proof (induction calls arbitrary: s)
  case Nil
  then show ?case by (simp add: kept_def)
next
  case (Cons c cs)
  let ?s = "fst (serve env lib cfg c s)"
  have "mc_wallet c \<noteq> Some v" using Cons.prems(1) by simp
  from leaves_serve [OF assms(1) this, of env cfg] have "memory_ok lib ?s \<and> kept v s ?s"
    using Cons.prems(2) unfolding obeys_def by blast
  then show ?case using Cons.IH [of ?s] Cons.prems(1) by (auto simp: kept_def)
qed

section \<open>One store request\<close>

lemma embed_result: "\<exists>n r. looks s \<le> n \<and> embed env cfg x s = (s\<lparr>looks := n\<rparr>, r)"
proof (cases "strip x = []")
  case True
  then show ?thesis by (intro exI [of _ "looks s"]) (simp add: embed_def io_simps)
next
  case False
  then show ?thesis by (intro exI [of _ "looks s + 1"]) (simp add: embed_def bind_def io_simps)
qed

lemma vector_store_result:
  "\<exists>r. r \<noteq> Inl Out_Of_Fuel \<and> vector_store env lib p x None s =
     (case r of
        Inl e \<Rightarrow> (s\<lparr>looks := looks s + 2\<rparr>, Inl e)
      | Inr (u::unit) \<Rightarrow>
          (s\<lparr>looks := looks s + 2,
             mem_points := put_row (new_uuid lib (looks s)) \<lparr>mp_payload = p, mp_vector = x\<rparr> (mem_points s)\<rparr>,
           Inr (new_uuid lib (looks s))))"
proof -
  obtain r where r: "mem_qdrant env ''upsert'' (s\<lparr>looks := looks s + 1\<rparr>) = (s\<lparr>looks := looks s + 2\<rparr>, r)"
      "r \<noteq> Inl Out_Of_Fuel"
    using qdrant_result [of env "''upsert''" "s\<lparr>looks := looks s + 1\<rparr>"] by auto
  then show ?thesis
    by (intro exI [of _ r]) (simp add: vector_store_def draw_uuid_def bind_def io_simps split: sum.split)
qed

text \<open>Seen from the tables: nothing, or one point and one row.\<close>

definition one_stored ::
  "string \<Rightarrow> payload \<Rightarrow> 'z memory_state_scheme \<Rightarrow> 'z memory_state_scheme \<Rightarrow> bool" where
  "one_stored wallet full s s' \<longleftrightarrow>
     consents s' = consents s \<and>
     (\<exists>i x. row_of (mem_points s) i = None \<and>
        mem_points s' = put_row i \<lparr>mp_payload = full, mp_vector = x\<rparr> (mem_points s)) \<and>
     (\<exists>r. mem_ops s' = mem_ops s @ [r] \<and> mo_wallet r = Some wallet \<and> mo_operation r = ''insert'' \<and> mo_success r)"

definition nothing_stored :: "'z memory_state_scheme \<Rightarrow> 'z memory_state_scheme \<Rightarrow> bool" where
  "nothing_stored s s' \<longleftrightarrow>
     consents s' = consents s \<and> mem_points s' = mem_points s \<and> mem_ops s' = mem_ops s"

lemma store_audited_result:
  assumes "\<forall>n\<ge>looks s. row_of (mem_points s) (new_uuid lib n) = None"
    and "store_audited env lib cfg wallet x mtype full vector s = (s', r)"
  shows "(\<exists>e. r = Inl e \<and> consents s' = consents s \<and> mem_points s' = mem_points s) \<or>
    (\<exists>i. r = Inr i \<and> one_stored wallet full s s')"
proof -
  let ?s = "s\<lparr>looks := looks s + 1\<rparr>" and ?id = "new_uuid lib (looks s + 1)"
  obtain u where u: "u \<noteq> Inl Out_Of_Fuel" "vector_store env lib full vector None ?s =
     (case u of Inl e \<Rightarrow> (?s\<lparr>looks := looks ?s + 2\<rparr>, Inl e)
      | Inr (_::unit) \<Rightarrow> (?s\<lparr>looks := looks ?s + 2,
             mem_points := put_row (new_uuid lib (looks ?s)) \<lparr>mp_payload = full, mp_vector = vector\<rparr> (mem_points ?s)\<rparr>,
           Inr (new_uuid lib (looks ?s))))"
    using vector_store_result [of env lib full vector ?s] by blast
  have free: "row_of (mem_points s) ?id = None" using assms(1) by simp
  show ?thesis
  proof (cases u)
    case (Inl e)
    then have "consents s' = consents s \<and> mem_points s' = mem_points s \<and> r = Inl e"
      using u assms(2)
      by (auto simp: store_audited_def audit_failure_def log_memory_op_def catch_all_def try_except_def bind_def io_simps)
    then show ?thesis by blast
  next
    case (Inr v)
    then have "r = Inr ?id \<and> consents s' = consents s \<and>
        mem_points s' = put_row ?id \<lparr>mp_payload = full, mp_vector = vector\<rparr> (mem_points s) \<and>
        (\<exists>q. mem_ops s' = mem_ops s @ [q] \<and> mo_wallet q = Some wallet \<and> mo_operation q = ''insert'' \<and> mo_success q)"
      using u assms(2)
      by (auto simp: store_audited_def audit_failure_def log_memory_op_def catch_all_def try_except_def bind_def io_simps
          stored_row_def op_row_def)
    then show ?thesis using free unfolding one_stored_def by blast
  qed
qed

lemma store_memory_result:
  assumes ok: "memory_ok lib s" and run: "store_memory env lib cfg wallet p s = (s', r)"
  shows "(\<exists>e. r = Inl e \<and> consents s' = consents s \<and> mem_points s' = mem_points s) \<or>
    (\<exists>x j now. checked_summary env lib wallet p s = (s, Inr x) \<and> r = Inr j \<and>
       one_stored wallet (complete_payload wallet now p) s s')"
proof -
  let ?mtype = "entry_or p ''type'' (JStr ''meta'')"
  obtain rc where rc: "checked_summary env lib wallet p s = (s, rc)"
    using checked_summary_still [of env lib wallet p s] by (cases "checked_summary env lib wallet p s") auto
  show ?thesis
  proof (cases "ms_openai_key cfg = [] \<or> (\<exists>e. rc = Inl e)")
    case True
    then have "s' = s \<and> (\<exists>e. r = Inl e)"
      using run rc by (auto simp: store_memory_def bind_def io_simps split: if_splits)
    then show ?thesis by blast
  next
    case False
    then obtain x where x: "rc = Inr x" by (cases rc) auto
    obtain n rv where e: "looks s \<le> n" "embed env cfg x s = (s\<lparr>looks := n\<rparr>, rv)" using embed_result by blast
    let ?s = "s\<lparr>looks := n\<rparr>"
    let ?full = "complete_payload wallet (iso_text (utc_now env ?s)) p"
    show ?thesis
    proof (cases rv)
      case (Inl err)
      then have "s' = ?s \<and> r = Inl err" using run rc x e False by (simp add: store_memory_def bind_def)
      then show ?thesis by auto
    next
      case (Inr vector)
      obtain s2 ra where a: "store_audited env lib cfg wallet x ?mtype ?full vector ?s = (s2, ra)" by fastforce
      have free: "\<forall>m\<ge>looks ?s. row_of (mem_points ?s) (new_uuid lib m) = None"
        using ok e(1) by (simp add: memory_ok_def)
      have "s' = s2 \<and> (case ra of Inl err \<Rightarrow> r = Inl err | Inr i \<Rightarrow> \<exists>j. r = Inr j)"
        using run rc x e(2) False Inr a by (auto simp: store_memory_def bind_def io_simps split: sum.splits)
      then show ?thesis
        using store_audited_result [OF free a] rc x unfolding one_stored_def by fastforce
    qed
  qed
qed

lemma session_result:
  assumes "with_session m s = (s', r)"
  obtains s1 where "m s = (s1, r)"
    and "s' = (case r of Inl e \<Rightarrow> s1\<lparr>consents := consents s, mem_ops := mem_ops s\<rparr> | Inr a \<Rightarrow> s1)"
  using assms by (auto simp: with_session_def split: prod.splits sum.splits)

lemma handle_store:
  assumes "handle env lib cfg wallet (Store_Memory p) s = (s', r)" and "memory_ok lib s"
  shows "(\<exists>e. r = Inl e \<and> nothing_stored s s') \<or>
    (\<exists>x j now. checked_summary env lib wallet p s = (s, Inr x) \<and> r = Inr j \<and>
       one_stored wallet (complete_payload wallet now p) s s')"
proof -
  from assms(1) have "with_session (store_memory env lib cfg wallet p) s = (s', r)" by (simp add: handle_def)
  then obtain s1 where s1: "store_memory env lib cfg wallet p s = (s1, r)"
    "s' = (case r of Inl e \<Rightarrow> s1\<lparr>consents := consents s, mem_ops := mem_ops s\<rparr> | Inr a \<Rightarrow> s1)"
    by (rule session_result)
  show ?thesis using store_memory_result [OF assms(2) s1(1)] s1(2) by (auto simp: nothing_stored_def)
qed

section \<open>Searching\<close>

text \<open>
  What the vector store promises of a search: points among those that pass the filter, no more than
  asked for, none below the threshold.
\<close>

definition honest :: "memory_tools \<Rightarrow> bool" where
  "honest lib \<longleftrightarrow>
     (\<forall>n q vs k t. int (length (nearest lib n q vs k t)) \<le> max 0 k \<and>
        (\<forall>x\<in>set (nearest lib n q vs k t). fst x \<in> fst ` set vs \<and> t \<le> snd x))"

definition own_hit :: "string \<Rightarrow> rat \<Rightarrow> (string, mem_point) table \<Rightarrow> json \<Rightarrow> bool" where
  "own_hit wallet threshold t h \<longleftrightarrow>
     (\<exists>i score p. h = JObj [(''id'', JStr i), (''score'', JFloat score), (''payload'', JObj (mp_payload p))] \<and>
        threshold \<le> score \<and> (i, p) \<in> set t \<and> match_any [JStr wallet] (owner p))"

lemma search_filter_built:
  assumes "wallet \<noteq> []" and "build_filter (search_filter wallet ts) = Inr f"
  shows "\<exists>cs. f = Some ((''user_id'', [JStr wallet]) # cs)"
proof -
  have one: "match_values [JStr wallet] = Inr [JStr wallet]" by (simp add: match_values_def)
  show ?thesis using assms by (auto simp: build_filter_def search_filter_def one then_sum_Inr split: option.splits if_splits)
qed

lemma hits_own:
  assumes "honest lib" and "h \<in> set (hits_of lib n q k thr (candidates (Some ((''user_id'', [JStr wallet]) # cs)) t))"
  shows "own_hit wallet thr t h"
proof -
  let ?c = "candidates (Some ((''user_id'', [JStr wallet]) # cs)) t"
  obtain i score where x: "(i, score) \<in> set (nearest lib n q (map (\<lambda>(i, p). (i, mp_vector p)) ?c) k thr)" "h = hit ?c (i, score)"
    using assms(2) by (auto simp: hits_of_def)
  then have "i \<in> fst ` set ?c" and le: "thr \<le> score" using assms(1) unfolding honest_def by force+
  then obtain p where p: "row_of ?c i = Some p"
    by (cases "row_of ?c i") (auto simp: row_of_def map_of_eq_None_iff)
  then have "(i, p) \<in> set ?c" by (rule row_of_in)
  then have "(i, p) \<in> set t" "match_any [JStr wallet] (owner p)"
    by (auto simp: candidates_def rows_where_def passes_def owner_def)
  then show ?thesis using le x(2) p by (auto simp: own_hit_def hit_def)
qed

lemma vector_search_own:
  assumes "honest lib" and "wallet \<noteq> []" and "0 \<le> k"
    and "vector_search env lib q k thr (search_filter wallet ts) s = (s', Inr hs)"
  shows "int (length hs) \<le> k \<and> (\<forall>h\<in>set hs. own_hit wallet thr (mem_points s) h)"
proof -
  have u: "truthy (search_filter wallet ts)" "field ''user_id'' (search_filter wallet ts) = Inr (JStr wallet)"
    by (simp_all add: search_filter_def)
  from assms(4) obtain f where f: "build_filter (search_filter wallet ts) = Inr f"
    and run: "catch_all (bind (mem_qdrant env ''query'') (\<lambda>_.
                 gets (\<lambda>s. hits_of lib (looks s) q k thr (candidates f (mem_points s))))) (\<lambda>e. return []) s = (s', Inr hs)"
    using assms(2) by (auto simp: vector_search_def u bind_Inr io_simps)
  obtain cs where cs: "f = Some ((''user_id'', [JStr wallet]) # cs)" using search_filter_built [OF assms(2) f] by blast
  obtain r where r: "mem_qdrant env ''query'' s = (s\<lparr>looks := looks s + 1\<rparr>, r)" using qdrant_result by blast
  then have "hs = [] \<or> (\<exists>n. hs = hits_of lib n q k thr (candidates f (mem_points s)))"
    using run by (cases r) (auto simp: catch_all_def try_except_def bind_def io_simps split: if_splits)
  then show ?thesis
  proof
    assume "\<exists>n. hs = hits_of lib n q k thr (candidates f (mem_points s))"
    then obtain n where hs: "hs = hits_of lib n q k thr (candidates f (mem_points s))" ..
    have "int (length hs) \<le> k" using assms(1,3) unfolding hs hits_of_def honest_def by (simp add: max_def split: if_splits)
    then show ?thesis using hits_own [OF assms(1)] hs cs by blast
  qed (simp add: assms(3))
qed

lemma audit_failure_Inr:
  assumes "audit_failure env cfg wallet operation t0 m s = (s', Inr a)"
  shows "m s = (s', Inr a)"
proof (cases "m s")
  case (Pair s1 r)
  then show ?thesis using assms
    by (cases r) (auto simp: audit_failure_def catch_all_def try_except_def bind_def io_simps log_memory_op_def split: if_splits)
qed

lemma search_memory_own:
  assumes "honest lib" and "wallet \<noteq> []"
    and "search_memory env lib cfg wallet q ts k thr s = (s', Inr r)"
  shows "\<exists>hs. r = JObj [(''results'', JArr hs)] \<and> int (length hs) \<le> k \<and> (\<forall>h\<in>set hs. own_hit wallet thr (mem_points s) h)"
proof (cases "q = []")
  case True
  then show ?thesis using assms(3) by (auto simp: search_memory_def io_simps split: if_splits)
next
  case False
  then have k: "0 \<le> k" and run:
    "bind (embed env cfg q) (\<lambda>vector.
        bind (monotonic env) (\<lambda>t0.
          audit_failure env cfg wallet ''search'' t0
            (bind (vector_search env lib vector k thr (search_filter wallet ts)) (\<lambda>results.
             bind (monotonic env) (\<lambda>t1.
             bind (log_memory_op env ((op_row cfg wallet ''search'' ((t1 - t0) div 1000) True)
                     \<lparr>mo_vectors := int (length results),
                      mo_metadata := Some (JObj [(''query_length'', JInt (int (char_count q))),
                        (''top_k'', JInt k), (''results_returned'', JInt (int (length results)))])\<rparr>)) (\<lambda>_.
               return (JObj [(''results'', JArr results)]))))))) s = (s', Inr r)"
    using assms(3) by (auto simp: search_memory_def io_simps split: if_splits)
  obtain n rv where e: "embed env cfg q s = (s\<lparr>looks := n\<rparr>, rv)" using embed_result by blast
  from run obtain vector s2 hs where "vector_search env lib vector k thr (search_filter wallet ts) (s\<lparr>looks := Suc n\<rparr>) = (s2, Inr hs)"
      and r: "r = JObj [(''results'', JArr hs)]"
    unfolding bind_Inr e by (auto simp: monotonic_def bind_Inr io_simps dest!: audit_failure_Inr)
  then show ?thesis using vector_search_own [OF assms(1,2) k] by fastforce
qed

section \<open>Theorems\<close>

text \<open>C23: whatever requests the other wallets make, in any number and order, every memory that names a
  user as its owner stays in the store as it is, and the user's consent stays as it is.\<close>

theorem others_cannot_touch_memories:
  fixes s :: "'z memory_state_scheme"
  assumes "inj (new_uuid lib)" and "memory_ok lib s" and "\<forall>c\<in>set calls. mc_wallet c \<noteq> Some v"
  shows "(\<forall>i p. row_of (mem_points s) i = Some p \<and> owner p = JStr v \<longrightarrow>
            row_of (mem_points (serve_all env lib cfg calls s)) i = Some p) \<and>
     row_of (consents (serve_all env lib cfg calls s)) v = row_of (consents s) v"
  using serve_all_leaves [OF assms(1,3,2)] by (simp add: kept_def)

text \<open>C24: whatever requests come, every stored payload has a summary that is a text without a denied
  term, a type that is absent, meta or one of the five consent types (then with at least 30
  characters of summary), an owner and a timestamp.\<close>

theorem stored_payloads_well_formed:
  fixes s :: "'z memory_state_scheme"
  assumes "inj (new_uuid lib)" and "mem_points s = []"
    and "row_of (mem_points (serve_all env lib cfg calls s)) i = Some p"
  shows "payload_ok lib (mp_payload p)"
proof -
  have "finite (Some -` (mc_wallet ` set calls))" by (intro finite_vimageI) auto
  then obtain v where "v \<notin> Some -` (mc_wallet ` set calls)" using ex_new_if_finite infinite_UNIV_listI by blast
  then have "\<forall>c\<in>set calls. mc_wallet c \<noteq> Some v" by force
  moreover have "memory_ok lib s" using assms(2) by (simp add: memory_ok_def)
  ultimately have "memory_ok lib (serve_all env lib cfg calls s)" using serve_all_leaves [OF assms(1)] by blast
  then show ?thesis using assms(3) by (simp add: memory_ok_def)
qed

text \<open>A search answers points of the store that the asking wallet owns, no more than it asked for
  and none below its threshold.\<close>

theorem search_returns_own:
  assumes "honest lib" and "wallet \<noteq> []"
    and "handle env lib cfg wallet (Search_Memory q ts k thr) s = (s', Inr r)"
  shows "\<exists>hs. r = JObj [(''results'', JArr hs)] \<and> int (length hs) \<le> k \<and>
     (\<forall>h\<in>set hs. own_hit wallet thr (mem_points s) h)"
proof -
  from assms(3) have "search_memory env lib cfg wallet q ts k thr s = (s', Inr r)"
    by (auto simp: handle_def elim!: session_result)
  then show ?thesis by (rule search_memory_own [OF assms(1,2)])
qed


text \<open>The owner of a memory is whom the payload names: a wallet that sends another's name in its
  payload puts the memory among that user's, whatever that user consented to.\<close>

theorem foreign_memory_planted:
  assumes "handle env lib cfg wallet (Store_Memory p) s = (s', Inr r)" and "memory_ok lib s"
    and "map_of p ''user_id'' = Some (JStr v)"
  shows "\<exists>i x. row_of (mem_points s) i = None \<and> row_of (mem_points s') i = Some x \<and> owner x = JStr v \<and>
     i \<in> set (ids_of v (mem_points s')) \<and> consents s' = consents s"
proof -
  obtain now where "one_stored wallet (complete_payload wallet now p) s s'"
    using handle_store [OF assms(1,2)] by auto
  then obtain i x where x: "row_of (mem_points s) i = None" "consents s' = consents s"
      "mem_points s' = put_row i \<lparr>mp_payload = complete_payload wallet now p, mp_vector = x\<rparr> (mem_points s)"
    unfolding one_stored_def by blast
  let ?x = "\<lparr>mp_payload = complete_payload wallet now p, mp_vector = x\<rparr>"
  have owner: "owner ?x = JStr v"
    using assms(3) by (simp add: owner_def entry_def complete_payload_def set_default_def map_add_def)
  have row: "row_of (mem_points s') i = Some ?x" using x(3) by simp
  then have "i \<in> set (ids_of v (mem_points s'))"
    using owner row_of_in [OF row]
    by (force simp: ids_of_def candidates_def rows_where_def passes_def match_any_def owner_def)
  then show ?thesis using x(1,2) row owner by blast
qed

text \<open>When the vector store does not answer, a request to delete all memories is answered with ok
  and recorded as a success, and every memory is still there.\<close>

theorem failed_wipe_reports_success:
  assumes "http env (looks s + 1) ''QDRANT'' ''scroll'' JNull = Transport_Error cls msg"
  shows "\<exists>s' q. handle env lib cfg wallet (Delete_All None) s =
       (s', Inr (JObj [(''ok'', JBool True), (''deleted'', JInt 0)])) \<and>
     mem_points s' = mem_points s \<and> mem_ops s' = mem_ops s @ [q] \<and> mo_operation q = ''delete_all'' \<and> mo_success q"
  using assms
  by (simp add: handle_def with_session_def delete_all_memories_def missing_header_def or_text_opt_def bind_def timed_def
      delete_by_wallet_def catch_all_def try_except_def mem_qdrant_def raise_for_status_def io_simps log_memory_op_def op_row_def)

section \<open>Witnesses\<close>

definition memory_env :: "bool \<Rightarrow> outside" where
  "memory_env up =
     \<lparr>http = (\<lambda>n verb url body.
        if verb = ''POST'' then Reply 200 (Some (JObj [(''data'', JArr [JObj [(''embedding'', JArr [])]])]))
        else if up then Reply 200 None else Transport_Error ''ConnectError'' ''down''),
      mono = (\<lambda>n. int n), utc = (\<lambda>n. 0), repr_of = (\<lambda>j. []), raw_text = (\<lambda>b. []), env_var = (\<lambda>v. None),
      auth_cookie = (\<lambda>n. None), error_text = (\<lambda>r. []), chat_answer = (\<lambda>n c m. Sent_To_Chat)\<rparr>"

definition memory_lib :: memory_tools where
  "memory_lib =
     \<lparr>nfkc = (\<lambda>s. s), new_uuid = (\<lambda>n. replicate n CHR ''x''),
      nearest = (\<lambda>n q vs k t. take (nat k) (filter (\<lambda>x. t \<le> snd x) (map (\<lambda>x. (fst x, 1)) vs)))\<rparr>"

definition memory_cfg :: memory_settings where
  "memory_cfg = default_memory_settings\<lparr>ms_openai_key := ''key'', ms_internal_key := ''k''\<rparr>"

definition no_memories :: memory_state where
  "no_memories = \<lparr>looks = 0, slept = 0, on_fallback = False, primary_stale = False, lag_checked_at = 0,
     mem_points = [], consents = [], mem_ops = []\<rparr>"

definition victims_payload :: payload where
  "victims_payload = [(''summary'', JStr ''hello''), (''user_id'', JStr ''victim''), (''timestamp'', JStr ''t'')]"

definition victims_point :: mem_point where
  "victims_point = \<lparr>mp_payload = victims_payload, mp_vector = JArr []\<rparr>"

lemma memory_lib_inj: "inj (new_uuid memory_lib)"
  by (rule injI) (metis (no_types, lifting) memory_lib_def memory_tools.select_convs(2) length_replicate)

lemma memory_lib_honest: "honest memory_lib"
proof -
  have "fst ` set (take m (filter (\<lambda>x. t \<le> snd x) (map (\<lambda>x. (fst x, 1::rat)) vs))) \<subseteq> fst ` set vs" for m t and vs :: "(string \<times> json) list"
    by (auto dest!: in_set_takeD)
  then show ?thesis unfolding honest_def memory_lib_def
    by (auto dest!: in_set_takeD)
qed

lemma hello_allowed: "\<not> list_ex (contains (lower ''hello'')) DENYLIST" "char_count ''hello'' = 5" "strip ''hello'' = ''hello''"
  by code_simp+

lemma no_memories_ok: "memory_ok lib no_memories"
  by (simp add: memory_ok_def no_memories_def)

lemma victims_payload_ok: "payload_ok memory_lib victims_payload"
  using hello_allowed by (simp add: payload_ok_def victims_payload_def entry_or_def memory_lib_def)

lemma planted_run:
  "\<exists>s' r. handle (memory_env True) memory_lib memory_cfg ''attacker'' (Store_Memory victims_payload) no_memories = (s', Inr r)"
  using hello_allowed
  by (simp add: handle_def with_session_def store_memory_def memory_cfg_def checked_summary_def victims_payload_def
      entry_or_def get_consent_def no_memories_def is_type_allowed_def validate_payload_compliance_def memory_lib_def
      embed_def memory_env_def bind_def io_simps raise_for_status_def first_of_def store_audited_def audit_failure_def
      catch_all_def try_except_def vector_store_def draw_uuid_def mem_qdrant_def log_memory_op_def Let_def)

definition victims_state :: memory_state where
  "victims_state = no_memories\<lparr>mem_points := [(''p1'', victims_point)]\<rparr>"

lemma p1_not_drawn: "new_uuid memory_lib n \<noteq> ''p1''"
proof
  assume "new_uuid memory_lib n = ''p1''"
  then have "CHR ''p'' \<in> set (replicate n CHR ''x'')" by (simp add: memory_lib_def)
  then show False by simp
qed

lemma victims_state_ok: "memory_ok memory_lib victims_state"
  using victims_payload_ok p1_not_drawn
  by (auto simp: memory_ok_def victims_state_def no_memories_def victims_point_def keyed_def)

theorem others_cannot_touch_memories_witness:
  "row_of (mem_points (serve_all (memory_env True) memory_lib memory_cfg
      [\<lparr>mc_wallet = Some ''attacker'', mc_key = Some ''k'', mc_request = Delete_All None\<rparr>,
       \<lparr>mc_wallet = Some ''attacker'', mc_key = Some ''k'', mc_request = Delete_Memory ''p1''\<rparr>] victims_state)) ''p1'' =
     Some victims_point"
proof -
  let ?calls = "[\<lparr>mc_wallet = Some ''attacker'', mc_key = Some ''k'', mc_request = Delete_All None\<rparr>,
       \<lparr>mc_wallet = Some ''attacker'', mc_key = Some ''k'', mc_request = Delete_Memory ''p1''\<rparr>]"
  have "\<forall>c\<in>set ?calls. mc_wallet c \<noteq> Some ''victim''" by simp
  moreover have "row_of (mem_points victims_state) ''p1'' = Some victims_point" by (simp add: victims_state_def)
  moreover have "owner victims_point = JStr ''victim''"
    by (simp add: owner_def victims_point_def victims_payload_def entry_def)
  ultimately show ?thesis using others_cannot_touch_memories [OF memory_lib_inj victims_state_ok] by blast
qed

lemma planted_point:
  "\<exists>i p. row_of (mem_points (serve_all (memory_env True) memory_lib memory_cfg
      [\<lparr>mc_wallet = Some ''attacker'', mc_key = Some ''k'', mc_request = Store_Memory victims_payload\<rparr>] no_memories)) i = Some p"
proof -
  obtain s' r where run: "handle (memory_env True) memory_lib memory_cfg ''attacker'' (Store_Memory victims_payload) no_memories = (s', Inr r)"
    using planted_run by blast
  have "require_auth memory_cfg (Some ''attacker'') (Some ''k'') = Inr ''attacker''"
    by (simp add: require_auth_def missing_header_def or_text_opt_def compare_digest_def memory_cfg_def)
  then have "serve (memory_env True) memory_lib memory_cfg
      \<lparr>mc_wallet = Some ''attacker'', mc_key = Some ''k'', mc_request = Store_Memory victims_payload\<rparr> no_memories = (s', Inr r)"
    using run by (simp add: serve_def bind_def io_simps)
  moreover have "\<exists>i p. row_of (mem_points s') i = Some p"
    using handle_store [OF run no_memories_ok] by (auto simp: one_stored_def)
  ultimately show ?thesis by simp
qed

theorem stored_payloads_well_formed_witness:
  "\<exists>i p. row_of (mem_points (serve_all (memory_env True) memory_lib memory_cfg
      [\<lparr>mc_wallet = Some ''attacker'', mc_key = Some ''k'', mc_request = Store_Memory victims_payload\<rparr>] no_memories)) i = Some p \<and>
     payload_ok memory_lib (mp_payload p)"
proof -
  have "mem_points no_memories = []" by (simp add: no_memories_def)
  then show ?thesis using planted_point stored_payloads_well_formed [OF memory_lib_inj] by blast
qed

lemma search_run:
  "\<exists>s'. handle (memory_env True) memory_lib memory_cfg ''victim'' (Search_Memory ''hello'' None 5 (1 / 2)) victims_state =
     (s', Inr (JObj [(''results'', JArr [JObj [(''id'', JStr ''p1''), (''score'', JFloat 1), (''payload'', JObj victims_payload)]])]))"
  using hello_allowed
  by (simp add: handle_def with_session_def search_memory_def memory_cfg_def search_filter_def vector_search_def
      build_filter_def match_values_def candidates_def rows_where_def passes_def match_any_def entry_def hits_of_def hit_def
      embed_def memory_env_def bind_def io_simps raise_for_status_def first_of_def audit_failure_def
      catch_all_def try_except_def mem_qdrant_def log_memory_op_def Let_def memory_lib_def victims_state_def no_memories_def
      victims_point_def victims_payload_def)

theorem search_returns_own_witness:
  "\<exists>s' r. handle (memory_env True) memory_lib memory_cfg ''victim'' (Search_Memory ''hello'' None 5 (1 / 2)) victims_state = (s', Inr r) \<and>
     (\<exists>h. r = JObj [(''results'', JArr [h])] \<and> own_hit ''victim'' (1 / 2) (mem_points victims_state) h)"
proof -
  obtain s' where run: "handle (memory_env True) memory_lib memory_cfg ''victim'' (Search_Memory ''hello'' None 5 (1 / 2)) victims_state =
     (s', Inr (JObj [(''results'', JArr [JObj [(''id'', JStr ''p1''), (''score'', JFloat 1), (''payload'', JObj victims_payload)]])]))"
    using search_run by blast
  show ?thesis using search_returns_own [OF memory_lib_honest _ run] run by auto
qed


theorem foreign_memory_planted_witness:
  "\<exists>s' r i x. handle (memory_env True) memory_lib memory_cfg ''attacker'' (Store_Memory victims_payload) no_memories = (s', Inr r) \<and>
     row_of (mem_points s') i = Some x \<and> owner x = JStr ''victim'' \<and> row_of (consents s') ''victim'' = None"
proof -
  obtain s' r where run: "handle (memory_env True) memory_lib memory_cfg ''attacker'' (Store_Memory victims_payload) no_memories = (s', Inr r)"
    using planted_run by blast
  have "map_of victims_payload ''user_id'' = Some (JStr ''victim'')" by (simp add: victims_payload_def)
  moreover have "consents no_memories = []" by (simp add: no_memories_def)
  ultimately show ?thesis using foreign_memory_planted [OF run no_memories_ok] run by fastforce
qed

theorem failed_wipe_reports_success_witness:
  "\<exists>s'. handle (memory_env False) memory_lib memory_cfg ''victim'' (Delete_All None) victims_state =
       (s', Inr (JObj [(''ok'', JBool True), (''deleted'', JInt 0)])) \<and>
     row_of (mem_points s') ''p1'' = Some victims_point"
proof -
  have "http (memory_env False) (looks victims_state + 1) ''QDRANT'' ''scroll'' JNull = Transport_Error ''ConnectError'' ''down''"
    by (simp add: memory_env_def)
  moreover have "row_of (mem_points victims_state) ''p1'' = Some victims_point" by (simp add: victims_state_def)
  ultimately show ?thesis using failed_wipe_reports_success [of "memory_env False" victims_state _ _ memory_lib memory_cfg "''victim''"]
    by fastforce
qed

end
