(* ===== verification/Chat_Sessions.thy ===== *)
theory Chat_Sessions
  imports Uuid_Text Chat_Cache
begin

text \<open>
  Conversations of the chat service: the tables \<open>chat_sessions\<close>, \<open>chat_messages\<close> and
  \<open>chat_session_shares\<close>, and the statements of \<open>services/session.py\<close>, \<open>services/share.py\<close> and of
  the persistence part of \<open>services/message.py\<close>. UUIDs are the numbers they stand for; random ones
  and random tokens are parameters. A message is created at the start of its database transaction
  (\<open>now()\<close> of PostgreSQL), which may be long before it is committed: the argument \<open>started\<close>. Rows
  that the database may order either way keep the order of insertion. The token cap of a wallet's
  tier comes from a view of another schema and is a parameter too.
\<close>

section \<open>Tables\<close>

record chat_session =
  cs_user :: string
  cs_wallet :: string
  cs_account :: "int option"
  cs_title :: string
  cs_messages :: int
  cs_created_at :: usec
  cs_updated_at :: usec
  cs_deleted :: bool
  cs_deleted_at :: "usec option"
  cs_pinned :: bool
  cs_pinned_at :: "usec option"
  cs_last_message_at :: "usec option"
  cs_state :: json
  cs_tokens :: int
  cs_locked :: bool
  cs_locked_reason :: "string option"

record share_row =
  sh_session :: int
  sh_wallet :: string
  sh_token :: string
  sh_up_to :: usec
  sh_title :: string
  sh_views :: int
  sh_created_at :: usec
  sh_updated_at :: usec

record chat_message =
  cm_session :: int
  cm_wallet :: string
  cm_role :: string
  cm_content :: string
  cm_metadata :: "(string \<times> json) list"
  cm_created_at :: usec
  cm_updated_at :: usec

record chat_db = cache_state +
  sessions :: "(int, chat_session) table"
  shares :: "(int, share_row) table"
  messages :: "(int, chat_message) table"

record chat_random =
  random_uuid :: "nat \<Rightarrow> int"
  random_token :: "nat \<Rightarrow> string"
  tier_token_cap :: "string \<Rightarrow> int option"

definition draw_uuid4 :: "chat_random \<Rightarrow> ('z chat_db_scheme, int) io" where
  "draw_uuid4 lib s = (s\<lparr>looks := looks s + 1\<rparr>, Inr (random_uuid lib (looks s)))"

definition draw_token :: "chat_random \<Rightarrow> ('z chat_db_scheme, string) io" where
  "draw_token lib s = (s\<lparr>looks := looks s + 1\<rparr>, Inr (random_token lib (looks s)))"

section \<open>Who may see a session\<close>

definition coerce_account :: "string option \<Rightarrow> int option" where
  "coerce_account account =
     (case account of None \<Rightarrow> None | Some a \<Rightarrow> if a = [] then None else uuid_int a)"

definition coerce_session_id :: "string \<Rightarrow> int option" where
  "coerce_session_id session_id = uuid_int session_id"

definition owner_where :: "string \<Rightarrow> string option \<Rightarrow> chat_session \<Rightarrow> bool" where
  "owner_where wallet account s \<longleftrightarrow>
     (case coerce_account account of
        Some a \<Rightarrow> cs_account s = Some a \<or> cs_account s = None \<and> cs_wallet s = wallet
      | None \<Rightarrow> cs_wallet s = wallet)"

definition can_access :: "string \<Rightarrow> string option \<Rightarrow> int \<Rightarrow> int \<Rightarrow> chat_session \<Rightarrow> bool" where
  "can_access wallet account sid i s \<longleftrightarrow> i = sid \<and> owner_where wallet account s \<and> \<not> cs_deleted s"

definition opt_text :: "usec option \<Rightarrow> json" where
  "opt_text t = (case t of None \<Rightarrow> JNull | Some x \<Rightarrow> JStr (iso_text x))"

definition serialize :: "int \<times> chat_session \<Rightarrow> (string \<times> json) list" where
  "serialize x =
     (case x of (i, s) \<Rightarrow>
       [(''id'', JStr (uuid_text i)), (''wallet'', JStr (cs_wallet s)), (''title'', JStr (cs_title s)),
        (''pinned'', JBool (cs_pinned s)), (''createdAt'', JStr (iso_text (cs_created_at s))),
        (''updatedAt'', JStr (iso_text (cs_updated_at s))), (''lastMessageAt'', opt_text (cs_last_message_at s)),
        (''messageCount'', JInt (cs_messages s)), (''totalTokens'', JInt (cs_tokens s)),
        (''isLocked'', JBool (cs_locked s)),
        (''lockedReason'', case cs_locked_reason s of None \<Rightarrow> JNull | Some r \<Rightarrow> JStr r)])"

section \<open>Sessions\<close>

text \<open>A page of sessions, newest first: its rows, whether there are more, and the cursor of the next.\<close>

definition newest_first :: "(int \<times> chat_session) list \<Rightarrow> (int \<times> chat_session) list" where
  "newest_first rows = sort_key (\<lambda>x. - cs_updated_at (snd x)) rows"

definition page_of ::
  "string \<Rightarrow> string option \<Rightarrow> usec option \<Rightarrow> nat \<Rightarrow> (int, chat_session) table
    \<Rightarrow> (int \<times> chat_session) list \<times> bool \<times> string option" where
  "page_of wallet account before limit t =
     (let rows = take (limit + 1) (newest_first (rows_where (\<lambda>_ s. owner_where wallet account s \<and> \<not> cs_deleted s \<and>
            (case before of None \<Rightarrow> True | Some b \<Rightarrow> cs_updated_at s < b)) t));
          has_more = limit < length rows;
          page = take limit rows
      in (page, has_more,
          if has_more \<and> page \<noteq> [] then Some (iso_text (cs_updated_at (snd (last page)))) else None))"

definition read_cursor :: "string option \<Rightarrow> exn + usec option" where
  "read_cursor cursor =
     (if or_text_opt cursor [] = [] then Inr None
      else case read_iso (the cursor) of None \<Rightarrow> Inl ValueError | Some t \<Rightarrow> Inr (Some t))"

definition list_sessions ::
  "string \<Rightarrow> nat \<Rightarrow> string option \<Rightarrow> string option
    \<Rightarrow> ('z chat_db_scheme, (int \<times> chat_session) list \<times> bool \<times> string option) io" where
  "list_sessions wallet limit cursor account =
     bind (from_sum (read_cursor cursor)) (\<lambda>before. gets (\<lambda>s. page_of wallet account before limit (sessions s)))"

definition new_session :: "string \<Rightarrow> string \<Rightarrow> string option \<Rightarrow> string option \<Rightarrow> usec \<Rightarrow> chat_session" where
  "new_session wallet user_id title account now =
     \<lparr>cs_user = user_id, cs_wallet = wallet, cs_account = coerce_account account,
      cs_title = or_text_opt title ''New chat'', cs_messages = 0, cs_created_at = now, cs_updated_at = now,
      cs_deleted = False, cs_deleted_at = None, cs_pinned = False, cs_pinned_at = None, cs_last_message_at = None,
      cs_state = JObj [], cs_tokens = 0, cs_locked = False, cs_locked_reason = None\<rparr>"

definition create_session ::
  "outside \<Rightarrow> chat_random \<Rightarrow> string \<Rightarrow> string \<Rightarrow> string option \<Rightarrow> string option \<Rightarrow> ('z chat_db_scheme, int \<times> chat_session) io" where
  "create_session env lib wallet user_id title account =
     bind (draw_uuid4 lib) (\<lambda>i.
     bind (gets (\<lambda>s. new_session wallet user_id title account (utc_now env s))) (\<lambda>r.
     bind (modify (\<lambda>s. s\<lparr>sessions := put_row i r (sessions s)\<rparr>)) (\<lambda>_. return (i, r))))"

definition find_session ::
  "string \<Rightarrow> string option \<Rightarrow> string \<Rightarrow> (int, chat_session) table \<Rightarrow> (int \<times> chat_session) option" where
  "find_session wallet account session_id t =
     (case coerce_session_id session_id of
        None \<Rightarrow> None
      | Some sid \<Rightarrow> (case row_of t sid of
            None \<Rightarrow> None
          | Some s \<Rightarrow> if can_access wallet account sid sid s then Some (sid, s) else None))"

definition get_chat_session ::
  "string \<Rightarrow> string \<Rightarrow> string option \<Rightarrow> ('z chat_db_scheme, (int \<times> chat_session) option) io" where
  "get_chat_session wallet session_id account = gets (\<lambda>s. find_session wallet account session_id (sessions s))"

text \<open>
  An \<open>UPDATE\<close> of the session under that identifier, if it may be accessed, and whether a row was
  affected; \<open>updated_at\<close> is refreshed by every update.
\<close>

definition update_session ::
  "outside \<Rightarrow> string \<Rightarrow> string \<Rightarrow> string option \<Rightarrow> (usec \<Rightarrow> chat_session \<Rightarrow> chat_session) \<Rightarrow> ('z chat_db_scheme, bool) io" where
  "update_session env wallet session_id account f =
     (case coerce_session_id session_id of
        None \<Rightarrow> return False
      | Some sid \<Rightarrow>
          bind (gets (\<lambda>s. rows_where (can_access wallet account sid) (sessions s))) (\<lambda>hits.
          bind (modify (\<lambda>s. s\<lparr>sessions :=
                  update_where (can_access wallet account sid) (\<lambda>r. (f (utc_now env s) r)\<lparr>cs_updated_at := utc_now env s\<rparr>)
                    (sessions s)\<rparr>)) (\<lambda>_.
            return (hits \<noteq> []))))"

definition update_title ::
  "outside \<Rightarrow> string \<Rightarrow> string \<Rightarrow> string \<Rightarrow> string option \<Rightarrow> ('z chat_db_scheme, bool) io" where
  "update_title env wallet session_id title account =
     update_session env wallet session_id account (\<lambda>now r. r\<lparr>cs_title := title\<rparr>)"

definition set_pinned ::
  "outside \<Rightarrow> string \<Rightarrow> string \<Rightarrow> bool \<Rightarrow> string option \<Rightarrow> ('z chat_db_scheme, bool) io" where
  "set_pinned env wallet session_id pinned account =
     update_session env wallet session_id account
       (\<lambda>now r. r\<lparr>cs_pinned := pinned, cs_pinned_at := (if pinned then Some now else None)\<rparr>)"

definition delete_session ::
  "outside \<Rightarrow> string \<Rightarrow> string \<Rightarrow> string option \<Rightarrow> ('z chat_db_scheme, bool) io" where
  "delete_session env wallet session_id account =
     update_session env wallet session_id account (\<lambda>now r. r\<lparr>cs_deleted := True, cs_deleted_at := Some now\<rparr>)"

definition delete_all_sessions :: "outside \<Rightarrow> string \<Rightarrow> string option \<Rightarrow> ('z chat_db_scheme, nat) io" where
  "delete_all_sessions env wallet account =
     (let mine = (\<lambda>(_::int) r. owner_where wallet account r \<and> \<not> cs_deleted r) in
     bind (gets (\<lambda>s. length (rows_where mine (sessions s)))) (\<lambda>n.
     bind (modify (\<lambda>s. s\<lparr>sessions := update_where mine
             (\<lambda>r. r\<lparr>cs_deleted := True, cs_deleted_at := Some (utc_now env s), cs_updated_at := utc_now env s\<rparr>)
             (sessions s)\<rparr>)) (\<lambda>_. return n)))"

section \<open>Messages\<close>

definition meta_get :: "chat_message \<Rightarrow> string \<Rightarrow> json" where
  "meta_get m k = (case map_of (cm_metadata m) k of None \<Rightarrow> JNull | Some v \<Rightarrow> v)"

definition superseded :: "chat_message \<Rightarrow> bool" where
  "superseded m \<longleftrightarrow> truthy (meta_get m ''superseded_at'')"

definition oldest_first :: "(int \<times> chat_message) list \<Rightarrow> (int \<times> chat_message) list" where
  "oldest_first rows = sort_key (\<lambda>x. cm_created_at (snd x)) rows"

definition uuid_or_raise :: "string \<Rightarrow> exn + int" where
  "uuid_or_raise t = or_raise ValueError (uuid_int t)"

definition get_messages ::
  "string \<Rightarrow> nat option \<Rightarrow> nat option \<Rightarrow> ('z chat_db_scheme, (int \<times> chat_message) list) io" where
  "get_messages session_id limit offset =
     bind (from_sum (uuid_or_raise session_id)) (\<lambda>sid.
       gets (\<lambda>s.
         let rows = oldest_first (rows_where (\<lambda>_ m. cm_session m = sid) (messages s));
             from = (case offset of None \<Rightarrow> rows | Some n \<Rightarrow> drop n rows);
             page = (case limit of None \<Rightarrow> from | Some n \<Rightarrow> if n = 0 then from else take n from)
         in filter (\<lambda>(_, m). \<not> superseded m) page))"

text \<open>The trigger on a new message: \<open>last_message_at\<close> only moves forward.\<close>

definition note_message :: "usec \<Rightarrow> chat_session \<Rightarrow> chat_session" where
  "note_message at_time r =
     (case cs_last_message_at r of
        None \<Rightarrow> r\<lparr>cs_last_message_at := Some at_time\<rparr>
      | Some t \<Rightarrow> if t < at_time then r\<lparr>cs_last_message_at := Some at_time\<rparr> else r)"

definition insert_message ::
  "chat_random \<Rightarrow> int \<Rightarrow> string \<Rightarrow> string \<Rightarrow> string \<Rightarrow> (string \<times> json) list \<Rightarrow> usec \<Rightarrow> ('z chat_db_scheme, int) io" where
  "insert_message lib sid wallet role content metadata started =
     bind (draw_uuid4 lib) (\<lambda>i.
     bind (modify (\<lambda>s. s\<lparr>
         messages := put_row i \<lparr>cm_session = sid, cm_wallet = wallet, cm_role = role, cm_content = content,
             cm_metadata = metadata, cm_created_at = started, cm_updated_at = started\<rparr> (messages s),
         sessions := update_where (\<lambda>j _. j = sid) (note_message started) (sessions s)\<rparr>)) (\<lambda>_.
       return i))"

definition create_message ::
  "chat_random \<Rightarrow> string \<Rightarrow> string \<Rightarrow> string \<Rightarrow> string \<Rightarrow> (string \<times> json) list \<Rightarrow> usec \<Rightarrow> ('z chat_db_scheme, int) io" where
  "create_message lib session_id wallet role content metadata started =
     bind (from_sum (uuid_or_raise session_id)) (\<lambda>sid.
     bind (insert_message lib sid wallet role content metadata started) (\<lambda>i.
     bind (modify (\<lambda>s. s\<lparr>sessions := update_where (\<lambda>j _. j = sid) (\<lambda>r. r\<lparr>cs_updated_at := started\<rparr>) (sessions s)\<rparr>)) (\<lambda>_.
       return i)))"

definition increment_message_count :: "outside \<Rightarrow> string \<Rightarrow> ('z chat_db_scheme, int) io" where
  "increment_message_count env session_id =
     bind (from_sum (uuid_or_raise session_id)) (\<lambda>sid.
     bind (modify (\<lambda>s. s\<lparr>sessions := update_where (\<lambda>j _. j = sid)
             (\<lambda>r. r\<lparr>cs_messages := cs_messages r + 1, cs_updated_at := utc_now env s\<rparr>) (sessions s)\<rparr>)) (\<lambda>_.
       gets (\<lambda>s. case row_of (sessions s) sid of None \<Rightarrow> 0 | Some r \<Rightarrow> cs_messages r)))"

text \<open>\<open>{**old, **new}\<close>, and the merge of a patch into the metadata: objects are merged, the rest is replaced.\<close>

definition merge_objects :: "(string \<times> json) list \<Rightarrow> (string \<times> json) list \<Rightarrow> (string \<times> json) list" where
  "merge_objects old new = fold (\<lambda>(k, v) kvs. put_row k v kvs) new old"

definition merge_value :: "json option \<Rightarrow> json \<Rightarrow> json" where
  "merge_value old new =
     (case (old, new) of (Some (JObj a), JObj b) \<Rightarrow> JObj (merge_objects a b) | _ \<Rightarrow> new)"

definition merge_metadata :: "(string \<times> json) list \<Rightarrow> (string \<times> json) list \<Rightarrow> (string \<times> json) list" where
  "merge_metadata old patch = fold (\<lambda>(k, v) kvs. put_row k (merge_value (row_of kvs k) v) kvs) patch old"

definition update_message_metadata ::
  "outside \<Rightarrow> string \<Rightarrow> string \<Rightarrow> (string \<times> json) list \<Rightarrow> ('z chat_db_scheme, bool) io" where
  "update_message_metadata env session_id message_id patch =
     (case (uuid_int message_id, uuid_int session_id) of
        (Some mid, Some sid) \<Rightarrow>
          bind (gets (\<lambda>s. row_of (messages s) mid)) (\<lambda>r.
            case r of
              None \<Rightarrow> return False
            | Some m \<Rightarrow>
                if cm_session m \<noteq> sid then return False
                else
                  bind (modify (\<lambda>s. s\<lparr>messages := put_row mid
                          (m\<lparr>cm_metadata := merge_metadata (cm_metadata m) patch, cm_updated_at := utc_now env s\<rparr>)
                          (messages s)\<rparr>)) (\<lambda>_. return True))
      | _ \<Rightarrow> return False)"

text \<open>An edit marks the message and all that follow it in the session.\<close>

definition supersede_tail :: "outside \<Rightarrow> int \<Rightarrow> int \<Rightarrow> usec \<Rightarrow> string \<Rightarrow> ('z chat_db_scheme, unit) io" where
  "supersede_tail env sid target from stamp =
     modify (\<lambda>s. s\<lparr>messages := update_where
        (\<lambda>_ m. cm_session m = sid \<and> from \<le> cm_created_at m \<and> \<not> superseded m)
        (\<lambda>m. m\<lparr>cm_metadata := put_row ''superseded_by_edit_of'' (JStr (uuid_text target))
                 (put_row ''superseded_at'' (JStr stamp) (cm_metadata m)),
               cm_updated_at := utc_now env s\<rparr>) (messages s)\<rparr>)"

section \<open>Shares\<close>

definition PUBLIC_METADATA_KEYS :: "string list" where
  "PUBLIC_METADATA_KEYS =
     [''action_results'', ''query_snapshots'', ''actions'', ''queries'', ''clarifications'', ''protocols'', ''edited_at'']"

definition share_json :: "share_row \<Rightarrow> json" where
  "share_json h =
     JObj [(''token'', JStr (sh_token h)), (''sessionId'', JStr (uuid_text (sh_session h))), (''title'', JStr (sh_title h)),
           (''sharedUpTo'', JStr (iso_text (sh_up_to h))), (''viewCount'', JInt (sh_views h)),
           (''createdAt'', JStr (iso_text (sh_created_at h))), (''updatedAt'', JStr (iso_text (sh_updated_at h)))]"

definition share_of :: "int \<Rightarrow> (int, share_row) table \<Rightarrow> (int \<times> share_row) option" where
  "share_of sid t = (case rows_where (\<lambda>_ h. sh_session h = sid) t of [] \<Rightarrow> None | x # _ \<Rightarrow> Some x)"

definition get_share ::
  "string \<Rightarrow> string \<Rightarrow> string option \<Rightarrow> ('z chat_db_scheme, share_row option) io" where
  "get_share wallet session_id account =
     gets (\<lambda>s. case find_session wallet account session_id (sessions s) of
         None \<Rightarrow> None
       | Some (sid, _) \<Rightarrow> map_option snd (share_of sid (shares s)))"

definition refreshed :: "usec \<Rightarrow> chat_session \<Rightarrow> share_row \<Rightarrow> share_row" where
  "refreshed now r h = h\<lparr>sh_up_to := now, sh_title := or_text (cs_title r) (sh_title h), sh_updated_at := now\<rparr>"

definition new_share :: "string \<Rightarrow> int \<Rightarrow> chat_session \<Rightarrow> string \<Rightarrow> usec \<Rightarrow> share_row" where
  "new_share wallet sid r token now =
     \<lparr>sh_session = sid, sh_wallet = wallet, sh_token = token, sh_up_to = now,
      sh_title = or_text (cs_title r) ''Shared chat'', sh_views = 0, sh_created_at = now, sh_updated_at = now\<rparr>"

definition create_or_refresh ::
  "outside \<Rightarrow> chat_random \<Rightarrow> string \<Rightarrow> string \<Rightarrow> string option \<Rightarrow> ('z chat_db_scheme, share_row option) io" where
  "create_or_refresh env lib wallet session_id account =
     bind (get_chat_session wallet session_id account) (\<lambda>found.
       case found of
         None \<Rightarrow> return None
       | Some (sid, r) \<Rightarrow>
           bind (gets (\<lambda>s. (utc_now env s, share_of sid (shares s)))) (\<lambda>(now, old).
             case old of
               Some (i, h) \<Rightarrow>
                 bind (modify (\<lambda>s. s\<lparr>shares := put_row i (refreshed now r h) (shares s)\<rparr>)) (\<lambda>_.
                   return (Some (refreshed now r h)))
             | None \<Rightarrow>
                 bind (draw_uuid4 lib) (\<lambda>i.
                 bind (draw_token lib) (\<lambda>token.
                 bind (modify (\<lambda>s. s\<lparr>shares := put_row i (new_share wallet sid r token now) (shares s)\<rparr>)) (\<lambda>_.
                   return (Some (new_share wallet sid r token now)))))))"

definition revoke :: "string \<Rightarrow> string \<Rightarrow> string option \<Rightarrow> ('z chat_db_scheme, bool) io" where
  "revoke wallet session_id account =
     bind (get_chat_session wallet session_id account) (\<lambda>found.
       case found of
         None \<Rightarrow> return False
       | Some (sid, _) \<Rightarrow>
           bind (gets (\<lambda>s. rows_where (\<lambda>_ h. sh_session h = sid) (shares s))) (\<lambda>hits.
           bind (modify (\<lambda>s. s\<lparr>shares := rows_where (\<lambda>_ h. sh_session h \<noteq> sid) (shares s)\<rparr>)) (\<lambda>_.
             return (hits \<noteq> []))))"

definition list_shares :: "string \<Rightarrow> string option \<Rightarrow> ('z chat_db_scheme, (int \<times> share_row) list) io" where
  "list_shares wallet account =
     gets (\<lambda>s. sort_key (\<lambda>x. - sh_created_at (snd x))
       (rows_where (\<lambda>_ h. \<exists>x\<in>set (sessions s). fst x = sh_session h \<and> owner_where wallet account (snd x)) (shares s)))"

text \<open>What a link publishes: the messages of its session up to the cutoff that no edit superseded.\<close>

definition share_by_token :: "string \<Rightarrow> (int, share_row) table \<Rightarrow> (int \<times> share_row) option" where
  "share_by_token token t = (case rows_where (\<lambda>_ h. sh_token h = token) t of [] \<Rightarrow> None | x # _ \<Rightarrow> Some x)"

definition published :: "share_row \<Rightarrow> (int, chat_message) table \<Rightarrow> (int \<times> chat_message) list" where
  "published h t =
     filter (\<lambda>(_, m). \<not> superseded m)
       (oldest_first (rows_where (\<lambda>_ m. cm_session m = sh_session h \<and> cm_created_at m \<le> sh_up_to h) t))"

definition public_message :: "int \<times> chat_message \<Rightarrow> json" where
  "public_message x =
     (case x of (i, m) \<Rightarrow>
        JObj [(''id'', JStr (uuid_text i)), (''speaker'', JStr (cm_role m)), (''content'', JStr (cm_content m)),
              (''timestamp'', JStr (iso_text (cm_created_at m))),
              (''metadata'', JObj (filter (\<lambda>(k, _). k \<in> set PUBLIC_METADATA_KEYS) (cm_metadata m)))])"

definition resolve_public :: "outside \<Rightarrow> string \<Rightarrow> ('z chat_db_scheme, json option) io" where
  "resolve_public env token =
     (if token = [] \<or> 64 < char_count token then return None
      else
        bind (gets (\<lambda>s. (share_by_token token (shares s), s))) (\<lambda>(found, s0).
          case found of
            None \<Rightarrow> return None
          | Some (i, h) \<Rightarrow>
              bind (modify (\<lambda>s. s\<lparr>shares := put_row i (h\<lparr>sh_views := sh_views h + 1, sh_updated_at := utc_now env s\<rparr>) (shares s)\<rparr>)) (\<lambda>_.
                return (Some (JObj
                  [(''share'', JObj [(''title'', JStr (sh_title h)), (''sharedAt'', JStr (iso_text (sh_up_to h)))]),
                   (''messages'', JArr (map public_message (published h (messages s0))))])))))"

end
