(* ===== verification/Chat_Api.thy ===== *)
theory Chat_Api
  imports Chat_Sessions
begin

text \<open>
  The session, share and message routes of the chat service's \<open>main.py\<close>, each in its database
  transaction. Audit events are left out.
\<close>

section \<open>Requests and their transactions\<close>

definition strip_header :: "string option \<Rightarrow> string" where
  "strip_header h = strip (or_text_opt h [])"

definition digest_equal :: "string \<Rightarrow> string \<Rightarrow> exn + bool" where
  "digest_equal a b = (if list_ex (\<lambda>c. 128 \<le> code c) (a @ b) then Inl TypeError else Inr (a = b))"

definition require_internal :: "string \<Rightarrow> string option \<Rightarrow> exn + unit" where
  "require_internal internal_key key =
     then_sum (if or_text_opt key [] = [] then Inr False else digest_equal (the key) internal_key) (\<lambda>ok.
       if ok then Inr () else Inl (HttpException 403 ''Forbidden: internal access only''))"

definition require_wallet :: "string \<Rightarrow> string option \<Rightarrow> string option \<Rightarrow> exn + string" where
  "require_wallet internal_key wallet key =
     (if strip_header wallet = [] then Inl (HttpException 401 ''Unauthorized: missing wallet header'')
      else
        then_sum (if or_text_opt key [] = [] then Inr False else digest_equal (the key) internal_key) (\<lambda>ok.
          if ok then Inr (strip_header wallet)
          else Inl (HttpException 403 ''Forbidden: invalid internal API key'')))"

definition in_transaction :: "('z chat_db_scheme, 'a) io \<Rightarrow> ('z chat_db_scheme, 'a) io" where
  "in_transaction m s =
     (case m s of
        (s', Inl e) \<Rightarrow> (s'\<lparr>sessions := sessions s, shares := shares s, messages := messages s\<rparr>, Inl e)
      | (s', Inr a) \<Rightarrow> (s', Inr a))"

definition or_not_found :: "string \<Rightarrow> 'a option \<Rightarrow> ('s, 'a) io" where
  "or_not_found detail x = (case x of None \<Rightarrow> throw (HttpException 404 detail) | Some a \<Rightarrow> return a)"

definition ok_json :: json where "ok_json = JObj [(''ok'', JBool True)]"

definition ok_or_not_found :: "string \<Rightarrow> bool \<Rightarrow> ('s, json) io" where
  "ok_or_not_found detail ok = (if ok then return ok_json else throw (HttpException 404 detail))"

section \<open>Session routes\<close>

definition pick_keys :: "string list \<Rightarrow> (string \<times> json) list \<Rightarrow> (string \<times> json) list" where
  "pick_keys ks kvs = filter (\<lambda>(k, _). k \<in> set ks) kvs"

definition list_sessions_route ::
  "string \<Rightarrow> int \<Rightarrow> string option \<Rightarrow> string option \<Rightarrow> ('z chat_db_scheme, json) io" where
  "list_sessions_route wallet limit cursor account =
     (if \<not> (1 \<le> limit \<and> limit \<le> 50) then throw (HttpException 422 ''Validation error'')
      else
        bind (list_sessions wallet (nat limit) cursor account) (\<lambda>(page, has_more, next).
          return (JObj
            [(''sessions'', JArr (map (\<lambda>x. JObj (pick_keys
                [''id'', ''title'', ''pinned'', ''createdAt'', ''updatedAt'', ''lastMessageAt''] (serialize x))) page)),
             (''hasMore'', JBool has_more),
             (''nextCursor'', case next of None \<Rightarrow> JNull | Some c \<Rightarrow> JStr c)])))"

definition create_session_route ::
  "outside \<Rightarrow> chat_random \<Rightarrow> string \<Rightarrow> string option \<Rightarrow> string \<Rightarrow> ('z chat_db_scheme, json) io" where
  "create_session_route env lib wallet account title =
     (if 200 < char_count title then throw (HttpException 422 ''Validation error'')
      else
        bind (create_session env lib wallet wallet (Some (or_text (strip title) ''New chat'')) account) (\<lambda>x.
          return (JObj [(''session'', JObj (pick_keys [''id'', ''title'', ''createdAt'', ''updatedAt''] (serialize x)))])))"

definition get_session_route :: "string \<Rightarrow> string option \<Rightarrow> string \<Rightarrow> ('z chat_db_scheme, json) io" where
  "get_session_route wallet account session_id =
     bind (get_chat_session wallet session_id account) (\<lambda>found.
     bind (or_not_found ''Not found'' found) (\<lambda>x. return (JObj [(''session'', JObj (serialize x))])))"

definition update_session_route ::
  "outside \<Rightarrow> string \<Rightarrow> string option \<Rightarrow> string \<Rightarrow> string \<Rightarrow> ('z chat_db_scheme, json) io" where
  "update_session_route env wallet account session_id title =
     (if title = [] \<or> 200 < char_count title then throw (HttpException 422 ''Validation error'')
      else
        bind (update_title env wallet session_id (strip title) account) (\<lambda>updated.
          if \<not> updated then throw (HttpException 404 ''Session not found'')
          else
            bind (get_chat_session wallet session_id account) (\<lambda>found.
              return (JObj [(''session'', case found of None \<Rightarrow> JNull | Some x \<Rightarrow> JObj (serialize x))]))))"

definition pin_session_route ::
  "outside \<Rightarrow> string \<Rightarrow> string option \<Rightarrow> string \<Rightarrow> bool \<Rightarrow> ('z chat_db_scheme, json) io" where
  "pin_session_route env wallet account session_id pinned =
     bind (set_pinned env wallet session_id pinned account) (ok_or_not_found ''Session not found'')"

definition delete_session_route ::
  "outside \<Rightarrow> string \<Rightarrow> string option \<Rightarrow> string \<Rightarrow> ('z chat_db_scheme, json) io" where
  "delete_session_route env wallet account session_id =
     bind (delete_session env wallet session_id account) (ok_or_not_found ''Session not found'')"

definition delete_all_sessions_route :: "outside \<Rightarrow> string \<Rightarrow> string option \<Rightarrow> ('z chat_db_scheme, json) io" where
  "delete_all_sessions_route env wallet account =
     bind (delete_all_sessions env wallet account) (\<lambda>n. return (JObj [(''ok'', JBool True), (''deleted'', JInt (int n))]))"

section \<open>Share routes\<close>

definition get_share_route :: "string \<Rightarrow> string option \<Rightarrow> string \<Rightarrow> ('z chat_db_scheme, json) io" where
  "get_share_route wallet account session_id =
     bind (get_share wallet session_id account) (\<lambda>h.
       return (JObj [(''share'', case h of None \<Rightarrow> JNull | Some x \<Rightarrow> share_json x)]))"

definition create_share_route ::
  "outside \<Rightarrow> chat_random \<Rightarrow> string \<Rightarrow> string option \<Rightarrow> string \<Rightarrow> ('z chat_db_scheme, json) io" where
  "create_share_route env lib wallet account session_id =
     bind (create_or_refresh env lib wallet session_id account) (\<lambda>h.
     bind (or_not_found ''Session not found'' h) (\<lambda>x. return (JObj [(''share'', share_json x)])))"

definition revoke_share_route :: "string \<Rightarrow> string option \<Rightarrow> string \<Rightarrow> ('z chat_db_scheme, json) io" where
  "revoke_share_route wallet account session_id =
     bind (revoke wallet session_id account) (ok_or_not_found ''Share not found'')"

definition list_shares_route :: "string \<Rightarrow> string option \<Rightarrow> ('z chat_db_scheme, json) io" where
  "list_shares_route wallet account =
     bind (list_shares wallet account) (\<lambda>hs. return (JObj [(''shares'', JArr (map (\<lambda>x. share_json (snd x)) hs))]))"

definition public_share_route :: "outside \<Rightarrow> string \<Rightarrow> ('z chat_db_scheme, json) io" where
  "public_share_route env token = bind (resolve_public env token) (or_not_found ''Shared chat not found'')"

section \<open>Message routes\<close>

definition MESSAGE_METADATA_KEYS :: "string list" where
  "MESSAGE_METADATA_KEYS =
     [''action_results'', ''query_snapshots'', ''actions'', ''queries'', ''clarifications'', ''protocols'',
      ''edited_at'', ''query_card_results'']"

definition message_json :: "int \<times> chat_message \<Rightarrow> json" where
  "message_json x =
     (case x of (i, m) \<Rightarrow>
        JObj [(''id'', JStr (uuid_text i)), (''speaker'', JStr (cm_role m)), (''content'', JStr (cm_content m)),
              (''timestamp'', JStr (iso_text (cm_created_at m))), (''annotations'', meta_get m ''annotations''),
              (''metadata'', JObj (pick_keys MESSAGE_METADATA_KEYS (cm_metadata m)))])"

definition get_messages_route ::
  "string \<Rightarrow> string option \<Rightarrow> string \<Rightarrow> nat option \<Rightarrow> nat option \<Rightarrow> ('z chat_db_scheme, json) io" where
  "get_messages_route wallet account session_id limit offset =
     bind (get_chat_session wallet session_id account) (\<lambda>found.
     bind (or_not_found ''Not found'' found) (\<lambda>x.
     bind (get_messages session_id limit offset) (\<lambda>ms.
       return (JObj [(''messages'', JArr (map message_json ms)),
         (''session'', JObj (pick_keys [''id'', ''messageCount'', ''totalTokens'', ''isLocked'', ''lockedReason''] (serialize x)))]))))"

text \<open>The patch of the two fields a client may write.\<close>

definition metadata_patch :: "(string \<times> json) list option \<Rightarrow> (string \<times> json) list option \<Rightarrow> (string \<times> json) list" where
  "metadata_patch action_results query_snapshots =
     (case action_results of None \<Rightarrow> [] | Some kvs \<Rightarrow> [(''action_results'', JObj kvs)]) @
     (case query_snapshots of None \<Rightarrow> [] | Some kvs \<Rightarrow> [(''query_snapshots'', JObj kvs)])"

definition patch_metadata_route ::
  "outside \<Rightarrow> string \<Rightarrow> string option \<Rightarrow> string \<Rightarrow> string \<Rightarrow> (string \<times> json) list \<Rightarrow> ('z chat_db_scheme, json) io" where
  "patch_metadata_route env wallet account session_id message_id patch =
     (if patch = [] then return ok_json
      else
        bind (get_chat_session wallet session_id account) (\<lambda>found.
        bind (or_not_found ''Session not found'' found) (\<lambda>_.
        bind (update_message_metadata env session_id message_id patch) (ok_or_not_found ''Message not found''))))"

end
