(* ===== verification/Chat_Turns.thy ===== *)
theory Chat_Turns
  imports Chat_Api Usage_Caps "HOL-Library.List_Lexorder" "HOL-Library.Char_ord"
begin

text \<open>
  The turns of a conversation: the gates and the writes of \<open>stream_chat_response\<close> in
  \<open>services/message.py\<close>, the three endpoints that start a turn (\<open>send_message\<close>, \<open>stream_message\<close>,
  \<open>edit_message_stream\<close> in \<open>main.py\<close>), and any sequence of requests to the chat service. What a language model answers is
  a text that comes in with a request; block summaries, titles of streamed turns, facts about the
  user and the token ledger are left out. \<open>started\<close> is when the transaction that writes began.
\<close>

section \<open>The user's message of a turn\<close>

definition normal_tag :: "string \<Rightarrow> string" where
  "normal_tag p = map (\<lambda>c. if c = CHR ''-'' then CHR ''_'' else c) (lower p)"

definition protocol_tags :: "string list \<Rightarrow> string list" where
  "protocol_tags ps = sort (remdups (map normal_tag (filter (\<lambda>p. p \<noteq> []) ps)))"

definition turn_metadata ::
  "json list \<Rightarrow> string list option \<Rightarrow> (string \<times> json) list \<Rightarrow> (string \<times> json) list" where
  "turn_metadata attachments protocols extra =
     merge_objects
       ((if attachments = [] then [] else [(''attachments'', JArr attachments)]) @
        (case protocols of
           None \<Rightarrow> []
         | Some ps \<Rightarrow> if ps = [] then [] else [(''protocols'', JArr (map JStr (protocol_tags ps)))]))
       (filter (\<lambda>(k, _). k \<noteq> ''superseded_at'' \<and> k \<noteq> ''superseded_by_edit_of'') extra)"

section \<open>The gates\<close>

datatype turn_gate =
    Turn_Locked string
  | Chat_Capped chat_locked
  | Wallet_Capped cap_exceeded
  | Turn_Stored int

definition lock_session :: "outside \<Rightarrow> int \<Rightarrow> string \<Rightarrow> ('z chat_db_scheme, unit) io" where
  "lock_session env sid reason =
     modify (\<lambda>s. s\<lparr>sessions := update_where (\<lambda>j _. j = sid)
        (\<lambda>r. r\<lparr>cs_locked := True, cs_locked_reason := Some reason, cs_updated_at := utc_now env s\<rparr>) (sessions s)\<rparr>)"

definition messages_of :: "chat_session option \<Rightarrow> int" where
  "messages_of row = (case row of None \<Rightarrow> 0 | Some r \<Rightarrow> cs_messages r)"

definition tokens_of :: "chat_session option \<Rightarrow> int" where
  "tokens_of row = (case row of None \<Rightarrow> 0 | Some r \<Rightarrow> cs_tokens r)"

definition lock_of :: "chat_session option \<Rightarrow> string option" where
  "lock_of row =
     (case row of
        None \<Rightarrow> None
      | Some r \<Rightarrow> if cs_locked r then Some (or_text_opt (cs_locked_reason r) ''cap_reached'') else None)"

definition tier_cap :: "chat_random \<Rightarrow> string \<Rightarrow> int option" where
  "tier_cap lib wallet = (if wallet = [] then None else tier_token_cap lib wallet)"

definition open_turn ::
  "outside \<Rightarrow> chat_random \<Rightarrow> string \<Rightarrow> string \<Rightarrow> string \<Rightarrow> (string \<times> json) list \<Rightarrow> usec
    \<Rightarrow> ('z chat_db_scheme, turn_gate) io" where
  "open_turn env lib wallet session_id content metadata started =
     bind (from_sum (uuid_or_raise session_id)) (\<lambda>sid.
     bind (gets (\<lambda>s. row_of (sessions s) sid)) (\<lambda>row.
       case lock_of row of
         Some reason \<Rightarrow> return (Turn_Locked reason)
       | None \<Rightarrow>
           (case chat_cap_check env (messages_of row) (tokens_of row) of
              Some e \<Rightarrow>
                bind (lock_session env sid (unit_text (cl_unit e) @ ''_cap'')) (\<lambda>_. return (Chat_Capped e))
            | None \<Rightarrow>
                bind (assert_under_cap env wallet (tier_cap lib wallet)) (\<lambda>exceeded.
                  case exceeded of
                    Some e \<Rightarrow> return (Wallet_Capped e)
                  | None \<Rightarrow>
                      bind (record_message env wallet) (\<lambda>_.
                      bind (insert_message lib sid wallet ''user'' content metadata started) (\<lambda>i.
                      bind (increment_message_count env session_id) (\<lambda>_. return (Turn_Stored i))))))))"

text \<open>The first event of the stream.\<close>

definition chat_capped_text :: "chat_locked \<Rightarrow> string" where
  "chat_capped_text e =
     ''This conversation has reached its per-chat '' @ unit_text (cl_unit e) @ '' cap ('' @ commas (cl_used e) @ '' / '' @
     commas (cl_cap e) @ ''). Start a new chat to continue.''"

definition LOCKED_TEXT :: string where
  "LOCKED_TEXT = ''This conversation has reached its limit. Start a new chat to continue.''"

definition turn_event :: "turn_gate \<Rightarrow> json" where
  "turn_event g =
     (case g of
        Turn_Locked reason \<Rightarrow> JObj
          [(''error'', JStr LOCKED_TEXT), (''errorType'', JStr ''chat_limit''), (''scope'', JStr ''chat''),
           (''reason'', JStr reason), (''message'', JStr LOCKED_TEXT)]
      | Chat_Capped e \<Rightarrow> (case locked_payload e of
            JObj kvs \<Rightarrow> JObj (put_row ''message'' (JStr (chat_capped_text e))
                            (put_row ''reason'' (JStr (unit_text (cl_unit e) @ ''_cap'')) kvs))
          | j \<Rightarrow> j)
      | Wallet_Capped e \<Rightarrow> cap_payload e
      | Turn_Stored i \<Rightarrow> JObj [(''userMessageId'', JStr (uuid_text i))])"

section \<open>The answer of a turn\<close>

definition save_answer ::
  "outside \<Rightarrow> chat_random \<Rightarrow> string \<Rightarrow> string \<Rightarrow> string \<Rightarrow> (string \<times> json) list \<Rightarrow> usec \<Rightarrow> ('z chat_db_scheme, int) io" where
  "save_answer env lib wallet session_id content metadata started =
     bind (from_sum (uuid_or_raise session_id)) (\<lambda>sid.
     bind (insert_message lib sid wallet ''assistant'' content metadata started) (\<lambda>i.
     bind (increment_message_count env session_id) (\<lambda>_. return i)))"

text \<open>What is charged for the turn, and the lock it may lead to; \<open>n\<close> and \<open>t\<close> are the counters at the gate.\<close>

definition account_turn ::
  "outside \<Rightarrow> string \<Rightarrow> string \<Rightarrow> int \<Rightarrow> int \<Rightarrow> int \<Rightarrow> ('z chat_db_scheme, unit) io" where
  "account_turn env wallet session_id turn_total n t =
     (if turn_total \<le> 0 then return ()
      else
        bind (record_tokens env wallet turn_total) (\<lambda>_.
        bind (from_sum (uuid_or_raise session_id)) (\<lambda>sid.
        bind (modify (\<lambda>s. s\<lparr>sessions := update_where (\<lambda>j _. j = sid)
            (\<lambda>r. r\<lparr>cs_tokens := cs_tokens r + turn_total, cs_updated_at := utc_now env s\<rparr>) (sessions s)\<rparr>)) (\<lambda>_.
          if chat_token_cap env > 0 \<and> t + turn_total \<ge> chat_token_cap env then lock_session env sid ''tokens_cap''
          else if chat_message_cap env > 0 \<and> n + 1 \<ge> chat_message_cap env then lock_session env sid ''messages_cap''
          else return ()))))"

definition finish_turn ::
  "outside \<Rightarrow> chat_random \<Rightarrow> string \<Rightarrow> string \<Rightarrow> string \<Rightarrow> (string \<times> json) list \<Rightarrow> usec \<Rightarrow> int \<Rightarrow> int \<Rightarrow> int
    \<Rightarrow> ('z chat_db_scheme, json) io" where
  "finish_turn env lib wallet session_id content metadata started turn_total n t =
     bind (in_transaction (save_answer env lib wallet session_id content metadata started)) (\<lambda>i.
     bind (account_turn env wallet session_id turn_total n t) (\<lambda>_.
       return (JObj [(''messageId'', JStr (uuid_text i))])))"

section \<open>The endpoints\<close>

definition valid_content :: "string \<Rightarrow> bool" where
  "valid_content content \<longleftrightarrow> 1 \<le> char_count content \<and> char_count content \<le> 2000"

definition checked_session ::
  "string \<Rightarrow> string option \<Rightarrow> string \<Rightarrow> ('z chat_db_scheme, string) io" where
  "checked_session wallet account session_id =
     bind (get_chat_session wallet session_id account) (\<lambda>found.
     bind (or_not_found ''Not found'' found) (\<lambda>_. return session_id))"

definition session_for ::
  "outside \<Rightarrow> chat_random \<Rightarrow> string \<Rightarrow> string option \<Rightarrow> string \<Rightarrow> ('z chat_db_scheme, string) io" where
  "session_for env lib wallet account session_id =
     (if startswith session_id ''local:''
      then bind (create_session env lib wallet wallet (Some ''New chat'') account) (\<lambda>x. return (uuid_text (fst x)))
      else checked_session wallet account session_id)"

definition stream_message ::
  "outside \<Rightarrow> chat_random \<Rightarrow> string \<Rightarrow> string option \<Rightarrow> string \<Rightarrow> string \<Rightarrow> json list \<Rightarrow> string list option \<Rightarrow> usec
    \<Rightarrow> ('z chat_db_scheme, json) io" where
  "stream_message env lib wallet account session_id content attachments protocols started =
     (if \<not> valid_content content then throw (HttpException 422 ''Validation error'')
      else
        bind (in_transaction (session_for env lib wallet account session_id)) (\<lambda>actual.
        bind (in_transaction (open_turn env lib wallet actual (strip content)
            (turn_metadata attachments protocols []) started)) (\<lambda>g. return (turn_event g))))"

definition SORRY_TEXT :: string where
  "SORRY_TEXT = ''I can'' @ [CHR 0x27] @ ''t respond right now. Please try again later.''"

text \<open>The reply is \<open>None\<close> when the model fails, the title when it has none.\<close>

definition send_message ::
  "outside \<Rightarrow> chat_random \<Rightarrow> string \<Rightarrow> string option \<Rightarrow> string \<Rightarrow> string \<Rightarrow> string option \<Rightarrow> string option \<Rightarrow> usec
    \<Rightarrow> ('z chat_db_scheme, json) io" where
  "send_message env lib wallet account session_id content reply title started =
     (if \<not> valid_content content then throw (HttpException 422 ''Validation error'')
      else
        bind (session_for env lib wallet account session_id) (\<lambda>actual.
        bind (create_message lib actual wallet ''user'' (strip content) [] started) (\<lambda>_.
        bind (increment_message_count env actual) (\<lambda>new_count.
          case reply of
            None \<Rightarrow>
              bind (create_message lib actual wallet ''system'' SORRY_TEXT [] started) (\<lambda>_.
                return (JObj [(''message'', JStr []), (''degraded'', JBool True)]))
          | Some text1 \<Rightarrow>
              bind (create_message lib actual wallet ''assistant'' text1 [] started) (\<lambda>_.
              bind (increment_message_count env actual) (\<lambda>_.
              bind (case title of
                      None \<Rightarrow> return False
                    | Some t \<Rightarrow>
                        if startswith session_id ''local:'' \<or> new_count = 1
                        then update_title env wallet actual t account else return False) (\<lambda>_.
                return (JObj [(''message'', JStr text1)]))))))))"

definition edit_target ::
  "string \<Rightarrow> string option \<Rightarrow> string \<Rightarrow> string \<Rightarrow> ('z chat_db_scheme, int \<times> int \<times> chat_message) io" where
  "edit_target wallet account session_id message_id =
     (if startswith session_id ''local:'' then throw (HttpException 400 ''Cannot edit messages in an unpersisted session'')
      else
        bind (get_chat_session wallet session_id account) (\<lambda>found.
        bind (or_not_found ''Session not found'' found) (\<lambda>(sid, _).
          case uuid_int message_id of
            None \<Rightarrow> throw (HttpException 400 ''Invalid id format'')
          | Some mid \<Rightarrow>
              bind (gets (\<lambda>s. row_of (messages s) mid)) (\<lambda>r.
                case r of
                  None \<Rightarrow> throw (HttpException 404 ''Message not found'')
                | Some m \<Rightarrow>
                    if cm_session m \<noteq> sid then throw (HttpException 404 ''Message not found'')
                    else if cm_role m \<noteq> ''user'' then throw (HttpException 400 ''Only user messages can be edited'')
                    else if superseded m then throw (HttpException 400 ''Message has already been superseded'')
                    else return (sid, mid, m)))))"

text \<open>The stream of an edit has a transaction of its own; a failure in it is an event of the stream.\<close>

definition edit_stream ::
  "outside \<Rightarrow> chat_random \<Rightarrow> string \<Rightarrow> string \<Rightarrow> string \<Rightarrow> string \<Rightarrow> string list option \<Rightarrow> usec \<Rightarrow> string
    \<Rightarrow> int \<times> int \<times> chat_message \<Rightarrow> ('z chat_db_scheme, turn_gate) io" where
  "edit_stream env lib wallet session_id message_id content protocols started stamp target =
     (case target of (sid, mid, m) \<Rightarrow>
        bind (supersede_tail env sid mid (cm_created_at m) stamp) (\<lambda>_.
          open_turn env lib wallet session_id (strip content)
            (turn_metadata [] protocols [(''edited_at'', JStr stamp), (''edit_replaces'', JStr message_id)]) started))"

definition edit_message ::
  "outside \<Rightarrow> chat_random \<Rightarrow> string \<Rightarrow> string option \<Rightarrow> string \<Rightarrow> string \<Rightarrow> string \<Rightarrow> string list option \<Rightarrow> usec
    \<Rightarrow> ('z chat_db_scheme, json) io" where
  "edit_message env lib wallet account session_id message_id content protocols started =
     (if \<not> valid_content content then throw (HttpException 422 ''Validation error'')
      else
        bind (in_transaction (edit_target wallet account session_id message_id)) (\<lambda>target.
        bind (gets (\<lambda>s. iso_text (utc_now env s))) (\<lambda>stamp.
          catch_all
            (bind (in_transaction (edit_stream env lib wallet session_id message_id content protocols started stamp target))
              (\<lambda>g. return (turn_event g)))
            (\<lambda>e. return (JObj [(''error'', JStr ''Edit failed. Please try again.''), (''errorType'', JStr ''edit_stream'')])))))"

section \<open>A run of requests\<close>

datatype chat_request =
    List_Chats int "string option"
  | New_Chat string
  | Open_Chat string
  | Rename_Chat string string
  | Pin_Chat string bool
  | Delete_Chat string
  | Delete_All_Chats
  | Look_Share string
  | Share_Chat string
  | Revoke_Share string
  | List_Shares
  | View_Share string
  | Read_Messages string "nat option" "nat option"
  | Patch_Metadata string string "(string \<times> json) list option" "(string \<times> json) list option"
  | Send_Message string string "string option" "string option" usec
  | Stream_Message string string "json list" "string list option" usec
  | Finish_Turn string string "(string \<times> json) list" usec int int int
  | Edit_Message string string string "string list option" usec

definition serve_chat ::
  "outside \<Rightarrow> chat_random \<Rightarrow> string \<Rightarrow> string option \<Rightarrow> chat_request \<Rightarrow> ('z chat_db_scheme, json) io" where
  "serve_chat env lib wallet account req =
     (case req of
        List_Chats n c \<Rightarrow> list_sessions_route wallet n c account
      | New_Chat t \<Rightarrow> create_session_route env lib wallet account t
      | Open_Chat i \<Rightarrow> get_session_route wallet account i
      | Rename_Chat i t \<Rightarrow> update_session_route env wallet account i t
      | Pin_Chat i b \<Rightarrow> pin_session_route env wallet account i b
      | Delete_Chat i \<Rightarrow> delete_session_route env wallet account i
      | Delete_All_Chats \<Rightarrow> delete_all_sessions_route env wallet account
      | Look_Share i \<Rightarrow> get_share_route wallet account i
      | Share_Chat i \<Rightarrow> create_share_route env lib wallet account i
      | Revoke_Share i \<Rightarrow> revoke_share_route wallet account i
      | List_Shares \<Rightarrow> list_shares_route wallet account
      | View_Share t \<Rightarrow> public_share_route env t
      | Read_Messages i n k \<Rightarrow> get_messages_route wallet account i n k
      | Patch_Metadata i m a q \<Rightarrow> patch_metadata_route env wallet account i m (metadata_patch a q)
      | Send_Message i content reply title started \<Rightarrow> send_message env lib wallet account i content reply title started
      | Stream_Message i content attachments protocols started \<Rightarrow>
          stream_message env lib wallet account i content attachments protocols started
      | Finish_Turn i content metadata started turn_total n t \<Rightarrow>
          finish_turn env lib wallet i content metadata started turn_total n t
      | Edit_Message i m content protocols started \<Rightarrow> edit_message env lib wallet account i m content protocols started)"

text \<open>The turns that stream have their own transactions.\<close>

definition streams :: "chat_request \<Rightarrow> bool" where
  "streams req \<longleftrightarrow>
     (case req of Stream_Message _ _ _ _ _ \<Rightarrow> True | Finish_Turn _ _ _ _ _ _ _ \<Rightarrow> True | Edit_Message _ _ _ _ _ \<Rightarrow> True | _ \<Rightarrow> False)"

definition handle_chat ::
  "outside \<Rightarrow> chat_random \<Rightarrow> string \<Rightarrow> string option \<Rightarrow> chat_request \<Rightarrow> ('z chat_db_scheme, json) io" where
  "handle_chat env lib wallet account req =
     (if streams req then serve_chat env lib wallet account req else in_transaction (serve_chat env lib wallet account req))"

record chat_call =
  ca_wallet :: string
  ca_account :: "string option"
  ca_request :: chat_request

fun run_chat :: "outside \<Rightarrow> chat_random \<Rightarrow> chat_call list \<Rightarrow> 'z chat_db_scheme \<Rightarrow> 'z chat_db_scheme" where
  "run_chat env lib [] s = s"
| "run_chat env lib (c # cs) s =
     run_chat env lib cs (fst (handle_chat env lib (ca_wallet c) (ca_account c) (ca_request c) s))"

end
