(* ===== verification/Share_Snapshots.thy ===== *)
theory Share_Snapshots
  imports Chat_Turns
begin

text \<open>
  What a public link of a conversation shows: nothing that is written after its cutoff, whatever
  is requested, and nothing once it is revoked; but deleting the conversation does not take it
  back, and an answer whose transaction began before the cutoff is published although it is
  written after it. A second part is about sessions: reading and changing are allowed to the same
  requests, and the pages of a list make up the list.
\<close>

section \<open>What a link shows\<close>

text \<open>The published messages as who said what when.\<close>

definition snapshot :: "int \<Rightarrow> usec \<Rightarrow> (int, chat_message) table \<Rightarrow> (int \<times> string \<times> string \<times> usec) set" where
  "snapshot sid u t =
     {(i, cm_role m, cm_content m, cm_created_at m) | i m.
        (i, m) \<in> set t \<and> cm_session m = sid \<and> cm_created_at m \<le> u \<and> \<not> superseded m}"

definition said :: "int \<times> chat_message \<Rightarrow> int \<times> string \<times> string \<times> usec" where
  "said x = (case x of (i, m) \<Rightarrow> (i, cm_role m, cm_content m, cm_created_at m))"

lemma published_snapshot: "said ` set (published h t) = snapshot (sh_session h) (sh_up_to h) t"
  by (auto simp: published_def oldest_first_def rows_where_def snapshot_def said_def image_def)

text \<open>Every row with the token has this session, cutoff and title, and the token is not drawn again.\<close>

definition link_of :: "chat_random \<Rightarrow> string \<Rightarrow> int \<Rightarrow> usec \<Rightarrow> string \<Rightarrow> 'z chat_db_scheme \<Rightarrow> bool" where
  "link_of lib tk sid u title s \<longleftrightarrow>
     (\<forall>x\<in>set (shares s). sh_token (snd x) = tk \<longrightarrow>
        sh_session (snd x) = sid \<and> sh_up_to (snd x) = u \<and> sh_title (snd x) = title) \<and>
     (\<forall>n\<ge>looks s. random_token lib n \<noteq> tk)"

definition only_less :: "int \<Rightarrow> usec \<Rightarrow> 'z chat_db_scheme \<Rightarrow> 'z chat_db_scheme \<Rightarrow> bool" where
  "only_less sid u s s' \<longleftrightarrow> snapshot sid u (messages s') \<subseteq> snapshot sid u (messages s)"

interpretation snap: io_relation "link_of lib tk sid u title" "only_less sid u" for lib tk sid u title
  by unfold_locales (auto simp: only_less_def)

abbreviation freezes ::
  "chat_random \<Rightarrow> string \<Rightarrow> int \<Rightarrow> usec \<Rightarrow> string \<Rightarrow> ('z chat_db_scheme, 'a) io \<Rightarrow> bool" where
  "freezes lib tk sid u title m \<equiv> obeys (link_of lib tk sid u title) (only_less sid u) m"

lemma put_row_within: "set (put_row k r t) \<subseteq> insert (k, r) (set t)"
  unfolding put_row_def by (induction t) auto

lemma put_row_cases: "x \<in> set (put_row k r t) \<Longrightarrow> x = (k, r) \<or> x \<in> set t"
  using put_row_within [of k r t] by blast

text \<open>Effects that leave shares and messages alone.\<close>

definition leaves_shares :: "('z chat_db_scheme, 'a) io \<Rightarrow> bool" where
  "leaves_shares m \<longleftrightarrow> (\<forall>s. shares (fst (m s)) = shares s \<and> messages (fst (m s)) = messages s \<and> looks s \<le> looks (fst (m s)))"

lemma freezes_still: "leaves_shares m \<Longrightarrow> freezes lib tk sid u title m"
  unfolding leaves_shares_def obeys_def link_of_def only_less_def by (metis le_trans subset_refl)

lemma leaves_modify: "leaves_shares (modify (\<lambda>s. s\<lparr>sessions := f s\<rparr>))"
  by (simp add: leaves_shares_def io_simps)

lemma leaves_update: "leaves_shares (update_session env wallet session_id account f)"
  by (simp add: leaves_shares_def update_session_def bind_def io_simps split: option.split)

lemma leaves_sessions:
  "leaves_shares (create_session env lib' wallet user_id t account)"
  "leaves_shares (delete_all_sessions env wallet account)"
  "leaves_shares (increment_message_count env i)"
  by (simp_all add: leaves_shares_def create_session_def delete_all_sessions_def increment_message_count_def bind_def
      draw_uuid4_def uuid_or_raise_def or_raise_def io_simps Let_def split: option.split)

lemma leaves_draw: "leaves_shares (draw_uuid4 lib')" "leaves_shares (draw_token lib')"
  by (simp_all add: leaves_shares_def draw_uuid4_def draw_token_def)

lemma freezes_messages:
  assumes "\<And>s. snapshot sid u (f s) \<subseteq> snapshot sid u (messages s)"
  shows "freezes lib tk sid u title (modify (\<lambda>s. s\<lparr>messages := f s\<rparr>))"
  using assms by (simp add: obeys_def io_simps link_of_def only_less_def)

lemma snapshot_put:
  assumes "said (i, m) \<in> snapshot sid u t \<or> cm_session m \<noteq> sid \<or> u < cm_created_at m \<or> superseded m"
  shows "snapshot sid u (put_row i m t) \<subseteq> snapshot sid u t"
  using assms by (fastforce simp: snapshot_def said_def dest: put_row_cases)

lemma snapshot_update:
  assumes "\<And>m. cm_session (f m) = cm_session m" "\<And>m. cm_created_at (f m) = cm_created_at m"
    "\<And>m. cm_role (f m) = cm_role m" "\<And>m. cm_content (f m) = cm_content m"
    "\<And>k m. p k m \<Longrightarrow> superseded m \<Longrightarrow> superseded (f m)"
  shows "snapshot sid u (update_where p f t) \<subseteq> snapshot sid u t"
  unfolding snapshot_def update_where_def using assms by (fastforce split: if_splits)

text \<open>The counters of the usage caps.\<close>

definition same_cache_more :: "'z cache_state_scheme \<Rightarrow> 'z cache_state_scheme \<Rightarrow> bool" where
  "same_cache_more w w' \<longleftrightarrow> cache_state.more w' = cache_state.more w \<and> looks w \<le> looks w'"

interpretation cached: io_relation "\<lambda>_. True" same_cache_more
  by unfold_locales (auto simp: same_cache_more_def)

abbreviation only_cached :: "('z cache_state_scheme, 'a) io \<Rightarrow> bool" where
  "only_cached m \<equiv> obeys (\<lambda>_. True) same_cache_more m"

lemma cached_store: "only_cached (modify (\<lambda>w. w\<lparr>redis_store := f w\<rparr>))"
  by (simp add: obeys_def same_cache_more_def io_simps)

lemma cached_reached: "only_cached (redis_reached env cmd key)"
  by (simp add: redis_reached_def http_call_def obeys_def same_cache_more_def bind_def io_simps)

lemma cached_int: "only_cached (read_int env key)" "only_cached (add_int env key d)"
  unfolding add_int_def read_int_def cache_get_def cache_set_def with_redis_def Let_def
  by (intro cached.obeys_rules cached_store cached_reached)+

lemma cached_first: "only_cached (first_exceeded env wallet xs)"
proof (induction xs)
  case (Cons x xs)
  obtain u p key cap resets where x: "x = (u, p, key, cap, resets)" by (cases x) auto
  show ?case unfolding x first_exceeded.simps by (intro cached.obeys_rules cached_int Cons.IH)
qed (simp add: cached.obeys_pure)

lemma cached_usage:
  "only_cached (record_message env wallet)" "only_cached (record_tokens env wallet n)"
  "only_cached (assert_under_cap env wallet tier)"
  unfolding record_message_def record_tokens_def assert_under_cap_def keys_now_def resolve_check_def
  by (intro cached.obeys_rules cached_int cached_first)+

lemma leaves_cached:
  fixes m :: "('z chat_db_scheme, 'a) io"
  assumes "only_cached m"
  shows "leaves_shares m"
proof -
  have "same_cache_more s s' \<Longrightarrow> shares s' = shares s \<and> messages s' = messages s \<and> looks s \<le> looks s'"
    for s s' :: "'z chat_db_scheme"
    by (cases s; cases s') (simp add: same_cache_more_def)
  then show ?thesis using assms by (simp add: obeys_def leaves_shares_def)
qed

section \<open>Each request\<close>

lemma freezes_routes:
  "freezes lib tk sid u title (list_sessions_route wallet n c account)"
  "freezes lib tk sid u title (create_session_route env lib' wallet account t)"
  "freezes lib tk sid u title (get_session_route wallet account i)"
  "freezes lib tk sid u title (update_session_route env wallet account i t)"
  "freezes lib tk sid u title (pin_session_route env wallet account i b)"
  "freezes lib tk sid u title (delete_session_route env wallet account i)"
  "freezes lib tk sid u title (delete_all_sessions_route env wallet account)"
  "freezes lib tk sid u title (get_share_route wallet account i)"
  "freezes lib tk sid u title (list_shares_route wallet account)"
  "freezes lib tk sid u title (get_messages_route wallet account i l k)"
  unfolding list_sessions_route_def create_session_route_def get_session_route_def update_session_route_def
    pin_session_route_def delete_session_route_def delete_all_sessions_route_def get_share_route_def
    list_shares_route_def get_messages_route_def list_sessions_def get_chat_session_def get_share_def
    list_shares_def get_messages_def or_not_found_def ok_or_not_found_def update_title_def set_pinned_def delete_session_def
  by (intro snap.obeys_rules freezes_still leaves_update leaves_sessions)+

lemma freezes_draws: "freezes lib tk sid u title (draw_uuid4 lib')" "freezes lib tk sid u title (draw_token lib')"
  by (rule freezes_still, rule leaves_draw)+

lemma freezes_session: "freezes lib tk sid u title (get_chat_session wallet i account)"
  unfolding get_chat_session_def by (rule snap.obeys_pure)

lemma freezes_found: "freezes lib tk sid u title (or_not_found d x)"
  unfolding or_not_found_def by (intro snap.obeys_rules)

lemma merge_keeps: "row_of kvs ''superseded_at'' = Some v \<Longrightarrow> ''superseded_at'' \<notin> fst ` set patch \<Longrightarrow>
  row_of (merge_metadata kvs patch) ''superseded_at'' = Some v"
  unfolding merge_metadata_def by (induction patch arbitrary: kvs) (auto simp: case_prod_unfold)

lemma merge_new: "row_of kvs ''superseded_at'' = None \<Longrightarrow> ''superseded_at'' \<notin> fst ` set patch \<Longrightarrow>
  row_of (merge_metadata kvs patch) ''superseded_at'' = None"
  unfolding merge_metadata_def by (induction patch arbitrary: kvs) (auto simp: case_prod_unfold)

lemma merge_superseded:
  "''superseded_at'' \<notin> fst ` set patch \<Longrightarrow>
     superseded (m\<lparr>cm_metadata := merge_metadata (cm_metadata m) patch, cm_updated_at := now\<rparr>) = superseded m"
  using merge_keeps [of "cm_metadata m" _ patch] merge_new [of "cm_metadata m" patch]
  by (cases "row_of (cm_metadata m) ''superseded_at''") (simp_all add: superseded_def meta_get_def row_of_def)

lemma metadata_patch_keys: "''superseded_at'' \<notin> fst ` set (metadata_patch a q)"
  by (auto simp: metadata_patch_def split: option.splits)

lemma patch_effect:
  "fst (update_message_metadata env session_id message_id patch s) = s \<or>
   (\<exists>mid m. row_of (messages s) mid = Some m \<and>
      fst (update_message_metadata env session_id message_id patch s) = s\<lparr>messages := put_row mid
        (m\<lparr>cm_metadata := merge_metadata (cm_metadata m) patch, cm_updated_at := utc_now env s\<rparr>) (messages s)\<rparr>)"
  by (auto simp: update_message_metadata_def bind_def io_simps split: option.split)

lemma patch_snapshot:
  assumes "''superseded_at'' \<notin> fst ` set patch" "row_of (messages s) mid = Some m"
  shows "snapshot sid u (put_row mid (m\<lparr>cm_metadata := merge_metadata (cm_metadata m) patch, cm_updated_at := now\<rparr>)
           (messages s)) \<subseteq> snapshot sid u (messages s)"
  using row_of_in [OF assms(2)] merge_superseded [OF assms(1), where m = m and now = now]
  by (intro snapshot_put) (auto simp: snapshot_def said_def)

lemma freezes_patch:
  assumes "''superseded_at'' \<notin> fst ` set patch"
  shows "freezes lib tk sid u title (update_message_metadata env session_id message_id patch)"
  unfolding obeys_def
proof (intro allI impI)
  fix s :: "'a chat_db_scheme" assume ok: "link_of lib tk sid u title s"
  show "link_of lib tk sid u title (fst (update_message_metadata env session_id message_id patch s)) \<and>
        only_less sid u s (fst (update_message_metadata env session_id message_id patch s))"
    using patch_effect [of env session_id message_id patch s]
  proof (elim disjE exE conjE)
    fix mid m
    assume m: "row_of (messages s) mid = Some m"
      and e: "fst (update_message_metadata env session_id message_id patch s) = s\<lparr>messages := put_row mid
        (m\<lparr>cm_metadata := merge_metadata (cm_metadata m) patch, cm_updated_at := utc_now env s\<rparr>) (messages s)\<rparr>"
    show ?thesis unfolding e using ok patch_snapshot [OF assms m] by (simp add: link_of_def only_less_def)
  qed (use ok in \<open>simp_all add: only_less_def\<close>)
qed

lemma freezes_patch_route:
  "freezes lib tk sid u title (patch_metadata_route env wallet account i m (metadata_patch a q))"
  unfolding patch_metadata_route_def ok_or_not_found_def
  by (intro snap.obeys_rules freezes_patch freezes_session freezes_found metadata_patch_keys)

text \<open>Sharing another conversation, and taking any link back.\<close>

lemma share_of_in: "share_of sid t = Some x \<Longrightarrow> x \<in> set t \<and> sh_session (snd x) = sid"
proof -
  assume "share_of sid t = Some x"
  then have "x \<in> set (rows_where (\<lambda>_ h. sh_session h = sid) t)" by (auto simp: share_of_def split: list.splits)
  then show ?thesis by (auto simp: rows_where_def)
qed

lemma find_session_id:
  "find_session wallet account i t = Some (j, r) \<Longrightarrow> uuid_int i = Some j \<and> row_of t j = Some r \<and> can_access wallet account j j r"
  by (auto simp: find_session_def coerce_session_id_def split: option.splits if_splits)

lemma create_effect:
  "fst (create_or_refresh env lib' wallet i account s) = s \<or>
   (\<exists>j r. uuid_int i = Some j \<and>
      ((\<exists>k h. share_of j (shares s) = Some (k, h) \<and>
          fst (create_or_refresh env lib' wallet i account s) =
            s\<lparr>shares := put_row k (refreshed (utc_now env s) r h) (shares s)\<rparr>) \<or>
       fst (create_or_refresh env lib' wallet i account s) =
         s\<lparr>looks := looks s + 2, shares := put_row (random_uuid lib' (looks s))
             (new_share wallet j r (random_token lib' (looks s + 1)) (utc_now env s)) (shares s)\<rparr>))"
  by (auto simp: create_or_refresh_def get_chat_session_def bind_def io_simps draw_uuid4_def draw_token_def
      split: option.split dest!: find_session_id)

lemma freezes_create:
  assumes "uuid_int i \<noteq> Some sid"
  shows "freezes lib tk sid u title (create_or_refresh env lib wallet i account)"
  unfolding obeys_def
proof (intro allI impI)
  fix s :: "'a chat_db_scheme" assume ok: "link_of lib tk sid u title s"
  let ?m = "create_or_refresh env lib wallet i account"
  show "link_of lib tk sid u title (fst (?m s)) \<and> only_less sid u s (fst (?m s))"
    using create_effect [of env lib wallet i account s]
  proof (elim disjE exE conjE)
    fix j r k h
    assume "uuid_int i = Some j" and h: "share_of j (shares s) = Some (k, h)"
      and e: "fst (?m s) = s\<lparr>shares := put_row k (refreshed (utc_now env s) r h) (shares s)\<rparr>"
    then have "sh_token h \<noteq> tk" using share_of_in [OF h] ok assms by (auto simp: link_of_def)
    then show ?thesis unfolding e using ok by (auto simp: link_of_def only_less_def refreshed_def dest!: put_row_cases)
  next
    fix j r
    assume e: "fst (?m s) = s\<lparr>looks := looks s + 2, shares := put_row (random_uuid lib (looks s))
             (new_share wallet j r (random_token lib (looks s + 1)) (utc_now env s)) (shares s)\<rparr>"
    have "link_of lib tk sid u title (fst (?m s))"
      unfolding link_of_def
    proof (intro conjI ballI impI allI)
      fix x :: "int \<times> share_row" assume t: "sh_token (snd x) = tk"
      assume "x \<in> set (shares (fst (?m s)))"
      then have "x \<in> set (put_row (random_uuid lib (looks s))
          (new_share wallet j r (random_token lib (looks s + 1)) (utc_now env s)) (shares s))" unfolding e by simp
      moreover have "random_token lib (looks s + 1) \<noteq> tk" using ok unfolding link_of_def by simp
      ultimately have "x \<in> set (shares s)"
        using t by (auto simp: new_share_def dest: put_row_cases)
      then show "sh_session (snd x) = sid" "sh_up_to (snd x) = u" "sh_title (snd x) = title"
        using ok t by (auto simp: link_of_def)
    qed (use e ok in \<open>simp add: link_of_def\<close>)
    then show ?thesis using e by (simp add: only_less_def)
  qed (use ok in \<open>simp_all add: only_less_def\<close>)
qed

lemma freezes_revoke: "freezes lib tk sid u title (revoke wallet i account)"
  by (auto simp: obeys_def revoke_def get_chat_session_def bind_def io_simps link_of_def only_less_def rows_where_def
      split: option.split)

lemma share_by_token_in: "share_by_token token t = Some x \<Longrightarrow> x \<in> set t \<and> sh_token (snd x) = token"
proof -
  assume "share_by_token token t = Some x"
  then have "x \<in> set (rows_where (\<lambda>_ h. sh_token h = token) t)" by (auto simp: share_by_token_def split: list.splits)
  then show ?thesis by (auto simp: rows_where_def)
qed

lemma resolve_effect:
  "fst (resolve_public env token s) = s \<or>
   (\<exists>k h. share_by_token token (shares s) = Some (k, h) \<and> fst (resolve_public env token s) =
      s\<lparr>shares := put_row k (h\<lparr>sh_views := sh_views h + 1, sh_updated_at := utc_now env s\<rparr>) (shares s)\<rparr>)"
  by (auto simp: resolve_public_def bind_def io_simps split: option.split)

lemma freezes_resolve: "freezes lib tk sid u title (resolve_public env token)"
  unfolding obeys_def
proof (intro allI impI)
  fix s :: "'a chat_db_scheme" assume ok: "link_of lib tk sid u title s"
  show "link_of lib tk sid u title (fst (resolve_public env token s)) \<and> only_less sid u s (fst (resolve_public env token s))"
    using resolve_effect [of env token s]
  proof (elim disjE exE conjE)
    fix k h
    assume h: "share_by_token token (shares s) = Some (k, h)"
      and e: "fst (resolve_public env token s) =
        s\<lparr>shares := put_row k (h\<lparr>sh_views := sh_views h + 1, sh_updated_at := utc_now env s\<rparr>) (shares s)\<rparr>"
    show ?thesis unfolding e using ok share_by_token_in [OF h]
      by (auto simp: link_of_def only_less_def dest!: put_row_cases)
  qed (use ok in \<open>simp_all add: only_less_def\<close>)
qed

text \<open>Writing messages.\<close>

lemma freezes_insert:
  assumes "j = sid \<Longrightarrow> u < started"
  shows "freezes lib tk sid u title (insert_message lib' j wallet role content md started)"
proof -
  have "snapshot sid u (put_row k \<lparr>cm_session = j, cm_wallet = wallet, cm_role = role, cm_content = content,
      cm_metadata = md, cm_created_at = started, cm_updated_at = started\<rparr> t) \<subseteq> snapshot sid u t" for k t
    using assms by (intro snapshot_put) auto
  then show ?thesis
    by (simp add: obeys_def insert_message_def draw_uuid4_def bind_def io_simps link_of_def only_less_def)
qed

lemma leaves_lock: "leaves_shares (lock_session env j reason)"
  unfolding lock_session_def by (rule leaves_modify)

lemma freezes_parsed:
  assumes "\<And>j. uuid_int i = Some j \<Longrightarrow> freezes lib tk sid u title (f j)"
  shows "freezes lib tk sid u title (bind (from_sum (uuid_or_raise i)) f)"
  using assms by (cases "uuid_int i") (auto simp: uuid_or_raise_def obeys_def bind_def io_simps only_less_def)

lemmas freezes_steps = freezes_still [OF leaves_modify] freezes_still [OF leaves_lock]
  freezes_still [OF leaves_sessions(1)] freezes_still [OF leaves_sessions(3)] freezes_still [OF leaves_update]
  freezes_still [OF leaves_cached [OF cached_usage(1)]] freezes_still [OF leaves_cached [OF cached_usage(2)]]
  freezes_still [OF leaves_cached [OF cached_usage(3)]] freezes_session freezes_found

lemma freezes_message:
  assumes "uuid_int i = Some sid \<Longrightarrow> u < started"
  shows "freezes lib tk sid u title (create_message lib' i wallet role content md started)"
  unfolding create_message_def
  by (rule freezes_parsed) (intro snap.obeys_rules freezes_steps freezes_insert, use assms in simp)

lemma freezes_open:
  assumes "uuid_int i = Some sid \<Longrightarrow> u < started"
  shows "freezes lib tk sid u title (open_turn env lib' wallet i content md started)"
  unfolding open_turn_def
  by (rule freezes_parsed) (intro snap.obeys_rules freezes_steps freezes_insert, use assms in simp)

lemma freezes_answer:
  assumes "uuid_int i = Some sid \<Longrightarrow> u < started"
  shows "freezes lib tk sid u title (save_answer env lib' wallet i content md started)"
  unfolding save_answer_def
  by (rule freezes_parsed) (intro snap.obeys_rules freezes_steps freezes_insert, use assms in simp)

lemma freezes_account: "freezes lib tk sid u title (account_turn env wallet i n k t)"
  unfolding account_turn_def by (intro snap.obeys_rules freezes_steps)

lemma freezes_supersede: "freezes lib tk sid u title (supersede_tail env j target from stamp)"
  unfolding supersede_tail_def by (rule freezes_messages, rule snapshot_update) simp_all

lemma freezes_transaction:
  assumes "freezes lib tk sid u title m"
  shows "freezes lib tk sid u title (in_transaction m)"
  unfolding obeys_def
proof (intro allI impI)
  fix s :: "'a chat_db_scheme" assume ok: "link_of lib tk sid u title s"
  obtain s' r where m: "m s = (s', r)" by fastforce
  have 1: "link_of lib tk sid u title s'" "only_less sid u s s'" using obeysD [OF assms ok m] by simp_all
  show "link_of lib tk sid u title (fst (in_transaction m s)) \<and> only_less sid u s (fst (in_transaction m s))"
  proof (cases r)
    case (Inr a)
    then show ?thesis using 1 m by (simp add: in_transaction_def)
  next
    case (Inl e)
    then show ?thesis using 1 m ok by (simp add: in_transaction_def link_of_def only_less_def)
  qed
qed

lemma freezes_session_for: "freezes lib tk sid u title (session_for env lib' wallet account i)"
  unfolding session_for_def checked_session_def by (intro snap.obeys_rules freezes_steps)

text \<open>The endpoints of turns, when what they write is later than the cutoff.\<close>

lemma freezes_checked:
  "freezes lib tk sid u title (f i) \<Longrightarrow> freezes lib tk sid u title (bind (checked_session wallet account i) f)"
  by (auto simp: obeys_def checked_session_def get_chat_session_def or_not_found_def bind_def io_simps only_less_def
      split: option.split)

lemma checked_transaction: "in_transaction (checked_session wallet account i) = checked_session wallet account i"
  by (auto simp: in_transaction_def checked_session_def get_chat_session_def or_not_found_def bind_def io_simps
      fun_eq_iff split: option.split)

lemma freezes_for:
  assumes "startswith i ''local:'' \<Longrightarrow> (\<And>j. freezes lib tk sid u title (f j))"
    and "\<not> startswith i ''local:'' \<Longrightarrow> freezes lib tk sid u title (f i)"
  shows "freezes lib tk sid u title (bind (session_for env lib' wallet account i) f)"
    and "freezes lib tk sid u title (bind (in_transaction (session_for env lib' wallet account i)) f)"
proof -
  show "freezes lib tk sid u title (bind (session_for env lib' wallet account i) f)"
  proof (cases "startswith i ''local:''")
    case True
    then show ?thesis using assms(1) by (intro snap.obeys_bind freezes_session_for)
  next
    case False
    then show ?thesis using freezes_checked [where f = f and i = i, OF assms(2)] by (simp add: session_for_def)
  qed
  show "freezes lib tk sid u title (bind (in_transaction (session_for env lib' wallet account i)) f)"
  proof (cases "startswith i ''local:''")
    case True
    then show ?thesis using assms(1) by (intro snap.obeys_bind freezes_transaction freezes_session_for)
  next
    case False
    then show ?thesis using freezes_checked [where f = f and i = i, OF assms(2)] by (simp add: session_for_def checked_transaction)
  qed
qed

lemma freezes_catch:
  "freezes lib tk sid u title m \<Longrightarrow> (\<And>e. freezes lib tk sid u title (h e)) \<Longrightarrow> freezes lib tk sid u title (catch_all m h)"
  unfolding catch_all_def by (intro snap.obeys_rules)

lemma freezes_send:
  assumes "startswith i ''local:'' \<or> uuid_int i = Some sid \<Longrightarrow> u < started"
  shows "freezes lib tk sid u title (send_message env lib' wallet account i content reply topic started)"
  unfolding send_message_def update_title_def
  by (intro snap.obeys_rules(5) snap.obeys_pure freezes_for snap.obeys_rules freezes_message freezes_steps;
      use assms in simp)

lemma freezes_stream:
  assumes "startswith i ''local:'' \<or> uuid_int i = Some sid \<Longrightarrow> u < started"
  shows "freezes lib tk sid u title (stream_message env lib' wallet account i content attachments protocols started)"
  unfolding stream_message_def
  by (intro freezes_for snap.obeys_rules freezes_transaction freezes_open; use assms in simp)

lemma freezes_finish:
  assumes "uuid_int i = Some sid \<Longrightarrow> u < started"
  shows "freezes lib tk sid u title (finish_turn env lib' wallet i content md started n k t)"
  unfolding finish_turn_def
  by (intro snap.obeys_rules freezes_transaction freezes_answer freezes_account; use assms in simp)

lemma freezes_edit:
  assumes "uuid_int i = Some sid \<Longrightarrow> u < started"
  shows "freezes lib tk sid u title (edit_message env lib' wallet account i m content protocols started)"
  unfolding edit_message_def edit_stream_def edit_target_def
  by (intro freezes_catch snap.obeys_rules freezes_transaction freezes_open freezes_supersede freezes_steps;
      use assms in simp)

lemma freezes_share_routes:
  "uuid_int i \<noteq> Some sid \<Longrightarrow> freezes lib tk sid u title (create_share_route env lib wallet account i)"
  "freezes lib tk sid u title (revoke_share_route wallet account i)"
  "freezes lib tk sid u title (public_share_route env token)"
  unfolding create_share_route_def revoke_share_route_def public_share_route_def ok_or_not_found_def or_not_found_def
  by (intro snap.obeys_rules freezes_create freezes_revoke freezes_resolve; assumption)+

text \<open>A request that does not refresh the link, and does not write into its conversation from before its cutoff.\<close>

definition after_cutoff :: "int \<Rightarrow> usec \<Rightarrow> chat_call \<Rightarrow> bool" where
  "after_cutoff sid u c \<longleftrightarrow>
     (case ca_request c of
        Share_Chat i \<Rightarrow> uuid_int i \<noteq> Some sid
      | Send_Message i _ _ _ started \<Rightarrow> startswith i ''local:'' \<or> uuid_int i = Some sid \<longrightarrow> u < started
      | Stream_Message i _ _ _ started \<Rightarrow> startswith i ''local:'' \<or> uuid_int i = Some sid \<longrightarrow> u < started
      | Finish_Turn i _ _ started _ _ _ \<Rightarrow> uuid_int i = Some sid \<longrightarrow> u < started
      | Edit_Message i _ _ _ started \<Rightarrow> uuid_int i = Some sid \<longrightarrow> u < started
      | _ \<Rightarrow> True)"

lemma freezes_request:
  assumes "after_cutoff sid u c"
  shows "freezes lib tk sid u title (handle_chat env lib (ca_wallet c) (ca_account c) (ca_request c))"
proof -
  have served: "freezes lib tk sid u title (serve_chat env lib (ca_wallet c) (ca_account c) (ca_request c))"
    using assms unfolding serve_chat_def after_cutoff_def
    by (cases "ca_request c";
        auto simp: freezes_routes freezes_share_routes freezes_patch_route freezes_finish freezes_edit
          intro!: freezes_send freezes_stream)
  show ?thesis unfolding handle_chat_def by (intro snap.obeys_split(1) freezes_transaction served)
qed

lemma run_frozen:
  assumes "list_all (after_cutoff sid u) cs" "link_of lib tk sid u title s"
  shows "link_of lib tk sid u title (run_chat env lib cs s) \<and> only_less sid u s (run_chat env lib cs s)"
  using assms
proof (induction cs arbitrary: s)
  case Nil
  then show ?case by (simp add: only_less_def)
next
  case (Cons c cs)
  let ?s = "fst (handle_chat env lib (ca_wallet c) (ca_account c) (ca_request c) s)"
  have "link_of lib tk sid u title ?s \<and> only_less sid u s ?s"
    by (rule freezes_request [unfolded obeys_def, rule_format]) (use Cons.prems in auto)
  then show ?case using Cons.IH [of ?s] Cons.prems(1) by (auto simp: only_less_def)
qed

section \<open>Examples\<close>

definition chat_env :: "usec \<Rightarrow> outside" where
  "chat_env now =
     \<lparr>http = (\<lambda>n verb url p. Reply 200 None), mono = (\<lambda>n. 0), utc = (\<lambda>n. now), repr_of = (\<lambda>j. []),
      raw_text = (\<lambda>b. []), env_var = (\<lambda>name. None), auth_cookie = (\<lambda>n. None), error_text = (\<lambda>x. []),
      chat_answer = (\<lambda>n i t. Sent_To_Chat)\<rparr>"

definition chat_lib :: chat_random where
  "chat_lib = \<lparr>random_uuid = (\<lambda>n. 100 + int n), random_token = (\<lambda>n. ''fresh''), tier_token_cap = (\<lambda>w. None)\<rparr>"

definition one_id :: string where
  "one_id = ''00000000-0000-0000-0000-000000000001''"

definition one_session :: chat_session where
  "one_session =
     \<lparr>cs_user = ''w'', cs_wallet = ''w'', cs_account = None, cs_title = ''Trip'', cs_messages = 1, cs_created_at = 5,
      cs_updated_at = 10, cs_deleted = False, cs_deleted_at = None, cs_pinned = False, cs_pinned_at = None,
      cs_last_message_at = Some 10, cs_state = JObj [], cs_tokens = 0, cs_locked = False, cs_locked_reason = None\<rparr>"

definition one_share :: share_row where
  "one_share =
     \<lparr>sh_session = 1, sh_wallet = ''w'', sh_token = ''tok'', sh_up_to = 20, sh_title = ''Trip'', sh_views = 0,
      sh_created_at = 20, sh_updated_at = 20\<rparr>"

definition one_message :: chat_message where
  "one_message =
     \<lparr>cm_session = 1, cm_wallet = ''w'', cm_role = ''user'', cm_content = ''hello'', cm_metadata = [],
      cm_created_at = 10, cm_updated_at = 10\<rparr>"

definition shared_chat :: chat_db where
  "shared_chat =
     \<lparr>looks = 0, slept = 0, on_fallback = False, primary_stale = False, lag_checked_at = 0,
      redis_store = [], cache_connected = True, sessions = [(1, one_session)], shares = [(7, one_share)], messages = [(3, one_message)]\<rparr>"

definition unshared_chat :: chat_db where
  "unshared_chat = shared_chat\<lparr>shares := []\<rparr>"

lemma one_uuid: "uuid_int one_id = Some 1"
  by code_simp

lemmas chat_examples = chat_env_def chat_lib_def one_id_def one_session_def one_share_def one_message_def
  shared_chat_def unshared_chat_def

section \<open>Properties of links\<close>

text \<open>C26: a public link is a frozen snapshot. Whatever is requested afterwards, by whoever, as long
  as the owner does not share that conversation again and every message saved to it belongs to a
  transaction begun after the cutoff, a link found under the token has the title and the cutoff it had,
  and each message it publishes was published before, with the same role, text and time.\<close>

theorem share_is_frozen:
  assumes "share_by_token tk (shares s) = Some (i, h)"
    and "\<forall>x\<in>set (shares s). sh_token (snd x) = tk \<longrightarrow> x = (i, h)"
    and "\<forall>n\<ge>looks s. random_token lib n \<noteq> tk"
    and "list_all (after_cutoff (sh_session h) (sh_up_to h)) cs"
    and "share_by_token tk (shares (run_chat env lib cs s)) = Some (j, h')"
  shows "sh_title h' = sh_title h \<and> sh_up_to h' = sh_up_to h \<and>
    said ` set (published h' (messages (run_chat env lib cs s))) \<subseteq> said ` set (published h (messages s))"
proof -
  let ?s = "run_chat env lib cs s"
  have "link_of lib tk (sh_session h) (sh_up_to h) (sh_title h) s"
    using assms(2,3) by (auto simp: link_of_def)
  from run_frozen [OF assms(4) this, of env]
  have "link_of lib tk (sh_session h) (sh_up_to h) (sh_title h) ?s" "only_less (sh_session h) (sh_up_to h) s ?s" by auto
  moreover from this have "sh_session h' = sh_session h" "sh_up_to h' = sh_up_to h" "sh_title h' = sh_title h"
    using share_by_token_in [OF assms(5)] by (auto simp: link_of_def)
  ultimately show ?thesis by (simp add: published_snapshot only_less_def)
qed

text \<open>C27: revoking is final. Once a link was revoked its token resolves to nothing, whatever is
  requested afterwards, the same conversation shared again included.\<close>

theorem revoked_token_dead:
  assumes "revoke wallet i account s = (s1, Inr True)"
    and "uuid_int i = Some sid"
    and "\<forall>x\<in>set (shares s). sh_token (snd x) = tk \<longrightarrow> sh_session (snd x) = sid"
    and "\<forall>n\<ge>looks s. random_token lib n \<noteq> tk"
  shows "snd (resolve_public env tk (run_chat env lib cs s1)) = Inr None"
proof -
  have s1: "shares s1 = rows_where (\<lambda>_ h. sh_session h \<noteq> sid) (shares s)" "looks s1 = looks s"
    using assms(1,2) find_session_id [of wallet account i "sessions s"]
    by (auto simp: revoke_def get_chat_session_def bind_def io_simps split: option.splits)
  define used where "used = (\<lambda>c::chat_call. case ca_request c of Share_Chat t \<Rightarrow> uuid_int t
    | Send_Message t _ _ _ _ \<Rightarrow> uuid_int t | Stream_Message t _ _ _ _ \<Rightarrow> uuid_int t
    | Finish_Turn t _ _ _ _ _ _ \<Rightarrow> uuid_int t | Edit_Message t _ _ _ _ \<Rightarrow> uuid_int t | _ \<Rightarrow> None)"
  define early where "early = (\<lambda>c::chat_call. case ca_request c of Send_Message _ _ _ _ n \<Rightarrow> n
    | Stream_Message _ _ _ _ n \<Rightarrow> n | _ \<Rightarrow> 0)"
  obtain u where u: "\<forall>c\<in>set cs. u < early c"
    using finite_set [of "map early cs"] by (metis (no_types, lifting) Min_le finite_imageI finite_set image_eqI lt_ex order_less_le_trans)
  obtain z :: int where z: "z \<notin> the ` used ` set cs"
    using ex_new_if_finite [OF infinite_UNIV_int, of "the ` used ` set cs"] by auto
  have ok: "list_all (after_cutoff z u) cs"
    using z u by (fastforce simp: list_all_iff after_cutoff_def used_def early_def image_iff split: chat_request.split)
  have unlinked: "link_of lib tk z u t s1" for t
    using assms(3,4) by (auto simp: link_of_def s1 rows_where_def)
  have "sh_token (snd x) \<noteq> tk" if "x \<in> set (shares (run_chat env lib cs s1))" for x
    using run_frozen [OF ok unlinked, where env = env and title = \<open>''a''\<close>] run_frozen [OF ok unlinked, where env = env and title = \<open>''b''\<close>] that
    unfolding link_of_def by fastforce
  then have "share_by_token tk (shares (run_chat env lib cs s1)) = None"
    using share_by_token_in [of tk "shares (run_chat env lib cs s1)"] by (cases "share_by_token tk (shares (run_chat env lib cs s1))") auto
  then show ?thesis by (simp add: resolve_public_def bind_def io_simps)
qed

lemma deleted_row:
  assumes "delete_session env wallet i account s = (s1, Inr True)" "uuid_int i = Some sid" "keyed (sessions s)"
  obtains r where "row_of (sessions s1) sid = Some r" "cs_deleted r" "owner_where wallet account r"
    and "shares s1 = shares s" "messages s1 = messages s"
proof -
  let ?t = "sessions s"
  have s1: "s1 = s\<lparr>sessions := update_where (can_access wallet account sid)
        (\<lambda>r. r\<lparr>cs_deleted := True, cs_deleted_at := Some (utc_now env s), cs_updated_at := utc_now env s\<rparr>) ?t\<rparr>"
    and hits: "rows_where (can_access wallet account sid) ?t \<noteq> []"
    using assms(1,2) by (auto simp: delete_session_def update_session_def coerce_session_id_def bind_def io_simps)
  from hits obtain j r where "(j, r) \<in> set (rows_where (can_access wallet account sid) ?t)"
    by (metis list.set_intros(1) neq_Nil_conv surj_pair)
  then have r: "row_of ?t sid = Some r" "can_access wallet account sid sid r"
    using assms(3) by (auto simp: in_rows_where can_access_def keyed_row_of)
  show thesis
    by (rule that [of "r\<lparr>cs_deleted := True, cs_deleted_at := Some (utc_now env s), cs_updated_at := utc_now env s\<rparr>"])
      (use r in \<open>simp_all add: s1 can_access_def owner_where_def split: option.splits\<close>)
qed

text \<open>C28: deleting a conversation does not take its link back. The link answers what it answered
  before, it stays in the list of the owner's links, and no one can revoke it any more: every
  revocation finds no conversation.\<close>

theorem deleted_session_stays_public:
  assumes "delete_session env wallet i account s = (s1, Inr True)"
    and "uuid_int i = Some sid" and "keyed (sessions s)"
    and "(k, h) \<in> set (shares s)" and "sh_session h = sid"
  shows "snd (resolve_public env tk s1) = snd (resolve_public env tk s) \<and>
    (\<exists>hs. list_shares wallet account s1 = (s1, Inr hs) \<and> (k, h) \<in> set hs) \<and>
    (\<forall>w a. revoke w i a s1 = (s1, Inr False))"
proof -
  obtain r where r: "row_of (sessions s1) sid = Some r" "cs_deleted r" "owner_where wallet account r"
    and same: "shares s1 = shares s" "messages s1 = messages s"
    using deleted_row [OF assms(1-3)] by blast
  have "find_session w a i (sessions s1) = None" for w a
    using r assms(2) by (simp add: find_session_def coerce_session_id_def can_access_def)
  then have "revoke w i a s1 = (s1, Inr False)" for w a
    by (simp add: revoke_def get_chat_session_def bind_def io_simps)
  moreover have "\<exists>x\<in>set (sessions s1). fst x = sid \<and> owner_where wallet account (snd x)"
    using row_of_in [OF r(1)] r(3) by force
  ultimately show ?thesis
    using assms(4,5) same
    by (auto simp: resolve_public_def list_shares_def bind_def io_simps in_rows_where split: option.split)
qed

lemma created_share:
  assumes "create_or_refresh env lib wallet i account s = (s1, Inr (Some h))"
  shows "uuid_int i = Some (sh_session h)"
  using assms find_session_id [of wallet account i "sessions s"] share_of_in [of _ "shares s"]
  by (fastforce simp: create_or_refresh_def get_chat_session_def bind_def io_simps draw_uuid4_def draw_token_def
      refreshed_def new_share_def split: option.splits)

lemma saved_message:
  assumes "save_answer env lib w i content md started s = (s1, Inr k)" "uuid_int i = Some sid"
  shows "messages s1 = put_row k \<lparr>cm_session = sid, cm_wallet = w, cm_role = ''assistant'', cm_content = content,
      cm_metadata = md, cm_created_at = started, cm_updated_at = started\<rparr> (messages s)"
  using assms
  by (auto simp: save_answer_def insert_message_def increment_message_count_def uuid_or_raise_def draw_uuid4_def
      bind_def io_simps)

text \<open>The cutoff compares it with the beginning of a message's transaction, not with the
  time it is saved. An answer that was begun before the conversation was shared and is saved after
  it is published, although its owner did not see it when sharing.\<close>

theorem late_answer_published:
  assumes "create_or_refresh env lib wallet i account s = (s1, Inr (Some h))"
    and "save_answer env lib w i' content md started s2 = (s3, Inr k)"
    and "uuid_int i' = uuid_int i" and "started \<le> sh_up_to h" and "''superseded_at'' \<notin> fst ` set md"
  shows "\<exists>m. (k, m) \<in> set (published h (messages s3)) \<and> cm_role m = ''assistant'' \<and> cm_content m = content"
proof -
  have sid: "uuid_int i' = Some (sh_session h)" using created_share [OF assms(1)] assms(3) by simp
  let ?m = "\<lparr>cm_session = sh_session h, cm_wallet = w, cm_role = ''assistant'',
      cm_content = content, cm_metadata = md, cm_created_at = started, cm_updated_at = started\<rparr>"
  have "(k, ?m) \<in> set (messages s3)" unfolding saved_message [OF assms(2) sid] by (rule row_of_in) simp
  moreover have "map_of md ''superseded_at'' = None" using assms(5) by (simp add: map_of_eq_None_iff)
  ultimately have "(k, ?m) \<in> set (published h (messages s3))"
    using assms(4) by (simp add: published_def oldest_first_def in_rows_where superseded_def meta_get_def)
  then show ?thesis by (intro exI [of _ ?m]) simp
qed

theorem share_is_frozen_witness:
  "said ` set (published (one_share\<lparr>sh_views := 1, sh_updated_at := 40\<rparr>) (messages (run_chat (chat_env 40) chat_lib
       [\<lparr>ca_wallet = ''w'', ca_account = None, ca_request = Finish_Turn one_id ''secret'' [] 30 0 0 0\<rparr>,
        \<lparr>ca_wallet = ''v'', ca_account = None, ca_request = View_Share ''tok''\<rparr>] shared_chat)))
     \<subseteq> {(3, ''user'', ''hello'', 10)}"
proof -
  let ?cs = "[\<lparr>ca_wallet = ''w'', ca_account = None, ca_request = Finish_Turn one_id ''secret'' [] 30 0 0 0\<rparr>,
        \<lparr>ca_wallet = ''v'', ca_account = None, ca_request = View_Share ''tok''\<rparr>]"
  have "share_by_token ''tok'' (shares shared_chat) = Some (7, one_share)" by code_simp
  moreover have "\<forall>x\<in>set (shares shared_chat). sh_token (snd x) = ''tok'' \<longrightarrow> x = (7, one_share)"
    by (simp add: shared_chat_def)
  moreover have "\<forall>n\<ge>looks shared_chat. random_token chat_lib n \<noteq> ''tok''" by (simp add: chat_lib_def)
  moreover have "list_all (after_cutoff (sh_session one_share) (sh_up_to one_share)) ?cs"
    by (simp add: after_cutoff_def one_share_def)
  moreover have "share_by_token ''tok'' (shares (run_chat (chat_env 40) chat_lib ?cs shared_chat)) =
      Some (7, one_share\<lparr>sh_views := 1, sh_updated_at := 40\<rparr>)"
    by (simp add: handle_chat_def serve_chat_def streams_def in_transaction_def finish_turn_def save_answer_def
        account_turn_def one_uuid or_not_found_def insert_message_def note_message_def uuid_or_raise_def draw_uuid4_def increment_message_count_def public_share_route_def resolve_public_def
        share_by_token_def rows_where_def row_of_def put_row_def char_count_def continues_def update_where_def
        bind_def io_simps utc_now_def chat_env_def chat_lib_def one_session_def one_share_def shared_chat_def)
  ultimately have "said ` set (published (one_share\<lparr>sh_views := 1, sh_updated_at := 40\<rparr>)
      (messages (run_chat (chat_env 40) chat_lib ?cs shared_chat))) \<subseteq>
      said ` set (published one_share (messages shared_chat))"
    using share_is_frozen by blast
  moreover have "said ` set (published one_share (messages shared_chat)) = {(3, ''user'', ''hello'', 10)}"
    by code_simp
  ultimately show ?thesis by simp
qed

theorem revoked_token_dead_witness:
  "snd (resolve_public (chat_env 40) ''tok'' (run_chat (chat_env 40) chat_lib
     [\<lparr>ca_wallet = ''w'', ca_account = None, ca_request = Share_Chat one_id\<rparr>]
     (shared_chat\<lparr>shares := []\<rparr>))) = Inr None"
proof -
  have "revoke ''w'' one_id None shared_chat = (shared_chat\<lparr>shares := []\<rparr>, Inr True)" by code_simp
  moreover note one_uuid
  moreover have "\<forall>x\<in>set (shares shared_chat). sh_token (snd x) = ''tok'' \<longrightarrow> sh_session (snd x) = 1"
    by (simp add: shared_chat_def one_share_def)
  moreover have "\<forall>n\<ge>looks shared_chat. random_token chat_lib n \<noteq> ''tok''" by (simp add: chat_lib_def)
  ultimately show ?thesis by (rule revoked_token_dead)
qed

theorem deleted_session_stays_public_witness:
  "\<exists>s1. delete_session (chat_env 40) ''w'' one_id None shared_chat = (s1, Inr True) \<and>
     snd (resolve_public (chat_env 40) ''tok'' s1) = snd (resolve_public (chat_env 40) ''tok'' shared_chat) \<and>
     (\<forall>w a. revoke w one_id a s1 = (s1, Inr False))"
proof -
  obtain s1 where s1: "delete_session (chat_env 40) ''w'' one_id None shared_chat = (s1, Inr True)"
  proof -
    have "snd (delete_session (chat_env 40) ''w'' one_id None shared_chat) = Inr True" by code_simp
    then show thesis using that by (metis prod.collapse)
  qed
  note one_uuid
  moreover have "keyed (sessions shared_chat)" by code_simp
  moreover have "(7, one_share) \<in> set (shares shared_chat)" by (simp add: shared_chat_def)
  moreover have "sh_session one_share = 1" by (simp add: one_share_def)
  ultimately show ?thesis using deleted_session_stays_public [OF s1] s1 by blast
qed

theorem late_answer_published_witness:
  "\<exists>s1 h s2 k. create_or_refresh (chat_env 20) chat_lib ''w'' one_id None unshared_chat = (s1, Inr (Some h)) \<and>
     save_answer (chat_env 20) chat_lib ''w'' one_id ''secret'' [] 15 s1 = (s2, Inr k) \<and>
     (\<exists>m. (k, m) \<in> set (published h (messages s2)) \<and> cm_content m = ''secret'')"
proof -
  let ?c = "create_or_refresh (chat_env 20) chat_lib ''w'' one_id None unshared_chat"
  have "map_sum id (map_option sh_up_to) (snd ?c) = Inr (Some 20)" by code_simp
  then obtain s1 h where s1: "?c = (s1, Inr (Some h))" and h: "sh_up_to h = 20"
    by (cases ?c) (auto simp: map_sum_def split: sum.splits)
  let ?t = "save_answer (chat_env 20) chat_lib ''w'' one_id ''secret'' [] 15 (fst ?c)"
  have "isl (snd ?t) = False" by code_simp
  then obtain s2 k where s2: "save_answer (chat_env 20) chat_lib ''w'' one_id ''secret'' [] 15 s1 = (s2, Inr k)"
    using s1 by (metis fst_conv prod.collapse sum.collapse(2))
  show ?thesis using s1 s2 h late_answer_published [OF s1 s2 refl] by auto
qed

end
