(* ===== verification/Session_Pages.thy ===== *)
theory Session_Pages
  imports Share_Snapshots
begin

text \<open>
  Reading and changing a conversation are allowed to the same requests, and the pages of the list
  of conversations, fetched one after the other by their cursors, make up the list: each
  conversation once, newest first.
\<close>

section \<open>Access\<close>

lemma hits_found:
  assumes "keyed t"
  shows "rows_where (can_access wallet account sid) t \<noteq> [] \<longleftrightarrow>
    (case row_of t sid of None \<Rightarrow> False | Some r \<Rightarrow> can_access wallet account sid sid r)"
proof -
  have "rows_where (can_access wallet account sid) t \<noteq> [] \<longleftrightarrow>
      (\<exists>r. row_of t sid = Some r \<and> can_access wallet account sid sid r)"
    using row_of_rows_where [OF assms, of sid "can_access wallet account sid"]
    by (force simp: rows_where_def can_access_def filter_empty_conv)
  then show ?thesis by (simp split: option.split)
qed

lemma update_answer:
  assumes "keyed (sessions s)"
  shows "snd (update_session env wallet i account f s) = Inr (find_session wallet account i (sessions s) \<noteq> None)"
  using hits_found [OF assms]
  by (auto simp: update_session_def find_session_def bind_def io_simps split: option.split)

text \<open>C29: reading and changing never diverge. A conversation that a request may open is one it may
  rename, pin, delete and share, and the other way round, whatever the wallet, the account and the
  identifier in the request.\<close>

theorem access_never_diverges:
  assumes "keyed (sessions s)"
  shows "snd (update_title env wallet i t account s) = Inr (find_session wallet account i (sessions s) \<noteq> None) \<and>
    snd (set_pinned env wallet i b account s) = Inr (find_session wallet account i (sessions s) \<noteq> None) \<and>
    snd (delete_session env wallet i account s) = Inr (find_session wallet account i (sessions s) \<noteq> None) \<and>
    (snd (create_or_refresh env lib wallet i account s) = Inr None \<longleftrightarrow> find_session wallet account i (sessions s) = None)"
  unfolding update_title_def set_pinned_def delete_session_def update_answer [OF assms]
  by (auto simp: create_or_refresh_def get_chat_session_def bind_def io_simps draw_uuid4_def draw_token_def
      split: option.split)

theorem access_never_diverges_witness:
  "snd (delete_session (chat_env 40) ''w'' one_id None shared_chat) = Inr True \<and>
   snd (delete_session (chat_env 40) ''v'' one_id None shared_chat) = Inr False"
proof -
  have k: "keyed (sessions shared_chat)" by code_simp
  have "find_session ''w'' None one_id (sessions shared_chat) \<noteq> None" by code_simp
  moreover have "find_session ''v'' None one_id (sessions shared_chat) = None" by code_simp
  ultimately show ?thesis using access_never_diverges [OF k] by simp
qed

section \<open>Pages\<close>

text \<open>A client that follows the cursors; \<open>None\<close> when it is not at the end after that many pages.\<close>

fun walk_pages ::
  "nat \<Rightarrow> string \<Rightarrow> string option \<Rightarrow> nat \<Rightarrow> string option \<Rightarrow> (int, chat_session) table
    \<Rightarrow> (int \<times> chat_session) list option" where
  "walk_pages 0 wallet account limit cursor t = None"
| "walk_pages (Suc n) wallet account limit cursor t =
     (case read_cursor cursor of
        Inl e \<Rightarrow> None
      | Inr before \<Rightarrow>
          (case page_of wallet account before limit t of (page, has_more, cursor') \<Rightarrow>
             if has_more then map_option (\<lambda>rest. page @ rest) (walk_pages n wallet account limit cursor' t)
             else Some page))"

definition visible :: "string \<Rightarrow> string option \<Rightarrow> (int, chat_session) table \<Rightarrow> (int \<times> chat_session) list" where
  "visible wallet account t = newest_first (rows_where (\<lambda>_ s. owner_where wallet account s \<and> \<not> cs_deleted s) t)"

definition older :: "usec option \<Rightarrow> int \<times> chat_session \<Rightarrow> bool" where
  "older before x \<longleftrightarrow> (case before of None \<Rightarrow> True | Some b \<Rightarrow> cs_updated_at (snd x) < b)"

lemma page_visible:
  "page_of wallet account before limit t =
     (let rows = filter (older before) (visible wallet account t)
      in (take limit rows, limit < length rows,
          if limit < length rows \<and> limit \<noteq> 0 then Some (iso_text (cs_updated_at (snd (rows ! (limit - 1))))) else None))"
proof -
  have "newest_first (rows_where (\<lambda>_ s. owner_where wallet account s \<and> \<not> cs_deleted s \<and>
            (case before of None \<Rightarrow> True | Some b \<Rightarrow> cs_updated_at s < b)) t) = filter (older before) (visible wallet account t)"
    unfolding visible_def newest_first_def filter_sort rows_where_def older_def
    by (rule arg_cong [where f = "sort_key _"]) (auto simp: case_prod_unfold conj_assoc split: option.split)
  then show ?thesis
    by (auto simp: page_of_def Let_def min_def last_conv_nth)
qed

lemma filter_below:
  assumes "sorted_wrt (\<lambda>x y. f y < (f x :: int)) xs" "0 < n" "n < length xs"
  shows "filter (\<lambda>x. f x < f (xs ! (n - 1))) xs = drop n xs"
  using assms
proof (induction xs arbitrary: n)
  case (Cons x xs)
  show ?case
  proof (cases "n = 1")
    case True
    then show ?thesis using Cons.prems(1) by (auto simp: filter_id_conv)
  next
    case False
    then have n: "0 < n - 1" "n - 1 < length xs" "(x # xs) ! (n - 1) = xs ! (n - 1 - 1)"
      using Cons.prems(2,3) by (auto simp: nth_Cons')
    have "f (xs ! (n - 1 - 1)) < f x" using Cons.prems(1) n(2) by simp
    then have "filter (\<lambda>y. f y < f ((x # xs) ! (n - 1))) (x # xs) = filter (\<lambda>y. f y < f (xs ! (n - 1 - 1))) xs"
      unfolding n(3) by simp
    also have "\<dots> = drop (n - 1) xs" using Cons.IH [of "n - 1"] Cons.prems(1) n(1,2) by simp
    also have "\<dots> = drop n (x # xs)" using n(1) by (simp add: drop_Cons')
    finally show ?thesis .
  qed
qed simp

lemma visible_sorted:
  assumes "distinct (map (\<lambda>x. cs_updated_at (snd x)) (visible wallet account t))"
  shows "sorted_wrt (\<lambda>x y. cs_updated_at (snd y) < cs_updated_at (snd x)) (visible wallet account t)"
proof -
  let ?f = "\<lambda>x. - cs_updated_at (snd x)" and ?xs = "visible wallet account t"
  have "sorted (map ?f ?xs)" by (simp add: visible_def newest_first_def)
  moreover have "distinct (map ?f ?xs)" using assms by (simp add: distinct_map inj_on_def)
  ultimately have "sorted_wrt (<) (map ?f ?xs)" by (simp add: strict_sorted_iff)
  then show ?thesis by (simp add: sorted_wrt_map)
qed

lemma iso_text_not_empty: "iso_text t \<noteq> []"
  by (simp add: iso_text_def)

lemma walk_from:
  assumes "sorted_wrt (\<lambda>x y. cs_updated_at (snd y) < cs_updated_at (snd x)) (visible wallet account t)"
    and "\<forall>x\<in>set (visible wallet account t). in_text_range (cs_updated_at (snd x))"
    and "0 < limit" and "read_cursor cursor = Inr before"
    and "length (filter (older before) (visible wallet account t)) < n"
  shows "walk_pages n wallet account limit cursor t = Some (filter (older before) (visible wallet account t))"
  using assms(4,5)
proof (induction n arbitrary: cursor before)
  case (Suc n)
  let ?v = "visible wallet account t" and ?u = "\<lambda>x. cs_updated_at (snd x)"
  let ?rows = "filter (older before) ?v"
  show ?case
  proof (cases "limit < length ?rows")
    case False
    then show ?thesis using Suc.prems(1) by (simp add: page_visible Let_def)
  next
    case True
    let ?b = "?u (?rows ! (limit - 1))"
    have member: "?rows ! (limit - 1) \<in> set ?rows" using True by (intro nth_mem) simp
    then have "in_text_range ?b" using assms(2) by simp
    then have cursor: "read_cursor (Some (iso_text ?b)) = Inr (Some ?b)"
      by (simp add: read_cursor_def or_text_opt_def iso_text_not_empty read_iso_text)
    have "filter (older (Some ?b)) ?v = filter (\<lambda>x. ?u x < ?b) ?rows"
      using member by (auto simp: older_def intro!: filter_cong split: option.splits)
    also have "\<dots> = drop limit ?rows"
      using filter_below [OF sorted_wrt_filter [OF assms(1)] assms(3) True] .
    finally have rest: "filter (older (Some ?b)) ?v = drop limit ?rows" .
    have "walk_pages n wallet account limit (Some (iso_text ?b)) t = Some (drop limit ?rows)"
      using Suc.IH [OF cursor] Suc.prems(2) assms(3) True unfolding rest by simp
    then show ?thesis using Suc.prems(1) True assms(3) by (simp add: page_visible Let_def)
  qed
qed simp


lemma example_range: "in_text_range 10" "in_text_range 11"
  by (code_simp)+


lemma walk_within:
  assumes "\<forall>x\<in>set (visible wallet account t). in_text_range (cs_updated_at (snd x))"
    and "0 < limit" and "read_cursor cursor = Inr before"
    and "walk_pages n wallet account limit cursor t = Some ys"
  shows "set ys \<subseteq> set (filter (older before) (visible wallet account t))"
  using assms(3,4)
proof (induction n arbitrary: cursor before ys)
  case (Suc n)
  let ?v = "visible wallet account t" and ?u = "\<lambda>x. cs_updated_at (snd x)"
  let ?rows = "filter (older before) ?v"
  show ?case
  proof (cases "limit < length ?rows")
    case False
    then show ?thesis using Suc.prems by (simp add: page_visible Let_def)
  next
    case True
    let ?b = "?u (?rows ! (limit - 1))"
    have member: "?rows ! (limit - 1) \<in> set ?rows" using True by (intro nth_mem) simp
    then have cursor: "read_cursor (Some (iso_text ?b)) = Inr (Some ?b)"
      using assms(1) by (simp add: read_cursor_def or_text_opt_def iso_text_not_empty read_iso_text)
    obtain rest where rest: "walk_pages n wallet account limit (Some (iso_text ?b)) t = Some rest"
      and ys: "ys = take limit ?rows @ rest"
      using Suc.prems True assms(2) by (auto simp: page_visible Let_def)
    have "set rest \<subseteq> set (filter (older (Some ?b)) ?v)" by (rule Suc.IH [OF cursor rest])
    also have "\<dots> \<subseteq> set ?rows" using member by (auto simp: older_def split: option.splits)
    finally show ?thesis unfolding ys using set_take_subset [of limit ?rows] by auto
  qed
qed simp

text \<open>The cursor is a strict bound on the time alone. When the last conversation of the first
  page and the one after it have the same time of change, a client that follows the cursors never
  reads the second of them.\<close>

theorem equal_times_skipped:
  assumes "keyed t" and "\<forall>x\<in>set (visible wallet account t). in_text_range (cs_updated_at (snd x))"
    and "0 < limit" and "limit < length (visible wallet account t)"
    and "cs_updated_at (snd (visible wallet account t ! (limit - 1))) = cs_updated_at (snd (visible wallet account t ! limit))"
    and "walk_pages n wallet account limit None t = Some ys"
  shows "visible wallet account t ! limit \<notin> set ys"
proof -
  let ?v = "visible wallet account t" and ?u = "\<lambda>x. cs_updated_at (snd x)"
  let ?b = "?u (?v ! (limit - 1))"
  have all: "filter (older None) ?v = ?v" by (simp add: older_def)
  obtain m where n: "n = Suc m" using assms(6) by (cases n) auto
  have member: "?v ! (limit - 1) \<in> set ?v" using assms(4) by (intro nth_mem) simp
  then have cursor: "read_cursor (Some (iso_text ?b)) = Inr (Some ?b)"
    using assms(2) by (simp add: read_cursor_def or_text_opt_def iso_text_not_empty read_iso_text)
  obtain rest where rest: "walk_pages m wallet account limit (Some (iso_text ?b)) t = Some rest"
    and ys: "ys = take limit ?v @ rest"
    using assms(3,4,6) by (auto simp: n read_cursor_def or_text_opt_def page_visible Let_def all)
  have "?v ! limit \<notin> set rest"
    using walk_within [OF assms(2,3) cursor rest] assms(5) by (auto simp: older_def)
  moreover have "distinct ?v"
    using assms(1) by (auto simp: visible_def newest_first_def rows_where_def keyed_def distinct_map)
  then have "?v ! limit \<notin> set (take limit ?v)"
    using assms(4) by (auto simp: in_set_conv_nth nth_eq_iff_index_eq)
  ultimately show ?thesis unfolding ys by simp
qed

theorem equal_times_skipped_witness:
  "\<not> (\<exists>n. walk_pages n ''w'' None 1 None [(1, one_session), (2, one_session)] = Some [(1, one_session), (2, one_session)])"
proof -
  let ?t = "[(1, one_session), (2, one_session)] :: (int, chat_session) table"
  have v: "visible ''w'' None ?t = ?t"
    by (simp add: visible_def newest_first_def rows_where_def owner_where_def coerce_account_def one_session_def)
  have "(2, one_session) \<notin> set ys" if "walk_pages n ''w'' None 1 None ?t = Some ys" for n ys
    using equal_times_skipped [of ?t "''w''" None 1 n ys] that unfolding v
    by (simp add: one_session_def example_range keyed_def)
  then show ?thesis by force
qed

end
