(* ===== verification/Turn_Gates.thy ===== *)
theory Turn_Gates
  imports Share_Snapshots
begin

text \<open>
  What the gates of a turn guarantee, and where they are gone around: a streamed turn is stored only
  within every cap and is counted once; an edit that a gate refuses has already taken the messages
  away; the endpoint that does not stream asks no gate.
\<close>

section \<open>Asking the caps\<close>

lemma calm_looks: "calm env \<Longrightarrow> usage_of env (s\<lparr>looks := n\<rparr>) = usage_of env s"
  by (simp add: usage_of_def fun_eq_iff calm_now [of env "s\<lparr>looks := n\<rparr>" s])

definition keys_below ::
  "outside \<Rightarrow> 'z cache_state_scheme \<Rightarrow> (cap_unit \<times> period \<times> string \<times> int \<times> string) list \<Rightarrow> bool" where
  "keys_below env s xs \<longleftrightarrow>
     list_all (\<lambda>(u, p, key, cap, resets). 0 < cap \<longrightarrow> counter_at (redis_store s) key (utc_now env s) < cap) xs"

definition caps_below :: "outside \<Rightarrow> 'z cache_state_scheme \<Rightarrow> string \<Rightarrow> int option \<Rightarrow> bool" where
  "caps_below env s wallet tier \<longleftrightarrow>
     list_all (\<lambda>(u, p, cap). 0 < cap \<longrightarrow> usage_of env s u p wallet < cap) (cap_checks env tier)"

lemma first_exceeded_calm:
  assumes "calm env" "cache_connected s"
  shows "\<exists>n x. first_exceeded env wallet xs s = (s\<lparr>looks := n\<rparr>, Inr x) \<and> (x = None \<longleftrightarrow> keys_below env s xs)"
  using assms(2)
proof (induction xs arbitrary: s)
  case Nil
  show ?case by (intro exI [of _ "looks s"]) (simp add: io_simps keys_below_def)
next
  case (Cons y ys)
  obtain u p key cap resets where y: "y = (u, p, key, cap, resets)" by (cases y) auto
  let ?used = "counter_at (redis_store s) key (utc_now env s)" and ?s = "s\<lparr>looks := looks s + 1\<rparr>"
  have now: "utc_now env (s\<lparr>looks := n\<rparr>) = utc_now env s" for n using assms(1) by (rule calm_now) simp
  have read: "read_int env key s = (?s, Inr ?used)" by (rule read_int_calm [OF assms(1) Cons.prems])
  have rest: "\<exists>n x. first_exceeded env wallet ys ?s = (s\<lparr>looks := n\<rparr>, Inr x) \<and> (x = None \<longleftrightarrow> keys_below env s ys)"
    using Cons.IH [of ?s] Cons.prems by (simp add: now keys_below_def)
  have split: "keys_below env s (y # ys) \<longleftrightarrow> (0 < cap \<longrightarrow> ?used < cap) \<and> keys_below env s ys"
    by (simp add: y keys_below_def)
  show ?case
  proof (cases "cap \<le> 0")
    case True
    then show ?thesis using Cons.IH [OF Cons.prems] unfolding split by (simp add: y)
  next
    case cap: False
    show ?thesis
    proof (cases "?used \<ge> cap")
      case True
      then show ?thesis using cap unfolding split by (intro exI [of _ "looks s + 1"]) (simp add: y read io_simps)
    next
      case False
      then show ?thesis using rest cap unfolding split by (simp add: y read io_simps)
    qed
  qed
qed

definition resolved :: "outside \<Rightarrow> string \<Rightarrow> 'z cache_state_scheme \<Rightarrow> cap_unit \<times> period \<times> int
    \<Rightarrow> cap_unit \<times> period \<times> string \<times> int \<times> string" where
  "resolved env wallet s x = (case x of (u, p, cap) \<Rightarrow>
     (u, p, usage_key u p wallet (utc_now env s), cap, midnight (next_reset p (utc_now env s))))"

lemma resolve_all: "for_each (resolve_check env wallet) xs s = (s, Inr (map (resolved env wallet s) xs))"
  by (induction xs) (auto simp: resolve_check_def resolved_def bind_def io_simps split: prod.split)

lemma below_resolved: "keys_below env s (map (resolved env wallet s) (cap_checks env tier)) \<longleftrightarrow> caps_below env s wallet tier"
  unfolding keys_below_def caps_below_def list.pred_map comp_def
  by (rule list.pred_cong) (auto simp: resolved_def usage_of_def split: prod.split)

lemma assert_calm:
  assumes "calm env" "cache_connected s" "wallet \<noteq> []"
  shows "\<exists>n x. assert_under_cap env wallet tier s = (s\<lparr>looks := n\<rparr>, Inr x) \<and> (x = None \<longleftrightarrow> caps_below env s wallet tier)"
  using first_exceeded_calm [OF assms(1,2), of wallet "map (resolved env wallet s) (cap_checks env tier)"] assms(3)
  unfolding below_resolved by (simp add: assert_under_cap_def bind_def resolve_all)

lemma record_calm:
  fixes s :: "'z chat_db_scheme"
  assumes "calm env" "cache_connected s" "wallet \<noteq> []"
  obtains s' where "record_message env wallet s = (s', Inr ())"
    and "usage_of env s' = add_usage Messages wallet 1 (usage_of env s)"
    and "sessions s' = sessions s" "messages s' = messages s" "shares s' = shares s" "slept s' = slept s"
proof -
  obtain s' where 1: "record_usage env Messages wallet 1 s = (s', Inr ())" "slept s' = slept s"
    "usage_of env s' = add_usage Messages wallet 1 (usage_of env s)"
    using record_usage_calm [OF assms(1,2)] by blast
  then have r: "record_message env wallet s = (s', Inr ())" by (simp add: record_unfold(1) [OF assms(3)])
  have "same_cache_more s s'" using obeysD [OF cached_usage(1) TrueI r] by simp
  then have "sessions s' = sessions s" "messages s' = messages s" "shares s' = shares s"
    by (cases s; cases s'; simp add: same_cache_more_def)+
  then show thesis using that r 1 by blast
qed

lemma usage_chat:
  "usage_of env (s\<lparr>sessions := a\<rparr>) = usage_of env s" "usage_of env (s\<lparr>messages := b\<rparr>) = usage_of env s"
  by (simp_all add: usage_of_def fun_eq_iff utc_now_def)

section \<open>A stored turn\<close>

definition within_caps :: "outside \<Rightarrow> chat_random \<Rightarrow> string \<Rightarrow> 'z chat_db_scheme \<Rightarrow> int \<Rightarrow> bool" where
  "within_caps env lib wallet s sid \<longleftrightarrow>
     lock_of (row_of (sessions s) sid) = None \<and>
     chat_cap_check env (messages_of (row_of (sessions s) sid)) (tokens_of (row_of (sessions s) sid)) = None \<and>
     caps_below env s wallet (tier_cap lib wallet)"

lemma turn_stored:
  assumes "calm env" "cache_connected s" "wallet \<noteq> []" "uuid_int i = Some sid" "within_caps env lib wallet s sid"
  shows "\<exists>s' k. open_turn env lib wallet i content md started s = (s', Inr (Turn_Stored k)) \<and>
    messages s' = put_row k \<lparr>cm_session = sid, cm_wallet = wallet, cm_role = ''user'', cm_content = content,
      cm_metadata = md, cm_created_at = started, cm_updated_at = started\<rparr> (messages s) \<and>
    usage_of env s' = add_usage Messages wallet 1 (usage_of env s)"
proof -
  let ?row = "row_of (sessions s) sid"
  obtain n where a: "assert_under_cap env wallet (tier_cap lib wallet) s = (s\<lparr>looks := n\<rparr>, Inr None)"
    using assert_calm [OF assms(1-3), of "tier_cap lib wallet"] assms(5) unfolding within_caps_def by metis
  obtain t where t: "record_message env wallet (s\<lparr>looks := n\<rparr>) = (t, Inr ())"
    "usage_of env t = add_usage Messages wallet 1 (usage_of env (s\<lparr>looks := n\<rparr>))" "messages t = messages s"
    by (rule record_calm [OF assms(1) _ assms(3), of "s\<lparr>looks := n\<rparr>"]) (use assms(2) in auto)
  have gate: "lock_of ?row = None" "chat_cap_check env (messages_of ?row) (tokens_of ?row) = None"
    using assms(5) unfolding within_caps_def by blast+
  have "usage_of env t = add_usage Messages wallet 1 (usage_of env s)"
    using t(2) unfolding calm_looks [OF assms(1)] .
  then show ?thesis
    using assms(4) gate a t(1,3)
    by (simp add: open_turn_def uuid_or_raise_def insert_message_def increment_message_count_def
        draw_uuid4_def bind_def io_simps usage_chat calm_looks [OF assms(1)])
qed

lemma turn_refused:
  assumes "calm env" "cache_connected s" "wallet \<noteq> []" "uuid_int i = Some sid" "\<not> within_caps env lib wallet s sid"
  shows "\<exists>s' g. open_turn env lib wallet i content md started s = (s', Inr g) \<and> (\<forall>k. g \<noteq> Turn_Stored k) \<and>
    messages s' = messages s \<and> usage_of env s' = usage_of env s"
proof -
  let ?row = "row_of (sessions s) sid"
  obtain n x where a: "assert_under_cap env wallet (tier_cap lib wallet) s = (s\<lparr>looks := n\<rparr>, Inr x)"
    and x: "x = None \<longleftrightarrow> caps_below env s wallet (tier_cap lib wallet)"
    using assert_calm [OF assms(1-3)] by blast
  note steps = open_turn_def uuid_or_raise_def lock_session_def bind_def io_simps usage_chat calm_looks [OF assms(1)]
  show ?thesis
  proof (cases "lock_of ?row")
    case (Some reason)
    then show ?thesis using assms(4) by (simp add: steps)
  next
    case unlocked: None
    show ?thesis
    proof (cases "chat_cap_check env (messages_of ?row) (tokens_of ?row)")
      case (Some e)
      then show ?thesis using unlocked assms(4) by (simp add: steps)
    next
      case None
      then have "x \<noteq> None" using assms(5) unlocked unfolding within_caps_def x by blast
      then show ?thesis using None unlocked assms(4) a by (auto simp: steps)
    qed
  qed
qed


section \<open>Around the gates\<close>

definition gate_refuses :: "outside \<Rightarrow> chat_session \<Rightarrow> bool" where
  "gate_refuses env r \<longleftrightarrow> cs_locked r \<or> chat_cap_check env (cs_messages r) (cs_tokens r) \<noteq> None"

lemma open_refused:
  assumes "uuid_int i = Some sid" "row_of (sessions s) sid = Some r" "gate_refuses env r"
  shows "\<exists>s' g. open_turn env lib wallet i content md started s = (s', Inr g) \<and> messages s' = messages s \<and>
    (\<forall>k. g \<noteq> Turn_Stored k) \<and> (cs_locked r \<longrightarrow> s' = s \<and> (\<exists>reason. g = Turn_Locked reason))"
  using assms
  by (auto simp: open_turn_def uuid_or_raise_def lock_of_def messages_of_def tokens_of_def gate_refuses_def
      lock_session_def bind_def io_simps split: option.split)

lemma in_update_where: "x \<in> set (update_where p f t) \<Longrightarrow> \<exists>k r. (k, r) \<in> set t \<and> x = (k, if p k r then f r else r)"
proof -
  assume "x \<in> set (update_where p f t)"
  then obtain y where "y \<in> set t" "x = (\<lambda>(k, r). (k, if p k r then f r else r)) y"
    unfolding update_where_def set_map by blast
  then show ?thesis by (intro exI [of _ "fst y"] exI [of _ "snd y"]) (simp add: case_prod_unfold)
qed

lemma keys_update_where: "map fst (update_where p f t) = map fst t"
  by (simp add: update_where_def case_prod_unfold)

lemma supersede_effect:
  assumes "supersede_tail env sid mid from stamp s = (s', r)" "stamp \<noteq> []"
  shows "sessions s' = sessions s \<and> map fst (messages s') = map fst (messages s) \<and>
    (\<forall>x\<in>set (messages s'). cm_session (snd x) = sid \<and> from \<le> cm_created_at (snd x) \<longrightarrow> superseded (snd x))"
proof -
  let ?p = "\<lambda>(_::int) m. cm_session m = sid \<and> from \<le> cm_created_at m \<and> \<not> superseded m"
  let ?f = "\<lambda>m. m\<lparr>cm_metadata := put_row ''superseded_by_edit_of'' (JStr (uuid_text mid))
      (put_row ''superseded_at'' (JStr stamp) (cm_metadata m)), cm_updated_at := utc_now env s\<rparr>"
  have s': "s' = s\<lparr>messages := update_where ?p ?f (messages s)\<rparr>"
    using assms(1) by (simp add: supersede_tail_def io_simps)
  have f: "superseded (?f m)" for m
    using assms(2) by (simp add: superseded_def meta_get_def row_of_def [symmetric])
  have "superseded (snd x)" if x: "x \<in> set (update_where ?p ?f (messages s))"
    and c: "cm_session (snd x) = sid" "from \<le> cm_created_at (snd x)" for x
  proof -
    obtain k m where "x = (k, if ?p k m then ?f m else m)" using in_update_where [OF x] by blast
    then show ?thesis using c f [of m] by (cases "?p k m") auto
  qed
  then show ?thesis by (simp add: s' keys_update_where)
qed

text \<open>C32: an edit in a conversation that takes no more turns destroys its end. The message and all that
  follow it are marked as superseded although the gate refuses the turn that is to replace them: no
  message is added, and nothing from the edited one on is left to see.\<close>

theorem edit_destroys_tail:
  assumes "find_session wallet account i (sessions s) = Some (sid, r)" and "gate_refuses env r"
    and "\<not> startswith i ''local:''" and "valid_content content"
    and "uuid_int target = Some mid" and "row_of (messages s) mid = Some m"
    and "cm_session m = sid" and "cm_role m = ''user''" and "\<not> superseded m"
  shows "\<exists>s' g. edit_message env lib wallet account i target content protocols started s = (s', Inr (turn_event g)) \<and>
    (\<forall>k. g \<noteq> Turn_Stored k) \<and> map fst (messages s') = map fst (messages s) \<and>
    (\<forall>x\<in>set (messages s'). cm_session (snd x) = sid \<and> cm_created_at m \<le> cm_created_at (snd x) \<longrightarrow> superseded (snd x))"
proof -
  have row: "uuid_int i = Some sid" "row_of (sessions s) sid = Some r"
    using find_session_id [OF assms(1)] by simp_all
  have t: "in_transaction (edit_target wallet account i target) s = (s, Inr (sid, mid, m))"
    using assms by (simp add: edit_target_def get_chat_session_def or_not_found_def in_transaction_def bind_def io_simps)
  let ?stamp = "iso_text (utc_now env s)"
  obtain s1 where s1: "supersede_tail env sid mid (cm_created_at m) ?stamp s = (s1, Inr ())"
    by (simp add: supersede_tail_def io_simps)
  have eff: "sessions s1 = sessions s" "map fst (messages s1) = map fst (messages s)"
    "\<forall>x\<in>set (messages s1). cm_session (snd x) = sid \<and> cm_created_at m \<le> cm_created_at (snd x) \<longrightarrow> superseded (snd x)"
    using supersede_effect [OF s1] by (simp_all add: iso_text_def)
  let ?md = "turn_metadata [] protocols [(''edited_at'', JStr ?stamp), (''edit_replaces'', JStr target)]"
  obtain s2 g where s2: "open_turn env lib wallet i (strip content) ?md started s1 = (s2, Inr g)"
    "messages s2 = messages s1" "\<forall>k. g \<noteq> Turn_Stored k"
    using open_refused [where s = s1, OF row(1) _ assms(2)] row(2) eff(1) by metis
  have "edit_message env lib wallet account i target content protocols started s = (s2, Inr (turn_event g))"
    using assms(4) t s1 s2(1)
    by (simp add: edit_message_def edit_stream_def in_transaction_def catch_all_def try_except_def bind_def io_simps)
  then show ?thesis using s2 eff by auto
qed

text \<open>A locked conversation goes on through the endpoint that does not stream. The stream refuses the
  turn and changes nothing; the other endpoint stores the message and the answer of the model, and
  counts neither against any cap.\<close>

theorem send_ignores_lock:
  assumes "find_session wallet account i (sessions s) = Some (sid, r)" and "cs_locked r"
    and "\<not> startswith i ''local:''" and "valid_content content"
  shows "(\<exists>reason. open_turn env lib wallet i content md started s = (s, Inr (Turn_Locked reason))) \<and>
    (\<exists>s' v. send_message env lib wallet account i content (Some reply) topic started s = (s', Inr v) \<and>
      redis_store s' = redis_store s \<and>
      row_of (messages s') (random_uuid lib (looks s + 1)) = Some \<lparr>cm_session = sid, cm_wallet = wallet,
        cm_role = ''assistant'', cm_content = reply, cm_metadata = [], cm_created_at = started, cm_updated_at = started\<rparr>)"
proof -
  have row: "uuid_int i = Some sid" "row_of (sessions s) sid = Some r"
    using find_session_id [OF assms(1)] by simp_all
  have "\<exists>reason. open_turn env lib wallet i content md started s = (s, Inr (Turn_Locked reason))"
    using open_refused [OF row, of env lib wallet content md started] assms(2) by (auto simp: gate_refuses_def)
  moreover have "\<exists>s' v. send_message env lib wallet account i content (Some reply) topic started s = (s', Inr v) \<and>
      redis_store s' = redis_store s \<and>
      row_of (messages s') (random_uuid lib (looks s + 1)) = Some \<lparr>cm_session = sid, cm_wallet = wallet,
        cm_role = ''assistant'', cm_content = reply, cm_metadata = [], cm_created_at = started, cm_updated_at = started\<rparr>"
    using assms row
    by (auto simp: send_message_def session_for_def checked_session_def get_chat_session_def or_not_found_def
        create_message_def insert_message_def increment_message_count_def uuid_or_raise_def draw_uuid4_def
        update_title_def update_session_def coerce_session_id_def bind_def io_simps split: option.split)
  ultimately show ?thesis by blast
qed

section \<open>Examples\<close>

definition locked_chat :: chat_db where
  "locked_chat = shared_chat\<lparr>sessions := [(1, one_session\<lparr>cs_locked := True\<rparr>)]\<rparr>"

definition three_id :: string where
  "three_id = ''00000000-0000-0000-0000-000000000003''"

lemma locked_found:
  "find_session ''w'' None one_id (sessions locked_chat) = Some (1, one_session\<lparr>cs_locked := True\<rparr>)"
  by code_simp

lemma three_uuid: "uuid_int three_id = Some 3"
  by code_simp

theorem edit_destroys_tail_witness:
  "\<exists>s' g. edit_message (chat_env 40) chat_lib ''w'' None one_id three_id ''again'' None 50 locked_chat = (s', Inr (turn_event g)) \<and>
     (\<forall>k. g \<noteq> Turn_Stored k) \<and> map fst (messages s') = [3] \<and> (\<forall>x\<in>set (messages s'). cm_session (snd x) = 1 \<and>
        10 \<le> cm_created_at (snd x) \<longrightarrow> superseded (snd x))"
proof -
  have 1: "gate_refuses (chat_env 40) (one_session\<lparr>cs_locked := True\<rparr>)" by (simp add: gate_refuses_def)
  have 2: "\<not> startswith one_id ''local:''" "valid_content ''again''" by code_simp+
  have 3: "row_of (messages locked_chat) 3 = Some one_message" "cm_session one_message = 1"
    "cm_role one_message = ''user''" "\<not> superseded one_message" by code_simp+
  have 4: "map fst (messages locked_chat) = [3]" "cm_created_at one_message = 10" by code_simp+
  show ?thesis using edit_destroys_tail [OF locked_found 1 2 three_uuid 3] unfolding 4 by blast
qed

theorem send_ignores_lock_witness:
  "\<exists>s' v. send_message (chat_env 40) chat_lib ''w'' None one_id ''more'' (Some ''sure'') None 50 locked_chat = (s', Inr v) \<and>
     row_of (messages s') 101 = Some \<lparr>cm_session = 1, cm_wallet = ''w'', cm_role = ''assistant'',
       cm_content = ''sure'', cm_metadata = [], cm_created_at = 50, cm_updated_at = 50\<rparr>"
proof -
  have 1: "cs_locked (one_session\<lparr>cs_locked := True\<rparr>)" by simp
  have 2: "\<not> startswith one_id ''local:''" "valid_content ''more''" by code_simp+
  have 3: "random_uuid chat_lib (looks locked_chat + 1) = 101" by code_simp
  show ?thesis using send_ignores_lock [OF locked_found 1 2, where env = "chat_env 40" and lib = chat_lib and reply = "''sure''"
        and topic = None and started = 50] unfolding 3 by blast
qed


end
