(* ===== verification/Usage_Ledger.thy ===== *)
theory Usage_Ledger
  imports Uuid_Text PyFloat World
begin

text \<open>
  The token ledger of the chat service, \<open>services/usage_ledger.py\<close>: one row per model call and a
  total per wallet, day and model. Both are written in one transaction of its own, whose failure is
  swallowed. Prices are decimals of the database read as floats; a cost is rounded to six places
  by its column. The second part is the sticky bucketing of \<open>services/experiments.py\<close>.
\<close>

section \<open>Tables\<close>

record model_price =
  mp_input :: rat
  mp_output :: rat
  mp_cached :: rat

record llm_event =
  le_wallet :: string
  le_session :: "int option"
  le_model :: string
  le_kind :: string
  le_prompt :: int
  le_completion :: int
  le_cached :: int
  le_total :: int
  le_cost :: "rat option"
  le_estimated :: bool
  le_created :: usec

record llm_day =
  ld_prompt :: int
  ld_completion :: int
  ld_cached :: int
  ld_requests :: int
  ld_cost :: rat
  ld_updated :: usec

type_synonym day_key = "string \<times> int \<times> string"

record ledger_db = world +
  prices :: "(string, model_price) table"
  llm_events :: "llm_event list"
  llm_days :: "(day_key, llm_day) table"

section \<open>Recording a call\<close>

definition REQUEST_KINDS :: "string list" where
  "REQUEST_KINDS = [''responder'', ''intent'', ''tool'', ''summary'', ''title'']"

text \<open>A \<open>NUMERIC\<close> column with six places rounds halves away from zero.\<close>

definition numeric6 :: "rat \<Rightarrow> rat" where
  "numeric6 x = sgn x * of_int \<lfloor>\<bar>x\<bar> * 10 ^ 6 + 1 / 2\<rfloor> / 10 ^ 6"

text \<open>The range of an \<open>INTEGER\<close> column, and what the columns of the two tables hold.\<close>

definition fits_int4 :: "int \<Rightarrow> bool" where
  "fits_int4 n \<longleftrightarrow> - (2 ^ 31) \<le> n \<and> n < 2 ^ 31"

definition event_fits :: "llm_event \<Rightarrow> bool" where
  "event_fits e \<longleftrightarrow>
     fits_int4 (le_prompt e) \<and> fits_int4 (le_completion e) \<and> fits_int4 (le_cached e) \<and> fits_int4 (le_total e) \<and>
     (case le_cost e of None \<Rightarrow> True | Some c \<Rightarrow> \<bar>c\<bar> < 10 ^ 6)"

definition day_fits :: "llm_day \<Rightarrow> bool" where
  "day_fits r \<longleftrightarrow>
     ld_prompt r < 2 ^ 63 \<and> ld_completion r < 2 ^ 63 \<and> ld_cached r < 2 ^ 63 \<and> ld_requests r < 2 ^ 63 \<and> \<bar>ld_cost r\<bar> < 10 ^ 8"

definition call_cost :: "model_price \<Rightarrow> int \<Rightarrow> int \<Rightarrow> int \<Rightarrow> rat" where
  "call_cost price prompt completion cached =
     fdiv (fadd (fadd (fmul (to_float prompt) (b64 (mp_input price))) (fmul (to_float completion) (b64 (mp_output price))))
        (fmul (to_float cached) (b64 (mp_cached price)))) 1000000"

definition session_uuid :: "string option \<Rightarrow> int option" where
  "session_uuid session_id =
     (case session_id of None \<Rightarrow> None | Some t \<Rightarrow> if t = [] then None else uuid_int t)"

definition new_event ::
  "string \<Rightarrow> string option \<Rightarrow> string \<Rightarrow> string \<Rightarrow> int \<Rightarrow> int \<Rightarrow> int \<Rightarrow> bool \<Rightarrow> model_price option \<Rightarrow> usec \<Rightarrow> llm_event" where
  "new_event wallet session_id model kind prompt completion cached estimated price now =
     \<lparr>le_wallet = wallet, le_session = session_uuid session_id, le_model = model, le_kind = kind,
      le_prompt = prompt, le_completion = completion, le_cached = cached, le_total = prompt + completion,
      le_cost = map_option (\<lambda>p. numeric6 (call_cost p prompt completion cached)) price,
      le_estimated = estimated, le_created = now\<rparr>"

definition add_to_day :: "llm_event \<Rightarrow> (day_key, llm_day) table \<Rightarrow> (day_key, llm_day) table" where
  "add_to_day e t =
     (let key = (le_wallet e, day_of (le_created e), le_model e);
          cost = (case le_cost e of None \<Rightarrow> 0 | Some c \<Rightarrow> c)
      in put_row key
        (case row_of t key of
           None \<Rightarrow> \<lparr>ld_prompt = le_prompt e, ld_completion = le_completion e, ld_cached = le_cached e,
                    ld_requests = 1, ld_cost = cost, ld_updated = le_created e\<rparr>
         | Some r \<Rightarrow> \<lparr>ld_prompt = ld_prompt r + le_prompt e, ld_completion = ld_completion r + le_completion e,
                      ld_cached = ld_cached r + le_cached e, ld_requests = ld_requests r + 1,
                      ld_cost = ld_cost r + cost, ld_updated = le_created e\<rparr>) t)"

definition record_llm_usage ::
  "outside \<Rightarrow> string \<Rightarrow> string option \<Rightarrow> string \<Rightarrow> string \<Rightarrow> int \<Rightarrow> int \<Rightarrow> int \<Rightarrow> bool \<Rightarrow> ('z ledger_db_scheme, unit) io" where
  "record_llm_usage env wallet session_id model kind prompt completion cached estimated =
     (let p = max 0 prompt; c = max 0 completion; k = max 0 cached in
      if p + c \<le> 0 \<or> wallet = [] then return ()
      else
        catch_all
          (bind (gets (\<lambda>s. new_event wallet session_id model kind p c k estimated (row_of (prices s) model) (utc_now env s))) (\<lambda>e.
             if \<not> event_fits e then throw DataError
             else if kind \<notin> set REQUEST_KINDS then throw IntegrityViolation
             else bind (gets (\<lambda>s. \<forall>r\<in>set (map snd (add_to_day e (llm_days s))). day_fits r)) (\<lambda>ok.
             if \<not> ok then throw DataError
             else modify (\<lambda>s. s\<lparr>llm_events := llm_events s @ [e], llm_days := add_to_day e (llm_days s)\<rparr>))))
          (\<lambda>e. return ()))"

section \<open>The daily rows are the sums of the calls\<close>

record llm_call =
  lc_wallet :: string
  lc_session :: "string option"
  lc_model :: string
  lc_kind :: string
  lc_prompt :: int
  lc_completion :: int
  lc_cached :: int
  lc_estimated :: bool

text \<open>Calls with the time slept before each.\<close>

fun record_calls :: "outside \<Rightarrow> (llm_call \<times> usec) list \<Rightarrow> 'z ledger_db_scheme \<Rightarrow> 'z ledger_db_scheme" where
  "record_calls env [] s = s"
| "record_calls env ((x, d) # xs) s =
     record_calls env xs (fst (record_llm_usage env (lc_wallet x) (lc_session x) (lc_model x) (lc_kind x) (lc_prompt x)
        (lc_completion x) (lc_cached x) (lc_estimated x) (fst (sleep d s))))"

definition of_day :: "day_key \<Rightarrow> llm_event \<Rightarrow> bool" where
  "of_day key e \<longleftrightarrow> key = (le_wallet e, day_of (le_created e), le_model e)"

definition cost_of :: "llm_event \<Rightarrow> rat" where
  "cost_of e = (case le_cost e of None \<Rightarrow> 0 | Some c \<Rightarrow> c)"

definition day_sums :: "day_key \<Rightarrow> llm_event list \<Rightarrow> (int \<times> int \<times> int \<times> int \<times> rat) option" where
  "day_sums key es =
     (let mine = filter (of_day key) es
      in if mine = [] then None
         else Some (sum_list (map le_prompt mine), sum_list (map le_completion mine), sum_list (map le_cached mine),
                    int (length mine), sum_list (map cost_of mine)))"

definition day_numbers :: "llm_day \<Rightarrow> int \<times> int \<times> int \<times> int \<times> rat" where
  "day_numbers r = (ld_prompt r, ld_completion r, ld_cached r, ld_requests r, ld_cost r)"

definition rolled_up :: "'z ledger_db_scheme \<Rightarrow> bool" where
  "rolled_up s \<longleftrightarrow> (\<forall>key. map_option day_numbers (row_of (llm_days s) key) = day_sums key (llm_events s))"

lemma day_sums_snoc:
  "day_sums key (es @ [e]) =
     (if of_day key e then
        Some (case day_sums key es of
            None \<Rightarrow> (le_prompt e, le_completion e, le_cached e, 1, cost_of e)
          | Some (p, c, k, n, x) \<Rightarrow> (p + le_prompt e, c + le_completion e, k + le_cached e, n + 1, x + cost_of e))
      else day_sums key es)"
  by (simp add: day_sums_def Let_def)

lemma add_to_day_numbers:
  assumes "\<forall>key. map_option day_numbers (row_of t key) = day_sums key es"
  shows "map_option day_numbers (row_of (add_to_day e t) key) = day_sums key (es @ [e])"
proof (cases "of_day key e")
  case True
  then show ?thesis
    using assms [rule_format, of key, symmetric]
    by (cases "row_of t key") (auto simp: add_to_day_def day_sums_snoc of_day_def day_numbers_def cost_of_def Let_def)
next
  case False
  then show ?thesis
    using assms [rule_format, of key] by (auto simp: add_to_day_def day_sums_snoc of_day_def Let_def)
qed

lemma record_rolled:
  "rolled_up s \<Longrightarrow> rolled_up (fst (record_llm_usage env w i m k p c h est s))"
  by (simp add: record_llm_usage_def rolled_up_def catch_all_def try_except_def bind_def io_simps Let_def
      add_to_day_numbers split: if_splits)

text \<open>C33: the daily rows refine the ledger of calls. After any calls, refused and failed ones included, the
  row of a wallet, day and model exists exactly when a call of that day is in the ledger, and its
  tokens, its number of requests and its cost are the exact sums over those calls, a call of unknown
  price counting nothing.\<close>

theorem daily_rows_are_sums:
  assumes "llm_events s = []" and "llm_days s = []"
  shows "map_option day_numbers (row_of (llm_days (record_calls env xs s)) key) =
    day_sums key (llm_events (record_calls env xs s))"
proof -
  have "rolled_up s" using assms by (simp add: rolled_up_def day_sums_def)
  then have "rolled_up (record_calls env xs s)"
  proof (induction xs arbitrary: s)
    case (Cons y ys)
    obtain x d where y: "y = (x, d)" by (cases y)
    have "rolled_up (fst (sleep d s))" using Cons.prems by (simp add: rolled_up_def sleep_def)
    then show ?case unfolding y record_calls.simps by (intro Cons.IH record_rolled)
  qed simp
  then show ?thesis unfolding rolled_up_def by blast
qed

section \<open>Experiments\<close>

definition EXPERIMENTS :: "(string \<times> (string \<times> int) list) list" where
  "EXPERIMENTS =
     [(''summarizer_model'', [(''control'', 100), (''treatment_haiku'', 0)]),
      (''validator_skip_lowcost'', [(''control'', 100), (''treatment_skip'', 0)]),
      (''price_robust_default'', [(''control'', 100), (''treatment_robust'', 0)])]"

text \<open>The first four bytes of the digest as a number; the digest is a parameter.\<close>

definition bucket :: "(string \<Rightarrow> string) \<Rightarrow> string \<Rightarrow> string \<Rightarrow> int" where
  "bucket sha256 wallet experiment =
     foldl (\<lambda>n c. n * 256 + int (code c)) 0 (take 4 (sha256 (wallet @ '':'' @ experiment))) mod 100"

fun pick :: "int \<Rightarrow> int \<Rightarrow> (string \<times> int) list \<Rightarrow> string" where
  "pick b cursor [] = ''control''"
| "pick b cursor ((v, w) # rest) = (if b < cursor + w then v else pick b (cursor + w) rest)"

definition variant_in ::
  "(string \<times> (string \<times> int) list) list \<Rightarrow> (string \<Rightarrow> string) \<Rightarrow> string option \<Rightarrow> string \<Rightarrow> string" where
  "variant_in experiments sha256 wallet experiment =
     (case wallet of
        None \<Rightarrow> ''control''
      | Some w \<Rightarrow>
          if w = [] then ''control''
          else case map_of experiments experiment of
              None \<Rightarrow> ''control''
            | Some config \<Rightarrow>
                if config = [] \<or> sum_list (map snd config) \<noteq> 100 then ''control''
                else pick (bucket sha256 w experiment) 0 config)"

definition variant :: "(string \<Rightarrow> string) \<Rightarrow> string option \<Rightarrow> string \<Rightarrow> string" where
  "variant = variant_in EXPERIMENTS"

definition is_variant :: "(string \<Rightarrow> string) \<Rightarrow> string option \<Rightarrow> string \<Rightarrow> string \<Rightarrow> bool" where
  "is_variant sha256 wallet experiment target \<longleftrightarrow> variant sha256 wallet experiment = target"

definition list_experiments :: "string list" where
  "list_experiments = map fst EXPERIMENTS"

lemma bucket_range: "0 \<le> bucket sha256 wallet experiment \<and> bucket sha256 wallet experiment < 100"
  by (simp add: bucket_def)

lemma pick_below:
  "\<lbrakk>\<forall>x\<in>set config. 0 \<le> snd x; v \<notin> fst ` set config; cursor \<le> b; b < cursor + sum_list (map snd config)\<rbrakk> \<Longrightarrow>
   pick b cursor config \<noteq> v"
proof (induction config arbitrary: cursor)
  case (Cons x xs)
  then show ?case using Cons.IH [of "cursor + snd x"] by (cases x) (auto simp: algebra_simps)
qed simp

lemma pick_shares:
  assumes "\<forall>x\<in>set config. 0 \<le> snd x" "distinct (map fst config)" "(v, w) \<in> set config"
  shows "card {b. cursor \<le> b \<and> b < cursor + sum_list (map snd config) \<and> pick b cursor config = v} = nat w"
  using assms
proof (induction config arbitrary: cursor)
  case (Cons x xs)
  obtain u n where x: "x = (u, n)" by (cases x)
  let ?all = "\<lambda>c ys. {b. c \<le> b \<and> b < c + sum_list (map snd ys) \<and> pick b c ys = v}"
  have n: "0 \<le> n" "0 \<le> sum_list (map snd xs)"
    using Cons.prems(1) by (auto simp: x intro!: sum_list_nonneg)
  show ?case
  proof (cases "u = v")
    case True
    then have w: "w = n" using Cons.prems(2,3) by (force simp: x)
    have "v \<notin> fst ` set xs" using Cons.prems(2) True by (simp add: x)
    then have "pick b (cursor + n) xs \<noteq> v" if "cursor + n \<le> b" "b < cursor + (n + sum_list (map snd xs))" for b
      using pick_below [of xs v "cursor + n" b] Cons.prems(1) that by (simp add: x algebra_simps)
    then have "?all cursor (x # xs) = {cursor ..< cursor + n}"
      using True n by (auto simp: x) (use leI in blast)+
    then show ?thesis using w by simp
  next
    case False
    have "?all cursor (x # xs) = ?all (cursor + n) xs"
      using False n by (auto simp: x algebra_simps)
    then show ?thesis using Cons.IH [of "cursor + n"] Cons.prems False by (auto simp: x)
  qed
qed simp

text \<open>An experiment splits the buckets as its weights say. With weights that are not negative and add
  up to 100, exactly as many of the hundred buckets go to a variant as its weight, and the variant
  of a wallet is the one of its bucket.\<close>

theorem variant_shares:
  assumes "map_of experiments experiment = Some config" and "sum_list (map snd config) = 100"
    and "\<forall>x\<in>set config. 0 \<le> snd x" and "distinct (map fst config)" and "(v, n) \<in> set config" and "w \<noteq> []"
  shows "card {b. 0 \<le> b \<and> b < 100 \<and> pick b 0 config = v} = nat n \<and>
    variant_in experiments sha256 (Some w) experiment = pick (bucket sha256 w experiment) 0 config"
  using pick_shares [OF assms(3-5), of 0] assms(1,2,5,6) by (auto simp: variant_in_def)

theorem variant_shares_witness:
  "card {b. 0 \<le> b \<and> b < 100 \<and> pick b 0 [(''control'', 90), (''treatment'', 10)] = ''treatment''} = 10"
  using variant_shares [of "[(''e'', [(''control'', 90), (''treatment'', 10)])]" "''e''"
      "[(''control'', 90), (''treatment'', 10)]" "''treatment''" 10 "''w''"] by simp

definition no_calls :: ledger_db where
  "no_calls = \<lparr>looks = 0, slept = 0, on_fallback = False, primary_stale = False, lag_checked_at = 0,
     prices = [], llm_events = [], llm_days = []\<rparr>"

theorem daily_rows_are_sums_witness:
  "\<forall>env. map_option day_numbers (row_of (llm_days (record_calls env
      [(\<lparr>lc_wallet = ''w'', lc_session = None, lc_model = ''m'', lc_kind = ''responder'', lc_prompt = 3,
         lc_completion = 4, lc_cached = 5, lc_estimated = False\<rparr>, 0)] no_calls)) (''w'', day_of (utc env 0), ''m'')) =
   Some (3, 4, 5, 1, 0)"
proof
  fix env :: outside
  let ?xs = "[(\<lparr>lc_wallet = ''w'', lc_session = None, lc_model = ''m'', lc_kind = ''responder'', lc_prompt = 3,
         lc_completion = 4, lc_cached = 5, lc_estimated = False\<rparr>, 0)]"
  let ?key = "(''w'', day_of (utc env 0), ''m'')"
  have "day_sums ?key (llm_events (record_calls env ?xs no_calls)) = Some (3, 4, 5, 1, 0)"
    by (simp add: day_sums_def of_day_def cost_of_def record_llm_usage_def no_calls_def sleep_def catch_all_def
        try_except_def bind_def io_simps fits_int4_def REQUEST_KINDS_def new_event_def utc_now_def
        event_fits_def day_fits_def add_to_day_def put_row_def row_of_def has_row_def)
  then show "map_option day_numbers (row_of (llm_days (record_calls env ?xs no_calls)) ?key) = Some (3, 4, 5, 1, 0)"
    using daily_rows_are_sums [of no_calls env ?xs ?key] by (simp add: no_calls_def)
qed

end
