(* ===== verification/Float_Values.thy ===== *)
theory Float_Values
  imports PyFloat
begin

text \<open>
  Evaluating a rounding to binary64 at a given rational, where the exponent is given and the digits
  compute, and Python's sum of floats.
\<close>

lemma b64_value:
  assumes "1 \<le> x * 2 ^ e" "x * 2 ^ e < 2"
  shows "b64 x = of_int (round_half_even (x * 2 ^ (52 + e))) / 2 ^ (52 + e)"
proof -
  let ?e = "- int e"
  have u: "(2 :: rat) powi (?e - 52) = 1 / 2 ^ (52 + e)"
    by (simp add: power_int_diff power_int_minus power_add field_simps)
  have x: "0 < x" using assms(1) by (metis less_le_trans zero_less_mult_pos2 zero_less_numeral zero_less_one zero_less_power)
  have "2 powi ?e \<le> x" "x < 2 powi (?e + 1)"
    using assms by (simp_all add: power_int_minus power_int_diff power_int_add field_simps)
  then have "mag 2 x = ?e" using mag_unique [of 2 ?e x] by simp
  then show ?thesis using x u by (simp add: b64_def rnd_def)
qed

lemma b64_value_up:
  assumes "2 ^ e \<le> x" "x < 2 * 2 ^ e" "e \<le> 52"
  shows "b64 x = of_int (round_half_even (x * 2 ^ (52 - e))) / 2 ^ (52 - e)"
proof -
  have u: "(2 :: rat) powi (int e - 52) = 1 / 2 ^ (52 - e)"
  proof -
    have "int e - 52 = - int (52 - e)" using assms(3) by simp
    then show ?thesis by (simp only: power_int_minus power_int_of_nat inverse_eq_divide)
  qed
  have x: "0 < x" using assms(1) by (metis less_le_trans zero_less_numeral zero_less_power)
  have "2 powi int e \<le> x" "x < 2 powi (int e + 1)"
    using assms(1,2) by (simp_all add: power_int_add)
  then have "mag 2 x = int e" using mag_unique [of 2 "int e" x] by simp
  then show ?thesis using x u by (simp add: b64_def rnd_def)
qed

lemma floor_quotient: "\<lfloor>numeral m / numeral n :: rat\<rfloor> = numeral m div numeral n"
  using floor_divide_of_int_eq [of "numeral m" "numeral n", where ?'a = rat] by simp

lemma b64_idem: "b64 (b64 x) = b64 x"
  using is_float_b64 [of x] by (simp add: is_float_def)

lemma b64_int: "\<bar>n\<bar> < 2 ^ 53 \<Longrightarrow> b64 (of_int n) = of_int n"
  using to_float_small [of n] by (simp add: to_float_def)

lemma py_round_between:
  assumes "of_int m \<le> x" "x \<le> of_int n" "\<bar>m\<bar> < 2 ^ 53" "\<bar>n\<bar> < 2 ^ 53"
  shows "of_int m \<le> py_round x k \<and> py_round x k \<le> of_int n"
proof -
  have whole: "round_half_even (of_int i * 10 ^ k) = i * 10 ^ k" for i
    by (metis of_int_mult of_int_numeral of_int_power rhe_of_int)
  have "round_half_even (of_int m * 10 ^ k) \<le> round_half_even (x * 10 ^ k)"
    "round_half_even (x * 10 ^ k) \<le> round_half_even (of_int n * 10 ^ k)"
    using assms(1,2) by (auto intro!: rhe_mono)
  then have "of_int m \<le> (of_int (round_half_even (x * 10 ^ k)) / 10 ^ k :: rat)"
    "(of_int (round_half_even (x * 10 ^ k)) / 10 ^ k :: rat) \<le> of_int n"
    unfolding whole by (simp_all add: field_simps) (metis of_int_le_iff of_int_mult of_int_numeral of_int_power)+
  then show ?thesis unfolding py_round_def
    using f64.fl_mono b64_int assms(3,4) by metis
qed

section \<open>Sums\<close>

text \<open>
  \<open>sum\<close> over floats: since Python 3.12 it carries the rounding errors along and adds them at the end.
\<close>

fun compensated :: "rat \<Rightarrow> rat \<Rightarrow> rat list \<Rightarrow> rat" where
  "compensated f c [] = (if c \<noteq> 0 then fadd f c else f)"
| "compensated f c (x # xs) =
     (let t = fadd f x
      in compensated t (fadd c (if \<bar>x\<bar> \<le> \<bar>f\<bar> then fadd (fsub f t) x else fadd (fsub x t) f)) xs)"

definition py_sum :: "rat list \<Rightarrow> rat" where
  "py_sum xs = (case xs of [] \<Rightarrow> 0 | y # ys \<Rightarrow> compensated y 0 ys)"

end
