(* ===== verification/User_Facts.thy ===== *)
theory User_Facts
  imports Readings Portfolio Py_Pieces Float_Values
begin

text \<open>
  The durable preferences of a user, \<open>services/user_facts.py\<close>, and the two memory routes of
  \<open>main.py\<close>. The answer of the extracting model is a JSON value that comes in, or nothing when the
  call fails; \<open>json.dumps\<close> is a parameter of the rendering.
\<close>

section \<open>Facts\<close>

record fact_row =
  fa_value :: json
  fa_confidence :: rat
  fa_updated :: usec

record facts_db = world +
  user_facts :: "(string \<times> string, fact_row) table"

definition ALLOWED_TYPES :: "string list" where
  "ALLOWED_TYPES =
     [''risk_tolerance'', ''preferred_wallet'', ''default_slippage_bps'', ''max_position_size_usd'', ''preferred_dex'',
      ''preferred_lender'', ''usually_holds'', ''alerts_off'', ''name_or_handle'', ''trading_style'', ''avoids_protocols'']"

definition KNOWN_WALLETS :: "string list" where
  "KNOWN_WALLETS =
     [''phantom'', ''solflare'', ''backpack'', ''ledger'', ''trezor'', ''trust'', ''exodus'', ''glow'', ''coinbase'', ''okx'',
      ''bitget'', ''magiceden'', ''magic eden'', ''tiplink'']"

definition KNOWN_VENUES :: "string list" where
  "KNOWN_VENUES =
     [''jupiter'', ''raydium'', ''orca'', ''meteora'', ''phoenix'', ''openbook'', ''lifinity'', ''pumpfun'', ''pump.fun'',
      ''pumpswap'', ''kamino'', ''marginfi'', ''solend'', ''save'', ''drift'', ''marinade'', ''jito'', ''sanctum'', ''aldrin'',
      ''saber'', ''invariant'']"

definition names_one_of :: "string list \<Rightarrow> json \<Rightarrow> bool" where
  "names_one_of names v = (case v of JStr s \<Rightarrow> lower (strip s) \<in> set names | _ \<Rightarrow> False)"

definition plausible :: "string \<Rightarrow> json \<Rightarrow> bool" where
  "plausible fact_type v =
     (if fact_type = ''preferred_wallet'' then names_one_of KNOWN_WALLETS v
      else if fact_type = ''preferred_dex'' \<or> fact_type = ''preferred_lender'' then names_one_of KNOWN_VENUES v
      else if fact_type = ''usually_holds''
      then (case v of JArr xs \<Rightarrow> xs \<noteq> [] \<and> \<not> list_ex (names_one_of KNOWN_VENUES) xs | _ \<Rightarrow> False)
      else if fact_type = ''max_position_size_usd''
      then (case float_of v of Inl e \<Rightarrow> False | Inr x \<Rightarrow> 1 \<le> x)
      else True)"

section \<open>Extraction\<close>

text \<open>What one extracted fact asks for.\<close>

datatype fact_step =
    Skip_Fact
  | Forget_Fact string
  | Keep_Fact string json rat

definition value_at :: "(string \<times> json) list \<Rightarrow> string \<Rightarrow> json" where
  "value_at kvs k = (case map_of kvs k of None \<Rightarrow> JNull | Some v \<Rightarrow> v)"

definition confidence_of :: "(string \<times> json) list \<Rightarrow> rat" where
  "confidence_of kvs =
     (case map_of kvs ''confidence'' of
        None \<Rightarrow> 0
      | Some v \<Rightarrow> (case float_of v of Inl e \<Rightarrow> 0 | Inr x \<Rightarrow> x))"

definition read_fact :: "outside \<Rightarrow> json \<Rightarrow> fact_step" where
  "read_fact env f =
     (case f of
        JObj kvs \<Rightarrow>
          (let fact_type = strip (py_str env (j_or (value_at kvs ''fact_type'') (JStr [])));
               confidence = confidence_of kvs; v = value_at kvs ''fact_value''
           in if fact_type \<notin> set ALLOWED_TYPES then Skip_Fact
              else if map_of kvs ''fact_value'' = None then Skip_Fact
              else if confidence = 0 \<and> v = JNull then Forget_Fact fact_type
              else if confidence < b64 (4 / 10) then Skip_Fact
              else if \<not> plausible fact_type v then Skip_Fact
              else Keep_Fact fact_type v (min (max confidence 0) 1))
      | _ \<Rightarrow> Skip_Fact)"

text \<open>How many facts were written.\<close>

definition apply_fact :: "outside \<Rightarrow> string \<Rightarrow> fact_step \<Rightarrow> ('z facts_db_scheme, nat) io" where
  "apply_fact env wallet step =
     (case step of
        Skip_Fact \<Rightarrow> return 0
      | Forget_Fact t \<Rightarrow>
          bind (modify (\<lambda>s. s\<lparr>user_facts := drop_row (wallet, t) (user_facts s)\<rparr>)) (\<lambda>_. return 1)
      | Keep_Fact t v x \<Rightarrow>
          bind (modify (\<lambda>s. s\<lparr>user_facts := put_row (wallet, t)
              \<lparr>fa_value = v, fa_confidence = x, fa_updated = utc_now env s\<rparr> (user_facts s)\<rparr>)) (\<lambda>_. return 1))"

text \<open>
  A value the \<open>JSONB\<close> column refuses (\<open>storable\<close>, the database's) fails its statement and with it the
  transaction: the later statements fail too and the caller's commit keeps none of the facts, while
  the writes before the failure stay counted.
\<close>

definition writable :: "(json \<Rightarrow> bool) \<Rightarrow> fact_step \<Rightarrow> bool" where
  "writable storable step = (case step of Keep_Fact t v x \<Rightarrow> storable v | _ \<Rightarrow> True)"

definition extract_and_upsert ::
  "(json \<Rightarrow> bool) \<Rightarrow> outside \<Rightarrow> string \<Rightarrow> bool \<Rightarrow> json option \<Rightarrow> ('z facts_db_scheme, nat) io" where
  "extract_and_upsert storable env wallet configured answer =
     (if wallet = [] \<or> \<not> configured then return 0
      else
        case answer of
          Some (JObj kvs) \<Rightarrow>
            (case value_at kvs ''facts'' of
               JArr facts \<Rightarrow>
                 (if list_all (\<lambda>f. writable storable (read_fact env f)) facts
                  then bind (for_each (\<lambda>f. apply_fact env wallet (read_fact env f)) facts) (\<lambda>ns. return (sum_list ns))
                  else return (length (filter (\<lambda>f. read_fact env f \<noteq> Skip_Fact)
                    (takeWhile (\<lambda>f. writable storable (read_fact env f)) facts))))
             | _ \<Rightarrow> return 0)
        | _ \<Rightarrow> return 0)"

section \<open>Decay\<close>

definition decayed :: "usec \<Rightarrow> fact_row \<Rightarrow> fact_row" where
  "decayed now r = r\<lparr>fa_confidence := max 0 (fsub (fa_confidence r) (b64 (3 / 10)))\<rparr>"

definition stale :: "usec \<Rightarrow> fact_row \<Rightarrow> bool" where
  "stale now r \<longleftrightarrow> fa_updated r < now - days 90"

definition decay_stale_facts :: "outside \<Rightarrow> string \<Rightarrow> ('z facts_db_scheme, unit) io" where
  "decay_stale_facts env wallet =
     (if wallet = [] then return ()
      else modify (\<lambda>s. s\<lparr>user_facts :=
        rows_where (\<lambda>k r. \<not> (fst k = wallet \<and> fa_confidence r \<le> 0))
          (update_where (\<lambda>k r. fst k = wallet \<and> stale (utc_now env s) r) (decayed (utc_now env s)) (user_facts s))\<rparr>))"

section \<open>Reading\<close>

definition shown_facts :: "string \<Rightarrow> ((string \<times> string) \<times> fact_row) list \<Rightarrow> ((string \<times> string) \<times> fact_row) list" where
  "shown_facts wallet t =
     take 12 (sort_key (\<lambda>x. - fa_updated (snd x)) (rows_where (\<lambda>k r. fst k = wallet \<and> b64 (4 / 10) \<le> fa_confidence r) t))"

definition fact_line :: "(json \<Rightarrow> string) \<Rightarrow> outside \<Rightarrow> (string \<times> string) \<times> fact_row \<Rightarrow> string" where
  "fact_line dumps env x =
     (case x of ((_, t), r) \<Rightarrow>
        ''- '' @ t @ '': '' @
        (case fa_value r of JObj kvs \<Rightarrow> dumps (fa_value r) | JArr xs \<Rightarrow> dumps (fa_value r) | v \<Rightarrow> py_str env v) @
        (if fa_confidence r \<ge> b64 (85 / 100) then [] else '' (conf='' @ fixed_text False 1 (fa_confidence r) @ '')''))"

definition FACTS_HEAD :: string where
  "FACTS_HEAD = ''[User Memory '' @ [CHR 0xE2, CHR 0x80, CHR 0x94] @ '' durable preferences across sessions]''"

definition FACTS_TAIL :: string where
  "FACTS_TAIL = ''Honour these preferences by default; deviate only if the current message contradicts them.''"

definition render_for_llm ::
  "(json \<Rightarrow> string) \<Rightarrow> outside \<Rightarrow> string \<Rightarrow> ('z facts_db_scheme, string) io" where
  "render_for_llm dumps env wallet =
     (if wallet = [] then return []
      else gets (\<lambda>s. let items = shown_facts wallet (user_facts s) in
        if items = [] then []
        else join_with [CHR 10] ([FACTS_HEAD] @
          map (fact_line dumps env) (filter (\<lambda>x. snd (fst x) \<noteq> ''language'') items) @ [FACTS_TAIL])))"

definition get_memories :: "(usec \<Rightarrow> string) \<Rightarrow> string \<Rightarrow> ('z facts_db_scheme, json) io" where
  "get_memories time_text wallet =
     gets (\<lambda>s. JObj [(''memories'', JArr (map (\<lambda>((_, t), r). JObj
        [(''fact_type'', JStr t), (''fact_value'', fa_value r), (''confidence'', JFloat (fa_confidence r)),
         (''updated_at'', JStr (time_text (fa_updated r)))]) (shown_facts wallet (user_facts s))))])"

definition delete_fact :: "string \<Rightarrow> string \<Rightarrow> ('z facts_db_scheme, json) io" where
  "delete_fact wallet fact_type =
     bind (modify (\<lambda>s. s\<lparr>user_facts := drop_row (wallet, fact_type) (user_facts s)\<rparr>)) (\<lambda>_.
       return (JObj [(''deleted'', JStr fact_type)]))"

section \<open>What is stored\<close>

datatype fact_op =
    Turn_Done string bool "json option"
  | Session_Begun string
  | Facts_Asked string
  | Fact_Deleted string string
  | Time_Passed usec

definition fact_operation :: "(json \<Rightarrow> bool) \<Rightarrow> outside \<Rightarrow> (usec \<Rightarrow> string) \<Rightarrow> fact_op \<Rightarrow> 'z facts_db_scheme \<Rightarrow> 'z facts_db_scheme" where
  "fact_operation storable env time_text f s =
     (case f of
        Turn_Done wallet configured answer \<Rightarrow> fst (extract_and_upsert storable env wallet configured answer s)
      | Session_Begun wallet \<Rightarrow> fst (decay_stale_facts env wallet s)
      | Facts_Asked wallet \<Rightarrow> fst (get_memories time_text wallet s)
      | Fact_Deleted wallet t \<Rightarrow> fst (delete_fact wallet t s)
      | Time_Passed d \<Rightarrow> fst (sleep d s))"

definition fact_operations :: "(json \<Rightarrow> bool) \<Rightarrow> outside \<Rightarrow> (usec \<Rightarrow> string) \<Rightarrow> fact_op list \<Rightarrow> 'z facts_db_scheme \<Rightarrow> 'z facts_db_scheme" where
  "fact_operations storable env time_text fs s = fold (fact_operation storable env time_text) fs s"

definition fact_ok :: "string \<times> string \<Rightarrow> fact_row \<Rightarrow> bool" where
  "fact_ok k r \<longleftrightarrow>
     fst k \<noteq> [] \<and> snd k \<in> set ALLOWED_TYPES \<and> plausible (snd k) (fa_value r) \<and> 0 < fa_confidence r \<and> fa_confidence r \<le> 1"

definition facts_ok :: "'z facts_db_scheme \<Rightarrow> bool" where
  "facts_ok s \<longleftrightarrow> keyed (user_facts s) \<and> (\<forall>k r. row_of (user_facts s) k = Some r \<longrightarrow> fact_ok k r)"

lemma read_fact_ok: "read_fact env f = Keep_Fact t v x \<Longrightarrow> t \<in> set ALLOWED_TYPES \<and> plausible t v \<and> 0 < x \<and> x \<le> 1"
proof -
  have "(4 / 10) * (1 - 1 / 2 ^ 53) \<le> b64 (4 / 10)" by (rule f64.fl_lower) simp
  then have "0 < b64 (4 / 10)" by simp
  then show "read_fact env f = Keep_Fact t v x \<Longrightarrow> t \<in> set ALLOWED_TYPES \<and> plausible t v \<and> 0 < x \<and> x \<le> 1"
    by (auto simp: read_fact_def Let_def split: json.splits if_splits)
qed

interpretation sound: io_relation facts_ok "\<lambda>_ _. True"
  by unfold_locales simp_all

abbreviation keeps_facts :: "('z facts_db_scheme, 'a) io \<Rightarrow> bool" where
  "keeps_facts m \<equiv> obeys facts_ok (\<lambda>_ _. True) m"

lemma keeps_use: "keeps_facts m \<Longrightarrow> facts_ok s \<Longrightarrow> facts_ok (fst (m s))"
  by (simp add: obeys_def)

lemma facts_drop: "keeps_facts (modify (\<lambda>s. s\<lparr>user_facts := drop_row k (user_facts s)\<rparr>))"
  by (simp add: obeys_def facts_ok_def io_simps)

lemma keeps_apply:
  assumes "wallet \<noteq> []"
  shows "keeps_facts (apply_fact env wallet (read_fact env f))"
proof (cases "read_fact env f")
  case (Keep_Fact t v x)
  then show ?thesis
    using read_fact_ok [OF Keep_Fact] assms
    by (auto simp: apply_fact_def obeys_def facts_ok_def fact_ok_def bind_def io_simps split: if_splits)
qed (simp_all add: apply_fact_def sound.obeys_pure sound.obeys_bind facts_drop)

lemma keeps_extract: "keeps_facts (extract_and_upsert storable env wallet configured answer)"
proof (cases "wallet = []")
  case False
  have "keeps_facts (for_each (\<lambda>f. apply_fact env wallet (read_fact env f)) facts)" for facts
    by (rule sound.obeys_for_each) (rule keeps_apply [OF False])
  then show ?thesis unfolding extract_and_upsert_def
    by (auto intro!: sound.obeys_bind sound.obeys_pure split: option.split json.split)
qed (simp add: extract_and_upsert_def sound.obeys_pure)

lemma keyed_rows_where: "keyed t \<Longrightarrow> keyed (rows_where p t)"
  unfolding keyed_def rows_where_def by (induction t) (auto simp: image_iff)

lemma row_of_kept:
  "keyed t \<Longrightarrow> row_of (rows_where p t) k = (case row_of t k of None \<Rightarrow> None | Some r \<Rightarrow> if p k r then Some r else None)"
proof (induction t)
  case (Cons x t)
  obtain a b where x: "x = (a, b)" by (cases x)
  have "map_of (filter (\<lambda>(x, y). p x y) t) a = None"
    using Cons.prems by (auto simp: x keyed_def map_of_eq_None_iff image_iff)
  then show ?case using Cons by (auto simp: x keyed_def row_of_def rows_where_def)
qed (simp add: rows_where_def)

definition fade :: "rat \<Rightarrow> rat" where
  "fade c = max 0 (fsub c (b64 (3 / 10)))"

lemma fade_mono: "c \<le> d \<Longrightarrow> fade c \<le> fade d"
proof -
  assume "c \<le> d"
  then have "fsub c (b64 (3 / 10)) \<le> fsub d (b64 (3 / 10))" by (simp add: fsub_def f64.fl_mono)
  then show ?thesis by (simp add: fade_def max_def)
qed

text \<open>The floats on the way down from 1.\<close>

lemma floats_down:
  "b64 (3 / 10) = 5404319552844595 / 18014398509481984"
  "b64 (2 / 5) = 3602879701896397 / 9007199254740992"
  "b64 (12610078956637389 / 18014398509481984) = 3152519739159347 / 4503599627370496"
  "b64 (7205759403792793 / 18014398509481984) = 7205759403792793 / 18014398509481984"
  by (simp_all add: b64_value [of "3 / 10" 2] b64_value [of "2 / 5" 2]
      b64_value [of "12610078956637389 / 18014398509481984" 1]
      b64_value [of "7205759403792793 / 18014398509481984" 2] round_half_even_def
      Let_def floor_quotient)

lemma fade_down:
  "fade 1 = 3152519739159347 / 4503599627370496"
  "fade (3152519739159347 / 4503599627370496) = 7205759403792793 / 18014398509481984"
  by (simp_all add: fade_def fsub_def floats_down)

lemma fade_twice:
  assumes "x \<le> 2 * b64 (3 / 10)"
  shows "fade (fade x) = 0"
proof -
  have "b64 (x - b64 (3 / 10)) \<le> b64 (b64 (3 / 10))" using assms by (intro f64.fl_mono) simp
  also have "b64 (b64 (3 / 10)) = b64 (3 / 10)" using is_float_b64 [of "3 / 10"] by (simp add: is_float_def)
  finally have "fade x \<le> b64 (3 / 10)" using f64.fl_nonneg [of "3 / 10"] by (simp add: fade_def fsub_def)
  then have "b64 (fade x - b64 (3 / 10)) \<le> 0" by (intro f64.fl_nonpos) simp
  then show ?thesis by (simp add: fade_def [of "fade _"] fsub_def)
qed

lemma fade_values: "fade 1 \<le> 1" "fade (fade 1) < b64 (4 / 10)" "fade (fade (fade (fade 1))) = 0"
proof -
  show "fade 1 \<le> 1" by (simp add: fade_down(1))
  have two: "fade (fade 1) = 7205759403792793 / 18014398509481984" by (simp only: fade_down)
  show "fade (fade 1) < b64 (4 / 10)" unfolding two by (simp add: floats_down)
  show "fade (fade (fade (fade 1))) = 0" by (rule fade_twice) (unfold two, simp add: floats_down)
qed

text \<open>What one decay makes of a row.\<close>

lemma decay_row:
  assumes "keyed (user_facts s)" "wallet \<noteq> []"
  shows "row_of (user_facts (fst (decay_stale_facts env wallet s))) k =
    (case row_of (user_facts s) k of
       None \<Rightarrow> None
     | Some r \<Rightarrow>
         let r' = (if fst k = wallet \<and> stale (utc_now env s) r then r\<lparr>fa_confidence := fade (fa_confidence r)\<rparr> else r)
         in if fst k = wallet \<and> fa_confidence r' \<le> 0 then None else Some r')"
  using assms
  by (auto simp: decay_stale_facts_def io_simps row_of_kept decayed_def fade_def Let_def split: option.split)

lemma decay_keyed: "keyed (user_facts s) \<Longrightarrow> keyed (user_facts (fst (decay_stale_facts env wallet s)))"
  by (simp add: decay_stale_facts_def io_simps keyed_rows_where)

lemma decay_now: "utc_now env (fst (decay_stale_facts env wallet s)) = utc_now env s"
  by (simp add: decay_stale_facts_def io_simps utc_now_def)

lemma keeps_decay: "keeps_facts (decay_stale_facts env wallet)"
proof (cases "wallet = []")
  case False
  have "fact_ok k (r\<lparr>fa_confidence := fade (fa_confidence r)\<rparr>)" if "fact_ok k r" "0 < fade (fa_confidence r)" for k r
    using that fade_mono [of "fa_confidence r" 1] fade_values(1) by (auto simp: fact_ok_def)
  then have "row_of (user_facts (fst (decay_stale_facts env wallet s))) k = Some r \<Longrightarrow> fact_ok k r"
    if "facts_ok s" for s :: "'z facts_db_scheme" and k r
    using that by (cases k) (auto simp: decay_row [OF _ False] facts_ok_def Let_def split: option.splits if_splits)
  then show ?thesis by (auto simp: obeys_def facts_ok_def decay_keyed)
qed (simp add: decay_stale_facts_def sound.obeys_pure)

text \<open>C34: only checked preferences are stored. After any turns, whatever the extracting model answered, and
  any decays, reads and deletions in between, a wallet has at most one fact of a type, every fact has
  an allowed type, a value that is plausible for it, and a confidence above 0 and at most 1.\<close>

theorem stored_facts_plausible:
  assumes "facts_ok s"
  shows "keyed (user_facts (fact_operations storable env time_text fs s)) \<and>
    (\<forall>k r. row_of (user_facts (fact_operations storable env time_text fs s)) k = Some r \<longrightarrow> fact_ok k r)"
proof -
  have "facts_ok (fact_operation storable env time_text f s)" if "facts_ok s" for f and s :: "'a facts_db_scheme"
  proof (cases f)
    case (Fact_Deleted wallet t)
    show ?thesis using that by (simp add: Fact_Deleted fact_operation_def delete_fact_def facts_ok_def bind_def io_simps)
  next
    case (Turn_Done wallet configured answer)
    show ?thesis using keeps_use [OF keeps_extract that] by (simp add: Turn_Done fact_operation_def)
  next
    case (Session_Begun wallet)
    show ?thesis using keeps_use [OF keeps_decay that] by (simp add: Session_Begun fact_operation_def)
  qed (use that in \<open>simp_all add: fact_operation_def get_memories_def io_simps sleep_def facts_ok_def\<close>)
  then have "facts_ok (fact_operations storable env time_text fs s)"
    unfolding fact_operations_def using assms by (induction fs arbitrary: s) simp_all
  then show ?thesis by (simp add: facts_ok_def)
qed

text \<open>Stale facts do not fade gradually. The decay does not touch the time of the last update, so it
  repeats with every new conversation: ninety days after a fact was last confirmed, whatever its
  confidence, two new conversations on one day hide it from the prompts and four delete it.\<close>

theorem stale_fact_lost_in_a_day:
  assumes "facts_ok s" and "row_of (user_facts s) (wallet, t) = Some r" and "stale (utc_now env s) r"
  shows "(wallet, t) \<notin> fst ` set (shown_facts wallet (user_facts (fact_operations storable env time_text (replicate 2 (Session_Begun wallet)) s))) \<and>
    row_of (user_facts (fact_operations storable env time_text (replicate 4 (Session_Begun wallet)) s)) (wallet, t) = None"
proof -
  define step where "step = (\<lambda>s. fst (decay_stale_facts env wallet s :: 'a facts_db_scheme \<times> (exn + unit)))"
  have w: "wallet \<noteq> []" and c: "fa_confidence r \<le> 1" using assms(1,2) by (auto simp: facts_ok_def fact_ok_def)
  have keyed: "keyed (user_facts ((step ^^ n) s))" and now: "utc_now env ((step ^^ n) s) = utc_now env s" for n
    by (induction n) (use assms(1) in \<open>simp_all add: step_def decay_keyed decay_now facts_ok_def\<close>)
  have rows: "case row_of (user_facts ((step ^^ n) s)) (wallet, t) of None \<Rightarrow> 0 < n
      | Some r' \<Rightarrow> fa_updated r' = fa_updated r \<and> fa_confidence r' = (fade ^^ n) (fa_confidence r) \<and> (0 < n \<longrightarrow> 0 < fa_confidence r')" for n
  proof (induction n)
    case (Suc n)
    have "row_of (user_facts ((step ^^ Suc n) s)) (wallet, t) = (case row_of (user_facts ((step ^^ n) s)) (wallet, t) of
        None \<Rightarrow> None | Some r' \<Rightarrow> let r'' = (if stale (utc_now env s) r' then r'\<lparr>fa_confidence := fade (fa_confidence r')\<rparr> else r')
          in if fa_confidence r'' \<le> 0 then None else Some r'')"
      using decay_row [OF keyed [of n] w, of env "(wallet, t)", unfolded now] by (simp add: step_def Let_def split: option.split)
    then show ?case using Suc assms(3) by (auto simp: stale_def Let_def split: option.splits)
  qed (use assms(2) in simp)
  have le: "(fade ^^ n) (fa_confidence r) \<le> (fade ^^ n) 1" for n
    by (induction n) (use c fade_mono in auto)
  have ops: "fact_operations storable env time_text (replicate n (Session_Begun wallet)) s = (step ^^ n) s" for n
    by (induction n arbitrary: s) (simp_all add: fact_operations_def fact_operation_def step_def funpow_Suc_right del: funpow.simps(2))
  have "(wallet, t) \<notin> fst ` set (shown_facts wallet (user_facts ((step ^^ 2) s)))"
  proof
    assume "(wallet, t) \<in> fst ` set (shown_facts wallet (user_facts ((step ^^ 2) s)))"
    then obtain r' where "((wallet, t), r') \<in> set (user_facts ((step ^^ 2) s))" "b64 (4 / 10) \<le> fa_confidence r'"
      by (auto simp: shown_facts_def in_rows_where dest!: in_set_takeD)
    then have "row_of (user_facts ((step ^^ 2) s)) (wallet, t) = Some r'" "b64 (4 / 10) \<le> fa_confidence r'"
      using keyed_row_of [OF keyed [of 2]] by auto
    then show False using rows [of 2] le [of 2] fade_values(2) by (simp add: numeral_2_eq_2)
  qed
  moreover have "row_of (user_facts ((step ^^ 4) s)) (wallet, t) = None"
  proof (cases "row_of (user_facts ((step ^^ 4) s)) (wallet, t)")
    case (Some r')
    have "(fade ^^ 4) 1 = 0" using fade_values(3) by (simp add: eval_nat_numeral)
    then show ?thesis using Some rows [of 4] le [of 4] by simp
  qed
  ultimately show ?thesis unfolding ops by simp
qed

definition phantom_facts :: facts_db where
  "phantom_facts = \<lparr>looks = 0, slept = days 100, on_fallback = False, primary_stale = False, lag_checked_at = 0,
     user_facts = [((''w'', ''preferred_wallet''), \<lparr>fa_value = JStr ''Phantom'', fa_confidence = 1, fa_updated = 0\<rparr>)]\<rparr>"

lemma phantom_ok: "facts_ok phantom_facts"
proof -
  have "plausible ''preferred_wallet'' (JStr ''Phantom'')" "''preferred_wallet'' \<in> set ALLOWED_TYPES" by code_simp+
  then show ?thesis by (simp add: facts_ok_def phantom_facts_def keyed_def row_of_def fact_ok_def)
qed

theorem stored_facts_plausible_witness:
  "\<forall>env. keyed (user_facts (fact_operations (\<lambda>_. True) env show_int [Session_Begun ''w'', Turn_Done ''w'' True (Some (JObj
     [(''facts'', JArr [JObj [(''fact_type'', JStr ''preferred_wallet''), (''fact_value'', JStr ''wallet''),
        (''confidence'', JInt 1)]])]))] phantom_facts))"
  using stored_facts_plausible [OF phantom_ok] by blast

definition still_env :: outside where
  "still_env =
     \<lparr>http = (\<lambda>n verb url p. Reply 200 None), mono = (\<lambda>n. 0), utc = (\<lambda>n. 0), repr_of = (\<lambda>j. []),
      raw_text = (\<lambda>b. []), env_var = (\<lambda>name. None), auth_cookie = (\<lambda>n. None), error_text = (\<lambda>x. []),
      chat_answer = (\<lambda>n i t. Sent_To_Chat)\<rparr>"

theorem stale_fact_lost_in_a_day_witness:
  "row_of (user_facts (fact_operations (\<lambda>_. True) still_env show_int (replicate 4 (Session_Begun ''w'')) phantom_facts))
     (''w'', ''preferred_wallet'') = None"
proof -
  have "stale (utc_now still_env phantom_facts) \<lparr>fa_value = JStr ''Phantom'', fa_confidence = 1, fa_updated = 0\<rparr>"
    by (simp add: stale_def utc_now_def phantom_facts_def still_env_def time_simps)
  moreover have "row_of (user_facts phantom_facts) (''w'', ''preferred_wallet'') =
      Some \<lparr>fa_value = JStr ''Phantom'', fa_confidence = 1, fa_updated = 0\<rparr>" by (simp add: phantom_facts_def row_of_def)
  ultimately show ?thesis using stale_fact_lost_in_a_day [OF phantom_ok] by blast
qed

end
