(* ===== verification/Tax_Report.thy ===== *)
theory Tax_Report
  imports Float_Values World
begin

text \<open>
  The tax report of \<open>services/tax_report.py\<close>: what a list of transactions comes to under a method of cost
  basis. The query behind it is a placeholder that finds no transactions, and the text of an export is
  left out. A transaction is a dictionary, of which every entry may be missing.
\<close>

section \<open>Transactions and events\<close>

datatype cost_basis_method = FIFO | LIFO | HIFO | AVERAGE

datatype transaction_type =
    BUY | SELL | TRANSFER_IN | TRANSFER_OUT | STAKE_REWARD | YIELD_FARMING | NFT_SALE | NFT_PURCHASE | AIRDROP | FEE | OTHER

definition transaction_types :: "(string \<times> transaction_type) list" where
  "transaction_types =
     [(''buy'', BUY), (''sell'', SELL), (''transfer_in'', TRANSFER_IN), (''transfer_out'', TRANSFER_OUT),
      (''stake_reward'', STAKE_REWARD), (''yield_farming'', YIELD_FARMING), (''nft_sale'', NFT_SALE),
      (''nft_purchase'', NFT_PURCHASE), (''airdrop'', AIRDROP), (''fee'', FEE), (''other'', OTHER)]"

record tax_config =
  tc_wallet :: string
  tc_year :: int
  tc_method :: cost_basis_method
  tc_staking :: bool
  tc_farming :: bool
  tc_nfts :: bool
  tc_airdrops :: bool
  tc_short_days :: int
  tc_short_rate :: rat
  tc_long_rate :: rat

record tax_transaction =
  tt_id :: "string option"
  tt_date :: "usec option"
  tt_type :: "string option"
  tt_address :: "string option"
  tt_symbol :: "string option"
  tt_quantity :: "rat option"
  tt_price :: "rat option"
  tt_value :: "rat option"
  tt_fee :: "rat option"
  tt_signature :: "string option"

record taxable_event =
  te_id :: string
  te_date :: usec
  te_type :: transaction_type
  te_address :: string
  te_symbol :: string
  te_quantity :: rat
  te_price :: rat
  te_value :: rat
  te_fee :: rat
  te_basis :: rat
  te_gain :: rat
  te_signature :: string
  te_wallet :: string

record tax_lot =
  lot_quantity :: rat
  lot_price :: rat
  lot_date :: usec

section \<open>The cost basis\<close>

fun use_lots :: "rat \<Rightarrow> rat \<Rightarrow> tax_lot list \<Rightarrow> rat" where
  "use_lots remaining basis [] = basis"
| "use_lots remaining basis (l # ls) =
     (if remaining \<le> 0 then basis
      else let used = min remaining (lot_quantity l)
           in use_lots (fsub remaining used) (fadd basis (fmul used (lot_price l))) ls)"

definition calculate_cost_basis :: "tax_lot list \<Rightarrow> rat \<Rightarrow> cost_basis_method \<Rightarrow> rat" where
  "calculate_cost_basis holdings quantity how =
     (if holdings = [] then 0
      else case how of
          FIFO \<Rightarrow> use_lots quantity 0 (sort_key lot_date holdings)
        | LIFO \<Rightarrow> use_lots quantity 0 (sort_key (\<lambda>l. - lot_date l) holdings)
        | HIFO \<Rightarrow> use_lots quantity 0 (sort_key (\<lambda>l. - lot_price l) holdings)
        | AVERAGE \<Rightarrow>
            let n = py_sum (map lot_quantity holdings);
                v = py_sum (map (\<lambda>l. fmul (lot_quantity l) (lot_price l)) holdings)
            in if 0 < n then fmul (fdiv v n) quantity else 0)"

section \<open>The events\<close>

definition given_or :: "'a \<Rightarrow> 'a option \<Rightarrow> 'a" where
  "given_or d x = (case x of None \<Rightarrow> d | Some v \<Rightarrow> v)"

definition event_of :: "tax_config \<Rightarrow> usec \<Rightarrow> tax_transaction \<Rightarrow> exn + taxable_event" where
  "event_of config now t =
     then_sum (or_raise ValueError (map_of transaction_types (given_or ''other'' (tt_type t)))) (\<lambda>k.
       Inr \<lparr>te_id = given_or [] (tt_id t), te_date = given_or now (tt_date t), te_type = k,
            te_address = given_or [] (tt_address t), te_symbol = given_or [] (tt_symbol t),
            te_quantity = given_or 0 (tt_quantity t), te_price = given_or 0 (tt_price t),
            te_value = given_or 0 (tt_value t), te_fee = given_or 0 (tt_fee t), te_basis = 0, te_gain = 0,
            te_signature = given_or [] (tt_signature t), te_wallet = tc_wallet config\<rparr>)"

type_synonym holdings = "(string, tax_lot list) table"

definition lots_of :: "holdings \<Rightarrow> string \<Rightarrow> tax_lot list" where
  "lots_of h symbol = given_or [] (row_of h symbol)"

definition acquired :: "transaction_type \<Rightarrow> bool" where
  "acquired k \<longleftrightarrow> k \<in> {BUY, TRANSFER_IN, STAKE_REWARD, YIELD_FARMING, AIRDROP}"

definition step_event :: "tax_config \<Rightarrow> holdings \<Rightarrow> taxable_event \<Rightarrow> holdings \<times> taxable_event" where
  "step_event config h e =
     (if te_type e = SELL then
        let basis = calculate_cost_basis (lots_of h (te_symbol e)) (te_quantity e) (tc_method config)
        in (h, e\<lparr>te_basis := basis, te_gain := fsub (fsub (te_value e) basis) (te_fee e)\<rparr>)
      else if acquired (te_type e) then
        (put_row (te_symbol e)
           (lots_of h (te_symbol e) @ [\<lparr>lot_quantity = te_quantity e, lot_price = te_price e, lot_date = te_date e\<rparr>]) h, e)
      else (h, e))"

fun events_from :: "tax_config \<Rightarrow> usec \<Rightarrow> holdings \<Rightarrow> tax_transaction list \<Rightarrow> exn + taxable_event list" where
  "events_from config now h [] = Inr []"
| "events_from config now h (t # ts) =
     then_sum (event_of config now t) (\<lambda>e.
       case step_event config h e of (h', e') \<Rightarrow>
         then_sum (events_from config now h' ts) (\<lambda>es. Inr (e' # es)))"

definition calculate_events :: "tax_config \<Rightarrow> usec \<Rightarrow> tax_transaction list \<Rightarrow> exn + taxable_event list" where
  "calculate_events config now ts = events_from config now [] ts"

section \<open>The summary\<close>

record token_totals =
  to_buys :: rat
  to_sells :: rat
  to_gains :: rat
  to_losses :: rat
  to_income :: rat

record tax_summary =
  ts_year :: int
  ts_wallet :: string
  ts_staking :: rat
  ts_farming :: rat
  ts_airdrops :: rat
  ts_nft_sales :: rat
  ts_other :: rat
  ts_short_gains :: rat
  ts_short_losses :: rat
  ts_long_gains :: rat
  ts_long_losses :: rat
  ts_income :: rat
  ts_short_net :: rat
  ts_long_net :: rat
  ts_net :: rat
  ts_by_token :: "(string, token_totals) table"

definition no_totals :: token_totals where
  "no_totals = \<lparr>to_buys = 0, to_sells = 0, to_gains = 0, to_losses = 0, to_income = 0\<rparr>"

definition empty_summary :: "tax_config \<Rightarrow> tax_summary" where
  "empty_summary config =
     \<lparr>ts_year = tc_year config, ts_wallet = tc_wallet config, ts_staking = 0, ts_farming = 0, ts_airdrops = 0,
      ts_nft_sales = 0, ts_other = 0, ts_short_gains = 0, ts_short_losses = 0, ts_long_gains = 0, ts_long_losses = 0,
      ts_income = 0, ts_short_net = 0, ts_long_net = 0, ts_net = 0, ts_by_token = []\<rparr>"

definition add_totals :: "taxable_event \<Rightarrow> token_totals \<Rightarrow> token_totals" where
  "add_totals e r =
     (if te_type e = SELL then
        let r' = r\<lparr>to_sells := to_sells r + 1\<rparr> in
        if 0 \<le> te_gain e then r'\<lparr>to_gains := fadd (to_gains r) (te_gain e)\<rparr>
        else r'\<lparr>to_losses := fadd (to_losses r) \<bar>te_gain e\<bar>\<rparr>
      else if te_type e = STAKE_REWARD \<or> te_type e = YIELD_FARMING \<or> te_type e = AIRDROP
      then r\<lparr>to_income := fadd (to_income r) (te_value e)\<rparr>
      else r)"

definition add_event :: "taxable_event \<Rightarrow> tax_summary \<Rightarrow> tax_summary" where
  "add_event e s0 =
     (let s = s0\<lparr>ts_by_token := put_row (te_symbol e)
                (add_totals e (given_or no_totals (row_of (ts_by_token s0) (te_symbol e)))) (ts_by_token s0)\<rparr>
      in case te_type e of
           SELL \<Rightarrow>
             if 0 \<le> te_gain e then s\<lparr>ts_short_gains := fadd (ts_short_gains s) (te_gain e)\<rparr>
             else s\<lparr>ts_short_losses := fadd (ts_short_losses s) \<bar>te_gain e\<bar>\<rparr>
         | STAKE_REWARD \<Rightarrow> s\<lparr>ts_staking := fadd (ts_staking s) (te_value e)\<rparr>
         | YIELD_FARMING \<Rightarrow> s\<lparr>ts_farming := fadd (ts_farming s) (te_value e)\<rparr>
         | AIRDROP \<Rightarrow> s\<lparr>ts_airdrops := fadd (ts_airdrops s) (te_value e)\<rparr>
         | NFT_SALE \<Rightarrow> s\<lparr>ts_nft_sales := fadd (ts_nft_sales s) (te_value e)\<rparr>
         | _ \<Rightarrow> s)"

definition total_up :: "tax_summary \<Rightarrow> tax_summary" where
  "total_up s =
     (let income = fadd (fadd (fadd (fadd (ts_staking s) (ts_farming s)) (ts_airdrops s)) (ts_nft_sales s)) (ts_other s);
          short_net = fsub (ts_short_gains s) (ts_short_losses s);
          long_net = fsub (ts_long_gains s) (ts_long_losses s)
      in s\<lparr>ts_income := income, ts_short_net := short_net, ts_long_net := long_net,
           ts_net := fadd (fadd income short_net) long_net\<rparr>)"

definition generate_summary :: "tax_config \<Rightarrow> taxable_event list \<Rightarrow> tax_summary" where
  "generate_summary config es = total_up (fold add_event es (empty_summary config))"

definition get_transactions :: "tax_config \<Rightarrow> tax_transaction list" where
  "get_transactions config = []"

definition generate_tax_report :: "tax_config \<Rightarrow> usec \<Rightarrow> exn + tax_summary" where
  "generate_tax_report config now =
     then_sum (calculate_events config now (get_transactions config)) (\<lambda>es. Inr (generate_summary config es))"

definition event_config :: "string \<Rightarrow> int \<Rightarrow> tax_config" where
  "event_config wallet year =
     \<lparr>tc_wallet = wallet, tc_year = year, tc_method = FIFO, tc_staking = True, tc_farming = True, tc_nfts = True,
      tc_airdrops = True, tc_short_days = 365, tc_short_rate = 35, tc_long_rate = 15\<rparr>"

definition get_taxable_events :: "string \<Rightarrow> int \<Rightarrow> string option \<Rightarrow> usec \<Rightarrow> exn + taxable_event list" where
  "get_taxable_events wallet year token now =
     then_sum (calculate_events (event_config wallet year) now (get_transactions (event_config wallet year))) (\<lambda>es.
       Inr (case token of
           None \<Rightarrow> es
         | Some t \<Rightarrow> if t = [] then es else filter (\<lambda>e. te_symbol e = t) es))"

section \<open>Sales use up nothing\<close>

definition is_sale :: "tax_transaction \<Rightarrow> bool" where
  "is_sale t \<longleftrightarrow> tt_type t = Some ''sell''"

definition known_type :: "tax_transaction \<Rightarrow> bool" where
  "known_type t \<longleftrightarrow> given_or ''other'' (tt_type t) \<in> fst ` set transaction_types"

lemma event_of_known: "known_type t \<Longrightarrow> \<exists>e. event_of config now t = Inr e"
  using map_of_eq_None_iff [of transaction_types "given_or ''other'' (tt_type t)"]
  by (cases "map_of transaction_types (given_or ''other'' (tt_type t))") (simp_all add: event_of_def known_type_def)

lemma types_distinct: "distinct (map fst transaction_types)"
  by code_simp

lemma sell_text: "map_of transaction_types k = Some SELL \<longleftrightarrow> k = ''sell''"
  unfolding map_of_eq_Some_iff [OF types_distinct] by (auto simp: transaction_types_def)

lemma sale_type:
  assumes "event_of config now t = Inr e"
  shows "te_type e = SELL \<longleftrightarrow> is_sale t"
proof -
  obtain k where k: "map_of transaction_types (given_or ''other'' (tt_type t)) = Some k" "te_type e = k"
    using assms by (cases "map_of transaction_types (given_or ''other'' (tt_type t))") (auto simp: event_of_def)
  have "k = SELL \<longleftrightarrow> given_or ''other'' (tt_type t) = ''sell''" using k(1) sell_text [of "given_or ''other'' (tt_type t)"] by simp
  then show ?thesis using k(2) by (cases "tt_type t") (simp_all add: is_sale_def given_or_def)
qed

text \<open>The last event is computed from the lots of the acquisitions before it.\<close>

lemma last_event:
  assumes "list_all known_type ts" "known_type t"
  shows "\<exists>es es' e. events_from config now h (ts @ [t]) = Inr (es @ [e]) \<and>
    events_from config now h (filter (\<lambda>x. \<not> is_sale x) ts @ [t]) = Inr (es' @ [e])"
  using assms(1)
proof (induction ts arbitrary: h)
  case Nil
  obtain e where "event_of config now t = Inr e" using event_of_known [OF assms(2)] by blast
  then show ?case by (auto simp: split_beta)
next
  case (Cons x xs)
  obtain y where y: "event_of config now x = Inr y" using event_of_known [of x config now] Cons.prems by auto
  obtain es es' e where e: "events_from config now (fst (step_event config h y)) (xs @ [t]) = Inr (es @ [e])"
    "events_from config now (fst (step_event config h y)) (filter (\<lambda>x. \<not> is_sale x) xs @ [t]) = Inr (es' @ [e])"
    using Cons.IH [of "fst (step_event config h y)"] Cons.prems by auto
  show ?case
  proof (cases "is_sale x")
    case True
    then have "fst (step_event config h y) = h" using sale_type [OF y] by (simp add: step_event_def Let_def)
    then have "events_from config now h (filter (\<lambda>x. \<not> is_sale x) (x # xs) @ [t]) = Inr (es' @ [e])"
      using e(2) True by simp
    moreover have "events_from config now h ((x # xs) @ [t]) = Inr ((snd (step_event config h y) # es) @ [e])"
      using e(1) y by (simp add: split_beta)
    ultimately show ?thesis by blast
  next
    case False
    then have "events_from config now h (filter (\<lambda>x. \<not> is_sale x) (x # xs) @ [t]) = Inr ((snd (step_event config h y) # es') @ [e])"
      using e(2) y by (simp add: split_beta)
    moreover have "events_from config now h ((x # xs) @ [t]) = Inr ((snd (step_event config h y) # es) @ [e])"
      using e(1) y by (simp add: split_beta)
    ultimately show ?thesis by blast
  qed
qed

text \<open>C38: a sale uses up no lots, whatever the method. The event of a transaction, cost basis and gain of a sale
  included, is the same whether or not all the sales before it took place: what was sold once is
  deducted again from the next sale.\<close>

theorem sales_use_up_no_lots:
  assumes "list_all known_type (ts @ [t])"
  shows "\<exists>es es' e. calculate_events config now (ts @ [t]) = Inr (es @ [e]) \<and>
    calculate_events config now (filter (\<lambda>x. \<not> is_sale x) ts @ [t]) = Inr (es' @ [e])"
  using assms last_event [of ts t config now "[]"] by (simp add: calculate_events_def)

text \<open>No sale is long-term, and the settings that leave kinds of income out change nothing.\<close>

lemma add_event_long:
  "ts_long_gains (add_event e s) = ts_long_gains s" "ts_long_losses (add_event e s) = ts_long_losses s"
  by (simp_all add: add_event_def Let_def split: transaction_type.split)

lemma nothing_is_long_term:
  "ts_long_gains (generate_summary config es) = 0 \<and> ts_long_losses (generate_summary config es) = 0"
proof -
  have "ts_long_gains (fold add_event es s) = ts_long_gains s \<and> ts_long_losses (fold add_event es s) = ts_long_losses s" for s
    by (induction es arbitrary: s) (simp_all add: add_event_long)
  then show ?thesis by (simp add: generate_summary_def total_up_def Let_def empty_summary_def)
qed

lemma report_is_empty: "generate_tax_report config now = Inr (total_up (empty_summary config))"
  by (simp add: generate_tax_report_def get_transactions_def calculate_events_def generate_summary_def)

text \<open>One unit bought for 10 and sold twice for 15: both sales deduct the 10.\<close>

definition trade_of :: "string \<Rightarrow> rat \<Rightarrow> tax_transaction" where
  "trade_of k v =
     \<lparr>tt_id = None, tt_date = Some 0, tt_type = Some k, tt_address = None, tt_symbol = Some ''SOL'', tt_quantity = Some 1,
      tt_price = Some v, tt_value = Some v, tt_fee = None, tt_signature = None\<rparr>"

theorem sales_use_up_no_lots_witness:
  "\<exists>es es' e. calculate_events (event_config [] 2026) 0 ([trade_of ''buy'' 10, trade_of ''sell'' 15] @ [trade_of ''sell'' 15])
      = Inr (es @ [e]) \<and>
    calculate_events (event_config [] 2026) 0 ([trade_of ''buy'' 10] @ [trade_of ''sell'' 15]) = Inr (es' @ [e])"
  using sales_use_up_no_lots [of "[trade_of ''buy'' 10, trade_of ''sell'' 15]" "trade_of ''sell'' 15" "event_config [] 2026" 0]
  by (simp add: known_type_def transaction_types_def trade_of_def given_or_def is_sale_def del: append_Cons append_Nil)

end
