(* ===== verification/Token_Security.thy ===== *)
theory Token_Security
  imports Float_Values Usage_Caps
begin

text \<open>
  The token analysis of \<open>services/token_security.py\<close> and its route \<open>POST /token/security\<close>. Every figure
  comes from the body of the request; the answer is cached under the token's address alone. The
  dictionaries are lists of entries. The two placeholders for provider data and the branch over
  transfers, which no caller passes, are left out.
\<close>

type_synonym dict = "(string \<times> json) list"

section \<open>The request\<close>

record token_holder =
  ho_address :: string
  ho_amount :: rat
  ho_pct :: rat

record security_request =
  sr_token :: string
  sr_holders :: "token_holder list option"
  sr_liquidity :: "rat option"
  sr_market_cap :: "rat option"
  sr_mint :: "string option"
  sr_freeze :: "string option"
  sr_supply :: rat
  sr_metadata :: "dict option"
  sr_pair :: "string option"

section \<open>The four analyses\<close>

text \<open>\<open>d.get(k, n)\<close> for a score, \<open>d.get("warnings", [])\<close>, and the shortened address.\<close>

definition score_of :: "string \<Rightarrow> int \<Rightarrow> dict \<Rightarrow> int" where
  "score_of k n d = (case map_of d k of Some (JInt i) \<Rightarrow> i | _ \<Rightarrow> n)"

definition warnings_of :: "dict \<Rightarrow> json list" where
  "warnings_of d = (case map_of d ''warnings'' of Some (JArr xs) \<Rightarrow> xs | _ \<Rightarrow> [])"

definition short :: "string \<Rightarrow> string" where
  "short s = take 8 s @ ''...''"

definition short_or_null :: "string option \<Rightarrow> json" where
  "short_or_null a = (case a of None \<Rightarrow> JNull | Some s \<Rightarrow> if s = [] then JNull else JStr (short s))"

definition concentration :: "rat \<Rightarrow> string \<times> int" where
  "concentration pct =
     (if 50 \<le> pct then (''critical'', 20)
      else if 30 \<le> pct then (''high'', 40)
      else if 20 \<le> pct then (''medium'', 60)
      else (''low'', 80))"

definition top_holder_json :: "nat \<Rightarrow> token_holder \<Rightarrow> json" where
  "top_holder_json i h =
     JObj [(''rank'', JInt (int i + 1)), (''address'', JStr (short (ho_address h))),
           (''percentage'', JFloat (py_round (ho_pct h) 2))]"

definition analyze_holder_distribution :: "token_holder list \<Rightarrow> rat \<Rightarrow> dict" where
  "analyze_holder_distribution holders total_supply =
     (if holders = [] \<or> total_supply \<le> 0 then
        [(''total_holders'', JInt 0), (''top_10_percent'', JInt 0), (''concentration_risk'', JStr ''unknown''),
         (''score'', JInt 0), (''is_suspicious'', JBool True)]
      else
        let sorted = sort_key (\<lambda>h. - ho_amount h) holders;
            top10 = foldl fadd 0 (map ho_pct (take 10 sorted));
            top1 = ho_pct (hd sorted)
        in [(''total_holders'', JInt (int (length holders))), (''top_10_percent'', JFloat (py_round top10 2)),
            (''top_1_percent'', JFloat (py_round top1 2)),
            (''concentration_risk'', JStr (fst (concentration top10))), (''score'', JInt (snd (concentration top10))),
            (''is_suspicious'', JBool (30 \<le> top1)),
            (''top_holders'', JArr (map (\<lambda>(i, h). top_holder_json i h) (enumerate 0 (take 5 sorted))))])"

definition unset :: "string option \<Rightarrow> bool" where
  "unset a \<longleftrightarrow> a = None \<or> a = Some []"

definition check_mint_authority :: "string option \<Rightarrow> string option \<Rightarrow> dict" where
  "check_mint_authority mint freeze =
     (let ms = (if unset mint then 100 else 30); fs = (if unset freeze then 100 else 50); overall = (ms + fs) div 2
      in [(''mint_authority'', short_or_null mint),
          (''mint_status'', JStr (if unset mint then ''renounced'' else ''active'')),
          (''mint_score'', JInt ms), (''freeze_authority'', short_or_null freeze),
          (''freeze_status'', JStr (if unset freeze then ''disabled'' else ''active'')),
          (''freeze_score'', JInt fs), (''overall_score'', JInt overall),
          (''warnings'', JArr
            ((if unset mint then [] else [JStr ''Mint authority is active - tokens can be minted'']) @
             (if unset freeze then [] else [JStr ''Freeze authority is active - funds can be frozen'']))),
          (''is_secure'', JBool (70 \<le> overall))])"

text \<open>\<open>x or 0\<close>, and the same rounded to two places; the dollars of a warning.\<close>

definition or_zero_json :: "(rat \<Rightarrow> rat) \<Rightarrow> rat option \<Rightarrow> json" where
  "or_zero_json f x = (case x of None \<Rightarrow> JInt 0 | Some v \<Rightarrow> if v = 0 then JInt 0 else JFloat (f v))"

definition dollars :: "rat \<Rightarrow> string" where
  "dollars q = butlast (fixed_text True 0 q)"

definition liquidity_band :: "rat \<Rightarrow> string \<times> int \<times> string list" where
  "liquidity_band l =
     (if l < 10000 then (''critical'', 10, [''Very low liquidity ($'' @ dollars l @ '')''])
      else if l < 50000 then (''high'', 30, [''Low liquidity ($'' @ dollars l @ '')''])
      else if l < 100000 then (''medium'', 60, [])
      else (''low'', 90, []))"

definition ratio_step :: "rat \<Rightarrow> rat option \<Rightarrow> int \<Rightarrow> int \<times> string list" where
  "ratio_step l cap score =
     (case cap of
        None \<Rightarrow> (score, [])
      | Some m \<Rightarrow>
          if \<not> m > 0 then (score, [])
          else if fdiv l m < b64 (1 / 100)
          then (max (score - 20) 10, [''Very low liquidity relative to market cap''])
          else if fdiv l m < b64 (5 / 100)
          then (max (score - 10) 20, [''Low liquidity relative to market cap''])
          else (score, []))"

definition no_liquidity :: "rat option \<Rightarrow> dict" where
  "no_liquidity cap =
     [(''liquidity_usd'', JInt 0), (''market_cap_usd'', or_zero_json (\<lambda>v. v) cap),
      (''liquidity_risk'', JStr ''unknown''), (''score'', JInt 0), (''is_suspicious'', JBool True),
      (''warnings'', JArr [JStr ''No liquidity data available''])]"

definition analyze_liquidity :: "rat option \<Rightarrow> rat option \<Rightarrow> string option \<Rightarrow> dict" where
  "analyze_liquidity liquidity cap pair =
     (case liquidity of
        Some l \<Rightarrow>
          if 0 < l then
            (case liquidity_band l of (risk, band, ws1) \<Rightarrow> case ratio_step l cap band of (score, ws2) \<Rightarrow>
               [(''liquidity_usd'', JFloat (py_round l 2)), (''market_cap_usd'', or_zero_json (\<lambda>v. py_round v 2) cap),
                (''liquidity_risk'', JStr risk), (''score'', JInt score),
                (''is_suspicious'', JBool (risk = ''critical'' \<or> risk = ''high'')),
                (''pair_address'', short_or_null pair), (''warnings'', JArr (map JStr (ws1 @ ws2)))])
          else no_liquidity cap
      | None \<Rightarrow> no_liquidity cap)"

text \<open>\<open>metadata.get(k, "").lower()\<close>.\<close>

definition lower_entry :: "string \<Rightarrow> dict \<Rightarrow> exn + string" where
  "lower_entry k d =
     (case map_of d k of
        None \<Rightarrow> Inr []
      | Some (JStr s) \<Rightarrow> Inr (lower s)
      | _ \<Rightarrow> Inl AttributeError)"

definition SUSPICIOUS_NAMES :: "string list" where
  "SUSPICIOUS_NAMES = [''test'', ''fake'', ''scam'', ''ponzi'', ''airdrop'']"

definition detect_suspicious_patterns :: "outside \<Rightarrow> dict \<Rightarrow> exn + dict" where
  "detect_suspicious_patterns env metadata =
     then_sum (lower_entry ''name'' metadata) (\<lambda>name.
     then_sum (lower_entry ''symbol'' metadata) (\<lambda>symbol.
       let bad = list_ex (contains name) SUSPICIOUS_NAMES; short_symbol = (length symbol < 2);
           found = (if bad then [JStr (''Suspicious token name: '' @
                       py_str env (case map_of metadata ''name'' of None \<Rightarrow> JNull | Some v \<Rightarrow> v))] else []) @
                   (if short_symbol then [JStr ''Missing or very short token symbol''] else []);
           risk = (if bad then 30 else 0) + (if short_symbol then 10 else 0)
       in Inr [(''patterns_found'', JArr found), (''risk_score'', JInt (min risk 100)),
               (''is_suspicious'', JBool (30 \<le> risk)), (''warnings'', JArr found)]))"

section \<open>The scores\<close>

definition rug_band :: "rat \<Rightarrow> string \<times> string" where
  "rug_band x =
     (if 70 \<le> x then (''critical'', ''HIGH RUG PULL RISK - Do not buy'')
      else if 50 \<le> x then (''high'', ''Elevated risk - Exercise caution'')
      else if 30 \<le> x then (''medium'', ''Moderate risk - Research further'')
      else (''low'', ''Appears relatively safe''))"

text \<open>\<open>a * u + b * v + c * w + d * x\<close> with the weights in hundredths.\<close>

definition weighted :: "(int \<times> rat) list \<Rightarrow> rat" where
  "weighted xs =
     (case map (\<lambda>(n, w). fmul (to_float n) (b64 (w / 100))) xs of
        [] \<Rightarrow> 0 | y # ys \<Rightarrow> foldl fadd y ys)"

definition rug_score :: "dict \<Rightarrow> dict \<Rightarrow> dict \<Rightarrow> dict \<Rightarrow> rat" where
  "rug_score h l m p =
     weighted [(100 - score_of ''score'' 50 h, 30), (100 - score_of ''score'' 50 l, 35),
               (100 - score_of ''overall_score'' 50 m, 20), (score_of ''risk_score'' 0 p, 15)]"

definition calculate_rug_pull_score :: "dict \<Rightarrow> dict \<Rightarrow> dict \<Rightarrow> dict \<Rightarrow> dict" where
  "calculate_rug_pull_score h l m p =
     [(''rug_pull_score'', JFloat (py_round (rug_score h l m p) 1)),
      (''risk_level'', JStr (fst (rug_band (rug_score h l m p)))),
      (''description'', JStr (snd (rug_band (rug_score h l m p)))),
      (''components'', JObj
        [(''holder_score'', JInt (100 - score_of ''score'' 50 h)),
         (''liquidity_score'', JInt (100 - score_of ''score'' 50 l)),
         (''mint_score'', JInt (100 - score_of ''overall_score'' 50 m)),
         (''pattern_score'', JInt (score_of ''risk_score'' 0 p))])]"

definition overall_score :: "dict \<Rightarrow> dict \<Rightarrow> dict \<Rightarrow> dict \<Rightarrow> rat" where
  "overall_score h l m p =
     weighted [(score_of ''score'' 50 h, 25), (score_of ''score'' 50 l, 30),
               (score_of ''overall_score'' 50 m, 25), (100 - score_of ''risk_score'' 0 p, 20)]"

definition generate_recommendation :: "string \<Rightarrow> rat \<Rightarrow> string" where
  "generate_recommendation risk_level overall =
     (if risk_level = ''critical'' then ''AVOID - High probability of rug pull''
      else if risk_level = ''high'' then ''Exercise extreme caution if buying''
      else if risk_level = ''medium'' then ''Only buy if you understand the risks''
      else if 70 \<le> overall then ''Relatively safe - always do your own research''
      else ''Proceed with caution'')"

section \<open>The analysis and its route\<close>

definition or_empty :: "'a list option \<Rightarrow> 'a list" where
  "or_empty x = (case x of None \<Rightarrow> [] | Some xs \<Rightarrow> xs)"

text \<open>The analysis of one request, without the cache.\<close>

definition analysis_of :: "outside \<Rightarrow> security_request \<Rightarrow> exn + json" where
  "analysis_of env r =
     (let h = analyze_holder_distribution (or_empty (sr_holders r)) (sr_supply r);
          l = analyze_liquidity (sr_liquidity r) (sr_market_cap r) (sr_pair r);
          m = check_mint_authority (sr_mint r) (sr_freeze r)
      in then_sum (detect_suspicious_patterns env (or_empty (sr_metadata r))) (\<lambda>p.
           let rug = calculate_rug_pull_score h l m p; level = fst (rug_band (rug_score h l m p)) in
           Inr (JObj
             [(''token_address'', JStr (sr_token r)), (''overall_score'', JFloat (py_round (overall_score h l m p) 1)),
              (''risk_level'', JStr level), (''rug_pull_analysis'', JObj rug), (''holder_analysis'', JObj h),
              (''liquidity_analysis'', JObj l), (''mint_analysis'', JObj m), (''pattern_analysis'', JObj p),
              (''warnings'', JArr (warnings_of h @ warnings_of l @ warnings_of m @ warnings_of p)),
              (''recommendation'', JStr (generate_recommendation level (overall_score h l m p)))])))"

definition analyze_token_security :: "outside \<Rightarrow> security_request \<Rightarrow> ('z cache_state_scheme, json) io" where
  "analyze_token_security env r =
     bind (cache_get env ''token:security'' [sr_token r]) (\<lambda>cached.
       if cached \<noteq> JNull then return cached
       else
         bind (from_sum (analysis_of env r)) (\<lambda>result.
         bind (cache_set env ''token:security'' result [sr_token r] None) (\<lambda>_. return result)))"

definition token_security_route :: "outside \<Rightarrow> security_request \<Rightarrow> ('z cache_state_scheme, json) io" where
  "token_security_route env r =
     catch_all
       (bind (analyze_token_security env r) (\<lambda>result.
          return (JObj [(''success'', JBool True), (''security'', result)])))
       (\<lambda>_. throw (HttpException 500 ''Internal server error''))"

section \<open>The scores stay in range\<close>

lemma score_ranges:
  "0 \<le> score_of ''score'' 50 (analyze_holder_distribution hs n) \<and> score_of ''score'' 50 (analyze_holder_distribution hs n) \<le> 80"
  "0 \<le> score_of ''score'' 50 (analyze_liquidity l c a) \<and> score_of ''score'' 50 (analyze_liquidity l c a) \<le> 90"
  "40 \<le> score_of ''overall_score'' 50 (check_mint_authority mi fr) \<and> score_of ''overall_score'' 50 (check_mint_authority mi fr) \<le> 100"
  "detect_suspicious_patterns env d = Inr p \<Longrightarrow> 0 \<le> score_of ''risk_score'' 0 p \<and> score_of ''risk_score'' 0 p \<le> 40"
  by (auto simp: score_of_def analyze_holder_distribution_def concentration_def Let_def)
    (auto simp: score_of_def analyze_liquidity_def no_liquidity_def liquidity_band_def ratio_step_def
      check_mint_authority_def detect_suspicious_patterns_def Let_def then_sum_def split: option.splits sum.splits if_splits)

lemma weights:
  "b64 (3 / 20) = 5404319552844595 / 36028797018963968" "b64 (1 / 5) = 3602879701896397 / 18014398509481984"
  "b64 (1 / 4) = 1 / 4" "b64 (3 / 10) = 5404319552844595 / 18014398509481984"
  "b64 (7 / 20) = 3152519739159347 / 9007199254740992"
  by (simp_all add: b64_value [of "3 / 20" 3] b64_value [of "1 / 5" 3] b64_value [of "1 / 4" 2]
      b64_value [of "3 / 10" 2] b64_value [of "7 / 20" 2] round_half_even_def Let_def floor_quotient)

definition exact_weight :: "int \<Rightarrow> bool" where
  "exact_weight w \<longleftrightarrow> 0 \<le> w \<and> w \<le> 100 \<and> b64 (100 * b64 (of_int w / 100)) = of_int w"

lemma exact_weights:
  "exact_weight 15" "exact_weight 20" "exact_weight 25" "exact_weight 30" "exact_weight 35"
  unfolding exact_weight_def using b64_int [of 25]
  by (simp_all add: weights b64_value_up [of 3 "135107988821114875 / 9007199254740992"]
      b64_value_up [of 4 "90071992547409925 / 4503599627370496"]
      b64_value_up [of 4 "135107988821114875 / 4503599627370496"]
      b64_value_up [of 5 "78812993478983675 / 2251799813685248"]
      round_half_even_def Let_def floor_quotient)

lemma weighted_term:
  assumes "exact_weight w" "0 \<le> n" "n \<le> 100"
  shows "0 \<le> fmul (to_float n) (b64 (of_int w / 100)) \<and> fmul (to_float n) (b64 (of_int w / 100)) \<le> of_int w"
proof -
  have w: "0 \<le> b64 (of_int w / 100)" using assms(1) by (simp add: exact_weight_def f64.fl_nonneg)
  have n: "to_float n = of_int n" using assms(2,3) by (intro to_float_small) simp
  have "of_int n * b64 (of_int w / 100) \<le> 100 * b64 (of_int w / 100)"
    using assms(3) w by (intro mult_right_mono) simp_all
  then have "b64 (of_int n * b64 (of_int w / 100)) \<le> of_int w"
    using f64.fl_mono assms(1) unfolding exact_weight_def by metis
  then show ?thesis using assms(2) w by (simp add: fmul_def n f64.fl_nonneg)
qed

lemma fadd_between:
  assumes "0 \<le> x" "x \<le> of_int a" "0 \<le> y" "y \<le> of_int b" "a + b < 2 ^ 53"
  shows "0 \<le> fadd x y \<and> fadd x y \<le> of_int (a + b)"
proof -
  have "0 \<le> (of_int (a + b) :: rat)" using assms(1-4) by simp
  then have "\<bar>a + b\<bar> < 2 ^ 53" using assms(5) by (simp del: of_int_add)
  then have "b64 (of_int (a + b)) = of_int (a + b)" by (rule b64_int)
  moreover have "b64 (x + y) \<le> b64 (of_int (a + b))" using assms(2,4) by (intro f64.fl_mono) simp
  ultimately show ?thesis using assms(1,3) by (simp add: fadd_def f64.fl_nonneg)
qed

lemma weighted_range:
  assumes "exact_weight u" "exact_weight v" "exact_weight w" "exact_weight x" "u + v + w + x = 100"
    and "0 \<le> a \<and> a \<le> 100" "0 \<le> b \<and> b \<le> 100" "0 \<le> c \<and> c \<le> 100" "0 \<le> d \<and> d \<le> 100"
  shows "0 \<le> weighted [(a, of_int u), (b, of_int v), (c, of_int w), (d, of_int x)] \<and>
    weighted [(a, of_int u), (b, of_int v), (c, of_int w), (d, of_int x)] \<le> 100"
proof -
  let ?t = "\<lambda>n w. fmul (to_float n) (b64 (of_int w / 100))"
  note parts = weighted_term [OF assms(1), of a] weighted_term [OF assms(2), of b]
    weighted_term [OF assms(3), of c] weighted_term [OF assms(4), of d]
  have small: "u \<le> 100" "v \<le> 100" "w \<le> 100" "x \<le> 100" using assms(1-4) by (simp_all add: exact_weight_def)
  have s1: "0 \<le> fadd (?t a u) (?t b v) \<and> fadd (?t a u) (?t b v) \<le> of_int (u + v)"
    using parts assms(6,7) small by (intro fadd_between) auto
  then have s2: "0 \<le> fadd (fadd (?t a u) (?t b v)) (?t c w) \<and>
      fadd (fadd (?t a u) (?t b v)) (?t c w) \<le> of_int (u + v + w)"
    using parts assms(8) small by (intro fadd_between) auto
  then have "0 \<le> fadd (fadd (fadd (?t a u) (?t b v)) (?t c w)) (?t d x) \<and>
      fadd (fadd (fadd (?t a u) (?t b v)) (?t c w)) (?t d x) \<le> of_int (u + v + w + x)"
    using parts assms(9) small by (intro fadd_between) auto
  then show ?thesis using assms(5) by (simp add: weighted_def)
qed

definition scores_of :: "json \<Rightarrow> json \<times> json" where
  "scores_of j = (entry_of ''overall_score'' j, entry_of ''rug_pull_score'' (entry_of ''rug_pull_analysis'' j))"

text \<open>C36: the two scores of an analysis are percentages. For every request that is answered the overall score
  and the score of a rug pull lie between 0 and 100, the rounding of every float operation included.\<close>

theorem scores_are_percentages:
  assumes "analysis_of env r = Inr j"
  shows "\<exists>x y. scores_of j = (JFloat x, JFloat y) \<and> 0 \<le> x \<and> x \<le> 100 \<and> 0 \<le> y \<and> y \<le> 100"
proof -
  let ?h = "analyze_holder_distribution (or_empty (sr_holders r)) (sr_supply r)"
  let ?l = "analyze_liquidity (sr_liquidity r) (sr_market_cap r) (sr_pair r)"
  let ?m = "check_mint_authority (sr_mint r) (sr_freeze r)"
  obtain p where p: "detect_suspicious_patterns env (or_empty (sr_metadata r)) = Inr p"
    using assms by (auto simp: analysis_of_def Let_def then_sum_Inr)
  have j: "scores_of j = (JFloat (py_round (overall_score ?h ?l ?m p) 1), JFloat (py_round (rug_score ?h ?l ?m p) 1))"
    using assms p by (auto simp: analysis_of_def Let_def scores_of_def entry_of_def calculate_rug_pull_score_def)
  note ranges = score_ranges(1) [of "or_empty (sr_holders r)" "sr_supply r"]
    score_ranges(2) [of "sr_liquidity r" "sr_market_cap r" "sr_pair r"]
    score_ranges(3) [of "sr_mint r" "sr_freeze r"] score_ranges(4) [OF p]
  have "0 \<le> overall_score ?h ?l ?m p \<and> overall_score ?h ?l ?m p \<le> 100"
    using weighted_range [OF exact_weights(3,4,3,2), of "score_of ''score'' 50 ?h" "score_of ''score'' 50 ?l"
        "score_of ''overall_score'' 50 ?m" "100 - score_of ''risk_score'' 0 p"] ranges
    by (simp add: overall_score_def)
  moreover have "0 \<le> rug_score ?h ?l ?m p \<and> rug_score ?h ?l ?m p \<le> 100"
    using weighted_range [OF exact_weights(4,5,2,1), of "100 - score_of ''score'' 50 ?h" "100 - score_of ''score'' 50 ?l"
        "100 - score_of ''overall_score'' 50 ?m" "score_of ''risk_score'' 0 p"] ranges
    by (simp add: rug_score_def)
  ultimately show ?thesis
    using j py_round_between [of 0 _ 100 1] by auto
qed

section \<open>A caller plants the analysis of a token\<close>

abbreviation security_key :: "string \<Rightarrow> string" where
  "security_key t \<equiv> cache_key ''token:security'' [t]"

lemma security_key_inj: "security_key t = security_key t' \<longleftrightarrow> t = t'"
  by (simp add: cache_key_def make_key_def)

definition answer_of :: "json \<Rightarrow> json" where
  "answer_of j = JObj [(''success'', JBool True), (''security'', j)]"

definition planted :: "string \<Rightarrow> json \<Rightarrow> usec \<Rightarrow> 'z cache_state_scheme \<Rightarrow> bool" where
  "planted t j until w \<longleftrightarrow>
     cache_connected w \<and>
     (\<exists>e. row_of (redis_store w) (security_key t) = Some e \<and> unwrap (re_value e) = j \<and> re_expires e = until)"

lemma cache_get_calm:
  assumes "calm env" "cache_connected w"
  shows "cache_get env ty parts w = (w\<lparr>looks := looks w + 1\<rparr>,
    Inr (case redis_value (redis_store w) (cache_key ty parts) (utc_now env w) of None \<Rightarrow> JNull | Some v \<Rightarrow> unwrap v))"
proof -
  have up: "redis_up env" using assms(1) by (simp add: calm_def)
  have now: "utc_now env (w\<lparr>looks := looks w + 1\<rparr>) = utc_now env w" using assms(1) by (rule calm_now) simp
  show ?thesis using now by (simp add: cache_get_def Let_def with_redis_up [OF up assms(2)] io_simps)
qed

lemma cache_set_calm:
  assumes "calm env" "cache_connected w"
  shows "\<exists>e. cache_set env ''token:security'' j [t] None w =
      (w\<lparr>looks := looks w + 1, redis_store := put_row (security_key t) e (redis_store w)\<rparr>, Inr True) \<and>
    unwrap (re_value e) = j \<and> re_expires e = utc_now env w + seconds 86400"
proof -
  have up: "redis_up env" using assms(1) by (simp add: calm_def)
  have now: "utc_now env (w\<lparr>looks := looks w + 1\<rparr>) = utc_now env w" using assms(1) by (rule calm_now) simp
  have ttl: "cache_ttl ''token:security'' None = 86400"
    by (simp add: cache_ttl_def get_config_def CACHE_CONFIGS_def cfg_def)
  let ?e = "\<lparr>re_value = JObj [(''_v'', JInt 1), (''_fetched_at'', JFloat (time_time env w)), (''_ttl'', JInt 86400), (''_data'', j)],
    re_expires = utc_now env w + seconds 86400\<rparr>"
  have "cache_set env ''token:security'' j [t] None w =
      (w\<lparr>looks := looks w + 1, redis_store := put_row (security_key t) ?e (redis_store w)\<rparr>, Inr True)"
    using now by (simp add: cache_set_def Let_def ttl with_redis_up [OF up assms(2)] io_simps bind_def)
  then show ?thesis by (intro exI [of _ ?e]) (simp add: unwrap_envelope)
qed

lemma analysis_object: "analysis_of env r = Inr j \<Longrightarrow> j \<noteq> JNull"
  by (auto simp: analysis_of_def Let_def then_sum_Inr)

text \<open>A request finds nothing in the cache and leaves its analysis there.\<close>

lemma request_plants:
  assumes "calm env" "cache_connected w" "redis_value (redis_store w) (security_key (sr_token r)) (utc_now env w) = None"
    and "analysis_of env r = Inr j"
  shows "token_security_route env r w = (fst (token_security_route env r w), Inr (answer_of j)) \<and>
    planted (sr_token r) j (utc_now env w + seconds 86400) (fst (token_security_route env r w)) \<and>
    slept (fst (token_security_route env r w)) = slept w"
proof -
  let ?w = "w\<lparr>looks := looks w + 1\<rparr>"
  have now: "utc_now env ?w = utc_now env w" using assms(1) by (rule calm_now) simp
  have c: "cache_connected ?w" using assms(2) by simp
  obtain e where e: "cache_set env ''token:security'' j [sr_token r] None ?w =
      (?w\<lparr>looks := looks ?w + 1, redis_store := put_row (security_key (sr_token r)) e (redis_store ?w)\<rparr>, Inr True)"
    "unwrap (re_value e) = j" "re_expires e = utc_now env w + seconds 86400"
    using cache_set_calm [OF assms(1) c, of j "sr_token r"] now by auto
  show ?thesis
    using assms(2,3) e by (simp add: token_security_route_def analyze_token_security_def catch_all_def try_except_def
        bind_def cache_get_calm [OF assms(1,2)] assms(4) from_sum_def return_def planted_def answer_of_def)
qed

text \<open>A later request, for this token or another, leaves it there.\<close>

lemma request_keeps:
  assumes "calm env" "planted t j until w" "utc_now env w < until" "j \<noteq> JNull"
  shows "planted t j until (fst (token_security_route env r w)) \<and> slept (fst (token_security_route env r w)) = slept w \<and>
    (sr_token r = t \<longrightarrow> snd (token_security_route env r w) = Inr (answer_of j))"
proof -
  have c: "cache_connected w" using assms(2) by (simp add: planted_def)
  have found: "redis_value (redis_store w) (security_key t) (utc_now env w) = Some v \<Longrightarrow> unwrap v = j" for v
    using assms(2) by (auto simp: planted_def redis_value_def split: if_splits)
  have there: "redis_value (redis_store w) (security_key t) (utc_now env w) \<noteq> None"
    using assms(2,3) by (auto simp: planted_def redis_value_def alive_def)
  consider (hit) v where "redis_value (redis_store w) (security_key (sr_token r)) (utc_now env w) = Some v" "unwrap v \<noteq> JNull"
    | (miss) "sr_token r \<noteq> t"
      "(case redis_value (redis_store w) (security_key (sr_token r)) (utc_now env w) of None \<Rightarrow> JNull | Some v \<Rightarrow> unwrap v) = JNull"
  proof (cases "redis_value (redis_store w) (security_key (sr_token r)) (utc_now env w)")
    case None
    then show ?thesis using there that(2) by (cases "sr_token r = t") auto
  next
    case (Some v)
    then show ?thesis using found assms(4) that by (cases "sr_token r = t"; cases "unwrap v = JNull") auto
  qed
  then show ?thesis
  proof cases
    case hit
    then have "token_security_route env r w = (w\<lparr>looks := looks w + 1\<rparr>, Inr (answer_of (unwrap v)))"
      by (simp add: token_security_route_def analyze_token_security_def catch_all_def try_except_def
          bind_def cache_get_calm [OF assms(1) c] return_def answer_of_def)
    then show ?thesis using assms(2) hit found by (auto simp: planted_def)
  next
    case miss
    let ?w = "w\<lparr>looks := looks w + 1\<rparr>"
    have c': "cache_connected ?w" using c by simp
    show ?thesis
    proof (cases "analysis_of env r")
      case (Inl x)
      then show ?thesis using miss assms(2)
        by (simp add: token_security_route_def analyze_token_security_def catch_all_def try_except_def
            bind_def cache_get_calm [OF assms(1) c] from_sum_def throw_def planted_def)
    next
      case (Inr k)
      obtain e where "cache_set env ''token:security'' k [sr_token r] None ?w =
          (?w\<lparr>looks := looks ?w + 1, redis_store := put_row (security_key (sr_token r)) e (redis_store ?w)\<rparr>, Inr True)"
        using cache_set_calm [OF assms(1) c', of k "sr_token r"] by auto
      then show ?thesis using miss assms(2) Inr
        by (simp add: token_security_route_def analyze_token_security_def catch_all_def try_except_def
            bind_def cache_get_calm [OF assms(1) c] from_sum_def return_def planted_def security_key_inj)
    qed
  qed
qed

text \<open>Requests with the time that passes before each, and the answer to every one.\<close>

fun later_answers ::
  "outside \<Rightarrow> (security_request \<times> usec) list \<Rightarrow> 'z cache_state_scheme \<Rightarrow> (security_request \<times> (exn + json)) list" where
  "later_answers env [] w = []"
| "later_answers env ((r, d) # xs) w =
     (case token_security_route env r (fst (sleep d w)) of (w', a) \<Rightarrow> (r, a) # later_answers env xs w')"

lemma later_planted:
  assumes "calm env" "j \<noteq> JNull" "planted t j until w" "utc_now env w + sum_list (map (\<lambda>x. max 0 (snd x)) xs) < until"
  shows "list_all (\<lambda>x. sr_token (fst x) = t \<longrightarrow> snd x = Inr (answer_of j)) (later_answers env xs w)"
  using assms(3,4)
proof (induction xs arbitrary: w)
  case (Cons y ys)
  obtain r d where y: "y = (r, d)" by (cases y)
  let ?w = "fst (sleep d w)"
  have rest: "0 \<le> sum_list (map (\<lambda>x. max 0 (snd x)) ys)" by (intro sum_list_nonneg) auto
  have p: "planted t j until ?w" using Cons.prems(1) by (simp add: planted_def sleep_def)
  have n: "utc_now env ?w = utc_now env w + max 0 d" by (simp add: utc_now_def sleep_def)
  have before: "utc_now env ?w < until" using Cons.prems(2) rest n y by simp
  note k = request_keeps [OF assms(1) p before assms(2), of r]
  have "utc_now env (fst (token_security_route env r ?w)) = utc_now env ?w"
    using assms(1) k by (intro calm_now) simp_all
  then have "list_all (\<lambda>x. sr_token (fst x) = t \<longrightarrow> snd x = Inr (answer_of j))
      (later_answers env ys (fst (token_security_route env r ?w)))"
    using Cons.IH [OF conjunct1 [OF k]] Cons.prems(2) n y by (simp add: algebra_simps)
  then show ?case using k by (simp add: y split_beta)
qed simp

text \<open>C35: whoever asks first decides what everybody is told about a token. The analysis is computed from the
  figures in the body of one request and cached under the address alone: for a day, whatever requests
  follow and whatever figures they carry, every answer for this token is the one of the first caller.\<close>

theorem first_caller_plants_analysis:
  assumes "calm env" and "cache_connected w"
    and "redis_value (redis_store w) (security_key (sr_token r)) (utc_now env w) = None" and "analysis_of env r = Inr j"
    and "sum_list (map (\<lambda>x. max 0 (snd x)) xs) < seconds 86400"
  shows "list_all (\<lambda>x. sr_token (fst x) = sr_token r \<longrightarrow> snd x = Inr (answer_of j))
    (later_answers env xs (fst (token_security_route env r w)))"
proof -
  note p = request_plants [OF assms(1-4)]
  have "utc_now env (fst (token_security_route env r w)) = utc_now env w"
    using assms(1) p by (intro calm_now) simp_all
  then show ?thesis
    using later_planted [OF assms(1) analysis_object [OF assms(4)] conjunct1 [OF conjunct2 [OF p]]] assms(5) by simp
qed

text \<open>Holders given with their amounts alone have no percentages: nothing computes them from the supply.\<close>

lemma amounts_never_suspicious:
  assumes "hs \<noteq> []" "0 < n" "\<forall>h\<in>set hs. ho_pct h = 0"
  shows "score_of ''score'' 50 (analyze_holder_distribution hs n) = 80 \<and>
    map_of (analyze_holder_distribution hs n) ''is_suspicious'' = Some (JBool False)"
proof -
  let ?s = "sort_key (\<lambda>h. - ho_amount h) hs"
  have "foldl fadd 0 (map ho_pct ys) = 0" if "set ys \<subseteq> set hs" for ys
    using that assms(3) by (induction ys) (auto simp: fadd_def b64_def)
  then have "foldl fadd 0 (map ho_pct (take 10 ?s)) = 0"
    using set_take_subset [of 10 ?s] by simp
  moreover have "?s \<noteq> []" using assms(1) by (metis length_0_conv length_sort)
  then have "ho_pct (hd ?s) = 0" using assms(3) by (metis hd_in_set set_sort)
  ultimately show ?thesis
    using assms(1,2) by (simp add: analyze_holder_distribution_def Let_def score_of_def concentration_def)
qed

definition request_example :: security_request where
  "request_example = \<lparr>sr_token = ''t'', sr_holders = None, sr_liquidity = None, sr_market_cap = None, sr_mint = None,
     sr_freeze = None, sr_supply = 0, sr_metadata = None, sr_pair = None\<rparr>"

lemma request_example_analysis: "\<exists>j. analysis_of env request_example = Inr j"
  by (simp add: analysis_of_def request_example_def detect_suspicious_patterns_def lower_entry_def or_empty_def Let_def)

theorem scores_are_percentages_witness:
  "\<exists>j x y. analysis_of calm_example request_example = Inr j \<and> scores_of j = (JFloat x, JFloat y) \<and> 0 \<le> x \<and> y \<le> 100"
  using request_example_analysis [of calm_example] scores_are_percentages [of calm_example request_example] by blast

theorem first_caller_plants_analysis_witness:
  "\<exists>j. analysis_of calm_example request_example = Inr j \<and>
    later_answers calm_example [(request_example\<lparr>sr_liquidity := Some 1000000\<rparr>, seconds 80000)]
      (fst (token_security_route calm_example request_example cache_example)) =
    [(request_example\<lparr>sr_liquidity := Some 1000000\<rparr>, Inr (answer_of j))]"
proof -
  obtain j where j: "analysis_of calm_example request_example = Inr j" using request_example_analysis by blast
  have "redis_value (redis_store cache_example) (security_key (sr_token request_example)) (utc_now calm_example cache_example) = None"
    by (simp add: redis_value_def cache_example_def)
  then have "list_all (\<lambda>x. sr_token (fst x) = sr_token request_example \<longrightarrow> snd x = Inr (answer_of j))
      (later_answers calm_example [(request_example\<lparr>sr_liquidity := Some 1000000\<rparr>, seconds 80000)]
        (fst (token_security_route calm_example request_example cache_example)))"
    using first_caller_plants_analysis [OF calm_witness _ j,
        of "[(request_example\<lparr>sr_liquidity := Some 1000000\<rparr>, seconds 80000)]"] by (simp add: seconds_def)
  then show ?thesis using j by (auto simp: split_beta request_example_def)
qed

end
