(* ===== verification/Position_Risk.thy ===== *)
theory Position_Risk
  imports Token_Security
begin

text \<open>
  The scores of \<open>services/risk_assessment.py\<close> and the two risk routes of \<open>main.py\<close>. A position is the
  dumped body of the request: every key is there, and what was not sent is None. The square root is
  the C library's power. The inputs an answer only echoes are left out of it.
\<close>

section \<open>Positions\<close>

record risk_position =
  rp_id :: "string option"
  rp_protocol :: string
  rp_type :: string
  rp_value :: rat
  rp_collateral :: "rat option"
  rp_debt :: "rat option"
  rp_initial :: "rat option"
  rp_current :: "rat option"
  rp_stable :: "bool option"

text \<open>\<open>x > 0\<close> raises on None.\<close>

definition positive :: "rat option \<Rightarrow> exn + bool" where
  "positive x = (case x of None \<Rightarrow> Inl TypeError | Some v \<Rightarrow> Inr (0 < v))"

definition both_positive :: "rat option \<Rightarrow> rat option \<Rightarrow> exn + bool" where
  "both_positive x y = then_sum (positive x) (\<lambda>b. if b then positive y else Inr False)"

section \<open>Impermanent loss\<close>

record loss_report =
  il_percent :: rat
  il_change :: "rat option"
  il_direction :: string
  il_severity :: string
  il_description :: string

definition loss_severity :: "bool \<Rightarrow> rat \<Rightarrow> string" where
  "loss_severity pegged x =
     (if pegged then (if x < 5 then ''low'' else if x < 15 then ''medium'' else ''high'')
      else (if x < 10 then ''low'' else if x < 25 then ''medium'' else ''high''))"

definition calculate_impermanent_loss :: "(rat \<Rightarrow> rat) \<Rightarrow> rat \<Rightarrow> rat \<Rightarrow> bool \<Rightarrow> loss_report" where
  "calculate_impermanent_loss pow_half initial current pegged =
     (if initial \<le> 0 \<or> current \<le> 0
      then \<lparr>il_percent = 0, il_change = None, il_direction = ''neutral'', il_severity = ''unknown'',
            il_description = ''Invalid price data''\<rparr>
      else
        let ratio = fdiv current initial;
            percent = fmul (fsub (fdiv (fmul 2 (pow_half ratio)) (fadd 1 ratio)) 1) 100;
            change = fmul (fsub ratio 1) 100
        in \<lparr>il_percent = py_round percent 2, il_change = Some (py_round change 2),
            il_direction = (if current = initial then ''none'' else ''loss''),
            il_severity = loss_severity pegged \<bar>percent\<bar>,
            il_description = ''IL of '' @ fixed_text False 2 \<bar>percent\<bar> @ ''% due to '' @ fixed_text False 1 change @
              ''% price change''\<rparr>)"

section \<open>Liquidation\<close>

record liquidation_report =
  lr_health :: "rat option"
  lr_level :: string
  lr_distance :: "rat option"
  lr_headroom :: "rat option"
  lr_description :: string

definition health_level :: "rat \<Rightarrow> string" where
  "health_level h =
     (if 2 \<le> h then ''safe''
      else if 3 / 2 \<le> h then ''warning''
      else if b64 (11 / 10) \<le> h then ''critical''
      else ''liquidation_imminent'')"

text \<open>A health of None is the infinite one.\<close>

definition calculate_liquidation_risk :: "rat \<Rightarrow> rat \<Rightarrow> rat \<Rightarrow> liquidation_report" where
  "calculate_liquidation_risk collateral debt threshold =
     (if collateral \<le> 0 \<or> debt \<le> 0
      then \<lparr>lr_health = None, lr_level = ''none'', lr_distance = None, lr_headroom = None,
            lr_description = ''No debt or collateral''\<rparr>
      else
        let health = fdiv (fmul collateral threshold) debt;
            distance = (if 1 < health then fmul (fdiv (fsub health 1) health) 100 else 0);
            most = fdiv (fmul collateral threshold) (b64 (11 / 10))
        in \<lparr>lr_health = Some (py_round health 2), lr_level = health_level health, lr_distance = Some (py_round distance 2),
            lr_headroom = Some (py_round (fsub most debt) 2),
            lr_description = ''Health factor '' @ fixed_text False 2 health @ '' - '' @ health_level health\<rparr>)"

section \<open>One position\<close>

record found_risk =
  fr_type :: string
  fr_severity :: string
  fr_description :: string

record position_risk =
  pr_id :: "string option"
  pr_protocol :: string
  pr_type :: string
  pr_value :: rat
  pr_score :: int
  pr_level :: string
  pr_risks :: "found_risk list"
  pr_recommendations :: "string list"

definition found :: "string \<Rightarrow> string \<Rightarrow> string \<Rightarrow> found_risk" where
  "found t s d = \<lparr>fr_type = t, fr_severity = s, fr_description = d\<rparr>"

definition PROTOCOL_RISK :: "(string \<times> int) list" where
  "PROTOCOL_RISK =
     [(''jito'', 3), (''marinade'', 3), (''kamino'', 4), (''solend'', 5), (''raydium'', 4), (''orca'', 4), (''meteora'', 5)]"

definition protocol_risk :: "string \<Rightarrow> int" where
  "protocol_risk protocol =
     (case map_of PROTOCOL_RISK (lower protocol) of None \<Rightarrow> 5 | Some n \<Rightarrow> n)"

definition value_risk :: "rat \<Rightarrow> int \<times> found_risk list" where
  "value_risk v =
     (if 10000 < v then (10, [found ''concentration'' ''medium'' (''Large position value ($'' @ dollars v @ '') increases exposure'')])
      else if 50000 < v
      then (20, [found ''concentration'' ''high'' (''Very large position ($'' @ dollars v @ '') - consider diversification'')])
      else (0, []))"

definition lending :: "risk_position \<Rightarrow> bool" where
  "lending p \<longleftrightarrow> contains (lower (rp_type p)) ''lend'' \<or> contains (lower (rp_type p)) ''borrow''"

definition providing :: "risk_position \<Rightarrow> bool" where
  "providing p \<longleftrightarrow> contains (lower (rp_type p)) ''lp'' \<or> contains (lower (rp_type p)) ''liquidity''"

definition or_nought :: "rat option \<Rightarrow> rat" where
  "or_nought x = (case x of None \<Rightarrow> 0 | Some v \<Rightarrow> v)"

definition lending_risk :: "risk_position \<Rightarrow> exn + int \<times> found_risk list" where
  "lending_risk p =
     then_sum (both_positive (rp_collateral p) (rp_debt p)) (\<lambda>b.
       if \<not> b then Inr (0, [])
       else
         let l = calculate_liquidation_risk (or_nought (rp_collateral p)) (or_nought (rp_debt p)) (1 / 2)
         in Inr (if lr_level l = ''critical'' \<or> lr_level l = ''liquidation_imminent''
                 then (30, [found ''liquidation'' ''high'' (lr_description l)])
                 else if lr_level l = ''warning'' then (15, [found ''liquidation'' ''medium'' (lr_description l)])
                 else (0, [])))"

definition pool_risk :: "(rat \<Rightarrow> rat) \<Rightarrow> risk_position \<Rightarrow> exn + int \<times> found_risk list" where
  "pool_risk pow_half p =
     then_sum (both_positive (rp_initial p) (rp_current p)) (\<lambda>b.
       if \<not> b then Inr (0, [])
       else
         let l = calculate_impermanent_loss pow_half (or_nought (rp_initial p)) (or_nought (rp_current p)) (rp_stable p = Some True)
         in Inr (if il_severity l = ''medium'' \<or> il_severity l = ''high''
                 then (if il_severity l = ''medium'' then 15 else 25,
                       [found ''impermanent_loss'' (il_severity l) (il_description l)])
                 else (0, [])))"

definition type_risk :: "(rat \<Rightarrow> rat) \<Rightarrow> risk_position \<Rightarrow> exn + int \<times> found_risk list" where
  "type_risk pow_half p =
     (if lending p then lending_risk p else if providing p then pool_risk pow_half p else Inr (0, []))"

definition score_level :: "rat \<Rightarrow> string" where
  "score_level x = (if x < 25 then ''low'' else if x < 50 then ''medium'' else if x < 75 then ''high'' else ''very_high'')"

definition advice :: "found_risk \<Rightarrow> string list" where
  "advice r =
     (if fr_type r = ''concentration'' then [''Consider diversifying position across multiple protocols'']
      else if fr_type r = ''liquidation'' then [''Add more collateral or reduce debt to improve health factor'']
      else if fr_type r = ''impermanent_loss'' then [''Consider pegged pair LP or single-sided staking'']
      else if fr_type r = ''protocol'' then [''Research protocol security and audits before continuing'']
      else [])"

definition risky :: "string \<Rightarrow> bool" where
  "risky level \<longleftrightarrow> level = ''high'' \<or> level = ''very_high''"

definition generate_risk_recommendations :: "found_risk list \<Rightarrow> string \<Rightarrow> string list" where
  "generate_risk_recommendations risks level =
     concat (map advice risks) @ (if risky level then [''Review all positions and consider risk reduction''] else [])"

definition assess_position_risk :: "(rat \<Rightarrow> rat) \<Rightarrow> risk_position \<Rightarrow> exn + position_risk" where
  "assess_position_risk pow_half p =
     then_sum (type_risk pow_half p) (\<lambda>(n, rs).
       let w = protocol_risk (rp_protocol p);
           r1 = (if 5 \<le> w then [found ''protocol'' ''medium''
                   (''Protocol '' @ rp_protocol p @ '' has elevated risk profile'')] else []);
           risks = r1 @ snd (value_risk (rp_value p)) @ rs;
           score = min (w * 2 + fst (value_risk (rp_value p)) + n) 100;
           level = score_level (of_int score)
       in Inr \<lparr>pr_id = rp_id p, pr_protocol = rp_protocol p, pr_type = rp_type p, pr_value = rp_value p, pr_score = score,
               pr_level = level, pr_risks = risks, pr_recommendations = generate_risk_recommendations risks level\<rparr>)"

section \<open>The portfolio\<close>

record portfolio_risk =
  pf_score :: rat
  pf_level :: string
  pf_analyzed :: nat
  pf_total :: rat
  pf_high_count :: nat
  pf_high_value :: rat
  pf_high :: "position_risk list"
  pf_positions :: "position_risk list"
  pf_recommendations :: "string list"

definition weighted_risk :: "rat \<Rightarrow> position_risk list \<Rightarrow> rat" where
  "weighted_risk whole rs =
     (if 0 < whole then fdiv (py_sum (map (\<lambda>r. fmul (to_float (pr_score r)) (pr_value r)) rs)) whole
      else b64 (of_int (sum_list (map pr_score rs)) / of_nat (length rs)))"

text \<open>None is the answer to no positions.\<close>

definition analyze_portfolio_risk :: "(rat \<Rightarrow> rat) \<Rightarrow> risk_position list \<Rightarrow> exn + portfolio_risk option" where
  "analyze_portfolio_risk pow_half positions =
     (if positions = [] then Inr None
      else
        then_sum (collect (assess_position_risk pow_half) positions) (\<lambda>rs.
          let high = filter (\<lambda>r. risky (pr_level r)) rs;
              whole = foldl fadd 0 (map pr_value rs);
              high_value = foldl fadd 0 (map pr_value high);
              weighted = weighted_risk whole rs;
              level = score_level weighted
          in Inr (Some \<lparr>pf_score = py_round weighted 1, pf_level = level, pf_analyzed = length positions,
               pf_total = py_round whole 2, pf_high_count = length high, pf_high_value = py_round high_value 2,
               pf_high = high, pf_positions = rs,
               pf_recommendations =
                 (if high = [] then [] else [''Address '' @ show_int (int (length high)) @ '' high-risk positions'']) @
                 (if 0 < whole \<and> 1 / 2 < fdiv high_value whole
                  then [''Over 50% of portfolio in high-risk positions - diversify''] else []) @
                 (if risky level then [''Consider reducing overall portfolio risk''] else [])\<rparr>)))"

definition or_500 :: "exn + 'a \<Rightarrow> exn + 'a" where
  "or_500 r = (case r of Inl e \<Rightarrow> Inl (HttpException 500 ''Internal server error'') | Inr x \<Rightarrow> Inr x)"

definition risk_analyze_route :: "(rat \<Rightarrow> rat) \<Rightarrow> risk_position list \<Rightarrow> exn + portfolio_risk option" where
  "risk_analyze_route pow_half positions = or_500 (analyze_portfolio_risk pow_half positions)"

definition risk_position_route :: "(rat \<Rightarrow> rat) \<Rightarrow> risk_position \<Rightarrow> exn + position_risk" where
  "risk_position_route pow_half p = or_500 (assess_position_risk pow_half p)"

section \<open>What the scores can say\<close>

lemma protocol_risk_range: "3 \<le> protocol_risk t \<and> protocol_risk t \<le> 5"
proof (cases "map_of PROTOCOL_RISK (lower t)")
  case (Some n)
  have "n \<in> {3, 4, 5}" using map_of_SomeD [OF Some] unfolding PROTOCOL_RISK_def by auto
  then show ?thesis using Some by (auto simp: protocol_risk_def)
qed (simp add: protocol_risk_def)

lemma value_risk_range: "fst (value_risk v) = 0 \<or> fst (value_risk v) = 10"
  by (auto simp: value_risk_def)

lemma type_risk_range: "type_risk pow_half p = Inr (n, rs) \<Longrightarrow> 0 \<le> n \<and> n \<le> 30"
  by (auto simp: type_risk_def lending_risk_def pool_risk_def then_sum_Inr Let_def split: if_splits)

text \<open>C37: the score of a position never says how bad it is. It lies between 6 and 50, so no position is ever of
  a very high risk; it is of a high risk exactly at 50, which takes a protocol rated 5, and a position
  on any other protocol is at most of a medium risk, its size and its health factor whatever they are.\<close>

theorem risk_scores_capped:
  assumes "assess_position_risk pow_half p = Inr r"
  shows "6 \<le> pr_score r \<and> pr_score r \<le> 50 \<and> pr_level r \<noteq> ''very_high'' \<and> (pr_level r = ''high'' \<longleftrightarrow> pr_score r = 50) \<and>
    (protocol_risk (rp_protocol p) \<noteq> 5 \<longrightarrow> pr_level r \<noteq> ''high'')"
proof -
  obtain n rs where n: "type_risk pow_half p = Inr (n, rs)"
    using assms by (auto simp: assess_position_risk_def then_sum_Inr)
  have s: "pr_score r = protocol_risk (rp_protocol p) * 2 + fst (value_risk (rp_value p)) + n"
    and l: "pr_level r = score_level (of_int (pr_score r))"
    using assms n protocol_risk_range [of "rp_protocol p"] value_risk_range [of "rp_value p"] type_risk_range [OF n]
    by (auto simp: assess_position_risk_def Let_def)
  have b: "6 \<le> pr_score r" "pr_score r \<le> 50" "protocol_risk (rp_protocol p) \<noteq> 5 \<longrightarrow> pr_score r < 50"
    using s protocol_risk_range [of "rp_protocol p"] value_risk_range [of "rp_value p"] type_risk_range [OF n] by auto
  show ?thesis using b by (auto simp: l score_level_def)
qed

text \<open>One figure left out fails the whole portfolio. A request with a lending position without its
  collateral, or a pool position without its opening price, is answered by an internal server error,
  although the schema of the request makes these figures optional.\<close>

theorem missing_figure_fails_portfolio:
  assumes "p \<in> set ps" and "lending p \<and> rp_collateral p = None \<or> \<not> lending p \<and> providing p \<and> rp_initial p = None"
  shows "risk_analyze_route pow_half ps = Inl (HttpException 500 ''Internal server error'')"
proof -
  have "\<exists>e. assess_position_risk pow_half p = Inl e"
    using assms(2) by (auto simp: assess_position_risk_def type_risk_def lending_risk_def pool_risk_def both_positive_def positive_def)
  then have "\<exists>e. collect (assess_position_risk pow_half) ps = Inl e"
    using assms(1)
  proof (induction ps)
    case (Cons q qs)
    then show ?case by (cases "assess_position_risk pow_half q"; cases "collect (assess_position_risk pow_half) qs") auto
  qed simp
  then show ?thesis using assms(1) by (auto simp: risk_analyze_route_def analyze_portfolio_risk_def or_500_def)
qed

lemma lowered: "lower ''lend'' = ''lend''" "lower ''Kamino'' = ''kamino''" by code_simp+

lemma lend_named: "contains ''lend'' ''lend''" by code_simp

text \<open>A loan whose collateral does not even cover the debt.\<close>

definition bad_loan :: risk_position where
  "bad_loan =
     \<lparr>rp_id = None, rp_protocol = ''Kamino'', rp_type = ''lend'', rp_value = 1000000, rp_collateral = Some 1000000,
      rp_debt = Some 2000000, rp_initial = None, rp_current = None, rp_stable = None\<rparr>"

lemma bad_loan_lends: "lending (bad_loan\<lparr>rp_collateral := c\<rparr>)" "lending bad_loan"
  by (simp_all add: lending_def bad_loan_def lowered lend_named del: contains.simps)

theorem risk_scores_capped_witness:
  "\<exists>r. assess_position_risk (\<lambda>x. x) bad_loan = Inr r \<and> pr_level r \<noteq> ''high'' \<and> pr_level r \<noteq> ''very_high''"
proof -
  have "\<exists>x. lending_risk bad_loan = Inr x"
    unfolding lending_risk_def both_positive_def positive_def by (simp add: bad_loan_def Let_def del: contains.simps)
  then have "\<exists>r. assess_position_risk (\<lambda>x. x) bad_loan = Inr r"
    by (auto simp: assess_position_risk_def type_risk_def bad_loan_lends Let_def)
  moreover have "protocol_risk (rp_protocol bad_loan) \<noteq> 5"
    by (simp add: protocol_risk_def PROTOCOL_RISK_def bad_loan_def lowered)
  ultimately show ?thesis using risk_scores_capped by blast
qed

theorem missing_figure_fails_portfolio_witness:
  "risk_analyze_route (\<lambda>x. x) [bad_loan\<lparr>rp_collateral := None\<rparr>] = Inl (HttpException 500 ''Internal server error'')"
  using missing_figure_fails_portfolio [of "bad_loan\<lparr>rp_collateral := None\<rparr>" "[bad_loan\<lparr>rp_collateral := None\<rparr>]"]
    bad_loan_lends by simp

end
