(* ===== verification/Fee_Estimates.thy ===== *)
theory Fee_Estimates
  imports Usage_Caps
begin

text \<open>
  Priority fees, tips and protection of \<open>services/mev_protection.py\<close> with the routes of \<open>main.py\<close> over them.
  An estimate is kept in Redis for a minute through the raw client. \<open>random.randint\<close> is the
  parameter \<open>draw\<close>, asked at the number of outside calls made so far.
\<close>

section \<open>Configurations\<close>

datatype protection_level = Level_None | Level_Low | Level_Medium | Level_High | Level_Maximum

datatype transaction_priority = Priority_Low | Priority_Medium | Priority_High | Priority_Urgent

datatype protection_strategy = Jito_Bundle | Jito_Tip | Privity | Flashbots | Standard

definition priority_text :: "transaction_priority \<Rightarrow> string" where
  "priority_text p =
     (case p of Priority_Low \<Rightarrow> ''low'' | Priority_Medium \<Rightarrow> ''medium'' | Priority_High \<Rightarrow> ''high'' | Priority_Urgent \<Rightarrow> ''urgent'')"

definition priority_of :: "string \<Rightarrow> exn + transaction_priority" where
  "priority_of s = or_raise ValueError (map_of
     [(''low'', Priority_Low), (''medium'', Priority_Medium), (''high'', Priority_High), (''urgent'', Priority_Urgent)] s)"

definition level_of :: "string \<Rightarrow> exn + protection_level" where
  "level_of s = or_raise ValueError (map_of
     [(''none'', Level_None), (''low'', Level_Low), (''medium'', Level_Medium), (''high'', Level_High),
      (''maximum'', Level_Maximum)] s)"

definition strategy_of :: "string \<Rightarrow> exn + protection_strategy" where
  "strategy_of s = or_raise ValueError (map_of
     [(''jito_bundle'', Jito_Bundle), (''jito_tip'', Jito_Tip), (''privity'', Privity), (''flashbots'', Flashbots),
      (''standard'', Standard)] s)"

record fee_config =
  fc_priority :: transaction_priority
  fc_min :: int
  fc_max :: int
  fc_percentile :: int
  fc_use_jito :: bool
  fc_tip_percentile :: int

record protection_config =
  mc_level :: protection_level
  mc_strategy :: protection_strategy
  mc_slippage :: int
  mc_extra_slippage :: int
  mc_deadline :: int
  mc_max_deadline :: int
  mc_bundle_timeout :: int
  mc_bundle_retries :: int
  mc_sandwich :: bool
  mc_impact :: bool
  mc_max_impact :: int

definition fee_config_of :: "transaction_priority \<Rightarrow> bool \<Rightarrow> fee_config" where
  "fee_config_of p jito =
     \<lparr>fc_priority = p, fc_min = 1000, fc_max = 100000, fc_percentile = 90, fc_use_jito = jito, fc_tip_percentile = 95\<rparr>"

definition protection_config_of ::
  "protection_level \<Rightarrow> protection_strategy \<Rightarrow> int \<Rightarrow> bool \<Rightarrow> bool \<Rightarrow> protection_config" where
  "protection_config_of l s slippage sandwich impact =
     \<lparr>mc_level = l, mc_strategy = s, mc_slippage = slippage, mc_extra_slippage = 100, mc_deadline = 120,
      mc_max_deadline = 300, mc_bundle_timeout = 10000, mc_bundle_retries = 3, mc_sandwich = sandwich, mc_impact = impact,
      mc_max_impact = 500\<rparr>"

definition get_default_protection_config :: "string \<Rightarrow> protection_config" where
  "get_default_protection_config risk_tolerance =
     (if risk_tolerance = ''conservative'' then protection_config_of Level_High Jito_Bundle 500 True True
      else if risk_tolerance = ''aggressive'' then protection_config_of Level_Low Standard 200 False False
      else protection_config_of Level_Medium Jito_Tip 300 True True)"

definition get_priority_fee_config :: "string \<Rightarrow> fee_config" where
  "get_priority_fee_config urgency =
     (if urgency = ''fast'' then fee_config_of Priority_High True
      else if urgency = ''slow'' then fee_config_of Priority_Low False
      else fee_config_of Priority_Medium True)"

section \<open>Estimates\<close>

type_synonym draws = "nat \<Rightarrow> int \<Rightarrow> int \<Rightarrow> int"

definition fee_key :: "transaction_priority \<Rightarrow> string" where
  "fee_key p = ''mev:priority_fee:'' @ priority_text p"

definition base_fee :: "transaction_priority \<Rightarrow> int" where
  "base_fee p =
     (case p of Priority_Low \<Rightarrow> 1000 | Priority_Medium \<Rightarrow> 5000 | Priority_High \<Rightarrow> 20000 | Priority_Urgent \<Rightarrow> 100000)"

definition base_tip :: "transaction_priority \<Rightarrow> int" where
  "base_tip p =
     (case p of Priority_Low \<Rightarrow> 1000 | Priority_Medium \<Rightarrow> 5000 | Priority_High \<Rightarrow> 10000 | Priority_Urgent \<Rightarrow> 50000)"

definition cached_fee :: "outside \<Rightarrow> transaction_priority \<Rightarrow> ('z cache_state_scheme, int option) io" where
  "cached_fee env p =
     bind (redis_reached env ''GET'' (fee_key p)) (\<lambda>ok.
       if \<not> ok then return None
       else gets (\<lambda>w. case redis_value (redis_store w) (fee_key p) (utc_now env w) of
           Some (JStr s) \<Rightarrow> parse_int 10 s
         | _ \<Rightarrow> None))"

definition store_fee :: "outside \<Rightarrow> transaction_priority \<Rightarrow> int \<Rightarrow> ('z cache_state_scheme, unit) io" where
  "store_fee env p fee =
     bind (redis_reached env ''SETEX'' (fee_key p)) (\<lambda>ok.
       if ok then modify (\<lambda>w. w\<lparr>redis_store := put_row (fee_key p)
           \<lparr>re_value = JStr (show_int fee), re_expires = utc_now env w + seconds 60\<rparr> (redis_store w)\<rparr>)
       else return ())"

definition get_priority_fee_estimate ::
  "outside \<Rightarrow> draws \<Rightarrow> transaction_priority \<Rightarrow> ('z cache_state_scheme, int) io" where
  "get_priority_fee_estimate env draw p =
     bind (cached_fee env p) (\<lambda>c.
       case c of
         Some fee \<Rightarrow> return fee
       | None \<Rightarrow>
           bind (gets (\<lambda>w. max 1000 (base_fee p + draw (looks w) (- 500) 500))) (\<lambda>fee.
           bind (store_fee env p fee) (\<lambda>_. return fee)))"

definition get_jito_tip_estimate :: "draws \<Rightarrow> transaction_priority \<Rightarrow> ('z cache_state_scheme, int) io" where
  "get_jito_tip_estimate draw p = gets (\<lambda>w. max 1000 (base_tip p + draw (looks w) (- 1000) 1000))"

record estimated_fees =
  ef_units :: int
  ef_unit_price :: int
  ef_priority_fee :: int
  ef_tip :: int
  ef_bundle :: bool
  ef_total_lamports :: int
  ef_total_sol :: rat

definition fees_of :: "int \<Rightarrow> int \<Rightarrow> int \<Rightarrow> bool \<Rightarrow> estimated_fees" where
  "fees_of price fee tip bundle =
     (let whole = 200000 * price + fee + (if bundle then tip else 0)
      in \<lparr>ef_units = 200000, ef_unit_price = price, ef_priority_fee = fee, ef_tip = tip, ef_bundle = bundle,
          ef_total_lamports = whole, ef_total_sol = b64 (of_int whole / 1000000000)\<rparr>)"

definition estimate_fees :: "outside \<Rightarrow> draws \<Rightarrow> fee_config \<Rightarrow> ('z cache_state_scheme, estimated_fees) io" where
  "estimate_fees env draw config =
     bind (get_priority_fee_estimate env draw (fc_priority config)) (\<lambda>est.
       let fee = max (fc_min config) (min (fc_max config) est) in
       if fc_use_jito config then
         bind (get_jito_tip_estimate draw (fc_priority config)) (\<lambda>tip.
           return (fees_of fee fee tip (fc_priority config = Priority_High \<or> fc_priority config = Priority_Urgent)))
       else return (fees_of fee fee 0 False))"

section \<open>Protection\<close>

record protection_result =
  pt_applied :: bool
  pt_level :: protection_level
  pt_strategy :: "protection_strategy option"
  pt_priority_fee :: int
  pt_tip :: int
  pt_slippage :: int
  pt_deadline :: int
  pt_recommended :: bool
  pt_warning :: "string option"
  pt_suggestions :: "string list"
  pt_impact :: int
  pt_sandwich :: bool

definition no_protection :: protection_result where
  "no_protection =
     \<lparr>pt_applied = False, pt_level = Level_None, pt_strategy = None, pt_priority_fee = 0, pt_tip = 0, pt_slippage = 0,
      pt_deadline = 0, pt_recommended = False, pt_warning = None, pt_suggestions = [], pt_impact = 0, pt_sandwich = False\<rparr>"

definition uses_jito :: "protection_config \<Rightarrow> bool" where
  "uses_jito c \<longleftrightarrow> mc_strategy c = Jito_Tip \<or> mc_strategy c = Jito_Bundle"

definition level_priority :: "protection_level \<Rightarrow> transaction_priority" where
  "level_priority l = (case l of Level_High \<Rightarrow> Priority_High | Level_Maximum \<Rightarrow> Priority_Urgent | _ \<Rightarrow> Priority_Medium)"

definition protection_of :: "outside \<Rightarrow> protection_config \<Rightarrow> int \<Rightarrow> int \<Rightarrow> int \<Rightarrow> protection_result" where
  "protection_of env c impact fee tip =
     (let high = mc_impact c \<and> mc_max_impact c < impact;
          sandwich = mc_sandwich c \<and> 100 < impact;
          best = mc_level c = Level_Medium \<or> mc_level c = Level_High
      in \<lparr>pt_applied = True, pt_level = mc_level c, pt_strategy = (if uses_jito c then Some (mc_strategy c) else None),
          pt_priority_fee = fee, pt_tip = tip,
          pt_slippage = (if uses_jito c then mc_slippage c + mc_extra_slippage c else mc_slippage c),
          pt_deadline = mc_deadline c, pt_recommended = best,
          pt_warning = (if high then Some (''High price impact detected: '' @
            py_str env (JFloat (b64 (of_int impact / 100))) @ ''%'') else None),
          pt_suggestions =
            (if high then [''Consider reducing trade size or using limit order''] else []) @
            (if sandwich then [''Sandwich attack detected - consider using Jito bundle for protection''] else []) @
            (if best then [''Enable Jito bundle for maximum MEV protection''] else []),
          pt_impact = impact, pt_sandwich = sandwich\<rparr>)"

definition apply_protection ::
  "outside \<Rightarrow> draws \<Rightarrow> protection_config \<Rightarrow> int \<Rightarrow> ('z cache_state_scheme, protection_result) io" where
  "apply_protection env draw c impact =
     (if mc_level c = Level_None then return no_protection
      else
        bind (get_priority_fee_estimate env draw (level_priority (mc_level c))) (\<lambda>fee.
        bind (if uses_jito c then get_jito_tip_estimate draw (level_priority (mc_level c)) else return 0) (\<lambda>tip.
          return (protection_of env c impact fee tip))))"

text \<open>\<open>int(n * x)\<close> with a float factor.\<close>

definition scale :: "int \<Rightarrow> rat \<Rightarrow> int" where
  "scale n x = py_int (fmul (to_float n) (b64 x))"

definition calculate_slippage :: "rat \<Rightarrow> protection_level \<Rightarrow> int \<Rightarrow> int" where
  "calculate_slippage amount level base =
     (let s0 = (case level of Level_None \<Rightarrow> base | Level_Low \<Rightarrow> scale base (12 / 10) | Level_Medium \<Rightarrow> scale base (15 / 10)
                 | Level_High \<Rightarrow> scale base 2 | Level_Maximum \<Rightarrow> scale base 3);
          s1 = (if 10000 < amount then scale s0 (11 / 10) else s0);
          s2 = (if 100000 < amount then scale s1 (125 / 100) else s1)
      in min s2 5000)"

definition create_bundle_params :: "string list \<Rightarrow> int \<Rightarrow> int \<Rightarrow> json" where
  "create_bundle_params transactions tip timeout_ms =
     JObj [(''jsonrpc'', JStr ''2.0''), (''id'', JInt 1), (''method'', JStr ''sendBundle''),
       (''params'', JObj [(''bundle'', JArr (map JStr transactions)), (''tip'', JInt tip), (''timeout'', JInt timeout_ms)])]"

definition calculate_deadline :: "protection_level \<Rightarrow> int \<Rightarrow> int" where
  "calculate_deadline level base =
     max 30 (case level of Level_High \<Rightarrow> scale base (75 / 100) | Level_Maximum \<Rightarrow> scale base (1 / 2) | _ \<Rightarrow> base)"

section \<open>Routes\<close>

definition or_server_error :: "('s, 'a) io \<Rightarrow> ('s, 'a) io" where
  "or_server_error m = catch_all m (\<lambda>_. throw (HttpException 500 ''Internal server error''))"

definition priority_fee_route :: "outside \<Rightarrow> draws \<Rightarrow> string \<Rightarrow> ('z cache_state_scheme, int) io" where
  "priority_fee_route env draw priority =
     or_server_error (bind (from_sum (priority_of priority)) (get_priority_fee_estimate env draw))"

definition jito_tip_route :: "draws \<Rightarrow> string \<Rightarrow> ('z cache_state_scheme, int) io" where
  "jito_tip_route draw priority = or_server_error (bind (from_sum (priority_of priority)) (get_jito_tip_estimate draw))"

definition estimate_fees_route ::
  "outside \<Rightarrow> draws \<Rightarrow> string \<Rightarrow> bool \<Rightarrow> int \<Rightarrow> ('z cache_state_scheme, estimated_fees) io" where
  "estimate_fees_route env draw priority use_jito compute_units =
     or_server_error (bind (from_sum (priority_of priority)) (\<lambda>p. estimate_fees env draw (fee_config_of p use_jito)))"

definition protection_route ::
  "outside \<Rightarrow> draws \<Rightarrow> string \<Rightarrow> string \<Rightarrow> int \<Rightarrow> bool \<Rightarrow> bool \<Rightarrow> int \<Rightarrow> ('z cache_state_scheme, protection_result) io" where
  "protection_route env draw level strategy slippage sandwich check_impact impact =
     or_server_error
       (bind (from_sum (level_of level)) (\<lambda>l.
        bind (from_sum (strategy_of strategy)) (\<lambda>s.
          apply_protection env draw (protection_config_of l s slippage sandwich check_impact) impact)))"

section \<open>What an estimate can be\<close>

text \<open>What \<open>random.randint\<close> documents, and the cached fees being fees of this service.\<close>

definition fair :: "draws \<Rightarrow> bool" where
  "fair draw \<longleftrightarrow> (\<forall>n a b. a \<le> b \<longrightarrow> a \<le> draw n a b \<and> draw n a b \<le> b)"

definition fees_kept :: "'z cache_state_scheme \<Rightarrow> bool" where
  "fees_kept w \<longleftrightarrow>
     (\<forall>p e. row_of (redis_store w) (fee_key p) = Some e \<longrightarrow>
        (\<exists>n. re_value e = JStr (show_int n) \<and> 1000 \<le> n \<and> base_fee p - 500 \<le> n \<and> n \<le> base_fee p + 500))"

lemma fee_key_inj: "fee_key p = fee_key q \<longleftrightarrow> p = q"
  by (cases p; cases q) (simp_all add: fee_key_def priority_text_def)

lemma redis_reached_any: "\<exists>ok. redis_reached env cmd key w = (w\<lparr>looks := looks w + 1\<rparr>, Inr ok)"
  by (auto simp: redis_reached_def http_call_def bind_def io_simps split: http_outcome.split)

lemma fees_kept_looks [simp]: "fees_kept (w\<lparr>looks := n\<rparr>) = fees_kept w"
  by (simp add: fees_kept_def)

definition fee_in_band :: "transaction_priority \<Rightarrow> int \<Rightarrow> bool" where
  "fee_in_band p n \<longleftrightarrow> 1000 \<le> n \<and> base_fee p - 500 \<le> n \<and> n \<le> base_fee p + 500"

lemma fees_kept_put:
  "fees_kept w \<Longrightarrow> fee_in_band p n \<Longrightarrow>
   fees_kept (w\<lparr>redis_store := put_row (fee_key p) \<lparr>re_value = JStr (show_int n), re_expires = t\<rparr> (redis_store w)\<rparr>)"
  by (auto simp: fees_kept_def fee_in_band_def fee_key_inj)

lemma fresh_fee:
  "fair draw \<Longrightarrow> fee_in_band p (max 1000 (base_fee p + draw n (- 500) 500))"
  unfolding fair_def fee_in_band_def by (cases p) (simp_all add: base_fee_def max_def, (smt (verit))+)

lemma store_fee_keeps:
  assumes "fees_kept w" "fee_in_band p n"
  shows "\<exists>w'. store_fee env p n w = (w', Inr ()) \<and> fees_kept w'"
proof -
  obtain ok where "redis_reached env ''SETEX'' (fee_key p) w = (w\<lparr>looks := looks w + 1\<rparr>, Inr ok)"
    using redis_reached_any by blast
  then show ?thesis
    using fees_kept_put [of "w\<lparr>looks := looks w + 1\<rparr>" p n] assms
    by (cases ok) (auto simp: store_fee_def bind_def io_simps)
qed

text \<open>An estimate is in the band of its priority, whether it is fresh or comes from the cache.\<close>

lemma priority_fee_in_band:
  assumes "fair draw" "fees_kept w"
  shows "\<exists>w' n. get_priority_fee_estimate env draw p w = (w', Inr n) \<and> fees_kept w' \<and> fee_in_band p n"
proof -
  let ?w = "w\<lparr>looks := looks w + 1\<rparr>"
  obtain ok where "redis_reached env ''GET'' (fee_key p) w = (?w, Inr ok)" using redis_reached_any by blast
  then have c: "cached_fee env p w = (?w, Inr (if ok then
      (case redis_value (redis_store w) (fee_key p) (utc_now env ?w) of Some (JStr s) \<Rightarrow> parse_int 10 s | _ \<Rightarrow> None) else None))"
    by (simp add: cached_fee_def bind_def io_simps)
  have k: "fees_kept ?w" using assms(2) by simp
  show ?thesis
  proof (cases "snd (cached_fee env p w)")
    case (Inr r)
    show ?thesis
    proof (cases r)
      case None
      let ?n = "max 1000 (base_fee p + draw (looks ?w) (- 500) 500)"
      obtain w' where "store_fee env p ?n ?w = (w', Inr ())" "fees_kept w'"
        using store_fee_keeps [OF k fresh_fee [OF assms(1)]] by blast
      then show ?thesis
        using c Inr None fresh_fee [OF assms(1)] by (auto simp: get_priority_fee_estimate_def bind_def io_simps)
    next
      case (Some n)
      then obtain e s where "row_of (redis_store w) (fee_key p) = Some e" "re_value e = JStr s" "parse_int 10 s = Some n"
        using c Inr by (auto simp: redis_value_def split: if_splits option.splits json.splits)
      then have "fee_in_band p n" using assms(2) by (force simp: fees_kept_def fee_in_band_def)
      then show ?thesis using c Inr Some k by (auto simp: get_priority_fee_estimate_def bind_def io_simps)
    qed
  qed (use c in simp)
qed

lemma tip_in_band:
  assumes "fair draw"
  shows "\<exists>n. get_jito_tip_estimate draw p w = (w, Inr n) \<and> 1000 \<le> n \<and> n \<le> 51000"
proof -
  have "draw (looks w) (- 1000) 1000 \<le> 1000" using assms by (simp add: fair_def)
  then show ?thesis by (cases p) (auto simp: get_jito_tip_estimate_def gets_def base_tip_def)
qed

text \<open>No estimate of the fees is below a fifth of a SOL. Whatever the cache holds and whatever is drawn, the
  price of a compute unit stays between its limits of 1000 and 100000 micro-lamports, and the total, which
  adds micro-lamports up as lamports, is between 200001000 and 20000151000 lamports; the compute units of
  the request are not looked at.\<close>

theorem fee_estimates_in_sols:
  assumes "fair draw" and "fees_kept w" and "priority_of t = Inr p"
  shows "\<exists>w' f. estimate_fees_route env draw t jito units w = (w', Inr f) \<and> fees_kept w' \<and>
    1000 \<le> ef_unit_price f \<and> ef_unit_price f \<le> 100000 \<and>
    200001000 \<le> ef_total_lamports f \<and> ef_total_lamports f \<le> 20000151000 \<and> ef_units f = 200000"
proof -
  obtain w1 n where n: "get_priority_fee_estimate env draw p w = (w1, Inr n)" "fees_kept w1"
    using priority_fee_in_band [OF assms(1,2)] by blast
  obtain m where m: "get_jito_tip_estimate draw p w1 = (w1, Inr m)" "1000 \<le> m" "m \<le> 51000"
    using tip_in_band [OF assms(1)] by blast
  let ?fee = "max 1000 (min 100000 n)"
  have "estimate_fees_route env draw t jito units w =
      (w1, Inr (if jito then fees_of ?fee ?fee m (p = Priority_High \<or> p = Priority_Urgent) else fees_of ?fee ?fee 0 False))"
    using n m(1) assms(3) by (simp add: estimate_fees_route_def or_server_error_def catch_all_def try_except_def
        estimate_fees_def fee_config_of_def bind_def io_simps Let_def)
  then show ?thesis using n(2) m(2,3) by (auto simp: fees_of_def Let_def)
qed

text \<open>Protection with tips accepts a worse price than the limit of the user.\<close>

lemma tips_loosen_slippage:
  "uses_jito c \<Longrightarrow> pt_slippage (protection_of env c impact fee tip) = mc_slippage c + mc_extra_slippage c"
  by (simp add: protection_of_def Let_def)

lemma slippage_capped: "calculate_slippage amount level base \<le> 5000"
  by (simp add: calculate_slippage_def Let_def)

lemma fair_example: "fair (\<lambda>n a b. a)" "fees_kept cache_example"
  by (simp_all add: fair_def fees_kept_def cache_example_def)

theorem fee_estimates_in_sols_witness:
  "\<exists>w' f. estimate_fees_route calm_example (\<lambda>n a b. a) ''low'' False 1 cache_example = (w', Inr f) \<and>
    200001000 \<le> ef_total_lamports f"
proof -
  have "priority_of ''low'' = Inr Priority_Low" by (simp add: priority_of_def)
  then show ?thesis using fee_estimates_in_sols [OF fair_example] by blast
qed

end
