(* ===== verification/Lighter_Perps.thy ===== *)
theory Lighter_Perps
  imports Venues Alerts
begin

text \<open>
  Lighter perpetuals, \<open>app/services/lighter.py\<close>: reads, the deposit and the onboarding, the
  trading calls, and the table \<open>tg_perps_deposits\<close> of deposits the bridge has not credited yet
  with its reconciler. The sign-in that \<open>settle_deposits\<close> is given is an argument here too.
\<close>

section \<open>Calls\<close>

definition needs_onboard :: "string \<Rightarrow> bool" where
  "needs_onboard m = list_ex (contains (lower m)) [''onboard'', ''connect lighter'', ''authoris'']"

text \<open>An answer 200 that carries an error, or whose \<open>ok\<close> is false.\<close>

definition lighter_refusal :: "outside \<Rightarrow> json \<Rightarrow> string option" where
  "lighter_refusal env res =
     (case res of
        JObj kvs \<Rightarrow>
          (let err = (case map_of kvs ''error'' of None \<Rightarrow> JNull | Some e \<Rightarrow> e)
           in if truthy err \<or> map_of kvs ''ok'' = Some (JBool False)
              then Some (py_str env (j_or err (JStr ''Lighter rejected that''))) else None)
      | _ \<Rightarrow> None)"

definition lighter_post ::
  "settings \<Rightarrow> outside \<Rightarrow> string \<Rightarrow> string \<Rightarrow> json \<Rightarrow> ('z world_scheme, json) io" where
  "lighter_post c env jwt path body =
     bind (venue_post c env LighterError jwt path body) (\<lambda>res.
       case lighter_refusal env res of Some m \<Rightarrow> throw (LighterError m) | None \<Rightarrow> return res)"

definition lighter_get ::
  "settings \<Rightarrow> outside \<Rightarrow> string \<Rightarrow> string \<Rightarrow> json \<Rightarrow> ('z world_scheme, json) io" where
  "lighter_get c env jwt path params =
     bind (try_except (gateway_get c env path params (Some jwt))
             (\<lambda>e. case e of GatewayError m \<Rightarrow> throw (LighterError m) | _ \<Rightarrow> throw e)) (\<lambda>r.
       if fst r \<noteq> 200 then throw (LighterError (error_text_of env r)) else from_sum (json_body r))"

section \<open>Reads\<close>

definition lighter_account :: "settings \<Rightarrow> outside \<Rightarrow> string \<Rightarrow> string \<Rightarrow> ('z world_scheme, json) io" where
  "lighter_account c env jwt wallet =
     lighter_get c env jwt ''/market/lighter/account'' (JObj [(''wallet'', JStr wallet)])"

definition lighter_markets :: "settings \<Rightarrow> outside \<Rightarrow> string \<Rightarrow> ('z world_scheme, json) io" where
  "lighter_markets c env jwt =
     bind (lighter_get c env jwt ''/market/lighter/markets'' JNull) (\<lambda>res.
     bind (from_sum (field ''markets'' res)) (\<lambda>ms. return (j_or ms (JArr []))))"

definition wanted_symbol :: "string \<Rightarrow> string" where
  "wanted_symbol s = lstrip_chars ''$'' (upper s)"

definition symbol_is :: "string \<Rightarrow> string \<Rightarrow> json \<Rightarrow> exn + bool" where
  "symbol_is k want m =
     then_sum (field k m) (\<lambda>s. then_sum (text_method s) (\<lambda>t. Inr (upper t = want)))"

primrec first_market :: "string \<Rightarrow> string \<Rightarrow> json list \<Rightarrow> exn + json" where
  "first_market k want [] = Inr JNull"
| "first_market k want (m # ms) =
     then_sum (symbol_is k want m) (\<lambda>hit. if hit then Inr m else first_market k want ms)"

definition lighter_market_for ::
  "settings \<Rightarrow> outside \<Rightarrow> string \<Rightarrow> string \<Rightarrow> ('z world_scheme, json) io" where
  "lighter_market_for c env jwt ticker =
     bind (lighter_markets c env jwt) (\<lambda>ms.
     bind (from_sum (iterate ms)) (\<lambda>rows.
       from_sum (first_market ''symbol'' (wanted_symbol ticker) rows)))"

definition min_collateral_usd :: "json \<Rightarrow> int \<Rightarrow> exn + rat" where
  "min_collateral_usd market leverage =
     then_sum (field ''mark_price'' market) (\<lambda>mark.
     then_sum (field ''last_price'' market) (\<lambda>last_p.
     then_sum (float_of (j_or (j_or mark last_p) (JInt 0))) (\<lambda>price.
     then_sum (float_field ''min_quote_amount'' market) (\<lambda>min_quote.
     then_sum (float_field ''min_base_amount'' market) (\<lambda>min_base.
       Inr (fdiv (max min_quote (fmul min_base price)) (to_float (max leverage 1))))))))"

primrec first_position :: "string \<Rightarrow> json list \<Rightarrow> exn + json" where
  "first_position want [] = Inr JNull"
| "first_position want (p # ps) =
     then_sum (symbol_is ''symbol'' want p) (\<lambda>hit.
       if \<not> hit then first_position want ps
       else then_sum (float_field ''size'' p) (\<lambda>n.
         if 0 < n then Inr p else first_position want ps))"

definition position_for :: "json \<Rightarrow> string \<Rightarrow> exn + json" where
  "position_for state ticker =
     then_sum (list_field ''positions'' state) (first_position (wanted_symbol ticker))"

section \<open>Funding\<close>

text \<open>\<open>txs[0]\<close> of something true.\<close>

definition first_tx :: "json \<Rightarrow> exn + json" where
  "first_tx j =
     (case j of
        JArr (x # _) \<Rightarrow> Inr x
      | JObj _ \<Rightarrow> Inl (KeyError ''0'')
      | JStr s \<Rightarrow> Inr (JStr (take 1 s))
      | _ \<Rightarrow> Inl TypeError)"

definition lighter_deposit ::
  "settings \<Rightarrow> outside \<Rightarrow> string \<Rightarrow> string \<Rightarrow> string \<Rightarrow> rat \<Rightarrow> ('z world_scheme, json) io" where
  "lighter_deposit c env jwt enc_key_ref wallet amount_usdg =
     bind (lighter_post c env jwt ''/actions/lighter/deposit/build''
             (JObj [(''wallet'', JStr wallet), (''amount'', JFloat amount_usdg)])) (\<lambda>res.
     bind (from_sum (field ''transactions'' res)) (\<lambda>txs.
       if \<not> truthy txs then
         throw (LighterError (''couldn't build the deposit just now '' @ long_dash @ '' try again shortly''))
       else
         bind (from_sum (first_tx txs)) (\<lambda>data.
           run_tx c env LighterError None enc_key_ref wallet ''USDG deposit'' data)))"

definition lighter_onboard ::
  "settings \<Rightarrow> outside \<Rightarrow> string \<Rightarrow> string \<Rightarrow> string \<Rightarrow> ('z world_scheme, json) io" where
  "lighter_onboard c env jwt enc_key_ref wallet =
     bind (lighter_post c env jwt ''/actions/lighter/onboard/build'' (JObj [(''wallet'', JStr wallet)])) (\<lambda>built.
     bind (from_sum (field ''needs_deposit'' built)) (\<lambda>needs.
       if truthy needs then
         throw (LighterError (''Deposit USDG to Lighter first '' @ long_dash @
           '' that is what creates your account.''))
       else
         bind (from_sum (field ''message_to_sign'' built)) (\<lambda>message.
           if \<not> truthy message then throw (LighterError ''onboarding didn't return a message to sign'')
           else
             bind (try_except
                     (signer_post c env ''/sign''
                        (JObj [(''chain'', JStr ''evm''), (''enc_key_ref'', JStr enc_key_ref), (''message'', message)]))
                     (\<lambda>e. if is_signer_error e
                          then throw (LighterError (''couldn't sign the authorisation: '' @ exn_text e))
                          else throw e)) (\<lambda>signed.
             bind (from_sum (field ''session_id'' built)) (\<lambda>sid.
             bind (from_sum (item ''signature'' signed)) (\<lambda>signature.
               lighter_post c env jwt ''/actions/lighter/onboard/submit''
                 (JObj [(''wallet'', JStr wallet), (''session_id'', sid), (''signature'', signature)])))))))"

section \<open>Deposits that wait for the bridge\<close>

datatype perps_status = Deposit_Pending | Deposit_Credited | Deposit_Gave_Up

record perps_row =
  pd_telegram_id :: int
  pd_chat_id :: int
  pd_wallet :: string
  pd_amount :: rat
  pd_status :: perps_status
  pd_created_at :: usec
  pd_updated_at :: usec

record perps_state = auth_state +
  tg_perps_deposits :: "(string, perps_row) table"

definition DEPOSIT_GIVE_UP_HOURS :: int where "DEPOSIT_GIVE_UP_HOURS = 6"

definition remember_deposit ::
  "outside \<Rightarrow> int \<Rightarrow> int \<Rightarrow> string \<Rightarrow> string \<Rightarrow> rat \<Rightarrow> ('z perps_state_scheme, unit) io" where
  "remember_deposit env telegram_id chat_id wallet tx_hash amount =
     bind (from_sum (or_raise DataError (read_decimal (py_str env (JFloat amount))))) (\<lambda>a.
       modify (\<lambda>w. w\<lparr>tg_perps_deposits := fst (insert_new (lower tx_hash)
         \<lparr>pd_telegram_id = telegram_id, pd_chat_id = chat_id, pd_wallet = lower wallet, pd_amount = a,
          pd_status = Deposit_Pending, pd_created_at = utc_now env w, pd_updated_at = utc_now env w\<rparr>
         (tg_perps_deposits w))\<rparr>))"

text \<open>\<open>UPDATE ... WHERE tx_hash = k AND status = 'pending'\<close>: whether it found the row.\<close>

definition close_pending ::
  "outside \<Rightarrow> perps_status \<Rightarrow> string \<Rightarrow> ('z perps_state_scheme, bool) io" where
  "close_pending env s k w =
     (case row_of (tg_perps_deposits w) k of
        None \<Rightarrow> (w, Inr False)
      | Some r \<Rightarrow>
          if pd_status r = Deposit_Pending
          then (w\<lparr>tg_perps_deposits := put_row k (r\<lparr>pd_status := s, pd_updated_at := utc_now env w\<rparr>)
                   (tg_perps_deposits w)\<rparr>, Inr True)
          else (w, Inr False))"

definition mark_credited :: "outside \<Rightarrow> string \<Rightarrow> ('z perps_state_scheme, bool) io" where
  "mark_credited env tx_hash = close_pending env Deposit_Credited (lower tx_hash)"

definition due_deposits :: "'z perps_state_scheme \<Rightarrow> (string \<times> perps_row) list" where
  "due_deposits w =
     take 25 (sort_key (\<lambda>(_, r). pd_created_at r)
       (rows_where (\<lambda>_ r. pd_status r = Deposit_Pending) (tg_perps_deposits w)))"

text \<open>\<open>try: ... except Exception: state = {}\<close>.\<close>

definition account_or_nothing ::
  "settings \<Rightarrow> outside \<Rightarrow> (int \<Rightarrow> ('z world_scheme, string) io) \<Rightarrow> perps_row \<Rightarrow> ('z world_scheme, json) io" where
  "account_or_nothing c env login r =
     catch_all (bind (login (pd_telegram_id r)) (\<lambda>jwt. lighter_account c env jwt (pd_wallet r)))
       (\<lambda>_. return (JObj []))"

definition settle_row ::
  "settings \<Rightarrow> outside \<Rightarrow> (int \<Rightarrow> ('z perps_state_scheme, string) io) \<Rightarrow> string \<times> perps_row
    \<Rightarrow> ('z perps_state_scheme, (string \<times> perps_row \<times> json) option) io" where
  "settle_row c env login x =
     (case x of (tx_hash, r) \<Rightarrow>
       bind (gets (\<lambda>w. utc_now env w - pd_created_at r)) (\<lambda>age.
       bind (account_or_nothing c env login r) (\<lambda>state.
       bind (from_sum (field ''has_account'' state)) (\<lambda>has.
         if truthy has then
           bind (mark_credited env tx_hash) (\<lambda>mine.
             if mine then bind (from_sum (field ''collateral'' state)) (\<lambda>col. return (Some (tx_hash, r, col)))
             else return None)
         else if age > hours DEPOSIT_GIVE_UP_HOURS then
           bind (close_pending env Deposit_Gave_Up tx_hash) (\<lambda>_. return None)
         else return None))))"

definition settle_deposits ::
  "settings \<Rightarrow> outside \<Rightarrow> (int \<Rightarrow> ('z perps_state_scheme, string) io)
    \<Rightarrow> ('z perps_state_scheme, (string \<times> perps_row \<times> json) list) io" where
  "settle_deposits c env login =
     bind (gets due_deposits) (\<lambda>rows.
     bind (for_each (settle_row c env login) rows) (\<lambda>rs. return (List.map_filter id rs)))"

text \<open>The wait of the chat handler. Every round sleeps four seconds; the fuel is more than the
  rounds that fit in the timeout.\<close>

primrec poll_account ::
  "settings \<Rightarrow> outside \<Rightarrow> string \<Rightarrow> string \<Rightarrow> usec \<Rightarrow> nat \<Rightarrow> json \<Rightarrow> ('z world_scheme, json) io" where
  "poll_account c env jwt wallet deadline 0 state = throw Out_Of_Fuel"
| "poll_account c env jwt wallet deadline (Suc fuel) state =
     bind (from_sum (field ''has_account'' state)) (\<lambda>has.
       if truthy has then return state
       else
         bind (monotonic env) (\<lambda>now.
           if deadline \<le> now then return state
           else
             bind (sleep (seconds 4)) (\<lambda>_.
             bind (lighter_account c env jwt wallet) (poll_account c env jwt wallet deadline fuel))))"

definition account_rounds :: "usec \<Rightarrow> nat" where
  "account_rounds timeout = nat (timeout div seconds 4) + 2"

definition wait_for_account ::
  "settings \<Rightarrow> outside \<Rightarrow> string \<Rightarrow> string \<Rightarrow> usec \<Rightarrow> ('z world_scheme, json) io" where
  "wait_for_account c env jwt wallet timeout =
     bind (monotonic env) (\<lambda>now.
     bind (lighter_account c env jwt wallet) (\<lambda>state.
       poll_account c env jwt wallet (now + timeout) (account_rounds timeout) state))"

section \<open>Trading\<close>

definition open_body ::
  "string \<Rightarrow> string \<Rightarrow> string \<Rightarrow> rat \<Rightarrow> int \<Rightarrow> string \<Rightarrow> rat option \<Rightarrow> json" where
  "open_body wallet ticker side collateral_usd leverage order_type limit_price =
     JObj ([(''wallet'', JStr wallet), (''symbol'', JStr (wanted_symbol ticker)), (''side'', JStr side),
            (''collateralUsd'', JFloat collateral_usd), (''leverage'', JInt leverage),
            (''orderType'', JStr order_type)] @
       (case limit_price of None \<Rightarrow> [] | Some p \<Rightarrow> [(''limitPrice'', JFloat p)]))"

definition open_position ::
  "settings \<Rightarrow> outside \<Rightarrow> string \<Rightarrow> string \<Rightarrow> string \<Rightarrow> string \<Rightarrow> string \<Rightarrow> rat \<Rightarrow> int \<Rightarrow> string \<Rightarrow> rat option
    \<Rightarrow> ('z world_scheme, json) io" where
  "open_position c env jwt enc_key_ref wallet ticker side collateral_usd leverage order_type limit_price =
     (let place = lighter_post c env jwt ''/actions/lighter/open''
            (open_body wallet ticker side collateral_usd leverage order_type limit_price)
      in try_except place (\<lambda>e. case e of
           LighterError m \<Rightarrow>
             if \<not> needs_onboard m then throw e
             else bind (lighter_onboard c env jwt enc_key_ref wallet) (\<lambda>_. place)
         | _ \<Rightarrow> throw e))"

definition close_position ::
  "settings \<Rightarrow> outside \<Rightarrow> string \<Rightarrow> string \<Rightarrow> string \<Rightarrow> string \<Rightarrow> rat \<Rightarrow> ('z world_scheme, json) io" where
  "close_position c env jwt wallet ticker side base_amount =
     lighter_post c env jwt ''/actions/lighter/close''
       (JObj [(''wallet'', JStr wallet), (''symbol'', JStr (wanted_symbol ticker)), (''side'', JStr side),
              (''baseAmount'', JFloat base_amount)])"

definition set_leverage ::
  "settings \<Rightarrow> outside \<Rightarrow> string \<Rightarrow> string \<Rightarrow> string \<Rightarrow> int \<Rightarrow> ('z world_scheme, json) io" where
  "set_leverage c env jwt wallet ticker leverage =
     lighter_post c env jwt ''/actions/lighter/leverage''
       (JObj [(''wallet'', JStr wallet), (''symbol'', JStr (wanted_symbol ticker)), (''leverage'', JInt leverage)])"

definition lighter_withdraw ::
  "settings \<Rightarrow> outside \<Rightarrow> string \<Rightarrow> string \<Rightarrow> rat \<Rightarrow> ('z world_scheme, json) io" where
  "lighter_withdraw c env jwt wallet amount_usdg =
     lighter_post c env jwt ''/actions/lighter/withdraw''
       (JObj [(''wallet'', JStr wallet), (''amount'', JFloat amount_usdg)])"

section \<open>Requests in sequence\<close>

text \<open>What the bot does with the table, and the deposits each call lets it announce. A call that
  raises announces nothing.\<close>

datatype perps_call =
    Remember int int string string rat
  | Credit string
  | Settle

fun perps_step ::
  "settings \<Rightarrow> outside \<Rightarrow> perps_call \<Rightarrow> 'z perps_state_scheme \<Rightarrow> 'z perps_state_scheme \<times> string list" where
  "perps_step c env (Remember tid chat wallet tx_hash amount) w =
     (fst (remember_deposit env tid chat wallet tx_hash amount w), [])"
| "perps_step c env (Credit tx_hash) w =
     (case mark_credited env tx_hash w of (w', r) \<Rightarrow> (w', if r = Inr True then [lower tx_hash] else []))"
| "perps_step c env Settle w =
     (case settle_deposits c env (get_jwt c env) w of
        (w', Inl e) \<Rightarrow> (w', [])
      | (w', Inr landed) \<Rightarrow> (w', map fst landed))"

fun perps_run ::
  "settings \<Rightarrow> outside \<Rightarrow> perps_call list \<Rightarrow> 'z perps_state_scheme \<Rightarrow> 'z perps_state_scheme \<times> string list" where
  "perps_run c env [] w = (w, [])"
| "perps_run c env (x # xs) w =
     (case perps_step c env x w of (w1, ks) \<Rightarrow>
        case perps_run c env xs w1 of (w2, ks') \<Rightarrow> (w2, ks @ ks'))"

section \<open>What a call may do to the table\<close>

definition lower_keys :: "(string, 'r) table \<Rightarrow> bool" where
  "lower_keys t \<longleftrightarrow> (\<forall>k\<in>fst ` set t. lower k = k)"

definition lower_named :: "'z perps_state_scheme \<Rightarrow> bool" where
  "lower_named w \<longleftrightarrow> lower_keys (tg_perps_deposits w)"

lemma keys_put: "lower_keys (put_row k r t) \<longleftrightarrow> lower k = k \<and> lower_keys t"
  unfolding lower_keys_def by (simp add: put_row_def dom_update)

lemma key_in: "lower_keys t \<Longrightarrow> row_of t k = Some r \<Longrightarrow> lower k = k"
  using row_of_in [of t k r] by (force simp: lower_keys_def)

definition settled :: "'z perps_state_scheme \<Rightarrow> string \<Rightarrow> bool" where
  "settled w k \<longleftrightarrow> (\<exists>r. row_of (tg_perps_deposits w) k = Some r \<and> pd_status r \<noteq> Deposit_Pending)"

definition deposit_credited :: "'z perps_state_scheme \<Rightarrow> string \<Rightarrow> bool" where
  "deposit_credited w k \<longleftrightarrow> (\<exists>r. row_of (tg_perps_deposits w) k = Some r \<and> pd_status r = Deposit_Credited)"

text \<open>A closed row is never written again.\<close>

definition final :: "'z perps_state_scheme \<Rightarrow> 'z perps_state_scheme \<Rightarrow> bool" where
  "final w w' \<longleftrightarrow> (\<forall>k r. row_of (tg_perps_deposits w) k = Some r \<longrightarrow> pd_status r \<noteq> Deposit_Pending \<longrightarrow>
     row_of (tg_perps_deposits w') k = Some r)"

definition same_deposits :: "'z perps_state_scheme \<Rightarrow> 'z perps_state_scheme \<Rightarrow> bool" where
  "same_deposits w w' \<longleftrightarrow> tg_perps_deposits w' = tg_perps_deposits w"

abbreviation off_table :: "('z perps_state_scheme, 'a) io \<Rightarrow> bool" where
  "off_table m \<equiv> obeys (\<lambda>_. True) same_deposits m"

abbreviation closing :: "('z perps_state_scheme, 'a) io \<Rightarrow> bool" where
  "closing m \<equiv> obeys lower_named final m"

interpretation deposits_kept: io_relation "\<lambda>_. True" same_deposits
  by unfold_locales (simp_all add: same_deposits_def)

interpretation deposits_final: io_relation lower_named final
  by unfold_locales (auto simp: final_def)

lemma off_table_closing: "off_table m \<Longrightarrow> closing m"
  by (auto simp: obeys_def same_deposits_def lower_named_def final_def)

lemma off_tableD: "off_table m \<Longrightarrow> m w = (w', r) \<Longrightarrow> tg_perps_deposits w' = tg_perps_deposits w"
  by (drule obeysD) (simp_all add: same_deposits_def)

lemma off_table_framed:
  fixes m :: "('z perps_state_scheme, 'a) io"
  assumes "framed m"
  shows "off_table m"
proof -
  have "tg_perps_deposits w' = tg_perps_deposits w" if "same_more w w'" for w w' :: "'z perps_state_scheme"
    using that by (cases w; cases w'; simp add: same_more_def)
  then show ?thesis using assms unfolding obeys_def same_deposits_def by blast
qed

lemma off_table_modify: "(\<And>w. tg_perps_deposits (h w) = tg_perps_deposits w) \<Longrightarrow> off_table (modify h)"
  by (simp add: obeys_def same_deposits_def modify_def)

lemma off_table_insert: "off_table (insert_wallet env quiet tid address key imported)"
  by (simp add: obeys_def same_deposits_def insert_wallet_def)

lemmas off_table_rules = deposits_kept.obeys_rules off_table_insert off_table_framed [OF framed_signer]
  off_table_framed [OF framed_gateway(1)] off_table_framed [OF framed_gateway(2)]

lemma off_table_wallet: "off_table (get_or_create_wallet c env tid)"
  unfolding get_or_create_wallet_def get_wallet_def signer_calls by (intro off_table_rules)

lemma off_table_jwt: "off_table (get_jwt c env tid)"
proof -
  have cache: "off_table (modify (\<lambda>s. s\<lparr>jwt_cache := put_row tid (jwt, expiry_epoch (utc_now env s) b) (jwt_cache s)\<rparr>))"
    for jwt b by (rule off_table_modify) simp
  have "off_table (authenticate c env tid)"
    unfolding authenticate_def signer_calls by (intro off_table_rules off_table_wallet cache)
  then have "off_table (sign_in c env tid)" unfolding sign_in_def
    by (intro deposits_kept.obeys_try) (auto split: exn.split intro: off_table_rules)
  then show ?thesis unfolding get_jwt_def by (intro off_table_rules)
qed

lemma framed_lighter_post: "framed (lighter_post c env jwt path body)"
  unfolding lighter_post_def by (intro framed_rules framed_venue_post)

lemma framed_lighter_get: "framed (lighter_get c env jwt path params)"
  unfolding lighter_get_def by (intro framed_rules framed_gateway) (auto split: exn.split intro: framed_rules)

text \<open>Trading and onboarding touch no table.\<close>

lemma framed_trading:
  "framed (lighter_onboard c env jwt key a)"
  "framed (open_position c env jwt key a ticker side usd lev kind limit)"
  "framed (close_position c env jwt a ticker side n)" "framed (set_leverage c env jwt a ticker lev)"
  "framed (lighter_withdraw c env jwt a usd)"
proof -
  show onboard: "framed (lighter_onboard c env jwt key a)"
    unfolding lighter_onboard_def by (intro framed_rules framed_lighter_post framed_signer)
  show "framed (open_position c env jwt key a ticker side usd lev kind limit)"
    unfolding open_position_def Let_def
    by (intro framed_rules framed_lighter_post)
      (auto split: exn.split intro!: framed_rules framed_lighter_post onboard)
qed (simp_all add: close_position_def set_leverage_def lighter_withdraw_def framed_lighter_post)

section \<open>Announcements\<close>

text \<open>From \<open>w\<close> to \<open>w'\<close> the keys of \<open>ks\<close> were announced: none of them closed before, all credited after.\<close>

definition announces :: "'z perps_state_scheme \<Rightarrow> 'z perps_state_scheme \<Rightarrow> string list \<Rightarrow> bool" where
  "announces w w' ks \<longleftrightarrow> lower_named w' \<and> final w w' \<and> distinct ks \<and>
     (\<forall>k\<in>set ks. \<not> settled w k \<and> deposit_credited w' k)"

lemma final_settled: "final w w' \<Longrightarrow> settled w k \<Longrightarrow> settled w' k"
  by (auto simp: final_def settled_def)

lemma final_deposit_credited: "final w w' \<Longrightarrow> deposit_credited w k \<Longrightarrow> deposit_credited w' k"
  by (auto simp: final_def deposit_credited_def)

lemma deposit_credited_settled: "deposit_credited w k \<Longrightarrow> settled w k"
  by (auto simp: deposit_credited_def settled_def)

lemma announces_Nil: "announces w w' [] \<longleftrightarrow> lower_named w' \<and> final w w'"
  by (simp add: announces_def)

lemma announces_append:
  assumes "announces w w1 ks" "announces w1 w2 ks'"
  shows "announces w w2 (ks @ ks')"
proof -
  have f: "final w w1" "final w1 w2" using assms by (simp_all add: announces_def)
  then have "final w w2" using deposits_final.R_trans by blast
  moreover have "set ks \<inter> set ks' = {}"
    using assms deposit_credited_settled by (fastforce simp: announces_def)
  ultimately show ?thesis
    using assms f final_settled final_deposit_credited by (fastforce simp: announces_def)
qed

lemma close_pending_closing: "closing (close_pending env s k)"
proof -
  have "lower_named w' \<and> final w w'" if "lower_named w" "close_pending env s k w = (w', r)" for w w' r
    using that key_in [of "tg_perps_deposits w" k]
    by (auto simp: close_pending_def lower_named_def final_def keys_put split: option.splits if_splits)
  then show ?thesis unfolding obeys_def by (metis prod.collapse)
qed

lemma mark_announces:
  assumes "lower_named w" "mark_credited env k w = (w', r)"
  shows "announces w w' (if r = Inr True then [lower k] else [])"
proof -
  have "lower_named w' \<and> final w w'"
    using obeysD [OF close_pending_closing assms(1)] assms(2) unfolding mark_credited_def by blast
  moreover have "\<not> settled w (lower k) \<and> deposit_credited w' (lower k)" if "r = Inr True"
    using assms(2) that
    by (auto simp: mark_credited_def close_pending_def settled_def deposit_credited_def split: option.splits if_splits)
  ultimately show ?thesis by (simp add: announces_def)
qed

lemma remember_closing:
  "closing (remember_deposit env tid chat a tx_hash amount :: ('z perps_state_scheme, unit) io)"
proof -
  have "lower_named (w\<lparr>tg_perps_deposits := fst (insert_new (lower tx_hash) r (tg_perps_deposits w))\<rparr>) \<and>
      final w (w\<lparr>tg_perps_deposits := fst (insert_new (lower tx_hash) r (tg_perps_deposits w))\<rparr>)"
    if "lower_named w" for w :: "'z perps_state_scheme" and r
    using that by (auto simp: lower_named_def final_def insert_new_def has_row_def keys_put)
  then show ?thesis unfolding remember_deposit_def
    by (intro deposits_final.obeys_rules) (simp add: obeys_def modify_def)
qed

text \<open>The reconciler is given a sign-in that leaves the table alone.\<close>

locale bridge_login =
  fixes login :: "int \<Rightarrow> ('z perps_state_scheme, string) io"
  assumes login_off_table: "off_table (login tid)"
begin

lemma off_table_account: "off_table (account_or_nothing c env login r)"
  unfolding account_or_nothing_def catch_all_def lighter_account_def
  by (intro off_table_rules login_off_table off_table_framed [OF framed_lighter_get])

lemma settle_row_closing: "closing (settle_row c env login x)"
  unfolding settle_row_def mark_credited_def
  by (intro deposits_final.obeys_rules off_table_closing [OF off_table_account] close_pending_closing)

lemma settle_row_announces:
  assumes "lower_named w" "settle_row c env login x w = (w', Inr d)" "lower (fst x) = fst x"
  shows "announces w w' (case d of None \<Rightarrow> [] | Some y \<Rightarrow> [fst y]) \<and> (\<forall>y. d = Some y \<longrightarrow> fst y = fst x)"
proof -
  have "lower_named w' \<and> final w w'" using obeysD [OF settle_row_closing assms(1,2)] .
  moreover have "fst y = fst x \<and> \<not> settled w (fst x) \<and> deposit_credited w' (fst x)" if d: "d = Some y" for y
  proof -
    obtain w1 st where a: "account_or_nothing c env login (snd x) w = (w1, Inr st)"
      and m: "mark_credited env (fst x) w1 = (w', Inr True)" and y: "fst y = fst x"
      using assms(2) d
      by (cases x) (auto simp: settle_row_def bind_Inr io_simps split: if_splits)
    have same: "tg_perps_deposits w1 = tg_perps_deposits w" using off_tableD [OF off_table_account a] .
    then have "lower_named w1" using assms(1) by (simp add: lower_named_def)
    from mark_announces [OF this m] same y assms(3) show ?thesis
      by (simp add: announces_def settled_def)
  qed
  ultimately show ?thesis by (auto simp: announces_def split: option.split)
qed

lemma settle_rows_announce:
  "lower_named w \<Longrightarrow> \<forall>x\<in>set rows. lower (fst x) = fst x \<Longrightarrow>
    for_each (settle_row c env login) rows w = (w', Inr ds) \<Longrightarrow>
    announces w w' (map fst (List.map_filter id ds))"
proof (induction rows arbitrary: w ds)
  case Nil
  then show ?case by (simp add: announces_Nil io_simps List.map_filter_def deposits_final.R_refl)
next
  case (Cons x rows)
  obtain w1 d ds' where 1: "settle_row c env login x w = (w1, Inr d)"
    and 2: "for_each (settle_row c env login) rows w1 = (w', Inr ds')" and ds: "ds = d # ds'"
    using Cons.prems(3) by (auto simp: bind_Inr io_simps)
  have a: "announces w w1 (case d of None \<Rightarrow> [] | Some y \<Rightarrow> [fst y])"
    using settle_row_announces [OF Cons.prems(1) 1] Cons.prems(2) by simp
  moreover have "announces w1 w' (map fst (List.map_filter id ds'))"
    by (rule Cons.IH [OF _ _ 2]) (use a Cons.prems(2) in \<open>simp_all add: announces_def\<close>)
  ultimately have "announces w w' ((case d of None \<Rightarrow> [] | Some y \<Rightarrow> [fst y]) @ map fst (List.map_filter id ds'))"
    by (rule announces_append)
  then show ?case unfolding ds by (cases d) (simp_all add: List.map_filter_simps id_def)
qed

lemma settle_closing: "closing (settle_deposits c env login)"
  unfolding settle_deposits_def by (intro deposits_final.obeys_rules settle_row_closing)

lemma due_lower_named: "lower_named w \<Longrightarrow> x \<in> set (due_deposits w) \<Longrightarrow> lower (fst x) = fst x"
  by (force simp: due_deposits_def lower_named_def lower_keys_def rows_where_def dest!: in_set_takeD)

lemma settle_announces:
  assumes "lower_named w" "settle_deposits c env login w = (w', Inr landed)"
  shows "announces w w' (map fst landed)"
proof -
  obtain ds where "for_each (settle_row c env login) (due_deposits w) w = (w', Inr ds)"
    "landed = List.map_filter id ds"
    using assms(2) by (auto simp: settle_deposits_def bind_Inr io_simps)
  with settle_rows_announce [OF assms(1)] due_lower_named [OF assms(1)] show ?thesis by blast
qed

end

interpretation bot_login: bridge_login "get_jwt c env"
  by unfold_locales (rule off_table_jwt)

lemma step_announces:
  assumes "lower_named w" "perps_step c env x w = (w', ks)"
  shows "announces w w' ks"
proof (cases x)
  case (Remember tid chat a tx_hash amount)
  have "fst (remember_deposit env tid chat a tx_hash amount w) = w'" "ks = []"
    using assms(2) Remember by simp_all
  then show ?thesis
    using remember_closing [of env tid chat a tx_hash amount] assms(1) by (auto simp: announces_Nil obeys_def)
next
  case (Credit tx_hash)
  then show ?thesis using assms mark_announces [OF assms(1)] by (auto split: prod.splits)
next
  case Settle
  then show ?thesis
    using assms bot_login.settle_announces [OF assms(1)] obeysD [OF bot_login.settle_closing assms(1)]
    by (auto simp: announces_Nil split: prod.splits sum.splits)
qed

lemma run_announces:
  "lower_named w \<Longrightarrow> perps_run c env cs w = (w', ks) \<Longrightarrow> announces w w' ks"
proof (induction cs arbitrary: w ks)
  case Nil
  then show ?case by (simp add: announces_Nil deposits_final.R_refl)
next
  case (Cons x xs)
  obtain w1 k1 where 1: "perps_step c env x w = (w1, k1)" by fastforce
  obtain k2 where 2: "perps_run c env xs w1 = (w', k2)" "ks = k1 @ k2"
    using Cons.prems(2) 1 by (auto split: prod.splits)
  have a: "announces w w1 k1" by (rule step_announces [OF Cons.prems(1) 1])
  then have "announces w1 w' k2" by (intro Cons.IH [OF _ 2(1)]) (simp add: announces_def)
  with a show ?case unfolding 2(2) by (rule announces_append)
qed

lemma settled_never_announced:
  assumes "lower_named w" "settled w k"
  shows "k \<notin> set (snd (perps_run c env cs w))"
proof -
  obtain w' ks where run: "perps_run c env cs w = (w', ks)" by fastforce
  show ?thesis using run_announces [OF assms(1) run] assms(2) run by (auto simp: announces_def)
qed



text \<open>
  An error later in the same pass loses the announcements of the deposits it has credited: nobody
  is told about them.
\<close>

theorem later_error_loses_announcement:
  assumes "lower_named w" "due_deposits w = x # y # rest"
    "settle_row c env (get_jwt c env) x w = (w1, Inr (Some d))"
    "settle_row c env (get_jwt c env) y w1 = (w2, Inl e)"
  shows "settle_deposits c env (get_jwt c env) w = (w2, Inl e) \<and> deposit_credited w2 (fst x) \<and>
    (\<forall>cs. fst x \<notin> set (snd (perps_run c env cs w2)))"
proof -
  have low: "lower (fst x) = fst x" using bot_login.due_lower_named [OF assms(1), of x] assms(2) by simp
  have a: "announces w w1 [fst x]"
    using bot_login.settle_row_announces [OF assms(1,3) low] by (auto split: option.splits)
  then have "lower_named w2" "final w1 w2"
    using obeysD [OF bot_login.settle_row_closing _ assms(4)] by (simp_all add: announces_def)
  then have there: "deposit_credited w2 (fst x)" using a final_deposit_credited by (auto simp: announces_def)
  then have "fst x \<notin> set (snd (perps_run c env cs w2))" for cs
    by (intro settled_never_announced [OF \<open>lower_named w2\<close>] deposit_credited_settled)
  then show ?thesis using there assms(2-4) by (simp add: settle_deposits_def bind_def io_simps)
qed

section \<open>Cases\<close>

definition perps_start :: "(string, perps_row) table \<Rightarrow> perps_state" where
  "perps_start t = \<lparr>looks = 0, slept = 0, on_fallback = False, primary_stale = False, lag_checked_at = 0,
     tg_wallets = [], next_wallet_id = 1, jwt_cache = [(1, (''jwt'', hours 100))], tg_perps_deposits = t\<rparr>"

definition waiting_row :: "string \<Rightarrow> perps_row" where
  "waiting_row wallet = \<lparr>pd_telegram_id = 1, pd_chat_id = 1, pd_wallet = wallet, pd_amount = 5,
     pd_status = Deposit_Pending, pd_created_at = 0, pd_updated_at = 0\<rparr>"

definition later_outage :: outside where
  "later_outage = outage\<lparr>utc := \<lambda>_. hours 7\<rparr>"

text \<open>The gateway knows the account of one wallet and answers null for any other.\<close>

definition one_account :: outside where
  "one_account = outage\<lparr>http := \<lambda>n verb url p.
     if p = JObj [(''headers'', gateway_headers (Some ''jwt'')), (''params'', JObj [(''wallet'', JStr ''0xa'')])]
     then Reply 200 (Some (JObj [(''has_account'', JBool True)])) else Reply 200 (Some JNull)\<rparr>"


lemma account_outage:
  "lighter_account default_settings later_outage jwt a (perps_start t) =
     ((perps_start t)\<lparr>looks := 1\<rparr>, Inl (LighterError ''gateway unreachable: ''))"
  by (simp add: lighter_account_def lighter_get_def gateway_get_def gateway_call_def bind_def try_except_def
      http_call_def later_outage_def outage_def io_simps perps_start_def default_settings_def rstrip_chars_def)


text \<open>The wait of the handler ends.\<close>

lemma steady_try: "steady m \<Longrightarrow> (\<And>e. e \<noteq> Out_Of_Fuel \<Longrightarrow> steady (h e)) \<Longrightarrow> steady (try_except m h)"
  unfolding steady_def try_except_def
  by (auto split: prod.split sum.split) (metis fst_conv order_trans snd_conv)+

lemma steady_account [steady_intros]: "steady (lighter_account c env jwt a)"
  unfolding lighter_account_def lighter_get_def gateway_get_def gateway_call_def
  by (intro steady_intros steady_try) (auto split: exn.split option.splits intro!: steady_intros simp: json_body_def or_raise_def)

lemma poll_account_fuel:
  assumes "clock_monotone env"
  shows "0 < fuel \<Longrightarrow> deadline \<le> clock_of env w + seconds 4 * (int fuel - 1) \<Longrightarrow>
    snd (poll_account c env jwt a deadline fuel state w) \<noteq> Inl Out_Of_Fuel"
proof (induction fuel arbitrary: w state)
  case (Suc fuel)
  let ?w1 = "w\<lparr>looks := looks w + 1\<rparr>" and ?w2 = "w\<lparr>looks := looks w + 1, slept := slept w + seconds 4\<rparr>"
  have m: "monotonic env w = (?w1, Inr (clock_of env w))" by (simp add: monotonic_def clock_of_def)
  have sl: "sleep (seconds 4) ?w1 = (?w2, Inr ())" by (simp add: sleep_def seconds_def)
  obtain w3 r where r: "lighter_account c env jwt a ?w2 = (w3, r)" by fastforce
  have "mono env (looks w) \<le> mono env (looks w + 1)" using assms by (simp add: clock_monotone_def)
  then have c1: "clock_of env w + seconds 4 \<le> clock_of env ?w2" by (simp add: clock_of_def)
  have c2: "clock_of env ?w2 \<le> clock_of env w3" by (rule clock_of_steady [OF assms steady_account r])
  have nf: "r \<noteq> Inl Out_Of_Fuel" using steadyD [OF steady_account r] by simp
  have IH: "snd (poll_account c env jwt a deadline fuel st w3) \<noteq> Inl Out_Of_Fuel" if "\<not> deadline \<le> clock_of env w" for st
  proof -
    have "0 < fuel" using Suc.prems(2) that by (cases fuel) (auto simp: time_simps)
    moreover have "deadline \<le> clock_of env w3 + seconds 4 * (int fuel - 1)"
      using Suc.prems(2) c1 c2 by (simp add: algebra_simps time_simps)
    ultimately show ?thesis by (rule Suc.IH)
  qed
  have "field ''has_account'' state \<noteq> Inl Out_Of_Fuel" by (auto simp: field_def split: json.splits)
  then show ?case
    using m sl r nf IH
    by (cases r; cases "field ''has_account'' state") (auto simp: bind_def io_simps)
qed simp

theorem wait_for_account_ends:
  assumes "clock_monotone env" "0 \<le> timeout"
  shows "snd (wait_for_account c env jwt a timeout w) \<noteq> Inl Out_Of_Fuel"
proof -
  let ?w1 = "w\<lparr>looks := looks w + 1\<rparr>"
  have m: "monotonic env w = (?w1, Inr (clock_of env w))" by (simp add: monotonic_def clock_of_def)
  obtain w2 r where r: "lighter_account c env jwt a ?w1 = (w2, r)" by fastforce
  have "mono env (looks w) \<le> mono env (looks w + 1)" using assms(1) by (simp add: clock_monotone_def)
  then have "clock_of env w \<le> clock_of env ?w1" by (simp add: clock_of_def)
  also have "\<dots> \<le> clock_of env w2" by (rule clock_of_steady [OF assms(1) steady_account r])
  finally have c: "clock_of env w \<le> clock_of env w2" .
  have "timeout = 4000000 * (timeout div 4000000) + timeout mod 4000000" by simp
  moreover have "timeout mod 4000000 < 4000000" by simp
  moreover have "0 \<le> timeout div 4000000" using assms(2) by (simp add: pos_imp_zdiv_nonneg_iff)
  ultimately have "timeout \<le> seconds 4 * (int (account_rounds timeout) - 1)"
    by (simp add: account_rounds_def time_simps)
  then have "snd (poll_account c env jwt a (clock_of env w + timeout) (account_rounds timeout) st w2) \<noteq> Inl Out_Of_Fuel" for st
    using c by (intro poll_account_fuel [OF assms(1)]) (simp_all add: account_rounds_def)
  moreover have "r \<noteq> Inl Out_Of_Fuel" using steadyD [OF steady_account r] by simp
  ultimately show ?thesis using m r by (auto simp: wait_for_account_def bind_def split: sum.split)
qed

end
