(* ===== verification/Morpho_Lending.thy ===== *)
theory Morpho_Lending
  imports Lighter_Perps
begin

text \<open>
  Lending on Morpho, \<open>app/services/morpho.py\<close>: the markets and positions it reads, amounts in base
  units, and the transactions it builds and sends in order. The callback \<open>on_step\<close> is left out.
\<close>

section \<open>Reads\<close>

definition morpho_post ::
  "settings \<Rightarrow> outside \<Rightarrow> string \<Rightarrow> string \<Rightarrow> json \<Rightarrow> ('z world_scheme, json) io" where
  "morpho_post c env jwt path body =
     bind (venue_post c env MorphoError jwt path body) (\<lambda>j. return (j_or j (JObj [])))"

definition morpho_read ::
  "settings \<Rightarrow> outside \<Rightarrow> string \<Rightarrow> string \<Rightarrow> string \<Rightarrow> (string \<times> json) list \<Rightarrow> ('z world_scheme, json) io" where
  "morpho_read c env jwt kind k params =
     bind (morpho_post c env jwt ''/actions/build''
             (JObj [(''type'', JStr kind), (''params'', JObj params)])) (\<lambda>res.
     bind (from_sum (object_field ''data'' res)) (\<lambda>data.
     bind (from_sum (field k data)) (\<lambda>v. return (j_or v (JArr [])))))"

definition morpho_markets :: "settings \<Rightarrow> outside \<Rightarrow> string \<Rightarrow> int \<Rightarrow> ('z world_scheme, json) io" where
  "morpho_markets c env jwt limit =
     morpho_read c env jwt ''morpho_markets'' ''markets'' [(''chain'', JInt CHAIN_ID), (''limit'', JInt limit)]"

text \<open>\<open>float(Decimal(str(raw)) / (10 ** decimals))\<close>: no decimal literal counts as 0.0, and a power
  with a negative exponent is a float, which a decimal cannot be divided by.\<close>

definition human_amount :: "outside \<Rightarrow> int \<Rightarrow> json \<Rightarrow> exn + json" where
  "human_amount env decimals raw =
     (case read_decimal (py_str env raw) of
        None \<Rightarrow> Inr (JFloat 0)
      | Some d \<Rightarrow>
          if decimals < 0 then Inl TypeError else Inr (JFloat (b64 (dec28 (d / 10 ^ nat decimals)))))"

text \<open>\<open>out[k] = v\<close> on a dict.\<close>

definition with_key :: "string \<Rightarrow> json \<Rightarrow> (string \<times> json) list \<Rightarrow> (string \<times> json) list" where
  "with_key k v kvs = AList.update k v kvs"

fun scale_fields ::
  "outside \<Rightarrow> json \<Rightarrow> (string \<times> int) list \<Rightarrow> (string \<times> json) list \<Rightarrow> exn + (string \<times> json) list" where
  "scale_fields env position [] out = Inr out"
| "scale_fields env position ((k, decimals) # rest) out =
     then_sum (field k position) (\<lambda>raw.
       if raw = JNull then scale_fields env position rest out
       else then_sum (human_amount env decimals raw) (\<lambda>x.
         scale_fields env position rest (with_key k x out)))"

definition int_field_or :: "string \<Rightarrow> int \<Rightarrow> json \<Rightarrow> exn + int" where
  "int_field_or k n j = then_sum (field k j) (\<lambda>v. int_of (j_or v (JInt n)))"

definition to_human :: "outside \<Rightarrow> json \<Rightarrow> exn + json" where
  "to_human env position =
     (case position of
        JObj kvs \<Rightarrow>
          then_sum (int_field_or ''loanDecimals'' 18 position) (\<lambda>loan.
          then_sum (int_field_or ''collateralDecimals'' 18 position) (\<lambda>coll.
          then_sum (scale_fields env position
              [(''supplyAssets'', loan), (''borrowAssets'', loan), (''collateral'', coll)] kvs) (\<lambda>out.
            Inr (JObj out))))
      | _ \<Rightarrow> Inl AttributeError)"

text \<open>The rows of this chain, scaled.\<close>

definition own_position :: "outside \<Rightarrow> json \<Rightarrow> exn + json option" where
  "own_position env p =
     then_sum (int_field_or ''chainId'' 0 p) (\<lambda>ch.
       if ch = CHAIN_ID then then_sum (to_human env p) (\<lambda>x. Inr (Some x)) else Inr None)"

definition morpho_positions ::
  "settings \<Rightarrow> outside \<Rightarrow> string \<Rightarrow> string \<Rightarrow> ('z world_scheme, json list) io" where
  "morpho_positions c env jwt wallet =
     bind (morpho_read c env jwt ''morpho_positions'' ''positions'' [(''wallet'', JStr wallet)]) (\<lambda>v.
     bind (from_sum (iterate v)) (\<lambda>rows.
     bind (from_sum (collect (own_position env) rows)) (\<lambda>ps. return (List.map_filter id ps))))"

definition market_for_collateral :: "json list \<Rightarrow> string \<Rightarrow> exn + json" where
  "market_for_collateral rows ticker = first_market ''collateralSymbol'' (wanted_symbol ticker) rows"

text \<open>\<open>max\<close> with a key: the first of the greatest.\<close>

fun best_of :: "json \<times> rat \<Rightarrow> (json \<times> rat) list \<Rightarrow> json" where
  "best_of (m, x) [] = m"
| "best_of (m, x) ((m', y) # rest) = best_of (if x < y then (m', y) else (m, x)) rest"

definition best_supply_market :: "json list \<Rightarrow> exn + json" where
  "best_supply_market rows =
     then_sum (collect (\<lambda>m. then_sum (float_field ''supplyApy'' m) (\<lambda>x. Inr (m, x))) rows) (\<lambda>ms.
       Inr (case ms of [] \<Rightarrow> JNull | x # rest \<Rightarrow> best_of x rest))"

definition apy_pct :: "json \<Rightarrow> exn + rat" where
  "apy_pct v = then_sum (float_of (j_or v (JInt 0))) (\<lambda>x. Inr (fmul x 100))"

section \<open>Base units\<close>

definition base_units_of :: "rat \<Rightarrow> nat \<Rightarrow> int" where
  "base_units_of d decimals = py_int (dec28 (d * 10 ^ decimals))"

definition base_units :: "outside \<Rightarrow> json \<Rightarrow> json \<Rightarrow> exn + string" where
  "base_units env amount decimals =
     then_sum (or_raise InvalidOperation (read_decimal (py_str env amount))) (\<lambda>d.
     then_sum (int_of decimals) (\<lambda>n.
       if n < 0 then Inl TypeError else Inr (show_int (base_units_of d (nat n)))))"

section \<open>Writes\<close>

definition market_body :: "string \<Rightarrow> json \<Rightarrow> exn + (string \<times> json) list" where
  "market_body wallet market =
     then_sum (item ''marketId'' market) (\<lambda>i.
       Inr [(''marketId'', i), (''walletAddress'', JStr wallet), (''chain'', JInt CHAIN_ID)])"

definition amount_entry :: "outside \<Rightarrow> string \<Rightarrow> rat \<Rightarrow> json \<Rightarrow> string \<Rightarrow> exn + (string \<times> json) list" where
  "amount_entry env k amount market decimals =
     then_sum (item decimals market) (\<lambda>dec.
     then_sum (base_units env (JFloat amount) dec) (\<lambda>u. Inr [(k, JStr u)]))"

definition morpho_send ::
  "settings \<Rightarrow> outside \<Rightarrow> string \<Rightarrow> string \<Rightarrow> exn + (string \<times> json) list \<Rightarrow> ('z world_scheme, json) io" where
  "morpho_send c env jwt path body = bind (from_sum body) (\<lambda>kvs. morpho_post c env jwt path (JObj kvs))"

definition build_supply ::
  "settings \<Rightarrow> outside \<Rightarrow> string \<Rightarrow> string \<Rightarrow> json \<Rightarrow> rat \<Rightarrow> ('z world_scheme, json) io" where
  "build_supply c env jwt wallet market amount =
     morpho_send c env jwt ''/actions/morpho/supply''
       (then_sum (market_body wallet market) (\<lambda>b.
        then_sum (amount_entry env ''amountBaseUnits'' amount market ''loanDecimals'') (\<lambda>a. Inr (b @ a))))"

definition build_borrow ::
  "settings \<Rightarrow> outside \<Rightarrow> string \<Rightarrow> string \<Rightarrow> json \<Rightarrow> rat \<Rightarrow> rat \<Rightarrow> ('z world_scheme, json) io" where
  "build_borrow c env jwt wallet market borrow collateral =
     morpho_send c env jwt ''/actions/morpho/borrow''
       (then_sum (market_body wallet market) (\<lambda>b.
        then_sum (amount_entry env ''borrowBaseUnits'' borrow market ''loanDecimals'') (\<lambda>a.
        then_sum (if 0 < collateral
                  then amount_entry env ''collateralBaseUnits'' collateral market ''collateralDecimals''
                  else Inr []) (\<lambda>k. Inr (b @ a @ k)))))"

definition max_or_amount :: "outside \<Rightarrow> rat option \<Rightarrow> json \<Rightarrow> string \<Rightarrow> exn + (string \<times> json) list" where
  "max_or_amount env amount market decimals =
     (case amount of
        None \<Rightarrow> Inr [(''max'', JBool True)]
      | Some a \<Rightarrow> amount_entry env ''amountBaseUnits'' a market decimals)"

definition build_repay ::
  "settings \<Rightarrow> outside \<Rightarrow> string \<Rightarrow> string \<Rightarrow> json \<Rightarrow> rat option \<Rightarrow> ('z world_scheme, json) io" where
  "build_repay c env jwt wallet market amount =
     morpho_send c env jwt ''/actions/morpho/repay''
       (then_sum (market_body wallet market) (\<lambda>b.
        then_sum (max_or_amount env amount market ''loanDecimals'') (\<lambda>a. Inr (b @ a))))"

definition build_withdraw ::
  "settings \<Rightarrow> outside \<Rightarrow> string \<Rightarrow> string \<Rightarrow> json \<Rightarrow> rat option \<Rightarrow> string \<Rightarrow> ('z world_scheme, json) io" where
  "build_withdraw c env jwt wallet market amount target =
     morpho_send c env jwt ''/actions/morpho/withdraw''
       (then_sum (market_body wallet market) (\<lambda>b.
        then_sum (max_or_amount env amount market
            (if target = ''supply'' then ''loanDecimals'' else ''collateralDecimals'')) (\<lambda>a.
          Inr (b @ (''target'', JStr target) # a))))"

definition morpho_execute ::
  "settings \<Rightarrow> outside \<Rightarrow> string \<Rightarrow> string \<Rightarrow> json \<Rightarrow> ('z world_scheme, json list) io" where
  "morpho_execute c env enc_key_ref wallet built =
     bind (from_sum (list_field ''transactions'' built)) (\<lambda>txs.
       if txs = [] then
         throw (MorphoError (''nothing to sign '' @ long_dash @ '' try again in a moment''))
       else run_list c env MorphoError None enc_key_ref wallet (length txs) [] txs)"

section \<open>What the base units are\<close>

text \<open>Rounding keeps pace with a shift of the point, so a number of at most 28 digits is exact wherever
  its point is.\<close>

lemma rnd_shift:
  assumes "0 < x" "2 \<le> b"
  shows "rnd b p (x * of_nat b powi e) = rnd b p x * of_nat b powi e"
proof -
  define B :: rat where "B = of_nat b"
  have B: "0 < B" "B \<noteq> 0" using assms(2) by (simp_all add: B_def)
  have Be: "0 < B powi e" using B by (intro zero_less_power_int)
  have m: "B powi mag b x \<le> x" "x < B powi (mag b x + 1)"
    using mag_bounds [OF assms] by (simp_all add: B_def)
  have "B powi (mag b x + e) \<le> x * B powi e" "x * B powi e < B powi (mag b x + e + 1)"
    using mult_right_mono [OF m(1), of "B powi e"] mult_strict_right_mono [OF m(2) Be] Be B
    by (simp_all add: power_int_add ac_simps)
  then have mag: "mag b (x * B powi e) = mag b x + e"
    using mag_unique [of b "mag b x + e" "x * B powi e"] assms(2) by (simp add: B_def)
  have u: "B powi (mag b x + e - (int p - 1)) = B powi (mag b x - (int p - 1)) * B powi e"
    using B by (simp add: algebra_simps flip: power_int_add)
  have "0 < x * B powi e" using assms(1) Be by simp
  then have "rnd b p (x * B powi e) =
      of_int (round_half_even (x * B powi e / (B powi (mag b x - (int p - 1)) * B powi e))) *
      (B powi (mag b x - (int p - 1)) * B powi e)"
    unfolding rnd_def Let_def B_def [symmetric] using assms(1) by (simp add: mag u)
  then show ?thesis
    using assms(1) Be unfolding rnd_def Let_def B_def [symmetric] by (simp add: ac_simps)
qed

lemma dec28_digits:
  assumes "0 \<le> m" "m < 10 ^ 28"
  shows "dec28 (of_int m * 10 powi e) = of_int m * 10 powi e"
proof (cases "m = 0")
  case True
  then show ?thesis by (simp add: dec28_def)
next
  case False
  have "rnd 10 28 (of_int m) = of_int m" using rnd_int [of m 10 28] assms by simp
  then show ?thesis
    using rnd_shift [of "of_int m" 10 28 e] assms False by (simp add: dec28_def)
qed

text \<open>The base units of an amount of at most 28 digits are its exact value in base units, rounded
  down: the program never sends more than was asked, nor less by a whole unit.\<close>

theorem base_units_floor:
  assumes "0 \<le> m" "m < 10 ^ 28" "d = of_int m / 10 ^ k"
  shows "base_units_of d decimals = \<lfloor>d * 10 ^ decimals\<rfloor>"
proof -
  have "d * 10 ^ decimals = of_int m * 10 powi (int decimals - int k)"
    unfolding assms(3) by (simp add: power_int_diff)
  moreover have "0 \<le> d * 10 ^ decimals" unfolding assms(3) using assms(1) by simp
  ultimately show ?thesis
    using dec28_digits [OF assms(1,2), of "int decimals - int k"] by (simp add: base_units_of_def py_int_def)
qed

text \<open>Zero decimals count as eighteen: a position of five whole units is shown as next to nothing.\<close>

lemma zero_decimals_read_as_eighteen:
  "int_field_or ''loanDecimals'' 18 (JObj [(''loanDecimals'', JInt 0)]) = Inr 18"
  by (simp add: int_field_or_def j_or_def int_of_def)

text \<open>The first of the greatest.\<close>

lemma best_of_max:
  "\<exists>y. (best_of (m, x) ms, y) \<in> set ((m, x) # ms) \<and> (\<forall>p\<in>set ((m, x) # ms). snd p \<le> y)"
proof (induction ms arbitrary: m x)
  case (Cons p ms)
  obtain m' y where p: "p = (m', y)" by fastforce
  show ?case
  proof (cases "x < y")
    case True
    with Cons.IH [of m' y] show ?thesis unfolding p by (auto intro: less_imp_le order_trans)
  next
    case False
    with Cons.IH [of m x] show ?thesis unfolding p by (auto intro: order_trans)
  qed
qed simp

text \<open>No supply market pays more than the one chosen.\<close>

lemma best_supply_market_best:
  assumes "best_supply_market rows = Inr m" "r \<in> set rows" "float_field ''supplyApy'' r = Inr z"
  shows "m \<in> set rows \<and> (\<exists>y. float_field ''supplyApy'' m = Inr y \<and> z \<le> y)"
proof -
  obtain ms where c: "collect (\<lambda>m. then_sum (float_field ''supplyApy'' m) (\<lambda>x. Inr (m, x))) rows = Inr ms"
    using assms(1) by (auto simp: best_supply_market_def then_sum_Inr)
  have each: "q \<in> set ms \<longleftrightarrow> fst q \<in> set rows \<and> float_field ''supplyApy'' (fst q) = Inr (snd q)" for q
    using c unfolding collect_Inr
    by (induction rows ms rule: list_all2_induct) (auto simp: then_sum_Inr prod_eq_iff)
  have in_ms: "(r, z) \<in> set ms" using each assms(2,3) by simp
  then obtain m0 x0 rest where ms: "ms = (m0, x0) # rest" by (cases ms) auto
  have "m = best_of (m0, x0) rest" using assms(1) c ms by (simp add: best_supply_market_def)
  with best_of_max [of m0 x0 rest] ms obtain y where "(m, y) \<in> set ms" "\<forall>p\<in>set ms. snd p \<le> y" by auto
  with each in_ms show ?thesis by fastforce
qed

lemma framed_morpho:
  "framed (morpho_markets c env jwt n)" "framed (morpho_positions c env jwt a)"
  "framed (build_supply c env jwt a mk x)" "framed (build_borrow c env jwt a mk x y)"
  "framed (build_repay c env jwt a mk z)" "framed (build_withdraw c env jwt a mk z t)"
  "framed (morpho_execute c env key a built)"
  unfolding morpho_markets_def morpho_positions_def morpho_read_def morpho_post_def build_supply_def
    build_borrow_def build_repay_def build_withdraw_def morpho_send_def morpho_execute_def
  by (intro framed_rules framed_venue_post framed_run_list)+

end
