(* ===== verification/Token_Launch.thy ===== *)
theory Token_Launch
  imports Venues Deposits
begin

text \<open>
  Launching tokens, \<open>app/services/launch.py\<close>: the image upload, the two launchpads, sending the
  transactions, and reading the new token's address off the receipt. The conversion of the image
  to a square picture is the image library's and is left out.
\<close>

section \<open>Asking the launchpads\<close>

definition ZERO_TOPIC :: string where
  "ZERO_TOPIC = ''0x'' @ replicate 64 CHR ''0''"

definition upload_image ::
  "settings \<Rightarrow> outside \<Rightarrow> string \<Rightarrow> string \<Rightarrow> string \<Rightarrow> ('z world_scheme, json) io" where
  "upload_image c env jwt bytes filename =
     bind (http_call env ''POST'' (rstrip_chars ''/'' (GATEWAY_URL c) @ ''/upload/image'')
             (JObj [(''headers'', JObj [(''X-Requested-With'', JStr ''XMLHttpRequest''),
                                        (''Authorization'', JStr (''Bearer '' @ jwt))]),
                    (''files'', JObj [(''file'', JArr [JStr filename, JStr bytes])])])) (\<lambda>o1.
       case o1 of
         Transport_Error cls msg \<Rightarrow> throw (LaunchError (''image upload failed: '' @ msg))
       | Reply status body \<Rightarrow>
           if status \<noteq> 200 then
             throw (LaunchError (''image upload failed: '' @ error_text_of env (status, body)))
           else
             bind (from_sum (json_body (status, body))) (\<lambda>j.
             bind (from_sum (field ''url'' j)) (\<lambda>u.
               if truthy u then return u else throw (LaunchError ''image upload returned no URL''))))"

text \<open>The optional entries of a body: those that hold a text.\<close>

definition given_texts :: "(string \<times> string option) list \<Rightarrow> (string \<times> json) list" where
  "given_texts xs =
     List.map_filter (\<lambda>(k, v). if or_text_opt v [] = [] then None else Some (k, JStr (or_text_opt v []))) xs"

definition launch_post ::
  "settings \<Rightarrow> outside \<Rightarrow> string \<Rightarrow> string \<Rightarrow> json \<Rightarrow> ('z world_scheme, json) io" where
  "launch_post c env jwt path body =
     bind (venue_post c env LaunchError jwt path body) (\<lambda>res.
     bind (from_sum (field ''transactions'' res)) (\<lambda>txs.
       if truthy txs then return res else throw (LaunchError ''the launchpad returned no transaction'')))"

definition pools_launch ::
  "settings \<Rightarrow> outside \<Rightarrow> string \<Rightarrow> string \<Rightarrow> string \<Rightarrow> string \<Rightarrow> string option \<Rightarrow> string \<Rightarrow> string option
    \<Rightarrow> string option \<Rightarrow> string \<Rightarrow> ('z world_scheme, json) io" where
  "pools_launch c env jwt name ticker wallet image_data_uri description website x_url mode =
     launch_post c env jwt ''/actions/uniswap/launch/create''
       (JObj ([(''mode'', JStr mode), (''tokenName'', JStr name), (''tokenSymbol'', JStr ticker),
               (''walletAddress'', JStr wallet), (''description'', JStr description)] @
          given_texts [(''imageUrl'', image_data_uri), (''website'', website), (''xUrl'', x_url)]))"

definition pons_launch ::
  "settings \<Rightarrow> outside \<Rightarrow> string \<Rightarrow> string \<Rightarrow> string \<Rightarrow> string \<Rightarrow> string option \<Rightarrow> string option
    \<Rightarrow> string option \<Rightarrow> string option \<Rightarrow> string option \<Rightarrow> ('z world_scheme, json) io" where
  "pons_launch c env jwt name ticker wallet logo description website twitter telegram =
     launch_post c env jwt ''/actions/pons/launch''
       (JObj ([(''name'', JStr name), (''symbol'', JStr ticker), (''walletAddress'', JStr wallet)] @
          given_texts [(''logo'', logo), (''description'', description), (''website'', website),
            (''twitter'', twitter), (''telegram'', telegram)]))"

definition pons_token_meta :: "settings \<Rightarrow> outside \<Rightarrow> string \<Rightarrow> string \<Rightarrow> ('z world_scheme, json) io" where
  "pons_token_meta c env jwt token_address =
     bind (try_except
             (bind (gateway_post c env ''/actions/pons/token-meta''
                      (JObj [(''tokenAddress'', JStr token_address)]) (Some jwt)) (\<lambda>r. return (Some r)))
             (\<lambda>e. case e of GatewayError _ \<Rightarrow> return None | _ \<Rightarrow> throw e)) (\<lambda>answer.
       case answer of
         None \<Rightarrow> return JNull
       | Some r \<Rightarrow>
           if fst r \<noteq> 200 then return JNull
           else bind (from_sum (json_body r)) (\<lambda>j. from_sum (field ''token'' (j_or j (JObj [])))))"

section \<open>Sending\<close>

definition launch_label :: "nat \<Rightarrow> nat \<Rightarrow> string" where
  "launch_label n all_n = ''launch '' @ step_label n all_n"

primrec run_launch ::
  "settings \<Rightarrow> outside \<Rightarrow> string \<Rightarrow> string \<Rightarrow> nat \<Rightarrow> json list \<Rightarrow> json list \<Rightarrow> ('z world_scheme, json list) io" where
  "run_launch c env enc_key_ref from_addr all_n hashes [] = return hashes"
| "run_launch c env enc_key_ref from_addr all_n hashes (data # rest) =
     bind (run_tx c env LaunchError None enc_key_ref from_addr
             (launch_label (length hashes + 1) all_n) data) (\<lambda>h.
       run_launch c env enc_key_ref from_addr all_n (hashes @ [h]) rest)"

definition launch_execute ::
  "settings \<Rightarrow> outside \<Rightarrow> string \<Rightarrow> string \<Rightarrow> json \<Rightarrow> ('z world_scheme, json list) io" where
  "launch_execute c env enc_key_ref from_addr res =
     bind (from_sum (list_field ''transactions'' res)) (\<lambda>txs.
       run_launch c env enc_key_ref from_addr (length txs) [] txs)"

section \<open>The new token\<close>

text \<open>A mint: a transfer out of the zero address. \<open>len(topics) \<ge> 3\<close> of a text holds for a long one,
  whose first character is no topic.\<close>

definition is_mint :: "json \<Rightarrow> exn + bool" where
  "is_mint lg =
     then_sum (field ''topics'' lg) (\<lambda>t.
       case j_or t (JArr []) of
         JArr xs \<Rightarrow> Inr (3 \<le> length xs \<and> xs ! 0 = JStr TRANSFER_TOPIC \<and> xs ! 1 = JStr ZERO_TOPIC)
       | JStr s \<Rightarrow> Inr False
       | JObj kvs \<Rightarrow> if 3 \<le> length (remdups (map fst kvs)) then Inl (KeyError ''0'') else Inr False
       | _ \<Rightarrow> Inl TypeError)"

primrec first_mint :: "json list \<Rightarrow> exn + json" where
  "first_mint [] = Inr JNull"
| "first_mint (lg # rest) =
     then_sum (is_mint lg) (\<lambda>hit. if hit then field ''address'' lg else first_mint rest)"

text \<open>\<open>(receipt or {}).get("logs", [])\<close>.\<close>

definition receipt_logs :: "json \<Rightarrow> exn + json list" where
  "receipt_logs receipt =
     (case j_or receipt (JObj []) of
        JObj kvs \<Rightarrow> iterate (case map_of kvs ''logs'' of None \<Rightarrow> JArr [] | Some v \<Rightarrow> v)
      | _ \<Rightarrow> Inl AttributeError)"

definition token_address_from_receipt ::
  "settings \<Rightarrow> outside \<Rightarrow> json \<Rightarrow> ('z world_scheme, json) io" where
  "token_address_from_receipt c env tx_hash =
     bind (rpc c env ''eth_getTransactionReceipt'' [tx_hash] CHAIN_ID) (\<lambda>receipt.
     bind (from_sum (receipt_logs receipt)) (\<lambda>logs. from_sum (first_mint logs)))"

section \<open>Which address it reads\<close>

lemma first_mint_skips:
  "(\<forall>lg\<in>set before. is_mint lg = Inr False) \<Longrightarrow> is_mint lg = Inr True \<Longrightarrow>
     first_mint (before @ lg # after) = field ''address'' lg"
  by (induction before) simp_all

lemma first_mint_none: "(\<forall>lg\<in>set logs. is_mint lg = Inr False) \<Longrightarrow> first_mint logs = Inr JNull"
  by (induction logs) simp_all

end
