(* ===== verification/Spec2Isabelle.thy ===== *)
theory Spec2Isabelle
  imports Deposits Linking Claims Payments Credits PyFloat PyText Calendar Venues Pricing Copy_Watcher Alerts Usage_Caps Cashback Chunkers Crawl_Sources Memory_Isolation Share_Snapshots Session_Pages Turn_Gates Usage_Ledger User_Facts Tax_Report Position_Risk Fee_Estimates Morpho_Lending Token_Launch
begin

text \<open>
  Oprai: the custodial Telegram bot, the money-bearing and quota-bearing parts of the chat service,
  the memory service and knowledge ingestion, modelled from the Python sources.

  The program. The repository is a set of services. The Telegram bot
  (\<open>src/services/oprai-tg-bot/app\<close>) keeps users, wallets, credits, subscriptions, claimable
  transfers, copy-trade limits and alerts in PostgreSQL, reads chains over JSON-RPC, asks the
  gateway for venue quotes, and has a separate signer sign. The chat service
  (\<open>src/services/chat-service-py/app\<close>) keeps conversations and their public links, talks to
  language models under usage caps kept in Redis
  and pays cashback. Knowledge ingestion (\<open>src/services/knowledge-ingestion-service/app\<close>) cuts
  crawled documents into chunks and keeps a vector index of them. The memory service
  (\<open>src/services/memory-service-py/app\<close>) keeps what users consented to have remembered. The other services and the
  browser client are written in Rust, Go and TypeScript and are reached over HTTP only.

  How the model reads. A database table is an association list with the SQL statements of
  Prelude; its key order is insertion order. A coroutine is a state transformer \<open>io\<close> of World that
  ends in a value or an exception of \<open>exn\<close>; its state is a record that extends \<open>world\<close> with the
  tables the component touches. Everything outside the Python process (HTTP servers, nodes, the
  signer, the clock, the environment, Redis being reachable) is the parameter \<open>outside\<close>. Every look
  at the outside is numbered, so one question may be answered differently each time. Where callers
  race, the coroutine is a program of atomic statements (Interleave), and a schedule is any
  sequence of steps. Timestamps are microseconds; Python's unbounded integers are \<open>int\<close>; a finite
  float is the rational it denotes and every operation rounds once (PyFloat); strings are lists of
  bytes.

  Theories and sources.

  \<^item> Prelude, World, PyFloat, PyText, Calendar, Readings: time, tables, JSON values, effects,
    binary64 and \<open>Decimal\<close> arithmetic, Python strings, civil dates, \<open>float(x)\<close>.
  \<^item> Once_Lock, Interleave: two interfaces as locales, "the status change is the lock" and
    programs of atomic statements whose wins are counted; both are interpreted on the tables of
    Linking, Claims, Credits and Payments.
  \<^item> Settings: \<open>config.py\<close>. Chains: \<open>services/chains.py\<close>. Evm: \<open>services/evm.py\<close> and
    \<open>signer_client.py\<close> (node fallback, batches, building, signing, sending, waiting). Gateway:
    \<open>gateway_client.py\<close>, \<open>services/auth.py\<close>.
  \<^item> Wallet: \<open>services/wallet.py\<close>. Portfolio: \<open>services/portfolio.py\<close>. Tokens:
    \<open>services/tokens.py\<close>. Deposits: \<open>services/deposits.py\<close>.
  \<^item> Credits: \<open>services/credits.py\<close>. Linking: \<open>services/linking.py\<close>. Claims: \<open>services/claims.py\<close>.
    Subscription_Store, Payments: \<open>services/subscriptions.py\<close>. Pricing: \<open>services/pricing.py\<close>.
  \<^item> Venues: \<open>services/relay.py\<close>, \<open>sushi.py\<close>, \<open>uniswap.py\<close>, \<open>opensea.py\<close>.
  \<^item> Notify: \<open>services/notify.py\<close>. Copy_Trade, Copy_Watcher: \<open>services/copy_engine.py\<close>,
    \<open>copy_store.py\<close>, \<open>copy_executor.py\<close>, \<open>copy_watcher.py\<close>, with the wiring of \<open>main.py\<close>. Alerts:
    \<open>services/signals_client.py\<close>, \<open>alerts.py\<close>, \<open>alert_store.py\<close>, \<open>alert_worker.py\<close>.
  \<^item> Chat_Cache, Usage_Caps, Cashback: the chat service's \<open>services/cache.py\<close>, \<open>cost_cap.py\<close>,
    \<open>evm_payout.py\<close> and the claim and referral endpoints of \<open>main.py\<close>.
  \<^item> Py_Pieces, Chunkers: knowledge ingestion's \<open>chunkers/markdown_header.py\<close>, \<open>code_fence.py\<close>,
    \<open>paragraph.py\<close>, \<open>sentence_window.py\<close> and \<open>services/chunker_router.py\<close>; the regular expressions
    are written out as functions.
  \<^item> Knowledge_Index: \<open>services/sparse.py\<close>, \<open>deduper.py\<close>, \<open>embedder.py\<close>, \<open>qdrant_writer.py\<close>,
    \<open>pipeline.py\<close>, with \<open>sources/base.py\<close>, \<open>db/models.py\<close>, \<open>config.py\<close>. Index_Mirror: the interface
    of a source as the locale \<open>source_adapter\<close>, and what a pass makes of the index. Crawl_Sources:
    \<open>sources/docs_crawler.py\<close>, \<open>rss_poller.py\<close>, \<open>services/normaliser.py\<close> and the endpoints of \<open>main.py\<close>,
    with the interpretation of that locale.
  \<^item> Memory_Store: the memory service's \<open>services/consent.py\<close>, \<open>vector.py\<close>, \<open>embeddings.py\<close>,
    \<open>summary.py\<close> and \<open>models\<close>. Memory_Api: \<open>main.py\<close>, \<open>middleware/auth.py\<close>, \<open>services/audit_service.py\<close>
    and \<open>grpc_server.py\<close>. Memory_Isolation: its invariants and theorems; the scroll over a user's points
    has one more round of fuel than there are points, which \<open>scroll_all\<close> shows to be enough.
  \<^item> Uuid_Text: the texts of identifiers and moments, and that a moment is read back from its text.
    Chat_Sessions: the chat service's \<open>services/session.py\<close>, \<open>services/share.py\<close>, the persistence part of
    \<open>services/message.py\<close> and the models. Chat_Api: \<open>middleware/auth.py\<close>, the transaction of
    \<open>db/connection.py\<close> and the session, share and message routes of \<open>main.py\<close>. Chat_Turns: the gates
    and writes of a turn in \<open>services/message.py\<close>, the endpoints of \<open>main.py\<close> that start one, and runs of
    requests. Share_Snapshots: what a public link shows over any run. Session_Pages: access, and the
    pages of the list. Turn_Gates: when a turn is stored, and the ways around the gates.
  \<^item> Usage_Ledger: the chat service's \<open>services/usage_ledger.py\<close>, whose daily rows are shown to be the sums
    of its calls, and the buckets of \<open>services/experiments.py\<close>. User_Facts: \<open>services/user_facts.py\<close> and the
    memory routes of \<open>main.py\<close>: which facts are kept, and how they decay.
  \<^item> Scores and reports of the chat service, pure functions of a request. Float_Values: evaluating roundings,
    and Python's sum of floats. Token_Security: \<open>services/token_security.py\<close> on the cache, whose scores are
    percentages and whose answer the first caller decides. Position_Risk: \<open>services/risk_assessment.py\<close>.
    Tax_Report: \<open>services/tax_report.py\<close>. Fee_Estimates: \<open>services/mev_protection.py\<close>.
  \<^item> Lighter_Perps: the bot's \<open>services/lighter.py\<close>, with the table of deposits the bridge has not credited
    yet: announced once, and what a failing check does to them; the wait for the account has a round of
    fuel for every four seconds, which \<open>wait_for_account_ends\<close> shows to be enough. Morpho_Lending:
    \<open>services/morpho.py\<close>, whose base units are exact. Token_Launch: \<open>services/launch.py\<close>.

  What the lemmas show. Per table an invariant every operation preserves (Wallet: no key is lost
  and a user has one active wallet; Credits: no counter is negative; Payments: granted months are
  paid for; Copy_Trade: every fill is within its limits; Alerts: sent alerts are spaced; Cashback:
  an account is never paid more than it earned). For the racing operations, that holds for every
  interleaving. Functional results on every branch, error branches included; equivalence of the
  venue executors with plain sequential sending; refinement of running totals by the counters in
  the cache, and of a document by its chunks in the index; isolation of one user's memories from the
  requests of others, and what a public link shows; round trips of encodings. Where the code does not do what it says, the behaviour is
  proved as such and listed as a finding.

  Bounds and fuel. The receipt loop of \<open>wait_receipt\<close> takes its own number of rounds as fuel and
  \<open>wait_receipt_ends\<close> shows that enough rounds exist whenever the clock advances; the halving of log
  windows recurses on the length of the window; the background loops (copy watcher, alert worker)
  are functions of the number of rounds, and their theorems hold for every number.

  Not modelled. Log lines; the chat and progress callbacks of the long operations; the Telegram
  handlers (menus, keyboards, wording) except the alert sender; JSON text and HTTP framing; foreign
  keys (rows referred to are assumed to be there); the collation of the database, which is an
  argument where an order depends on it; infinite floats and NaN; strings beyond what the
  operations used do on UTF-8 bytes with ASCII case. The SQL views behind the cashback
  earnings are part of the state. Block summaries, which follow a turn, are left out.
  The column \<open>block\<close> of \<open>tg_balance_watch\<close>, which the deposit watcher uses and the schema lacks, is taken
  to exist. The prompt building, tool routing and market data
  clients of the chat service are glue over models and providers that are not in the repository.
\<close>

end
